(* ===== verification/Prelude.thy ===== *)
theory Prelude
  imports Main "HOL-Library.Word" "HOL-Library.List_Lexorder" "HOL-Library.Sublist"
begin

text \<open>
  Shared vocabulary of the development: Rust strings as lists of Unicode scalar values with
  their UTF-8 byte length, the white-space and prefix operations of \<open>str\<close>, decimal formatting,
  ordered maps, results as sums, and the collections of rewrite rules that the component
  theories use.
\<close>

named_theorems run_simps \<open>unfolding rules for the operations of the agent runtime\<close>
named_theorems policy_simps \<open>unfolding rules for the command policy\<close>
named_theorems ev_simps \<open>observers of agent events\<close>

section \<open>Strings\<close>

text \<open>
  A Rust \<open>char\<close> is a Unicode scalar value, a \<open>String\<close> is a sequence of them stored as UTF-8.
  \<open>String::len\<close> counts bytes, \<open>chars()\<close> yields the scalar values.
\<close>

type_synonym uchar = nat
type_synonym ustring = "uchar list"

definition lit :: "string \<Rightarrow> ustring" where
  "lit s = map of_char s"

lemma lit_eq_iff [simp]: "lit s = lit t \<longleftrightarrow> s = t"
  by (auto simp: lit_def inj_map_eq_map inj_def)

lemma lit_Nil [simp]: "lit [] = []"
  by (simp add: lit_def)

lemma lit_eq_Nil [simp]: "lit s = [] \<longleftrightarrow> s = []"
  by (simp add: lit_def)

lemma Nil_eq_lit [simp]: "[] = lit s \<longleftrightarrow> s = []"
  by (auto simp: lit_def)

lemma length_lit [simp]: "length (lit s) = length s"
  by (simp add: lit_def)

lemma lit_append: "lit (s @ t) = lit s @ lit t"
  by (simp add: lit_def)

text \<open>The \<open>'{}'\<close> of the message formats.\<close>

definition quoted :: "ustring \<Rightarrow> ustring" where
  "quoted s = 39 # s @ [39]"

text \<open>\<open>char::len_utf8\<close> and \<open>str::len\<close>.\<close>

definition len_utf8 :: "uchar \<Rightarrow> nat" where
  "len_utf8 c = (if c < 128 then 1 else if c < 2048 then 2 else if c < 65536 then 3 else 4)"

definition byte_len :: "ustring \<Rightarrow> nat" where
  "byte_len s = sum_list (map len_utf8 s)"

lemma len_utf8_bounds: "1 \<le> len_utf8 c" "len_utf8 c \<le> 4"
  by (auto simp: len_utf8_def)

lemma byte_len_simps [simp]:
  "byte_len [] = 0" "byte_len (c # s) = len_utf8 c + byte_len s"
  "byte_len (s @ t) = byte_len s + byte_len t"
  by (auto simp: byte_len_def)

lemma byte_len_eq_0 [simp]: "byte_len s = 0 \<longleftrightarrow> s = []"
  by (cases s) (auto simp: len_utf8_def)

lemma length_le_byte_len: "length s \<le> byte_len s"
proof (induction s)
  case (Cons c s)
  then show ?case using len_utf8_bounds(1) [of c] by simp
qed simp

text \<open>\<open>char::is_whitespace\<close> (the Unicode White_Space property) and \<open>str::trim\<close>.\<close>

definition is_whitespace :: "uchar \<Rightarrow> bool" where
  "is_whitespace c \<longleftrightarrow>
     (9 \<le> c \<and> c \<le> 13) \<or> c = 32 \<or> c = 0x85 \<or> c = 0xA0 \<or> c = 0x1680
     \<or> (0x2000 \<le> c \<and> c \<le> 0x200A) \<or> c = 0x2028 \<or> c = 0x2029 \<or> c = 0x202F
     \<or> c = 0x205F \<or> c = 0x3000"

definition trim_end :: "ustring \<Rightarrow> ustring" where
  "trim_end s = rev (dropWhile is_whitespace (rev s))"

definition trim :: "ustring \<Rightarrow> ustring" where
  "trim s = trim_end (dropWhile is_whitespace s)"

lemma trim_eq_Nil_iff: "trim s = [] \<longleftrightarrow> (\<forall>c \<in> set s. is_whitespace c)"
proof -
  have "trim s = [] \<longleftrightarrow> (\<forall>c \<in> set (dropWhile is_whitespace s). is_whitespace c)"
    by (simp add: trim_def trim_end_def dropWhile_eq_Nil_conv)
  also have "\<dots> \<longleftrightarrow> (\<forall>c \<in> set s. is_whitespace c)"
    by (induction s) auto
  finally show ?thesis .
qed

text \<open>\<open>trim().is_empty()\<close> is the guard of every non-emptiness check of the code.\<close>

definition is_blank :: "ustring \<Rightarrow> bool" where
  "is_blank s \<longleftrightarrow> trim s = []"

lemma is_blank_iff: "is_blank s \<longleftrightarrow> (\<forall>c \<in> set s. is_whitespace c)"
  by (simp add: is_blank_def trim_eq_Nil_iff)

lemma is_blank_Nil [simp]: "is_blank []"
  by (simp add: is_blank_iff)

lemma is_blank_append [simp]: "is_blank (s @ t) \<longleftrightarrow> is_blank s \<and> is_blank t"
  by (auto simp: is_blank_iff)

text \<open>\<open>str::starts_with\<close>, \<open>strip_prefix\<close> and \<open>split_once\<close> at a character.\<close>

fun strip_prefix_of :: "ustring \<Rightarrow> ustring \<Rightarrow> ustring option" where
  "strip_prefix_of [] s = Some s"
| "strip_prefix_of (p # ps) [] = None"
| "strip_prefix_of (p # ps) (c # s) = (if p = c then strip_prefix_of ps s else None)"

definition starts_with :: "ustring \<Rightarrow> ustring \<Rightarrow> bool" where
  "starts_with s p \<longleftrightarrow> strip_prefix_of p s \<noteq> None"

lemma strip_prefix_of_Some: "strip_prefix_of p s = Some r \<longleftrightarrow> s = p @ r"
  by (induction p s rule: strip_prefix_of.induct) auto

lemma starts_with_iff: "starts_with s p \<longleftrightarrow> prefix p s"
  by (auto simp: starts_with_def strip_prefix_of_Some prefix_def)

fun split_once :: "uchar \<Rightarrow> ustring \<Rightarrow> (ustring \<times> ustring) option" where
  "split_once d [] = None"
| "split_once d (c # s) =
     (if c = d then Some ([], s)
      else (case split_once d s of None \<Rightarrow> None | Some (a, b) \<Rightarrow> Some (c # a, b)))"

lemma split_once_append: "d \<notin> set a \<Longrightarrow> split_once d (a @ d # b) = Some (a, b)"
  by (induction a) auto

lemma split_once_SomeD: "split_once d s = Some (a, b) \<Longrightarrow> s = a @ d # b \<and> d \<notin> set a"
  by (induction s arbitrary: a) (auto split: if_splits option.splits)

lemma split_once_Some: "split_once d s = Some (a, b) \<longleftrightarrow> s = a @ d # b \<and> d \<notin> set a"
  by (metis split_once_append split_once_SomeD)

lemma split_once_None: "split_once d s = None \<longleftrightarrow> d \<notin> set s"
  by (induction s) (auto split: option.splits)

text \<open>\<open>str::contains\<close>.\<close>

fun contains_str :: "ustring \<Rightarrow> ustring \<Rightarrow> bool" where
  "contains_str p [] = (p = [])"
| "contains_str p (c # s) = (starts_with (c # s) p \<or> contains_str p s)"

section \<open>Decimal formatting\<close>

text \<open>\<open>format!("{n}")\<close> and \<open>format!("{n:03}")\<close> of an unsigned integer.\<close>

fun dec_string :: "nat \<Rightarrow> ustring" where
  "dec_string n = (if n < 10 then [48 + n] else dec_string (n div 10) @ [48 + n mod 10])"

declare dec_string.simps [simp del]

definition pad3 :: "nat \<Rightarrow> ustring" where
  "pad3 n = replicate (3 - length (dec_string n)) 48 @ dec_string n"

definition undec :: "ustring \<Rightarrow> nat" where
  "undec s = foldl (\<lambda>v c. 10 * v + (c - 48)) 0 s"

lemma undec_dec_string: "undec (dec_string n) = n"
proof (induction n rule: dec_string.induct)
  case (1 n)
  then show ?case
    by (cases "n < 10") (simp_all add: undec_def dec_string.simps [of n])
qed

lemma undec_zeros: "undec (replicate k 48 @ s) = undec s"
  by (induction k) (simp_all add: undec_def)

lemma pad3_inject [simp]: "pad3 m = pad3 n \<longleftrightarrow> m = n"
  by (metis pad3_def undec_dec_string undec_zeros)

section \<open>Ordered maps\<close>

text \<open>
  A \<open>BTreeMap\<close> is its entries in ascending key order; \<open>get\<close>, \<open>insert\<close> and the iteration order
  are those of the library. Rust compares strings by their UTF-8 bytes, which is the
  lexicographic order of the scalar values.
\<close>

type_synonym ('k, 'v) btree_map = "('k \<times> 'v) list"

definition bt_get :: "('k, 'v) btree_map \<Rightarrow> 'k \<Rightarrow> 'v option" where
  "bt_get m k = map_of m k"

fun bt_insert :: "'k::linorder \<Rightarrow> 'v \<Rightarrow> ('k, 'v) btree_map \<Rightarrow> ('k, 'v) btree_map" where
  "bt_insert k v [] = [(k, v)]"
| "bt_insert k v ((k', v') # m) =
     (if k < k' then (k, v) # (k', v') # m
      else if k = k' then (k, v) # m
      else (k', v') # bt_insert k v m)"

definition bt_ok :: "('k::linorder, 'v) btree_map \<Rightarrow> bool" where
  "bt_ok m \<longleftrightarrow> sorted_wrt (<) (map fst m)"

lemma bt_ok_Nil [simp]: "bt_ok []"
  by (simp add: bt_ok_def)

lemma set_keys_bt_insert [simp]: "set (map fst (bt_insert k v m)) = insert k (set (map fst m))"
  by (induction k v m rule: bt_insert.induct) auto

lemma bt_ok_insert [simp]: "bt_ok m \<Longrightarrow> bt_ok (bt_insert k v m)"
proof (induction m)
  case (Cons a m)
  obtain k' v' where a: "a = (k', v')" by (cases a)
  from Cons have IH: "bt_ok (bt_insert k v m)" by (simp add: bt_ok_def)
  have "\<forall>x \<in> set (map fst (bt_insert k v m)). k' < x" if "k' < k"
    using that Cons.prems a by (simp only: set_keys_bt_insert) (simp add: bt_ok_def)
  with IH Cons.prems show ?case
    by (auto simp: bt_ok_def a)
qed (simp add: bt_ok_def)

lemma bt_get_insert [simp]: "bt_get (bt_insert k v m) k' = (if k' = k then Some v else bt_get m k')"
  by (induction m) (auto simp: bt_get_def)

lemma bt_get_Nil [simp]: "bt_get [] k = None"
  by (simp add: bt_get_def)

lemma length_bt_insert_fresh: "bt_get m k = None \<Longrightarrow> length (bt_insert k v m) = Suc (length m)"
  by (induction m) (auto simp: bt_get_def split: if_splits)

lemma bt_ok_distinct: "bt_ok m \<Longrightarrow> distinct (map fst m)"
  unfolding bt_ok_def by (simp add: strict_sorted_iff)

section \<open>Results\<close>

text \<open>\<open>Result<A, E>\<close> is \<open>E + A\<close>; \<open>?\<close> is \<open>try_res\<close>.\<close>

definition try_res :: "'e + 'a \<Rightarrow> ('a \<Rightarrow> 'e + 'b) \<Rightarrow> 'e + 'b" where
  "try_res r f = (case r of Inl e \<Rightarrow> Inl e | Inr a \<Rightarrow> f a)"

lemma try_res_simps [simp]: "try_res (Inl e) f = Inl e" "try_res (Inr a) f = f a"
  by (simp_all add: try_res_def)

lemma try_res_Inr: "try_res r f = Inr b \<longleftrightarrow> (\<exists>a. r = Inr a \<and> f a = Inr b)"
  by (cases r) auto

lemma try_res_Inl: "try_res r f = Inl e \<longleftrightarrow> r = Inl e \<or> (\<exists>a. r = Inr a \<and> f a = Inl e)"
  by (cases r) auto

definition map_err :: "('e \<Rightarrow> 'f) \<Rightarrow> 'e + 'a \<Rightarrow> 'f + 'a" where
  "map_err g r = (case r of Inl e \<Rightarrow> Inl (g e) | Inr a \<Rightarrow> Inr a)"

lemma map_err_simps [simp]: "map_err g (Inl e) = Inl (g e)" "map_err g (Inr a) = Inr a"
  by (simp_all add: map_err_def)

lemma map_err_Inr [simp]: "map_err g r = Inr a \<longleftrightarrow> r = Inr a"
  by (cases r) auto

section \<open>Operations with state and failure\<close>

text \<open>An operation takes a state and returns a failure or a value, and the state after it.\<close>

type_synonym ('e, 'w, 'a) op = "'w \<Rightarrow> ('e + 'a) \<times> 'w"

definition op_return :: "'a \<Rightarrow> ('e, 'w, 'a) op" where
  "op_return a w = (Inr a, w)"

definition op_fail :: "'e \<Rightarrow> ('e, 'w, 'a) op" where
  "op_fail e w = (Inl e, w)"

definition op_result :: "'e + 'a \<Rightarrow> ('e, 'w, 'a) op" where
  "op_result r w = (r, w)"

definition op_bind :: "('e, 'w, 'a) op \<Rightarrow> ('a \<Rightarrow> ('e, 'w, 'b) op) \<Rightarrow> ('e, 'w, 'b) op" where
  "op_bind m f w = (case m w of (Inl e, w1) \<Rightarrow> (Inl e, w1) | (Inr a, w1) \<Rightarrow> f a w1)"


text \<open>The result as a value, for code that matches on it, and \<open>map_err\<close>.\<close>

definition op_attempt :: "('e, 'w, 'a) op \<Rightarrow> ('f, 'w, 'e + 'a) op" where
  "op_attempt m w = (case m w of (r, w1) \<Rightarrow> (Inr r, w1))"

definition op_map_err :: "('e \<Rightarrow> 'f) \<Rightarrow> ('e, 'w, 'a) op \<Rightarrow> ('f, 'w, 'a) op" where
  "op_map_err g m w = (case m w of (r, w1) \<Rightarrow> (map_err g r, w1))"

text \<open>
  \<open>triple P m Q E\<close>: from a world with \<open>P\<close>, \<open>m\<close> returns a value and a world with \<open>Q\<close>, or fails with
  a failure and a world with \<open>E\<close>.
\<close>

definition triple ::
    "('w \<Rightarrow> bool) \<Rightarrow> ('e, 'w, 'a) op \<Rightarrow> ('a \<Rightarrow> 'w \<Rightarrow> bool) \<Rightarrow> ('e \<Rightarrow> 'w \<Rightarrow> bool) \<Rightarrow> bool" where
  "triple P m Q E \<longleftrightarrow>
     (\<forall>w. P w \<longrightarrow> (case m w of (Inr a, w') \<Rightarrow> Q a w' | (Inl e, w') \<Rightarrow> E e w'))"

lemma triple_return [run_simps]: "triple P (op_return a) Q E \<longleftrightarrow> (\<forall>w. P w \<longrightarrow> Q a w)"
  by (simp add: triple_def op_return_def)

lemma triple_bind:
  assumes "triple P m R E" and "\<And>a. triple (R a) (f a) Q E"
  shows "triple P (op_bind m f) Q E"
  unfolding triple_def
proof (intro allI impI)
  fix w assume "P w"
  with assms(1) have m: "case m w of (Inr a, w') \<Rightarrow> R a w' | (Inl e, w') \<Rightarrow> E e w'"
    by (simp add: triple_def)
  show "case op_bind m f w of (Inr a, w') \<Rightarrow> Q a w' | (Inl e, w') \<Rightarrow> E e w'"
  proof (cases "m w")
    case (Pair r w1)
    show ?thesis
    proof (cases r)
      case (Inl e)
      with m Pair show ?thesis by (simp add: op_bind_def)
    next
      case (Inr a)
      with m Pair have "R a w1" by simp
      with assms(2) [of a] show ?thesis by (simp add: op_bind_def Pair Inr triple_def)
    qed
  qed
qed

lemma triple_mono:
  assumes "triple P m Q E" and "\<And>w. P' w \<Longrightarrow> P w" and "\<And>a w. Q a w \<Longrightarrow> Q' a w"
    and "\<And>e w. E e w \<Longrightarrow> E' e w"
  shows "triple P' m Q' E'"
  unfolding triple_def
proof (intro allI impI)
  fix w assume "P' w"
  with assms(1,2) have "case m w of (Inr a, w') \<Rightarrow> Q a w' | (Inl e, w') \<Rightarrow> E e w'"
    by (simp add: triple_def)
  with assms(3,4) show "case m w of (Inr a, w') \<Rightarrow> Q' a w' | (Inl e, w') \<Rightarrow> E' e w'"
    by (auto split: prod.splits sum.splits)
qed

lemma triple_pre: "triple P m Q E \<Longrightarrow> (\<And>w. P' w \<Longrightarrow> P w) \<Longrightarrow> triple P' m Q E"
  by (rule triple_mono)

lemma triple_post: "triple P m Q E \<Longrightarrow> (\<And>a w. Q a w \<Longrightarrow> Q' a w) \<Longrightarrow> triple P m Q' E"
  by (rule triple_mono)

lemma triple_result:
  assumes "triple P m Q E" and "P w"
  shows "case m w of (Inr a, w') \<Rightarrow> Q a w' | (Inl e, w') \<Rightarrow> E e w'"
  using assms by (simp add: triple_def)

lemma triple_value:
  "triple P m Q E \<Longrightarrow> (\<And>w a w'. P w \<Longrightarrow> m w = (Inr a, w') \<Longrightarrow> R a w')
     \<Longrightarrow> triple P m (\<lambda>a w. Q a w \<and> R a w) E"
  by (auto simp: triple_def split: prod.splits sum.splits)

lemma triple_both:
  "triple P m Q E \<Longrightarrow> triple P' m Q' E' \<Longrightarrow>
     triple (\<lambda>w. P w \<and> P' w) m (\<lambda>a w. Q a w \<and> Q' a w) (\<lambda>e w. E e w \<and> E' e w)"
  by (auto simp: triple_def split: prod.splits sum.splits)

lemma triple_fail: "triple P (op_fail e) Q E \<longleftrightarrow> (\<forall>w. P w \<longrightarrow> E e w)"
  by (simp add: triple_def op_fail_def)

lemma triple_attempt:
  assumes "triple P m (\<lambda>a. Q (Inr a)) (\<lambda>e. Q (Inl e))"
  shows "triple P (op_attempt m) Q E"
  unfolding triple_def
proof (intro allI impI)
  fix w assume "P w"
  from triple_result [OF assms this]
  show "case op_attempt m w of (Inr a, w') \<Rightarrow> Q a w' | (Inl e, w') \<Rightarrow> E e w'"
    by (cases "m w"; cases "fst (m w)") (simp_all add: op_attempt_def)
qed

lemma triple_map_err: "triple P m Q (\<lambda>e. E (g e)) \<Longrightarrow> triple P (op_map_err g m) Q E"
  by (auto simp: triple_def op_map_err_def map_err_def split: prod.splits sum.splits)

lemma triple_False [simp]: "triple (\<lambda>_. False) m Q E"
  by (simp add: triple_def)

lemma triple_conj: "triple (\<lambda>w. P w \<and> b) m Q E \<longleftrightarrow> (b \<longrightarrow> triple P m Q E)"
  by (auto simp: triple_def)

lemma triple_ex:
  assumes "\<And>x. C x \<Longrightarrow> triple (P x) m Q E"
  shows "triple (\<lambda>w. \<exists>x. C x \<and> P x w) m Q E"
  unfolding triple_def
proof (intro allI impI)
  fix w assume "\<exists>x. C x \<and> P x w"
  then obtain x where "C x" "P x w" by blast
  from triple_result [OF assms [OF this(1)] this(2)]
  show "case m w of (Inr a, w') \<Rightarrow> Q a w' | (Inl e, w') \<Rightarrow> E e w'" .
qed

lemma triple_bind_pure:
  assumes "triple P m (\<lambda>a w. R a w \<and> b a) E" and "\<And>a. b a \<Longrightarrow> triple (R a) (f a) Q E"
  shows "triple P (op_bind m f) Q E"
  by (rule triple_bind [OF assms(1)]) (auto simp: triple_conj intro: assms(2))

lemma op_bind_Inr:
  "op_bind m f w = (Inr b, w') \<longleftrightarrow> (\<exists>a w1. m w = (Inr a, w1) \<and> f a w1 = (Inr b, w'))"
  by (auto simp: op_bind_def split: prod.splits sum.splits)

lemma op_bind_Inl:
  "op_bind m f w = (Inl e, w') \<longleftrightarrow>
     m w = (Inl e, w') \<or> (\<exists>a w1. m w = (Inr a, w1) \<and> f a w1 = (Inl e, w'))"
  by (auto simp: op_bind_def split: prod.splits sum.splits)

lemma op_return_eq [simp]: "op_return a w = (r, w') \<longleftrightarrow> r = Inr a \<and> w' = w"
  by (auto simp: op_return_def)

lemma op_result_eq [simp]: "op_result r w = (q, w') \<longleftrightarrow> q = r \<and> w' = w"
  by (auto simp: op_result_def)

lemma op_fail_eq: "op_fail e w = (r, w') \<longleftrightarrow> r = Inl e \<and> w' = w"
  by (auto simp: op_fail_def)

lemma op_attempt_eq [simp]:
  "op_attempt m w = (Inr r, w') \<longleftrightarrow> m w = (r, w')" "op_attempt m w \<noteq> (Inl e, w')"
  by (auto simp: op_attempt_def split: prod.splits)

lemma op_map_err_eq [simp]:
  "op_map_err g m w = (Inr a, w') \<longleftrightarrow> m w = (Inr a, w')"
  "op_map_err g m w = (Inl e, w') \<longleftrightarrow> (\<exists>e1. m w = (Inl e1, w') \<and> e = g e1)"
  by (auto simp: op_map_err_def map_err_def split: prod.splits sum.splits)

lemma op_attempt_cases:
  "op_bind (op_attempt m) (\<lambda>r. case r of Inl e \<Rightarrow> f e | Inr a \<Rightarrow> g a) w = (q, w') \<longleftrightarrow>
     (\<exists>e w1. m w = (Inl e, w1) \<and> f e w1 = (q, w')) \<or> (\<exists>a w1. m w = (Inr a, w1) \<and> g a w1 = (q, w'))"
  by (cases "m w"; cases "fst (m w)") (simp_all add: op_bind_def op_attempt_def)

section \<open>Machine integers\<close>

text \<open>\<open>u64::checked_add(1)\<close>: nothing at \<open>u64::MAX\<close>, which is \<open>- 1\<close> as a word.\<close>

definition checked_succ :: "64 word \<Rightarrow> 64 word option" where
  "checked_succ n = (if n = - 1 then None else Some (n + 1))"

lemma not_max_word_iff: "(n :: 64 word) \<noteq> - 1 \<longleftrightarrow> unat n + 1 < 2 ^ 64"
proof -
  have "unat n < 2 ^ 64" using unsigned_less [of n] by simp
  moreover have "n = - 1 \<longleftrightarrow> unat n = 2 ^ 64 - 1"
    by (simp add: word_unat_eq_iff unsigned_minus_1_eq_mask mask_eq_exp_minus_1)
  ultimately show ?thesis by auto
qed

lemma checked_succ_Some: "checked_succ n = Some m \<longleftrightarrow> m = n + 1 \<and> unat n + 1 < 2 ^ 64"
  using not_max_word_iff [of n] by (auto simp: checked_succ_def)

lemma checked_succ_None: "checked_succ n = None \<longleftrightarrow> \<not> unat n + 1 < 2 ^ 64"
  using not_max_word_iff [of n] by (auto simp: checked_succ_def)

lemma checked_succ_unat: "checked_succ n = Some m \<Longrightarrow> unat m = unat n + 1"
  by (auto simp: checked_succ_Some unat_word_ariths)

section \<open>The first element that satisfies a predicate\<close>

fun find_index :: "('a \<Rightarrow> bool) \<Rightarrow> 'a list \<Rightarrow> nat option" where
  "find_index p [] = None"
| "find_index p (x # xs) = (if p x then Some 0 else map_option Suc (find_index p xs))"

lemma find_index_None: "find_index p xs = None \<longleftrightarrow> (\<forall>x \<in> set xs. \<not> p x)"
  by (induction xs) auto

lemma find_index_SomeD: "find_index p xs = Some i \<Longrightarrow> i < length xs \<and> p (xs ! i)"
  by (induction xs arbitrary: i) (auto split: if_splits)

lemma find_index_append:
  "find_index p (xs @ ys) =
     (case find_index p xs of Some i \<Rightarrow> Some i
      | None \<Rightarrow> map_option ((+) (length xs)) (find_index p ys))"
proof (induction xs)
  case Nil
  then show ?case by (cases "find_index p ys") simp_all
next
  case (Cons x xs)
  then show ?case by (cases "find_index p xs"; cases "find_index p ys") simp_all
qed

lemma find_index_update_same:
  "i < length xs \<Longrightarrow> p y = p (xs ! i) \<Longrightarrow> find_index p (xs[i := y]) = find_index p xs"
  by (induction xs arbitrary: i) (auto split: nat.split)

lemma find_index_update_new:
  "find_index p xs = None \<Longrightarrow> i < length xs \<Longrightarrow> p y \<Longrightarrow> find_index p (xs[i := y]) = Some i"
  by (induction xs arbitrary: i) (auto split: nat.split)

end
