(* ===== verification/Tool_Execution.thy ===== *)
theory Tool_Execution
  imports Prelude
begin

text \<open>
  Tool calls, their policy classification and the authorization of one prepared call
  (crates/tool-runtime/src/execution.rs). \<open>'v\<close> stands for \<open>serde_json::Value\<close>.
\<close>

unbundle bit_operations_syntax

section \<open>Data\<close>

type_synonym 'v value_map = "(ustring, 'v) btree_map"

datatype tool_call_id = ToolCallId ustring

primrec tool_call_id_str :: "tool_call_id \<Rightarrow> ustring" where
  "tool_call_id_str (ToolCallId s) = s"

record 'v tool_call =
  tc_id :: tool_call_id
  tc_tool_name :: ustring
  tc_arguments :: 'v

datatype tool_execution_authorization = NotRequired | ApprovalGranted tool_call_id

datatype tool_call_policy =
    Allow
  | RequiresApproval ustring
  | Reject ustring

record tool_error =
  te_code :: ustring
  te_message :: ustring
  te_retryable :: bool

datatype 'v tool_content = ToolText ustring | ToolJson 'v

datatype 'v tool_output =
    Success "'v tool_content list" "'v value_map" "'v value_map"
  | Failure tool_error "'v value_map"

record 'v tool_result =
  tr_call_id :: tool_call_id
  tr_output :: "'v tool_output"

datatype tool_execution_disposition =
    Ready
  | DispRequiresApproval ustring
  | DispReject tool_error

datatype tool_dispatcher_identity = ToolDispatcherIdentity "64 word"

record 'v prepared_tool_call =
  pr_identity :: tool_dispatcher_identity
  pr_call :: "'v tool_call"
  pr_disposition :: tool_execution_disposition

definition is_granted_for :: "tool_execution_authorization \<Rightarrow> 'v tool_call \<Rightarrow> bool" where
  "is_granted_for auth call =
     (case auth of ApprovalGranted i \<Rightarrow> i = tc_id call | NotRequired \<Rightarrow> False)"

section \<open>Dispatcher identities\<close>

text \<open>
  The process-wide counter of \<open>ToolDispatcherIdentity::fresh\<close>: \<open>fetch_update\<close> yields the old
  value and stores its successor; at 0 or at \<open>u64::MAX\<close> nothing is stored and the caller
  panics (\<open>None\<close>).
\<close>

definition next_dispatcher_identity :: "64 word \<Rightarrow> 64 word option \<times> 64 word" where
  "next_dispatcher_identity n =
     (if n = 0 then (None, n)
      else (case checked_succ n of Some n' \<Rightarrow> (Some n, n') | None \<Rightarrow> (None, n)))"

definition fresh_identity :: "64 word \<Rightarrow> tool_dispatcher_identity option \<times> 64 word" where
  "fresh_identity n =
     (let (r, n') = next_dispatcher_identity n in (map_option ToolDispatcherIdentity r, n'))"

text \<open>The identities that a sequence of calls hands out.\<close>

fun fresh_identities :: "nat \<Rightarrow> 64 word \<Rightarrow> tool_dispatcher_identity option list" where
  "fresh_identities 0 n = []"
| "fresh_identities (Suc k) n =
     (let (r, n') = fresh_identity n in r # fresh_identities k n')"

section \<open>Bounding approval reasons\<close>

definition MAX_APPROVAL_REASON_SERIALIZED_BYTES :: nat where
  "MAX_APPROVAL_REASON_SERIALIZED_BYTES = 8 * 1024"

definition APPROVAL_REASON_TRUNCATED_SUFFIX :: ustring where
  "APPROVAL_REASON_TRUNCATED_SUFFIX = 0x2026 # lit '' [truncated]''"

definition serialized_json_character_bytes :: "uchar \<Rightarrow> nat" where
  "serialized_json_character_bytes c =
     (if c = 0x22 \<or> c = 0x5C \<or> c = 8 \<or> c = 0xC \<or> c = 10 \<or> c = 13 \<or> c = 9 then 2
      else if c \<le> 0x1F then 6
      else len_utf8 c)"

text \<open>
  The additions saturate at \<open>usize::MAX\<close>, which a string in memory cannot reach; here they are
  additions of naturals.
\<close>

definition serialized_json_string_content_bytes :: "ustring \<Rightarrow> nat" where
  "serialized_json_string_content_bytes s =
     fold (\<lambda>c n. n + serialized_json_character_bytes c) s 0"

definition serialized_json_string_bytes :: "ustring \<Rightarrow> nat" where
  "serialized_json_string_bytes s = 2 + serialized_json_string_content_bytes s"

text \<open>The loop over \<open>char_indices\<close>: the longest prefix whose content fits the budget.\<close>

fun bounded_prefix :: "nat \<Rightarrow> nat \<Rightarrow> ustring \<Rightarrow> ustring" where
  "bounded_prefix budget used [] = []"
| "bounded_prefix budget used (c # s) =
     (if used + serialized_json_character_bytes c > budget then []
      else c # bounded_prefix budget (used + serialized_json_character_bytes c) s)"

definition content_budget :: nat where
  "content_budget = MAX_APPROVAL_REASON_SERIALIZED_BYTES - 2
     - serialized_json_string_content_bytes APPROVAL_REASON_TRUNCATED_SUFFIX"

definition bound_approval_reason :: "ustring \<Rightarrow> ustring" where
  "bound_approval_reason reason =
     (if byte_len reason + 2 \<le> MAX_APPROVAL_REASON_SERIALIZED_BYTES
         \<and> serialized_json_string_bytes reason \<le> MAX_APPROVAL_REASON_SERIALIZED_BYTES
      then reason
      else let pre = bounded_prefix content_budget 0 reason
           in if is_blank pre then pre else pre @ APPROVAL_REASON_TRUNCATED_SUFFIX)"

lemma content_bytes_simps [simp]:
  "serialized_json_string_content_bytes [] = 0"
  "serialized_json_string_content_bytes (c # s)
     = serialized_json_character_bytes c + serialized_json_string_content_bytes s"
proof -
  have "fold (\<lambda>c n. n + serialized_json_character_bytes c) s k
      = k + sum_list (map serialized_json_character_bytes s)" for s :: ustring and k
    by (induction s arbitrary: k) simp_all
  then show "serialized_json_string_content_bytes [] = 0"
    "serialized_json_string_content_bytes (c # s)
       = serialized_json_character_bytes c + serialized_json_string_content_bytes s"
    by (simp_all add: serialized_json_string_content_bytes_def)
qed

lemma content_bytes_append [simp]:
  "serialized_json_string_content_bytes (s @ t)
     = serialized_json_string_content_bytes s + serialized_json_string_content_bytes t"
  by (induction s) simp_all

lemma len_utf8_le_json_bytes: "len_utf8 c \<le> serialized_json_character_bytes c"
  by (auto simp: serialized_json_character_bytes_def len_utf8_def)

lemma byte_len_le_content_bytes: "byte_len s \<le> serialized_json_string_content_bytes s"
proof (induction s)
  case (Cons c s)
  then show ?case using len_utf8_le_json_bytes [of c] by simp
qed simp

lemma bounded_prefix_fits:
  "used \<le> budget \<Longrightarrow>
     used + serialized_json_string_content_bytes (bounded_prefix budget used s) \<le> budget"
proof (induction budget used s rule: bounded_prefix.induct)
  case (2 budget used c s)
  then show ?case by (simp add: add.assoc)
qed simp

lemma bounded_prefix_prefix: "prefix (bounded_prefix budget used s) s"
  by (induction budget used s rule: bounded_prefix.induct) auto

lemma bounded_prefix_maximal:
  "bounded_prefix budget used s = p \<Longrightarrow> s = p @ c # r \<Longrightarrow>
     used + serialized_json_string_content_bytes (p @ [c]) > budget"
proof (induction budget used s arbitrary: p rule: bounded_prefix.induct)
  case (2 budget used d s)
  then show ?case by (cases p) (auto split: if_splits simp: add.assoc)
qed simp

lemma suffix_content_bytes:
  "serialized_json_string_content_bytes APPROVAL_REASON_TRUNCATED_SUFFIX = 15"
  by (simp add: APPROVAL_REASON_TRUNCATED_SUFFIX_def lit_def serialized_json_character_bytes_def
      len_utf8_def)

lemma content_budget_eq: "content_budget = 8175"
  by (simp add: content_budget_def suffix_content_bytes MAX_APPROVAL_REASON_SERIALIZED_BYTES_def)

lemma suffix_not_blank: "\<not> is_blank APPROVAL_REASON_TRUNCATED_SUFFIX"
  by (simp add: APPROVAL_REASON_TRUNCATED_SUFFIX_def is_blank_iff is_whitespace_def)

lemma bound_approval_reason_fits:
  "serialized_json_string_bytes (bound_approval_reason r) \<le> MAX_APPROVAL_REASON_SERIALIZED_BYTES"
  using bounded_prefix_fits [of 0 content_budget r]
  by (simp add: bound_approval_reason_def Let_def serialized_json_string_bytes_def
      suffix_content_bytes content_budget_eq MAX_APPROVAL_REASON_SERIALIZED_BYTES_def)

lemma bound_approval_reason_id:
  "serialized_json_string_bytes r \<le> MAX_APPROVAL_REASON_SERIALIZED_BYTES
     \<Longrightarrow> bound_approval_reason r = r"
  using byte_len_le_content_bytes [of r]
  by (simp add: bound_approval_reason_def serialized_json_string_bytes_def)

lemma bound_approval_reason_idem [simp]:
  "bound_approval_reason (bound_approval_reason r) = bound_approval_reason r"
  by (rule bound_approval_reason_id) (rule bound_approval_reason_fits)

text \<open>
  Bounding an approval reason: the serialized result never exceeds 8192 bytes, a reason
  that already fits is returned unchanged, and any other result is the longest prefix of the
  reason that leaves room for the truncation marker, followed by the marker unless that prefix
  is blank.
\<close>
theorem bound_approval_reason_spec:
  "serialized_json_string_bytes (bound_approval_reason r) \<le> 8192
   \<and> bound_approval_reason (bound_approval_reason r) = bound_approval_reason r
   \<and> (if serialized_json_string_bytes r \<le> 8192 then bound_approval_reason r = r
      else (\<exists>p c rest. r = p @ c # rest
              \<and> serialized_json_string_content_bytes p \<le> 8175
              \<and> serialized_json_string_content_bytes (p @ [c]) > 8175
              \<and> bound_approval_reason r
                  = (if is_blank p then p else p @ APPROVAL_REASON_TRUNCATED_SUFFIX)))"
proof (cases "serialized_json_string_bytes r \<le> 8192")
  case True
  then show ?thesis
    using bound_approval_reason_id [of r] by (simp add: MAX_APPROVAL_REASON_SERIALIZED_BYTES_def)
next
  case False
  let ?p = "bounded_prefix content_budget 0 r"
  have fits: "serialized_json_string_content_bytes ?p \<le> 8175"
    using bounded_prefix_fits [of 0 content_budget r] by (simp add: content_budget_eq)
  obtain t where t: "r = ?p @ t" using bounded_prefix_prefix [of content_budget 0 r]
    by (auto simp: prefix_def)
  have "t \<noteq> []" using False fits t by (auto simp: serialized_json_string_bytes_def)
  then obtain c rest where "r = ?p @ c # rest" using t by (cases t) auto
  moreover from this have "serialized_json_string_content_bytes (?p @ [c]) > 8175"
    using bounded_prefix_maximal [OF refl, of r content_budget 0 c rest]
    by (simp add: content_budget_eq)
  moreover have "bound_approval_reason r
      = (if is_blank ?p then ?p else ?p @ APPROVAL_REASON_TRUNCATED_SUFFIX)"
    using False by (simp add: bound_approval_reason_def Let_def
        MAX_APPROVAL_REASON_SERIALIZED_BYTES_def)
  ultimately have "\<exists>p c rest. r = p @ c # rest
      \<and> serialized_json_string_content_bytes p \<le> 8175
      \<and> serialized_json_string_content_bytes (p @ [c]) > 8175
      \<and> bound_approval_reason r
          = (if is_blank p then p else p @ APPROVAL_REASON_TRUNCATED_SUFFIX)"
    using fits by blast
  then show ?thesis
    using False bound_approval_reason_fits [of r, unfolded MAX_APPROVAL_REASON_SERIALIZED_BYTES_def]
      bound_approval_reason_idem [of r] by (simp only: if_False) simp
qed

section \<open>Prepared calls\<close>

definition mk_error :: "ustring \<Rightarrow> ustring \<Rightarrow> tool_error" where
  "mk_error code msg = \<lparr>te_code = code, te_message = msg, te_retryable = False\<rparr>"

lemma mk_error_sel [simp]:
  "te_code (mk_error c m) = c" "te_message (mk_error c m) = m" "te_retryable (mk_error c m) = False"
  by (simp_all add: mk_error_def)

definition prepared_ready ::
    "tool_dispatcher_identity \<Rightarrow> 'v tool_call \<Rightarrow> 'v prepared_tool_call" where
  "prepared_ready ident call = \<lparr>pr_identity = ident, pr_call = call, pr_disposition = Ready\<rparr>"

definition prepared_requiring_approval ::
    "tool_dispatcher_identity \<Rightarrow> 'v tool_call \<Rightarrow> ustring \<Rightarrow> 'v prepared_tool_call" where
  "prepared_requiring_approval ident call reason =
     \<lparr>pr_identity = ident, pr_call = call,
      pr_disposition = DispRequiresApproval (bound_approval_reason reason)\<rparr>"

definition prepared_rejected ::
    "tool_dispatcher_identity \<Rightarrow> 'v tool_call \<Rightarrow> tool_error \<Rightarrow> 'v prepared_tool_call" where
  "prepared_rejected ident call err =
     \<lparr>pr_identity = ident, pr_call = call, pr_disposition = DispReject err\<rparr>"

fun bound_policy :: "tool_call_policy \<Rightarrow> tool_call_policy" where
  "bound_policy (RequiresApproval r) = RequiresApproval (bound_approval_reason r)"
| "bound_policy (Reject r) = Reject (bound_approval_reason r)"
| "bound_policy Allow = Allow"

definition invalid_policy_error :: tool_error where
  "invalid_policy_error = mk_error (lit ''invalid_tool_policy'')
     (lit ''call-dependent policy reason must not be empty'')"

definition classified ::
    "tool_dispatcher_identity \<Rightarrow> 'v tool_call \<Rightarrow> tool_call_policy \<Rightarrow> 'v prepared_tool_call" where
  "classified ident call policy =
     (case bound_policy policy of
        Allow \<Rightarrow> prepared_ready ident call
      | RequiresApproval reason \<Rightarrow>
          if is_blank reason then prepared_rejected ident call invalid_policy_error
          else prepared_requiring_approval ident call reason
      | Reject reason \<Rightarrow>
          if is_blank reason then prepared_rejected ident call invalid_policy_error
          else prepared_rejected ident call (mk_error (lit ''tool_rejected'') reason))"

definition approval_reason :: "'v prepared_tool_call \<Rightarrow> ustring option" where
  "approval_reason p =
     (case pr_disposition p of
        DispRequiresApproval r \<Rightarrow> Some r | Ready \<Rightarrow> None | DispReject _ \<Rightarrow> None)"

definition failure_output :: "tool_error \<Rightarrow> 'v tool_output" where
  "failure_output e = Failure e []"

definition into_authorized_call ::
    "'v prepared_tool_call \<Rightarrow> tool_dispatcher_identity \<Rightarrow> tool_execution_authorization
       \<Rightarrow> 'v tool_output + 'v tool_call" where
  "into_authorized_call p ident auth =
     (if pr_identity p \<noteq> ident then
        Inl (failure_output (mk_error (lit ''invalid_prepared_tool_call'')
               (lit ''prepared tool call belongs to a different dispatcher'')))
      else case pr_disposition p of
        Ready \<Rightarrow> Inr (pr_call p)
      | DispRequiresApproval reason \<Rightarrow>
          if is_granted_for auth (pr_call p) then Inr (pr_call p)
          else Inl (failure_output (mk_error (lit ''approval_required'') reason))
      | DispReject err \<Rightarrow> Inl (failure_output err))"

definition is_denied_code :: "'v tool_output \<Rightarrow> bool" where
  "is_denied_code out =
     (case out of Failure e _ \<Rightarrow> te_code e = lit ''approval_denied'' | Success _ _ _ \<Rightarrow> False)"

definition normalize_dispatcher_output :: "'v tool_output \<Rightarrow> 'v tool_output" where
  "normalize_dispatcher_output out =
     (case out of
        Failure e ext \<Rightarrow>
          if te_code e = lit ''approval_denied''
          then Failure (mk_error (lit ''reserved_tool_error_code'')
                 (lit ''tool dispatcher returned reserved error code '' @ quoted (lit ''approval_denied''))) []
          else out
      | Success _ _ _ \<Rightarrow> out)"

lemma classified_call [simp]:
  "pr_call (classified i c p) = c" "pr_identity (classified i c p) = i"
  by (simp_all add: classified_def prepared_ready_def prepared_rejected_def
      prepared_requiring_approval_def split: tool_call_policy.split)

lemma prepared_sel [simp]:
  "pr_call (prepared_ready i c) = c" "pr_identity (prepared_ready i c) = i"
  "pr_call (prepared_rejected i c e) = c" "pr_identity (prepared_rejected i c e) = i"
  "pr_call (prepared_requiring_approval i c r) = c"
  "pr_identity (prepared_requiring_approval i c r) = i"
  "pr_disposition (prepared_ready i c) = Ready"
  "pr_disposition (prepared_rejected i c e) = DispReject e"
  "pr_disposition (prepared_requiring_approval i c r)
     = DispRequiresApproval (bound_approval_reason r)"
  by (simp_all add: prepared_ready_def prepared_rejected_def prepared_requiring_approval_def)

lemma into_authorized_call_Inr:
  "into_authorized_call p i a = Inr c \<longleftrightarrow>
     c = pr_call p \<and> pr_identity p = i
     \<and> (pr_disposition p = Ready
        \<or> (\<exists>r. pr_disposition p = DispRequiresApproval r) \<and> a = ApprovalGranted (tc_id (pr_call p)))"
  by (auto simp: into_authorized_call_def is_granted_for_def
      split: tool_execution_disposition.splits tool_execution_authorization.splits)

lemma normalize_never_denied [simp]: "\<not> is_denied_code (normalize_dispatcher_output out)"
  by (auto simp: is_denied_code_def normalize_dispatcher_output_def split: tool_output.split)

lemma normalize_id: "\<not> is_denied_code out \<Longrightarrow> normalize_dispatcher_output out = out"
  by (auto simp: is_denied_code_def normalize_dispatcher_output_def split: tool_output.splits)

text \<open>The dispositions the two dispatchers can build never carry the reserved code.\<close>

definition disposition_ok :: "tool_execution_disposition \<Rightarrow> bool" where
  "disposition_ok d =
     (case d of DispReject e \<Rightarrow> te_code e \<noteq> lit ''approval_denied''
      | Ready \<Rightarrow> True | DispRequiresApproval _ \<Rightarrow> True)"

lemma classified_disposition_ok [simp]: "disposition_ok (pr_disposition (classified i c p))"
  by (simp add: classified_def disposition_ok_def invalid_policy_error_def
      split: tool_call_policy.split)

lemma into_authorized_call_not_denied:
  "disposition_ok (pr_disposition p) \<Longrightarrow> into_authorized_call p i a = Inl out
     \<Longrightarrow> \<not> is_denied_code out"
  by (auto simp: into_authorized_call_def is_denied_code_def failure_output_def disposition_ok_def
      split: if_splits tool_execution_disposition.splits)

text \<open>
  The dispatcher identity counter: once exhausted it stays exhausted, and the identities handed
  out by any sequence of calls are pairwise distinct.
\<close>

lemma next_identity_Some:
  "next_dispatcher_identity n = (Some m, n') \<Longrightarrow> m = n \<and> unat n' = unat n + 1"
  by (auto simp: next_dispatcher_identity_def dest: checked_succ_unat split: if_splits option.splits)

lemma next_identity_None: "next_dispatcher_identity n = (None, n') \<Longrightarrow> n' = n"
  by (auto simp: next_dispatcher_identity_def split: if_splits option.splits)

lemma fresh_identities_exhausted:
  "next_dispatcher_identity n = (None, n) \<Longrightarrow> fresh_identities k n = replicate k None"
  by (induction k) (simp_all add: fresh_identity_def)

lemma fresh_identities_lower:
  "Some (ToolDispatcherIdentity m) \<in> set (fresh_identities k n) \<Longrightarrow> unat n \<le> unat m"
proof (induction k arbitrary: n)
  case (Suc k)
  obtain r n' where r: "next_dispatcher_identity n = (r, n')" by (cases "next_dispatcher_identity n")
  show ?case
  proof (cases r)
    case None
    with r Suc show ?thesis by (auto simp: fresh_identity_def dest: next_identity_None)
  next
    case (Some m')
    with r Suc show ?thesis
      by (fastforce simp: fresh_identity_def dest: next_identity_Some)
  qed
qed simp

text \<open>
  Dispatcher identities are never reused: in any sequence of \<open>fresh\<close> calls, two calls that
  return at all return different identities, even when the 64-bit counter runs out.
\<close>
lemma fresh_identities_distinct:
  assumes "i < j" "j < k"
    and "fresh_identities k n ! i = Some a" and "fresh_identities k n ! j = Some b"
  shows "a \<noteq> b"
  using assms
proof (induction k arbitrary: n i j)
  case (Suc k)
  obtain r n' where r: "next_dispatcher_identity n = (r, n')" by (cases "next_dispatcher_identity n")
  have eq: "fresh_identities (Suc k) n = map_option ToolDispatcherIdentity r # fresh_identities k n'"
    by (simp add: fresh_identity_def r)
  have len: "length (fresh_identities k n) = k" for k n
    by (induction k arbitrary: n) (simp_all add: split_beta Let_def)
  obtain j' where j: "j = Suc j'" "j' < k" using Suc.prems by (cases j) auto
  show ?case
  proof (cases i)
    case 0
    with Suc.prems eq obtain m where m: "r = Some m" "a = ToolDispatcherIdentity m" by auto
    from Suc.prems(4) eq j len have "Some b \<in> set (fresh_identities k n')"
      by (metis nth_Cons_Suc nth_mem)
    moreover obtain mb where b: "b = ToolDispatcherIdentity mb" by (cases b)
    ultimately have "unat n' \<le> unat mb" using fresh_identities_lower by blast
    with m b r show ?thesis by (auto dest: next_identity_Some)
  next
    case (Suc i')
    then show ?thesis using Suc.IH [of i' j' n'] Suc.prems eq j by simp
  qed
qed simp

theorem fresh_identities_distinct_witness:
  "fresh_identities (Suc (Suc 0)) (2 ^ 64 - 3) ! 0 = Some (ToolDispatcherIdentity (2 ^ 64 - 3))
   \<and> fresh_identities (Suc (Suc 0)) (2 ^ 64 - 3) ! 1 = Some (ToolDispatcherIdentity (2 ^ 64 - 2))
   \<and> ToolDispatcherIdentity (2 ^ 64 - 3) \<noteq> ToolDispatcherIdentity (2 ^ 64 - 2)"
proof -
  have e0: "fresh_identities (Suc (Suc 0)) (2 ^ 64 - 3) ! 0 = Some (ToolDispatcherIdentity (2 ^ 64 - 3))"
    and e1: "fresh_identities (Suc (Suc 0)) (2 ^ 64 - 3) ! 1 = Some (ToolDispatcherIdentity (2 ^ 64 - 2))"
    by (simp_all add: fresh_identity_def next_dispatcher_identity_def checked_succ_def)
  show ?thesis
    by (intro conjI, rule e0, rule e1, rule fresh_identities_distinct [OF _ _ e0 e1]) simp_all
qed

end
