(* ===== verification/Tool_Dispatcher.thy ===== *)
theory Tool_Dispatcher
  imports Tool_Execution
begin

text \<open>
  The contract of the sealed \<open>ToolDispatcher\<close> trait (crates/tool-runtime/src/execution.rs) as
  an interface: what the agent runtime may rely on for every dispatcher. \<open>prepare\<close> is given the
  dispatcher and the call; \<open>execute_prepared\<close> the dispatcher, the plan, the authorization and
  the cancellation flag, and returns the output with the dispatcher after the call. \<open>inv\<close> is
  the dispatcher's own invariant.
\<close>

locale tool_dispatcher =
  fixes inv :: "'t \<Rightarrow> bool"
    and prepare :: "'t \<Rightarrow> 'v tool_call \<Rightarrow> 'v prepared_tool_call"
    and execute_prepared ::
      "'t \<Rightarrow> 'v prepared_tool_call \<Rightarrow> tool_execution_authorization \<Rightarrow> bool
         \<Rightarrow> 'v tool_output \<times> 't"
  assumes prepare_call: "inv t \<Longrightarrow> pr_call (prepare t call) = call"
    and prepare_ok: "inv t \<Longrightarrow> disposition_ok (pr_disposition (prepare t call))"
    and prepare_bounded: "inv t \<Longrightarrow> pr_disposition (prepare t call) = DispRequiresApproval r \<Longrightarrow>
          bound_approval_reason r = r"
    and execute_inv: "inv t \<Longrightarrow> execute_prepared t p auth c = (out, t') \<Longrightarrow> inv t'"
    and execute_not_denied:
      "inv t \<Longrightarrow> disposition_ok (pr_disposition p) \<Longrightarrow> execute_prepared t p auth c = (out, t') \<Longrightarrow>
         \<not> is_denied_code out"
    and execute_unauthorized:
      "inv t \<Longrightarrow> pr_disposition p = DispRequiresApproval r \<Longrightarrow>
         auth \<noteq> ApprovalGranted (tc_id (pr_call p)) \<Longrightarrow>
         execute_prepared t p auth c = (out, t') \<Longrightarrow> t' = t \<and> (\<exists>e x. out = Failure e x)"
    and execute_rejected:
      "inv t \<Longrightarrow> pr_disposition p = DispReject e \<Longrightarrow>
         execute_prepared t p auth c = (out, t') \<Longrightarrow> t' = t \<and> (\<exists>e x. out = Failure e x)"
begin

text \<open>A plan is executed only as the call it was prepared for.\<close>

lemma prepare_execute_not_denied:
  assumes "inv t" and "execute_prepared t (prepare t call) auth c = (out, t')"
  shows "\<not> is_denied_code out"
  using execute_not_denied [OF assms(1) prepare_ok [OF assms(1)] assms(2)] .

lemma approval_gate:
  assumes "inv t" and "approval_reason (prepare t call) = Some r"
    and "execute_prepared t (prepare t call) auth c = (out, t')"
    and "auth \<noteq> ApprovalGranted (tc_id call)"
  shows "t' = t \<and> (\<exists>e x. out = Failure e x)"
proof -
  have "pr_disposition (prepare t call) = DispRequiresApproval r"
    using assms(2) by (auto simp: approval_reason_def split: tool_execution_disposition.splits)
  with execute_unauthorized [OF assms(1)] prepare_call [OF assms(1)] assms(3,4) show ?thesis
    by metis
qed

end

section \<open>Handlers\<close>

text \<open>
  A \<open>ToolHandler\<close> is a state with two operations; the trait object of the source is the pair of
  the operations and the state. \<open>execute\<close> takes the call and the cancellation flag.
\<close>

record ('h, 'v) tool_handler =
  h_classify :: "'h \<Rightarrow> 'v tool_call \<Rightarrow> tool_call_policy"
  h_execute :: "'h \<Rightarrow> 'v tool_call \<Rightarrow> bool \<Rightarrow> 'v tool_output \<times> 'h"

end
