(* ===== verification/Tool_Registry.thy ===== *)
theory Tool_Registry
  imports Tool_Dispatcher
begin

text \<open>
  Tool definitions, their validation, and the \<open>ToolRuntime\<close> that registers, looks up, prepares
  and executes tools (crates/tool-runtime/src/registry.rs). \<open>is_object\<close> is the accessor of
  \<open>serde_json::Value\<close> that the validation uses; \<open>H\<close> holds the operations of the handlers.
\<close>

section \<open>Definitions and their validation\<close>

record capability_ref =
  cap_id :: ustring
  cap_version :: ustring

datatype tool_approval_policy =
    PolAlwaysAllow
  | PolRequiresApproval ustring
  | PolCallDependent
  | PolAlwaysReject ustring

record mcp_compatibility =
  mcp_server :: ustring
  mcp_tool_name :: ustring
  mcp_protocol_version :: ustring

record 'v tool_definition =
  td_name :: ustring
  td_description :: ustring
  td_input_schema :: 'v
  td_output_schema :: "'v option"
  td_capability :: capability_ref
  td_approval_policy :: tool_approval_policy
  td_mcp :: "mcp_compatibility option"

datatype tool_definition_error = ToolDefinitionError ustring

definition require_non_empty :: "ustring \<Rightarrow> ustring \<Rightarrow> tool_definition_error + unit" where
  "require_non_empty field value =
     (if is_blank value then Inl (ToolDefinitionError (field @ lit '' must not be empty''))
      else Inr ())"

fun validate_policy_reason :: "tool_approval_policy \<Rightarrow> tool_definition_error + unit" where
  "validate_policy_reason (PolRequiresApproval r) = require_non_empty (lit ''approval policy reason'') r"
| "validate_policy_reason (PolAlwaysReject r) = require_non_empty (lit ''approval policy reason'') r"
| "validate_policy_reason PolAlwaysAllow = Inr ()"
| "validate_policy_reason PolCallDependent = Inr ()"

fun validate_mcp :: "mcp_compatibility option \<Rightarrow> tool_definition_error + unit" where
  "validate_mcp None = Inr ()"
| "validate_mcp (Some m) =
     try_res (require_non_empty (lit ''mcp.server'') (mcp_server m)) (\<lambda>_.
     try_res (require_non_empty (lit ''mcp.tool_name'') (mcp_tool_name m)) (\<lambda>_.
     require_non_empty (lit ''mcp.protocol_version'') (mcp_protocol_version m)))"

definition validate_fields ::
    "('v \<Rightarrow> bool) \<Rightarrow> ustring \<Rightarrow> ustring \<Rightarrow> 'v \<Rightarrow> 'v option \<Rightarrow> capability_ref
       \<Rightarrow> tool_approval_policy \<Rightarrow> mcp_compatibility option \<Rightarrow> tool_definition_error + unit" where
  "validate_fields is_object name description input_schema output_schema cap policy mcp =
     try_res (require_non_empty (lit ''name'') name) (\<lambda>_.
     try_res (require_non_empty (lit ''description'') description) (\<lambda>_.
     try_res (require_non_empty (lit ''capability.id'') (cap_id cap)) (\<lambda>_.
     try_res (require_non_empty (lit ''capability.version'') (cap_version cap)) (\<lambda>_.
     if \<not> is_object input_schema
     then Inl (ToolDefinitionError (lit ''input_schema must be an object''))
     else if (case output_schema of None \<Rightarrow> False | Some s \<Rightarrow> \<not> is_object s)
     then Inl (ToolDefinitionError (lit ''output_schema must be an object''))
     else try_res (validate_policy_reason policy) (\<lambda>_. validate_mcp mcp)))))"

definition validate_definition ::
    "('v \<Rightarrow> bool) \<Rightarrow> 'v tool_definition \<Rightarrow> tool_definition_error + unit" where
  "validate_definition is_object d =
     validate_fields is_object (td_name d) (td_description d) (td_input_schema d)
       (td_output_schema d) (td_capability d) (td_approval_policy d) (td_mcp d)"

text \<open>The definitions that validation accepts, declaratively.\<close>

definition definition_ok :: "('v \<Rightarrow> bool) \<Rightarrow> 'v tool_definition \<Rightarrow> bool" where
  "definition_ok is_object d \<longleftrightarrow>
     \<not> is_blank (td_name d) \<and> \<not> is_blank (td_description d)
     \<and> \<not> is_blank (cap_id (td_capability d)) \<and> \<not> is_blank (cap_version (td_capability d))
     \<and> is_object (td_input_schema d)
     \<and> (\<forall>s. td_output_schema d = Some s \<longrightarrow> is_object s)
     \<and> (\<forall>r. td_approval_policy d = PolRequiresApproval r \<or> td_approval_policy d = PolAlwaysReject r
            \<longrightarrow> \<not> is_blank r)
     \<and> (\<forall>m. td_mcp d = Some m \<longrightarrow>
            \<not> is_blank (mcp_server m) \<and> \<not> is_blank (mcp_tool_name m)
            \<and> \<not> is_blank (mcp_protocol_version m))"

lemma require_non_empty_Inr [simp]: "require_non_empty f v = Inr u \<longleftrightarrow> \<not> is_blank v"
  by (simp add: require_non_empty_def)

lemma validate_policy_reason_Inr:
  "validate_policy_reason p = Inr u \<longleftrightarrow>
     (\<forall>r. p = PolRequiresApproval r \<or> p = PolAlwaysReject r \<longrightarrow> \<not> is_blank r)"
  by (cases p) auto

lemma validate_mcp_Inr:
  "validate_mcp m = Inr u \<longleftrightarrow>
     (\<forall>x. m = Some x \<longrightarrow> \<not> is_blank (mcp_server x) \<and> \<not> is_blank (mcp_tool_name x)
            \<and> \<not> is_blank (mcp_protocol_version x))"
  by (cases m) (auto simp: try_res_Inr)

lemma validate_definition_Inr:
  "validate_definition is_object d = Inr u \<longleftrightarrow> definition_ok is_object d"
  by (auto simp: validate_definition_def validate_fields_def definition_ok_def try_res_Inr
      validate_policy_reason_Inr validate_mcp_Inr split: if_splits option.splits)

lemma validate_definition_Inl: "validate_definition is_object d = Inl e \<Longrightarrow> \<not> definition_ok is_object d"
  using validate_definition_Inr [of is_object d "()"] by simp

section \<open>The registry\<close>

record ('h, 'v) registered_tool =
  rt_definition :: "'v tool_definition"
  rt_handler :: 'h

record ('h, 'v) tool_runtime =
  tools_identity :: tool_dispatcher_identity
  tools :: "(ustring, ('h, 'v) registered_tool) btree_map"

datatype tool_registration_error =
    InvalidDefinition ustring tool_definition_error
  | DuplicateTool ustring

definition tool_runtime_new :: "tool_dispatcher_identity \<Rightarrow> ('h, 'v) tool_runtime" where
  "tool_runtime_new ident = \<lparr>tools_identity = ident, tools = []\<rparr>"

definition register ::
    "('v \<Rightarrow> bool) \<Rightarrow> 'v tool_definition \<Rightarrow> 'h \<Rightarrow> ('h, 'v) tool_runtime
       \<Rightarrow> tool_registration_error + ('h, 'v) tool_runtime" where
  "register is_object d h rt =
     try_res (map_err (InvalidDefinition (td_name d)) (validate_definition is_object d)) (\<lambda>_.
     if bt_get (tools rt) (td_name d) \<noteq> None then Inl (DuplicateTool (td_name d))
     else Inr (rt\<lparr>tools := bt_insert (td_name d) \<lparr>rt_definition = d, rt_handler = h\<rparr> (tools rt)\<rparr>))"

definition lookup_tool :: "('h, 'v) tool_runtime \<Rightarrow> ustring \<Rightarrow> 'v tool_definition option" where
  "lookup_tool rt name = map_option rt_definition (bt_get (tools rt) name)"

definition definitions :: "('h, 'v) tool_runtime \<Rightarrow> 'v tool_definition list" where
  "definitions rt = map (rt_definition \<circ> snd) (tools rt)"

definition tools_len :: "('h, 'v) tool_runtime \<Rightarrow> nat" where
  "tools_len rt = length (tools rt)"

definition unknown_tool_error :: "ustring \<Rightarrow> tool_error" where
  "unknown_tool_error name =
     mk_error (lit ''unknown_tool'') (lit ''tool '' @ quoted name @ lit '' is not registered'')"

definition prepare_tool ::
    "('h, 'v) tool_handler \<Rightarrow> ('h, 'v) tool_runtime \<Rightarrow> 'v tool_call \<Rightarrow> 'v prepared_tool_call" where
  "prepare_tool H rt call =
     (case bt_get (tools rt) (tc_tool_name call) of
        None \<Rightarrow> prepared_rejected (tools_identity rt) call (unknown_tool_error (tc_tool_name call))
      | Some tool \<Rightarrow>
          (case td_approval_policy (rt_definition tool) of
             PolAlwaysAllow \<Rightarrow> prepared_ready (tools_identity rt) call
           | PolRequiresApproval reason \<Rightarrow>
               prepared_requiring_approval (tools_identity rt) call reason
           | PolCallDependent \<Rightarrow>
               classified (tools_identity rt) call (h_classify H (rt_handler tool) call)
           | PolAlwaysReject reason \<Rightarrow>
               prepared_rejected (tools_identity rt) call
                 (mk_error (lit ''tool_rejected'') (bound_approval_reason reason))))"

definition execute_tool ::
    "('h, 'v) tool_handler \<Rightarrow> ('h, 'v) tool_runtime \<Rightarrow> 'v prepared_tool_call
       \<Rightarrow> tool_execution_authorization \<Rightarrow> bool \<Rightarrow> 'v tool_output \<times> ('h, 'v) tool_runtime" where
  "execute_tool H rt p auth cancelled =
     (case into_authorized_call p (tools_identity rt) auth of
        Inl out \<Rightarrow> (out, rt)
      | Inr call \<Rightarrow>
          (case bt_get (tools rt) (tc_tool_name call) of
             None \<Rightarrow> (failure_output (unknown_tool_error (tc_tool_name call)), rt)
           | Some tool \<Rightarrow>
               (let (out, h') = h_execute H (rt_handler tool) call cancelled
                in (normalize_dispatcher_output out,
                    rt\<lparr>tools := bt_insert (tc_tool_name call) (tool\<lparr>rt_handler := h'\<rparr>)
                                 (tools rt)\<rparr>))))"

definition dispatch ::
    "('h, 'v) tool_handler \<Rightarrow> ('h, 'v) tool_runtime \<Rightarrow> 'v tool_call
       \<Rightarrow> tool_execution_authorization \<Rightarrow> bool \<Rightarrow> 'v tool_result \<times> ('h, 'v) tool_runtime" where
  "dispatch H rt call auth cancelled =
     (let (out, rt') = execute_tool H rt (prepare_tool H rt call) auth cancelled
      in (\<lparr>tr_call_id = tc_id call, tr_output = out\<rparr>, rt'))"

section \<open>The registry invariant\<close>

text \<open>
  Keys are ordered and unique, every tool is stored under its own name and has a valid
  definition.
\<close>

definition runtime_ok :: "('v \<Rightarrow> bool) \<Rightarrow> ('h, 'v) tool_runtime \<Rightarrow> bool" where
  "runtime_ok is_object rt \<longleftrightarrow> bt_ok (tools rt)
     \<and> (\<forall>k t. bt_get (tools rt) k = Some t \<longrightarrow>
          td_name (rt_definition t) = k \<and> definition_ok is_object (rt_definition t))"

lemma runtime_ok_new: "runtime_ok is_object (tool_runtime_new i)"
  by (simp add: runtime_ok_def tool_runtime_new_def)

lemma register_Inr:
  "register is_object d h rt = Inr rt' \<longleftrightarrow>
     definition_ok is_object d \<and> bt_get (tools rt) (td_name d) = None
     \<and> rt' = rt\<lparr>tools := bt_insert (td_name d) \<lparr>rt_definition = d, rt_handler = h\<rparr> (tools rt)\<rparr>"
  by (auto simp: register_def try_res_Inr validate_definition_Inr split: if_splits)

lemma register_ok: "runtime_ok is_object rt \<Longrightarrow> register is_object d h rt = Inr rt'
    \<Longrightarrow> runtime_ok is_object rt'"
  by (auto simp: register_Inr runtime_ok_def)

lemma execute_tool_cases:
  assumes "execute_tool H rt p auth c = (out, rt')"
  obtains (refused) "into_authorized_call p (tools_identity rt) auth = Inl out" "rt' = rt"
  | (missing) "into_authorized_call p (tools_identity rt) auth = Inr (pr_call p)"
      "bt_get (tools rt) (tc_tool_name (pr_call p)) = None" "rt' = rt"
      "out = failure_output (unknown_tool_error (tc_tool_name (pr_call p)))"
  | (ran) tool raw h' where "into_authorized_call p (tools_identity rt) auth = Inr (pr_call p)"
      "bt_get (tools rt) (tc_tool_name (pr_call p)) = Some tool"
      "h_execute H (rt_handler tool) (pr_call p) c = (raw, h')"
      "out = normalize_dispatcher_output raw"
      "rt' = rt\<lparr>tools := bt_insert (tc_tool_name (pr_call p)) (tool\<lparr>rt_handler := h'\<rparr>) (tools rt)\<rparr>"
proof (cases "into_authorized_call p (tools_identity rt) auth")
  case (Inl o1)
  with assms have "out = o1" "rt' = rt" by (simp_all add: execute_tool_def)
  with Inl refused show thesis by simp
next
  case (Inr call)
  then have call: "call = pr_call p" by (simp add: into_authorized_call_Inr)
  show thesis
  proof (cases "bt_get (tools rt) (tc_tool_name (pr_call p))")
    case None
    with assms Inr call show thesis by (intro missing) (simp_all add: execute_tool_def)
  next
    case (Some tool)
    obtain raw h' where "h_execute H (rt_handler tool) (pr_call p) c = (raw, h')" by fastforce
    with assms Inr call Some show thesis by (intro ran) (auto simp: execute_tool_def)
  qed
qed

lemma execute_tool_ok:
  "runtime_ok is_object rt \<Longrightarrow> execute_tool H rt p auth c = (out, rt') \<Longrightarrow> runtime_ok is_object rt'"
  by (erule execute_tool_cases) (auto simp: runtime_ok_def)

lemma prepare_tool_disposition_ok: "disposition_ok (pr_disposition (prepare_tool H rt call))"
  by (auto simp: prepare_tool_def unknown_tool_error_def disposition_ok_def
      split: option.split tool_approval_policy.split intro: classified_disposition_ok
        [unfolded disposition_ok_def])

lemma unknown_tool_not_denied: "\<not> is_denied_code (failure_output (unknown_tool_error n))"
  by (simp add: is_denied_code_def failure_output_def unknown_tool_error_def)

lemma prepare_tool_bounded:
  "pr_disposition (prepare_tool H rt call) = DispRequiresApproval r \<Longrightarrow> bound_approval_reason r = r"
  by (auto simp: prepare_tool_def classified_def split: option.splits tool_approval_policy.splits
      tool_call_policy.splits if_splits)

lemma execute_tool_refused:
  "into_authorized_call p (tools_identity rt) auth = Inl out
     \<Longrightarrow> execute_tool H rt p auth c = (out, rt)"
  by (simp add: execute_tool_def)

interpretation registry: tool_dispatcher
  "runtime_ok is_object" "prepare_tool H" "execute_tool H"
proof (standard, goal_cases)
  case (1 t call)
  show ?case by (simp add: prepare_tool_def split: option.split tool_approval_policy.split)
next
  case (2 t call)
  show ?case by (rule prepare_tool_disposition_ok)
next
  case (3 t call r)
  then show ?case by (blast dest: prepare_tool_bounded)
next
  case (4 t p auth c out t')
  then show ?case by (blast dest: execute_tool_ok)
next
  case (5 t p auth c out t')
  from 5(3) show ?case
    using into_authorized_call_not_denied [OF 5(2)] unknown_tool_not_denied
    by (cases rule: execute_tool_cases) auto
next
  case (6 t p r auth c out t')
  from 6(4,2,3) show ?case
    by (cases rule: execute_tool_cases)
      (auto simp: into_authorized_call_def failure_output_def is_granted_for_def
        split: if_splits tool_execution_authorization.splits)
next
  case (7 t p e auth c out t')
  from 7(3,2) show ?case
    by (cases rule: execute_tool_cases)
      (auto simp: into_authorized_call_def failure_output_def split: if_splits)
qed

section \<open>What executing a prepared call means\<close>

text \<open>
  The policy of the registry, declaratively: the tool is registered and its static policy, or
  for a call-dependent tool the classification of this call, lets it run under \<open>auth\<close>.
\<close>

definition authorized ::
    "('h, 'v) tool_handler \<Rightarrow> ('h, 'v) tool_runtime \<Rightarrow> 'v tool_call
       \<Rightarrow> tool_execution_authorization \<Rightarrow> bool" where
  "authorized H rt call auth \<longleftrightarrow>
     (\<exists>tool. bt_get (tools rt) (tc_tool_name call) = Some tool
       \<and> (let policy = td_approval_policy (rt_definition tool);
               verdict = h_classify H (rt_handler tool) call;
               granted = (auth = ApprovalGranted (tc_id call))
           in policy = PolAlwaysAllow
              \<or> (\<exists>r. policy = PolRequiresApproval r) \<and> granted
              \<or> policy = PolCallDependent
                 \<and> (verdict = Allow
                    \<or> (\<exists>r. verdict = RequiresApproval r \<and> \<not> is_blank (bound_approval_reason r))
                       \<and> granted)))"

definition run_tool ::
    "('h, 'v) tool_handler \<Rightarrow> ('h, 'v) tool_runtime \<Rightarrow> 'v tool_call \<Rightarrow> bool
       \<Rightarrow> 'v tool_output \<times> ('h, 'v) tool_runtime" where
  "run_tool H rt call cancelled =
     (let tool = the (bt_get (tools rt) (tc_tool_name call));
          (out, h') = h_execute H (rt_handler tool) call cancelled
      in (normalize_dispatcher_output out,
          rt\<lparr>tools := bt_insert (tc_tool_name call) (tool\<lparr>rt_handler := h'\<rparr>) (tools rt)\<rparr>))"

lemma bound_policy_iff:
  "bound_policy p = Allow \<longleftrightarrow> p = Allow"
  "bound_policy p = RequiresApproval x \<longleftrightarrow> (\<exists>r. p = RequiresApproval r \<and> x = bound_approval_reason r)"
  "bound_policy p = Reject x \<longleftrightarrow> (\<exists>r. p = Reject r \<and> x = bound_approval_reason r)"
  by (cases p; auto)+

lemma authorized_iff_into:
  "authorized H rt call auth \<longleftrightarrow>
     bt_get (tools rt) (tc_tool_name call) \<noteq> None
     \<and> into_authorized_call (prepare_tool H rt call) (tools_identity rt) auth = Inr call"
  by (auto simp: authorized_def Let_def into_authorized_call_Inr prepare_tool_def classified_def
      bound_policy_iff
      split: option.splits tool_approval_policy.splits tool_call_policy.splits if_splits)

lemma execute_authorized:
  "authorized H rt call auth \<Longrightarrow>
     execute_tool H rt (prepare_tool H rt call) auth c = run_tool H rt call c"
  by (auto simp: authorized_iff_into execute_tool_def run_tool_def)

lemma execute_not_authorized:
  assumes "\<not> authorized H rt call auth"
  shows "\<exists>e. execute_tool H rt (prepare_tool H rt call) auth c = (Failure e [], rt)"
proof (cases "into_authorized_call (prepare_tool H rt call) (tools_identity rt) auth")
  case (Inl out)
  then have "\<exists>e. out = Failure e []"
    by (auto simp: into_authorized_call_def failure_output_def
        split: if_splits tool_execution_disposition.splits)
  with Inl show ?thesis by (auto simp: execute_tool_def)
next
  case (Inr c')
  then have "pr_disposition (prepare_tool H rt call)
      \<noteq> DispReject (unknown_tool_error (tc_tool_name call))"
    by (auto simp: into_authorized_call_Inr)
  then have "bt_get (tools rt) (tc_tool_name call) \<noteq> None"
    by (cases "bt_get (tools rt) (tc_tool_name call)") (simp_all add: prepare_tool_def)
  moreover from Inr have "c' = call"
    by (simp add: into_authorized_call_Inr prepare_tool_def
        split: option.splits tool_approval_policy.splits)
  ultimately show ?thesis using assms Inr by (simp add: authorized_iff_into)
qed

text \<open>
  C28. The approval gate of the Tool Runtime: preparing a call and executing that plan runs the
  registered handler exactly when the tool's policy lets this very call run under the given
  authorization. Otherwise nothing is executed, the runtime is unchanged and the output is a
  failure; in both cases the output never carries the reserved code approval_denied.
\<close>
theorem approval_gate_iff:
  "\<exists>e. execute_tool H rt (prepare_tool H rt call) auth c
        = (if authorized H rt call auth then run_tool H rt call c else (Failure e [], rt))
      \<and> \<not> is_denied_code (fst (execute_tool H rt (prepare_tool H rt call) auth c))"
proof -
  have "\<not> is_denied_code (fst (execute_tool H rt (prepare_tool H rt call) auth c))"
  proof -
    obtain out rt' where ex: "execute_tool H rt (prepare_tool H rt call) auth c = (out, rt')"
      by fastforce
    then have "\<not> is_denied_code out"
      by (cases rule: execute_tool_cases)
        (simp_all add: unknown_tool_not_denied
          into_authorized_call_not_denied [OF prepare_tool_disposition_ok])
    with ex show ?thesis by simp
  qed
  with execute_authorized execute_not_authorized show ?thesis by (metis (mono_tags))
qed

text \<open>
  C35. Plans are bound to their dispatcher and approvals to their call: a plan made by another
  dispatcher is refused whatever its disposition, and an approval granted for a different call
  id does not execute a plan that requires approval; neither touches the runtime.
\<close>
theorem foreign_plans_and_grants_refused:
  "(pr_identity p \<noteq> tools_identity rt \<longrightarrow>
      execute_tool H rt p auth c
        = (Failure (mk_error (lit ''invalid_prepared_tool_call'')
                      (lit ''prepared tool call belongs to a different dispatcher'')) [], rt))
   \<and> (pr_identity p = tools_identity rt \<and> pr_disposition p = DispRequiresApproval r
        \<and> i \<noteq> tc_id (pr_call p) \<longrightarrow>
      execute_tool H rt p (ApprovalGranted i) c
        = (Failure (mk_error (lit ''approval_required'') r) [], rt))"
  by (simp add: execute_tool_def into_authorized_call_def failure_output_def is_granted_for_def)

definition demo_call :: "unit tool_call" where
  "demo_call = \<lparr>tc_id = ToolCallId (lit ''run-tool-001''), tc_tool_name = lit ''run_command'',
                tc_arguments = ()\<rparr>"

definition demo_handler :: "(nat, unit) tool_handler" where
  "demo_handler = \<lparr>h_classify = (\<lambda>_ _. Allow), h_execute = (\<lambda>n _ _. (Success [] [] [], Suc n))\<rparr>"

theorem foreign_plans_and_grants_refused_witness:
  "execute_tool demo_handler (tool_runtime_new (ToolDispatcherIdentity 2))
      (prepared_ready (ToolDispatcherIdentity 1) demo_call) NotRequired False
    = (Failure (mk_error (lit ''invalid_prepared_tool_call'')
         (lit ''prepared tool call belongs to a different dispatcher'')) [],
       tool_runtime_new (ToolDispatcherIdentity 2))
   \<and> execute_tool demo_handler (tool_runtime_new (ToolDispatcherIdentity 2))
      (prepared_requiring_approval (ToolDispatcherIdentity 2) demo_call (lit ''why''))
      (ApprovalGranted (ToolCallId (lit ''run-tool-002''))) False
    = (Failure (mk_error (lit ''approval_required'') (bound_approval_reason (lit ''why''))) [],
       tool_runtime_new (ToolDispatcherIdentity 2))"
proof -
  have "pr_identity (prepared_ready (ToolDispatcherIdentity 1) demo_call)
      \<noteq> tools_identity (tool_runtime_new (ToolDispatcherIdentity 2) :: (nat, unit) tool_runtime)"
    by (simp add: tool_runtime_new_def)
  note first = foreign_plans_and_grants_refused [THEN conjunct1, rule_format, OF this]
  have "pr_identity (prepared_requiring_approval (ToolDispatcherIdentity 2) demo_call (lit ''why''))
        = tools_identity (tool_runtime_new (ToolDispatcherIdentity 2) :: (nat, unit) tool_runtime)
      \<and> pr_disposition (prepared_requiring_approval (ToolDispatcherIdentity 2) demo_call (lit ''why''))
        = DispRequiresApproval (bound_approval_reason (lit ''why''))
      \<and> ToolCallId (lit ''run-tool-002'')
        \<noteq> tc_id (pr_call (prepared_requiring_approval (ToolDispatcherIdentity 2) demo_call (lit ''why'')))"
    by (simp add: tool_runtime_new_def demo_call_def)
  note second = foreign_plans_and_grants_refused [THEN conjunct2, rule_format, OF this]
  from first second show ?thesis by blast
qed

text \<open>
  Registration: it succeeds exactly on a valid definition under a free name; then the
  registry invariant is kept, the new tool is found under its name, every other lookup is
  unchanged and the registry has one more tool. Otherwise it reports the invalid definition
  first and the duplicate second.
\<close>
theorem register_spec:
  assumes "runtime_ok is_object rt"
  shows "(case register is_object d h rt of
      Inr rt' \<Rightarrow> definition_ok is_object d \<and> lookup_tool rt (td_name d) = None
        \<and> runtime_ok is_object rt' \<and> tools_len rt' = Suc (tools_len rt)
        \<and> (\<forall>n. lookup_tool rt' n = (if n = td_name d then Some d else lookup_tool rt n))
    | Inl (InvalidDefinition n e) \<Rightarrow> n = td_name d \<and> \<not> definition_ok is_object d
        \<and> validate_definition is_object d = Inl e
    | Inl (DuplicateTool n) \<Rightarrow> n = td_name d \<and> definition_ok is_object d
        \<and> lookup_tool rt (td_name d) \<noteq> None)"
proof (cases "register is_object d h rt")
  case (Inl err)
  show ?thesis
  proof (cases "validate_definition is_object d")
    case (Inl e)
    then show ?thesis using validate_definition_Inl [OF Inl] by (simp add: register_def)
  next
    case Valid: (Inr u)
    with Inl have "bt_get (tools rt) (td_name d) \<noteq> None" "err = DuplicateTool (td_name d)"
      by (auto simp: register_def split: if_splits)
    with Inl Valid show ?thesis by (auto simp: lookup_tool_def validate_definition_Inr)
  qed
next
  case (Inr rt')
  then have "definition_ok is_object d" "bt_get (tools rt) (td_name d) = None"
    "rt' = rt\<lparr>tools := bt_insert (td_name d) \<lparr>rt_definition = d, rt_handler = h\<rparr> (tools rt)\<rparr>"
    by (auto simp: register_Inr)
  with register_ok [OF assms Inr] show ?thesis
    by (simp add: Inr lookup_tool_def tools_len_def length_bt_insert_fresh)
qed

definition demo_definition :: "unit tool_definition" where
  "demo_definition =
     \<lparr>td_name = lit ''run_command'', td_description = lit ''run'', td_input_schema = (),
      td_output_schema = None, td_capability = \<lparr>cap_id = lit ''coding'', cap_version = lit ''1''\<rparr>,
      td_approval_policy = PolCallDependent, td_mcp = None\<rparr>"

theorem register_spec_witness:
  "runtime_ok (\<lambda>_. True) (tool_runtime_new (ToolDispatcherIdentity 1) :: (nat, unit) tool_runtime)
   \<and> (\<exists>rt'. register (\<lambda>_. True) demo_definition (0::nat) (tool_runtime_new (ToolDispatcherIdentity 1))
          = Inr rt' \<and> tools_len rt' = 1)"
proof -
  have ok: "runtime_ok (\<lambda>_. True)
      (tool_runtime_new (ToolDispatcherIdentity 1) :: (nat, unit) tool_runtime)"
    by (rule runtime_ok_new)
  have "definition_ok (\<lambda>_. True) demo_definition"
    by (simp add: definition_ok_def demo_definition_def is_blank_iff lit_def is_whitespace_def)
  then obtain rt' where rt': "register (\<lambda>_. True) demo_definition (0::nat)
      (tool_runtime_new (ToolDispatcherIdentity 1)) = Inr rt'"
    by (auto simp: register_Inr tool_runtime_new_def)
  from register_spec [OF ok, of demo_definition 0] ok rt' show ?thesis
    by (simp add: tools_len_def tool_runtime_new_def)
qed

end
