(* ===== verification/Tool_Manifest.thy ===== *)
theory Tool_Manifest
  imports Tool_Registry
begin

text \<open>
  Built-in capability manifests (crates/tool-runtime/src/manifest.rs): validation and the two
  conversions into tool definitions. The TOML parser is third-party: \<open>from_toml\<close> takes its
  result as an argument. \<open>tool_definitions\<close> borrows the manifest and \<open>into_tool_definitions\<close>
  consumes it through a second copy of the policy mapping, so both are modelled.
\<close>

definition BUILT_IN_MANIFEST_SCHEMA_VERSION :: "32 word" where
  "BUILT_IN_MANIFEST_SCHEMA_VERSION = 1"

datatype tool_safety_class =
  ClassAlwaysAllow | ClassRequiresApproval | ClassCallDependent | ClassAlwaysReject

record capability_metadata =
  cm_id :: ustring
  cm_version :: ustring
  cm_name :: ustring
  cm_description :: ustring

record 'v manifest_tool =
  mt_name :: ustring
  mt_description :: ustring
  mt_input_schema :: 'v
  mt_output_schema :: "'v option"
  mt_safety_class :: tool_safety_class
  mt_safety_reason :: "ustring option"
  mt_mcp :: "mcp_compatibility option"

record 'v capability_manifest =
  schema_version :: "32 word"
  capability :: capability_metadata
  manifest_tools :: "'v manifest_tool list"

datatype 'p capability_manifest_error = ManifestParse 'p | ManifestInvalid ustring

definition unwrap_or_default :: "ustring option \<Rightarrow> ustring" where
  "unwrap_or_default r = (case r of None \<Rightarrow> [] | Some s \<Rightarrow> s)"

definition manifest_approval_policy :: "'v manifest_tool \<Rightarrow> tool_approval_policy" where
  "manifest_approval_policy t =
     (case mt_safety_class t of
        ClassAlwaysAllow \<Rightarrow> PolAlwaysAllow
      | ClassRequiresApproval \<Rightarrow> PolRequiresApproval (unwrap_or_default (mt_safety_reason t))
      | ClassCallDependent \<Rightarrow> PolCallDependent
      | ClassAlwaysReject \<Rightarrow> PolAlwaysReject (unwrap_or_default (mt_safety_reason t)))"

definition into_definition :: "'v manifest_tool \<Rightarrow> capability_ref \<Rightarrow> 'v tool_definition" where
  "into_definition t cap =
     (let policy =
        (case mt_safety_class t of
           ClassAlwaysAllow \<Rightarrow> PolAlwaysAllow
         | ClassRequiresApproval \<Rightarrow> PolRequiresApproval (unwrap_or_default (mt_safety_reason t))
         | ClassCallDependent \<Rightarrow> PolCallDependent
         | ClassAlwaysReject \<Rightarrow> PolAlwaysReject (unwrap_or_default (mt_safety_reason t)))
      in \<lparr>td_name = mt_name t, td_description = mt_description t,
          td_input_schema = mt_input_schema t, td_output_schema = mt_output_schema t,
          td_capability = cap, td_approval_policy = policy, td_mcp = mt_mcp t\<rparr>)"

section \<open>Validation\<close>

definition validate_schema_version ::
    "'v capability_manifest \<Rightarrow> 'p capability_manifest_error + unit" where
  "validate_schema_version m =
     (if schema_version m \<noteq> BUILT_IN_MANIFEST_SCHEMA_VERSION then
        Inl (ManifestInvalid (lit ''unsupported schema_version '' @ dec_string (unat (schema_version m))
          @ lit ''; expected '' @ dec_string (unat BUILT_IN_MANIFEST_SCHEMA_VERSION)))
      else Inr ())"

definition manifest_require_non_empty ::
    "ustring \<Rightarrow> ustring \<Rightarrow> 'p capability_manifest_error + unit" where
  "manifest_require_non_empty label value =
     (if is_blank value then Inl (ManifestInvalid (label @ lit '' must not be empty'')) else Inr ())"

definition validate_required_metadata ::
    "'v capability_manifest \<Rightarrow> 'p capability_manifest_error + unit" where
  "validate_required_metadata m =
     try_res (manifest_require_non_empty (lit ''capability.name'') (cm_name (capability m))) (\<lambda>_.
     try_res (manifest_require_non_empty (lit ''capability.description'')
                (cm_description (capability m))) (\<lambda>_.
     if manifest_tools m = [] then
       Inl (ManifestInvalid (lit ''tools must contain at least one tool''))
     else Inr ()))"

fun unique_names_from :: "ustring set \<Rightarrow> 'v manifest_tool list \<Rightarrow> 'p capability_manifest_error + unit"
where
  "unique_names_from seen [] = Inr ()"
| "unique_names_from seen (t # ts) =
     (if mt_name t \<in> seen then Inl (ManifestInvalid (lit ''duplicate tool name '' @ quoted (mt_name t)))
      else unique_names_from (insert (mt_name t) seen) ts)"

definition validate_unique_tool_names ::
    "'v capability_manifest \<Rightarrow> 'p capability_manifest_error + unit" where
  "validate_unique_tool_names m = unique_names_from {} (manifest_tools m)"

definition manifest_capability :: "'v capability_manifest \<Rightarrow> capability_ref" where
  "manifest_capability m = \<lparr>cap_id = cm_id (capability m), cap_version = cm_version (capability m)\<rparr>"

fun definition_error_message :: "tool_definition_error \<Rightarrow> ustring" where
  "definition_error_message (ToolDefinitionError msg) = msg"

fun validate_tools ::
    "('v \<Rightarrow> bool) \<Rightarrow> capability_ref \<Rightarrow> 'v manifest_tool list \<Rightarrow> 'p capability_manifest_error + unit"
where
  "validate_tools is_object cap [] = Inr ()"
| "validate_tools is_object cap (t # ts) =
     try_res (map_err (\<lambda>e. ManifestInvalid (lit ''tool '' @ quoted (mt_name t) @ lit '': ''
                              @ definition_error_message e))
        (validate_fields is_object (mt_name t) (mt_description t) (mt_input_schema t)
           (mt_output_schema t) cap (manifest_approval_policy t) (mt_mcp t)))
       (\<lambda>_. validate_tools is_object cap ts)"

definition validate_tool_definitions ::
    "('v \<Rightarrow> bool) \<Rightarrow> 'v capability_manifest \<Rightarrow> 'p capability_manifest_error + unit" where
  "validate_tool_definitions is_object m =
     validate_tools is_object (manifest_capability m) (manifest_tools m)"

definition validate_manifest ::
    "('v \<Rightarrow> bool) \<Rightarrow> 'v capability_manifest \<Rightarrow> 'p capability_manifest_error + unit" where
  "validate_manifest is_object m =
     try_res (validate_schema_version m) (\<lambda>_.
     try_res (validate_required_metadata m) (\<lambda>_.
     try_res (validate_unique_tool_names m) (\<lambda>_.
     validate_tool_definitions is_object m)))"

section \<open>Conversion\<close>

definition tool_definitions ::
    "('v \<Rightarrow> bool) \<Rightarrow> 'v capability_manifest
       \<Rightarrow> 'p capability_manifest_error + 'v tool_definition list" where
  "tool_definitions is_object m =
     try_res (validate_manifest is_object m) (\<lambda>_.
       Inr (map (\<lambda>t. \<lparr>td_name = mt_name t, td_description = mt_description t,
                      td_input_schema = mt_input_schema t, td_output_schema = mt_output_schema t,
                      td_capability = manifest_capability m,
                      td_approval_policy = manifest_approval_policy t, td_mcp = mt_mcp t\<rparr>)
              (manifest_tools m)))"

definition into_tool_definitions ::
    "('v \<Rightarrow> bool) \<Rightarrow> 'v capability_manifest
       \<Rightarrow> 'p capability_manifest_error + 'v tool_definition list" where
  "into_tool_definitions is_object m =
     try_res (validate_manifest is_object m) (\<lambda>_.
       Inr (map (\<lambda>t. into_definition t (manifest_capability m)) (manifest_tools m)))"

definition from_toml ::
    "('v \<Rightarrow> bool) \<Rightarrow> ('p + 'v capability_manifest)
       \<Rightarrow> 'p capability_manifest_error + 'v capability_manifest" where
  "from_toml is_object parsed =
     try_res (map_err ManifestParse parsed) (\<lambda>m.
     try_res (validate_manifest is_object m) (\<lambda>_. Inr m))"

section \<open>Properties\<close>

lemma unique_names_Inr:
  "unique_names_from seen ts = Inr u \<longleftrightarrow>
     distinct (map mt_name ts) \<and> set (map mt_name ts) \<inter> seen = {}"
  by (induction ts arbitrary: seen) auto

lemma validate_fields_into:
  "validate_fields is_object (mt_name t) (mt_description t) (mt_input_schema t)
      (mt_output_schema t) cap (manifest_approval_policy t) (mt_mcp t)
   = validate_definition is_object (into_definition t cap)"
  by (simp add: validate_definition_def into_definition_def manifest_approval_policy_def Let_def)

lemma validate_tools_Inr:
  "validate_tools is_object cap ts = Inr u \<longleftrightarrow>
     (\<forall>t \<in> set ts. definition_ok is_object (into_definition t cap))"
  by (induction ts) (auto simp: try_res_Inr validate_fields_into validate_definition_Inr)

lemma td_name_into [simp]: "td_name (into_definition t cap) = mt_name t"
  by (simp add: into_definition_def Let_def)

lemma td_capability_into [simp]: "td_capability (into_definition t cap) = cap"
  by (simp add: into_definition_def Let_def)

lemma validate_manifest_Inr:
  "validate_manifest is_object m = (Inr () :: 'p capability_manifest_error + unit) \<longleftrightarrow>
     schema_version m = 1
     \<and> \<not> is_blank (cm_name (capability m)) \<and> \<not> is_blank (cm_description (capability m))
     \<and> manifest_tools m \<noteq> [] \<and> distinct (map mt_name (manifest_tools m))
     \<and> (\<forall>t \<in> set (manifest_tools m).
          definition_ok is_object (into_definition t (manifest_capability m)))"
  by (auto simp: validate_manifest_def try_res_Inr validate_schema_version_def
      validate_required_metadata_def manifest_require_non_empty_def validate_unique_tool_names_def
      unique_names_Inr validate_tool_definitions_def validate_tools_Inr
      BUILT_IN_MANIFEST_SCHEMA_VERSION_def split: if_splits)

text \<open>
  The two conversions of a manifest agree: cloning it and consuming it give the same
  definitions or the same error, and they succeed exactly on manifests with schema version 1,
  non-blank capability texts, at least one tool, distinct tool names and definitions that pass
  the registry's own validation; every definition then carries the manifest's capability.
\<close>
lemma manifest_conversions_agree:
  "tool_definitions is_object m = (into_tool_definitions is_object m
      :: 'p capability_manifest_error + 'v tool_definition list)
   \<and> (case into_tool_definitions is_object m
          :: 'p capability_manifest_error + 'v tool_definition list of
       Inr ds \<Rightarrow> schema_version m = 1 \<and> \<not> is_blank (cm_name (capability m))
         \<and> \<not> is_blank (cm_description (capability m))
         \<and> ds \<noteq> [] \<and> map td_name ds = map mt_name (manifest_tools m)
         \<and> distinct (map td_name ds)
         \<and> list_all (\<lambda>d. definition_ok is_object d \<and> td_capability d = manifest_capability m) ds
     | Inl e \<Rightarrow> validate_manifest is_object m = Inl e)"
proof
  show "tool_definitions is_object m = (into_tool_definitions is_object m
      :: 'p capability_manifest_error + 'v tool_definition list)"
    by (simp add: tool_definitions_def into_tool_definitions_def into_definition_def
        manifest_approval_policy_def Let_def)
  show "case into_tool_definitions is_object m
          :: 'p capability_manifest_error + 'v tool_definition list of
       Inr ds \<Rightarrow> schema_version m = 1 \<and> \<not> is_blank (cm_name (capability m))
         \<and> \<not> is_blank (cm_description (capability m))
         \<and> ds \<noteq> [] \<and> map td_name ds = map mt_name (manifest_tools m)
         \<and> distinct (map td_name ds)
         \<and> list_all (\<lambda>d. definition_ok is_object d \<and> td_capability d = manifest_capability m) ds
     | Inl e \<Rightarrow> validate_manifest is_object m = Inl e"
  proof (cases "validate_manifest is_object m :: 'p capability_manifest_error + unit")
    case (Inl e)
    then show ?thesis by (simp add: into_tool_definitions_def)
  next
    case (Inr u)
    then have valid: "validate_manifest is_object m = (Inr () :: 'p capability_manifest_error + unit)"
      by simp
    then have "into_tool_definitions is_object m
        = (Inr (map (\<lambda>t. into_definition t (manifest_capability m)) (manifest_tools m))
            :: 'p capability_manifest_error + 'v tool_definition list)"
      by (simp add: into_tool_definitions_def)
    with iffD1 [OF validate_manifest_Inr valid] show ?thesis
      by (simp add: list_all_iff comp_def)
  qed
qed

end
