(* ===== verification/Tool_Fake.thy ===== *)
theory Tool_Fake
  imports Tool_Dispatcher
begin

text \<open>
  The scripted tool handler and dispatcher (crates/tool-runtime/src/fake.rs), a second
  implementation of the dispatcher contract.
\<close>

record 'v fake_tool_handler =
  fth_outputs :: "'v tool_output list"
  fth_calls :: "'v tool_call list"
  fth_policy :: tool_call_policy

definition fake_handler_new :: "'v tool_output list \<Rightarrow> 'v fake_tool_handler" where
  "fake_handler_new outs = \<lparr>fth_outputs = outs, fth_calls = [], fth_policy = Allow\<rparr>"

definition fake_handler_requiring_approval ::
    "ustring \<Rightarrow> 'v tool_output list \<Rightarrow> 'v fake_tool_handler" where
  "fake_handler_requiring_approval r outs =
     \<lparr>fth_outputs = outs, fth_calls = [], fth_policy = RequiresApproval r\<rparr>"

definition fake_handler_rejecting :: "ustring \<Rightarrow> 'v tool_output list \<Rightarrow> 'v fake_tool_handler" where
  "fake_handler_rejecting r outs = \<lparr>fth_outputs = outs, fth_calls = [], fth_policy = Reject r\<rparr>"

definition fake_classify :: "'v fake_tool_handler \<Rightarrow> 'v tool_call \<Rightarrow> tool_call_policy" where
  "fake_classify h call = fth_policy h"

definition fake_execute ::
    "'v fake_tool_handler \<Rightarrow> 'v tool_call \<Rightarrow> bool \<Rightarrow> 'v tool_output \<times> 'v fake_tool_handler" where
  "fake_execute h call cancelled =
     (let h1 = h\<lparr>fth_calls := fth_calls h @ [call]\<rparr>
      in case fth_outputs h1 of
           [] \<Rightarrow> (Failure (mk_error (lit ''fake_script_exhausted'')
                     (lit ''FakeToolHandler has no scripted output left'')) [], h1)
         | out # outs \<Rightarrow> (out, h1\<lparr>fth_outputs := outs\<rparr>))"

definition fake_tool_handler_ops :: "('v fake_tool_handler, 'v) tool_handler" where
  "fake_tool_handler_ops = \<lparr>h_classify = fake_classify, h_execute = fake_execute\<rparr>"

record 'v fake_tool_dispatcher =
  ftd_identity :: tool_dispatcher_identity
  ftd_handler :: "'v fake_tool_handler"

definition fake_prepare :: "'v fake_tool_dispatcher \<Rightarrow> 'v tool_call \<Rightarrow> 'v prepared_tool_call" where
  "fake_prepare d call = classified (ftd_identity d) call (fake_classify (ftd_handler d) call)"

definition fake_execute_prepared ::
    "'v fake_tool_dispatcher \<Rightarrow> 'v prepared_tool_call \<Rightarrow> tool_execution_authorization \<Rightarrow> bool
       \<Rightarrow> 'v tool_output \<times> 'v fake_tool_dispatcher" where
  "fake_execute_prepared d p auth cancelled =
     (case into_authorized_call p (ftd_identity d) auth of
        Inr call \<Rightarrow>
          (let (out, h') = fake_execute (ftd_handler d) call cancelled
           in (normalize_dispatcher_output out, d\<lparr>ftd_handler := h'\<rparr>))
      | Inl out \<Rightarrow> (out, d))"

lemma fake_execute_prepared_Inl:
  "into_authorized_call p (ftd_identity d) auth = Inl out
     \<Longrightarrow> fake_execute_prepared d p auth c = (out, d)"
  by (simp add: fake_execute_prepared_def)

interpretation fake: tool_dispatcher "\<lambda>_. True" fake_prepare fake_execute_prepared
proof (standard, goal_cases)
  case (3 t call r)
  then show ?case
    by (auto simp: fake_prepare_def classified_def split: tool_call_policy.splits if_splits)
next
  case (5 t p auth c out t')
  then show ?case
    by (auto simp: fake_execute_prepared_def dest: into_authorized_call_not_denied
        split: sum.splits prod.splits)
next
  case (6 t p r auth c out t')
  then show ?case
    by (auto simp: fake_execute_prepared_def into_authorized_call_def is_granted_for_def
        failure_output_def split: if_splits tool_execution_authorization.splits)
next
  case (7 t p e auth c out t')
  then show ?case
    by (auto simp: fake_execute_prepared_def into_authorized_call_def failure_output_def
        split: if_splits)
qed (simp_all add: fake_prepare_def)

text \<open>
  The scripted dispatcher records exactly the calls it runs: preparing and executing a call
  appends it to the recorded calls and consumes one scripted output precisely when the
  scripted policy lets it run; a call that is refused, rejected or not approved is not recorded.
\<close>
lemma fake_records_executed_calls:
  "(let d' = snd (fake_execute_prepared d (fake_prepare d call) auth c);
        runs = (fth_policy (ftd_handler d) = Allow
                \<or> (\<exists>r. fth_policy (ftd_handler d) = RequiresApproval r
                        \<and> \<not> is_blank (bound_approval_reason r)) \<and> auth = ApprovalGranted (tc_id call))
    in fth_calls (ftd_handler d')
         = (if runs then fth_calls (ftd_handler d) @ [call] else fth_calls (ftd_handler d))
       \<and> fth_outputs (ftd_handler d')
         = (if runs then tl (fth_outputs (ftd_handler d)) else fth_outputs (ftd_handler d)))"
  by (cases "fth_policy (ftd_handler d)")
    (auto simp: fake_execute_prepared_def fake_prepare_def fake_classify_def classified_def
      into_authorized_call_def is_granted_for_def fake_execute_def Let_def
      split: list.split tool_execution_authorization.split)

end
