(* ===== verification/Model_Runtime.thy ===== *)
theory Model_Runtime
  imports Prelude
begin

text \<open>
  The provider-neutral model boundary (crates/model-runtime/src): identifiers, stream events,
  requests and messages, and the scripted model client. \<open>'v\<close> stands for \<open>serde_json::Value\<close>,
  a third-party type that this crate only stores, compares and passes on.
\<close>

section \<open>Identifiers (id.rs)\<close>

datatype model_request_id = ModelRequestId ustring
datatype model_tool_call_id = ModelToolCallId ustring

primrec model_tool_call_id_str :: "model_tool_call_id \<Rightarrow> ustring" where
  "model_tool_call_id_str (ModelToolCallId s) = s"

section \<open>Stream events (stream.rs)\<close>

type_synonym 'v json_map = "(ustring, 'v) btree_map"

record model_usage =
  input_tokens :: "64 word"
  output_tokens :: "64 word"

record model_error =
  me_code :: ustring
  me_message :: ustring
  me_retryable :: bool

datatype 'v model_stream_event =
    Started "model_request_id option" "'v json_map"
  | TextDelta ustring "'v json_map"
  | ToolCallDelta model_tool_call_id "ustring option" ustring "'v json_map"
  | ModelToolCallEvent model_tool_call_id ustring 'v "'v json_map"
  | Usage model_usage "'v json_map"
  | ModelCompleted "ustring option" "'v json_map"
  | ModelFailed model_error "'v json_map"

section \<open>Requests and messages (client.rs)\<close>

record 'v model_tool_call =
  mtc_id :: model_tool_call_id
  mtc_name :: ustring
  mtc_arguments :: 'v

record 'v model_tool_spec =
  mts_name :: ustring
  mts_description :: ustring
  mts_input_schema :: 'v

datatype 'v model_message_content = ContentText ustring | ContentJson 'v

datatype 'v model_message =
    SystemMessage ustring
  | UserMessage ustring
  | AssistantMessage "ustring option" "'v model_tool_call list"
  | ToolMessage "'v model_message_content list" ustring model_tool_call_id

datatype model_message_role = RoleSystem | RoleUser | RoleAssistant | RoleTool

record 'v model_request =
  mr_model :: ustring
  mr_messages :: "'v model_message list"
  mr_tools :: "'v model_tool_spec list"
  mr_metadata :: "'v json_map"

definition msg_system :: "ustring \<Rightarrow> 'v model_message" where
  "msg_system c = SystemMessage c"

definition msg_user :: "ustring \<Rightarrow> 'v model_message" where
  "msg_user c = UserMessage c"

definition msg_assistant :: "ustring \<Rightarrow> 'v model_message" where
  "msg_assistant c = AssistantMessage (Some c) []"

definition assistant_with_tool_calls ::
    "ustring \<Rightarrow> 'v model_tool_call list \<Rightarrow> 'v model_message" where
  "assistant_with_tool_calls c calls = AssistantMessage (Some c) calls"

definition assistant_tool_calls :: "'v model_tool_call list \<Rightarrow> 'v model_message" where
  "assistant_tool_calls calls = AssistantMessage None calls"

definition msg_tool :: "ustring \<Rightarrow> ustring \<Rightarrow> ustring \<Rightarrow> 'v model_message" where
  "msg_tool c n i = ToolMessage [ContentText c] n (ModelToolCallId i)"

definition msg_tool_content ::
    "'v model_message_content list \<Rightarrow> ustring \<Rightarrow> ustring \<Rightarrow> 'v model_message" where
  "msg_tool_content cs n i = ToolMessage cs n (ModelToolCallId i)"

fun message_role :: "'v model_message \<Rightarrow> model_message_role" where
  "message_role (SystemMessage _) = RoleSystem"
| "message_role (UserMessage _) = RoleUser"
| "message_role (AssistantMessage _ _) = RoleAssistant"
| "message_role (ToolMessage _ _ _) = RoleTool"

fun content_as_text :: "'v model_message_content \<Rightarrow> ustring option" where
  "content_as_text (ContentText t) = Some t"
| "content_as_text (ContentJson _) = None"

text \<open>\<open>iter().find_map(f)\<close>: the first element that \<open>f\<close> maps to \<open>Some\<close>.\<close>

fun find_map :: "('a \<Rightarrow> 'b option) \<Rightarrow> 'a list \<Rightarrow> 'b option" where
  "find_map f [] = None"
| "find_map f (x # xs) = (case f x of Some y \<Rightarrow> Some y | None \<Rightarrow> find_map f xs)"

fun text_content :: "'v model_message \<Rightarrow> ustring option" where
  "text_content (SystemMessage c) = Some c"
| "text_content (UserMessage c) = Some c"
| "text_content (AssistantMessage c _) = c"
| "text_content (ToolMessage cs _ _) = find_map content_as_text cs"

section \<open>The scripted client (fake.rs)\<close>

datatype 'v scripted_model_turn =
    ScriptedEvents "'v model_stream_event list"
  | ScriptedError model_error

record 'v fake_model_client =
  fmc_turns :: "'v scripted_model_turn list"
  fmc_request_count :: nat
  fmc_last_message :: "'v model_message option"

definition fake_model_client_new :: "'v scripted_model_turn list \<Rightarrow> 'v fake_model_client" where
  "fake_model_client_new turns =
     \<lparr>fmc_turns = turns, fmc_request_count = 0, fmc_last_message = None\<rparr>"

definition script_exhausted :: model_error where
  "script_exhausted =
     \<lparr>me_code = lit ''fake_script_exhausted'',
      me_message = lit ''FakeModelClient has no scripted turn left'',
      me_retryable = False\<rparr>"

definition last_opt :: "'a list \<Rightarrow> 'a option" where
  "last_opt xs = (if xs = [] then None else Some (last xs))"

definition fake_stream ::
    "'v fake_model_client \<Rightarrow> 'v model_request
       \<Rightarrow> (model_error + 'v model_stream_event list) \<times> 'v fake_model_client" where
  "fake_stream c req =
     (let c1 = c\<lparr>fmc_request_count := fmc_request_count c + 1,
                 fmc_last_message := last_opt (mr_messages req)\<rparr>
      in case fmc_turns c1 of
           [] \<Rightarrow> (Inl script_exhausted, c1)
         | ScriptedEvents es # ts \<Rightarrow> (Inr es, c1\<lparr>fmc_turns := ts\<rparr>)
         | ScriptedError e # ts \<Rightarrow> (Inl e, c1\<lparr>fmc_turns := ts\<rparr>))"

definition fake_remaining_turns :: "'v fake_model_client \<Rightarrow> nat" where
  "fake_remaining_turns c = length (fmc_turns c)"

text \<open>
  The script is played in order: after \<open>n\<close> requests the client is left with the turns from
  position \<open>n\<close> on, and past its end every request fails with the exhaustion error.
\<close>

fun fake_stream_all ::
    "'v fake_model_client \<Rightarrow> 'v model_request list
       \<Rightarrow> (model_error + 'v model_stream_event list) list \<times> 'v fake_model_client" where
  "fake_stream_all c [] = ([], c)"
| "fake_stream_all c (r # rs) =
     (let (out, c1) = fake_stream c r; (outs, c2) = fake_stream_all c1 rs in (out # outs, c2))"

fun scripted_result :: "'v scripted_model_turn \<Rightarrow> model_error + 'v model_stream_event list" where
  "scripted_result (ScriptedEvents es) = Inr es"
| "scripted_result (ScriptedError e) = Inl e"

lemma fake_stream_Nil:
  "fmc_turns c = [] \<Longrightarrow> fst (fake_stream c r) = Inl script_exhausted
     \<and> fmc_turns (snd (fake_stream c r)) = []"
  by (simp add: fake_stream_def)

lemma fake_stream_Cons:
  "fmc_turns c = t # ts \<Longrightarrow> fst (fake_stream c r) = scripted_result t
     \<and> fmc_turns (snd (fake_stream c r)) = ts"
  by (cases t) (simp_all add: fake_stream_def)

lemma fake_stream_count:
  "fmc_request_count (snd (fake_stream c r)) = fmc_request_count c + 1"
  by (simp add: fake_stream_def Let_def split: list.split scripted_model_turn.split)

text \<open>
  The scripted model client plays its script in order: the results of any sequence of
  requests are the scripted turns, one per request, and once the script is used up every further
  request fails with the exhaustion error.
\<close>
lemma fake_stream_all_script:
  "fst (fake_stream_all c rs) =
     map scripted_result (take (length rs) (fmc_turns c))
     @ replicate (length rs - length (fmc_turns c)) (Inl script_exhausted)"
proof (induction rs arbitrary: c)
  case (Cons r rs)
  show ?case
  proof (cases "fmc_turns c")
    case Nil
    then show ?thesis using Cons.IH [of "snd (fake_stream c r)"] fake_stream_Nil [of c r]
      by (simp add: split_beta Let_def)
  next
    case (Cons t ts)
    then show ?thesis
      using Cons.IH [of "snd (fake_stream c r)"] fake_stream_Cons [OF Cons, of r]
      by (simp add: split_beta Let_def)
  qed
qed simp

end
