(* ===== verification/Agent_Events.thy ===== *)
theory Agent_Events
  imports Model_Runtime Tool_Execution
begin

text \<open>
  The canonical events of an Agent Run and their observers (crates/agent-runtime/src/run.rs,
  turn.rs). \<open>'v\<close> stands for \<open>serde_json::Value\<close>.
\<close>

datatype run_id = RunId ustring
datatype turn_id = TurnId ustring

primrec run_id_str :: "run_id \<Rightarrow> ustring" where
  "run_id_str (RunId s) = s"

primrec turn_id_str :: "turn_id \<Rightarrow> ustring" where
  "turn_id_str (TurnId s) = s"

datatype event_sequence = EventSequence "64 word"

primrec as_u64 :: "event_sequence \<Rightarrow> 64 word" where
  "as_u64 (EventSequence n) = n"

text \<open>Sequences are compared by the identity they carry.\<close>

instantiation event_sequence :: linorder
begin

definition less_eq_event_sequence :: "event_sequence \<Rightarrow> event_sequence \<Rightarrow> bool" where
  "less_eq_event_sequence a b \<longleftrightarrow> as_u64 a \<le> as_u64 b"

definition less_event_sequence :: "event_sequence \<Rightarrow> event_sequence \<Rightarrow> bool" where
  "less_event_sequence a b \<longleftrightarrow> as_u64 a < as_u64 b"

instance
proof
  fix x y z :: event_sequence
  show "x < y \<longleftrightarrow> x \<le> y \<and> \<not> y \<le> x"
    by (auto simp: less_eq_event_sequence_def less_event_sequence_def)
  show "x \<le> x" by (simp add: less_eq_event_sequence_def)
  show "x \<le> z" if "x \<le> y" "y \<le> z"
    using that by (simp add: less_eq_event_sequence_def)
  show "x = y" if "x \<le> y" "y \<le> x"
    using that by (cases x; cases y) (simp add: less_eq_event_sequence_def)
  show "x \<le> y \<or> y \<le> x" by (auto simp: less_eq_event_sequence_def)
qed

end

record agent_error =
  ae_code :: ustring
  ae_message :: ustring
  ae_recoverable :: bool

datatype terminal_run_status =
    Completed ustring
  | Failed agent_error
  | Interrupted ustring
  | Cancelled ustring

datatype run_status =
    Running
  | AwaitingApproval
  | RecoveryRequired "tool_call_id list"
  | Finished terminal_run_status

record 'v approval_request =
  ar_id :: ustring
  ar_call :: "'v tool_call"
  ar_reason :: ustring

datatype approval_decision = Approve | Deny ustring

datatype 'v agent_event =
    RunStarted run_id "event_sequence option" "'v json_map"
  | TurnStarted run_id turn_id "event_sequence option" "'v json_map"
  | ModelOutput run_id turn_id "'v model_stream_event" "event_sequence option" "'v json_map"
  | ToolCallRequested run_id turn_id model_tool_call_id "'v tool_call"
      "event_sequence option" "'v json_map"
  | ApprovalRequested run_id turn_id "'v approval_request" "event_sequence option" "'v json_map"
  | ApprovalResolved run_id turn_id ustring approval_decision
      "event_sequence option" "'v json_map"
  | ToolResultEvent run_id turn_id "'v tool_result" "event_sequence option" "'v json_map"
  | ErrorEvent run_id "turn_id option" agent_error "event_sequence option" "'v json_map"
  | RunFinished run_id terminal_run_status "event_sequence option" "'v json_map"

fun event_run_id :: "'v agent_event \<Rightarrow> run_id" where
  "event_run_id (RunStarted r _ _) = r"
| "event_run_id (TurnStarted r _ _ _) = r"
| "event_run_id (ModelOutput r _ _ _ _) = r"
| "event_run_id (ToolCallRequested r _ _ _ _ _) = r"
| "event_run_id (ApprovalRequested r _ _ _ _) = r"
| "event_run_id (ApprovalResolved r _ _ _ _ _) = r"
| "event_run_id (ToolResultEvent r _ _ _ _) = r"
| "event_run_id (ErrorEvent r _ _ _ _) = r"
| "event_run_id (RunFinished r _ _ _) = r"

fun event_sequence_of :: "'v agent_event \<Rightarrow> event_sequence option" where
  "event_sequence_of (RunStarted _ q _) = q"
| "event_sequence_of (TurnStarted _ _ q _) = q"
| "event_sequence_of (ModelOutput _ _ _ q _) = q"
| "event_sequence_of (ToolCallRequested _ _ _ _ q _) = q"
| "event_sequence_of (ApprovalRequested _ _ _ q _) = q"
| "event_sequence_of (ApprovalResolved _ _ _ _ q _) = q"
| "event_sequence_of (ToolResultEvent _ _ _ q _) = q"
| "event_sequence_of (ErrorEvent _ _ _ q _) = q"
| "event_sequence_of (RunFinished _ _ q _) = q"

fun with_event_sequence :: "event_sequence \<Rightarrow> 'v agent_event \<Rightarrow> 'v agent_event" where
  "with_event_sequence q (RunStarted r _ x) = RunStarted r (Some q) x"
| "with_event_sequence q (TurnStarted r t _ x) = TurnStarted r t (Some q) x"
| "with_event_sequence q (ModelOutput r t e _ x) = ModelOutput r t e (Some q) x"
| "with_event_sequence q (ToolCallRequested r t m c _ x) = ToolCallRequested r t m c (Some q) x"
| "with_event_sequence q (ApprovalRequested r t a _ x) = ApprovalRequested r t a (Some q) x"
| "with_event_sequence q (ApprovalResolved r t a d _ x) = ApprovalResolved r t a d (Some q) x"
| "with_event_sequence q (ToolResultEvent r t s _ x) = ToolResultEvent r t s (Some q) x"
| "with_event_sequence q (ErrorEvent r t e _ x) = ErrorEvent r t e (Some q) x"
| "with_event_sequence q (RunFinished r s _ x) = RunFinished r s (Some q) x"

lemma event_sequence_with [simp, ev_simps]: "event_sequence_of (with_event_sequence q e) = Some q"
  by (cases e) simp_all

lemma event_run_id_with [simp, ev_simps]: "event_run_id (with_event_sequence q e) = event_run_id e"
  by (cases e) simp_all

lemma with_event_sequence_twice [simp, ev_simps]:
  "with_event_sequence q (with_event_sequence p e) = with_event_sequence q e"
  by (cases e) simp_all

lemma with_event_sequence_id: "event_sequence_of e = Some q \<Longrightarrow> with_event_sequence q e = e"
  by (cases e) simp_all

text \<open>The sequences of a log are \<open>k\<close>, \<open>k + 1\<close>, ...\<close>

fun sequenced_from :: "nat \<Rightarrow> 'v agent_event list \<Rightarrow> bool" where
  "sequenced_from k [] = True"
| "sequenced_from k (e # es) =
     (event_sequence_of e = Some (EventSequence (of_nat k)) \<and> sequenced_from (Suc k) es)"

lemma sequenced_from_append:
  "sequenced_from k (es @ fs) \<longleftrightarrow> sequenced_from k es \<and> sequenced_from (k + length es) fs"
  by (induction es arbitrary: k) auto

lemma sequenced_from_nth:
  "sequenced_from k es \<Longrightarrow> i < length es \<Longrightarrow>
     event_sequence_of (es ! i) = Some (EventSequence (of_nat (k + i)))"
  by (induction es arbitrary: k i) (auto simp: nth_Cons split: nat.split)

end
