(* ===== verification/Stop_Token.thy ===== *)
theory Stop_Token
  imports Agent_Events
begin

text \<open>
  The run stop token of crates/agent-runtime/src/runtime.rs: a latch shared between the runtime
  and the threads that may interrupt or cancel the run. Its fields are private to the runtime's
  module, so other holders can only call \<open>interrupt\<close> and \<open>cancel\<close> (and read it); both take
  effect under the token's mutex, one at a time.
\<close>

record run_stop_token =
  cancellation :: bool
  bound_run_id :: "run_id option"
  token_status :: "terminal_run_status option"

definition default_token :: run_stop_token where
  "default_token = \<lparr>cancellation = False, bound_run_id = None, token_status = None\<rparr>"

fun is_stop_status :: "terminal_run_status \<Rightarrow> bool" where
  "is_stop_status (Interrupted _) = True"
| "is_stop_status (Cancelled _) = True"
| "is_stop_status (Completed _) = False"
| "is_stop_status (Failed _) = False"

text \<open>\<open>RunStopToken::bind\<close>: the first run wins, later ones get the id of that run.\<close>

definition bind_token :: "run_id \<Rightarrow> run_stop_token \<Rightarrow> run_id + run_stop_token" where
  "bind_token r k =
     (case bound_run_id k of
        Some b \<Rightarrow> Inl b
      | None \<Rightarrow> Inr (k\<lparr>bound_run_id := Some r\<rparr>))"

text \<open>\<open>resolve_terminal\<close>: the first proposal is kept; a stop also raises the cancellation flag.\<close>

definition resolve_terminal ::
    "terminal_run_status \<Rightarrow> run_stop_token \<Rightarrow> terminal_run_status \<times> run_stop_token" where
  "resolve_terminal proposed k =
     (case token_status k of
        Some s \<Rightarrow> (s, k)
      | None \<Rightarrow> (proposed, k\<lparr>token_status := Some proposed,
                              cancellation := cancellation k \<or> is_stop_status proposed\<rparr>))"

datatype stop_request = RequestInterrupt ustring | RequestCancel ustring

fun requested_status :: "stop_request \<Rightarrow> terminal_run_status" where
  "requested_status (RequestInterrupt r) = Interrupted r"
| "requested_status (RequestCancel r) = Cancelled r"

definition request_stop :: "stop_request \<Rightarrow> run_stop_token \<Rightarrow> run_stop_token" where
  "request_stop q k = snd (resolve_terminal (requested_status q) k)"

text \<open>\<open>status\<close>: the terminal status, but only once a stop has raised the flag.\<close>

definition stop_status :: "run_stop_token \<Rightarrow> terminal_run_status option" where
  "stop_status k = (if \<not> cancellation k then None else token_status k)"

section \<open>The latch\<close>

text \<open>
  Every token built from the default one satisfies: the flag is raised exactly when the latched
  status is an interruption or a cancellation.
\<close>

definition token_ok :: "run_stop_token \<Rightarrow> bool" where
  "token_ok k \<longleftrightarrow>
     (cancellation k \<longleftrightarrow> (case token_status k of Some s \<Rightarrow> is_stop_status s | None \<Rightarrow> False))"

text \<open>A token no run has finished: only stop requests can have been latched.\<close>

definition token_open :: "run_stop_token \<Rightarrow> bool" where
  "token_open k \<longleftrightarrow> token_ok k \<and> (token_status k \<noteq> None \<longrightarrow> cancellation k)"

lemma token_open_ok: "token_open k \<Longrightarrow> token_ok k"
  by (simp add: token_open_def)

lemma token_open_default [simp]: "token_open default_token"
  by (simp add: token_open_def token_ok_def default_token_def)

lemma token_ok_resolve: "token_ok k \<Longrightarrow> token_ok (snd (resolve_terminal p k))"
  by (auto simp: token_ok_def resolve_terminal_def split: option.splits)

lemma requested_is_stop [simp]: "is_stop_status (requested_status q)"
  by (cases q) simp_all

lemma token_open_request [simp]: "token_open k \<Longrightarrow> token_open (request_stop q k)"
  by (auto simp: token_open_def token_ok_def request_stop_def resolve_terminal_def
      split: option.splits)

lemma token_open_requests: "token_open k \<Longrightarrow> token_open (fold request_stop qs k)"
  by (induction qs arbitrary: k) simp_all

lemma token_open_bind: "token_open k \<Longrightarrow> bind_token r k = Inr k' \<Longrightarrow> token_open k'"
  by (auto simp: bind_token_def token_open_def token_ok_def split: option.splits)

lemma token_status_request: "token_status k = Some s \<Longrightarrow> request_stop q k = k"
  by (simp add: request_stop_def resolve_terminal_def)

lemma token_status_requests: "token_status k = Some s \<Longrightarrow> fold request_stop qs k = k"
  by (induction qs) (simp_all add: token_status_request)

lemma bound_run_id_request [simp]: "bound_run_id (request_stop q k) = bound_run_id k"
  by (simp add: request_stop_def resolve_terminal_def split: option.split)

lemma bound_run_id_requests [simp]: "bound_run_id (fold request_stop qs k) = bound_run_id k"
  by (induction qs arbitrary: k) simp_all

lemma stop_status_Some:
  "token_ok k \<Longrightarrow> stop_status k = Some s \<Longrightarrow> token_status k = Some s \<and> is_stop_status s"
  by (auto simp: stop_status_def token_ok_def split: if_splits option.splits)

lemma stop_status_None_open: "token_open k \<Longrightarrow> stop_status k = None \<Longrightarrow> token_status k = None"
  by (auto simp: stop_status_def token_open_def split: if_splits)

lemma resolve_terminal_latched:
  "token_status k = Some s \<Longrightarrow> resolve_terminal p k = (s, k)"
  by (simp add: resolve_terminal_def)

lemma resolve_terminal_status:
  "resolve_terminal p k = (s, k') \<Longrightarrow> token_status k' = Some s"
  by (auto simp: resolve_terminal_def split: option.splits)

lemma resolve_terminal_open:
  "token_open k \<Longrightarrow> resolve_terminal p k = (s, k') \<Longrightarrow> s = p \<or> is_stop_status s"
  by (auto simp: resolve_terminal_def token_open_def token_ok_def split: option.splits)

text \<open>
  C34. The stop token is a latch: whatever requests arrive after a terminal status has been
  chosen, by a stop or by the run's own ending, the token is unchanged; and before that, the
  first request in order decides both the status and the flag.
\<close>
theorem stop_token_latches:
  "(let (s, k') = resolve_terminal p k in
      fold request_stop qs k' = k' \<and> token_status k' = Some s
      \<and> resolve_terminal p' k' = (s, k'))
   \<and> token_status (fold request_stop (q # qs) default_token) = Some (requested_status q)
   \<and> stop_status (fold request_stop (q # qs) default_token) = Some (requested_status q)"
proof -
  obtain s k' where r: "resolve_terminal p k = (s, k')" by fastforce
  have k': "token_status k' = Some s" by (rule resolve_terminal_status [OF r])
  define d where "d = request_stop q default_token"
  have d: "token_status d = Some (requested_status q)" "cancellation d"
    by (simp_all add: d_def request_stop_def resolve_terminal_def default_token_def)
  have "fold request_stop (q # qs) default_token = d"
    using token_status_requests [OF d(1), of qs] by (simp add: d_def)
  with d r token_status_requests [OF k', of qs] k' show ?thesis
    by (simp add: resolve_terminal_latched stop_status_def)
qed

end
