(* ===== verification/Agent_Runtime.thy ===== *)
theory Agent_Runtime
  imports Stop_Token Model_Runtime
begin

text \<open>
  The agent runtime (crates/agent-runtime/src/runtime.rs): the driver of one Agent Run. The model
  client, the tool dispatcher, the event sink and the run control are the adapters of the source,
  given here as their operations; their states, the runtime's own fields and the stop token form
  the world that every operation threads. A model stream is the finite list of events it yields.

  Other threads may interrupt or cancel the run at any moment. \<open>rw_schedule\<close> lists, for each
  access of the runtime to the stop token, the requests that arrive before it; the token is only
  changed under its mutex, so every interleaving is one of these schedules.
\<close>

section \<open>Data\<close>

datatype event_durability = Buffered | Durable

datatype run_control_flow = Continue | InterruptRun ustring | CancelRun ustring

record 'v run_request =
  rq_run_id :: run_id
  rq_model :: ustring
  rq_messages :: "'v model_message list"
  rq_tools :: "'v model_tool_spec list"
  rq_metadata :: "'v json_map"

datatype run_outcome = RunOutcome terminal_run_status

primrec outcome_status :: "run_outcome \<Rightarrow> terminal_run_status" where
  "outcome_status (RunOutcome s) = s"

record 'v collected_model_turn =
  cmt_text :: ustring
  cmt_tool_calls :: "'v model_tool_call list"

datatype 'v model_turn_progress =
    Collected "'v collected_model_turn"
  | ModelTurnFinished run_outcome

datatype 'v tool_call_progress =
    ToolCallMessage "'v model_message"
  | ToolCallFinished run_outcome

record run_sequences =
  sq_tool_call :: nat
  sq_approval :: nat

definition default_sequences :: run_sequences where
  "default_sequences = \<lparr>sq_tool_call = 0, sq_approval = 0\<rparr>"

datatype ('v, 'e) agent_runtime_error =
    RuntimeAlreadyUsed run_id
  | StopTokenAlreadyBound run_id
  | EventPersistenceIndeterminate event_sequence "'v agent_event" event_durability 'e

text \<open>A run returns an error value, or panics in \<open>advance_event_sequence\<close>.\<close>

datatype ('v, 'e) run_failure = RunErr "('v, 'e) agent_runtime_error" | RunPanic

record ('v, 'm, 't, 's, 'c, 'e) adapters =
  a_stream :: "'m \<Rightarrow> 'v model_request \<Rightarrow> bool
                \<Rightarrow> (model_error + 'v model_stream_event list) \<times> 'm"
  a_prepare :: "'t \<Rightarrow> 'v tool_call \<Rightarrow> 'v prepared_tool_call"
  a_execute :: "'t \<Rightarrow> 'v prepared_tool_call \<Rightarrow> tool_execution_authorization \<Rightarrow> bool
                 \<Rightarrow> 'v tool_output \<times> 't"
  a_append :: "'s \<Rightarrow> event_sequence \<Rightarrow> 'v agent_event \<Rightarrow> ('e + unit) \<times> 's"
  a_append_durable :: "'s \<Rightarrow> event_sequence \<Rightarrow> 'v agent_event \<Rightarrow> ('e + unit) \<times> 's"
  a_checkpoint :: "'c \<Rightarrow> run_control_flow \<times> 'c"
  a_decide :: "'c \<Rightarrow> 'v approval_request \<Rightarrow> bool \<Rightarrow> approval_decision \<times> 'c"
  a_to_value :: "'v tool_output \<Rightarrow> 'v"

text \<open>The runtime's own fields, and the world of a run: the control, the token, the schedule.\<close>

record ('m, 't, 's) agent_runtime =
  model_client :: 'm
  tool_dispatcher_state :: 't
  event_sink_state :: 's
  next_event_sequence :: "64 word"
  started_run_id :: "run_id option"

record ('m, 't, 's, 'c) run_world = "('m, 't, 's) agent_runtime" +
  rw_control :: 'c
  rw_stop :: run_stop_token
  rw_schedule :: "stop_request list list"

definition new_runtime :: "'m \<Rightarrow> 't \<Rightarrow> 's \<Rightarrow> ('m, 't, 's) agent_runtime" where
  "new_runtime m t s =
     \<lparr>model_client = m, tool_dispatcher_state = t, event_sink_state = s,
      next_event_sequence = 1, started_run_id = None\<rparr>"

definition into_parts :: "('m, 't, 's) agent_runtime \<Rightarrow> 'm \<times> 't \<times> 's" where
  "into_parts rt = (model_client rt, tool_dispatcher_state rt, event_sink_state rt)"

section \<open>The stop token as seen by the runtime\<close>

type_synonym ('a, 'v, 'm, 't, 's, 'c, 'e) run_op =
  "(('v, 'e) run_failure, ('m, 't, 's, 'c) run_world, 'a) op"


definition concurrent_stops ::
    "('m, 't, 's, 'c) run_world \<Rightarrow> ('m, 't, 's, 'c) run_world" where
  "concurrent_stops w =
     (case rw_schedule w of
        [] \<Rightarrow> w
      | qs # rest \<Rightarrow> w\<lparr>rw_schedule := rest, rw_stop := fold request_stop qs (rw_stop w)\<rparr>)"

definition stop_now :: "(terminal_run_status option, 'v, 'm, 't, 's, 'c, 'e) run_op" where
  "stop_now w = (let w1 = concurrent_stops w in (Inr (stop_status (rw_stop w1)), w1))"

definition cancellation_flag :: "(bool, 'v, 'm, 't, 's, 'c, 'e) run_op" where
  "cancellation_flag w = (let w1 = concurrent_stops w in (Inr (cancellation (rw_stop w1)), w1))"

definition resolve_now ::
    "terminal_run_status \<Rightarrow> (terminal_run_status, 'v, 'm, 't, 's, 'c, 'e) run_op" where
  "resolve_now p w =
     (let w1 = concurrent_stops w; (s, k) = resolve_terminal p (rw_stop w1)
      in (Inr s, w1\<lparr>rw_stop := k\<rparr>))"

text \<open>\<open>stopped_status(control.checkpoint(), stop)\<close>\<close>

definition stopped_status ::
    "('v, 'm, 't, 's, 'c, 'e) adapters
       \<Rightarrow> (terminal_run_status option, 'v, 'm, 't, 's, 'c, 'e) run_op" where
  "stopped_status A w =
     (let (flow, c) = a_checkpoint A (rw_control w); w1 = w\<lparr>rw_control := c\<rparr>
      in case flow of
           Continue \<Rightarrow> stop_now w1
         | InterruptRun r \<Rightarrow> op_bind (resolve_now (Interrupted r)) (\<lambda>_. stop_now) w1
         | CancelRun r \<Rightarrow> op_bind (resolve_now (Cancelled r)) (\<lambda>_. stop_now) w1)"

section \<open>Emitting events\<close>

definition advance_event_sequence :: "(unit, 'v, 'm, 't, 's, 'c, 'e) run_op" where
  "advance_event_sequence w =
     (case checked_succ (next_event_sequence w) of
        Some n \<Rightarrow> (Inr (), w\<lparr>next_event_sequence := n\<rparr>)
      | None \<Rightarrow> (Inl RunPanic, w))"

definition emit_with ::
    "('s \<Rightarrow> event_sequence \<Rightarrow> 'v agent_event \<Rightarrow> ('e + unit) \<times> 's) \<Rightarrow> event_durability
       \<Rightarrow> 'v agent_event \<Rightarrow> (unit, 'v, 'm, 't, 's, 'c, 'e) run_op" where
  "emit_with app d ev w =
     (let q = EventSequence (next_event_sequence w)
      in case app (event_sink_state w) q ev of
           (Inl x, s) \<Rightarrow>
             (Inl (RunErr (EventPersistenceIndeterminate q ev d x)), w\<lparr>event_sink_state := s\<rparr>)
         | (Inr _, s) \<Rightarrow> advance_event_sequence (w\<lparr>event_sink_state := s\<rparr>))"

definition emit ::
    "('v, 'm, 't, 's, 'c, 'e) adapters \<Rightarrow> 'v agent_event
       \<Rightarrow> (unit, 'v, 'm, 't, 's, 'c, 'e) run_op" where
  "emit A ev = emit_with (a_append A) Buffered ev"

definition emit_durable ::
    "('v, 'm, 't, 's, 'c, 'e) adapters \<Rightarrow> 'v agent_event
       \<Rightarrow> (unit, 'v, 'm, 't, 's, 'c, 'e) run_op" where
  "emit_durable A ev = emit_with (a_append_durable A) Durable ev"

definition emit_tool_result ::
    "('v, 'm, 't, 's, 'c, 'e) adapters \<Rightarrow> 'v agent_event
       \<Rightarrow> (unit, 'v, 'm, 't, 's, 'c, 'e) run_op" where
  "emit_tool_result A ev = emit_durable A ev"

section \<open>Finishing\<close>

definition finish ::
    "('v, 'm, 't, 's, 'c, 'e) adapters \<Rightarrow> run_id \<Rightarrow> terminal_run_status
       \<Rightarrow> (run_outcome, 'v, 'm, 't, 's, 'c, 'e) run_op" where
  "finish A rid proposed =
     op_bind (resolve_now proposed) (\<lambda>status.
     op_bind (emit_durable A (RunFinished rid status None [])) (\<lambda>_.
     op_return (RunOutcome status)))"

definition finish_agent_error ::
    "('v, 'm, 't, 's, 'c, 'e) adapters \<Rightarrow> run_id \<Rightarrow> turn_id option \<Rightarrow> agent_error
       \<Rightarrow> (run_outcome, 'v, 'm, 't, 's, 'c, 'e) run_op" where
  "finish_agent_error A rid t err =
     op_bind (emit A (ErrorEvent rid t err None [])) (\<lambda>_. finish A rid (Failed err))"

definition finish_model_error ::
    "('v, 'm, 't, 's, 'c, 'e) adapters \<Rightarrow> run_id \<Rightarrow> turn_id option \<Rightarrow> model_error
       \<Rightarrow> (run_outcome, 'v, 'm, 't, 's, 'c, 'e) run_op" where
  "finish_model_error A rid t err =
     finish_agent_error A rid t
       \<lparr>ae_code = me_code err, ae_message = me_message err, ae_recoverable = False\<rparr>"

section \<open>A model turn\<close>

definition duplicate_call_error :: "model_tool_call_id \<Rightarrow> agent_error" where
  "duplicate_call_error i =
     \<lparr>ae_code = lit ''duplicate_model_tool_call_id'',
      ae_message = lit ''model emitted duplicate tool call id '' @ quoted (model_tool_call_id_str i)
                     @ lit '' in one turn'',
      ae_recoverable = False\<rparr>"

definition stream_incomplete_error :: agent_error where
  "stream_incomplete_error =
     \<lparr>ae_code = lit ''model_stream_incomplete'',
      ae_message = lit ''model stream ended without a completed event'',
      ae_recoverable = False\<rparr>"

text \<open>
  The loop over the stream: its end with the text, the calls and whether a completed event was
  seen, or the run finished inside it.
\<close>

datatype 'v stream_end =
    StreamEnded ustring "'v model_tool_call list" bool
  | StreamFinished run_outcome

fun consume_stream ::
    "('v, 'm, 't, 's, 'c, 'e) adapters \<Rightarrow> run_id \<Rightarrow> turn_id \<Rightarrow> 'v model_stream_event list
       \<Rightarrow> ustring \<Rightarrow> 'v model_tool_call list \<Rightarrow> model_tool_call_id set
       \<Rightarrow> ('v stream_end, 'v, 'm, 't, 's, 'c, 'e) run_op" where
  "consume_stream A rid t [] txt calls ids = op_return (StreamEnded txt calls False)"
| "consume_stream A rid t (me # rest) txt calls ids =
     op_bind (stopped_status A) (\<lambda>stopped.
     case stopped of
       Some status \<Rightarrow> op_bind (finish A rid status) (\<lambda>outcome. op_return (StreamFinished outcome))
     | None \<Rightarrow>
         op_bind (emit A (ModelOutput rid t me None [])) (\<lambda>_.
         case me of
           TextDelta delta _ \<Rightarrow> consume_stream A rid t rest (txt @ delta) calls ids
         | ModelToolCallEvent i name args _ \<Rightarrow>
             if i \<in> ids then
               op_bind (finish_agent_error A rid (Some t) (duplicate_call_error i))
                 (\<lambda>outcome. op_return (StreamFinished outcome))
             else consume_stream A rid t rest txt
                    (calls @ [\<lparr>mtc_id = i, mtc_name = name, mtc_arguments = args\<rparr>]) (insert i ids)
         | ModelCompleted _ _ \<Rightarrow> op_return (StreamEnded txt calls True)
         | ModelFailed error _ \<Rightarrow>
             op_bind (finish_model_error A rid (Some t) error)
               (\<lambda>outcome. op_return (StreamFinished outcome))
         | Started _ _ \<Rightarrow> consume_stream A rid t rest txt calls ids
         | ToolCallDelta _ _ _ _ \<Rightarrow> consume_stream A rid t rest txt calls ids
         | Usage _ _ \<Rightarrow> consume_stream A rid t rest txt calls ids))"

definition call_stream ::
    "('v, 'm, 't, 's, 'c, 'e) adapters \<Rightarrow> 'v model_request
       \<Rightarrow> (model_error + 'v model_stream_event list, 'v, 'm, 't, 's, 'c, 'e) run_op" where
  "call_stream A req =
     op_bind cancellation_flag (\<lambda>flag w.
       let (r, m) = a_stream A (model_client w) req flag in (Inr r, w\<lparr>model_client := m\<rparr>))"

definition collect_model_turn ::
    "('v, 'm, 't, 's, 'c, 'e) adapters \<Rightarrow> run_id \<Rightarrow> turn_id \<Rightarrow> 'v model_request
       \<Rightarrow> ('v model_turn_progress, 'v, 'm, 't, 's, 'c, 'e) run_op" where
  "collect_model_turn A rid t req =
     op_bind (call_stream A req) (\<lambda>stream.
     case stream of
       Inl error \<Rightarrow>
         op_bind stop_now (\<lambda>stopped.
         op_bind (case stopped of
                     Some status \<Rightarrow> finish A rid status
                   | None \<Rightarrow> finish_model_error A rid (Some t) error) (\<lambda>outcome.
         op_return (ModelTurnFinished outcome)))
     | Inr events \<Rightarrow>
         op_bind (consume_stream A rid t events [] [] {}) (\<lambda>end.
         case end of
           StreamFinished outcome \<Rightarrow> op_return (ModelTurnFinished outcome)
         | StreamEnded txt calls completed \<Rightarrow>
             op_bind stop_now (\<lambda>stopped.
             case stopped of
               Some status \<Rightarrow>
                 op_bind (finish A rid status) (\<lambda>outcome. op_return (ModelTurnFinished outcome))
             | None \<Rightarrow>
                 if \<not> completed then
                   op_bind (finish_agent_error A rid (Some t) stream_incomplete_error)
                     (\<lambda>outcome. op_return (ModelTurnFinished outcome))
                 else op_return (Collected \<lparr>cmt_text = txt, cmt_tool_calls = calls\<rparr>))))"

section \<open>A tool call\<close>

definition EMPTY_APPROVAL_DENIAL_REASON :: ustring where
  "EMPTY_APPROVAL_DENIAL_REASON = lit ''approval denied without a reason''"

definition normalize_approval_decision :: "approval_decision \<Rightarrow> approval_decision" where
  "normalize_approval_decision d =
     (case d of
        Deny reason \<Rightarrow>
          let bounded = bound_approval_reason reason
          in if is_blank bounded then Deny EMPTY_APPROVAL_DENIAL_REASON else Deny bounded
      | Approve \<Rightarrow> Approve)"

definition tool_result_content ::
    "('v tool_output \<Rightarrow> 'v) \<Rightarrow> 'v tool_output \<Rightarrow> 'v model_message_content list" where
  "tool_result_content to_value out =
     (case out of
        Success content _ _ \<Rightarrow>
          map (\<lambda>c. case c of ToolText t \<Rightarrow> ContentText t | ToolJson v \<Rightarrow> ContentJson v) content
      | Failure _ _ \<Rightarrow> [ContentJson (to_value out)])"

definition numbered_call_id :: "run_id \<Rightarrow> nat \<Rightarrow> tool_call_id" where
  "numbered_call_id rid n = ToolCallId (run_id_str rid @ lit ''-tool-'' @ pad3 n)"

definition numbered_approval_id :: "run_id \<Rightarrow> nat \<Rightarrow> ustring" where
  "numbered_approval_id rid n = run_id_str rid @ lit ''-approval-'' @ pad3 n"

definition approval_denied_output :: "ustring \<Rightarrow> 'v tool_output" where
  "approval_denied_output reason =
     Failure \<lparr>te_code = lit ''approval_denied'', te_message = reason, te_retryable = False\<rparr> []"

definition prepare_call ::
    "('v, 'm, 't, 's, 'c, 'e) adapters \<Rightarrow> 'v tool_call
       \<Rightarrow> ('v prepared_tool_call, 'v, 'm, 't, 's, 'c, 'e) run_op" where
  "prepare_call A call w = (Inr (a_prepare A (tool_dispatcher_state w) call), w)"

definition decide_approval ::
    "('v, 'm, 't, 's, 'c, 'e) adapters \<Rightarrow> 'v approval_request
       \<Rightarrow> (approval_decision, 'v, 'm, 't, 's, 'c, 'e) run_op" where
  "decide_approval A request =
     op_bind cancellation_flag (\<lambda>flag w.
       let (d, c) = a_decide A (rw_control w) request flag in (Inr d, w\<lparr>rw_control := c\<rparr>))"

definition execute_prepared_call ::
    "('v, 'm, 't, 's, 'c, 'e) adapters \<Rightarrow> 'v prepared_tool_call \<Rightarrow> tool_execution_authorization
       \<Rightarrow> ('v tool_output, 'v, 'm, 't, 's, 'c, 'e) run_op" where
  "execute_prepared_call A p auth =
     op_bind cancellation_flag (\<lambda>flag w.
       let (out, t) = a_execute A (tool_dispatcher_state w) p auth flag
       in (Inr out, w\<lparr>tool_dispatcher_state := t\<rparr>))"

text \<open>The value of the \<open>if let Some(reason)\<close> expression: an output, or the run finished in it.\<close>

datatype 'v tool_progress = ToolOutputReady "'v tool_output" | ToolStopped run_outcome

definition finish_tool ::
    "('v, 'm, 't, 's, 'c, 'e) adapters \<Rightarrow> run_id \<Rightarrow> terminal_run_status
       \<Rightarrow> ('v tool_progress, 'v, 'm, 't, 's, 'c, 'e) run_op" where
  "finish_tool A rid status = op_bind (finish A rid status) (\<lambda>outcome. op_return (ToolStopped outcome))"

definition execute_unless_stopped ::
    "('v, 'm, 't, 's, 'c, 'e) adapters \<Rightarrow> run_id \<Rightarrow> 'v prepared_tool_call
       \<Rightarrow> tool_execution_authorization \<Rightarrow> ('v tool_progress, 'v, 'm, 't, 's, 'c, 'e) run_op" where
  "execute_unless_stopped A rid p auth =
     op_bind (stopped_status A) (\<lambda>stopped.
     case stopped of
       Some status \<Rightarrow> finish_tool A rid status
     | None \<Rightarrow> op_bind (execute_prepared_call A p auth) (\<lambda>out. op_return (ToolOutputReady out)))"

definition run_with_approval ::
    "('v, 'm, 't, 's, 'c, 'e) adapters \<Rightarrow> run_id \<Rightarrow> turn_id \<Rightarrow> nat \<Rightarrow> 'v prepared_tool_call \<Rightarrow> ustring
       \<Rightarrow> ('v tool_progress, 'v, 'm, 't, 's, 'c, 'e) run_op" where
  "run_with_approval A rid t n p reason =
     (let approval = \<lparr>ar_id = numbered_approval_id rid n, ar_call = pr_call p, ar_reason = reason\<rparr>
      in op_bind (emit_durable A (ApprovalRequested rid t approval None [])) (\<lambda>_.
         op_bind (decide_approval A approval) (\<lambda>d.
         let decision = normalize_approval_decision d
         in op_bind stop_now (\<lambda>stopped.
            case stopped of
              Some status \<Rightarrow> finish_tool A rid status
            | None \<Rightarrow>
                op_bind (emit_durable A (ApprovalResolved rid t (ar_id approval) decision None [])) (\<lambda>_.
                case decision of
                  Approve \<Rightarrow>
                    execute_unless_stopped A rid p (ApprovalGranted (tc_id (pr_call p)))
                | Deny denial \<Rightarrow> op_return (ToolOutputReady (approval_denied_output denial)))))))"

definition record_tool_result ::
    "('v, 'm, 't, 's, 'c, 'e) adapters \<Rightarrow> run_id \<Rightarrow> turn_id \<Rightarrow> 'v model_tool_call \<Rightarrow> 'v tool_result
       \<Rightarrow> ('v tool_call_progress, 'v, 'm, 't, 's, 'c, 'e) run_op" where
  "record_tool_result A rid t mcall result =
     op_bind (emit_tool_result A (ToolResultEvent rid t result None [])) (\<lambda>_.
     op_bind stop_now (\<lambda>stopped.
     case stopped of
       Some status \<Rightarrow>
         op_bind (finish A rid status) (\<lambda>outcome. op_return (ToolCallFinished outcome))
     | None \<Rightarrow>
         op_bind (case tr_output result of
                     Failure error _ \<Rightarrow>
                       emit A (ErrorEvent rid (Some t)
                         \<lparr>ae_code = te_code error, ae_message = te_message error,
                          ae_recoverable = True\<rparr> None [])
                   | Success _ _ _ \<Rightarrow> op_return ()) (\<lambda>_.
         op_return (ToolCallMessage
           (ToolMessage (tool_result_content (a_to_value A) (tr_output result))
              (mtc_name mcall) (mtc_id mcall))))))"

definition drive_tool_call ::
    "('v, 'm, 't, 's, 'c, 'e) adapters \<Rightarrow> run_id \<Rightarrow> turn_id \<Rightarrow> 'v model_tool_call \<Rightarrow> run_sequences
       \<Rightarrow> ('v tool_call_progress \<times> run_sequences, 'v, 'm, 't, 's, 'c, 'e) run_op" where
  "drive_tool_call A rid t mcall sq =
     (let sq1 = sq\<lparr>sq_tool_call := sq_tool_call sq + 1\<rparr>;
          call = \<lparr>tc_id = numbered_call_id rid (sq_tool_call sq1), tc_tool_name = mtc_name mcall,
                  tc_arguments = mtc_arguments mcall\<rparr>
      in op_bind (emit_durable A (ToolCallRequested rid t (mtc_id mcall) call None [])) (\<lambda>_.
         op_bind (prepare_call A call) (\<lambda>p.
         let sq2 = (case approval_reason p of
                      Some _ \<Rightarrow> sq1\<lparr>sq_approval := sq_approval sq1 + 1\<rparr> | None \<Rightarrow> sq1)
         in op_bind (case approval_reason p of
                        Some reason \<Rightarrow> run_with_approval A rid t (sq_approval sq2) p reason
                      | None \<Rightarrow> execute_unless_stopped A rid p NotRequired) (\<lambda>progress.
            case progress of
              ToolStopped outcome \<Rightarrow> op_return (ToolCallFinished outcome, sq2)
            | ToolOutputReady out \<Rightarrow>
                op_bind (record_tool_result A rid t mcall
                            \<lparr>tr_call_id = tc_id (pr_call p), tr_output = out\<rparr>) (\<lambda>result.
                op_return (result, sq2))))))"

section \<open>The run\<close>

definition MAX_TURNS :: nat where
  "MAX_TURNS = 128"

definition numbered_turn_id :: "nat \<Rightarrow> turn_id" where
  "numbered_turn_id n = TurnId (lit ''turn-'' @ pad3 n)"

definition turn_limit_error :: agent_error where
  "turn_limit_error =
     \<lparr>ae_code = lit ''turn_limit_reached'',
      ae_message = lit ''Agent Run exceeded the '' @ dec_string MAX_TURNS @ lit ''-turn safety limit'',
      ae_recoverable = False\<rparr>"

definition push_message :: "'v model_message \<Rightarrow> 'v model_request \<Rightarrow> 'v model_request" where
  "push_message m req = req\<lparr>mr_messages := mr_messages req @ [m]\<rparr>"

text \<open>The calls of one turn: the request with their results, or the run finished in one of them.\<close>

datatype 'v calls_end =
    CallsDone "'v model_request" run_sequences
  | CallsFinished run_outcome

fun drive_tool_calls ::
    "('v, 'm, 't, 's, 'c, 'e) adapters \<Rightarrow> run_id \<Rightarrow> turn_id \<Rightarrow> 'v model_tool_call list
       \<Rightarrow> run_sequences \<Rightarrow> 'v model_request \<Rightarrow> ('v calls_end, 'v, 'm, 't, 's, 'c, 'e) run_op" where
  "drive_tool_calls A rid t [] sq req = op_return (CallsDone req sq)"
| "drive_tool_calls A rid t (mcall # rest) sq req =
     op_bind (drive_tool_call A rid t mcall sq) (\<lambda>(progress, sq1).
     case progress of
       ToolCallMessage m \<Rightarrow> drive_tool_calls A rid t rest sq1 (push_message m req)
     | ToolCallFinished outcome \<Rightarrow> op_return (CallsFinished outcome))"

fun run_turns ::
    "('v, 'm, 't, 's, 'c, 'e) adapters \<Rightarrow> run_id \<Rightarrow> nat list \<Rightarrow> run_sequences \<Rightarrow> 'v model_request
       \<Rightarrow> (run_outcome, 'v, 'm, 't, 's, 'c, 'e) run_op" where
  "run_turns A rid [] sq req = finish_agent_error A rid None turn_limit_error"
| "run_turns A rid (n # ns) sq req =
     op_bind (stopped_status A) (\<lambda>stopped.
     case stopped of
       Some status \<Rightarrow> finish A rid status
     | None \<Rightarrow>
         op_bind (emit A (TurnStarted rid (numbered_turn_id n) None [])) (\<lambda>_.
         op_bind (collect_model_turn A rid (numbered_turn_id n) req) (\<lambda>progress.
         case progress of
           ModelTurnFinished outcome \<Rightarrow> op_return outcome
         | Collected collected \<Rightarrow>
             if cmt_tool_calls collected = [] then finish A rid (Completed (cmt_text collected))
             else
               op_bind (drive_tool_calls A rid (numbered_turn_id n) (cmt_tool_calls collected) sq
                  (push_message (if cmt_text collected = []
                                 then assistant_tool_calls (cmt_tool_calls collected)
                                 else assistant_with_tool_calls (cmt_text collected)
                                        (cmt_tool_calls collected)) req)) (\<lambda>end.
               case end of
                 CallsDone req1 sq1 \<Rightarrow> run_turns A rid ns sq1 req1
               | CallsFinished outcome \<Rightarrow> op_return outcome))))"

definition run_with_control_and_stop ::
    "('v, 'm, 't, 's, 'c, 'e) adapters \<Rightarrow> 'v run_request
       \<Rightarrow> (run_outcome, 'v, 'm, 't, 's, 'c, 'e) run_op" where
  "run_with_control_and_stop A req w =
     (case started_run_id w of
        Some r \<Rightarrow> (Inl (RunErr (RuntimeAlreadyUsed r)), w)
      | None \<Rightarrow>
          let w1 = concurrent_stops w; rid = rq_run_id req
          in case bind_token rid (rw_stop w1) of
               Inl r \<Rightarrow> (Inl (RunErr (StopTokenAlreadyBound r)), w1)
             | Inr k \<Rightarrow>
                 op_bind (emit A (RunStarted rid None [])) (\<lambda>_.
                   run_turns A rid [1..<MAX_TURNS + 1] default_sequences
                     \<lparr>mr_model = rq_model req, mr_messages = rq_messages req,
                      mr_tools = rq_tools req, mr_metadata = rq_metadata req\<rparr>)
                   (w1\<lparr>rw_stop := k, started_run_id := Some rid\<rparr>))"

text \<open>The entry points that bring their own control or token.\<close>

definition with_continue ::
    "('v, 'm, 't, 's, 'c, 'e) adapters \<Rightarrow> ('v, 'm, 't, 's, unit, 'e) adapters" where
  "with_continue A =
     \<lparr>a_stream = a_stream A, a_prepare = a_prepare A, a_execute = a_execute A,
      a_append = a_append A, a_append_durable = a_append_durable A,
      a_checkpoint = (\<lambda>c. (Continue, c)),
      a_decide = (\<lambda>c _ _. (Deny (lit ''no approval handler accepted the tool call''), c)),
      a_to_value = a_to_value A\<rparr>"

definition runtime_world ::
    "('m, 't, 's) agent_runtime \<Rightarrow> 'c \<Rightarrow> run_stop_token \<Rightarrow> stop_request list list
       \<Rightarrow> ('m, 't, 's, 'c) run_world" where
  "runtime_world rt c k sched =
     \<lparr>model_client = model_client rt, tool_dispatcher_state = tool_dispatcher_state rt,
      event_sink_state = event_sink_state rt, next_event_sequence = next_event_sequence rt,
      started_run_id = started_run_id rt, rw_control = c, rw_stop = k, rw_schedule = sched\<rparr>"

definition run_with_stop_token ::
    "('v, 'm, 't, 's, 'c, 'e) adapters \<Rightarrow> 'v run_request \<Rightarrow> ('m, 't, 's) agent_runtime
       \<Rightarrow> run_stop_token \<Rightarrow> stop_request list list
       \<Rightarrow> (('v, 'e) run_failure + run_outcome) \<times> ('m, 't, 's, unit) run_world" where
  "run_with_stop_token A req rt k sched =
     run_with_control_and_stop (with_continue A) req (runtime_world rt () k sched)"

definition run_with_control ::
    "('v, 'm, 't, 's, 'c, 'e) adapters \<Rightarrow> 'v run_request \<Rightarrow> ('m, 't, 's) agent_runtime \<Rightarrow> 'c
       \<Rightarrow> (('v, 'e) run_failure + run_outcome) \<times> ('m, 't, 's, 'c) run_world" where
  "run_with_control A req rt c =
     run_with_control_and_stop A req (runtime_world rt c default_token [])"

definition run_simple ::
    "('v, 'm, 't, 's, 'c, 'e) adapters \<Rightarrow> 'v run_request \<Rightarrow> ('m, 't, 's) agent_runtime
       \<Rightarrow> (('v, 'e) run_failure + run_outcome) \<times> ('m, 't, 's, unit) run_world" where
  "run_simple A req rt =
     run_with_control_and_stop (with_continue A) req (runtime_world rt () default_token [])"

end
