(* ===== verification/Event_Sink.thy ===== *)
theory Event_Sink
  imports Agent_Runtime
begin

text \<open>
  The contract of the \<open>AgentEventSink\<close> trait (crates/agent-runtime/src/runtime.rs): a successful
  append commits the event with its sequence at the end of the canonical log; a failed one is
  ambiguous, the log has either not changed or has that one event more. \<open>log\<close> is the committed
  log of a sink state, \<open>inv\<close> the invariant under which it can be appended to and \<open>recoverable\<close>
  what a failed append still guarantees to a recovery.
\<close>

locale event_sink =
  fixes inv :: "'s \<Rightarrow> bool"
    and recoverable :: "'s \<Rightarrow> bool"
    and log :: "'s \<Rightarrow> 'v agent_event list"
    and append :: "'s \<Rightarrow> event_sequence \<Rightarrow> 'v agent_event \<Rightarrow> ('e + unit) \<times> 's"
  assumes append_ok: "inv s \<Longrightarrow> append s q ev = (Inr u, s') \<Longrightarrow>
      inv s' \<and> log s' = log s @ [with_event_sequence q ev]"
    and append_failed: "inv s \<Longrightarrow> append s q ev = (Inl x, s') \<Longrightarrow>
      recoverable s' \<and> (log s' = log s \<or> log s' = log s @ [with_event_sequence q ev])"
begin

text \<open>Whatever the answer, the log grows by at most the event that was offered.\<close>

lemma append_grows:
  assumes "inv s" and "append s q ev = (r, s')"
  shows "log s' = log s \<or> log s' = log s @ [with_event_sequence q ev]"
  using assms append_ok append_failed by (cases r) blast+

end

end
