(* ===== verification/Replay.thy ===== *)
theory Replay
  imports Agent_Events
begin

text \<open>
  Deterministic reconstruction of run state from the canonical events
  (crates/event-store/src/replay.rs). Positions in the log stand for the borrowed views of the
  source; a position of the wrong kind or out of range is a panic of the source
  (\<open>unreachable!\<close>, \<open>expect\<close>, indexing) and is the value \<open>ReplayPanic\<close> here. \<open>HashMap\<close> and
  \<open>HashSet\<close> are maps and sets: their iteration order is never observed.
\<close>

section \<open>Errors\<close>

datatype replay_error =
    EmptyLog
  | FirstEventIsNotRunStarted
  | DuplicateRunStarted nat
  | MismatchedRunId nat run_id run_id
  | DuplicateTurnStarted nat turn_id
  | EventForUnknownTurn nat turn_id
  | EventForInactiveTurn nat turn_id turn_id
  | TurnStartedWithUnresolvedToolCalls nat turn_id "tool_call_id list"
  | MismatchedToolLifecycleTurn nat tool_call_id turn_id turn_id
  | EventAfterRunFinished nat
  | DuplicateToolCall nat tool_call_id
  | ApprovalForUnknownToolCall nat tool_call_id
  | ResultForUnknownToolCall nat tool_call_id
  | ApprovalCallMismatch nat tool_call_id
  | ApprovalAfterToolResult nat tool_call_id
  | DuplicateApproval nat tool_call_id
  | DuplicateApprovalId nat ustring
  | ResolutionForUnknownApproval nat ustring
  | DuplicateApprovalResolution nat ustring
  | ApprovalResolutionAfterToolResult nat ustring
  | ToolResultBeforeApprovalResolution nat tool_call_id
  | InvalidApprovalDenialResult nat tool_call_id
  | MixedApprovalLogFormats nat
  | LegacyCompatibilityForSequencedLog nat
  | TerminalWithUnresolvedToolCalls nat "tool_call_id list"
  | DuplicateToolResult nat tool_call_id

datatype replay_failure = ReplayErr replay_error | ReplayPanic

type_synonym 'a replay_result = "replay_failure + 'a"

definition fail :: "replay_error \<Rightarrow> 'a replay_result" where
  "fail e = Inl (ReplayErr e)"

definition expect :: "'a option \<Rightarrow> 'a replay_result" where
  "expect x = (case x of None \<Rightarrow> Inl ReplayPanic | Some a \<Rightarrow> Inr a)"

lemma expect_simps [simp]: "expect None = Inl ReplayPanic" "expect (Some a) = Inr a"
  by (simp_all add: expect_def)

lemma fail_simps [simp]: "fail e \<noteq> Inr a" "fail e \<noteq> Inl ReplayPanic" "Inr a \<noteq> fail e"
  by (simp_all add: fail_def)

lemma try_fail [simp]: "try_res (fail e) f = fail e"
  by (simp add: fail_def)

lemma expect_Inr [simp]: "expect x = Inr a \<longleftrightarrow> x = Some a"
  by (cases x) simp_all

section \<open>Indexed tool calls\<close>

record replayed_tool_call_index =
  requested_event :: nat
  approval_event :: "nat option"
  approval_resolution_event :: "nat option"
  result_event :: "nat option"

definition nth_opt :: "'a list \<Rightarrow> nat \<Rightarrow> 'a option" where
  "nth_opt xs i = (if i < length xs then Some (xs ! i) else None)"

lemma nth_opt_append: "nth_opt xs i = Some x \<Longrightarrow> nth_opt (xs @ ys) i = Some x"
  by (auto simp: nth_opt_def nth_append split: if_splits)

definition replayed_turn_id ::
    "'v agent_event list \<Rightarrow> replayed_tool_call_index \<Rightarrow> turn_id option" where
  "replayed_turn_id evs ix =
     (case nth_opt evs (requested_event ix) of
        Some (ToolCallRequested _ t _ _ _ _) \<Rightarrow> Some t | _ \<Rightarrow> None)"

definition replayed_model_tool_call_id ::
    "'v agent_event list \<Rightarrow> replayed_tool_call_index \<Rightarrow> model_tool_call_id option" where
  "replayed_model_tool_call_id evs ix =
     (case nth_opt evs (requested_event ix) of
        Some (ToolCallRequested _ _ m _ _ _) \<Rightarrow> Some m | _ \<Rightarrow> None)"

definition replayed_call ::
    "'v agent_event list \<Rightarrow> replayed_tool_call_index \<Rightarrow> 'v tool_call option" where
  "replayed_call evs ix =
     (case nth_opt evs (requested_event ix) of
        Some (ToolCallRequested _ _ _ c _ _) \<Rightarrow> Some c | _ \<Rightarrow> None)"

definition approval_at :: "'v agent_event list \<Rightarrow> nat \<Rightarrow> 'v approval_request option" where
  "approval_at evs i =
     (case nth_opt evs i of Some (ApprovalRequested _ _ q _ _) \<Rightarrow> Some q | _ \<Rightarrow> None)"

definition decision_at :: "'v agent_event list \<Rightarrow> nat \<Rightarrow> approval_decision option" where
  "decision_at evs i =
     (case nth_opt evs i of Some (ApprovalResolved _ _ _ d _ _) \<Rightarrow> Some d | _ \<Rightarrow> None)"

definition result_at :: "'v agent_event list \<Rightarrow> nat \<Rightarrow> 'v tool_result option" where
  "result_at evs i =
     (case nth_opt evs i of Some (ToolResultEvent _ _ r _ _) \<Rightarrow> Some r | _ \<Rightarrow> None)"

definition error_at :: "'v agent_event list \<Rightarrow> nat \<Rightarrow> agent_error option" where
  "error_at evs i =
     (case nth_opt evs i of Some (ErrorEvent _ _ e _ _) \<Rightarrow> Some e | _ \<Rightarrow> None)"

text \<open>\<open>Option::map\<close> over a position: the outer \<open>None\<close> is the panic, the inner one an absent event.\<close>

definition map_position :: "(nat \<Rightarrow> 'a option) \<Rightarrow> nat option \<Rightarrow> 'a option option" where
  "map_position f p = (case p of None \<Rightarrow> Some None | Some i \<Rightarrow> map_option Some (f i))"

definition replayed_approval ::
    "'v agent_event list \<Rightarrow> replayed_tool_call_index \<Rightarrow> 'v approval_request option option" where
  "replayed_approval evs ix = map_position (approval_at evs) (approval_event ix)"

definition replayed_decision ::
    "'v agent_event list \<Rightarrow> replayed_tool_call_index \<Rightarrow> approval_decision option option" where
  "replayed_decision evs ix = map_position (decision_at evs) (approval_resolution_event ix)"

definition replayed_result ::
    "'v agent_event list \<Rightarrow> replayed_tool_call_index \<Rightarrow> 'v tool_result option option" where
  "replayed_result evs ix = map_position (result_at evs) (result_event ix)"

section \<open>The folded state\<close>

datatype replay_compatibility = Strict | LegacyApprovalWithoutResolution

datatype approval_log_format = Undetermined | Legacy | Resolved

record replay_state =
  rs_status :: run_status
  rs_tool_calls :: "replayed_tool_call_index list"
  rs_tool_call_indexes :: "tool_call_id \<rightharpoonup> nat"
  rs_approval_indexes :: "ustring \<rightharpoonup> nat"
  rs_pending :: "nat set"
  rs_approvals :: "nat list"
  rs_errors :: "nat list"
  rs_finished :: bool
  rs_format :: approval_log_format
  rs_started :: "turn_id set"
  rs_active :: "turn_id option"

definition init_replay_state :: replay_state where
  "init_replay_state =
     \<lparr>rs_status = Running, rs_tool_calls = [], rs_tool_call_indexes = Map.empty,
      rs_approval_indexes = Map.empty, rs_pending = {}, rs_approvals = [], rs_errors = [],
      rs_finished = False, rs_format = Undetermined, rs_started = {}, rs_active = None\<rparr>"

definition unresolved_call_ids ::
    "'v agent_event list \<Rightarrow> replayed_tool_call_index list \<Rightarrow> tool_call_id list replay_result" where
  "unresolved_call_ids evs tcs =
     expect (map_option (map tc_id)
       (those (map (replayed_call evs) (filter (\<lambda>ix. result_event ix = None) tcs))))"

section \<open>Turn checks\<close>

text \<open>The turn of the events that the second arm of the first \<open>match\<close> handles.\<close>

fun event_turn :: "'v agent_event \<Rightarrow> turn_id option" where
  "event_turn (ModelOutput _ t _ _ _) = Some t"
| "event_turn (ToolCallRequested _ t _ _ _ _) = Some t"
| "event_turn (ApprovalRequested _ t _ _ _) = Some t"
| "event_turn (ApprovalResolved _ t _ _ _ _) = Some t"
| "event_turn (ToolResultEvent _ t _ _ _) = Some t"
| "event_turn (ErrorEvent _ t _ _ _) = t"
| "event_turn (RunStarted _ _ _) = None"
| "event_turn (TurnStarted _ _ _ _) = None"
| "event_turn (RunFinished _ _ _ _) = None"

definition on_turn_started ::
    "'v agent_event list \<Rightarrow> nat \<Rightarrow> turn_id \<Rightarrow> replay_state \<Rightarrow> replay_state replay_result" where
  "on_turn_started evs n t st =
     (if t \<in> rs_started st then fail (DuplicateTurnStarted n t)
      else let st1 = st\<lparr>rs_started := insert t (rs_started st)\<rparr>
           in try_res (unresolved_call_ids evs (rs_tool_calls st1)) (\<lambda>call_ids.
                if call_ids \<noteq> [] then fail (TurnStartedWithUnresolvedToolCalls n t call_ids)
                else Inr (st1\<lparr>rs_active := Some t\<rparr>)))"

definition check_active_turn :: "nat \<Rightarrow> turn_id \<Rightarrow> replay_state \<Rightarrow> unit replay_result" where
  "check_active_turn n t st =
     (if t \<notin> rs_started st then fail (EventForUnknownTurn n t)
      else if rs_active st \<noteq> Some t then
        try_res (expect (rs_active st)) (\<lambda>active. fail (EventForInactiveTurn n active t))
      else Inr ())"

definition check_turn ::
    "'v agent_event list \<Rightarrow> nat \<Rightarrow> 'v agent_event \<Rightarrow> replay_state \<Rightarrow> replay_state replay_result" where
  "check_turn evs n ev st =
     (case ev of
        TurnStarted _ t _ _ \<Rightarrow> on_turn_started evs n t st
      | _ \<Rightarrow> (case event_turn ev of
               Some t \<Rightarrow> try_res (check_active_turn n t st) (\<lambda>_. Inr st)
             | None \<Rightarrow> Inr st))"

section \<open>Event handlers\<close>

definition on_tool_call_requested ::
    "nat \<Rightarrow> nat \<Rightarrow> 'v tool_call \<Rightarrow> replay_state \<Rightarrow> replay_state replay_result" where
  "on_tool_call_requested index n call st =
     (if rs_tool_call_indexes st (tc_id call) \<noteq> None then fail (DuplicateToolCall n (tc_id call))
      else Inr (st\<lparr>rs_tool_call_indexes :=
                     (rs_tool_call_indexes st)(tc_id call \<mapsto> length (rs_tool_calls st)),
                   rs_tool_calls := rs_tool_calls st @
                     [\<lparr>requested_event = index, approval_event = None,
                       approval_resolution_event = None, result_event = None\<rparr>]\<rparr>))"

definition on_approval_requested ::
    "'v agent_event list \<Rightarrow> nat \<Rightarrow> nat \<Rightarrow> turn_id \<Rightarrow> 'v approval_request \<Rightarrow> replay_state
       \<Rightarrow> replay_state replay_result" where
  "on_approval_requested evs index n t request st =
     (case rs_tool_call_indexes st (tc_id (ar_call request)) of
        None \<Rightarrow> fail (ApprovalForUnknownToolCall n (tc_id (ar_call request)))
      | Some i \<Rightarrow>
          try_res (expect (nth_opt (rs_tool_calls st) i)) (\<lambda>ix.
          try_res (expect (replayed_turn_id evs ix)) (\<lambda>origin.
          if origin \<noteq> t then
            fail (MismatchedToolLifecycleTurn n (tc_id (ar_call request)) origin t)
          else try_res (expect (replayed_call evs ix)) (\<lambda>call.
          if call \<noteq> ar_call request then fail (ApprovalCallMismatch n (tc_id (ar_call request)))
          else try_res (expect (replayed_result evs ix)) (\<lambda>result.
          if result \<noteq> None then fail (ApprovalAfterToolResult n (tc_id (ar_call request)))
          else try_res (expect (replayed_approval evs ix)) (\<lambda>approval.
          if approval \<noteq> None then fail (DuplicateApproval n (tc_id (ar_call request)))
          else if rs_approval_indexes st (ar_id request) \<noteq> None then
            fail (DuplicateApprovalId n (ar_id request))
          else Inr (st\<lparr>rs_tool_calls := (rs_tool_calls st)[i := ix\<lparr>approval_event := Some index\<rparr>],
                       rs_approval_indexes := (rs_approval_indexes st)(ar_id request \<mapsto> i),
                       rs_approvals := rs_approvals st @ [index],
                       rs_pending := insert i (rs_pending st),
                       rs_status := AwaitingApproval\<rparr>)))))))"

text \<open>Removing a tool call from the pending approvals; the run is running again when none is left.\<close>

definition settle_pending :: "nat \<Rightarrow> replay_state \<Rightarrow> replay_state" where
  "settle_pending i st =
     (let st1 = st\<lparr>rs_pending := rs_pending st - {i}\<rparr>
      in if rs_pending st1 = {} then st1\<lparr>rs_status := Running\<rparr> else st1)"

definition on_approval_resolved ::
    "replay_compatibility \<Rightarrow> 'v agent_event list \<Rightarrow> nat \<Rightarrow> nat \<Rightarrow> turn_id \<Rightarrow> ustring \<Rightarrow> replay_state
       \<Rightarrow> replay_state replay_result" where
  "on_approval_resolved mode evs index n t aid st =
     (case rs_approval_indexes st aid of
        None \<Rightarrow> fail (ResolutionForUnknownApproval n aid)
      | Some i \<Rightarrow>
          try_res (expect (nth_opt (rs_tool_calls st) i)) (\<lambda>ix.
          try_res (expect (replayed_turn_id evs ix)) (\<lambda>origin.
          if origin \<noteq> t then
            try_res (expect (replayed_call evs ix)) (\<lambda>call.
              fail (MismatchedToolLifecycleTurn n (tc_id call) origin t))
          else try_res (expect (replayed_decision evs ix)) (\<lambda>decision.
          if decision \<noteq> None then fail (DuplicateApprovalResolution n aid)
          else try_res (expect (replayed_result evs ix)) (\<lambda>result.
          if result \<noteq> None then fail (ApprovalResolutionAfterToolResult n aid)
          else if mode = LegacyApprovalWithoutResolution \<and> rs_format st = Legacy then
            fail (MixedApprovalLogFormats n)
          else Inr (settle_pending i
                 (st\<lparr>rs_format := Resolved,
                     rs_tool_calls :=
                       (rs_tool_calls st)[i := ix\<lparr>approval_resolution_event := Some index\<rparr>]\<rparr>)))))))"

definition denied_noncanonically :: "'v tool_output \<Rightarrow> bool" where
  "denied_noncanonically out =
     (case out of
        Failure e ext \<Rightarrow> te_code e = lit ''approval_denied'' \<and> (te_retryable e \<or> ext \<noteq> [])
      | Success _ _ _ \<Rightarrow> False)"

definition canonical_denial :: "ustring \<Rightarrow> 'v tool_output \<Rightarrow> bool" where
  "canonical_denial reason out =
     (case out of
        Failure e ext \<Rightarrow> te_code e = lit ''approval_denied'' \<and> te_message e = reason
                          \<and> \<not> te_retryable e \<and> ext = []
      | Success _ _ _ \<Rightarrow> False)"

text \<open>The decision table of a result: it returns the approval log format after the event.\<close>

definition check_decision ::
    "replay_compatibility \<Rightarrow> nat \<Rightarrow> 'v tool_result \<Rightarrow> approval_decision option \<Rightarrow> bool
       \<Rightarrow> approval_log_format \<Rightarrow> replay_error + approval_log_format" where
  "check_decision mode n result decision has_approval fmt =
     (case decision of
        None \<Rightarrow>
          if has_approval \<and> mode = Strict then
            Inl (ToolResultBeforeApprovalResolution n (tr_call_id result))
          else if has_approval then
            (if fmt = Resolved then Inl (ToolResultBeforeApprovalResolution n (tr_call_id result))
             else if denied_noncanonically (tr_output result) then
               Inl (InvalidApprovalDenialResult n (tr_call_id result))
             else Inr Legacy)
          else if is_denied_code (tr_output result) then
            Inl (InvalidApprovalDenialResult n (tr_call_id result))
          else Inr fmt
      | Some (Deny reason) \<Rightarrow>
          if \<not> canonical_denial reason (tr_output result) then
            Inl (InvalidApprovalDenialResult n (tr_call_id result))
          else Inr fmt
      | Some Approve \<Rightarrow>
          if is_denied_code (tr_output result) then
            Inl (InvalidApprovalDenialResult n (tr_call_id result))
          else Inr fmt)"

definition on_tool_result ::
    "replay_compatibility \<Rightarrow> 'v agent_event list \<Rightarrow> nat \<Rightarrow> nat \<Rightarrow> turn_id \<Rightarrow> 'v tool_result
       \<Rightarrow> replay_state \<Rightarrow> replay_state replay_result" where
  "on_tool_result mode evs index n t result st =
     (case rs_tool_call_indexes st (tr_call_id result) of
        None \<Rightarrow> fail (ResultForUnknownToolCall n (tr_call_id result))
      | Some i \<Rightarrow>
          try_res (expect (nth_opt (rs_tool_calls st) i)) (\<lambda>ix.
          try_res (expect (replayed_turn_id evs ix)) (\<lambda>origin.
          if origin \<noteq> t then fail (MismatchedToolLifecycleTurn n (tr_call_id result) origin t)
          else try_res (expect (replayed_result evs ix)) (\<lambda>prev.
          if prev \<noteq> None then fail (DuplicateToolResult n (tr_call_id result))
          else try_res (expect (replayed_decision evs ix)) (\<lambda>decision.
          try_res (expect (replayed_approval evs ix)) (\<lambda>approval.
          try_res (map_err ReplayErr (check_decision mode n result decision (approval \<noteq> None)
                                            (rs_format st))) (\<lambda>fmt.
          Inr (settle_pending i
                 (st\<lparr>rs_format := fmt,
                     rs_tool_calls := (rs_tool_calls st)[i := ix\<lparr>result_event := Some index\<rparr>]\<rparr>))))))))
     )"

fun needs_resolved_calls :: "terminal_run_status \<Rightarrow> bool" where
  "needs_resolved_calls (Completed _) = True"
| "needs_resolved_calls (Failed _) = True"
| "needs_resolved_calls (Interrupted _) = False"
| "needs_resolved_calls (Cancelled _) = False"

definition on_run_finished ::
    "'v agent_event list \<Rightarrow> nat \<Rightarrow> terminal_run_status \<Rightarrow> replay_state \<Rightarrow> replay_state replay_result"
where
  "on_run_finished evs n terminal st =
     try_res (if needs_resolved_calls terminal then
                try_res (unresolved_call_ids evs (rs_tool_calls st)) (\<lambda>call_ids.
                  if call_ids \<noteq> [] then fail (TerminalWithUnresolvedToolCalls n call_ids)
                  else Inr ())
              else Inr ())
       (\<lambda>_. Inr (st\<lparr>rs_status := Finished terminal, rs_finished := True\<rparr>))"

definition apply_event ::
    "replay_compatibility \<Rightarrow> 'v agent_event list \<Rightarrow> nat \<Rightarrow> nat \<Rightarrow> 'v agent_event \<Rightarrow> replay_state
       \<Rightarrow> replay_state replay_result" where
  "apply_event mode evs index n ev st =
     (case ev of
        RunStarted _ _ _ \<Rightarrow> fail (DuplicateRunStarted n)
      | ToolCallRequested _ _ _ call _ _ \<Rightarrow> on_tool_call_requested index n call st
      | ApprovalRequested _ t request _ _ \<Rightarrow> on_approval_requested evs index n t request st
      | ApprovalResolved _ t aid _ _ _ \<Rightarrow> on_approval_resolved mode evs index n t aid st
      | ToolResultEvent _ t result _ _ \<Rightarrow> on_tool_result mode evs index n t result st
      | ErrorEvent _ _ _ _ _ \<Rightarrow> Inr (st\<lparr>rs_errors := rs_errors st @ [index]\<rparr>)
      | RunFinished _ terminal _ _ \<Rightarrow> on_run_finished evs n terminal st
      | TurnStarted _ _ _ _ \<Rightarrow> Inr st
      | ModelOutput _ _ _ _ _ \<Rightarrow> Inr st)"

definition replay_step ::
    "replay_compatibility \<Rightarrow> run_id \<Rightarrow> 'v agent_event list \<Rightarrow> nat \<Rightarrow> 'v agent_event \<Rightarrow> replay_state
       \<Rightarrow> replay_state replay_result" where
  "replay_step mode rid evs index ev st =
     (let n = index + 1 in
      if rs_finished st then fail (EventAfterRunFinished n)
      else if event_run_id ev \<noteq> rid then fail (MismatchedRunId n rid (event_run_id ev))
      else try_res (check_turn evs n ev st) (\<lambda>st1. apply_event mode evs index n ev st1))"

text \<open>The loop over \<open>events.iter().enumerate().skip(1)\<close>.\<close>

fun replay_from ::
    "replay_compatibility \<Rightarrow> run_id \<Rightarrow> 'v agent_event list \<Rightarrow> nat \<Rightarrow> 'v agent_event list
       \<Rightarrow> replay_state \<Rightarrow> replay_state replay_result" where
  "replay_from mode rid evs index [] st = Inr st"
| "replay_from mode rid evs index (ev # rest) st =
     try_res (replay_step mode rid evs index ev st)
       (\<lambda>st1. replay_from mode rid evs (index + 1) rest st1)"

section \<open>Replay\<close>

record 'v run_replay =
  rr_run_id :: run_id
  rr_status :: run_status
  rr_events :: "'v agent_event list"
  rr_tool_calls :: "replayed_tool_call_index list"
  rr_approvals :: "nat list"
  rr_errors :: "nat list"

definition first_sequenced :: "'v agent_event list \<Rightarrow> nat option" where
  "first_sequenced evs =
     find_map (\<lambda>(i, e). if event_sequence_of e \<noteq> None then Some i else None) (enumerate 0 evs)"

definition log_run_id :: "'v agent_event list \<Rightarrow> run_id replay_result" where
  "log_run_id evs =
     (case evs of
        RunStarted r _ _ # _ \<Rightarrow> Inr r
      | _ # _ \<Rightarrow> fail FirstEventIsNotRunStarted
      | [] \<Rightarrow> fail EmptyLog)"

definition recovery_status ::
    "'v agent_event list \<Rightarrow> bool \<Rightarrow> replay_state \<Rightarrow> run_status replay_result" where
  "recovery_status evs detect_recovery st =
     (if detect_recovery \<and> rs_status st = Running then
        try_res (unresolved_call_ids evs (rs_tool_calls st)) (\<lambda>call_ids.
          Inr (if call_ids \<noteq> [] then RecoveryRequired call_ids else rs_status st))
      else Inr (rs_status st))"

definition replay_events_with_mode ::
    "'v agent_event list \<Rightarrow> bool \<Rightarrow> replay_compatibility \<Rightarrow> 'v run_replay replay_result" where
  "replay_events_with_mode evs detect_recovery mode =
     try_res (log_run_id evs) (\<lambda>rid.
     try_res (if mode = LegacyApprovalWithoutResolution then
                (case first_sequenced evs of
                   Some i \<Rightarrow> fail (LegacyCompatibilityForSequencedLog (i + 1))
                 | None \<Rightarrow> Inr ())
              else Inr ()) (\<lambda>_.
     try_res (replay_from mode rid evs 1 (tl evs) init_replay_state) (\<lambda>st.
     try_res (recovery_status evs detect_recovery st) (\<lambda>status.
     Inr \<lparr>rr_run_id = rid, rr_status = status, rr_events = evs,
          rr_tool_calls = rs_tool_calls st, rr_approvals = rs_approvals st,
          rr_errors = rs_errors st\<rparr>))))"

definition replay_events :: "'v agent_event list \<Rightarrow> 'v run_replay replay_result" where
  "replay_events evs = replay_events_with_mode evs False Strict"

definition replay_events_for_recovery :: "'v agent_event list \<Rightarrow> 'v run_replay replay_result" where
  "replay_events_for_recovery evs = replay_events_with_mode evs True Strict"

definition replay_events_with_compatibility ::
    "'v agent_event list \<Rightarrow> replay_compatibility \<Rightarrow> 'v run_replay replay_result" where
  "replay_events_with_compatibility evs mode = replay_events_with_mode evs False mode"

text \<open>The accessors of \<open>RunReplay\<close>; an iterator is the list of what it yields, \<open>None\<close> a panic.\<close>

definition replay_approvals :: "'v run_replay \<Rightarrow> 'v approval_request list option" where
  "replay_approvals r = those (map (approval_at (rr_events r)) (rr_approvals r))"

definition replay_errors :: "'v run_replay \<Rightarrow> agent_error list option" where
  "replay_errors r = those (map (error_at (rr_events r)) (rr_errors r))"

definition terminal_status_of :: "'v run_replay \<Rightarrow> terminal_run_status option" where
  "terminal_status_of r =
     (case rr_status r of
        Finished s \<Rightarrow> Some s | Running \<Rightarrow> None | AwaitingApproval \<Rightarrow> None | RecoveryRequired _ \<Rightarrow> None)"

end
