(* ===== verification/Replay_Spec.thy ===== *)
theory Replay_Spec
  imports Replay
begin

text \<open>
  The abstract specification of replay: what a log means, without positions, hash maps, the set
  of pending approvals or a stored status. A tool call is the list of what happened to it, the
  status of a run is computed from its calls, and every operation finds a call by what it is
  about. \<open>Replay_Refinement\<close> shows that the code's fold implements this machine and never
  panics; the properties of replay and of the runtime's logs are proved here.
\<close>

section \<open>The abstract state\<close>

record 'v call_view =
  cv_turn :: turn_id
  cv_call :: "'v tool_call"
  cv_approval :: "'v approval_request option"
  cv_decision :: "approval_decision option"
  cv_result :: "'v tool_result option"

record 'v log_state =
  ls_calls :: "'v call_view list"
  ls_approvals :: "'v approval_request list"
  ls_errors :: "agent_error list"
  ls_started :: "turn_id set"
  ls_active :: "turn_id option"
  ls_format :: approval_log_format
  ls_finished :: "terminal_run_status option"

definition init_log_state :: "'v log_state" where
  "init_log_state = \<lparr>ls_calls = [], ls_approvals = [], ls_errors = [], ls_started = {},
     ls_active = None, ls_format = Undetermined, ls_finished = None\<rparr>"

definition call_has_id :: "tool_call_id \<Rightarrow> 'v call_view \<Rightarrow> bool" where
  "call_has_id c v \<longleftrightarrow> tc_id (cv_call v) = c"

definition call_has_approval :: "ustring \<Rightarrow> 'v call_view \<Rightarrow> bool" where
  "call_has_approval a v \<longleftrightarrow> (case cv_approval v of Some q \<Rightarrow> ar_id q = a | None \<Rightarrow> False)"

definition awaiting :: "'v call_view \<Rightarrow> bool" where
  "awaiting v \<longleftrightarrow> cv_approval v \<noteq> None \<and> cv_decision v = None \<and> cv_result v = None"

definition unresolved :: "'v call_view list \<Rightarrow> tool_call_id list" where
  "unresolved vs = map (tc_id \<circ> cv_call) (filter (\<lambda>v. cv_result v = None) vs)"

definition log_status :: "'v log_state \<Rightarrow> run_status" where
  "log_status a =
     (case ls_finished a of
        Some s \<Rightarrow> Finished s
      | None \<Rightarrow> if list_ex awaiting (ls_calls a) then AwaitingApproval else Running)"

section \<open>The abstract steps\<close>

definition spec_turn_started ::
    "nat \<Rightarrow> turn_id \<Rightarrow> 'v log_state \<Rightarrow> replay_error + 'v log_state" where
  "spec_turn_started n t a =
     (if t \<in> ls_started a then Inl (DuplicateTurnStarted n t)
      else if unresolved (ls_calls a) \<noteq> [] then
        Inl (TurnStartedWithUnresolvedToolCalls n t (unresolved (ls_calls a)))
      else Inr (a\<lparr>ls_started := insert t (ls_started a), ls_active := Some t\<rparr>))"

definition spec_check_active :: "nat \<Rightarrow> turn_id \<Rightarrow> 'v log_state \<Rightarrow> replay_error + unit" where
  "spec_check_active n t a =
     (if t \<notin> ls_started a then Inl (EventForUnknownTurn n t)
      else if ls_active a \<noteq> Some t then Inl (EventForInactiveTurn n (the (ls_active a)) t)
      else Inr ())"

definition new_call :: "turn_id \<Rightarrow> 'v tool_call \<Rightarrow> 'v call_view" where
  "new_call t c = \<lparr>cv_turn = t, cv_call = c, cv_approval = None, cv_decision = None,
                   cv_result = None\<rparr>"

definition spec_requested ::
    "nat \<Rightarrow> turn_id \<Rightarrow> 'v tool_call \<Rightarrow> 'v log_state \<Rightarrow> replay_error + 'v log_state" where
  "spec_requested n t c a =
     (if find_index (call_has_id (tc_id c)) (ls_calls a) \<noteq> None then
        Inl (DuplicateToolCall n (tc_id c))
      else Inr (a\<lparr>ls_calls := ls_calls a @ [new_call t c]\<rparr>))"

definition spec_approval ::
    "nat \<Rightarrow> turn_id \<Rightarrow> 'v approval_request \<Rightarrow> 'v log_state \<Rightarrow> replay_error + 'v log_state" where
  "spec_approval n t q a =
     (case find_index (call_has_id (tc_id (ar_call q))) (ls_calls a) of
        None \<Rightarrow> Inl (ApprovalForUnknownToolCall n (tc_id (ar_call q)))
      | Some i \<Rightarrow>
          let v = ls_calls a ! i in
          if cv_turn v \<noteq> t then
            Inl (MismatchedToolLifecycleTurn n (tc_id (ar_call q)) (cv_turn v) t)
          else if cv_call v \<noteq> ar_call q then Inl (ApprovalCallMismatch n (tc_id (ar_call q)))
          else if cv_result v \<noteq> None then Inl (ApprovalAfterToolResult n (tc_id (ar_call q)))
          else if cv_approval v \<noteq> None then Inl (DuplicateApproval n (tc_id (ar_call q)))
          else if find_index (call_has_approval (ar_id q)) (ls_calls a) \<noteq> None then
            Inl (DuplicateApprovalId n (ar_id q))
          else Inr (a\<lparr>ls_calls := (ls_calls a)[i := v\<lparr>cv_approval := Some q\<rparr>],
                      ls_approvals := ls_approvals a @ [q]\<rparr>))"

definition spec_resolved ::
    "replay_compatibility \<Rightarrow> nat \<Rightarrow> turn_id \<Rightarrow> ustring \<Rightarrow> approval_decision \<Rightarrow> 'v log_state
       \<Rightarrow> replay_error + 'v log_state" where
  "spec_resolved mode n t aid d a =
     (case find_index (call_has_approval aid) (ls_calls a) of
        None \<Rightarrow> Inl (ResolutionForUnknownApproval n aid)
      | Some i \<Rightarrow>
          let v = ls_calls a ! i in
          if cv_turn v \<noteq> t then
            Inl (MismatchedToolLifecycleTurn n (tc_id (cv_call v)) (cv_turn v) t)
          else if cv_decision v \<noteq> None then Inl (DuplicateApprovalResolution n aid)
          else if cv_result v \<noteq> None then Inl (ApprovalResolutionAfterToolResult n aid)
          else if mode = LegacyApprovalWithoutResolution \<and> ls_format a = Legacy then
            Inl (MixedApprovalLogFormats n)
          else Inr (a\<lparr>ls_calls := (ls_calls a)[i := v\<lparr>cv_decision := Some d\<rparr>],
                      ls_format := Resolved\<rparr>))"

text \<open>
  Which results a call may have: exactly the canonical denial after a denial, no denial at all
  when it was approved or needed no approval. Without a recorded decision a result is accepted
  only in a legacy log, and a denial there must still be a canonical one.
\<close>

definition approval_denial :: "ustring \<Rightarrow> 'v tool_output" where
  "approval_denial reason =
     Failure \<lparr>te_code = lit ''approval_denied'', te_message = reason, te_retryable = False\<rparr> []"

fun denial_message :: "'v tool_output \<Rightarrow> ustring option" where
  "denial_message (Failure e _) =
     (if te_code e = lit ''approval_denied'' then Some (te_message e) else None)"
| "denial_message (Success _ _ _) = None"

fun result_ok :: "approval_decision option \<Rightarrow> 'v tool_output \<Rightarrow> bool" where
  "result_ok (Some (Deny reason)) out \<longleftrightarrow> out = approval_denial reason"
| "result_ok (Some Approve) out \<longleftrightarrow> denial_message out = None"
| "result_ok None out \<longleftrightarrow> denial_message out = None"

definition legacy_result_ok :: "'v tool_output \<Rightarrow> bool" where
  "legacy_result_ok out \<longleftrightarrow>
     (case denial_message out of None \<Rightarrow> True | Some m \<Rightarrow> out = approval_denial m)"

definition spec_decision ::
    "replay_compatibility \<Rightarrow> nat \<Rightarrow> 'v tool_result \<Rightarrow> 'v call_view \<Rightarrow> approval_log_format
       \<Rightarrow> replay_error + approval_log_format" where
  "spec_decision mode n r v fmt =
     (if awaiting v then
        if mode = Strict \<or> fmt = Resolved then
          Inl (ToolResultBeforeApprovalResolution n (tr_call_id r))
        else if legacy_result_ok (tr_output r) then Inr Legacy
        else Inl (InvalidApprovalDenialResult n (tr_call_id r))
      else if result_ok (cv_decision v) (tr_output r) then Inr fmt
      else Inl (InvalidApprovalDenialResult n (tr_call_id r)))"

definition spec_result ::
    "replay_compatibility \<Rightarrow> nat \<Rightarrow> turn_id \<Rightarrow> 'v tool_result \<Rightarrow> 'v log_state
       \<Rightarrow> replay_error + 'v log_state" where
  "spec_result mode n t r a =
     (case find_index (call_has_id (tr_call_id r)) (ls_calls a) of
        None \<Rightarrow> Inl (ResultForUnknownToolCall n (tr_call_id r))
      | Some i \<Rightarrow>
          let v = ls_calls a ! i in
          if cv_turn v \<noteq> t then
            Inl (MismatchedToolLifecycleTurn n (tr_call_id r) (cv_turn v) t)
          else if cv_result v \<noteq> None then Inl (DuplicateToolResult n (tr_call_id r))
          else try_res (spec_decision mode n r v (ls_format a)) (\<lambda>fmt.
            Inr (a\<lparr>ls_calls := (ls_calls a)[i := v\<lparr>cv_result := Some r\<rparr>], ls_format := fmt\<rparr>)))"

definition spec_finished ::
    "nat \<Rightarrow> terminal_run_status \<Rightarrow> 'v log_state \<Rightarrow> replay_error + 'v log_state" where
  "spec_finished n s a =
     (if needs_resolved_calls s \<and> unresolved (ls_calls a) \<noteq> [] then
        Inl (TerminalWithUnresolvedToolCalls n (unresolved (ls_calls a)))
      else Inr (a\<lparr>ls_finished := Some s\<rparr>))"

definition spec_event ::
    "replay_compatibility \<Rightarrow> nat \<Rightarrow> 'v agent_event \<Rightarrow> 'v log_state \<Rightarrow> replay_error + 'v log_state"
where
  "spec_event mode n ev a =
     (case ev of
        RunStarted _ _ _ \<Rightarrow> Inl (DuplicateRunStarted n)
      | TurnStarted _ t _ _ \<Rightarrow> spec_turn_started n t a
      | ModelOutput _ t _ _ _ \<Rightarrow> try_res (spec_check_active n t a) (\<lambda>_. Inr a)
      | ToolCallRequested _ t _ c _ _ \<Rightarrow>
          try_res (spec_check_active n t a) (\<lambda>_. spec_requested n t c a)
      | ApprovalRequested _ t q _ _ \<Rightarrow>
          try_res (spec_check_active n t a) (\<lambda>_. spec_approval n t q a)
      | ApprovalResolved _ t aid d _ _ \<Rightarrow>
          try_res (spec_check_active n t a) (\<lambda>_. spec_resolved mode n t aid d a)
      | ToolResultEvent _ t r _ _ \<Rightarrow>
          try_res (spec_check_active n t a) (\<lambda>_. spec_result mode n t r a)
      | ErrorEvent _ (Some t) e _ _ \<Rightarrow>
          try_res (spec_check_active n t a) (\<lambda>_. Inr (a\<lparr>ls_errors := ls_errors a @ [e]\<rparr>))
      | ErrorEvent _ None e _ _ \<Rightarrow> Inr (a\<lparr>ls_errors := ls_errors a @ [e]\<rparr>)
      | RunFinished _ s _ _ \<Rightarrow> spec_finished n s a)"

definition spec_step ::
    "replay_compatibility \<Rightarrow> run_id \<Rightarrow> nat \<Rightarrow> 'v agent_event \<Rightarrow> 'v log_state
       \<Rightarrow> replay_error + 'v log_state" where
  "spec_step mode rid n ev a =
     (if ls_finished a \<noteq> None then Inl (EventAfterRunFinished n)
      else if event_run_id ev \<noteq> rid then Inl (MismatchedRunId n rid (event_run_id ev))
      else spec_event mode n ev a)"

fun spec_run ::
    "replay_compatibility \<Rightarrow> run_id \<Rightarrow> nat \<Rightarrow> 'v agent_event list \<Rightarrow> 'v log_state
       \<Rightarrow> replay_error + 'v log_state" where
  "spec_run mode rid n [] a = Inr a"
| "spec_run mode rid n (ev # evs) a =
     try_res (spec_step mode rid n ev a) (\<lambda>a1. spec_run mode rid (Suc n) evs a1)"

text \<open>The meaning of a whole log.\<close>

definition spec_log ::
    "replay_compatibility \<Rightarrow> 'v agent_event list \<Rightarrow> replay_error + run_id \<times> 'v log_state" where
  "spec_log mode evs =
     (case evs of
        [] \<Rightarrow> Inl EmptyLog
      | RunStarted rid _ _ # rest \<Rightarrow>
          (case (if mode = LegacyApprovalWithoutResolution then first_sequenced evs else None) of
             Some i \<Rightarrow> Inl (LegacyCompatibilityForSequencedLog (i + 1))
           | None \<Rightarrow> try_res (spec_run mode rid 2 rest init_log_state) (\<lambda>a. Inr (rid, a)))
      | _ # _ \<Rightarrow> Inl FirstEventIsNotRunStarted)"

section \<open>The decision table of the code\<close>

lemma check_decision_spec:
  assumes "cv_result v = None"
  shows "check_decision mode n r (cv_decision v) (cv_approval v \<noteq> None) fmt = spec_decision mode n r v fmt"
proof -
  have denied: "is_denied_code out \<longleftrightarrow> denial_message out \<noteq> None" for out :: "'a tool_output"
    by (cases out) (simp_all add: is_denied_code_def)
  have canonical: "canonical_denial reason out \<longleftrightarrow> out = approval_denial reason"
    for reason and out :: "'a tool_output"
    by (cases out) (auto simp: canonical_denial_def approval_denial_def)
  have legacy: "denied_noncanonically out \<longleftrightarrow> \<not> legacy_result_ok out" for out :: "'a tool_output"
  proof (cases out)
    case (Failure e ext)
    then show ?thesis
      by (cases e) (auto simp: denied_noncanonically_def legacy_result_ok_def approval_denial_def)
  qed (simp add: denied_noncanonically_def legacy_result_ok_def)
  show ?thesis
    using assms replay_compatibility.exhaust [of mode]
    by (cases "cv_decision v"; cases "cv_approval v"; cases "the (cv_decision v)")
      (auto simp: check_decision_def spec_decision_def awaiting_def denied canonical legacy)
qed

text \<open>The step of a result with the decision table of the code in place.\<close>

lemma spec_result_eq:
  "spec_result mode n t r a =
     (case find_index (call_has_id (tr_call_id r)) (ls_calls a) of
        None \<Rightarrow> Inl (ResultForUnknownToolCall n (tr_call_id r))
      | Some i \<Rightarrow>
          let v = ls_calls a ! i in
          if cv_turn v \<noteq> t then
            Inl (MismatchedToolLifecycleTurn n (tr_call_id r) (cv_turn v) t)
          else if cv_result v \<noteq> None then Inl (DuplicateToolResult n (tr_call_id r))
          else try_res (check_decision mode n r (cv_decision v) (cv_approval v \<noteq> None) (ls_format a)) (\<lambda>fmt.
            Inr (a\<lparr>ls_calls := (ls_calls a)[i := v\<lparr>cv_result := Some r\<rparr>], ls_format := fmt\<rparr>)))"
  by (simp add: spec_result_def check_decision_spec Let_def del: not_None_eq split: option.split)

lemma spec_run_append:
  "spec_run mode rid n (xs @ ys) a =
     try_res (spec_run mode rid n xs a) (\<lambda>a1. spec_run mode rid (n + length xs) ys a1)"
proof (induction xs arbitrary: n a)
  case (Cons x xs)
  then show ?case by (cases "spec_step mode rid n x a") simp_all
qed simp

end
