(* ===== verification/Replay_Refinement.thy ===== *)
theory Replay_Refinement
  imports Replay_Spec
begin

text \<open>
  The fold of \<open>replay_events_with_mode\<close> implements the abstract machine of \<open>Replay_Spec\<close>: the
  stored positions always point at events of the right kind, the hash maps find the calls, the
  pending set and the stored status agree with the calls. In particular no branch that panics
  is reachable.
\<close>

definition view :: "'v agent_event list \<Rightarrow> replayed_tool_call_index \<Rightarrow> 'v call_view option" where
  "view P ix =
     (case (replayed_turn_id P ix, replayed_call P ix, replayed_approval P ix,
            replayed_decision P ix, replayed_result P ix) of
        (Some t, Some c, Some q, Some d, Some r) \<Rightarrow>
          Some \<lparr>cv_turn = t, cv_call = c, cv_approval = q, cv_decision = d, cv_result = r\<rparr>
      | _ \<Rightarrow> None)"

lemma view_Some:
  "view P ix = Some v \<longleftrightarrow>
     replayed_turn_id P ix = Some (cv_turn v) \<and> replayed_call P ix = Some (cv_call v)
     \<and> replayed_approval P ix = Some (cv_approval v) \<and> replayed_decision P ix = Some (cv_decision v)
     \<and> replayed_result P ix = Some (cv_result v)"
  by (cases v) (auto simp: view_def split: option.splits)

lemma position_append:
  "approval_at P i = Some q \<Longrightarrow> approval_at (P @ Q) i = Some q"
  "decision_at P i = Some d \<Longrightarrow> decision_at (P @ Q) i = Some d"
  "result_at P i = Some r \<Longrightarrow> result_at (P @ Q) i = Some r"
  "error_at P i = Some e \<Longrightarrow> error_at (P @ Q) i = Some e"
  "replayed_turn_id P ix = Some t \<Longrightarrow> replayed_turn_id (P @ Q) ix = Some t"
  "replayed_call P ix = Some c \<Longrightarrow> replayed_call (P @ Q) ix = Some c"
  by (auto simp: approval_at_def decision_at_def result_at_def error_at_def replayed_turn_id_def
      replayed_call_def nth_opt_def nth_append
      split: if_splits option.splits agent_event.splits)

lemma replayed_append:
  "replayed_approval P ix = Some q \<Longrightarrow> replayed_approval (P @ Q) ix = Some q"
  "replayed_decision P ix = Some d \<Longrightarrow> replayed_decision (P @ Q) ix = Some d"
  "replayed_result P ix = Some r \<Longrightarrow> replayed_result (P @ Q) ix = Some r"
  by (auto simp: replayed_approval_def replayed_decision_def replayed_result_def map_position_def
      position_append split: option.splits)

lemma view_append: "view P ix = Some v \<Longrightarrow> view (P @ Q) ix = Some v"
  by (simp add: view_Some position_append replayed_append)

lemma replayed_result_None:
  "replayed_result P ix = Some r \<Longrightarrow> result_event ix = None \<longleftrightarrow> r = None"
  by (cases "result_event ix") (auto simp: replayed_result_def map_position_def)

definition refines :: "'v agent_event list \<Rightarrow> replay_state \<Rightarrow> 'v log_state \<Rightarrow> bool" where
  "refines P st a \<longleftrightarrow>
     list_all2 (\<lambda>ix v. view P ix = Some v) (rs_tool_calls st) (ls_calls a)
     \<and> rs_tool_call_indexes st = (\<lambda>c. find_index (call_has_id c) (ls_calls a))
     \<and> rs_approval_indexes st = (\<lambda>q. find_index (call_has_approval q) (ls_calls a))
     \<and> rs_pending st = {i. i < length (ls_calls a) \<and> awaiting (ls_calls a ! i)}
     \<and> list_all2 (\<lambda>i q. approval_at P i = Some q) (rs_approvals st) (ls_approvals a)
     \<and> list_all2 (\<lambda>i e. error_at P i = Some e) (rs_errors st) (ls_errors a)
     \<and> rs_started st = ls_started a \<and> rs_active st = ls_active a
     \<and> (ls_started a \<noteq> {} \<longrightarrow> ls_active a \<noteq> None)
     \<and> (\<forall>v \<in> set (ls_calls a). cv_approval v = None \<longrightarrow> cv_decision v = None)
     \<and> rs_format st = ls_format a \<and> rs_finished st = (ls_finished a \<noteq> None)
     \<and> rs_status st = log_status a"

definition simulates ::
    "'v agent_event list \<Rightarrow> replay_state replay_result \<Rightarrow> replay_error + 'v log_state \<Rightarrow> bool" where
  "simulates P res spec =
     (case spec of Inl e \<Rightarrow> res = fail e | Inr a \<Rightarrow> \<exists>st. res = Inr st \<and> refines P st a)"

lemma simulates_Inl [simp]: "simulates P res (Inl e) \<longleftrightarrow> res = fail e"
  by (simp add: simulates_def)

lemma simulates_Inr [simp]: "simulates P (Inr st) (Inr a) \<longleftrightarrow> refines P st a"
  by (simp add: simulates_def)

lemma refines_init: "refines P init_replay_state init_log_state"
  by (simp add: refines_def init_replay_state_def init_log_state_def log_status_def fun_eq_iff)

lemma refines_append: "refines P st a \<Longrightarrow> refines (P @ Q) st a"
  unfolding refines_def
  by (auto simp: view_append position_append elim!: list_all2_mono)

lemma pending_empty: "{i. i < length vs \<and> p (vs ! i)} = {} \<longleftrightarrow> \<not> list_ex p vs"
  by (auto simp: list_ex_length)

lemma pending_update:
  "i < length vs \<Longrightarrow> {j. j < length (vs[i := v]) \<and> p (vs[i := v] ! j)}
     = (if p v then insert i {j. j < length vs \<and> p (vs ! j)} else {j. j < length vs \<and> p (vs ! j)} - {i})"
  by (auto simp: nth_list_update split: if_splits)

lemma unresolved_refines:
  "list_all2 (\<lambda>ix v. view P ix = Some v) tcs vs \<Longrightarrow>
     unresolved_call_ids (P @ Q) tcs = Inr (unresolved vs)"
proof (induction rule: list_all2_induct)
  case Nil
  show ?case by (simp add: unresolved_call_ids_def unresolved_def)
next
  case (Cons ix tcs v vs)
  from Cons.hyps(1) have v: "view (P @ Q) ix = Some v" by (rule view_append)
  then have "result_event ix = None \<longleftrightarrow> cv_result v = None"
    using replayed_result_None by (auto simp: view_Some)
  with v Cons.IH show ?case
    by (auto simp: unresolved_call_ids_def unresolved_def view_Some option.map_comp
        split: option.splits)
qed

text \<open>The call that an index of the state denotes, seen from the whole log.\<close>

lemma refines_call:
  assumes "refines P st a" and "find_index p (ls_calls a) = Some i"
  obtains ix where "i < length (ls_calls a)" "nth_opt (rs_tool_calls st) i = Some ix"
    "view P ix = Some (ls_calls a ! i)"
    "replayed_turn_id (P @ Q) ix = Some (cv_turn (ls_calls a ! i))"
    "replayed_call (P @ Q) ix = Some (cv_call (ls_calls a ! i))"
    "replayed_approval (P @ Q) ix = Some (cv_approval (ls_calls a ! i))"
    "replayed_decision (P @ Q) ix = Some (cv_decision (ls_calls a ! i))"
    "replayed_result (P @ Q) ix = Some (cv_result (ls_calls a ! i))"
proof -
  from assms(1) have l: "list_all2 (\<lambda>ix v. view P ix = Some v) (rs_tool_calls st) (ls_calls a)"
    by (simp add: refines_def)
  from find_index_SomeD [OF assms(2)] have i: "i < length (ls_calls a)" by simp
  with l have "view P (rs_tool_calls st ! i) = Some (ls_calls a ! i)"
    by (simp add: list_all2_conv_all_nth)
  with i list_all2_lengthD [OF l] that [of "rs_tool_calls st ! i"] view_append show thesis
    by (auto simp: nth_opt_def view_Some)
qed

lemma view_new_event:
  assumes "view P ix = Some v"
  shows "ev = ApprovalRequested r t q s x \<Longrightarrow>
      view (P @ [ev]) (ix\<lparr>approval_event := Some (length P)\<rparr>) = Some (v\<lparr>cv_approval := Some q\<rparr>)"
    and "ev = ApprovalResolved r t aid d s x \<Longrightarrow>
      view (P @ [ev]) (ix\<lparr>approval_resolution_event := Some (length P)\<rparr>)
        = Some (v\<lparr>cv_decision := Some d\<rparr>)"
    and "ev = ToolResultEvent r t w s x \<Longrightarrow>
      view (P @ [ev]) (ix\<lparr>result_event := Some (length P)\<rparr>) = Some (v\<lparr>cv_result := Some w\<rparr>)"
  using view_append [OF assms, of "[ev]"]
  by (auto simp: view_Some replayed_turn_id_def replayed_call_def replayed_approval_def
      replayed_decision_def replayed_result_def map_position_def approval_at_def decision_at_def
      result_at_def nth_opt_def)

lemma update_views:
  assumes "list_all2 (\<lambda>ix v. view P ix = Some v) tcs vs" and "view (P @ [ev]) ix' = Some v'"
  shows "list_all2 (\<lambda>ix v. view (P @ [ev]) ix = Some v) (tcs[i := ix']) (vs[i := v'])"
  using assms by (auto intro!: list_all2_update_cong elim!: list_all2_mono simp: view_append)

section \<open>The handlers\<close>

lemma turn_started_sim:
  assumes "refines P st a"
  shows "simulates (P @ Q') (on_turn_started (P @ Q) n t st) (spec_turn_started n t a)"
proof -
  have u: "unresolved_call_ids (P @ Q) (rs_tool_calls st) = Inr (unresolved (ls_calls a))"
    using assms unresolved_refines by (auto simp: refines_def)
  have "log_status (a\<lparr>ls_started := S, ls_active := A\<rparr>) = log_status a" for S A
    by (simp add: log_status_def)
  with u refines_append [OF assms, of Q'] show ?thesis
    by (auto simp: on_turn_started_def spec_turn_started_def refines_def)
qed

lemma check_active_sim:
  assumes "refines P st a"
  shows "check_active_turn n t st = map_err ReplayErr (spec_check_active n t a)"
  using assms
  by (auto simp: check_active_turn_def spec_check_active_def refines_def fail_def expect_def
      split: option.split)

lemma requested_sim:
  assumes "refines P st a"
  shows "simulates (P @ [ToolCallRequested r t m c s x])
     (on_tool_call_requested (length P) n c st) (spec_requested n t c a)"
proof (cases "find_index (call_has_id (tc_id c)) (ls_calls a)")
  case (Some i)
  with assms show ?thesis
    by (auto simp: on_tool_call_requested_def spec_requested_def refines_def)
next
  case None
  let ?ev = "ToolCallRequested r t m c s x"
  let ?ix = "\<lparr>requested_event = length P, approval_event = None,
              approval_resolution_event = None, result_event = None\<rparr>"
  have v: "view (P @ [?ev]) ?ix = Some (new_call t c)"
    by (simp add: view_Some replayed_turn_id_def replayed_call_def replayed_approval_def
        replayed_decision_def replayed_result_def map_position_def nth_opt_def new_call_def)
  have len: "length (rs_tool_calls st) = length (ls_calls a)"
    using assms by (auto simp: refines_def dest: list_all2_lengthD)
  have ids: "(\<lambda>d. find_index (call_has_id d) (ls_calls a @ [new_call t c]))
      = (\<lambda>d. find_index (call_has_id d) (ls_calls a))(tc_id c \<mapsto> length (ls_calls a))"
    using None by (auto simp: fun_eq_iff find_index_append call_has_id_def new_call_def
        split: option.split)
  have aps: "(\<lambda>q. find_index (call_has_approval q) (ls_calls a @ [new_call t c]))
      = (\<lambda>q. find_index (call_has_approval q) (ls_calls a))"
    by (auto simp: fun_eq_iff find_index_append call_has_approval_def new_call_def
        split: option.split)
  have pend: "{i. i < Suc (length (ls_calls a)) \<and> awaiting ((ls_calls a @ [new_call t c]) ! i)}
      = {i. i < length (ls_calls a) \<and> awaiting (ls_calls a ! i)}"
    by (auto simp: nth_append awaiting_def new_call_def less_Suc_eq)
  have stat: "log_status (a\<lparr>ls_calls := ls_calls a @ [new_call t c]\<rparr>) = log_status a"
    by (simp add: log_status_def awaiting_def new_call_def split: option.split)
  from None refines_append [OF assms, of "[?ev]"] v len ids aps pend stat show ?thesis
    by (simp add: on_tool_call_requested_def spec_requested_def refines_def list_all2_appendI
        new_call_def)
qed

text \<open>
  The common part of the three handlers that update one call: the view of the call changes in
  place, its id does not.
\<close>

lemma call_update_refines:
  assumes R: "refines P st a" and i: "i < length (ls_calls a)"
    and v: "view (P @ [ev]) ix' = Some v'"
    and keep: "cv_call v' = cv_call (ls_calls a ! i)"
    and wf: "cv_approval v' = None \<longrightarrow> cv_decision v' = None"
    and st': "rs_tool_calls st' = (rs_tool_calls st)[i := ix']"
      "rs_tool_call_indexes st' = rs_tool_call_indexes st" "rs_errors st' = rs_errors st"
      "rs_started st' = rs_started st" "rs_active st' = rs_active st"
      "rs_finished st' = rs_finished st" "rs_format st' = ls_format a'"
    and stat: "rs_status st' = (if rs_pending st' = {} then Running else AwaitingApproval)"
    and aps: "rs_approval_indexes st' = (\<lambda>q. find_index (call_has_approval q) ((ls_calls a)[i := v']))"
    and pend: "rs_pending st'
        = (if awaiting v' then insert i (rs_pending st) else rs_pending st - {i})"
    and apr: "list_all2 (\<lambda>j q. approval_at (P @ [ev]) j = Some q) (rs_approvals st') (ls_approvals a')"
    and a': "ls_calls a' = (ls_calls a)[i := v']" "ls_errors a' = ls_errors a"
      "ls_started a' = ls_started a" "ls_active a' = ls_active a" "ls_finished a' = None"
    and fin: "ls_finished a = None"
  shows "refines (P @ [ev]) st' a'"
proof -
  from R have l: "list_all2 (\<lambda>ix v. view P ix = Some v) (rs_tool_calls st) (ls_calls a)"
    and p: "rs_pending st = {j. j < length (ls_calls a) \<and> awaiting (ls_calls a ! j)}"
    by (simp_all add: refines_def)
  have ids: "(\<lambda>c. find_index (call_has_id c) ((ls_calls a)[i := v']))
      = (\<lambda>c. find_index (call_has_id c) (ls_calls a))"
    using keep i by (auto simp: fun_eq_iff call_has_id_def intro: find_index_update_same)
  have pend2: "rs_pending st' = {j. j < length (ls_calls a') \<and> awaiting (ls_calls a' ! j)}"
    using pending_update [OF i, of v' awaiting] by (simp add: pend p a')
  have stat2: "log_status a' = rs_status st'"
    using pend2 pending_empty [of "ls_calls a'" awaiting] by (simp add: log_status_def a' stat)
  have errs: "list_all2 (\<lambda>i e. error_at (P @ [ev]) i = Some e) (rs_errors st) (ls_errors a)"
    using refines_append [OF R, of "[ev]"] by (simp add: refines_def)
  have "\<forall>u \<in> set ((ls_calls a)[i := v']). cv_approval u = None \<longrightarrow> cv_decision u = None"
    using R wf set_update_subset_insert [of "ls_calls a" i v'] by (auto simp: refines_def)
  with R update_views [OF l v, of i] ids pend2 stat2 errs apr a' fin st' show ?thesis
    by (simp add: refines_def aps)
qed

lemma running_or_awaiting:
  assumes "refines P st a" and "ls_finished a = None"
  shows "rs_status st = (if rs_pending st = {} then Running else AwaitingApproval)"
  using assms pending_empty [of "ls_calls a" awaiting] by (simp add: refines_def log_status_def)

lemma approval_sim:
  fixes q :: "'v approval_request"
  assumes R: "refines P st a" and fin: "ls_finished a = None"
    and ev: "ev = ApprovalRequested r t q s x"
  shows "simulates (P @ [ev]) (on_approval_requested (P @ ev # F) (length P) n t q st)
     (spec_approval n t q a)"
proof (cases "find_index (call_has_id (tc_id (ar_call q))) (ls_calls a)")
  case None
  with R show ?thesis by (simp add: on_approval_requested_def spec_approval_def refines_def)
next
  case (Some i)
  let ?v = "ls_calls a ! i"
  from refines_call [OF R Some, of "ev # F"] obtain ix where
    i: "i < length (ls_calls a)" and ix: "nth_opt (rs_tool_calls st) i = Some ix"
    and v: "view P ix = Some ?v"
    and acc: "replayed_turn_id (P @ ev # F) ix = Some (cv_turn ?v)"
      "replayed_call (P @ ev # F) ix = Some (cv_call ?v)"
      "replayed_approval (P @ ev # F) ix = Some (cv_approval ?v)"
      "replayed_result (P @ ev # F) ix = Some (cv_result ?v)"
    by metis
  have idx: "rs_tool_call_indexes st (tc_id (ar_call q)) = Some i"
    "rs_approval_indexes st (ar_id q) = find_index (call_has_approval (ar_id q)) (ls_calls a)"
    using R Some by (simp_all add: refines_def)
  show ?thesis
  proof (cases "cv_turn ?v = t \<and> cv_call ?v = ar_call q \<and> cv_result ?v = None \<and> cv_approval ?v = None
      \<and> find_index (call_has_approval (ar_id q)) (ls_calls a) = None")
    case False
    then show ?thesis using Some ix acc idx
      by (auto simp: on_approval_requested_def spec_approval_def Let_def)
  next
    case True
    let ?v' = "?v\<lparr>cv_approval := Some q\<rparr>"
    let ?a' = "a\<lparr>ls_calls := (ls_calls a)[i := ?v'], ls_approvals := ls_approvals a @ [q]\<rparr>"
    have dec: "cv_decision ?v = None"
      using R True i nth_mem [OF i] by (auto simp: refines_def)
    have aps: "(rs_approval_indexes st)(ar_id q \<mapsto> i)
        = (\<lambda>p. find_index (call_has_approval p) ((ls_calls a)[i := ?v']))"
    proof
      fix p
      show "((rs_approval_indexes st)(ar_id q \<mapsto> i)) p
          = find_index (call_has_approval p) ((ls_calls a)[i := ?v'])"
        using R i True find_index_update_new [of "call_has_approval (ar_id q)" "ls_calls a" i ?v']
          find_index_update_same [of i "ls_calls a" "call_has_approval p" ?v']
        by (auto simp: call_has_approval_def refines_def)
    qed
    have apr: "list_all2 (\<lambda>j q. approval_at (P @ [ev]) j = Some q)
        (rs_approvals st @ [length P]) (ls_approvals a @ [q])"
      using refines_append [OF R, of "[ev]"]
      by (auto simp: refines_def approval_at_def nth_opt_def ev intro!: list_all2_appendI)
    have v': "view (P @ [ev]) (ix\<lparr>approval_event := Some (length P)\<rparr>) = Some ?v'"
      by (rule view_new_event(1) [OF v ev])
    let ?st' = "st\<lparr>rs_tool_calls := (rs_tool_calls st)[i := ix\<lparr>approval_event := Some (length P)\<rparr>],
           rs_approval_indexes := (rs_approval_indexes st)(ar_id q \<mapsto> i),
           rs_approvals := rs_approvals st @ [length P], rs_pending := insert i (rs_pending st),
           rs_status := AwaitingApproval\<rparr>"
    have "refines (P @ [ev]) ?st' ?a'"
      using True dec fin apr aps R
      by (intro call_update_refines [OF R i v', where st' = ?st' and a' = ?a'])
        (simp_all add: awaiting_def refines_def)
    then show ?thesis using Some ix acc idx True
      by (simp add: on_approval_requested_def spec_approval_def Let_def)
  qed
qed

lemma resolved_sim:
  assumes R: "refines P st a" and fin: "ls_finished a = None"
    and ev: "ev = ApprovalResolved r t aid d s x"
  shows "simulates (P @ [ev]) (on_approval_resolved mode (P @ ev # F) (length P) n t aid st)
     (spec_resolved mode n t aid d a)"
proof (cases "find_index (call_has_approval aid) (ls_calls a)")
  case None
  with R show ?thesis by (simp add: on_approval_resolved_def spec_resolved_def refines_def)
next
  case (Some i)
  let ?v = "ls_calls a ! i"
  from refines_call [OF R Some, of "ev # F"] obtain ix where
    i: "i < length (ls_calls a)" and ix: "nth_opt (rs_tool_calls st) i = Some ix"
    and v: "view P ix = Some ?v"
    and acc: "replayed_turn_id (P @ ev # F) ix = Some (cv_turn ?v)"
      "replayed_call (P @ ev # F) ix = Some (cv_call ?v)"
      "replayed_decision (P @ ev # F) ix = Some (cv_decision ?v)"
      "replayed_result (P @ ev # F) ix = Some (cv_result ?v)"
    by metis
  have idx: "rs_approval_indexes st aid = Some i" "rs_format st = ls_format a"
    using R Some by (simp_all add: refines_def)
  have ap: "cv_approval ?v \<noteq> None"
    using find_index_SomeD [OF Some] by (auto simp: call_has_approval_def split: option.splits)
  let ?v' = "?v\<lparr>cv_decision := Some d\<rparr>"
  let ?a' = "a\<lparr>ls_calls := (ls_calls a)[i := ?v'], ls_format := Resolved\<rparr>"
  show ?thesis
  proof (cases "cv_turn ?v = t \<and> cv_decision ?v = None \<and> cv_result ?v = None
      \<and> \<not> (mode = LegacyApprovalWithoutResolution \<and> ls_format a = Legacy)")
    case False
    then show ?thesis using Some ix acc idx
      by (auto simp: on_approval_resolved_def spec_resolved_def Let_def)
  next
    case True
    have aps: "rs_approval_indexes st = (\<lambda>p. find_index (call_has_approval p) ((ls_calls a)[i := ?v']))"
      using R i by (auto simp: refines_def fun_eq_iff call_has_approval_def
          intro!: find_index_update_same [symmetric])
    have apr: "list_all2 (\<lambda>j q. approval_at (P @ [ev]) j = Some q) (rs_approvals st) (ls_approvals a)"
      using refines_append [OF R, of "[ev]"] by (simp add: refines_def)
    have v': "view (P @ [ev]) (ix\<lparr>approval_resolution_event := Some (length P)\<rparr>) = Some ?v'"
      by (rule view_new_event(2) [OF v ev])
    let ?st = "st\<lparr>rs_format := Resolved, rs_tool_calls :=
        (rs_tool_calls st)[i := ix\<lparr>approval_resolution_event := Some (length P)\<rparr>]\<rparr>"
    have "refines (P @ [ev]) (settle_pending i ?st) ?a'"
      using ap fin apr aps running_or_awaiting [OF R fin]
      by (intro call_update_refines [OF R i v', where a' = ?a'])
        (simp_all add: awaiting_def settle_pending_def Let_def)
    then show ?thesis using Some ix acc idx True
      by (auto simp: on_approval_resolved_def spec_resolved_def Let_def)
  qed
qed

lemma result_sim:
  assumes R: "refines P st a" and fin: "ls_finished a = None"
    and ev: "ev = ToolResultEvent r t w s x"
  shows "simulates (P @ [ev]) (on_tool_result mode (P @ ev # F) (length P) n t w st)
     (spec_result mode n t w a)"
proof (cases "find_index (call_has_id (tr_call_id w)) (ls_calls a)")
  case None
  with R show ?thesis by (simp add: on_tool_result_def spec_result_eq refines_def)
next
  case (Some i)
  let ?v = "ls_calls a ! i"
  from refines_call [OF R Some, of "ev # F"] obtain ix where
    i: "i < length (ls_calls a)" and ix: "nth_opt (rs_tool_calls st) i = Some ix"
    and v: "view P ix = Some ?v"
    and acc: "replayed_turn_id (P @ ev # F) ix = Some (cv_turn ?v)"
      "replayed_approval (P @ ev # F) ix = Some (cv_approval ?v)"
      "replayed_decision (P @ ev # F) ix = Some (cv_decision ?v)"
      "replayed_result (P @ ev # F) ix = Some (cv_result ?v)"
    by metis
  have idx: "rs_tool_call_indexes st (tr_call_id w) = Some i" "rs_format st = ls_format a"
    using R Some by (simp_all add: refines_def)
  let ?v' = "?v\<lparr>cv_result := Some w\<rparr>"
  show ?thesis
  proof (cases "check_decision mode n w (cv_decision ?v) (cv_approval ?v \<noteq> None) (ls_format a)")
    case (Inl e)
    then show ?thesis using Some ix acc idx
      by (auto simp: on_tool_result_def spec_result_eq Let_def fail_def)
  next
    case (Inr fmt)
    let ?a' = "a\<lparr>ls_calls := (ls_calls a)[i := ?v'], ls_format := fmt\<rparr>"
    have aps: "rs_approval_indexes st = (\<lambda>p. find_index (call_has_approval p) ((ls_calls a)[i := ?v']))"
      using R i by (auto simp: refines_def fun_eq_iff call_has_approval_def
          intro!: find_index_update_same [symmetric])
    have apr: "list_all2 (\<lambda>j q. approval_at (P @ [ev]) j = Some q) (rs_approvals st) (ls_approvals a)"
      using refines_append [OF R, of "[ev]"] by (simp add: refines_def)
    have v': "view (P @ [ev]) (ix\<lparr>result_event := Some (length P)\<rparr>) = Some ?v'"
      by (rule view_new_event(3) [OF v ev])
    have wf: "cv_approval ?v' = None \<longrightarrow> cv_decision ?v' = None"
      using R nth_mem [OF i] by (auto simp: refines_def)
    let ?st = "st\<lparr>rs_format := fmt, rs_tool_calls :=
        (rs_tool_calls st)[i := ix\<lparr>result_event := Some (length P)\<rparr>]\<rparr>"
    have "refines (P @ [ev]) (settle_pending i ?st) ?a'"
      using fin apr aps wf running_or_awaiting [OF R fin]
      by (intro call_update_refines [OF R i v', where a' = ?a'])
        (simp_all add: awaiting_def settle_pending_def Let_def)
    then show ?thesis using Some ix acc idx Inr
      by (auto simp: on_tool_result_def spec_result_eq Let_def)
  qed
qed

lemma finished_sim:
  assumes R: "refines P st a"
  shows "simulates (P @ Q') (on_run_finished (P @ Q) n w st) (spec_finished n w a)"
proof -
  have u: "unresolved_call_ids (P @ Q) (rs_tool_calls st) = Inr (unresolved (ls_calls a))"
    using R unresolved_refines by (auto simp: refines_def)
  from u refines_append [OF R, of Q'] show ?thesis
    by (auto simp: on_run_finished_def spec_finished_def refines_def log_status_def)
qed

section \<open>The fold\<close>

lemma active_gate:
  assumes "refines P st a" and "simulates P' (f st) s"
  shows "simulates P' (try_res (try_res (check_active_turn n t st) (\<lambda>_. Inr st)) f)
      (try_res (spec_check_active n t a) (\<lambda>_. s))"
  using assms(2) check_active_sim [OF assms(1), of n t]
  by (cases "spec_check_active n t a") (simp_all add: fail_def)

lemma step_sim:
  assumes R: "refines P st a"
  shows "simulates (P @ [ev]) (replay_step mode rid (P @ ev # F) (length P) ev st)
     (spec_step mode rid (length P + 1) ev a)"
proof (cases "ls_finished a = None \<and> event_run_id ev = rid")
  case False
  with R show ?thesis by (auto simp: replay_step_def spec_step_def Let_def refines_def)
next
  case True
  let ?n = "length P + 1"
  from R True have nf: "\<not> rs_finished st" by (simp add: refines_def)
  have keep: "refines (P @ [ev]) st a"
    using refines_append [OF R] .
  have err: "refines (P @ [ev]) (st\<lparr>rs_errors := rs_errors st @ [length P]\<rparr>)
      (a\<lparr>ls_errors := ls_errors a @ [e]\<rparr>)" if "ev = ErrorEvent r t e s x" for r t e s x
  proof -
    have "list_all2 (\<lambda>i e. error_at (P @ [ev]) i = Some e)
        (rs_errors st @ [length P]) (ls_errors a @ [e])"
      using keep that
      by (auto simp: refines_def error_at_def nth_opt_def intro!: list_all2_appendI)
    with keep show ?thesis by (simp add: refines_def log_status_def)
  qed
  note fin = conjunct1 [OF True]
  note defs = replay_step_def spec_step_def Let_def nf True check_turn_def apply_event_def
    spec_event_def
  show ?thesis
  proof (cases ev)
    case (RunStarted r s x)
    then show ?thesis using True by (simp add: defs)
  next
    case (TurnStarted r t s x)
    then show ?thesis using True turn_started_sim [OF R, of "[ev]" "ev # F" ?n t]
      by (cases "spec_turn_started ?n t a") (auto simp: defs simulates_def on_turn_started_def)
  next
    case (ModelOutput r t m s x)
    then show ?thesis using True keep by (auto simp: defs intro!: active_gate [OF R])
  next
    case (ToolCallRequested r t m c s x)
    then show ?thesis using True requested_sim [OF R, of r t m c s x ?n] by (auto simp: defs intro!: active_gate [OF R])
  next
    case (ApprovalRequested r t q s x)
    then show ?thesis using True approval_sim [OF R fin ApprovalRequested] by (auto simp: defs intro!: active_gate [OF R])
  next
    case (ApprovalResolved r t aid d s x)
    then show ?thesis using True resolved_sim [OF R fin ApprovalResolved] by (auto simp: defs intro!: active_gate [OF R])
  next
    case (ToolResultEvent r t w s x)
    then show ?thesis using True result_sim [OF R fin ToolResultEvent] by (auto simp: defs intro!: active_gate [OF R])
  next
    case (ErrorEvent r t e s x)
    then show ?thesis using True err [OF ErrorEvent]
      by (cases t) (auto simp: defs intro!: active_gate [OF R])
  next
    case (RunFinished r w s x)
    then show ?thesis
      using True finished_sim [OF R, of "[ev]" "ev # F" ?n w] by (auto simp: defs)
  qed
qed
lemma fold_sim:
  "refines P st a \<Longrightarrow>
     simulates (P @ evs) (replay_from mode rid (P @ evs) (length P) evs st)
       (spec_run mode rid (Suc (length P)) evs a)"
proof (induction evs arbitrary: P st a)
  case (Cons ev evs)
  from step_sim [OF Cons.prems, of ev mode rid evs]
  have step: "simulates (P @ [ev]) (replay_step mode rid (P @ ev # evs) (length P) ev st)
    (spec_step mode rid (Suc (length P)) ev a)" by simp
  show ?case
  proof (cases "spec_step mode rid (Suc (length P)) ev a")
    case (Inl e)
    with step show ?thesis by simp
  next
    case (Inr a1)
    with step obtain st1 where s: "replay_step mode rid (P @ ev # evs) (length P) ev st = Inr st1"
      and r: "refines (P @ [ev]) st1 a1" by (auto simp: simulates_def)
    from Cons.IH [OF r] Inr s show ?thesis by simp
  qed
qed simp

text \<open>What a reader of the replay sees of the abstract state.\<close>

definition log_status_for :: "bool \<Rightarrow> 'v log_state \<Rightarrow> run_status" where
  "log_status_for detect_recovery a =
     (if detect_recovery \<and> log_status a = Running \<and> unresolved (ls_calls a) \<noteq> []
      then RecoveryRequired (unresolved (ls_calls a)) else log_status a)"

definition shows_log :: "'v run_replay \<Rightarrow> run_id \<Rightarrow> run_status \<Rightarrow> 'v log_state \<Rightarrow> bool" where
  "shows_log r rid status a \<longleftrightarrow>
     rr_run_id r = rid \<and> rr_status r = status
     \<and> map (view (rr_events r)) (rr_tool_calls r) = map Some (ls_calls a)
     \<and> replay_approvals r = Some (ls_approvals a) \<and> replay_errors r = Some (ls_errors a)"

lemma those_map_Some: "list_all2 (\<lambda>x y. f x = Some y) xs ys \<Longrightarrow> those (map f xs) = Some ys"
  by (induction rule: list_all2_induct) simp_all

lemma map_Some_list_all2: "list_all2 (\<lambda>x y. f x = Some y) xs ys \<Longrightarrow> map f xs = map Some ys"
  by (induction rule: list_all2_induct) simp_all

lemma replay_machine:
  "case spec_log mode evs of
     Inl e \<Rightarrow> replay_events_with_mode evs detect_recovery mode = Inl (ReplayErr e)
   | Inr (rid, a) \<Rightarrow>
       (\<exists>r. replay_events_with_mode evs detect_recovery mode = Inr r \<and> rr_events r = evs
            \<and> shows_log r rid (log_status_for detect_recovery a) a)"
proof (cases evs)
  case Nil
  then show ?thesis by (simp add: spec_log_def replay_events_with_mode_def log_run_id_def fail_def)
next
  case (Cons ev rest)
  show ?thesis
  proof (cases "\<exists>rid s x. ev = RunStarted rid s x")
    case False
    then show ?thesis using Cons
      by (cases ev) (simp_all add: spec_log_def replay_events_with_mode_def log_run_id_def fail_def)
  next
    case True
    then obtain rid s x where ev: "ev = RunStarted rid s x" by blast
    have sim: "simulates evs (replay_from mode rid evs (Suc 0) rest init_replay_state)
        (spec_run mode rid 2 rest init_log_state)"
      using fold_sim [OF refines_init [of "[ev]"], of rest mode rid] Cons
      by (simp add: numeral_2_eq_2)
    let ?early = "mode = LegacyApprovalWithoutResolution \<and> first_sequenced evs \<noteq> None"
    show ?thesis
    proof (cases ?early)
      case True
      then show ?thesis using Cons ev
        by (auto simp: spec_log_def replay_events_with_mode_def log_run_id_def fail_def)
    next
      case early: False
      then have spec: "spec_log mode evs
          = try_res (spec_run mode rid 2 rest init_log_state) (\<lambda>a. Inr (rid, a))"
        using Cons ev by (auto simp: spec_log_def split: option.split)
      from early have code: "replay_events_with_mode evs detect_recovery mode =
          try_res (replay_from mode rid evs (Suc 0) rest init_replay_state) (\<lambda>st.
          try_res (recovery_status evs detect_recovery st) (\<lambda>status.
          Inr \<lparr>rr_run_id = rid, rr_status = status, rr_events = evs,
            rr_tool_calls = rs_tool_calls st, rr_approvals = rs_approvals st,
            rr_errors = rs_errors st\<rparr>))"
        using Cons ev
        by (auto simp: replay_events_with_mode_def log_run_id_def split: option.split)
      show ?thesis
      proof (cases "spec_run mode rid 2 rest init_log_state")
        case (Inl e)
        with sim spec code show ?thesis by (simp add: fail_def)
      next
        case (Inr a)
        with sim obtain st where st: "replay_from mode rid evs (Suc 0) rest init_replay_state = Inr st"
          and R: "refines evs st a" by (auto simp: simulates_def)
        have rec: "recovery_status evs detect_recovery st = Inr (log_status_for detect_recovery a)"
          using R unresolved_refines [of evs "rs_tool_calls st" "ls_calls a" "[]"]
          by (auto simp: recovery_status_def log_status_for_def refines_def)
        from R rec code st spec Inr show ?thesis
          by (simp add: shows_log_def replay_approvals_def replay_errors_def refines_def
              those_map_Some map_Some_list_all2)
      qed
    qed
  qed
qed

lemma replay_Inl:
  "spec_log mode evs = Inl e \<Longrightarrow> replay_events_with_mode evs dr mode = Inl (ReplayErr e)"
  using replay_machine [of evs dr mode] by simp

lemma replay_Inr:
  "spec_log mode evs = Inr (rid, a) \<Longrightarrow>
     \<exists>r. replay_events_with_mode evs dr mode = Inr r \<and> rr_events r = evs
         \<and> shows_log r rid (log_status_for dr a) a"
  using replay_machine [of evs dr mode] by simp

lemma replay_accepts:
  "(\<exists>r. replay_events_with_mode evs dr mode = Inr r) \<longleftrightarrow> (\<exists>x. spec_log mode evs = Inr x)"
  using replay_machine [of evs dr mode] by (auto split: sum.splits)

lemma replay_Inr_D:
  assumes "replay_events_with_mode evs dr mode = Inr r"
  obtains rid a where "spec_log mode evs = Inr (rid, a)" "rr_events r = evs"
    "shows_log r rid (log_status_for dr a) a"
  using replay_machine [of evs dr mode] assms by (cases "spec_log mode evs") auto

section \<open>Properties\<close>

text \<open>
  C8. Replay implements the abstract meaning of a log: on every list of events, in every mode,
  it returns the error of the abstract machine (the same constructor at the same event), or a
  replay that shows exactly the abstract run: its run id, status, tool calls with their turn,
  approval, decision and result, its approvals and errors.
\<close>
theorem replay_implements_log_machine:
  "case spec_log mode evs of
     Inl e \<Rightarrow> replay_events_with_mode evs detect_recovery mode = Inl (ReplayErr e)
   | Inr (rid, a) \<Rightarrow>
       (\<exists>r. replay_events_with_mode evs detect_recovery mode = Inr r \<and> rr_events r = evs
            \<and> shows_log r rid (log_status_for detect_recovery a) a)"
  by (rule replay_machine)

text \<open>
  C29. No branch of replay that panics (an index out of range, an \<open>expect\<close>, an \<open>unreachable!\<close>) is
  reachable: whatever the events, replay returns an error value or a replay whose accessors
  yield every tool call, approval and error without panicking.
\<close>
theorem replay_never_panics:
  "case replay_events_with_mode evs detect_recovery mode of
     Inl f \<Rightarrow> f \<noteq> ReplayPanic
   | Inr r \<Rightarrow> replay_approvals r \<noteq> None \<and> replay_errors r \<noteq> None
              \<and> list_all (\<lambda>ix. view (rr_events r) ix \<noteq> None) (rr_tool_calls r)"
proof (cases "spec_log mode evs")
  case (Inl e)
  from replay_Inl [OF this] show ?thesis by simp
next
  case (Inr x)
  obtain rid a where "x = (rid, a)" by (cases x)
  with Inr replay_Inr [of mode evs rid a detect_recovery] obtain r
    where r: "replay_events_with_mode evs detect_recovery mode = Inr r"
      and s: "shows_log r rid (log_status_for detect_recovery a) a" by blast
  from s have "set (map (view (rr_events r)) (rr_tool_calls r)) = set (map Some (ls_calls a))"
    by (simp only: shows_log_def)
  then have "view (rr_events r) ix \<noteq> None" if "ix \<in> set (rr_tool_calls r)" for ix
    using that by (metis (no_types, lifting) imageE imageI option.distinct(1) set_map)
  with r s show ?thesis by (simp add: shows_log_def list_all_iff)
qed

end
