(* ===== verification/Replay_Properties.thy ===== *)
theory Replay_Properties
  imports Replay_Refinement
begin

text \<open>
  What an accepted log is: the invariant of the abstract machine, and the properties of replay
  that follow from it through the refinement.
\<close>

section \<open>The invariant of the abstract machine\<close>

text \<open>
  A tool call as replay accepts it: a decision answers an approval request of this very call,
  a result belongs to the call, and an \<open>approval_denied\<close> failure appears exactly where the
  recorded decision is a denial.
\<close>

definition view_ok :: "replay_compatibility \<Rightarrow> 'v call_view \<Rightarrow> bool" where
  "view_ok mode v \<longleftrightarrow>
     (case cv_approval v of None \<Rightarrow> cv_decision v = None | Some q \<Rightarrow> ar_call q = cv_call v)
     \<and> (case cv_result v of
          None \<Rightarrow> True
        | Some w \<Rightarrow>
            tr_call_id w = tc_id (cv_call v)
            \<and> (case cv_decision v of
                 Some (Deny reason) \<Rightarrow> canonical_denial reason (tr_output w)
               | Some Approve \<Rightarrow> \<not> is_denied_code (tr_output w)
               | None \<Rightarrow> if cv_approval v = None then \<not> is_denied_code (tr_output w)
                         else mode = LegacyApprovalWithoutResolution))"

definition log_ok :: "replay_compatibility \<Rightarrow> 'v log_state \<Rightarrow> bool" where
  "log_ok mode a \<longleftrightarrow>
     list_all (view_ok mode) (ls_calls a)
     \<and> distinct (map (tc_id \<circ> cv_call) (ls_calls a))
     \<and> (case ls_finished a of
          Some s \<Rightarrow> \<not> needs_resolved_calls s \<or> unresolved (ls_calls a) = []
        | None \<Rightarrow> True)"

lemma log_ok_init: "log_ok mode init_log_state"
  by (simp add: log_ok_def init_log_state_def)

lemma list_all_update: "list_all p xs \<Longrightarrow> p y \<Longrightarrow> list_all p (xs[i := y])"
  using set_update_subset_insert [of xs i y] by (auto simp: list_all_iff)

lemma log_ok_call:
  "log_ok mode a \<Longrightarrow> i < length (ls_calls a) \<Longrightarrow> view_ok mode (ls_calls a ! i)"
  by (simp add: log_ok_def list_all_length)

lemma map_update_id: "i < length xs \<Longrightarrow> f y = f (xs ! i) \<Longrightarrow> map f (xs[i := y]) = map f xs"
  by (metis list_update_id map_update nth_map)

lemma log_ok_update:
  assumes "log_ok mode a" and "ls_finished a = None" and "i < length (ls_calls a)"
    and "view_ok mode v" and "cv_call v = cv_call (ls_calls a ! i)"
    and "ls_calls a' = (ls_calls a)[i := v]" and "ls_finished a' = None"
  shows "log_ok mode a'"
  using assms by (simp add: log_ok_def list_all_update map_update_id)

lemma spec_event_ok:
  assumes ok: "log_ok mode a" and fin: "ls_finished a = None"
    and step: "spec_event mode n ev a = Inr a'"
  shows "log_ok mode a'"
proof (cases ev)
  case (TurnStarted r t s x)
  with step ok fin show ?thesis
    by (auto simp: spec_event_def spec_turn_started_def log_ok_def split: if_splits)
next
  case (ToolCallRequested r t m c s x)
  with step have n: "find_index (call_has_id (tc_id c)) (ls_calls a) = None"
    and a': "a' = a\<lparr>ls_calls := ls_calls a @ [new_call t c]\<rparr>"
    by (auto simp: spec_event_def try_res_Inr spec_requested_def split: if_splits)
  from n have "tc_id c \<notin> (tc_id \<circ> cv_call) ` set (ls_calls a)"
    by (auto simp: find_index_None call_has_id_def)
  with ok fin show ?thesis
    by (simp add: a' log_ok_def new_call_def view_ok_def)
next
  case (ApprovalRequested r t q s x)
  with step obtain i where
    i: "find_index (call_has_id (tc_id (ar_call q))) (ls_calls a) = Some i"
    and g: "cv_call (ls_calls a ! i) = ar_call q" "cv_result (ls_calls a ! i) = None"
    and a': "ls_calls a' = (ls_calls a)[i := (ls_calls a ! i)\<lparr>cv_approval := Some q\<rparr>]"
      "ls_finished a' = ls_finished a"
    by (auto simp: spec_event_def try_res_Inr spec_approval_def Let_def split: option.splits if_splits)
  from find_index_SomeD [OF i] g a' fin show ?thesis
    by (intro log_ok_update [OF ok fin _ _ _ a'(1)]) (auto simp: view_ok_def)
next
  case (ApprovalResolved r t aid d s x)
  with step obtain i where
    i: "find_index (call_has_approval aid) (ls_calls a) = Some i"
    and g: "cv_result (ls_calls a ! i) = None"
    and a': "ls_calls a' = (ls_calls a)[i := (ls_calls a ! i)\<lparr>cv_decision := Some d\<rparr>]"
      "ls_finished a' = ls_finished a"
    by (auto simp: spec_event_def try_res_Inr spec_resolved_def Let_def split: option.splits if_splits)
  from find_index_SomeD [OF i] have li: "i < length (ls_calls a)"
    and "cv_approval (ls_calls a ! i) \<noteq> None"
    by (auto simp: call_has_approval_def split: option.splits)
  with log_ok_call [OF ok li] g have "view_ok mode ((ls_calls a ! i)\<lparr>cv_decision := Some d\<rparr>)"
    by (auto simp: view_ok_def split: option.splits)
  with li a' fin show ?thesis
    by (intro log_ok_update [OF ok fin _ _ _ a'(1)]) simp_all
next
  case (ToolResultEvent r t w s x)
  with step obtain i fmt where
    i: "find_index (call_has_id (tr_call_id w)) (ls_calls a) = Some i"
    and g: "check_decision mode n w (cv_decision (ls_calls a ! i))
        (cv_approval (ls_calls a ! i) \<noteq> None) (ls_format a) = Inr fmt"
    and a': "ls_calls a' = (ls_calls a)[i := (ls_calls a ! i)\<lparr>cv_result := Some w\<rparr>]"
      "ls_finished a' = ls_finished a"
    by (auto simp: spec_event_def try_res_Inr spec_result_eq Let_def split: option.splits if_splits)
  from find_index_SomeD [OF i] have li: "i < length (ls_calls a)"
    and id: "tc_id (cv_call (ls_calls a ! i)) = tr_call_id w"
    by (auto simp: call_has_id_def)
  from g log_ok_call [OF ok li] id have "view_ok mode ((ls_calls a ! i)\<lparr>cv_result := Some w\<rparr>)"
    by (cases mode) (auto simp: view_ok_def check_decision_def
        split: option.splits approval_decision.splits if_splits)
  with li a' fin show ?thesis
    by (intro log_ok_update [OF ok fin _ _ _ a'(1)]) simp_all
next
  case (ErrorEvent r t e s x)
  with step ok fin show ?thesis
    by (cases t) (auto simp: spec_event_def try_res_Inr log_ok_def)
next
  case (RunFinished r w s x)
  with step ok show ?thesis
    by (auto simp: spec_event_def spec_finished_def log_ok_def split: if_splits)
qed (use step ok in \<open>auto simp: spec_event_def try_res_Inr\<close>)

lemma spec_run_ok: "log_ok mode a \<Longrightarrow> spec_run mode rid n evs a = Inr a' \<Longrightarrow> log_ok mode a'"
  by (induction evs arbitrary: n a)
    (auto simp: try_res_Inr spec_step_def intro: spec_event_ok split: if_splits)

lemma spec_log_cases:
  assumes "spec_log mode evs = Inr (rid, a)"
  obtains s x rest where "evs = RunStarted rid s x # rest"
    "spec_run mode rid 2 rest init_log_state = Inr a"
  using assms
  by (auto simp: spec_log_def try_res_Inr split: list.splits agent_event.splits option.splits)

lemma spec_log_ok: "spec_log mode evs = Inr (rid, a) \<Longrightarrow> log_ok mode a"
  by (metis spec_log_cases spec_run_ok log_ok_init)

text \<open>The finished flag: it is set by the last event only.\<close>

lemma spec_event_finished:
  "spec_event mode n ev a = Inr a' \<Longrightarrow>
     ls_finished a' = (case ev of RunFinished _ s _ _ \<Rightarrow> Some s | _ \<Rightarrow> ls_finished a)"
  by (cases ev)
    (auto simp: spec_event_def try_res_Inr spec_turn_started_def spec_requested_def
      spec_approval_def spec_resolved_def spec_result_eq spec_finished_def Let_def
      split: option.splits if_splits)

lemma spec_run_finished:
  "spec_run mode rid n evs a = Inr a' \<Longrightarrow> evs \<noteq> [] \<Longrightarrow>
     ls_finished a' = (case last evs of RunFinished _ s _ _ \<Rightarrow> Some s | _ \<Rightarrow> None)"
proof (induction evs arbitrary: n a)
  case (Cons ev evs)
  from Cons.prems obtain a1 where s: "spec_step mode rid n ev a = Inr a1"
    and r: "spec_run mode rid (Suc n) evs a1 = Inr a'" by (auto simp: try_res_Inr)
  from s have "ls_finished a1 = (case ev of RunFinished _ s _ _ \<Rightarrow> Some s | _ \<Rightarrow> None)"
    using spec_event_finished [of mode n ev a a1]
    by (auto simp: spec_step_def split: if_splits agent_event.splits)
  with Cons.IH [OF r] r show ?case by (cases "evs = []") simp_all
qed simp

lemma spec_run_run_id:
  "spec_run mode rid n evs a = Inr a' \<Longrightarrow> list_all (\<lambda>ev. event_run_id ev = rid) evs"
  by (induction evs arbitrary: n a) (auto simp: try_res_Inr spec_step_def split: if_splits)

lemma terminal_status_shown:
  "shows_log r rid (log_status_for dr a) a \<Longrightarrow> terminal_status_of r = ls_finished a"
  by (auto simp: terminal_status_of_def shows_log_def log_status_for_def log_status_def
      split: option.splits)

lemma find_map_None: "find_map f xs = None \<longleftrightarrow> (\<forall>x \<in> set xs. f x = None)"
  by (induction xs) (auto split: option.splits)

lemma first_sequenced_None:
  "first_sequenced evs = None \<longleftrightarrow> list_all (\<lambda>e. event_sequence_of e = None) evs"
proof -
  have "(\<forall>x \<in> set (enumerate n evs). (\<lambda>(i, e). if event_sequence_of e \<noteq> None then Some i else None) x = None)
      \<longleftrightarrow> list_all (\<lambda>e. event_sequence_of e = None) evs" for n
    by (induction evs arbitrary: n) auto
  then show ?thesis by (simp only: first_sequenced_def find_map_None)
qed

lemma first_sequenced_take: "first_sequenced evs = None \<Longrightarrow> first_sequenced (take k evs) = None"
  by (auto simp: first_sequenced_None list_all_iff dest: in_set_takeD)

section \<open>A sample log\<close>

definition sample_call :: "nat tool_call" where
  "sample_call = \<lparr>tc_id = ToolCallId [7], tc_tool_name = [8], tc_arguments = 0\<rparr>"

definition sample_approval :: "nat approval_request" where
  "sample_approval = \<lparr>ar_id = [9], ar_call = sample_call, ar_reason = [10]\<rparr>"

definition sample_result :: "nat tool_result" where
  "sample_result = \<lparr>tr_call_id = ToolCallId [7], tr_output = Failure
     \<lparr>te_code = lit ''approval_denied'', te_message = [11], te_retryable = False\<rparr> []\<rparr>"

definition sample_log :: "nat agent_event list" where
  "sample_log =
     [RunStarted (RunId [1]) None [],
      TurnStarted (RunId [1]) (TurnId [2]) None [],
      ToolCallRequested (RunId [1]) (TurnId [2]) (ModelToolCallId [3]) sample_call None [],
      ApprovalRequested (RunId [1]) (TurnId [2]) sample_approval None [],
      ApprovalResolved (RunId [1]) (TurnId [2]) [9] (Deny [11]) None [],
      ToolResultEvent (RunId [1]) (TurnId [2]) sample_result None [],
      RunFinished (RunId [1]) (Completed [4]) None []]"

definition sample_replay :: "nat run_replay" where
  "sample_replay =
     \<lparr>rr_run_id = RunId [1], rr_status = Finished (Completed [4]), rr_events = sample_log,
      rr_tool_calls = [\<lparr>requested_event = 2, approval_event = Some 3,
        approval_resolution_event = Some 4, result_event = Some 5\<rparr>],
      rr_approvals = [3], rr_errors = []\<rparr>"

lemma sample_log_accepted: "replay_events sample_log = Inr sample_replay"
  by code_simp

lemma sample_log_accepted_mode: "replay_events_with_mode sample_log False Strict = Inr sample_replay"
  using sample_log_accepted by (simp add: replay_events_def)

section \<open>Properties\<close>

text \<open>
  A replayed run is finished exactly when the last event of its log is the terminal one, and
  then with the status that event carries; every event of the log carries the run id of the
  first one.
\<close>
theorem replay_terminal_status:
  assumes "replay_events_with_mode evs detect_recovery mode = Inr r"
  shows "terminal_status_of r = (case last evs of RunFinished _ s _ _ \<Rightarrow> Some s | _ \<Rightarrow> None)
         \<and> list_all (\<lambda>ev. event_run_id ev = rr_run_id r) evs"
proof -
  from replay_Inr_D [OF assms] obtain rid a where l: "spec_log mode evs = Inr (rid, a)"
    and sh: "shows_log r rid (log_status_for detect_recovery a) a" by metis
  from spec_log_cases [OF l] obtain s x rest where evs: "evs = RunStarted rid s x # rest"
    and run: "spec_run mode rid 2 rest init_log_state = Inr a" .
  have "ls_finished a = (case last evs of RunFinished _ s _ _ \<Rightarrow> Some s | _ \<Rightarrow> None)"
    using spec_run_finished [OF run] run evs by (cases "rest = []") (auto simp: init_log_state_def)
  with terminal_status_shown [OF sh] spec_run_run_id [OF run] sh evs show ?thesis
    by (simp add: shows_log_def)
qed

theorem replay_terminal_status_witness:
  "terminal_status_of sample_replay = Some (Completed [4])"
  using replay_terminal_status [OF sample_log_accepted_mode] by (simp add: sample_log_def)

text \<open>
  C30. The tool calls of a replay are consistent: their ids are distinct; a decision answers a
  request for this very call; a result carries the id of its call; in strict mode a result after
  an approval request has a recorded decision; an \<open>approval_denied\<close> failure is accepted only for
  a denial, with exactly the denied reason, and a denied call has no other result.
\<close>
theorem replayed_calls_consistent:
  assumes "replay_events_with_mode evs detect_recovery mode = Inr r"
  shows "\<exists>vs. map (view evs) (rr_tool_calls r) = map Some vs \<and> list_all (view_ok mode) vs
             \<and> distinct (map (tc_id \<circ> cv_call) vs)"
proof -
  from replay_Inr_D [OF assms] obtain rid a where "spec_log mode evs = Inr (rid, a)"
    and e: "rr_events r = evs" and "shows_log r rid (log_status_for detect_recovery a) a" by metis
  with spec_log_ok [of mode evs rid a] show ?thesis
    unfolding shows_log_def log_ok_def e by blast
qed

theorem replayed_calls_consistent_witness:
  "\<exists>vs. map (view sample_log) (rr_tool_calls sample_replay) = map Some vs \<and> list_all (view_ok Strict) vs
        \<and> distinct (map (tc_id \<circ> cv_call) vs)"
  by (rule replayed_calls_consistent [OF sample_log_accepted_mode])

text \<open>
  C31. A run that replays as completed or failed has a result for every tool call it requested.
\<close>
theorem replayed_terminal_run_is_resolved:
  assumes "replay_events_with_mode evs detect_recovery mode = Inr r"
    and "terminal_status_of r = Some s" and "needs_resolved_calls s"
  shows "list_all (\<lambda>ix. \<exists>w. replayed_result evs ix = Some (Some w)) (rr_tool_calls r)"
proof -
  from replay_Inr_D [OF assms(1)] obtain rid a where l: "spec_log mode evs = Inr (rid, a)"
    and e: "rr_events r = evs" and sh: "shows_log r rid (log_status_for detect_recovery a) a" by metis
  from terminal_status_shown [OF sh] assms(2) have "ls_finished a = Some s" by simp
  with assms(3) spec_log_ok [OF l] have "unresolved (ls_calls a) = []" by (simp add: log_ok_def)
  then have res: "\<forall>v \<in> set (ls_calls a). cv_result v \<noteq> None"
    by (simp add: unresolved_def filter_empty_conv)
  from sh e have m: "map (view evs) (rr_tool_calls r) = map Some (ls_calls a)"
    by (simp add: shows_log_def)
  show ?thesis unfolding list_all_iff
  proof
    fix ix assume "ix \<in> set (rr_tool_calls r)"
    then have "view evs ix \<in> Some ` set (ls_calls a)"
      using arg_cong [OF m, of set] by auto
    then show "\<exists>w. replayed_result evs ix = Some (Some w)"
      using res by (auto simp: view_Some)
  qed
qed

theorem replayed_terminal_run_is_resolved_witness:
  "list_all (\<lambda>ix. \<exists>w. replayed_result sample_log ix = Some (Some w)) (rr_tool_calls sample_replay)"
  by (rule replayed_terminal_run_is_resolved [OF sample_log_accepted_mode, of "Completed [4]"])
    (simp_all add: sample_replay_def terminal_status_of_def)

text \<open>
  Acceptance is closed under prefixes: every non-empty prefix of a log that replays also
  replays, so a log can be replayed at any moment of the run that writes it.
\<close>
theorem replay_prefix_closed:
  assumes "replay_events_with_mode evs detect_recovery mode = Inr r" and "0 < k"
  shows "\<exists>r'. replay_events_with_mode (take k evs) detect_recovery mode = Inr r'
              \<and> rr_run_id r' = rr_run_id r"
proof -
  from replay_Inr_D [OF assms(1)] obtain rid a where l: "spec_log mode evs = Inr (rid, a)"
    and id: "rr_run_id r = rid" by (metis shows_log_def)
  from spec_log_cases [OF l] obtain s x rest where evs: "evs = RunStarted rid s x # rest"
    and run: "spec_run mode rid 2 rest init_log_state = Inr a" .
  from assms(2) obtain m where k: "k = Suc m" by (cases k) auto
  from run have "spec_run mode rid 2 (take m rest @ drop m rest) init_log_state = Inr a" by simp
  then obtain a' where a': "spec_run mode rid 2 (take m rest) init_log_state = Inr a'"
    unfolding spec_run_append try_res_Inr by blast
  have "first_sequenced (take k evs) = None" if "first_sequenced evs = None"
    using that by (rule first_sequenced_take)
  with a' l have "spec_log mode (take k evs) = Inr (rid, a')"
    by (auto simp: spec_log_def evs k split: option.splits if_splits)
  from replay_Inr [OF this] id show ?thesis by (metis shows_log_def)
qed

theorem replay_prefix_closed_witness:
  "\<exists>r'. replay_events_with_mode (take 3 sample_log) False Strict = Inr r'
        \<and> rr_run_id r' = rr_run_id sample_replay"
  by (rule replay_prefix_closed [OF sample_log_accepted_mode]) simp


text \<open>
  Replay for recovery is strict replay with one difference: where the status would be running
  although tool calls are without a result, it is \<open>RecoveryRequired\<close> with the ids of exactly those
  calls, in request order. The calls, approvals, errors and the errors returned are the same.
\<close>
theorem recovery_replay_marks_unresolved_calls:
  "case replay_events evs of
     Inl e \<Rightarrow> replay_events_for_recovery evs = Inl e
   | Inr r \<Rightarrow>
       (\<exists>ids. unresolved_call_ids evs (rr_tool_calls r) = Inr ids
              \<and> replay_events_for_recovery evs =
                  Inr (if rr_status r = Running \<and> ids \<noteq> []
                       then r\<lparr>rr_status := RecoveryRequired ids\<rparr> else r))"
proof (cases "replay_events evs")
  case (Inl e)
  then show ?thesis
    by (auto simp: replay_events_def replay_events_for_recovery_def replay_events_with_mode_def
        try_res_Inl recovery_status_def)
next
  case (Inr r)
  then obtain rid a where e: "rr_events r = evs" and "shows_log r rid (log_status_for False a) a"
    unfolding replay_events_def by (metis replay_Inr_D)
  then have "map (view evs) (rr_tool_calls r) = map Some (ls_calls a)" by (simp add: shows_log_def)
  then have "list_all2 (\<lambda>ix v. view evs ix = Some v) (rr_tool_calls r) (ls_calls a)"
    by (simp add: list_all2_conv_all_nth list_eq_iff_nth_eq)
  from unresolved_refines [OF this, of "[]"]
  have u: "unresolved_call_ids evs (rr_tool_calls r) = Inr (unresolved (ls_calls a))" by simp
  with Inr show ?thesis
    by (auto simp: replay_events_def replay_events_for_recovery_def replay_events_with_mode_def
        try_res_Inr recovery_status_def)
qed

text \<open>Strict replay never sees a legacy approval, so the legacy branches change nothing.\<close>

lemma strict_step_legacy:
  assumes "replay_step Strict rid evs i ev st = Inr st'" and "rs_format st \<noteq> Legacy"
  shows "replay_step LegacyApprovalWithoutResolution rid evs i ev st = Inr st' \<and> rs_format st' \<noteq> Legacy"
proof -
  from assms(1) obtain st1 where run: "\<not> rs_finished st" "event_run_id ev = rid"
    and turn: "check_turn evs (i + 1) ev st = Inr st1"
    and ap: "apply_event Strict evs i (i + 1) ev st1 = Inr st'"
    by (auto simp: replay_step_def Let_def try_res_Inr split: if_splits)
  from turn assms(2) have f: "rs_format st1 \<noteq> Legacy"
    by (auto simp: check_turn_def on_turn_started_def try_res_Inr Let_def
        split: agent_event.splits option.splits if_splits)
  have settle: "rs_format (settle_pending j u) = rs_format u" for j u
    by (simp add: settle_pending_def Let_def)
  have dec: "check_decision LegacyApprovalWithoutResolution n w d h fmt = Inr f' \<and> (fmt \<noteq> Legacy \<longrightarrow> f' \<noteq> Legacy)"
    if "check_decision Strict n w d h fmt = Inr f'" for n w d h fmt f'
    using that by (auto simp: check_decision_def split: option.splits approval_decision.splits if_splits)
  from ap f have "apply_event LegacyApprovalWithoutResolution evs i (i + 1) ev st1 = Inr st'
      \<and> rs_format st' \<noteq> Legacy"
  proof (cases ev)
    case (ToolResultEvent r t w s x)
    with ap f show ?thesis
      by (auto simp: apply_event_def on_tool_result_def try_res_Inr settle dest!: dec
          split: option.splits if_splits)
  next
    case (ApprovalResolved r t aid d s x)
    with ap f show ?thesis
      by (auto simp: apply_event_def on_approval_resolved_def try_res_Inr settle
          split: option.splits if_splits)
  qed (auto simp: apply_event_def on_tool_call_requested_def on_approval_requested_def
      on_run_finished_def try_res_Inr split: option.splits if_splits)
  with run turn show ?thesis by (simp add: replay_step_def Let_def)
qed

lemma strict_fold_legacy:
  "replay_from Strict rid evs i rest st = Inr st' \<Longrightarrow> rs_format st \<noteq> Legacy \<Longrightarrow>
     replay_from LegacyApprovalWithoutResolution rid evs i rest st = Inr st'"
proof (induction rest arbitrary: i st)
  case (Cons ev rest)
  then show ?case using strict_step_legacy [of rid evs i ev st] by (auto simp: try_res_Inr)
qed simp

text \<open>
  Compatibility mode only widens acceptance: a log without event sequences that strict replay
  accepts replays to the identical result in the legacy mode.
\<close>
theorem legacy_mode_extends_strict:
  assumes "replay_events evs = Inr r" and "first_sequenced evs = None"
  shows "replay_events_with_compatibility evs LegacyApprovalWithoutResolution = Inr r"
  using assms
  by (auto simp: replay_events_def replay_events_with_compatibility_def replay_events_with_mode_def
      try_res_Inr init_replay_state_def dest!: strict_fold_legacy)

theorem legacy_mode_extends_strict_witness:
  "replay_events_with_compatibility sample_log LegacyApprovalWithoutResolution = Inr sample_replay"
  by (rule legacy_mode_extends_strict [OF sample_log_accepted])
    (simp add: first_sequenced_None sample_log_def)

end
