(* ===== verification/Run_Log.thy ===== *)
theory Run_Log
  imports Event_Sink Replay_Properties Tool_Dispatcher
begin

text \<open>
  The canonical log a run writes. The first part says which abstract states of a log the runtime
  passes through and which event it may append in each; the second, in the locale \<open>agent_run\<close> of
  a dispatcher and a sink that keep their contracts, proves every operation of the runtime
  against these states.
\<close>

section \<open>The states of the log\<close>

lemma numbered_turn_inject [simp]: "numbered_turn_id i = numbered_turn_id j \<longleftrightarrow> i = j"
  by (simp add: numbered_turn_id_def)

lemma numbered_call_inject [simp]: "numbered_call_id r i = numbered_call_id r j \<longleftrightarrow> i = j"
  by (simp add: numbered_call_id_def)

lemma numbered_approval_inject [simp]:
  "numbered_approval_id r i = numbered_approval_id r j \<longleftrightarrow> i = j"
  by (simp add: numbered_approval_id_def)

text \<open>The ids of the calls and approvals seen so far are numbered within the counters.\<close>

definition call_numbered :: "run_id \<Rightarrow> nat \<Rightarrow> nat \<Rightarrow> 'v call_view \<Rightarrow> bool" where
  "call_numbered rid nc na v \<longleftrightarrow>
     (\<exists>i \<le> nc. tc_id (cv_call v) = numbered_call_id rid i)
     \<and> (case cv_approval v of
          Some q \<Rightarrow> (\<exists>i \<le> na. ar_id q = numbered_approval_id rid i) | None \<Rightarrow> True)"

definition turns_below :: "nat \<Rightarrow> 'v log_state \<Rightarrow> bool" where
  "turns_below k a \<longleftrightarrow> (\<forall>t \<in> ls_started a. \<exists>i < k. t = numbered_turn_id i)"

text \<open>Between two turns: nothing is open.\<close>

definition settled :: "run_id \<Rightarrow> nat \<Rightarrow> run_sequences \<Rightarrow> 'v log_state \<Rightarrow> bool" where
  "settled rid k sq a \<longleftrightarrow>
     ls_finished a = None \<and> unresolved (ls_calls a) = [] \<and> turns_below k a
     \<and> list_all (call_numbered rid (sq_tool_call sq) (sq_approval sq)) (ls_calls a)"

definition turn_open :: "nat \<Rightarrow> 'v log_state \<Rightarrow> bool" where
  "turn_open k a \<longleftrightarrow> numbered_turn_id k \<in> ls_started a \<and> ls_active a = Some (numbered_turn_id k)"

definition in_turn :: "run_id \<Rightarrow> nat \<Rightarrow> run_sequences \<Rightarrow> 'v log_state \<Rightarrow> bool" where
  "in_turn rid k sq a \<longleftrightarrow> settled rid (Suc k) sq a \<and> turn_open k a"

text \<open>
  Inside turn \<open>k\<close> with one open call \<open>v\<close>, the last one; the earlier calls have results.
\<close>

definition in_call ::
    "run_id \<Rightarrow> nat \<Rightarrow> run_sequences \<Rightarrow> 'v call_view \<Rightarrow> 'v log_state \<Rightarrow> bool" where
  "in_call rid k sq v a \<longleftrightarrow>
     (\<exists>vs. ls_calls a = vs @ [v] \<and> unresolved vs = []
        \<and> list_all (\<lambda>u. tc_id (cv_call u) \<noteq> tc_id (cv_call v)) vs
        \<and> (case cv_approval v of
             Some q \<Rightarrow> list_all (\<lambda>u. \<not> call_has_approval (ar_id q) u) vs | None \<Rightarrow> True)
        \<and> list_all (call_numbered rid (sq_tool_call sq) (sq_approval sq)) vs)
     \<and> ls_finished a = None \<and> turns_below (Suc k) a \<and> turn_open k a
     \<and> call_numbered rid (sq_tool_call sq) (sq_approval sq) v
     \<and> cv_turn v = numbered_turn_id k \<and> cv_result v = None"

lemma call_numbered_mono:
  "call_numbered rid nc na v \<Longrightarrow> nc \<le> nc' \<Longrightarrow> na \<le> na' \<Longrightarrow> call_numbered rid nc' na' v"
  by (fastforce simp: call_numbered_def split: option.splits)

lemma call_numbered_fresh:
  "call_numbered rid nc na v \<Longrightarrow> nc < i \<Longrightarrow> tc_id (cv_call v) \<noteq> numbered_call_id rid i"
  by (auto simp: call_numbered_def)

lemma approval_numbered_fresh:
  "call_numbered rid nc na v \<Longrightarrow> na < i \<Longrightarrow> \<not> call_has_approval (numbered_approval_id rid i) v"
  by (auto simp: call_numbered_def call_has_approval_def split: option.splits)

lemma unresolved_append [simp]: "unresolved (vs @ ws) = unresolved vs @ unresolved ws"
  by (simp add: unresolved_def)

lemma unresolved_Cons [simp]:
  "unresolved (v # vs) = (if cv_result v = None then [tc_id (cv_call v)] else []) @ unresolved vs"
  by (simp add: unresolved_def)

lemma unresolved_Nil [simp]: "unresolved [] = []"
  by (simp add: unresolved_def)

section \<open>The events the runtime appends\<close>

text \<open>
  \<open>appends rid I ev J\<close>: in every abstract state with \<open>I\<close> strict replay accepts \<open>ev\<close> and leads to a
  state with \<open>J\<close>.
\<close>

definition appends ::
    "run_id \<Rightarrow> ('v log_state \<Rightarrow> bool) \<Rightarrow> 'v agent_event \<Rightarrow> ('v log_state \<Rightarrow> bool) \<Rightarrow> bool" where
  "appends rid I ev J \<longleftrightarrow>
     (\<forall>a n q. I a \<longrightarrow> (\<exists>a'. spec_step Strict rid n (with_event_sequence q ev) a = Inr a' \<and> J a'))"

lemma appendsI:
  assumes "event_run_id ev = rid" and "\<And>a. I a \<Longrightarrow> ls_finished a = None"
    and "\<And>a n q. I a \<Longrightarrow> \<exists>a'. spec_event Strict n (with_event_sequence q ev) a = Inr a' \<and> J a'"
  shows "appends rid I ev J"
  using assms by (simp add: appends_def spec_step_def)

lemma spec_check_active_open:
  "turn_open k a \<Longrightarrow> spec_check_active n (numbered_turn_id k) a = Inr ()"
  by (simp add: spec_check_active_def turn_open_def)

lemma appends_turn:
  "appends rid (settled rid k sq) (TurnStarted rid (numbered_turn_id k) None []) (in_turn rid k sq)"
  by (rule appendsI)
    (auto simp: settled_def spec_event_def spec_turn_started_def in_turn_def turns_below_def
      turn_open_def less_Suc_eq)

lemma appends_output:
  "appends rid (in_turn rid k sq) (ModelOutput rid (numbered_turn_id k) me None []) (in_turn rid k sq)"
  by (rule appendsI)
    (auto simp: in_turn_def settled_def spec_event_def spec_check_active_open)

lemma appends_turn_error:
  "appends rid (in_turn rid k sq) (ErrorEvent rid (Some (numbered_turn_id k)) e None [])
     (in_turn rid k sq)"
  by (rule appendsI)
    (auto simp: in_turn_def settled_def spec_event_def spec_check_active_open turns_below_def
      turn_open_def)

lemma appends_run_error:
  "appends rid (settled rid k sq) (ErrorEvent rid None e None []) (settled rid k sq)"
  by (rule appendsI) (auto simp: settled_def spec_event_def turns_below_def)

lemma appends_requested:
  assumes "i = Suc (sq_tool_call sq)" and "tc_id call = numbered_call_id rid i"
  shows "appends rid (in_turn rid k sq)
    (ToolCallRequested rid (numbered_turn_id k) m call None [])
    (in_call rid k (sq\<lparr>sq_tool_call := i\<rparr>) (new_call (numbered_turn_id k) call))"
proof (rule appendsI)
  fix a :: "'a log_state" and n q
  assume a: "in_turn rid k sq a"
  then have num: "\<forall>v \<in> set (ls_calls a). call_numbered rid (sq_tool_call sq) (sq_approval sq) v"
    and act: "turn_open k a"
    by (auto simp: in_turn_def settled_def list_all_iff)
  from num assms have fresh: "\<forall>v \<in> set (ls_calls a). tc_id (cv_call v) \<noteq> tc_id call"
    using call_numbered_fresh by fastforce
  then have "find_index (call_has_id (tc_id call)) (ls_calls a) = None"
    by (simp add: find_index_None call_has_id_def)
  moreover have "in_call rid k (sq\<lparr>sq_tool_call := i\<rparr>) (new_call (numbered_turn_id k) call)
      (a\<lparr>ls_calls := ls_calls a @ [new_call (numbered_turn_id k) call]\<rparr>)"
    using a num fresh assms
    by (auto simp: in_call_def in_turn_def settled_def new_call_def list_all_iff turns_below_def
        turn_open_def intro: call_numbered_mono)
      (auto simp: call_numbered_def)
  ultimately show "\<exists>a'. spec_event Strict n
      (with_event_sequence q (ToolCallRequested rid (numbered_turn_id k) m call None [])) a = Inr a'
      \<and> in_call rid k (sq\<lparr>sq_tool_call := i\<rparr>) (new_call (numbered_turn_id k) call) a'"
    by (simp add: spec_event_def spec_check_active_open [OF act] spec_requested_def)
qed (auto simp: in_turn_def settled_def)

lemma in_call_find:
  assumes "in_call rid k sq v a"
  obtains vs where "ls_calls a = vs @ [v]"
    "find_index (call_has_id (tc_id (cv_call v))) (ls_calls a) = Some (length vs)"
    "\<And>q. cv_approval v = Some q \<Longrightarrow>
       find_index (call_has_approval (ar_id q)) (ls_calls a) = Some (length vs)"
proof -
  from assms obtain vs where vs: "ls_calls a = vs @ [v]"
    and ids: "list_all (\<lambda>u. tc_id (cv_call u) \<noteq> tc_id (cv_call v)) vs"
    and aps: "case cv_approval v of
             Some q \<Rightarrow> list_all (\<lambda>u. \<not> call_has_approval (ar_id q) u) vs | None \<Rightarrow> True"
    unfolding in_call_def by blast
  from ids have "find_index (call_has_id (tc_id (cv_call v))) vs = None"
    by (simp add: find_index_None call_has_id_def list_all_iff)
  moreover have "find_index (call_has_approval (ar_id q)) vs = None" if "cv_approval v = Some q" for q
    using aps that by (simp add: find_index_None list_all_iff)
  ultimately show thesis
    using vs that [of vs] by (simp add: find_index_append call_has_id_def call_has_approval_def)
qed

lemma in_call_turn: "in_call rid k sq v a \<Longrightarrow> turn_open k a"
  by (simp add: in_call_def)

lemma appends_approval:
  assumes v: "cv_call v = call" "cv_approval v = None" "cv_decision v = None"
    and q: "ar_call q = call" "ar_id q = numbered_approval_id rid i" "i = Suc (sq_approval sq)"
  shows "appends rid (in_call rid k sq v)
    (ApprovalRequested rid (numbered_turn_id k) q None [])
    (in_call rid k (sq\<lparr>sq_approval := i\<rparr>) (v\<lparr>cv_approval := Some q\<rparr>))"
proof (rule appendsI)
  fix a :: "'a log_state" and n s
  assume a: "in_call rid k sq v a"
  from in_call_find [OF a] obtain vs where vs: "ls_calls a = vs @ [v]"
    and f: "find_index (call_has_id (tc_id (cv_call v))) (ls_calls a) = Some (length vs)" by metis
  from a vs have num: "list_all (call_numbered rid (sq_tool_call sq) (sq_approval sq)) vs"
    by (auto simp: in_call_def)
  have fresh: "list_all (\<lambda>u. \<not> call_has_approval (ar_id q) u) vs"
    using num approval_numbered_fresh [of rid "sq_tool_call sq" "sq_approval sq" _ i] q
    by (auto simp: list_all_iff)
  then have "find_index (call_has_approval (ar_id q)) (ls_calls a) = None"
    by (simp add: vs find_index_None list_all_iff call_has_approval_def v)
  moreover have "in_call rid k (sq\<lparr>sq_approval := i\<rparr>) (v\<lparr>cv_approval := Some q\<rparr>)
      (a\<lparr>ls_calls := vs @ [v\<lparr>cv_approval := Some q\<rparr>], ls_approvals := ls_approvals a @ [q]\<rparr>)"
  proof -
    have "list_all (call_numbered rid (sq_tool_call sq) i) vs"
      using num q by (auto simp: list_all_iff intro: call_numbered_mono)
    with a vs fresh q v show ?thesis
      by (auto simp: in_call_def turns_below_def turn_open_def call_numbered_def)
  qed
  ultimately show "\<exists>a'. spec_event Strict n
      (with_event_sequence s (ApprovalRequested rid (numbered_turn_id k) q None [])) a = Inr a'
      \<and> in_call rid k (sq\<lparr>sq_approval := i\<rparr>) (v\<lparr>cv_approval := Some q\<rparr>) a'"
    using a vs f v q
    by (simp add: spec_event_def spec_check_active_open [OF in_call_turn [OF a]] spec_approval_def
        Let_def in_call_def)
qed (auto simp: in_call_def)

lemma appends_resolved:
  assumes v: "cv_approval v = Some q" "cv_decision v = None"
  shows "appends rid (in_call rid k sq v)
    (ApprovalResolved rid (numbered_turn_id k) (ar_id q) d None [])
    (in_call rid k sq (v\<lparr>cv_decision := Some d\<rparr>))"
proof (rule appendsI)
  fix a :: "'a log_state" and n s
  assume a: "in_call rid k sq v a"
  from in_call_find [OF a] v obtain vs where vs: "ls_calls a = vs @ [v]"
    and f: "find_index (call_has_approval (ar_id q)) (ls_calls a) = Some (length vs)" by metis
  have "in_call rid k sq (v\<lparr>cv_decision := Some d\<rparr>)
      (a\<lparr>ls_calls := vs @ [v\<lparr>cv_decision := Some d\<rparr>], ls_format := Resolved\<rparr>)"
    using a vs by (auto simp: in_call_def turns_below_def turn_open_def call_numbered_def)
  then show "\<exists>a'. spec_event Strict n
      (with_event_sequence s (ApprovalResolved rid (numbered_turn_id k) (ar_id q) d None [])) a = Inr a'
      \<and> in_call rid k sq (v\<lparr>cv_decision := Some d\<rparr>) a'"
    using a vs f v
    by (simp add: spec_event_def spec_check_active_open [OF in_call_turn [OF a]] spec_resolved_def
        Let_def in_call_def)
qed (auto simp: in_call_def)

text \<open>The outputs that strict replay accepts after the recorded decision.\<close>

definition output_fits :: "'v call_view \<Rightarrow> 'v tool_output \<Rightarrow> bool" where
  "output_fits v out \<longleftrightarrow>
     (case cv_decision v of
        Some (Deny reason) \<Rightarrow> canonical_denial reason out
      | Some Approve \<Rightarrow> \<not> is_denied_code out
      | None \<Rightarrow> cv_approval v = None \<and> \<not> is_denied_code out)"

lemma output_fits_denied: "cv_decision v = Some (Deny r) \<Longrightarrow> output_fits v (approval_denied_output r)"
  by (simp add: output_fits_def canonical_denial_def approval_denied_output_def)

lemma appends_result:
  assumes w: "tr_call_id w = tc_id (cv_call v)" "output_fits v (tr_output w)"
  shows "appends rid (in_call rid k sq v)
    (ToolResultEvent rid (numbered_turn_id k) w None []) (in_turn rid k sq)"
proof (rule appendsI)
  fix a :: "'a log_state" and n s
  assume a: "in_call rid k sq v a"
  from in_call_find [OF a] obtain vs where vs: "ls_calls a = vs @ [v]"
    and f: "find_index (call_has_id (tc_id (cv_call v))) (ls_calls a) = Some (length vs)" by metis
  have d: "check_decision Strict n w (cv_decision v) (cv_approval v \<noteq> None) (ls_format a)
      = Inr (ls_format a)"
    using w(2)
    by (auto simp: output_fits_def check_decision_def split: option.splits approval_decision.splits)
  have "in_turn rid k sq (a\<lparr>ls_calls := vs @ [v\<lparr>cv_result := Some w\<rparr>]\<rparr>)"
    using a vs
    by (auto simp: in_call_def in_turn_def settled_def turns_below_def turn_open_def
        call_numbered_def)
  then show "\<exists>a'. spec_event Strict n
      (with_event_sequence s (ToolResultEvent rid (numbered_turn_id k) w None [])) a = Inr a'
      \<and> in_turn rid k sq a'"
    using a vs f d w
    by (simp add: spec_event_def spec_check_active_open [OF in_call_turn [OF a]] spec_result_eq
        Let_def in_call_def)
qed (auto simp: in_call_def)

definition may_finish :: "('v log_state \<Rightarrow> bool) \<Rightarrow> terminal_run_status \<Rightarrow> bool" where
  "may_finish I s \<longleftrightarrow>
     (\<forall>a. I a \<longrightarrow> ls_finished a = None \<and> (needs_resolved_calls s \<longrightarrow> unresolved (ls_calls a) = []))"

lemma may_finish_settled [intro]: "may_finish (settled rid k sq) s" "may_finish (in_turn rid k sq) s"
  by (simp_all add: may_finish_def settled_def in_turn_def)

lemma may_finish_stop [intro]: "is_stop_status s \<Longrightarrow> may_finish (in_call rid k sq v) s"
  by (cases s) (simp_all add: may_finish_def in_call_def)

lemma may_finish_latched: "may_finish I p \<Longrightarrow> is_stop_status s \<Longrightarrow> may_finish I s"
  by (cases s) (simp_all add: may_finish_def)

lemma appends_finished:
  assumes "may_finish I s"
  shows "appends rid I (RunFinished rid s None []) (\<lambda>a. ls_finished a = Some s)"
  using assms
  by (intro appendsI) (auto simp: may_finish_def spec_event_def spec_finished_def)

end
