(* ===== verification/Run_Correct.thy ===== *)
theory Run_Correct
  imports Run_Log
begin

text \<open>
  The runtime over a dispatcher and a sink that keep their contracts: every operation leaves the
  canonical log in the abstract state \<open>Run_Log\<close> names, whatever the model streams, the control
  decides, the tools return and whenever other threads stop the run.
\<close>

section \<open>Assertions\<close>

text \<open>The committed log carries the sequences 1, 2, ... in order.\<close>

definition sequenced :: "'v agent_event list \<Rightarrow> bool" where
  "sequenced L \<longleftrightarrow> sequenced_from 1 L"

lemma sequenced_Nil [simp]: "sequenced []"
  by (simp add: sequenced_def)

lemma sequenced_append:
  "sequenced L \<Longrightarrow> q = EventSequence (of_nat (length L + 1)) \<Longrightarrow>
     sequenced (L @ [with_event_sequence q ev])"
  by (simp add: sequenced_def sequenced_from_append)

definition replayable :: "run_id \<Rightarrow> 'v agent_event list \<Rightarrow> bool" where
  "replayable rid L \<longleftrightarrow> sequenced L \<and> (L = [] \<or> (\<exists>a. spec_log Strict L = Inr (rid, a)))"

locale agent_run =
  tool_dispatcher d_inv "a_prepare A" "a_execute A"
  + buffered: event_sink s_inv s_rec log "a_append A"
  + durable: event_sink s_inv s_rec log "a_append_durable A"
  for d_inv :: "'t \<Rightarrow> bool"
    and s_inv :: "'s \<Rightarrow> bool"
    and s_rec :: "'s \<Rightarrow> bool"
    and log :: "'s \<Rightarrow> 'v agent_event list"
    and A :: "('v, 'm, 't, 's, 'c, 'e) adapters"
begin

definition stands ::
    "run_id \<Rightarrow> ('v log_state \<Rightarrow> bool) \<Rightarrow> ('m, 't, 's, 'c) run_world \<Rightarrow> bool" where
  "stands rid I w \<longleftrightarrow>
     d_inv (tool_dispatcher_state w) \<and> s_inv (event_sink_state w) \<and> token_open (rw_stop w)
     \<and> unat (next_event_sequence w) = length (log (event_sink_state w)) + 1
     \<and> sequenced (log (event_sink_state w))
     \<and> (\<exists>a. spec_log Strict (log (event_sink_state w)) = Inr (rid, a) \<and> I a)"

definition failed ::
    "run_id \<Rightarrow> ('v, 'e) run_failure \<Rightarrow> ('m, 't, 's, 'c) run_world \<Rightarrow> bool" where
  "failed rid f w \<longleftrightarrow>
     (case f of
        RunErr (EventPersistenceIndeterminate q ev d x) \<Rightarrow>
          s_rec (event_sink_state w) \<and>
          (\<exists>L. (log (event_sink_state w) = L
                 \<or> log (event_sink_state w) = L @ [with_event_sequence q ev])
               \<and> q = EventSequence (of_nat (length L + 1)) \<and> event_run_id ev = rid
               \<and> replayable rid L \<and> replayable rid (L @ [with_event_sequence q ev]))
      | RunPanic \<Rightarrow> replayable rid (log (event_sink_state w))
                    \<and> length (log (event_sink_state w)) = 2 ^ 64 - 1
      | _ \<Rightarrow> False)"

definition finished_with ::
    "run_id \<Rightarrow> terminal_run_status \<Rightarrow> ('m, 't, 's, 'c) run_world \<Rightarrow> bool" where
  "finished_with rid s w \<longleftrightarrow>
     s_inv (event_sink_state w) \<and> d_inv (tool_dispatcher_state w)
     \<and> sequenced (log (event_sink_state w)) \<and> length (log (event_sink_state w)) < 2 ^ 64 - 1
     \<and> token_status (rw_stop w) = Some s
     \<and> (\<exists>a. spec_log Strict (log (event_sink_state w)) = Inr (rid, a) \<and> ls_finished a = Some s)"

section \<open>Emitting\<close>

lemma spec_log_snoc:
  assumes "spec_log Strict L = Inr (rid, a)" and "spec_step Strict rid (length L + 1) ev a = Inr a'"
  shows "spec_log Strict (L @ [ev]) = Inr (rid, a')"
proof -
  from spec_log_cases [OF assms(1)] obtain s x rest where L: "L = RunStarted rid s x # rest"
    and run: "spec_run Strict rid 2 rest init_log_state = Inr a" .
  from run assms(2) have "spec_run Strict rid 2 (rest @ [ev]) init_log_state = Inr a'"
    by (simp add: spec_run_append L)
  then show ?thesis by (simp add: spec_log_def L)
qed

text \<open>One emission from a log \<open>L\<close> that is replayable before and after the event.\<close>

lemma emit_with_log:
  assumes ok: "\<And>s q u s'. s_inv s \<Longrightarrow> app s q ev = (Inr u, s') \<Longrightarrow>
      s_inv s' \<and> log s' = log s @ [with_event_sequence q ev]"
    and bad: "\<And>s q x s'. s_inv s \<Longrightarrow> app s q ev = (Inl x, s') \<Longrightarrow>
      s_rec s' \<and> (log s' = log s \<or> log s' = log s @ [with_event_sequence q ev])"
    and inv: "s_inv (event_sink_state w)" and L: "log (event_sink_state w) = L"
    and n: "unat (next_event_sequence w) = length L + 1" and id: "event_run_id ev = rid"
    and L': "L' = L @ [with_event_sequence (EventSequence (next_event_sequence w)) ev]"
    and rep: "replayable rid L" "replayable rid L'"
  shows "case emit_with app d ev w of
      (Inr u, w') \<Rightarrow>
        (\<exists>s. w' = w\<lparr>event_sink_state := s, next_event_sequence := next_event_sequence w + 1\<rparr>
             \<and> s_inv s \<and> log s = L' \<and> unat (next_event_sequence w + 1) = length L' + 1)
    | (Inl e, w') \<Rightarrow> failed rid e w'"
proof -
  let ?q = "EventSequence (next_event_sequence w)"
  have "of_nat (unat (next_event_sequence w)) = next_event_sequence w" by simp
  with n have q: "?q = EventSequence (of_nat (length L + 1))" by simp
  obtain r s' where app: "app (event_sink_state w) ?q ev = (r, s')" by fastforce
  show ?thesis
  proof (cases r)
    case (Inl x)
    with bad [OF inv, of ?q x s'] app L
    have "s_rec s'" "log s' = L \<or> log s' = L'" by (simp_all add: L')
    with Inl app q id rep show ?thesis by (auto simp: emit_with_def failed_def L')
  next
    case (Inr u)
    with ok [OF inv] app L have s': "s_inv s'" "log s' = L'" unfolding L' by blast+
    show ?thesis
    proof (cases "checked_succ (next_event_sequence w)")
      case (Some m)
      then have "m = next_event_sequence w + 1" by (simp add: checked_succ_Some)
      with checked_succ_unat [OF Some] Some Inr app s' n show ?thesis
        by (auto simp: emit_with_def advance_event_sequence_def L')
    next
      case None
      then have "\<not> unat (next_event_sequence w) + 1 < 2 ^ 64" by (simp add: checked_succ_None)
      moreover have "unat (next_event_sequence w) < 2 ^ 64"
        using unsigned_less [of "next_event_sequence w"] by simp
      ultimately have "length L' = 2 ^ 64 - 1" using n by (simp add: L')
      with None Inr app s' rep show ?thesis
        by (simp add: emit_with_def advance_event_sequence_def failed_def)
    qed
  qed
qed

lemma emit_with_triple:
  assumes ok: "\<And>s q u s'. s_inv s \<Longrightarrow> app s q ev = (Inr u, s') \<Longrightarrow>
      s_inv s' \<and> log s' = log s @ [with_event_sequence q ev]"
    and bad: "\<And>s q x s'. s_inv s \<Longrightarrow> app s q ev = (Inl x, s') \<Longrightarrow>
      s_rec s' \<and> (log s' = log s \<or> log s' = log s @ [with_event_sequence q ev])"
    and ap: "appends rid I ev J" and id: "event_run_id ev = rid"
  shows "triple (stands rid I) (emit_with app d ev) (\<lambda>_. stands rid J) (failed rid)"
  unfolding triple_def
proof (intro allI impI)
  fix w :: "('m, 't, 's, 'c) run_world"
  assume w: "stands rid I w"
  let ?L = "log (event_sink_state w)"
  let ?L' = "?L @ [with_event_sequence (EventSequence (next_event_sequence w)) ev]"
  from w obtain a where a: "spec_log Strict ?L = Inr (rid, a)" "I a"
    and inv: "s_inv (event_sink_state w)" and n: "unat (next_event_sequence w) = length ?L + 1"
    and sq: "sequenced ?L"
    unfolding stands_def by blast
  from ap a obtain a' where "spec_step Strict rid (length ?L + 1)
      (with_event_sequence (EventSequence (next_event_sequence w)) ev) a = Inr a'"
    and J: "J a'" unfolding appends_def by blast
  from spec_log_snoc [OF a(1) this(1)] have a': "spec_log Strict ?L' = Inr (rid, a')" .
  have "of_nat (unat (next_event_sequence w)) = next_event_sequence w" by simp
  with n have sq': "sequenced ?L'"
    by (intro sequenced_append [OF sq]) simp
  from a a' sq sq' have rep: "replayable rid ?L" "replayable rid ?L'" by (auto simp: replayable_def)
  have "case emit_with app d ev w of
      (Inr u, w') \<Rightarrow>
        (\<exists>s. w' = w\<lparr>event_sink_state := s, next_event_sequence := next_event_sequence w + 1\<rparr>
             \<and> s_inv s \<and> log s = ?L' \<and> unat (next_event_sequence w + 1) = length ?L' + 1)
    | (Inl e, w') \<Rightarrow> failed rid e w'"
    by (rule emit_with_log [where app = app, OF _ _ inv refl n id refl rep]) (rule ok bad; assumption)+
  with w a' J sq'
  show "case emit_with app d ev w of (Inr u, w') \<Rightarrow> stands rid J w' | (Inl e, w') \<Rightarrow> failed rid e w'"
    by (auto simp: stands_def split: prod.splits sum.splits)
qed

lemma emit_triple:
  "appends rid I ev J \<Longrightarrow> event_run_id ev = rid \<Longrightarrow>
     triple (stands rid I) (emit A ev) (\<lambda>_. stands rid J) (failed rid)"
  unfolding emit_def using buffered.append_ok buffered.append_failed by (intro emit_with_triple) blast+

lemma emit_durable_triple:
  "appends rid I ev J \<Longrightarrow> event_run_id ev = rid \<Longrightarrow>
     triple (stands rid I) (emit_durable A ev) (\<lambda>_. stands rid J) (failed rid)"
  unfolding emit_durable_def using durable.append_ok durable.append_failed
  by (intro emit_with_triple) blast+

section \<open>The token and the adapters\<close>

lemma stands_concurrent: "stands rid I w \<Longrightarrow> stands rid I (concurrent_stops w)"
  by (cases "rw_schedule w") (simp_all add: stands_def concurrent_stops_def token_open_requests)

definition if_stopped :: "terminal_run_status option \<Rightarrow> bool" where
  "if_stopped r \<longleftrightarrow> (case r of Some s \<Rightarrow> is_stop_status s | None \<Rightarrow> True)"

lemma if_stopped_simps [simp]: "if_stopped None" "if_stopped (Some s) \<longleftrightarrow> is_stop_status s"
  by (simp_all add: if_stopped_def)

lemma stop_now_triple:
  "triple (stands rid I) stop_now (\<lambda>r w. stands rid I w \<and> if_stopped r) (failed rid)"
proof -
  have "if_stopped (stop_status (rw_stop w))" if "stands rid I w" for w
    using that stop_status_Some [OF token_open_ok, of "rw_stop w"]
    by (cases "stop_status (rw_stop w)") (auto simp: stands_def)
  then show ?thesis
    by (auto simp: triple_def stop_now_def Let_def stands_concurrent)
qed

lemma cancellation_flag_triple:
  "triple (stands rid I) cancellation_flag (\<lambda>_. stands rid I) (failed rid)"
  by (simp add: triple_def cancellation_flag_def Let_def stands_concurrent)

lemma request_now_triple:
  assumes "is_stop_status s"
  shows "triple (stands rid I) (resolve_now s) (\<lambda>_. stands rid I) (failed rid)"
proof -
  have "token_open k \<Longrightarrow> token_open (snd (resolve_terminal s k))" for k
    using assms by (auto simp: token_open_def token_ok_def resolve_terminal_def split: option.splits)
  then show ?thesis
    using stands_concurrent
    by (fastforce simp: triple_def resolve_now_def Let_def split_beta stands_def)
qed

lemma stopped_status_triple:
  "triple (stands rid I) (stopped_status A) (\<lambda>r w. stands rid I w \<and> if_stopped r) (failed rid)"
  unfolding triple_def
proof (intro allI impI)
  fix w :: "('m, 't, 's, 'c) run_world"
  assume w: "stands rid I w"
  obtain flow c where c: "a_checkpoint A (rw_control w) = (flow, c)" by fastforce
  from w have w1: "stands rid I (w\<lparr>rw_control := c\<rparr>)" by (simp add: stands_def)
  note req = triple_bind [OF request_now_triple stop_now_triple, THEN triple_result, OF _ w1]
  show "case stopped_status A w of (Inr r, w') \<Rightarrow> stands rid I w' \<and> if_stopped r
      | (Inl e, w') \<Rightarrow> failed rid e w'"
    using triple_result [OF stop_now_triple w1] req [of "Interrupted _"] req [of "Cancelled _"]
    by (cases flow) (simp_all add: stopped_status_def c)
qed

lemma call_stream_triple:
  "triple (stands rid I) (call_stream A req) (\<lambda>_. stands rid I) (failed rid)"
  unfolding call_stream_def
  by (rule triple_bind [OF cancellation_flag_triple])
    (simp add: triple_def split_beta Let_def stands_def)

lemma decide_approval_triple:
  "triple (stands rid I) (decide_approval A q) (\<lambda>_. stands rid I) (failed rid)"
  unfolding decide_approval_def
  by (rule triple_bind [OF cancellation_flag_triple])
    (simp add: triple_def split_beta Let_def stands_def)

lemma prepare_call_triple:
  "triple (stands rid I) (prepare_call A call)
     (\<lambda>p w. stands rid I w \<and> pr_call p = call \<and> disposition_ok (pr_disposition p)) (failed rid)"
  using prepare_call prepare_ok by (auto simp: triple_def prepare_call_def stands_def)

lemma execute_triple:
  assumes "disposition_ok (pr_disposition p)"
  shows "triple (stands rid I) (execute_prepared_call A p auth)
    (\<lambda>out w. stands rid I w \<and> \<not> is_denied_code out) (failed rid)"
  unfolding execute_prepared_call_def
proof (rule triple_bind [OF cancellation_flag_triple])
  fix flag
  show "triple (stands rid I)
     (\<lambda>w. let (out, t) = a_execute A (tool_dispatcher_state w) p auth flag
          in (Inr out, w\<lparr>tool_dispatcher_state := t\<rparr>))
     (\<lambda>out w. stands rid I w \<and> \<not> is_denied_code out) (failed rid)"
    unfolding triple_def
  proof (intro allI impI)
    fix w :: "('m, 't, 's, 'c) run_world"
    assume w: "stands rid I w"
    obtain out t where e: "a_execute A (tool_dispatcher_state w) p auth flag = (out, t)" by fastforce
    from w have "d_inv (tool_dispatcher_state w)" by (simp add: stands_def)
    with execute_inv [OF this e] execute_not_denied [OF this assms e] w e
    show "case let (out, t) = a_execute A (tool_dispatcher_state w) p auth flag
               in (Inr out, w\<lparr>tool_dispatcher_state := t\<rparr>) of
        (Inr out, w') \<Rightarrow> stands rid I w' \<and> \<not> is_denied_code out | (Inl e, w') \<Rightarrow> failed rid e w'"
      by (simp add: stands_def)
  qed
qed

section \<open>Finishing\<close>

lemma stands_length:
  assumes "stands rid I w"
  shows "length (log (event_sink_state w)) < 2 ^ 64 - 1"
proof -
  have "unat (next_event_sequence w) < 2 ^ 64" using unsigned_less [of "next_event_sequence w"] by simp
  with assms show ?thesis by (simp add: stands_def)
qed

lemma finish_triple:
  assumes "may_finish I p"
  shows "triple (stands rid I) (finish A rid p)
    (\<lambda>o' w. finished_with rid (outcome_status o') w) (failed rid)"
  unfolding triple_def
proof (intro allI impI)
  fix w :: "('m, 't, 's, 'c) run_world"
  assume "stands rid I w"
  then have w1: "stands rid I (concurrent_stops w)" (is "stands rid I ?w1") by (rule stands_concurrent)
  obtain s k where r: "resolve_terminal p (rw_stop ?w1) = (s, k)" by fastforce
  from w1 have op: "token_open (rw_stop ?w1)" by (simp add: stands_def)
  have may: "may_finish I s"
    using resolve_terminal_open [OF op r] assms may_finish_latched by auto
  let ?ev = "RunFinished rid s None []"
  let ?e = "emit_durable A ?ev"
  from emit_durable_triple [OF appends_finished [OF may, of rid]]
  have t: "triple (stands rid I) ?e (\<lambda>_. stands rid (\<lambda>a. ls_finished a = Some s)) (failed rid)" by simp
  let ?w2 = "?w1\<lparr>rw_stop := k\<rparr>"
  have same: "?e ?w2 = (case ?e ?w1 of (x, w') \<Rightarrow> (x, w'\<lparr>rw_stop := k\<rparr>))"
    by (simp add: emit_durable_def emit_with_def advance_event_sequence_def Let_def split_beta
        split: sum.split option.split)
  have stop: "token_status k = Some s" by (rule resolve_terminal_status [OF r])
  have fin: "finish A rid p w = (case ?e ?w1 of
      (Inl f, w') \<Rightarrow> (Inl f, w'\<lparr>rw_stop := k\<rparr>) | (Inr _, w') \<Rightarrow> (Inr (RunOutcome s), w'\<lparr>rw_stop := k\<rparr>))"
    by (simp add: finish_def op_bind_def resolve_now_def Let_def r same op_return_def split_beta
        split: sum.split)
  show "case finish A rid p w of
      (Inr o', w') \<Rightarrow> finished_with rid (outcome_status o') w' | (Inl e, w') \<Rightarrow> failed rid e w'"
    using triple_result [OF t w1] stop stands_length
    by (auto simp: fin stands_def failed_def finished_with_def split: prod.splits sum.splits
        run_failure.splits agent_runtime_error.splits)
qed

lemma finish_then_triple:
  assumes "may_finish I p" and "\<And>o' w. finished_with rid (outcome_status o') w \<Longrightarrow> Q (f o') w"
  shows "triple (stands rid I) (op_bind (finish A rid p) (\<lambda>o'. op_return (f o'))) Q (failed rid)"
  by (rule triple_bind [OF finish_triple [OF assms(1)]]) (simp add: run_simps assms(2))

lemma finish_agent_error_triple:
  assumes "appends rid I (ErrorEvent rid t e None []) I" and "\<And>s. may_finish I s"
  shows "triple (stands rid I) (finish_agent_error A rid t e)
    (\<lambda>o' w. finished_with rid (outcome_status o') w) (failed rid)"
  unfolding finish_agent_error_def
  by (rule triple_bind [OF emit_triple finish_triple]) (use assms in simp_all)

section \<open>A model turn\<close>

lemma stopped_then_triple:
  assumes "\<And>s. is_stop_status s \<Longrightarrow> triple (stands rid I) (g s) Q (failed rid)"
    and "triple (stands rid I) h Q (failed rid)"
  shows "triple (\<lambda>w. stands rid I w \<and> if_stopped r)
    (case r of Some s \<Rightarrow> g s | None \<Rightarrow> h) Q (failed rid)"
  using assms by (cases r) (simp_all add: triple_conj)

lemma turn_error_triple:
  "triple (stands rid (in_turn rid k sq)) (finish_agent_error A rid (Some (numbered_turn_id k)) e)
    (\<lambda>o' w. finished_with rid (outcome_status o') w) (failed rid)"
  by (rule finish_agent_error_triple) (auto intro: appends_turn_error)

lemma turn_error_then_triple:
  assumes "\<And>o' w. finished_with rid (outcome_status o') w \<Longrightarrow> Q (f o') w"
  shows "triple (stands rid (in_turn rid k sq))
    (op_bind (finish_agent_error A rid (Some (numbered_turn_id k)) e) (\<lambda>o'. op_return (f o')))
    Q (failed rid)"
  by (rule triple_bind [OF turn_error_triple]) (simp add: run_simps assms)

lemma consume_stream_triple:
  "triple (stands rid (in_turn rid k sq))
     (consume_stream A rid (numbered_turn_id k) evs txt calls ids)
     (\<lambda>r w. case r of
         StreamEnded _ _ _ \<Rightarrow> stands rid (in_turn rid k sq) w
       | StreamFinished o' \<Rightarrow> finished_with rid (outcome_status o') w) (failed rid)"
proof (induction evs arbitrary: "txt" calls ids)
  case Nil
  show ?case by (simp add: run_simps)
next
  case (Cons me evs)
  let ?I = "in_turn rid k sq"
  show ?case
    unfolding consume_stream.simps
  proof (rule triple_bind [OF stopped_status_triple], rule stopped_then_triple)
    fix s assume "is_stop_status s"
    show "triple (stands rid ?I) (op_bind (finish A rid s) (\<lambda>outcome. op_return (StreamFinished outcome)))
      (\<lambda>r w. case r of StreamEnded _ _ _ \<Rightarrow> stands rid ?I w
        | StreamFinished o' \<Rightarrow> finished_with rid (outcome_status o') w) (failed rid)"
      by (rule finish_then_triple) auto
  next
    note emitted = triple_bind [OF emit_triple [OF appends_output]]
    show "triple (stands rid ?I)
      (op_bind (emit A (ModelOutput rid (numbered_turn_id k) me None [])) (\<lambda>_.
         case me of
           TextDelta delta _ \<Rightarrow> consume_stream A rid (numbered_turn_id k) evs (txt @ delta) calls ids
         | ModelToolCallEvent i name args _ \<Rightarrow>
             if i \<in> ids then
               op_bind (finish_agent_error A rid (Some (numbered_turn_id k)) (duplicate_call_error i))
                 (\<lambda>outcome. op_return (StreamFinished outcome))
             else consume_stream A rid (numbered_turn_id k) evs txt
                    (calls @ [\<lparr>mtc_id = i, mtc_name = name, mtc_arguments = args\<rparr>]) (insert i ids)
         | ModelCompleted _ _ \<Rightarrow> op_return (StreamEnded txt calls True)
         | ModelFailed error _ \<Rightarrow>
             op_bind (finish_model_error A rid (Some (numbered_turn_id k)) error)
               (\<lambda>outcome. op_return (StreamFinished outcome))
         | Started _ _ \<Rightarrow> consume_stream A rid (numbered_turn_id k) evs txt calls ids
         | ToolCallDelta _ _ _ _ \<Rightarrow> consume_stream A rid (numbered_turn_id k) evs txt calls ids
         | Usage _ _ \<Rightarrow> consume_stream A rid (numbered_turn_id k) evs txt calls ids))
      (\<lambda>r w. case r of StreamEnded _ _ _ \<Rightarrow> stands rid ?I w
        | StreamFinished o' \<Rightarrow> finished_with rid (outcome_status o') w) (failed rid)"
      by (rule emitted)
        (cases me; simp add: Cons.IH turn_error_then_triple finish_model_error_def run_simps)+
  qed
qed

lemma collect_model_turn_triple:
  "triple (stands rid (in_turn rid k sq)) (collect_model_turn A rid (numbered_turn_id k) req)
     (\<lambda>r w. case r of
         Collected _ \<Rightarrow> stands rid (in_turn rid k sq) w
       | ModelTurnFinished o' \<Rightarrow> finished_with rid (outcome_status o') w) (failed rid)"
  unfolding collect_model_turn_def
proof (rule triple_bind [OF call_stream_triple])
  fix stream :: "model_error + 'v model_stream_event list"
  let ?I = "in_turn rid k sq"
  let ?Q = "\<lambda>r w. case r of
         Collected _ \<Rightarrow> stands rid ?I w
       | ModelTurnFinished o' \<Rightarrow> finished_with rid (outcome_status o') w"
  let ?fin = "\<lambda>e. op_bind (finish_agent_error A rid (Some (numbered_turn_id k)) e)
      (\<lambda>outcome. op_return (ModelTurnFinished outcome))"
  have stop: "triple (stands rid ?I)
      (op_bind (finish A rid s) (\<lambda>outcome. op_return (ModelTurnFinished outcome))) ?Q (failed rid)" for s
    by (rule finish_then_triple) auto
  have err: "triple (stands rid ?I) (?fin e) ?Q (failed rid)" for e
    by (rule turn_error_then_triple) simp
  have merged: "op_bind (case r of Some s \<Rightarrow> finish A rid s | None \<Rightarrow> m) f
      = (case r of Some s \<Rightarrow> op_bind (finish A rid s) f | None \<Rightarrow> op_bind m f)"
    for r :: "terminal_run_status option" and m
      and f :: "run_outcome \<Rightarrow> ('v model_turn_progress, 'v, 'm, 't, 's, 'c, 'e) run_op"
    by (cases r) simp_all
  show "triple (stands rid ?I)
    (case stream of
       Inl error \<Rightarrow>
         op_bind stop_now (\<lambda>stopped.
         op_bind (case stopped of
                     Some status \<Rightarrow> finish A rid status
                   | None \<Rightarrow> finish_model_error A rid (Some (numbered_turn_id k)) error) (\<lambda>outcome.
         op_return (ModelTurnFinished outcome)))
     | Inr events \<Rightarrow>
         op_bind (consume_stream A rid (numbered_turn_id k) events [] [] {}) (\<lambda>end.
         case end of
           StreamFinished outcome \<Rightarrow> op_return (ModelTurnFinished outcome)
         | StreamEnded txt calls completed \<Rightarrow>
             op_bind stop_now (\<lambda>stopped.
             case stopped of
               Some status \<Rightarrow>
                 op_bind (finish A rid status) (\<lambda>outcome. op_return (ModelTurnFinished outcome))
             | None \<Rightarrow>
                 if \<not> completed then ?fin stream_incomplete_error
                 else op_return (Collected \<lparr>cmt_text = txt, cmt_tool_calls = calls\<rparr>)))) ?Q (failed rid)"
  proof (cases stream)
    case (Inl error)
    have "triple (stands rid ?I) (op_bind stop_now (\<lambda>stopped.
         case stopped of
           Some status \<Rightarrow> op_bind (finish A rid status) (\<lambda>outcome. op_return (ModelTurnFinished outcome))
         | None \<Rightarrow> op_bind (finish_model_error A rid (Some (numbered_turn_id k)) error) (\<lambda>outcome.
         op_return (ModelTurnFinished outcome)))) ?Q (failed rid)"
      by (rule triple_bind [OF stop_now_triple], rule stopped_then_triple [OF stop])
        (simp add: finish_model_error_def err)
    then show ?thesis by (simp add: Inl merged)
  next
    case (Inr events)
    have ended: "triple (stands rid ?I)
       (op_bind stop_now (\<lambda>stopped.
             case stopped of
               Some status \<Rightarrow>
                 op_bind (finish A rid status) (\<lambda>outcome. op_return (ModelTurnFinished outcome))
             | None \<Rightarrow>
                 if \<not> completed then ?fin stream_incomplete_error
                 else op_return (Collected c))) ?Q (failed rid)" for completed c
      by (rule triple_bind [OF stop_now_triple], rule stopped_then_triple [OF stop])
        (simp add: err run_simps)
    show ?thesis
      unfolding Inr sum.case
    proof (rule triple_bind [OF consume_stream_triple], goal_cases)
      case (1 se)
      then show ?case by (cases se) (simp_all add: ended run_simps)
    qed
  qed
qed

section \<open>A tool call\<close>

definition tool_post ::
    "run_id \<Rightarrow> nat \<Rightarrow> run_sequences \<Rightarrow> 'v tool_call \<Rightarrow> 'v tool_progress
       \<Rightarrow> ('m, 't, 's, 'c) run_world \<Rightarrow> bool" where
  "tool_post rid k sq call r w \<longleftrightarrow>
     (case r of
        ToolStopped o' \<Rightarrow> finished_with rid (outcome_status o') w
      | ToolOutputReady out \<Rightarrow>
          \<exists>v. cv_call v = call \<and> stands rid (in_call rid k sq v) w \<and> output_fits v out)"

lemma finish_tool_triple:
  "is_stop_status s \<Longrightarrow>
     triple (stands rid (in_call rid k sq v)) (finish_tool A rid s) (tool_post rid k sq call) (failed rid)"
  unfolding finish_tool_def by (rule finish_then_triple) (auto simp: tool_post_def)

lemma execute_unless_stopped_triple:
  assumes "cv_call v = call" and "disposition_ok (pr_disposition p)"
    and "\<And>out. \<not> is_denied_code out \<Longrightarrow> output_fits v out"
  shows "triple (stands rid (in_call rid k sq v)) (execute_unless_stopped A rid p auth)
    (tool_post rid k sq call) (failed rid)"
  unfolding execute_unless_stopped_def
proof (rule triple_bind [OF stopped_status_triple], rule stopped_then_triple [OF finish_tool_triple])
  show "triple (stands rid (in_call rid k sq v))
     (op_bind (execute_prepared_call A p auth) (\<lambda>out. op_return (ToolOutputReady out)))
     (tool_post rid k sq call) (failed rid)"
    by (rule triple_bind [OF execute_triple [OF assms(2)]])
      (use assms(1,3) in \<open>auto simp: run_simps tool_post_def\<close>)
qed

lemma run_with_approval_triple:
  assumes p: "pr_call p = call" "disposition_ok (pr_disposition p)"
    and n: "n = Suc (sq_approval sq)"
  shows "triple (stands rid (in_call rid k sq (new_call (numbered_turn_id k) call)))
    (run_with_approval A rid (numbered_turn_id k) n p reason)
    (tool_post rid k (sq\<lparr>sq_approval := n\<rparr>) call) (failed rid)"
proof -
  let ?v = "new_call (numbered_turn_id k) call"
  let ?sq = "sq\<lparr>sq_approval := n\<rparr>"
  let ?q = "\<lparr>ar_id = numbered_approval_id rid n, ar_call = call, ar_reason = reason\<rparr>"
  let ?w = "?v\<lparr>cv_approval := Some ?q\<rparr>"
  have e1: "triple (stands rid (in_call rid k sq ?v))
      (emit_durable A (ApprovalRequested rid (numbered_turn_id k) ?q None []))
      (\<lambda>_. stands rid (in_call rid k ?sq ?w)) (failed rid)"
    by (rule emit_durable_triple, rule appends_approval) (simp_all add: new_call_def n)
  have e2: "triple (stands rid (in_call rid k ?sq ?w))
      (emit_durable A (ApprovalResolved rid (numbered_turn_id k) (ar_id ?q) d None []))
      (\<lambda>_. stands rid (in_call rid k ?sq (?w\<lparr>cv_decision := Some d\<rparr>))) (failed rid)" for d
    by (rule emit_durable_triple, rule appends_resolved) (simp_all add: new_call_def)
  have run: "triple (stands rid (in_call rid k ?sq (?w\<lparr>cv_decision := Some d\<rparr>)))
      (case d of
         Approve \<Rightarrow> execute_unless_stopped A rid p (ApprovalGranted (tc_id (pr_call p)))
       | Deny denial \<Rightarrow> op_return (ToolOutputReady (approval_denied_output denial)))
      (tool_post rid k ?sq call) (failed rid)" for d
  proof (cases d)
    case Approve
    show ?thesis unfolding Approve approval_decision.case
      by (rule execute_unless_stopped_triple [OF _ p(2)]) (simp_all add: output_fits_def new_call_def)
  next
    case (Deny denial)
    then show ?thesis
      by (auto simp: run_simps tool_post_def new_call_def intro!: exI output_fits_denied)
  qed
  show ?thesis
    unfolding run_with_approval_def Let_def p(1)
  proof (rule triple_bind [OF e1], rule triple_bind [OF decide_approval_triple],
      rule triple_bind [OF stop_now_triple], rule stopped_then_triple [OF finish_tool_triple])
    fix d
    show "triple (stands rid (in_call rid k ?sq ?w))
      (op_bind (emit_durable A (ApprovalResolved rid (numbered_turn_id k) (ar_id ?q)
           (normalize_approval_decision d) None [])) (\<lambda>_.
         case normalize_approval_decision d of
           Approve \<Rightarrow> execute_unless_stopped A rid p (ApprovalGranted (tc_id call))
         | Deny denial \<Rightarrow> op_return (ToolOutputReady (approval_denied_output denial))))
      (tool_post rid k ?sq call) (failed rid)"
      by (rule triple_bind [OF e2]) (rule run [unfolded p(1)])
  qed
qed

lemma record_tool_result_triple:
  assumes v: "tr_call_id r = tc_id (cv_call v)" "output_fits v (tr_output r)"
  shows "triple (stands rid (in_call rid k sq v))
    (record_tool_result A rid (numbered_turn_id k) mcall r)
    (\<lambda>x w. case x of ToolCallMessage _ \<Rightarrow> stands rid (in_turn rid k sq) w
       | ToolCallFinished o' \<Rightarrow> finished_with rid (outcome_status o') w) (failed rid)"
  unfolding record_tool_result_def emit_tool_result_def
proof (rule triple_bind [OF emit_durable_triple [OF appends_result [OF v]]],
    simp, rule triple_bind [OF stop_now_triple], rule stopped_then_triple, goal_cases)
  case (1 s)
  show ?case by (rule finish_then_triple) auto
next
  case 2
  have err: "triple (stands rid (in_turn rid k sq))
      (case tr_output r of
         Failure error _ \<Rightarrow>
           emit A (ErrorEvent rid (Some (numbered_turn_id k))
             \<lparr>ae_code = te_code error, ae_message = te_message error, ae_recoverable = True\<rparr> None [])
       | Success _ _ _ \<Rightarrow> op_return ())
      (\<lambda>_. stands rid (in_turn rid k sq)) (failed rid)"
    by (cases "tr_output r") (simp_all add: run_simps emit_triple [OF appends_turn_error])
  show ?case by (rule triple_bind [OF err]) (simp add: run_simps)
qed

end

end
