(* ===== verification/Run_Theorems.thy ===== *)
theory Run_Theorems
  imports Run_Correct
begin

text \<open>
  The tool call, the loops over calls and turns, and the whole run, over the contracts of
  \<open>Run_Correct\<close>.
\<close>

context agent_run begin

definition call_post ::
    "run_id \<Rightarrow> nat \<Rightarrow> 'v tool_call_progress \<times> run_sequences \<Rightarrow> ('m, 't, 's, 'c) run_world \<Rightarrow> bool" where
  "call_post rid k x w \<longleftrightarrow>
     (case x of
        (ToolCallMessage _, sq) \<Rightarrow> stands rid (in_turn rid k sq) w
      | (ToolCallFinished o', _) \<Rightarrow> finished_with rid (outcome_status o') w)"

lemma call_post_simps [simp]:
  "call_post rid k (ToolCallMessage m, sq) = stands rid (in_turn rid k sq)"
  "call_post rid k (ToolCallFinished o', sq) = finished_with rid (outcome_status o')"
  by (simp_all add: call_post_def fun_eq_iff)

lemma recorded_triple:
  "triple (tool_post rid k sq call x)
    (case x of
       ToolStopped outcome \<Rightarrow> op_return (ToolCallFinished outcome, sq)
     | ToolOutputReady out \<Rightarrow>
         op_bind (record_tool_result A rid (numbered_turn_id k) mcall
             \<lparr>tr_call_id = tc_id call, tr_output = out\<rparr>)
           (\<lambda>result. op_return (result, sq)))
    (call_post rid k) (failed rid)"
proof (cases x)
  case (ToolOutputReady out)
  let ?m = "op_bind (record_tool_result A rid (numbered_turn_id k) mcall
             \<lparr>tr_call_id = tc_id call, tr_output = out\<rparr>) (\<lambda>result. op_return (result, sq))"
  have "triple (stands rid (in_call rid k sq v)) ?m (call_post rid k) (failed rid)"
    if "cv_call v = call" "output_fits v out" for v
  proof (rule triple_bind [OF record_tool_result_triple [where v = v]])
    show "triple (\<lambda>w. case x of ToolCallMessage _ \<Rightarrow> stands rid (in_turn rid k sq) w
       | ToolCallFinished o' \<Rightarrow> finished_with rid (outcome_status o') w)
      (op_return (x, sq)) (call_post rid k) (failed rid)" for x
      unfolding triple_return call_post_def by (cases x) simp_all
  qed (use that in simp_all)
  then have "triple (\<lambda>w. \<exists>v. (cv_call v = call \<and> output_fits v out) \<and> stands rid (in_call rid k sq v) w)
      ?m (call_post rid k) (failed rid)"
    by (intro triple_ex) simp
  then have "triple (tool_post rid k sq call x) ?m (call_post rid k) (failed rid)"
    by (rule triple_pre) (auto simp: ToolOutputReady tool_post_def)
  then show ?thesis by (simp add: ToolOutputReady)
qed (simp add: run_simps tool_post_def)

lemma drive_tool_call_triple:
  "triple (stands rid (in_turn rid k sq)) (drive_tool_call A rid (numbered_turn_id k) mcall sq)
     (call_post rid k) (failed rid)"
proof -
  let ?sq = "sq\<lparr>sq_tool_call := sq_tool_call sq + 1\<rparr>"
  let ?call = "\<lparr>tc_id = numbered_call_id rid (sq_tool_call ?sq), tc_tool_name = mtc_name mcall,
                 tc_arguments = mtc_arguments mcall\<rparr>"
  let ?t = "numbered_turn_id k"
  let ?sq2 = "\<lambda>p. case approval_reason p of
      Some _ \<Rightarrow> ?sq\<lparr>sq_approval := sq_approval ?sq + 1\<rparr> | None \<Rightarrow> ?sq"
  have e: "triple (stands rid (in_turn rid k sq))
      (emit_durable A (ToolCallRequested rid ?t (mtc_id mcall) ?call None []))
      (\<lambda>_. stands rid (in_call rid k ?sq (new_call ?t ?call))) (failed rid)"
    by (rule emit_durable_triple, rule appends_requested) simp_all
  have progress: "triple (stands rid (in_call rid k ?sq (new_call ?t ?call)))
      (case approval_reason p of
         Some reason \<Rightarrow> run_with_approval A rid ?t (sq_approval sq2) p reason
       | None \<Rightarrow> execute_unless_stopped A rid p NotRequired)
      (tool_post rid k sq2 ?call) (failed rid)"
    if p: "pr_call p = ?call" "disposition_ok (pr_disposition p)"
      and sq2: "sq2 = (case approval_reason p of
        Some _ \<Rightarrow> ?sq\<lparr>sq_approval := sq_approval ?sq + 1\<rparr> | None \<Rightarrow> ?sq)" for p sq2
  proof (cases "approval_reason p")
    case None
    with sq2 have "sq2 = ?sq" by simp
    then show ?thesis unfolding None option.case
      using execute_unless_stopped_triple [OF _ p(2)] by (simp add: new_call_def output_fits_def)
  next
    case (Some reason)
    with sq2 have sq2: "sq2 = ?sq\<lparr>sq_approval := Suc (sq_approval ?sq)\<rparr>" by simp
    show ?thesis unfolding Some option.case
      using run_with_approval_triple [OF p, of "sq_approval sq2" ?sq] by (simp add: sq2)
  qed
  show ?thesis
    unfolding drive_tool_call_def Let_def
  proof (rule triple_bind [OF e], rule triple_bind [OF prepare_call_triple], goal_cases)
    case (1 u p)
    show ?case
      unfolding triple_conj
    proof
      assume "pr_call p = ?call \<and> disposition_ok (pr_disposition p)"
      then have p: "pr_call p = ?call" "disposition_ok (pr_disposition p)" by blast+
      show "triple (stands rid (in_call rid k ?sq (new_call ?t ?call)))
        (op_bind (case approval_reason p of
           Some reason \<Rightarrow> run_with_approval A rid ?t (sq_approval (?sq2 p)) p reason
         | None \<Rightarrow> execute_unless_stopped A rid p NotRequired) (\<lambda>x.
         case x of
           ToolOutputReady out \<Rightarrow>
             op_bind (record_tool_result A rid ?t mcall \<lparr>tr_call_id = tc_id (pr_call p), tr_output = out\<rparr>)
             (\<lambda>result. op_return (result, ?sq2 p))
         | ToolStopped outcome \<Rightarrow> op_return (ToolCallFinished outcome, ?sq2 p)))
        (call_post rid k) (failed rid)"
        unfolding p(1) by (rule triple_bind [OF progress [OF p refl] recorded_triple])
    qed
  qed
qed

lemma drive_tool_calls_triple:
  "triple (stands rid (in_turn rid k sq)) (drive_tool_calls A rid (numbered_turn_id k) mcalls sq req)
     (\<lambda>r w. case r of CallsDone _ sq' \<Rightarrow> stands rid (in_turn rid k sq') w
        | CallsFinished o' \<Rightarrow> finished_with rid (outcome_status o') w) (failed rid)"
proof (induction mcalls arbitrary: sq req)
  case Nil
  show ?case by (simp add: run_simps)
next
  case (Cons mcall mcalls)
  show ?case
    unfolding drive_tool_calls.simps
  proof (rule triple_bind [OF drive_tool_call_triple], goal_cases)
    case (1 x)
    obtain pr sq' where x: "x = (pr, sq')" by (cases x)
    show ?case unfolding x prod.case
    proof (cases pr)
      case (ToolCallMessage m)
      then show "triple (call_post rid k (pr, sq'))
        (case pr of
           ToolCallMessage m \<Rightarrow> drive_tool_calls A rid (numbered_turn_id k) mcalls sq' (push_message m req)
         | ToolCallFinished outcome \<Rightarrow> op_return (CallsFinished outcome))
        (\<lambda>r w. case r of CallsDone _ sq' \<Rightarrow> stands rid (in_turn rid k sq') w
          | CallsFinished o' \<Rightarrow> finished_with rid (outcome_status o') w) (failed rid)"
        using Cons.IH [of sq'] by simp
    qed (simp add: run_simps)
  qed
qed

section \<open>The run\<close>

lemma stands_mono: "(\<And>a. I a \<Longrightarrow> J a) \<Longrightarrow> stands rid I w \<Longrightarrow> stands rid J w"
  by (auto simp: stands_def)

lemma in_turn_settled: "in_turn rid k sq a \<Longrightarrow> settled rid (Suc k) sq a"
  by (simp add: in_turn_def)

lemma run_turns_triple:
  "triple (stands rid (settled rid k sq)) (run_turns A rid [k..<n] sq req)
     (\<lambda>o' w. finished_with rid (outcome_status o') w) (failed rid)"
proof (induction "n - k" arbitrary: k sq req)
  case 0
  then show ?case
    by (simp add: finish_agent_error_triple [OF appends_run_error] may_finish_settled)
next
  case (Suc m)
  then have "k < n" and m: "m = n - Suc k" by simp_all
  from \<open>k < n\<close> have ns: "[k..<n] = k # [Suc k..<n]" by (rule upt_conv_Cons)
  let ?Q = "\<lambda>o' w. finished_with rid (outcome_status o') w"
  have calls: "triple (stands rid (in_turn rid k sq))
      (op_bind (drive_tool_calls A rid (numbered_turn_id k) mcalls sq req') (\<lambda>end.
               case end of
                 CallsDone req1 sq1 \<Rightarrow> run_turns A rid [Suc k..<n] sq1 req1
               | CallsFinished outcome \<Rightarrow> op_return outcome)) ?Q (failed rid)" for mcalls req'
  proof (rule triple_bind [OF drive_tool_calls_triple], goal_cases)
    case (1 r)
    show ?case
    proof (cases r)
      case (CallsDone req1 sq1)
      have "triple (stands rid (in_turn rid k sq1)) (run_turns A rid [Suc k..<n] sq1 req1) ?Q (failed rid)"
        by (rule triple_pre [OF Suc(1) [OF m]]) (rule stands_mono [OF in_turn_settled])
      then show ?thesis by (simp add: CallsDone)
    qed (simp add: run_simps)
  qed
  show ?case
    unfolding ns run_turns.simps
  proof (rule triple_bind [OF stopped_status_triple], rule stopped_then_triple, goal_cases)
    case (1 s)
    show ?case by (rule finish_triple) auto
  next
    case 2
    show ?case
    proof (rule triple_bind [OF emit_triple [OF appends_turn]], simp,
        rule triple_bind [OF collect_model_turn_triple], goal_cases)
      case (1 u r)
      show ?case
      proof (cases r)
        case (Collected c)
        then show ?thesis using calls finish_triple [OF may_finish_settled(2)] by auto
      qed (simp add: run_simps)
    qed
  qed
qed

text \<open>A runtime that has not run yet, with an empty log and an unused token.\<close>

definition fresh :: "('m, 't, 's, 'c) run_world \<Rightarrow> bool" where
  "fresh w \<longleftrightarrow>
     started_run_id w = None \<and> next_event_sequence w = 1
     \<and> d_inv (tool_dispatcher_state w) \<and> s_inv (event_sink_state w) \<and> log (event_sink_state w) = []
     \<and> token_open (rw_stop w) \<and> bound_run_id (rw_stop w) = None"

lemma run_started_triple:
  assumes inv: "d_inv (tool_dispatcher_state w)" "s_inv (event_sink_state w)"
    and L: "log (event_sink_state w) = []" and n: "next_event_sequence w = 1"
    and k: "token_open (rw_stop w)"
  shows "case emit A (RunStarted rid None []) w of
      (Inr u, w') \<Rightarrow> stands rid (settled rid 1 default_sequences) w' | (Inl e, w') \<Rightarrow> failed rid e w'"
proof -
  let ?ev = "RunStarted rid None [] :: 'v agent_event"
  let ?L' = "[with_event_sequence (EventSequence 1) ?ev]"
  have spec: "spec_log Strict ?L' = Inr (rid, init_log_state)" by (simp add: spec_log_def)
  have "sequenced ([] @ ?L')" by (rule sequenced_append) simp_all
  then have sq: "sequenced ?L'" by simp
  have set: "settled rid 1 default_sequences init_log_state"
    by (simp add: settled_def init_log_state_def turns_below_def)
  have rep: "replayable rid []" "replayable rid ?L'" using spec sq by (auto simp: replayable_def)
  have "case emit_with (a_append A) Buffered ?ev w of
      (Inr u, w') \<Rightarrow>
        (\<exists>s. w' = w\<lparr>event_sink_state := s, next_event_sequence := next_event_sequence w + 1\<rparr>
             \<and> s_inv s \<and> log s = ?L' \<and> unat (next_event_sequence w + 1) = length ?L' + 1)
    | (Inl e, w') \<Rightarrow> failed rid e w'"
    by (rule emit_with_log [OF _ _ inv(2) L _ _ _ rep], erule (1) buffered.append_ok,
        erule (1) buffered.append_failed) (simp_all add: n)
  with inv k spec sq set show ?thesis
    by (auto simp: emit_def stands_def split: prod.splits sum.splits)
qed

lemma run_correct:
  assumes "fresh w"
  shows "case run_with_control_and_stop A req w of
      (Inr o', w') \<Rightarrow> finished_with (rq_run_id req) (outcome_status o') w'
    | (Inl e, w') \<Rightarrow> failed (rq_run_id req) e w'"
proof -
  let ?rid = "rq_run_id req"
  let ?w1 = "concurrent_stops w"
  from assms have keep: "started_run_id w = None" "bound_run_id (rw_stop ?w1) = None"
    "token_open (rw_stop ?w1)"
    "tool_dispatcher_state ?w1 = tool_dispatcher_state w" "event_sink_state ?w1 = event_sink_state w"
    "next_event_sequence ?w1 = next_event_sequence w"
    by (auto simp: fresh_def concurrent_stops_def token_open_requests split: list.split)
  then obtain k where b: "bind_token ?rid (rw_stop ?w1) = Inr k" by (simp add: bind_token_def)
  let ?w2 = "?w1\<lparr>rw_stop := k, started_run_id := Some ?rid\<rparr>"
  from token_open_bind [OF keep(3) b] assms keep
  have start: "case emit A (RunStarted ?rid None []) ?w2 of
      (Inr u, w') \<Rightarrow> stands ?rid (settled ?rid 1 default_sequences) w' | (Inl e, w') \<Rightarrow> failed ?rid e w'"
    by (intro run_started_triple) (simp_all add: fresh_def)
  show ?thesis
  proof (cases "emit A (RunStarted ?rid None []) ?w2")
    case (Pair r w3)
    show ?thesis
    proof (cases r)
      case (Inl e)
      with start Pair keep b show ?thesis
        by (simp add: run_with_control_and_stop_def Let_def op_bind_def)
    next
      case (Inr u)
      with start Pair have "stands ?rid (settled ?rid 1 default_sequences) w3" by simp
      from triple_result [OF run_turns_triple [where n = "MAX_TURNS + 1"] this] Inr Pair keep b
      show ?thesis
        by (simp add: run_with_control_and_stop_def Let_def op_bind_def del: upt_Suc)
    qed
  qed
qed

end

end
