(* ===== verification/Run_Gating.thy ===== *)
theory Run_Gating
  imports Run_Theorems
begin

text \<open>
  Write-ahead: a tool call changes the dispatcher, and so anything a handler can reach, only
  after its request is committed and, where the plan needs approval, after the decision to
  approve is committed.
\<close>

section \<open>Operations that touch neither the log nor the tools\<close>

definition quiet_op ::
    "(('v, 'e) run_failure, ('m, 't, 's, 'c) run_world, 'a) op \<Rightarrow> bool" where
  "quiet_op m \<longleftrightarrow>
     (\<forall>w. event_sink_state (snd (m w)) = event_sink_state w
          \<and> tool_dispatcher_state (snd (m w)) = tool_dispatcher_state w)"

lemma quiet_bind [intro]:
  assumes "quiet_op m" and "\<And>a. quiet_op (f a)"
  shows "quiet_op (op_bind m f)"
  unfolding quiet_op_def
proof
  fix w
  obtain r w1 where m: "m w = (r, w1)" by fastforce
  show "event_sink_state (snd (op_bind m f w)) = event_sink_state w
      \<and> tool_dispatcher_state (snd (op_bind m f w)) = tool_dispatcher_state w"
    using assms m by (cases r) (auto simp: op_bind_def quiet_op_def dest: spec [of _ w] spec [of _ w1])
qed

lemma concurrent_stops_quiet [simp]:
  "event_sink_state (concurrent_stops w) = event_sink_state w"
  "tool_dispatcher_state (concurrent_stops w) = tool_dispatcher_state w"
  by (simp_all add: concurrent_stops_def split: list.split)

lemma quiet_stop_now [simp, intro]: "quiet_op stop_now"
  by (simp add: quiet_op_def stop_now_def Let_def)

lemma quiet_flag [simp, intro]: "quiet_op cancellation_flag"
  by (simp add: quiet_op_def cancellation_flag_def Let_def)

lemma quiet_resolve [simp, intro]: "quiet_op (resolve_now s)"
  by (simp add: quiet_op_def resolve_now_def Let_def split_beta)

lemma quiet_opD:
  assumes "quiet_op m"
  shows "event_sink_state (snd (m w)) = event_sink_state w"
    "tool_dispatcher_state (snd (m w)) = tool_dispatcher_state w"
  using assms by (simp_all add: quiet_op_def)

lemma quiet_stopped [simp, intro]:
  fixes A :: "('v, 'm, 't, 's, 'c, 'e) adapters"
  shows "quiet_op (stopped_status A)"
  unfolding quiet_op_def
proof
  fix w :: "('m, 't, 's, 'c) run_world"
  obtain flow c where c: "a_checkpoint A (rw_control w) = (flow, c)" by fastforce
  note resolve = quiet_opD [OF quiet_bind [OF quiet_resolve quiet_stop_now]]
  note now = quiet_opD [OF quiet_stop_now]
  show "event_sink_state (snd (stopped_status A w)) = event_sink_state w
      \<and> tool_dispatcher_state (snd (stopped_status A w)) = tool_dispatcher_state w"
    by (cases flow) (simp_all add: stopped_status_def c resolve now)
qed

lemma quiet_decide [simp, intro]: "quiet_op (decide_approval A q)"
  unfolding decide_approval_def
  by (rule quiet_bind [OF quiet_flag]) (simp add: quiet_op_def split_beta Let_def)

lemma quiet_triple:
  assumes "quiet_op m"
    and "\<And>w w'. P w \<Longrightarrow> event_sink_state w' = event_sink_state w \<Longrightarrow>
      tool_dispatcher_state w' = tool_dispatcher_state w \<Longrightarrow> P w'"
    and "\<And>w. P w \<Longrightarrow> E w"
  shows "triple P m (\<lambda>_. P) (\<lambda>_. E)"
  unfolding triple_def
proof (intro allI impI)
  fix w assume "P w"
  obtain r w' where m: "m w = (r, w')" by fastforce
  with assms(1) have "event_sink_state w' = event_sink_state w"
    "tool_dispatcher_state w' = tool_dispatcher_state w"
    unfolding quiet_op_def by (metis snd_conv)+
  with assms(2) [OF \<open>P w\<close>] have "P w'" by blast
  with assms(3) show "case m w of (Inr a, w') \<Rightarrow> P w' | (Inl e, w') \<Rightarrow> E w'"
    by (cases r) (simp_all add: m)
qed

context agent_run begin

section \<open>Committed events\<close>


definition stamped :: "'v agent_event set \<Rightarrow> ('m, 't, 's, 'c) run_world \<Rightarrow> bool" where
  "stamped E w \<longleftrightarrow>
     (\<forall>ev \<in> E. \<exists>q. with_event_sequence q ev \<in> set (log (event_sink_state w)))"

text \<open>
  Before the tool runs: the log holds \<open>F\<close> and the dispatcher is still \<open>d\<close>. Afterwards, and at
  every exit: the dispatcher is still \<open>d\<close> or the log holds \<open>E\<close>.
\<close>

definition waiting :: "'t \<Rightarrow> 'v agent_event set \<Rightarrow> ('m, 't, 's, 'c) run_world \<Rightarrow> bool" where
  "waiting d F w \<longleftrightarrow> s_inv (event_sink_state w) \<and> tool_dispatcher_state w = d \<and> stamped F w"

definition write_ahead :: "'t \<Rightarrow> 'v agent_event set \<Rightarrow> ('m, 't, 's, 'c) run_world \<Rightarrow> bool" where
  "write_ahead d E w \<longleftrightarrow> tool_dispatcher_state w = d \<or> stamped E w"

definition settled :: "'t \<Rightarrow> 'v agent_event set \<Rightarrow> ('m, 't, 's, 'c) run_world \<Rightarrow> bool" where
  "settled d E w \<longleftrightarrow> s_inv (event_sink_state w) \<and> write_ahead d E w"

lemma stamped_mono:
  "stamped E w \<Longrightarrow> set (log (event_sink_state w)) \<subseteq> set (log (event_sink_state w')) \<Longrightarrow>
    stamped E w'"
  unfolding stamped_def by (meson subsetD)

lemma stamped_insert: "stamped (insert ev E) w \<longleftrightarrow> stamped {ev} w \<and> stamped E w"
  by (simp add: stamped_def)

lemma waiting_settled: "waiting d F w \<Longrightarrow> settled d E w"
  by (simp add: waiting_def settled_def write_ahead_def)

lemma settled_write_ahead: "settled d E w \<Longrightarrow> write_ahead d E w"
  by (simp add: settled_def)

lemma waiting_quiet:
  "quiet_op m \<Longrightarrow> triple (waiting d F) m (\<lambda>_. waiting d F) (\<lambda>_. write_ahead d E)"
  by (erule quiet_triple) (simp_all add: waiting_def write_ahead_def stamped_def)

lemma settled_quiet:
  "quiet_op m \<Longrightarrow> triple (settled d E) m (\<lambda>_. settled d E) (\<lambda>_. write_ahead d E)"
  by (erule quiet_triple) (simp_all add: settled_def write_ahead_def stamped_def)

section \<open>Appending events\<close>

text \<open>Both appends of the sink satisfy the same contract, and are used the same way.\<close>

lemma emit_with_result:
  assumes "event_sink s_inv s_rec log app"
    and "s_inv (event_sink_state w)" and "emit_with app dur ev w = (r, w')"
  shows "set (log (event_sink_state w)) \<subseteq> set (log (event_sink_state w'))"
    and "tool_dispatcher_state w' = tool_dispatcher_state w"
    and "r = Inr u \<Longrightarrow> s_inv (event_sink_state w') \<and> stamped {ev} w'"
proof -
  let ?q = "EventSequence (next_event_sequence w)"
  obtain x s where a: "app (event_sink_state w) ?q ev = (x, s)" by fastforce
  note grow = event_sink.append_grows [OF assms(1,2) a]
  have s: "event_sink_state w' = s" "tool_dispatcher_state w' = tool_dispatcher_state w"
    "r = Inr u \<Longrightarrow> x = Inr u"
    using assms(3) a
    by (auto simp: emit_with_def advance_event_sequence_def split: sum.splits option.splits)
  then show "tool_dispatcher_state w' = tool_dispatcher_state w"
    and "set (log (event_sink_state w)) \<subseteq> set (log (event_sink_state w'))"
    using grow by auto
  show "s_inv (event_sink_state w') \<and> stamped {ev} w'" if "r = Inr u"
    using event_sink.append_ok [OF assms(1,2) a [unfolded s(3) [OF that]]] s(1)
    by (auto simp: stamped_def)
qed

lemma emit_with_settled:
  assumes "event_sink s_inv s_rec log app"
  shows "triple (settled d E) (emit_with app dur ev) (\<lambda>_. settled d E) (\<lambda>_. write_ahead d E)"
  unfolding triple_def
proof (intro allI impI)
  fix w :: "('m, 't, 's, 'c) run_world"
  assume w: "settled d E w"
  obtain r w' where r: "emit_with app dur ev w = (r, w')" by fastforce
  from w have "s_inv (event_sink_state w)" by (simp add: settled_def)
  note res = emit_with_result [OF assms this r]
  show "case emit_with app dur ev w of
      (Inr u, w') \<Rightarrow> settled d E w' | (Inl e, w') \<Rightarrow> write_ahead d E w'"
    using w res r stamped_mono [OF _ res(1)] by (cases r) (auto simp: settled_def write_ahead_def)
qed

lemma settled_emit:
  "triple (settled d E) (emit A ev) (\<lambda>_. settled d E) (\<lambda>_. write_ahead d E)"
  "triple (settled d E) (emit_durable A ev) (\<lambda>_. settled d E) (\<lambda>_. write_ahead d E)"
  unfolding emit_def emit_durable_def
  by (rule emit_with_settled, unfold_locales)+

lemma waiting_emit:
  "triple (waiting d F) (emit_durable A ev) (\<lambda>_. waiting d (insert ev F)) (\<lambda>_. write_ahead d E)"
  unfolding triple_def
proof (intro allI impI)
  fix w :: "('m, 't, 's, 'c) run_world"
  assume w: "waiting d F w"
  obtain r w' where r: "emit_durable A ev w = (r, w')" by fastforce
  from w have "s_inv (event_sink_state w)" by (simp add: waiting_def)
  note res = emit_with_result [OF durable.event_sink_axioms this r [unfolded emit_durable_def]]
  show "case emit_durable A ev w of
      (Inr u, w') \<Rightarrow> waiting d (insert ev F) w' | (Inl e, w') \<Rightarrow> write_ahead d E w'"
    using w res r stamped_mono [OF _ res(1)]
    by (cases r) (auto simp: waiting_def write_ahead_def stamped_insert [of ev F])
qed

section \<open>The steps of a tool call\<close>

lemma settled_finish:
  "triple (settled d E) (finish A rid s) (\<lambda>_. settled d E) (\<lambda>_. write_ahead d E)"
  unfolding finish_def
  by (rule triple_bind [OF settled_quiet [OF quiet_resolve]], rule triple_bind [OF settled_emit(2)])
    (simp add: run_simps)

lemma settled_finish_tool:
  "triple (settled d E) (finish_tool A rid s) (\<lambda>_. settled d E) (\<lambda>_. write_ahead d E)"
  unfolding finish_tool_def by (rule triple_bind [OF settled_finish]) (simp add: run_simps)

lemma execute_prepared_ahead:
  assumes "E \<subseteq> F"
  shows "triple (waiting d F) (execute_prepared_call A p auth) (\<lambda>_. settled d E) (\<lambda>_. write_ahead d E)"
  unfolding execute_prepared_call_def
  by (rule triple_bind [OF waiting_quiet [OF quiet_flag]])
    (use assms in \<open>auto simp: triple_def waiting_def settled_def write_ahead_def stamped_def split_beta
       Let_def\<close>)

lemma execute_unless_stopped_ahead:
  assumes "E \<subseteq> F"
  shows "triple (waiting d F) (execute_unless_stopped A rid p auth)
    (\<lambda>_. settled d E) (\<lambda>_. write_ahead d E)"
  unfolding execute_unless_stopped_def
proof (rule triple_bind [OF waiting_quiet [OF quiet_stopped]], goal_cases)
  case (1 stopped)
  show ?case
  proof (cases stopped)
    case None
    then show ?thesis
      by (auto intro!: triple_bind [OF execute_prepared_ahead [OF assms]] simp: run_simps)
  next
    case (Some status)
    then show ?thesis
      by (auto intro: triple_pre [OF settled_finish_tool] waiting_settled)
  qed
qed

lemma run_with_approval_ahead:
  assumes "E \<subseteq> insert (ApprovalResolved rid t (numbered_approval_id rid n) Approve None []) F"
  shows "triple (waiting d F) (run_with_approval A rid t n p reason)
    (\<lambda>_. settled d E) (\<lambda>_. write_ahead d E)"
  unfolding run_with_approval_def Let_def
proof (rule triple_bind [OF waiting_emit], rule triple_bind [OF waiting_quiet [OF quiet_decide]],
    rule triple_bind [OF waiting_quiet [OF quiet_stop_now]], goal_cases)
  case (1 u d' stopped)
  show ?case
  proof (cases stopped)
    case (Some status)
    then show ?thesis
      by (auto intro: triple_pre [OF settled_finish_tool] waiting_settled)
  next
    case None
    show ?thesis
    proof (cases "normalize_approval_decision d'")
      case Approve
      with None show ?thesis
        by (auto intro!: triple_bind [OF waiting_emit] execute_unless_stopped_ahead
            dest: subsetD [OF assms])
    next
      case (Deny denial)
      with None show ?thesis
        by (auto intro!: triple_bind [OF waiting_emit] simp: run_simps waiting_settled)
    qed
  qed
qed

lemma record_result_ahead:
  "triple (settled d E) (record_tool_result A rid t mcall result)
    (\<lambda>_. settled d E) (\<lambda>_. write_ahead d E)"
  unfolding record_tool_result_def emit_tool_result_def
proof (rule triple_bind [OF settled_emit(2)], rule triple_bind [OF settled_quiet [OF quiet_stop_now]],
    goal_cases)
  case (1 u stopped)
  show ?case
  proof (cases stopped)
    case (Some status)
    then show ?thesis by (auto intro!: triple_bind [OF settled_finish] simp: run_simps)
  next
    case None
    have "triple (settled d E)
      (case tr_output result of
         Failure error _ \<Rightarrow> emit A (ErrorEvent rid (Some t)
           \<lparr>ae_code = te_code error, ae_message = te_message error, ae_recoverable = True\<rparr> None [])
       | Success _ _ _ \<Rightarrow> op_return ()) (\<lambda>_. settled d E) (\<lambda>_. write_ahead d E)"
      by (cases "tr_output result") (simp_all add: settled_emit(1) run_simps)
    with None show ?thesis by (auto intro!: triple_bind simp: run_simps)
  qed
qed

text \<open>The events that must be committed before the call in hand reaches its handler.\<close>

definition call_record ::
    "run_id \<Rightarrow> turn_id \<Rightarrow> 'v model_tool_call \<Rightarrow> run_sequences \<Rightarrow> 't \<Rightarrow> 'v agent_event set" where
  "call_record rid t mcall sq d =
     (let call = \<lparr>tc_id = numbered_call_id rid (sq_tool_call sq + 1),
                  tc_tool_name = mtc_name mcall, tc_arguments = mtc_arguments mcall\<rparr>
      in insert (ToolCallRequested rid t (mtc_id mcall) call None [])
           (if approval_reason (a_prepare A d call) = None then {}
            else {ApprovalResolved rid t (numbered_approval_id rid (sq_approval sq + 1)) Approve None []}))"

lemma report_tool_ahead:
  "triple (settled d E)
    (case progress of
       ToolStopped outcome \<Rightarrow> op_return (ToolCallFinished outcome, sq)
     | ToolOutputReady out \<Rightarrow>
         op_bind (record_tool_result A rid t mcall \<lparr>tr_call_id = i, tr_output = out\<rparr>)
           (\<lambda>result. op_return (result, sq)))
    (\<lambda>_. settled d E) (\<lambda>_. write_ahead d E)"
  by (cases progress) (auto intro!: triple_bind [OF record_result_ahead] simp: run_simps)

lemma prepare_waiting:
  "triple (waiting d F) (prepare_call A call)
    (\<lambda>p w. waiting d F w \<and> p = a_prepare A d call) (\<lambda>_. write_ahead d E)"
  by (simp add: triple_def prepare_call_def waiting_def)

lemma drive_tool_call_ahead:
  "triple (waiting d {}) (drive_tool_call A rid t mcall sq)
    (\<lambda>_. settled d (call_record rid t mcall sq d)) (\<lambda>_. write_ahead d (call_record rid t mcall sq d))"
  unfolding drive_tool_call_def Let_def
  apply (rule triple_bind [OF waiting_emit], rule triple_bind [OF prepare_waiting])
  apply (unfold triple_conj, intro impI)
  subgoal for u p
    by (cases "approval_reason p")
      (auto intro!: triple_bind [OF run_with_approval_ahead]
         triple_bind [OF execute_unless_stopped_ahead] report_tool_ahead
       simp: call_record_def Let_def)
  done

lemma tool_effects_recorded:
  assumes w: "s_inv (event_sink_state w)"
    and run: "drive_tool_call A rid t mcall sq w = (r, w')"
    and changed: "tool_dispatcher_state w' \<noteq> tool_dispatcher_state w"
    and call: "call = \<lparr>tc_id = numbered_call_id rid (sq_tool_call sq + 1),
                 tc_tool_name = mtc_name mcall, tc_arguments = mtc_arguments mcall\<rparr>"
  shows "\<exists>q. ToolCallRequested rid t (mtc_id mcall) call (Some q) [] \<in> set (log (event_sink_state w'))"
    and "approval_reason (a_prepare A (tool_dispatcher_state w) call) \<noteq> None \<Longrightarrow>
      \<exists>q. ApprovalResolved rid t (numbered_approval_id rid (sq_approval sq + 1)) Approve (Some q) []
            \<in> set (log (event_sink_state w'))"
proof -
  let ?d = "tool_dispatcher_state w"
  let ?E = "call_record rid t mcall sq ?d"
  have "waiting ?d {} w" using w by (simp add: waiting_def stamped_def)
  from triple_result [OF drive_tool_call_ahead this, of rid t mcall sq] run
  have "write_ahead ?d ?E w'" by (cases r) (auto simp: settled_def)
  with changed have "stamped ?E w'" by (simp add: write_ahead_def)
  then show "\<exists>q. ToolCallRequested rid t (mtc_id mcall) call (Some q) []
      \<in> set (log (event_sink_state w'))"
    and "approval_reason (a_prepare A ?d call) \<noteq> None \<Longrightarrow>
      \<exists>q. ApprovalResolved rid t (numbered_approval_id rid (sq_approval sq + 1)) Approve (Some q) []
            \<in> set (log (event_sink_state w'))"
    by (auto simp: stamped_def call_record_def Let_def call split: if_splits)
qed

end

end
