(* ===== verification/Jsonl_Store.thy ===== *)
theory Jsonl_Store
  imports Replay Agent_Runtime
begin

text \<open>
  The append-only JSONL event store (crates/event-store/src/jsonl.rs). The file is its bytes;
  every file-system call that can fail takes the next entry of a schedule of faults, a failed
  write may have written any number of the record's bytes. The JSON codec (\<open>serde_json\<close>) is a
  parameter; what the store relies on is \<open>codec_ok\<close>: an encoded event decodes to itself and
  contains no newline. The path names one file that other processes do not replace; a clone of
  the store shares this state through its \<open>Arc\<close>.
\<close>

section \<open>Data\<close>

record ('v, 'j) event_codec =
  to_vec :: "'v agent_event \<Rightarrow> 'j + nat list"
  from_slice :: "nat list \<Rightarrow> 'j + 'v agent_event"

datatype ('v, 'io, 'j) event_store_error =
    Encode ustring 'j
  | OpenForAppend ustring 'io
  | InspectForAppend ustring 'io
  | OpenForRepair ustring 'io
  | RepairTail ustring 'io
  | UnterminatedLog ustring
  | AppendError ustring 'io
  | OpenForRead ustring 'io
  | LockForRead ustring 'io
  | ReadRecord ustring nat 'io
  | DecodeRecord ustring nat 'j
  | TruncatedRecord ustring nat
  | InvalidEventSequence ustring nat "event_sequence option" "event_sequence option"
  | ReplayFailed ustring replay_failure
  | ReconciliationConflict ustring event_sequence "'v agent_event list" "'v agent_event"

record append_file =
  parent_directory_needs_sync :: bool
  fully_validated :: bool
  line_count :: nat

text \<open>The outcome of one file-system call; \<open>IoErr k x\<close> in a write: \<open>k\<close> bytes went out before it.\<close>

datatype 'io io_outcome = IoOk | IoErr nat 'io

record 'io jsonl_store =
  js_path :: ustring
  js_append_file :: "append_file option"
  js_file :: "nat list option"
  js_io :: "'io io_outcome list"

datatype append_position = PosEmpty | PosLegacy | PosSequenced event_sequence

record 'v persisted_agent_event =
  pe_sequence :: "event_sequence option"
  pe_event :: "'v agent_event"

type_synonym ('a, 'v, 'io, 'j) store_op =
  "(('v, 'io, 'j) event_store_error, 'io jsonl_store, 'a) op"

section \<open>File-system calls\<close>

definition next_outcome :: "'io jsonl_store \<Rightarrow> 'io io_outcome \<times> 'io jsonl_store" where
  "next_outcome s =
     (case js_io s of [] \<Rightarrow> (IoOk, s) | r # rest \<Rightarrow> (r, s\<lparr>js_io := rest\<rparr>))"

text \<open>A call without effect on the bytes: open, lock, seek, read, flush, sync.\<close>

definition io_call ::
    "(ustring \<Rightarrow> 'io \<Rightarrow> ('v, 'io, 'j) event_store_error) \<Rightarrow> (unit, 'v, 'io, 'j) store_op" where
  "io_call err s =
     (case next_outcome s of
        (IoOk, s1) \<Rightarrow> (Inr (), s1)
      | (IoErr k x, s1) \<Rightarrow> (Inl (err (js_path s) x), s1))"

definition file_bytes :: "'io jsonl_store \<Rightarrow> nat list" where
  "file_bytes s = (case js_file s of Some b \<Rightarrow> b | None \<Rightarrow> [])"

definition put_bytes :: "nat list \<Rightarrow> 'io jsonl_store \<Rightarrow> 'io jsonl_store" where
  "put_bytes b s = s\<lparr>js_file := Some b\<rparr>"

text \<open>\<open>write_all\<close> in append mode, with the flush.\<close>

definition write_record :: "nat list \<Rightarrow> (unit, 'v, 'io, 'j) store_op" where
  "write_record rec s =
     (case next_outcome s of
        (IoOk, s1) \<Rightarrow> (Inr (), put_bytes (file_bytes s @ rec) s1)
      | (IoErr k x, s1) \<Rightarrow>
          (Inl (AppendError (js_path s) x), put_bytes (file_bytes s @ take k rec) s1))"

definition fail_with ::
    "(ustring \<Rightarrow> ('v, 'io, 'j) event_store_error) \<Rightarrow> ('a, 'v, 'io, 'j) store_op" where
  "fail_with err s = (Inl (err (js_path s)), s)"

definition get_bytes :: "(nat list, 'v, 'io, 'j) store_op" where
  "get_bytes s = (Inr (file_bytes s), s)"

section \<open>Creating stores\<close>

definition store_new :: "ustring \<Rightarrow> nat list option \<Rightarrow> 'io io_outcome list \<Rightarrow> 'io jsonl_store" where
  "store_new path disk outcomes =
     \<lparr>js_path = path, js_append_file = None, js_file = disk, js_io = outcomes\<rparr>"

text \<open>\<open>create_new\<close>: an existing file is an error of the operating system, \<open>already\<close>.\<close>

definition store_create_new ::
    "'io \<Rightarrow> ustring \<Rightarrow> nat list option \<Rightarrow> 'io io_outcome list
       \<Rightarrow> ('v, 'io, 'j) event_store_error + 'io jsonl_store" where
  "store_create_new already path disk outcomes =
     (case io_call OpenForAppend (store_new path disk outcomes) of
        (Inl e, _) \<Rightarrow> Inl e
      | (Inr _, s) \<Rightarrow>
          if disk \<noteq> None then Inl (OpenForAppend path already)
          else Inr (s\<lparr>js_file := Some [],
                      js_append_file := Some \<lparr>parent_directory_needs_sync = True,
                        fully_validated = True, line_count = 0\<rparr>\<rparr>))"

section \<open>Reading\<close>

definition newline :: nat where
  "newline = 10"

text \<open>
  The records of the bytes, as \<open>read_until\<close> yields them: each with whether its newline was there.
\<close>

function split_records :: "nat list \<Rightarrow> (nat list \<times> bool) list" where
  "split_records [] = []"
| "split_records (b # bs) =
     (let rec = takeWhile (\<lambda>c. c \<noteq> newline) (b # bs);
          rest = dropWhile (\<lambda>c. c \<noteq> newline) (b # bs)
      in if rest = [] then [(rec, False)] else (rec, True) # split_records (tl rest))"
  by pat_completeness auto
termination
proof (relation "measure length")
  fix b bs rec rest
  assume "rec = takeWhile (\<lambda>c. c \<noteq> newline) (b # bs)"
    and r: "rest = dropWhile (\<lambda>c. c \<noteq> newline) (b # bs)" and "rest \<noteq> []"
  from \<open>rest \<noteq> []\<close> have "length (tl rest) < length rest" by (cases rest) auto
  also have "\<dots> \<le> length (b # bs)" unfolding r by (rule length_dropWhile_le)
  finally show "(tl rest, b # bs) \<in> measure length" by simp
qed simp

definition saturating_succ :: "event_sequence \<Rightarrow> event_sequence" where
  "saturating_succ q =
     (case checked_succ (as_u64 q) of Some n \<Rightarrow> EventSequence n | None \<Rightarrow> q)"

text \<open>
  The loop of \<open>read_all_records_from\<close>. \<open>expected\<close> is \<open>None\<close> before the first record, then the
  sequence the next record must have (none, in a legacy log).
\<close>

definition check_sequence ::
    "nat \<Rightarrow> event_sequence option option \<Rightarrow> event_sequence option \<Rightarrow> (unit, 'v, 'io, 'j) store_op" where
  "check_sequence line expected found =
     (case expected of
        None \<Rightarrow>
          (case found of
             Some q \<Rightarrow>
               if q \<noteq> EventSequence 1 then
                 fail_with (\<lambda>p. InvalidEventSequence p line (Some (EventSequence 1)) (Some q))
               else op_return ()
           | None \<Rightarrow> op_return ())
      | Some e \<Rightarrow>
          if found \<noteq> e then fail_with (\<lambda>p. InvalidEventSequence p line e found) else op_return ())"

fun read_records ::
    "('v, 'j) event_codec \<Rightarrow> nat \<Rightarrow> event_sequence option option \<Rightarrow> (nat list \<times> bool) list
       \<Rightarrow> ('v persisted_agent_event list, 'v, 'io, 'j) store_op" where
  "read_records C line expected [] =
     op_bind (io_call (\<lambda>p. ReadRecord p (line + 1))) (\<lambda>_. op_return [])"
| "read_records C line expected ((rec, terminated) # rest) =
     op_bind (io_call (\<lambda>p. ReadRecord p (line + 1))) (\<lambda>_.
     case from_slice C rec of
       Inl j \<Rightarrow> fail_with (\<lambda>p. DecodeRecord p (line + 1) j)
     | Inr ev \<Rightarrow>
         let found = event_sequence_of ev
         in op_bind (check_sequence (line + 1) expected found) (\<lambda>_.
            if \<not> terminated then fail_with (\<lambda>p. TruncatedRecord p (line + 1))
            else op_bind (read_records C (line + 1) (Some (map_option saturating_succ found)) rest)
              (\<lambda>events. op_return (\<lparr>pe_sequence = found, pe_event = ev\<rparr> # events))))"

definition read_all_records_from ::
    "('v, 'j) event_codec \<Rightarrow> ('v persisted_agent_event list, 'v, 'io, 'j) store_op" where
  "read_all_records_from C =
     op_bind get_bytes (\<lambda>b. read_records C 0 None (split_records b))"

text \<open>Opening for read; a missing file is an error of the operating system.\<close>

definition open_for_read ::
    "'io \<Rightarrow> (ustring \<Rightarrow> 'io \<Rightarrow> ('v, 'io, 'j) event_store_error) \<Rightarrow> (unit, 'v, 'io, 'j) store_op" where
  "open_for_read missing err =
     op_bind (io_call err) (\<lambda>_ s.
       if js_file s = None then (Inl (err (js_path s) missing), s) else (Inr (), s))"

definition read_all_records ::
    "'io \<Rightarrow> ('v, 'j) event_codec \<Rightarrow> ('v persisted_agent_event list, 'v, 'io, 'j) store_op" where
  "read_all_records missing C =
     op_bind (open_for_read missing OpenForRead) (\<lambda>_.
     op_bind (io_call LockForRead) (\<lambda>_ s.
       let (r, s1) = read_all_records_from C s; (u, s2) = io_call LockForRead s1
       in (case r of Inl e \<Rightarrow> Inl e | Inr events \<Rightarrow> (case u of Inl e \<Rightarrow> Inl e | Inr _ \<Rightarrow> Inr events), s2)))"

definition read_all_records_unlocked ::
    "'io \<Rightarrow> ('v, 'j) event_codec \<Rightarrow> ('v persisted_agent_event list, 'v, 'io, 'j) store_op" where
  "read_all_records_unlocked missing C =
     op_bind (open_for_read missing OpenForRead) (\<lambda>_. read_all_records_from C)"

definition read_all ::
    "'io \<Rightarrow> ('v, 'j) event_codec \<Rightarrow> ('v agent_event list, 'v, 'io, 'j) store_op" where
  "read_all missing C =
     op_bind (read_all_records missing C) (\<lambda>records. op_return (map pe_event records))"

text \<open>The three replays of the store.\<close>

definition store_replay_with ::
    "('v agent_event list \<Rightarrow> 'v run_replay replay_result) \<Rightarrow> 'io \<Rightarrow> ('v, 'j) event_codec
       \<Rightarrow> ('v run_replay, 'v, 'io, 'j) store_op" where
  "store_replay_with replay missing C =
     op_bind (read_all missing C) (\<lambda>events.
     case replay events of
       Inl e \<Rightarrow> fail_with (\<lambda>p. ReplayFailed p e)
     | Inr r \<Rightarrow> op_return r)"

definition store_replay ::
    "'io \<Rightarrow> ('v, 'j) event_codec \<Rightarrow> ('v run_replay, 'v, 'io, 'j) store_op" where
  "store_replay = store_replay_with replay_events"

definition store_replay_with_compatibility ::
    "replay_compatibility \<Rightarrow> 'io \<Rightarrow> ('v, 'j) event_codec \<Rightarrow> ('v run_replay, 'v, 'io, 'j) store_op" where
  "store_replay_with_compatibility mode =
     store_replay_with (\<lambda>events. replay_events_with_compatibility events mode)"

definition store_replay_for_recovery ::
    "'io \<Rightarrow> ('v, 'j) event_codec \<Rightarrow> ('v run_replay, 'v, 'io, 'j) store_op" where
  "store_replay_for_recovery = store_replay_with replay_events_for_recovery"

section \<open>The end of the file\<close>

text \<open>\<open>iter().rposition\<close> and the backward search in chunks for the last newline before \<open>e\<close>.\<close>

fun rposition :: "('a \<Rightarrow> bool) \<Rightarrow> 'a list \<Rightarrow> nat option" where
  "rposition p [] = None"
| "rposition p (x # xs) =
     (case rposition p xs of Some i \<Rightarrow> Some (Suc i) | None \<Rightarrow> if p x then Some 0 else None)"

definition SEARCH_CHUNK_SIZE :: nat where
  "SEARCH_CHUNK_SIZE = 8 * 1024"

function search_newline ::
    "(ustring \<Rightarrow> 'io \<Rightarrow> ('v, 'io, 'j) event_store_error) \<Rightarrow> nat list \<Rightarrow> nat
       \<Rightarrow> (nat, 'v, 'io, 'j) store_op" where
  "search_newline err bytes e =
     (if e = 0 then op_return 0
      else let chunk_start = e - SEARCH_CHUNK_SIZE;
               chunk = take (e - chunk_start) (drop chunk_start bytes)
           in op_bind (io_call err) (\<lambda>_.
              case rposition (\<lambda>b. b = newline) chunk of
                Some i \<Rightarrow> op_return (chunk_start + i + 1)
              | None \<Rightarrow> search_newline err bytes chunk_start))"
  by pat_completeness auto
termination
  by (relation "measure (\<lambda>(err, bytes, e). e)") (auto simp: SEARCH_CHUNK_SIZE_def)

declare search_newline.simps [simp del]

definition read_last_event ::
    "('v, 'j) event_codec \<Rightarrow> nat \<Rightarrow> ('v agent_event, 'v, 'io, 'j) store_op" where
  "read_last_event C line =
     op_bind get_bytes (\<lambda>bytes.
     op_bind (search_newline InspectForAppend bytes (length bytes - 1)) (\<lambda>record_start.
     op_bind (io_call InspectForAppend) (\<lambda>_.
     case from_slice C (take (length bytes - record_start - 1) (drop record_start bytes)) of
       Inl j \<Rightarrow> fail_with (\<lambda>p. DecodeRecord p line j)
     | Inr ev \<Rightarrow> op_return ev)))"

section \<open>Appending\<close>

definition get_append_file :: "(append_file option, 'v, 'io, 'j) store_op" where
  "get_append_file s = (Inr (js_append_file s), s)"

definition set_append_file :: "append_file option \<Rightarrow> (unit, 'v, 'io, 'j) store_op" where
  "set_append_file f s = (Inr (), s\<lparr>js_append_file := f\<rparr>)"

text \<open>Updating the open file; the code holds it as \<open>&mut AppendFile\<close>.\<close>

definition update_append_file :: "(append_file \<Rightarrow> append_file) \<Rightarrow> (unit, 'v, 'io, 'j) store_op" where
  "update_append_file f s = (Inr (), s\<lparr>js_append_file := map_option f (js_append_file s)\<rparr>)"

definition open_append_file :: "(append_file, 'v, 'io, 'j) store_op" where
  "open_append_file =
     op_bind (io_call OpenForAppend) (\<lambda>_ s.
       (Inr \<lparr>parent_directory_needs_sync = True, fully_validated = False, line_count = 0\<rparr>,
        put_bytes (file_bytes s) s))"

definition position_after ::
    "nat \<Rightarrow> 'v agent_event \<Rightarrow> append_position \<times> nat" where
  "position_after count last_event =
     (case event_sequence_of last_event of
        Some q \<Rightarrow> (PosSequenced (saturating_succ q), unat (as_u64 (saturating_succ q)))
      | None \<Rightarrow> (PosLegacy, count + 1))"

definition inspect_append_position ::
    "'io \<Rightarrow> ('v, 'j) event_codec \<Rightarrow> append_file \<Rightarrow> (append_position \<times> nat, 'v, 'io, 'j) store_op"
where
  "inspect_append_position missing C file =
     op_bind (io_call InspectForAppend) (\<lambda>_.
     op_bind get_bytes (\<lambda>bytes.
     if bytes = [] then
       op_bind (update_append_file (\<lambda>f. f\<lparr>fully_validated := True, line_count := 0\<rparr>)) (\<lambda>_.
       op_return (PosEmpty, 1))
     else
       op_bind (io_call InspectForAppend) (\<lambda>_.
       if last bytes \<noteq> newline then fail_with UnterminatedLog
       else if fully_validated file then
         op_bind (read_last_event C (max (line_count file) 1)) (\<lambda>last_event.
         op_return (position_after (line_count file) last_event))
       else
         op_bind (read_all_records_unlocked missing C) (\<lambda>records.
         op_bind (update_append_file
                    (\<lambda>f. f\<lparr>line_count := length records, fully_validated := True\<rparr>)) (\<lambda>_.
         op_return (position_after (length records) (pe_event (last records))))))))"

definition validate_append_sequence ::
    "'io \<Rightarrow> ('v, 'j) event_codec \<Rightarrow> append_file \<Rightarrow> event_sequence option \<Rightarrow> (unit, 'v, 'io, 'j) store_op"
where
  "validate_append_sequence missing C file found =
     op_bind (inspect_append_position missing C file) (\<lambda>(position, line).
     let invalid = (\<lambda>expected. fail_with (\<lambda>p. InvalidEventSequence p line expected found))
     in case position of
          PosEmpty \<Rightarrow>
            if found = None \<or> found = Some (EventSequence 1) then op_return ()
            else invalid (Some (EventSequence 1))
        | PosLegacy \<Rightarrow> if found = None then op_return () else invalid None
        | PosSequenced expected \<Rightarrow>
            if found = Some expected then op_return () else invalid (Some expected))"

definition sync_parent_directory :: "(unit, 'v, 'io, 'j) store_op" where
  "sync_parent_directory = io_call AppendError"

definition sync_record :: "append_file \<Rightarrow> (unit, 'v, 'io, 'j) store_op" where
  "sync_record file =
     op_bind (io_call AppendError) (\<lambda>_.
     if parent_directory_needs_sync file then
       op_bind sync_parent_directory (\<lambda>_.
       update_append_file (\<lambda>f. f\<lparr>parent_directory_needs_sync := False\<rparr>))
     else op_return ())"

text \<open>The closure between lock and unlock.\<close>

definition append_locked ::
    "'io \<Rightarrow> ('v, 'j) event_codec \<Rightarrow> append_file \<Rightarrow> event_sequence option \<Rightarrow> nat list \<Rightarrow> bool
       \<Rightarrow> (unit, 'v, 'io, 'j) store_op" where
  "append_locked missing C file sequence rec durable =
     op_bind (validate_append_sequence missing C file sequence) (\<lambda>_.
     op_bind (write_record rec) (\<lambda>_.
     op_bind (if durable then sync_record file else op_return ()) (\<lambda>_.
     update_append_file (\<lambda>f. f\<lparr>line_count := line_count f + 1\<rparr>))))"

text \<open>
  The block of lock, closure and unlock; an error of the closure or the unlock closes the file
  so that the next append validates again, an error of the lock itself does not.
\<close>

definition append_to_file ::
    "'io \<Rightarrow> ('v, 'j) event_codec \<Rightarrow> append_file \<Rightarrow> event_sequence option \<Rightarrow> nat list \<Rightarrow> bool
       \<Rightarrow> (unit, 'v, 'io, 'j) store_op" where
  "append_to_file missing C file sequence rec durable =
     op_bind (io_call InspectForAppend) (\<lambda>_ s.
       let (r, s1) = append_locked missing C file sequence rec durable s;
           (u, s2) = io_call AppendError s1
       in case (case r of Inl e \<Rightarrow> Inl e | Inr _ \<Rightarrow> u) of
            Inl e \<Rightarrow> (Inl e, s2\<lparr>js_append_file := None\<rparr>)
          | Inr _ \<Rightarrow> (Inr (), s2))"

definition encode_record ::
    "('v, 'j) event_codec \<Rightarrow> event_sequence option \<Rightarrow> 'v agent_event \<Rightarrow> (nat list, 'v, 'io, 'j) store_op"
where
  "encode_record C sequence ev =
     (case to_vec C (case sequence of Some q \<Rightarrow> with_event_sequence q ev | None \<Rightarrow> ev) of
        Inl j \<Rightarrow> fail_with (\<lambda>p. Encode p j)
      | Inr b \<Rightarrow> op_return (b @ [newline]))"

definition append_with_durability ::
    "'io \<Rightarrow> ('v, 'j) event_codec \<Rightarrow> event_sequence option \<Rightarrow> 'v agent_event \<Rightarrow> bool
       \<Rightarrow> (unit, 'v, 'io, 'j) store_op" where
  "append_with_durability missing C sequence0 ev durable =
     (let sequence = (case sequence0 of Some q \<Rightarrow> Some q | None \<Rightarrow> event_sequence_of ev)
      in op_bind (encode_record C sequence ev) (\<lambda>rec.
         op_bind get_append_file (\<lambda>opened.
         op_bind (case opened of
                    Some file \<Rightarrow> op_return file
                  | None \<Rightarrow>
                      op_bind open_append_file (\<lambda>file.
                      op_bind (set_append_file (Some file)) (\<lambda>_. op_return file))) (\<lambda>file.
         append_to_file missing C file sequence rec durable))))"

text \<open>The public appends, without a sequence of the runtime and, as an event sink, with it.\<close>

definition store_append ::
    "'io \<Rightarrow> ('v, 'j) event_codec \<Rightarrow> 'v agent_event \<Rightarrow> (unit, 'v, 'io, 'j) store_op" where
  "store_append missing C ev = append_with_durability missing C None ev False"

definition store_append_durable ::
    "'io \<Rightarrow> ('v, 'j) event_codec \<Rightarrow> 'v agent_event \<Rightarrow> (unit, 'v, 'io, 'j) store_op" where
  "store_append_durable missing C ev = append_with_durability missing C None ev True"

definition jsonl_sink_append ::
    "'io \<Rightarrow> ('v, 'j) event_codec \<Rightarrow> 'io jsonl_store \<Rightarrow> event_sequence \<Rightarrow> 'v agent_event
       \<Rightarrow> (('v, 'io, 'j) event_store_error + unit) \<times> 'io jsonl_store" where
  "jsonl_sink_append missing C s q ev = append_with_durability missing C (Some q) ev False s"

definition jsonl_sink_append_durable ::
    "'io \<Rightarrow> ('v, 'j) event_codec \<Rightarrow> 'io jsonl_store \<Rightarrow> event_sequence \<Rightarrow> 'v agent_event
       \<Rightarrow> (('v, 'io, 'j) event_store_error + unit) \<times> 'io jsonl_store" where
  "jsonl_sink_append_durable missing C s q ev = append_with_durability missing C (Some q) ev True s"

section \<open>Recovery\<close>

definition repair_truncated_tail :: "'io \<Rightarrow> (nat, 'v, 'io, 'j) store_op" where
  "repair_truncated_tail missing =
     op_bind (set_append_file None) (\<lambda>_.
     op_bind (open_for_read missing OpenForRepair) (\<lambda>_.
     op_bind (io_call RepairTail) (\<lambda>_.
     op_bind get_bytes (\<lambda>bytes.
     if bytes = [] then op_return 0
     else
       op_bind (io_call RepairTail) (\<lambda>_.
       if last bytes = newline then op_return 0
       else
         op_bind (search_newline RepairTail bytes (length bytes)) (\<lambda>committed_length.
         op_bind (io_call RepairTail) (\<lambda>_.
         op_bind (\<lambda>s. (Inr (), put_bytes (take committed_length bytes) s)) (\<lambda>_.
         op_bind (io_call RepairTail) (\<lambda>_.
         op_return (length bytes - committed_length))))))))))"

definition sync_existing_log :: "'io \<Rightarrow> (unit, 'v, 'io, 'j) store_op" where
  "sync_existing_log missing =
     op_bind (open_for_read missing OpenForAppend) (\<lambda>_.
     op_bind (io_call AppendError) (\<lambda>_. sync_parent_directory))"

fun has_same_durable_identity :: "'v agent_event \<Rightarrow> 'v agent_event \<Rightarrow> bool" where
  "has_same_durable_identity (ToolCallRequested r1 _ _ c1 _ _) (ToolCallRequested r2 _ _ c2 _ _) =
     (r1 = r2 \<and> tc_id c1 = tc_id c2)"
| "has_same_durable_identity (ApprovalRequested r1 _ q1 _ _) (ApprovalRequested r2 _ q2 _ _) =
     (r1 = r2 \<and> ar_id q1 = ar_id q2)"
| "has_same_durable_identity (ApprovalResolved r1 _ a1 _ _ _) (ApprovalResolved r2 _ a2 _ _ _) =
     (r1 = r2 \<and> a1 = a2)"
| "has_same_durable_identity (ToolResultEvent r1 _ w1 _ _) (ToolResultEvent r2 _ w2 _ _) =
     (r1 = r2 \<and> tr_call_id w1 = tr_call_id w2)"
| "has_same_durable_identity (RunFinished r1 _ _ _) (RunFinished r2 _ _ _) = (r1 = r2)"
| "has_same_durable_identity _ _ = False"

definition matches_attempt ::
    "event_sequence \<Rightarrow> event_durability \<Rightarrow> 'v agent_event \<Rightarrow> 'v persisted_agent_event \<Rightarrow> bool" where
  "matches_attempt q durability attempted r \<longleftrightarrow>
     pe_sequence r = Some q
     \<or> durability = Durable \<and> has_same_durable_identity (pe_event r) attempted"

definition reconcile_records ::
    "'io \<Rightarrow> ('v, 'j) event_codec \<Rightarrow> event_sequence \<Rightarrow> 'v agent_event \<Rightarrow> event_durability
       \<Rightarrow> 'v persisted_agent_event list \<Rightarrow> (unit, 'v, 'io, 'j) store_op" where
  "reconcile_records missing C q ev durability records =
     (let attempted = with_event_sequence q ev;
          conflict = (\<lambda>evs. fail_with (\<lambda>p. ReconciliationConflict p q evs attempted));
          persisted = filter (matches_attempt q durability attempted) records
      in if list_ex (\<lambda>r. pe_sequence r = None) records then conflict (map pe_event records)
         else if length persisted = 1 \<and> pe_sequence (hd persisted) = Some q
                 \<and> pe_event (hd persisted) = attempted then
           (if durability = Durable then sync_existing_log missing else op_return ())
         else if persisted \<noteq> [] then conflict (map pe_event persisted)
         else if q \<noteq> EventSequence (of_nat (length records) + 1) then
           conflict (if records = [] then [] else [pe_event (last records)])
         else append_with_durability missing C (Some q) ev (durability = Durable))"

definition path_exists :: "(bool, 'v, 'io, 'j) store_op" where
  "path_exists s = (Inr (js_file s \<noteq> None), s)"

definition reconcile ::
    "'io \<Rightarrow> ('v, 'j) event_codec \<Rightarrow> event_sequence \<Rightarrow> 'v agent_event \<Rightarrow> event_durability
       \<Rightarrow> (unit, 'v, 'io, 'j) store_op" where
  "reconcile missing C q ev durability =
     op_bind path_exists (\<lambda>exists.
     op_bind (if exists then
                op_bind (repair_truncated_tail missing) (\<lambda>_. read_all_records missing C)
              else op_return []) (\<lambda>records.
     reconcile_records missing C q ev durability records))"

end
