(* ===== verification/Jsonl_Correct.thy ===== *)
theory Jsonl_Correct
  imports Jsonl_Store Event_Sink
begin

text \<open>
  The JSONL store keeps the contract of an event sink: whatever calls of the file system fail,
  an append changes the committed log by nothing or by its one event, and a success always
  commits it. The committed log is what the complete lines of the file decode to.
\<close>

definition codec_ok :: "('v, 'j) event_codec \<Rightarrow> bool" where
  "codec_ok C \<longleftrightarrow>
     (\<forall>ev b. to_vec C ev = Inr b \<longrightarrow> newline \<notin> set b \<and> from_slice C b = Inr ev)"

lemma codec_okD:
  "codec_ok C \<Longrightarrow> to_vec C ev = Inr b \<Longrightarrow> newline \<notin> set b"
  "codec_ok C \<Longrightarrow> to_vec C ev = Inr b \<Longrightarrow> from_slice C b = Inr ev"
  by (auto simp: codec_ok_def)

definition committed_record ::
    "('v, 'j) event_codec \<Rightarrow> nat list \<times> bool \<Rightarrow> 'v agent_event list" where
  "committed_record C r =
     (if snd r then (case from_slice C (fst r) of Inr ev \<Rightarrow> [ev] | Inl _ \<Rightarrow> []) else [])"

definition committed :: "('v, 'j) event_codec \<Rightarrow> nat list \<Rightarrow> 'v agent_event list" where
  "committed C bytes = concat (map (committed_record C) (split_records bytes))"

definition store_log :: "('v, 'j) event_codec \<Rightarrow> 'io jsonl_store \<Rightarrow> 'v agent_event list" where
  "store_log C s = committed C (file_bytes s)"

section \<open>Records and bytes\<close>

lemma split_records_line:
  assumes "newline \<notin> set r"
  shows "split_records (r @ newline # bs) = (r, True) # split_records bs"
proof -
  have "takeWhile (\<lambda>c. c \<noteq> newline) (r @ newline # bs) = r"
    "dropWhile (\<lambda>c. c \<noteq> newline) (r @ newline # bs) = newline # bs"
    using assms by (induction r) auto
  moreover obtain b rest where "r @ newline # bs = b # rest" by (cases "r @ newline # bs") auto
  ultimately show ?thesis by simp
qed

lemma split_records_tail:
  assumes "newline \<notin> set r"
  shows "split_records r = (if r = [] then [] else [(r, False)])"
proof (cases r)
  case (Cons b rest)
  from assms have "takeWhile (\<lambda>c. c \<noteq> newline) r = r" "dropWhile (\<lambda>c. c \<noteq> newline) r = []"
    by (simp_all add: takeWhile_eq_all_conv dropWhile_eq_Nil_conv) (auto simp: takeWhile_eq_all_conv)
  then show ?thesis using Cons by simp
qed simp

text \<open>Bytes that end in a newline, or none at all: the next record starts on a line of its own.\<close>

definition terminated :: "nat list \<Rightarrow> bool" where
  "terminated b \<longleftrightarrow> b = [] \<or> last b = newline"

lemma first_line:
  assumes "b \<noteq> []" and "last b = newline"
  obtains r rest where "b = r @ newline # rest" "newline \<notin> set r" "terminated rest"
proof -
  from assms have "newline \<in> set b" by (metis last_in_set)
  then obtain r rest where b: "b = r @ newline # rest" "newline \<notin> set r"
    by (metis split_list_first)
  with assms have "terminated rest" by (auto simp: terminated_def split: if_splits)
  with b that show thesis by blast
qed

lemma split_records_append:
  "terminated b \<Longrightarrow> split_records (b @ bs) = split_records b @ split_records bs"
proof (induction "length b" arbitrary: b rule: less_induct)
  case less
  show ?case
  proof (cases "b = []")
    case False
    with less.prems first_line [of b] obtain r rest where
      b: "b = r @ newline # rest" "newline \<notin> set r" "terminated rest"
      by (auto simp: terminated_def)
    with less.hyps [of rest] show ?thesis
      using split_records_line [OF b(2), of "rest @ bs"] split_records_line [OF b(2), of rest]
      by simp
  qed simp
qed

lemma committed_append:
  "terminated b \<Longrightarrow> committed C (b @ bs) = committed C b @ committed C bs"
  by (simp add: committed_def split_records_append)

lemma committed_Nil [simp]: "committed C [] = []"
  by (simp add: committed_def)

lemma committed_tail: "newline \<notin> set r \<Longrightarrow> committed C r = []"
  by (simp add: committed_def split_records_tail committed_record_def)

lemma committed_record_line:
  assumes "codec_ok C" and "to_vec C ev = Inr r"
  shows "committed C (r @ [newline]) = [ev]"
  using split_records_line [OF codec_okD(1) [OF assms], of "[]"] codec_okD(2) [OF assms]
  by (simp add: committed_def committed_record_def)

text \<open>A record written in part commits nothing, in full its event.\<close>

lemma committed_partial:
  assumes "codec_ok C" and "to_vec C ev = Inr r" and "terminated b"
  shows "committed C (b @ take k (r @ [newline])) =
     committed C b @ (if k > length r then [ev] else [])"
proof (cases "k > length r")
  case True
  then show ?thesis
    using committed_append [OF assms(3), of C "r @ [newline]"] committed_record_line [OF assms(1,2)]
    by simp
next
  case False
  then have "newline \<notin> set (take k (r @ [newline]))"
    using codec_okD(1) [OF assms(1,2)] by (auto dest: in_set_takeD)
  then show ?thesis using False committed_append [OF assms(3), of C "take k r"] committed_tail by simp
qed

section \<open>Operations that leave the bytes alone\<close>

definition keeps_bytes :: "('a, 'v, 'io, 'j) store_op \<Rightarrow> bool" where
  "keeps_bytes m \<longleftrightarrow> (\<forall>s. file_bytes (snd (m s)) = file_bytes s)"

lemma keeps_bind [intro!]:
  "keeps_bytes m \<Longrightarrow> (\<And>a. keeps_bytes (f a)) \<Longrightarrow> keeps_bytes (op_bind m f)"
  by (auto simp: keeps_bytes_def op_bind_def split: prod.split sum.split) (metis snd_conv)+

lemma keeps_simple [simp, intro!]:
  "keeps_bytes (op_return a)" "keeps_bytes (fail_with e)" "keeps_bytes get_bytes"
  "keeps_bytes get_append_file" "keeps_bytes (set_append_file f)" "keeps_bytes (update_append_file g)"
  by (simp_all add: keeps_bytes_def op_return_def fail_with_def get_bytes_def get_append_file_def
      set_append_file_def update_append_file_def file_bytes_def)

lemma next_outcome_bytes: "next_outcome s = (r, s1) \<Longrightarrow> file_bytes s1 = file_bytes s"
  by (auto simp: next_outcome_def file_bytes_def split: list.splits)

lemma keeps_io [simp, intro!]: "keeps_bytes (io_call err)"
  using next_outcome_bytes
  by (auto simp: keeps_bytes_def io_call_def split: prod.split io_outcome.split) 

lemma keeps_open_append [simp, intro!]: "keeps_bytes open_append_file"
  unfolding open_append_file_def
  by (intro keeps_bind keeps_io) (simp add: keeps_bytes_def put_bytes_def file_bytes_def)

lemma keeps_open_read [simp, intro!]: "keeps_bytes (open_for_read missing err)"
  unfolding open_for_read_def
  by (intro keeps_bind keeps_io) (simp add: keeps_bytes_def)

lemma keeps_check_sequence [simp, intro!]: "keeps_bytes (check_sequence line expected found)"
  by (simp add: check_sequence_def split: option.split)

lemma keeps_read_records [simp, intro!]: "keeps_bytes (read_records C line expected rs)"
proof (induction rs arbitrary: line expected)
  case (Cons r rs)
  obtain rec t where r: "r = (rec, t)" by (cases r)
  show ?case unfolding r read_records.simps
    by (intro keeps_bind keeps_io) (auto simp: Let_def Cons.IH split: sum.split)
qed auto

lemma keeps_read_from [simp, intro!]: "keeps_bytes (read_all_records_from C)"
  unfolding read_all_records_from_def by auto

lemma keeps_search [simp, intro!]: "keeps_bytes (search_newline err bytes e)"
proof (induction err bytes e rule: search_newline.induct)
  case (1 err bytes e)
  show ?case
    by (subst search_newline.simps) (auto simp: Let_def split: option.split intro!: 1)
qed

lemma keeps_last_event [simp, intro!]: "keeps_bytes (read_last_event C line)"
  unfolding read_last_event_def by (auto split: sum.split)

lemma keeps_triple:
  assumes "keeps_bytes m"
  shows "triple (\<lambda>s. file_bytes s = b) m (\<lambda>_ s. file_bytes s = b) (\<lambda>_ s. file_bytes s = b)"
proof -
  have "file_bytes (snd (m s)) = file_bytes s" for s using assms by (simp add: keeps_bytes_def)
  then show ?thesis by (auto simp: triple_def split: prod.split sum.split) (metis snd_conv)+
qed

section \<open>Appending\<close>

lemma keepsD: "keeps_bytes m \<Longrightarrow> m s = (r, s') \<Longrightarrow> file_bytes s' = file_bytes s"
  by (metis keeps_bytes_def snd_conv)

lemma keeps_inspect [simp, intro!]: "keeps_bytes (inspect_append_position missing C file)"
  unfolding inspect_append_position_def read_all_records_unlocked_def by auto

lemma keeps_validate [simp, intro!]: "keeps_bytes (validate_append_sequence missing C file found)"
  unfolding validate_append_sequence_def
  by (auto simp: Let_def split: append_position.split)

lemma keeps_sync_record [simp, intro!]: "keeps_bytes (sync_record file)"
  unfolding sync_record_def sync_parent_directory_def by auto

lemma op_bind_get [simp]: "op_bind get_bytes f s = f (file_bytes s) s"
  by (simp add: op_bind_def get_bytes_def)

lemma fail_with_neq [simp]: "fail_with e s \<noteq> (Inr a, s')"
  by (simp add: fail_with_def)

lemma inspect_terminated:
  fixes s :: "'io jsonl_store" and C :: "('v, 'j) event_codec"
  assumes "inspect_append_position missing C file s = (Inr pl, s')"
  shows "terminated (file_bytes s)"
proof -
  obtain r :: "('v, 'io, 'j) event_store_error + unit" and s1
    where io: "io_call InspectForAppend s = (r, s1)" by fastforce
  from assms io have "r = Inr ()"
    by (cases r) (simp_all add: inspect_append_position_def op_bind_def [of "io_call _"])
  with assms io have "terminated (file_bytes s1)"
    unfolding inspect_append_position_def terminated_def
    by (cases "file_bytes s1 = []"; cases "last (file_bytes s1) = newline")
      (simp_all add: op_bind_def [of "io_call _"] split: prod.splits sum.splits)
  with keepsD [OF keeps_io io] show ?thesis by simp
qed

lemma validate_terminated:
  "validate_append_sequence missing C file found s = (Inr u, s') \<Longrightarrow> terminated (file_bytes s)"
  unfolding validate_append_sequence_def op_bind_Inr by (auto dest: inspect_terminated)

lemma write_record_bytes:
  "write_record rec s = (Inr u, s') \<Longrightarrow> file_bytes s' = file_bytes s @ rec"
  "write_record rec s = (Inl e, s') \<Longrightarrow> \<exists>k. file_bytes s' = file_bytes s @ take k rec"
  by (auto simp: write_record_def put_bytes_def file_bytes_def split: prod.splits io_outcome.splits)

text \<open>
  The effect of an append on the bytes: nothing, or a part of the record after a terminated
  file; on success all of it.
\<close>

definition appended :: "nat list \<Rightarrow> nat list \<Rightarrow> nat list \<Rightarrow> bool" where
  "appended rec b b' \<longleftrightarrow> b' = b \<or> terminated b \<and> (\<exists>k. b' = b @ take k rec)"

lemma append_locked_bytes:
  fixes s :: "'io jsonl_store" and C :: "('v, 'j) event_codec"
  assumes "append_locked missing C file q rec durable s = (r, s')"
  shows "appended rec (file_bytes s) (file_bytes s')"
    and "r = Inr u \<Longrightarrow> terminated (file_bytes s) \<and> file_bytes s' = file_bytes s @ rec"
proof -
  let ?v = "validate_append_sequence missing C file q"
  let ?rest = "\<lambda>_ :: unit. op_bind (if durable then sync_record file else op_return ()) (\<lambda>_.
      update_append_file (\<lambda>f. f\<lparr>line_count := line_count f + 1\<rparr>))"
  have keep: "keeps_bytes (?rest x :: (unit, 'v, 'io, 'j) store_op)" for x by auto
  obtain rv :: "('v, 'io, 'j) event_store_error + unit" and s1 where v: "?v s = (rv, s1)" by fastforce
  have b1: "file_bytes s1 = file_bytes s" by (rule keepsD [OF keeps_validate v])
  obtain rw :: "('v, 'io, 'j) event_store_error + unit" and s2 where w: "write_record rec s1 = (rw, s2)" by fastforce
  have eq: "append_locked missing C file q rec durable s =
      (case rv of Inl e \<Rightarrow> (Inl e, s1) | Inr _ \<Rightarrow> (case rw of Inl e \<Rightarrow> (Inl e, s2) | Inr x \<Rightarrow> ?rest x s2))"
    by (simp add: append_locked_def op_bind_def v w split: sum.split)
  have all: "appended rec (file_bytes s) (file_bytes s') \<and>
    (\<forall>u. r = Inr u \<longrightarrow> terminated (file_bytes s) \<and> file_bytes s' = file_bytes s @ rec)"
  proof (cases rv)
    case (Inl e)
    with eq assms b1 show ?thesis by (auto simp: appended_def)
  next
    case (Inr x)
    with v have t: "terminated (file_bytes s)" by (auto intro: validate_terminated)
    show ?thesis
    proof (cases rw)
      case (Inl e)
      from write_record_bytes(2) [OF w [unfolded Inl]] b1
      obtain k where "file_bytes s2 = file_bytes s @ take k rec" by auto
      with t eq assms Inr Inl show ?thesis by (auto simp: appended_def)
    next
      case rw: (Inr y)
      with w b1 have b2: "file_bytes s2 = file_bytes s @ rec" by (auto dest: write_record_bytes(1))
      from eq assms Inr rw have "?rest y s2 = (r, s')" by simp
      from keepsD [OF keep this] b2 t show ?thesis
        by (auto simp: appended_def intro!: exI [of _ "length rec"])
    qed
  qed
  then show "appended rec (file_bytes s) (file_bytes s')"
    and "r = Inr u \<Longrightarrow> terminated (file_bytes s) \<and> file_bytes s' = file_bytes s @ rec" by blast+
qed

lemma append_to_file_bytes:
  fixes s :: "'io jsonl_store" and C :: "('v, 'j) event_codec"
  assumes "append_to_file missing C file q rec durable s = (r, s')"
  shows "appended rec (file_bytes s) (file_bytes s')"
    and "r = Inr u \<Longrightarrow> terminated (file_bytes s) \<and> file_bytes s' = file_bytes s @ rec"
proof -
  obtain rl :: "('v, 'io, 'j) event_store_error + unit" and s1 where l: "io_call InspectForAppend s = (rl, s1)" by fastforce
  have b1: "file_bytes s1 = file_bytes s" by (rule keepsD [OF keeps_io l])
  obtain ra s2 where a: "append_locked missing C file q rec durable s1 = (ra, s2)" by fastforce
  obtain ru :: "('v, 'io, 'j) event_store_error + unit" and s3 where u: "io_call AppendError s2 = (ru, s3)" by fastforce
  have b3: "file_bytes s3 = file_bytes s2" by (rule keepsD [OF keeps_io u])
  have close: "file_bytes (s3\<lparr>js_append_file := None\<rparr>) = file_bytes s3" by (simp add: file_bytes_def)
  have "appended rec (file_bytes s) (file_bytes s') \<and>
    (\<forall>u. r = Inr u \<longrightarrow> terminated (file_bytes s) \<and> file_bytes s' = file_bytes s @ rec)"
  proof (cases rl)
    case (Inl e)
    with assms l b1 show ?thesis by (auto simp: append_to_file_def op_bind_def appended_def)
  next
    case (Inr x)
    with assms l a u append_locked_bytes [OF a] b1 b3 close show ?thesis
      by (auto simp: append_to_file_def op_bind_def Let_def split: sum.splits)
  qed
  then show "appended rec (file_bytes s) (file_bytes s')"
    and "r = Inr u \<Longrightarrow> terminated (file_bytes s) \<and> file_bytes s' = file_bytes s @ rec" by blast+
qed

lemma append_with_durability_bytes:
  fixes s :: "'io jsonl_store" and C :: "('v, 'j) event_codec"
  assumes "append_with_durability missing C (Some q) ev durable s = (r, s')"
  shows "(\<exists>rec. to_vec C (with_event_sequence q ev) = Inr rec
              \<and> appended (rec @ [newline]) (file_bytes s) (file_bytes s')
              \<and> (\<forall>u. r = Inr u \<longrightarrow> terminated (file_bytes s)
                     \<and> file_bytes s' = file_bytes s @ rec @ [newline]))
         \<or> file_bytes s' = file_bytes s \<and> (\<exists>e. r = Inl e)"
proof (cases "to_vec C (with_event_sequence q ev)")
  case (Inl j)
  with assms show ?thesis
    by (auto simp: append_with_durability_def encode_record_def op_bind_def fail_with_def)
next
  case (Inr rec)
  let ?open = "case js_append_file s of
      Some file \<Rightarrow> op_return file
    | None \<Rightarrow> op_bind open_append_file (\<lambda>file. op_bind (set_append_file (Some file)) (\<lambda>_. op_return file))"
  have k: "keeps_bytes (?open :: (append_file, 'v, 'io, 'j) store_op)" by (auto split: option.split)
  from Inr have eq: "append_with_durability missing C (Some q) ev durable s =
      op_bind ?open (\<lambda>file. append_to_file missing C file (Some q) (rec @ [newline]) durable) s"
    by (simp add: append_with_durability_def encode_record_def op_bind_def op_return_def
        get_append_file_def)
  obtain ro :: "('v, 'io, 'j) event_store_error + append_file" and s1
    where o: "?open s = (ro, s1)" by fastforce
  have b1: "file_bytes s1 = file_bytes s" by (rule keepsD [OF k o])
  show ?thesis
  proof (cases ro)
    case (Inl e)
    with assms eq o b1 show ?thesis by (auto simp: op_bind_def)
  next
    case opened: (Inr af)
    with assms eq o have "append_to_file missing C af (Some q) (rec @ [newline]) durable s1 = (r, s')"
      by (simp add: op_bind_def)
    from append_to_file_bytes [OF this] b1 Inr show ?thesis by auto
  qed
qed

lemma append_committed:
  assumes C: "codec_ok C"
    and ap: "append_with_durability missing C (Some q) ev durable s = (r, s')"
  shows "store_log C s' = store_log C s \<or> store_log C s' = store_log C s @ [with_event_sequence q ev]"
    and "r = Inr u \<Longrightarrow> store_log C s' = store_log C s @ [with_event_sequence q ev]"
proof -
  let ?e = "with_event_sequence q ev"
  have "(store_log C s' = store_log C s \<or> store_log C s' = store_log C s @ [?e])
      \<and> (\<forall>u. r = Inr u \<longrightarrow> store_log C s' = store_log C s @ [?e])"
    using append_with_durability_bytes [OF ap]
  proof
    assume "\<exists>rec. to_vec C ?e = Inr rec \<and> appended (rec @ [newline]) (file_bytes s) (file_bytes s')
      \<and> (\<forall>u. r = Inr u \<longrightarrow> terminated (file_bytes s)
             \<and> file_bytes s' = file_bytes s @ rec @ [newline])"
    then obtain rec where rec: "to_vec C ?e = Inr rec"
      and ap: "appended (rec @ [newline]) (file_bytes s) (file_bytes s')"
      and ok: "r = Inr u \<Longrightarrow> terminated (file_bytes s)
                 \<and> file_bytes s' = file_bytes s @ rec @ [newline]" for u by blast
    have "store_log C s' = store_log C s \<or> store_log C s' = store_log C s @ [?e]"
      using ap committed_partial [OF C rec] by (auto simp: appended_def store_log_def)
    moreover have "store_log C s' = store_log C s @ [?e]" if "r = Inr u" for u
      using ok [OF that] committed_append [of "file_bytes s" C "rec @ [newline]"]
        committed_record_line [OF C rec] by (simp add: store_log_def)
    ultimately show ?thesis by blast
  qed (auto simp: store_log_def)
  then show "store_log C s' = store_log C s \<or> store_log C s' = store_log C s @ [?e]"
    and "r = Inr u \<Longrightarrow> store_log C s' = store_log C s @ [?e]" by blast+
qed

text \<open>A store in good order: every byte of the file belongs to a complete, decodable record.\<close>

definition good_record :: "('v, 'j) event_codec \<Rightarrow> nat list \<times> bool \<Rightarrow> bool" where
  "good_record C r \<longleftrightarrow> snd r \<and> (case from_slice C (fst r) of Inr _ \<Rightarrow> True | Inl _ \<Rightarrow> False)"

definition store_ok :: "('v, 'j) event_codec \<Rightarrow> 'io jsonl_store \<Rightarrow> bool" where
  "store_ok C s \<longleftrightarrow> codec_ok C \<and> list_all (good_record C) (split_records (file_bytes s))"

lemma append_store_ok:
  assumes s: "store_ok C s"
    and ap: "append_with_durability missing C (Some q) ev durable s = (Inr u, s')"
  shows "store_ok C s'"
proof -
  from s have C: "codec_ok C" by (simp add: store_ok_def)
  from append_with_durability_bytes [OF ap] obtain rec where
    rec: "to_vec C (with_event_sequence q ev) = Inr rec" and t: "terminated (file_bytes s)"
    and b: "file_bytes s' = file_bytes s @ rec @ [newline]" by auto
  have "split_records (file_bytes s') = split_records (file_bytes s) @ [(rec, True)]"
    using split_records_append [OF t, of "rec @ [newline]"]
      split_records_line [OF codec_okD(1) [OF C rec], of "[]"] by (simp add: b)
  with s codec_okD(2) [OF C rec] show ?thesis by (simp add: store_ok_def good_record_def)
qed

text \<open>
  What a failed append leaves behind: records in good order, then at most an unfinished one; and
  no file only if the store has none.
\<close>

definition store_recoverable :: "('v, 'j) event_codec \<Rightarrow> 'io jsonl_store \<Rightarrow> bool" where
  "store_recoverable C s \<longleftrightarrow> codec_ok C
     \<and> (\<exists>b tail. file_bytes s = b @ tail \<and> terminated b \<and> newline \<notin> set tail
          \<and> list_all (good_record C) (split_records b))"

lemma good_terminated:
  assumes "list_all (good_record C) (split_records b)"
  shows "terminated b"
  using assms
proof (induction "length b" arbitrary: b rule: less_induct)
  case less
  show ?case
  proof (cases "newline \<in> set b")
    case True
    then obtain r rest where b: "b = r @ newline # rest" "newline \<notin> set r"
      by (metis split_list_first)
    with less.prems have "list_all (good_record C) (split_records rest)"
      by (simp add: split_records_line)
    with less.hyps [of rest] b show ?thesis by (auto simp: terminated_def)
  next
    case False
    with less.prems show ?thesis
      by (cases "b = []") (simp_all add: split_records_tail good_record_def terminated_def)
  qed
qed

lemma store_ok_recoverable: "store_ok C s \<Longrightarrow> store_recoverable C s"
  unfolding store_ok_def store_recoverable_def
  using good_terminated [of C "file_bytes s"] by (metis append_Nil2 empty_iff list.set(1))

lemma append_recoverable:
  assumes s: "store_ok C s"
    and ap: "append_with_durability missing C (Some q) ev durable s = (Inl x, s')"
  shows "store_recoverable C s'"
proof -
  from s have C: "codec_ok C" and g: "list_all (good_record C) (split_records (file_bytes s))"
    by (simp_all add: store_ok_def)
  note t = good_terminated [OF g]
  from append_with_durability_bytes [OF ap]
  have "file_bytes s' = file_bytes s \<or> (\<exists>rec k. to_vec C (with_event_sequence q ev) = Inr rec
      \<and> file_bytes s' = file_bytes s @ take k (rec @ [newline]))"
    by (auto simp: appended_def)
  then show ?thesis
  proof
    assume "file_bytes s' = file_bytes s"
    with store_ok_recoverable [OF s] show ?thesis by (simp add: store_recoverable_def)
  next
    assume "\<exists>rec k. to_vec C (with_event_sequence q ev) = Inr rec
      \<and> file_bytes s' = file_bytes s @ take k (rec @ [newline])"
    then obtain rec k where rec: "to_vec C (with_event_sequence q ev) = Inr rec"
      and b: "file_bytes s' = file_bytes s @ take k (rec @ [newline])" by blast
    show ?thesis
    proof (cases "k > length rec")
      case True
      have "split_records (rec @ [newline]) = [(rec, True)]"
        using split_records_line [OF codec_okD(1) [OF C rec], of "[]"] by simp
      with b True g codec_okD(2) [OF C rec] split_records_append [OF t, of "rec @ [newline]"]
      have "store_ok C s'" by (simp add: store_ok_def C good_record_def)
      then show ?thesis by (rule store_ok_recoverable)
    next
      case False
      then have "newline \<notin> set (take k (rec @ [newline]))"
        using codec_okD(1) [OF C rec] by (auto dest: in_set_takeD)
      with b C t g show ?thesis unfolding store_recoverable_def by blast
    qed
  qed
qed

interpretation jsonl: event_sink
  "store_ok C :: 'io jsonl_store \<Rightarrow> bool" "store_recoverable C" "store_log C" "jsonl_sink_append missing C"
proof
  fix s :: "'io jsonl_store" and q ev u s' x assume ok: "store_ok C s"
  then have C: "codec_ok C" by (simp add: store_ok_def)
  show "store_ok C s' \<and> store_log C s' = store_log C s @ [with_event_sequence q ev]"
    if "jsonl_sink_append missing C s q ev = (Inr u, s')"
    using append_committed(2) [OF C that [unfolded jsonl_sink_append_def]]
      append_store_ok [OF ok that [unfolded jsonl_sink_append_def]] by simp
  show "store_recoverable C s' \<and> (store_log C s' = store_log C s
      \<or> store_log C s' = store_log C s @ [with_event_sequence q ev])"
    if "jsonl_sink_append missing C s q ev = (Inl x, s')"
    using append_committed(1) [OF C that [unfolded jsonl_sink_append_def]]
      append_recoverable [OF ok that [unfolded jsonl_sink_append_def]] by simp
qed

interpretation jsonl_durable: event_sink
  "store_ok C :: 'io jsonl_store \<Rightarrow> bool" "store_recoverable C" "store_log C" "jsonl_sink_append_durable missing C"
proof
  fix s :: "'io jsonl_store" and q ev u s' x assume ok: "store_ok C s"
  then have C: "codec_ok C" by (simp add: store_ok_def)
  show "store_ok C s' \<and> store_log C s' = store_log C s @ [with_event_sequence q ev]"
    if "jsonl_sink_append_durable missing C s q ev = (Inr u, s')"
    using append_committed(2) [OF C that [unfolded jsonl_sink_append_durable_def]]
      append_store_ok [OF ok that [unfolded jsonl_sink_append_durable_def]] by simp
  show "store_recoverable C s' \<and> (store_log C s' = store_log C s
      \<or> store_log C s' = store_log C s @ [with_event_sequence q ev])"
    if "jsonl_sink_append_durable missing C s q ev = (Inl x, s')"
    using append_committed(1) [OF C that [unfolded jsonl_sink_append_durable_def]]
      append_recoverable [OF ok that [unfolded jsonl_sink_append_durable_def]] by simp
qed

section \<open>Reading back\<close>

lemma io_call_ok [simp]: "js_io s = [] \<Longrightarrow> io_call err s = (Inr (), s)"
  by (simp add: io_call_def next_outcome_def)

lemma op_bind_io [simp]: "js_io s = [] \<Longrightarrow> op_bind (io_call err) f s = f () s"
  by (simp add: op_bind_def)

definition persisted :: "'v agent_event \<Rightarrow> 'v persisted_agent_event" where
  "persisted e = \<lparr>pe_sequence = event_sequence_of e, pe_event = e\<rparr>"

lemma saturating_succ_of_nat:
  assumes "Suc k < 2 ^ 64"
  shows "saturating_succ (EventSequence (of_nat k)) = EventSequence (of_nat (Suc k))"
proof -
  from assms have "unat (of_nat k :: 64 word) = k" by (simp add: unsigned_of_nat take_bit_nat_eq_self)
  with assms have "checked_succ (of_nat k) = Some (of_nat (Suc k))"
    by (simp add: checked_succ_Some ac_simps)
  then show ?thesis by (simp add: saturating_succ_def)
qed

lemma read_records_good:
  fixes s :: "'io jsonl_store" and C :: "('v, 'j) event_codec"
  assumes "js_io s = []" and "list_all2 (\<lambda>r e. snd r \<and> from_slice C (fst r) = Inr e) rs es"
    and "sequenced_from k es" and "k + length es \<le> 2 ^ 64 - 1"
    and "expected = Some (Some (EventSequence (of_nat k))) \<or> expected = None \<and> k = 1"
  shows "read_records C line expected rs s = (Inr (map persisted es), s)"
  using assms(2-)
proof (induction rs es arbitrary: k line expected rule: list_all2_induct)
  case Nil
  then show ?case using assms(1) by simp
next
  case (Cons r rs e es)
  obtain rec where r: "r = (rec, True)" using Cons.hyps(1) by (cases r) auto
  from Cons.prems have q: "event_sequence_of e = Some (EventSequence (of_nat k))"
    and rest: "sequenced_from (Suc k) es" by simp_all
  have chk: "check_sequence (line + 1) expected (event_sequence_of e) s
      = (Inr () :: ('v, 'io, 'j) event_store_error + unit, s)"
    using Cons.prems(3) q by (auto simp: check_sequence_def)
  have succ: "saturating_succ (EventSequence (of_nat k)) = EventSequence (of_nat (Suc k))"
    using Cons.prems(2) by (intro saturating_succ_of_nat) simp
  have "read_records C (line + 1) (Some (Some (EventSequence (of_nat (Suc k))))) rs s
      = (Inr (map persisted es), s)"
    by (rule Cons.IH [OF rest]) (use Cons.prems(2) in auto)
  with Cons.hyps(1) assms(1) q chk succ show ?case
    by (simp add: r Let_def op_bind_def persisted_def op_return_def)
qed

lemma good_records_log:
  "list_all (good_record C) rs \<Longrightarrow>
     list_all2 (\<lambda>r e. snd r \<and> from_slice C (fst r) = Inr e) rs (concat (map (committed_record C) rs))"
  by (induction rs) (auto simp: good_record_def committed_record_def split: sum.splits)

text \<open>A quiet file system and a store in good order: \<open>read_all\<close> returns the committed log.\<close>

lemma read_all_good:
  fixes s :: "'io jsonl_store" and C :: "('v, 'j) event_codec"
  assumes "store_ok C s" and "js_io s = []" and "js_file s \<noteq> None"
    and "sequenced_from 1 (store_log C s)" and "length (store_log C s) < 2 ^ 64 - 1"
  shows "read_all_records missing C s = (Inr (map persisted (store_log C s)), s)"
    and "read_all_records_unlocked missing C s = (Inr (map persisted (store_log C s)), s)"
    and "read_all missing C s = (Inr (store_log C s), s)"
proof -
  have opened: "open_for_read missing OpenForRead s
      = (Inr () :: ('v, 'io, 'j) event_store_error + unit, s)"
    using assms(2,3) by (simp add: open_for_read_def)
  have "read_records C 0 None (split_records (file_bytes s)) s = (Inr (map persisted (store_log C s)), s)"
    using assms good_records_log [of C "split_records (file_bytes s)"]
    by (intro read_records_good [where k = 1])
      (simp_all add: store_ok_def store_log_def committed_def)
  then have "read_all_records_from C s = (Inr (map persisted (store_log C s)), s)"
    by (simp add: read_all_records_from_def)
  with opened assms(2) show all: "read_all_records missing C s = (Inr (map persisted (store_log C s)), s)"
    and "read_all_records_unlocked missing C s = (Inr (map persisted (store_log C s)), s)"
    by (simp_all add: read_all_records_def read_all_records_unlocked_def op_bind_def)
  from all show "read_all missing C s = (Inr (store_log C s), s)"
    by (simp add: read_all_def op_bind_def op_return_def comp_def persisted_def)
qed

section \<open>A sample codec\<close>

text \<open>A codec for a finite table of events, for the witnesses.\<close>

definition table_codec :: "'v agent_event list \<Rightarrow> ('v, unit) event_codec" where
  "table_codec tab =
     \<lparr>to_vec = (\<lambda>ev. case find_index (\<lambda>x. x = ev) tab of Some i \<Rightarrow> Inr [i + 11] | None \<Rightarrow> Inl ()),
      from_slice = (\<lambda>b. case b of
          [k] \<Rightarrow> if 11 \<le> k \<and> k - 11 < length tab then Inr (tab ! (k - 11)) else Inl ()
        | _ \<Rightarrow> Inl ())\<rparr>"

lemma table_codec_ok: "codec_ok (table_codec tab)"
  by (auto simp: codec_ok_def table_codec_def newline_def split: option.splits
      dest: find_index_SomeD)

end
