(* ===== verification/Jsonl_Recovery.thy ===== *)
theory Jsonl_Recovery
  imports Jsonl_Correct
begin

text \<open>
  Recovery of a JSONL store on a quiet file system (every call succeeds): the backward search in
  chunks finds the last newline, repair cuts exactly the unfinished record, an append of the next
  sequence succeeds, and reconciling an ambiguous append leaves its event in the log exactly once.
\<close>

section \<open>The backward search\<close>

lemma rposition_None: "rposition p xs = None \<longleftrightarrow> (\<forall>x \<in> set xs. \<not> p x)"
  by (induction xs) (auto split: option.splits)

lemma rposition_append:
  "rposition p (xs @ ys) =
     (case rposition p ys of Some i \<Rightarrow> Some (length xs + i) | None \<Rightarrow> rposition p xs)"
proof (induction xs)
  case Nil
  then show ?case by (simp split: option.split)
next
  case (Cons x xs)
  then show ?case by (cases "rposition p ys") (simp_all split: option.splits)
qed

definition after_last_newline :: "nat list \<Rightarrow> nat" where
  "after_last_newline bytes =
     (case rposition (\<lambda>b. b = newline) bytes of Some i \<Rightarrow> i + 1 | None \<Rightarrow> 0)"

lemma after_last_newline_split:
  assumes "terminated b" and "newline \<notin> set tail"
  shows "after_last_newline (b @ tail) = length b"
proof -
  have t: "rposition (\<lambda>b. b = newline) tail = None" using assms(2) by (auto simp: rposition_None)
  show ?thesis
  proof (cases b rule: rev_cases)
    case (snoc xs x)
    with assms(1) t show ?thesis
      by (simp add: after_last_newline_def rposition_append terminated_def)
  qed (simp add: after_last_newline_def t)
qed

text \<open>The chunked search is the search over the whole prefix.\<close>

lemma search_newline_quiet:
  assumes "js_io s = []"
  shows "e \<le> length bytes \<Longrightarrow>
     search_newline err bytes e s = (Inr (after_last_newline (take e bytes)), s)"
proof (induction err bytes e rule: search_newline.induct)
  case (1 err bytes e)
  show ?case
  proof (cases "e = 0")
    case True
    then show ?thesis by (simp add: search_newline.simps after_last_newline_def)
  next
    case False
    define cs where "cs = e - SEARCH_CHUNK_SIZE"
    have split: "take e bytes = take cs bytes @ take (e - cs) (drop cs bytes)"
      by (metis cs_def diff_le_self le_add_diff_inverse take_add)
    have len: "length (take cs bytes) = cs" using 1(2) by (simp add: cs_def)
    show ?thesis
    proof (cases "rposition (\<lambda>b. b = newline) (take (e - cs) (drop cs bytes))")
      case (Some i)
      with False assms len show ?thesis
        by (subst search_newline.simps)
          (simp add: Let_def after_last_newline_def split rposition_append flip: cs_def)
    next
      case None
      with False have "search_newline err bytes cs s = (Inr (after_last_newline (take cs bytes)), s)"
        using 1 by (simp add: Let_def cs_def)
      with None False assms len show ?thesis
        by (subst search_newline.simps)
          (simp add: Let_def after_last_newline_def split rposition_append flip: cs_def)
    qed
  qed
qed

section \<open>Repair\<close>

lemma op_bind_exists [simp]: "op_bind path_exists f s = f (js_file s \<noteq> None) s"
  by (simp add: op_bind_def path_exists_def)

text \<open>Sequencing after an operation whose result is known.\<close>

lemma op_bind_open [simp]:
  "js_io s = [] \<Longrightarrow> js_file s \<noteq> None \<Longrightarrow> op_bind (open_for_read missing err) f s = f () s"
  by (auto simp: open_for_read_def op_bind_def)

lemma op_bind_set_file [simp]:
  "op_bind (set_append_file x) f s = f () (s\<lparr>js_append_file := x\<rparr>)"
  by (simp add: op_bind_def set_append_file_def)

lemma op_bind_update_file [simp]:
  "op_bind (update_append_file g) f s = f () (s\<lparr>js_append_file := map_option g (js_append_file s)\<rparr>)"
  by (simp add: op_bind_def update_append_file_def)

lemma op_bind_search [simp]:
  "js_io s = [] \<Longrightarrow> e \<le> length bytes \<Longrightarrow>
     op_bind (search_newline err bytes e) f s = f (after_last_newline (take e bytes)) s"
  by (simp add: op_bind_def search_newline_quiet)

lemma op_bind_return [simp]: "op_bind (op_return a) f s = f a s"
  by (simp add: op_bind_def op_return_def)

lemma op_bind_put [simp]: "op_bind (\<lambda>s. (Inr a, g s)) f s = f a (g s)"
  by (simp add: op_bind_def)

lemma repair_quiet:
  assumes io: "js_io s = []" and f: "js_file s = Some (b @ tail)"
    and t: "terminated b" and n: "newline \<notin> set tail"
  shows "repair_truncated_tail missing s =
     (Inr (length tail), s\<lparr>js_append_file := None, js_file := Some b\<rparr>)"
proof (cases "tail = []")
  case True
  have "s\<lparr>js_append_file := None, js_file := Some b\<rparr> = s\<lparr>js_append_file := None\<rparr>"
    using f True by simp
  moreover have "b = [] \<or> last b = newline" using t by (simp add: terminated_def)
  ultimately show ?thesis
    using io f True by (auto simp: repair_truncated_tail_def file_bytes_def)
next
  case False
  with n have l: "last (b @ tail) \<noteq> newline" by (metis last_appendR last_in_set)
  have "after_last_newline (take (length (b @ tail)) (b @ tail)) = length b"
    using after_last_newline_split [OF t n] by simp
  with io f False l show ?thesis
    by (simp add: repair_truncated_tail_def file_bytes_def put_bytes_def)
qed

section \<open>Appending the next event\<close>

lemma last_record:
  assumes "store_ok C s" and "file_bytes s \<noteq> []"
  obtains pre rec ev where "file_bytes s = pre @ rec @ [newline]" "terminated pre"
    "newline \<notin> set rec" "from_slice C rec = Inr ev" "store_log C s = committed C pre @ [ev]"
proof -
  from assms have good: "list_all (good_record C) (split_records (file_bytes s))"
    by (simp add: store_ok_def)
  from good_terminated [OF this] assms(2) have "last (file_bytes s) = newline"
    by (simp add: terminated_def)
  then obtain xs where b: "file_bytes s = xs @ [newline]"
    by (metis append_butlast_last_id assms(2))
  obtain pre rec where xs: "xs = pre @ rec" and pre: "terminated pre" and rec: "newline \<notin> set rec"
  proof (cases "newline \<in> set xs")
    case True
    then obtain pre' rec where "xs = pre' @ newline # rec" "newline \<notin> set rec"
      by (metis split_list_last)
    then have "xs = (pre' @ [newline]) @ rec" "terminated (pre' @ [newline])" "newline \<notin> set rec"
      by (simp_all add: terminated_def)
    with that show thesis by blast
  next
    case False
    then show thesis using that [of "[]" xs] by (simp add: terminated_def)
  qed
  from split_records_append [OF pre, of "rec @ [newline]"] split_records_line [OF rec, of "[]"]
  have "split_records (file_bytes s) = split_records pre @ [(rec, True)]" by (simp add: b xs)
  moreover with good obtain ev where "from_slice C rec = Inr ev"
    by (auto simp: good_record_def split: sum.splits)
  ultimately show thesis
    using that [of pre rec ev] pre rec
    by (simp add: b xs store_log_def committed_def committed_record_def)
qed

lemma read_last_quiet:
  assumes "store_ok C s" and "js_io s = []" and "file_bytes s \<noteq> []"
  shows "read_last_event C line s = (Inr (last (store_log C s)), s)" and "store_log C s \<noteq> []"
proof -
  from last_record [OF assms(1,3)] obtain pre rec ev where
    b: "file_bytes s = pre @ rec @ [newline]" and t: "terminated pre" "newline \<notin> set rec"
    and ev: "from_slice C rec = Inr ev" and log: "store_log C s = committed C pre @ [ev]" .
  have "after_last_newline (take (length (file_bytes s) - 1) (file_bytes s)) = length pre"
    using after_last_newline_split [OF t] by (simp add: b)
  moreover have "take (length (file_bytes s) - length pre - 1) (drop (length pre) (file_bytes s)) = rec"
    by (simp add: b)
  ultimately show "read_last_event C line s = (Inr (last (store_log C s)), s)"
    using assms(2) ev log by (simp add: read_last_event_def)
  show "store_log C s \<noteq> []" using log by simp
qed

text \<open>The next sequence passes validation, whichever way the end of the file is inspected.\<close>

definition same_file :: "'io jsonl_store \<Rightarrow> 'io jsonl_store \<Rightarrow> bool" where
  "same_file s s' \<longleftrightarrow>
     js_io s' = js_io s \<and> js_file s' = js_file s \<and> js_path s' = js_path s
     \<and> (js_append_file s' = None) = (js_append_file s = None)"

lemma same_file_bytes: "same_file s s' \<Longrightarrow> file_bytes s' = file_bytes s"
  by (simp add: same_file_def file_bytes_def)

lemma validate_quiet:
  assumes ok: "store_ok C s" "js_io s = []" and seq: "sequenced_from 1 (store_log C s)"
    and len: "length (store_log C s) + 1 < 2 ^ 64 - 1"
    and q: "q = EventSequence (of_nat (length (store_log C s) + 1))"
  shows "\<exists>s'. validate_append_sequence missing C file (Some q) s = (Inr (), s') \<and> same_file s s'"
proof (cases "file_bytes s = []")
  case True
  then have "store_log C s = []" by (simp add: store_log_def)
  with True ok q show ?thesis
    by (simp add: validate_append_sequence_def inspect_append_position_def op_bind_def
        io_call_def next_outcome_def get_bytes_def update_append_file_def op_return_def same_file_def)
next
  case False
  let ?L = "store_log C s"
  from ok(1) have "terminated (file_bytes s)"
    by (intro good_terminated [of C]) (simp add: store_ok_def)
  with False have nl: "last (file_bytes s) = newline" by (simp add: terminated_def)
  have ne: "?L \<noteq> []" by (rule read_last_quiet(2) [OF ok False])
  have f: "js_file s \<noteq> None" using False by (cases "js_file s") (simp_all add: file_bytes_def)
  have "event_sequence_of (last ?L) = Some (EventSequence (of_nat (length ?L)))"
    using sequenced_from_nth [OF seq, of "length ?L - 1"] ne by (simp add: last_conv_nth)
  moreover have "saturating_succ (EventSequence (of_nat (length ?L))) = q"
    using saturating_succ_of_nat [of "length ?L"] len q by simp
  ultimately have pos: "position_after n (last ?L) = (PosSequenced q, unat (as_u64 q))" for n
    by (simp add: position_after_def)
  have recs: "read_all_records_unlocked missing C s = (Inr (map persisted ?L), s)"
    by (rule read_all_good(2) [OF ok f seq]) (use len in simp)
  have lst: "pe_event (last (map persisted ?L)) = last ?L"
    using ne by (simp add: last_map persisted_def)
  have "\<exists>s'. inspect_append_position missing C file s
      = (Inr (PosSequenced q, unat (as_u64 q)), s') \<and> same_file s s'"
  proof (cases "fully_validated file")
    case True
    then show ?thesis using ok nl False read_last_quiet(1) [OF ok False] pos
      by (simp add: inspect_append_position_def op_bind_def [of "read_last_event _ _"] op_return_def
          same_file_def)
  next
    case no: False
    then show ?thesis using ok nl False recs pos lst
      by (simp add: inspect_append_position_def op_bind_def [of "read_all_records_unlocked _ _"]
          op_return_def same_file_def)
  qed
  then show ?thesis by (auto simp: validate_append_sequence_def op_bind_def)
qed

lemma sync_record_quiet:
  "js_io s = [] \<Longrightarrow> \<exists>s'. sync_record file s = (Inr (), s') \<and> js_io s' = []"
  by (simp add: sync_record_def sync_parent_directory_def update_append_file_def op_return_def)

lemma append_locked_quiet:
  fixes s :: "'io jsonl_store" and C :: "('v, 'j) event_codec"
  assumes "store_ok C s" "js_io s = []" and "sequenced_from 1 (store_log C s)"
    and "length (store_log C s) + 1 < 2 ^ 64 - 1"
    and "q = EventSequence (of_nat (length (store_log C s) + 1))"
  shows "\<exists>s'. append_locked missing C file (Some q) b durable s = (Inr (), s') \<and> js_io s' = []"
proof -
  from validate_quiet [OF assms] obtain s1 where
    v: "validate_append_sequence missing C file (Some q) s = (Inr (), s1)" and "same_file s s1" by blast
  then have io1: "js_io s1 = []" using assms(2) by (simp add: same_file_def)
  obtain s2 where w: "write_record b s1 = (Inr () :: ('v, 'io, 'j) event_store_error + unit, s2)" and io2: "js_io s2 = []"
    using io1 by (simp add: write_record_def next_outcome_def put_bytes_def)
  obtain s3 where sync: "(if durable then sync_record file else op_return ()) s2
      = (Inr () :: ('v, 'io, 'j) event_store_error + unit, s3)" and io3: "js_io s3 = []"
    using sync_record_quiet [OF io2, of "file"] io2 by (cases durable) (auto simp: op_return_def)
  from v w sync io3 show ?thesis
    by (simp add: append_locked_def op_bind_def update_append_file_def split del: if_split)
qed

lemma append_quiet:
  fixes s :: "'io jsonl_store" and C :: "('v, 'j) event_codec"
  assumes ok: "store_ok C s" "js_io s = []" and seq: "sequenced_from 1 (store_log C s)"
    and len: "length (store_log C s) + 1 < 2 ^ 64 - 1"
    and q: "q = EventSequence (of_nat (length (store_log C s) + 1))"
    and enc: "to_vec C (with_event_sequence q ev) = Inr rec"
  shows "\<exists>s'. append_with_durability missing C (Some q) ev durable s = (Inr (), s')
     \<and> js_io s' = []"
proof -
  let ?open = "case js_append_file s of
      Some file \<Rightarrow> op_return file
    | None \<Rightarrow> op_bind open_append_file (\<lambda>file. op_bind (set_append_file (Some file)) (\<lambda>_. op_return file))"
  obtain af s1 where o: "?open s = (Inr af :: ('v, 'io, 'j) event_store_error + append_file, s1)"
    and io1: "js_io s1 = []" and b1: "file_bytes s1 = file_bytes s"
    using ok(2)
    by (cases "js_append_file s")
      (auto simp: open_append_file_def op_return_def put_bytes_def file_bytes_def op_bind_def
        set_append_file_def)
  from b1 have same: "store_ok C s1 = store_ok C s" "store_log C s1 = store_log C s"
    by (simp_all add: store_ok_def store_log_def)
  from append_locked_quiet [of C s1 q missing af "rec @ [newline]" durable] ok io1 seq len q
  obtain s2 where "append_locked missing C af (Some q) (rec @ [newline]) durable s1 = (Inr (), s2)"
    "js_io s2 = []" by (auto simp: same)
  then have "append_to_file missing C af (Some q) (rec @ [newline]) durable s1 = (Inr (), s2)"
    using io1 by (simp add: append_to_file_def)
  moreover from enc have "append_with_durability missing C (Some q) ev durable s =
      op_bind ?open (\<lambda>file. append_to_file missing C file (Some q) (rec @ [newline]) durable) s"
    by (simp add: append_with_durability_def encode_record_def op_bind_def op_return_def
        get_append_file_def)
  ultimately show ?thesis using o \<open>js_io s2 = []\<close> by (simp add: op_bind_def)
qed

text \<open>
  C33. On a quiet file system the store accepts exactly the next event: appending to a store in
  good order with the sequence after its last one succeeds, buffered or durable, and the file then
  reads back as the old log followed by that event.
\<close>
theorem append_then_read:
  fixes s :: "'io jsonl_store"
  assumes "store_ok C s" "js_io s = []" and "sequenced_from 1 (store_log C s)"
    and "length (store_log C s) + 2 < 2 ^ 64 - 1"
    and "q = EventSequence (of_nat (length (store_log C s) + 1))"
    and "to_vec C (with_event_sequence q ev) = Inr rec"
  shows "\<exists>s'. append_with_durability missing C (Some q) ev durable s = (Inr (), s')
     \<and> read_all missing C s' = (Inr (store_log C s @ [with_event_sequence q ev]), s')"
proof -
  have len: "length (store_log C s) + 1 < 2 ^ 64 - 1" using assms(4) by simp
  from append_quiet [OF assms(1-3) len assms(5,6)] obtain s' where
    ap: "append_with_durability missing C (Some q) ev durable s = (Inr (), s')" and io: "js_io s' = []"
    by metis
  have C: "codec_ok C" using assms(1) by (simp add: store_ok_def)
  have log: "store_log C s' = store_log C s @ [with_event_sequence q ev]"
    using append_committed(2) [OF C ap] by simp
  then have "js_file s' \<noteq> None" by (cases "js_file s'") (auto simp: store_log_def file_bytes_def)
  from read_all_good(3) [OF append_store_ok [OF assms(1) ap] io this] log assms(3-5) ap show ?thesis
    by (simp add: sequenced_from_append)
qed

theorem append_then_read_witness:
  "\<exists>s'. append_with_durability () (table_codec [RunStarted (RunId [1]) (Some (EventSequence 1)) []])
        (Some (EventSequence 1)) (RunStarted (RunId [1]) None [] :: unit agent_event) False
        (store_new [] None [] :: unit jsonl_store) = (Inr (), s')
     \<and> read_all () (table_codec [RunStarted (RunId [1]) (Some (EventSequence 1)) []]) s'
        = (Inr [RunStarted (RunId [1]) (Some (EventSequence 1)) [] :: unit agent_event], s')"
proof -
  let ?C = "table_codec [RunStarted (RunId [1]) (Some (EventSequence 1)) []] :: (unit, unit) event_codec"
  let ?s = "store_new [] None [] :: unit jsonl_store"
  have ok: "store_ok ?C ?s"
    by (simp add: store_ok_def table_codec_ok store_new_def file_bytes_def)
  have log: "store_log ?C ?s = []"
    by (simp add: store_log_def store_new_def file_bytes_def)
  have "to_vec ?C (with_event_sequence (EventSequence 1) (RunStarted (RunId [1]) None [])) = Inr [11]"
    by (simp add: table_codec_def)
  from append_then_read [OF ok _ _ _ _ this, where missing = "()" and durable = False, unfolded log]
  show ?thesis by (simp add: store_new_def)
qed

section \<open>Reconciling an ambiguous append\<close>

definition identity_unused :: "'v agent_event list \<Rightarrow> 'v agent_event \<Rightarrow> bool" where
  "identity_unused L e \<longleftrightarrow> list_all (\<lambda>x. \<not> has_same_durable_identity x e) L"

lemma sequenced_not_none:
  "sequenced_from k L \<Longrightarrow> \<not> list_ex (\<lambda>r. pe_sequence r = None) (map persisted L)"
  by (induction L arbitrary: k) (auto simp: persisted_def)

lemma of_nat_word_inject:
  assumes "i < 2 ^ 64" "j < 2 ^ 64"
  shows "(of_nat i :: 64 word) = of_nat j \<longleftrightarrow> i = j"
proof -
  have "unat (of_nat k :: 64 word) = k" if "k < 2 ^ 64" for k
    using that by (simp add: unsigned_of_nat take_bit_nat_eq_self)
  with assms show ?thesis by metis
qed

lemma no_earlier_match:
  assumes "sequenced_from 1 L" and "length L + 1 < 2 ^ 64" and "identity_unused L e"
    and "q = EventSequence (of_nat (length L + 1))"
  shows "filter (matches_attempt q d e) (map persisted L) = []"
proof -
  have "\<not> matches_attempt q d e (persisted (L ! i))" if i: "i < length L" for i
  proof -
    have "event_sequence_of (L ! i) = Some (EventSequence (of_nat (1 + i)))"
      using sequenced_from_nth [OF assms(1) i] .
    moreover have "(of_nat (1 + i) :: 64 word) \<noteq> of_nat (length L + 1)"
      using of_nat_word_inject [of "1 + i" "length L + 1"] i assms(2) by simp
    moreover have "\<not> has_same_durable_identity (L ! i) e"
      using assms(3) i by (simp add: identity_unused_def list_all_length)
    ultimately show ?thesis using assms(4) by (simp add: matches_attempt_def persisted_def)
  qed
  then show ?thesis by (auto simp: filter_empty_conv in_set_conv_nth)
qed

lemma sync_existing_quiet:
  "js_io s = [] \<Longrightarrow> js_file s \<noteq> None \<Longrightarrow> sync_existing_log missing s = (Inr (), s)"
  by (simp add: sync_existing_log_def sync_parent_directory_def)

text \<open>The decision on the records that were read back: both halves of the ambiguity.\<close>

lemma reconcile_records_quiet:
  fixes s :: "'io jsonl_store" and C :: "('v, 'j) event_codec"
  assumes s: "store_ok C s" "js_io s = []"
    and e: "e = with_event_sequence q ev" "q = EventSequence (of_nat (length L + 1))"
    and L: "sequenced_from 1 L" "length L + 2 < 2 ^ 64 - 1" "identity_unused L e"
    and log: "store_log C s = M" "M = L \<or> M = L @ [e]" and f: "M \<noteq> [] \<longrightarrow> js_file s \<noteq> None"
    and enc: "to_vec C e = Inr rec"
  shows "\<exists>s'. reconcile_records missing C q ev d (map persisted M) s = (Inr (), s')
      \<and> store_log C s' = L @ [e] \<and> store_ok C s'"
proof -
  have none: "filter (matches_attempt q d e) (map persisted L) = []"
    by (rule no_earlier_match) (use L e in simp_all)
  from log(2) show ?thesis
  proof
    assume M: "M = L"
    have len: "length (store_log C s) + 1 < 2 ^ 64 - 1" using L(2) log(1) M by simp
    from append_quiet [OF s _ len, of q ev rec missing "d = Durable"] e enc L(1) log(1) M
    obtain s' where ap: "append_with_durability missing C (Some q) ev (d = Durable) s = (Inr (), s')"
      by auto
    have C: "codec_ok C" using s by (simp add: store_ok_def)
    define R where "R = map persisted L"
    have "length R = length L" by (simp add: R_def)
    with none sequenced_not_none [OF L(1)] ap e
    have "reconcile_records missing C q ev d R s = (Inr (), s')"
      by (simp add: reconcile_records_def Let_def flip: R_def)
    then have "reconcile_records missing C q ev d (map persisted M) s = (Inr (), s')"
      by (simp add: R_def M)
    with append_committed(2) [OF C ap] append_store_ok [OF s(1) ap] log(1) M e show ?thesis by simp
  next
    assume M: "M = L @ [e]"
    have e_seq: "event_sequence_of e = Some q" using e by simp
    then have "sequenced_from 1 M" using L(1) e M by (simp add: sequenced_from_append)
    from sequenced_not_none [OF this] have nn: "\<not> list_ex (\<lambda>r. pe_sequence r = None) (map persisted M)" .
    define R where "R = map persisted M"
    have one: "filter (matches_attempt q d e) (map persisted M) = [persisted e]"
      using none e_seq by (simp add: M matches_attempt_def persisted_def del: filter_map)
    have r: "reconcile_records missing C q ev d R s =
        (if d = Durable then sync_existing_log missing else op_return ()) s"
      using e e_seq nn one by (simp add: reconcile_records_def Let_def persisted_def flip: R_def)
    have "js_file s \<noteq> None" using f M by simp
    then have "sync_existing_log missing s = (Inr () :: ('v, 'io, 'j) event_store_error + unit, s)"
      by (rule sync_existing_quiet [OF s(2)])
    then have "(if d = Durable then sync_existing_log missing else op_return ()) s
        = (Inr () :: ('v, 'io, 'j) event_store_error + unit, s)"
      by (simp add: op_return_def)
    then have "reconcile_records missing C q ev d (map persisted M) s = (Inr (), s)"
      using r unfolding R_def by (rule trans [rotated])
    with s(1) log(1) M show ?thesis by blast
  qed
qed

lemma reconcile_quiet:
  fixes s :: "'io jsonl_store" and C :: "('v, 'j) event_codec"
  assumes s: "store_recoverable C s" "js_io s = []"
    and e: "e = with_event_sequence q ev" "q = EventSequence (of_nat (length L + 1))"
    and L: "sequenced_from 1 L" "length L + 2 < 2 ^ 64 - 1" "identity_unused L e"
    and log: "store_log C s = L \<or> store_log C s = L @ [e]"
    and enc: "to_vec C e = Inr rec"
  shows "\<exists>s'. reconcile missing C q ev d s = (Inr (), s') \<and> store_log C s' = L @ [e] \<and> store_ok C s'"
proof (cases "js_file s")
  case None
  then have b: "file_bytes s = []" by (simp add: file_bytes_def)
  then have M: "store_log C s = []" by (simp add: store_log_def)
  have "store_ok C s" using s(1) b by (simp add: store_ok_def store_recoverable_def)
  from reconcile_records_quiet [OF this s(2) e L M _ _ enc, of missing d] log M None show ?thesis
    by (auto simp: reconcile_def)
next
  case (Some bytes)
  from s(1) obtain b tail where bytes: "bytes = b @ tail" and t: "terminated b" "newline \<notin> set tail"
    and good: "list_all (good_record C) (split_records b)" and C: "codec_ok C"
    unfolding store_recoverable_def file_bytes_def Some option.case by blast
  define s1 where "s1 = s\<lparr>js_append_file := None, js_file := Some b\<rparr>"
  have "repair_truncated_tail missing s
      = (Inr (length tail) :: ('v, 'io, 'j) event_store_error + nat, s1)"
    unfolding s1_def by (rule repair_quiet [OF s(2) _ t]) (simp add: Some bytes)
  then have rep: "op_bind (repair_truncated_tail missing) f s = f (length tail) s1"
    for f :: "nat \<Rightarrow> ('v persisted_agent_event list, 'v, 'io, 'j) store_op"
    by (simp add: op_bind_def)
  have b1: "file_bytes s1 = b" "js_io s1 = []" "js_file s1 \<noteq> None"
    using s(2) by (simp_all add: s1_def file_bytes_def)
  then have ok1: "store_ok C s1" using C good by (simp add: store_ok_def)
  have "store_log C s1 = store_log C s"
    using committed_append [OF t(1), of C tail] committed_tail [OF t(2), of C] Some b1(1)
    by (simp add: store_log_def file_bytes_def bytes)
  with log have M: "store_log C s1 = L \<or> store_log C s1 = L @ [e]" by simp
  then have seq: "sequenced_from 1 (store_log C s1)" "length (store_log C s1) < 2 ^ 64 - 1"
    using L e by (auto simp: sequenced_from_append)
  have "reconcile missing C q ev d s =
      reconcile_records missing C q ev d (map persisted (store_log C s1)) s1"
    using read_all_good(1) [OF ok1 b1(2,3) seq] Some
    by (simp add: reconcile_def op_bind_def [of "op_bind (repair_truncated_tail missing) _"] rep)
  with reconcile_records_quiet [OF ok1 b1(2) e L refl M _ enc, of missing d] b1 show ?thesis by simp
qed

end
