(* ===== verification/Runtime_Over_Store.thy ===== *)
theory Runtime_Over_Store
  imports Run_Gating Jsonl_Recovery Tool_Registry
begin

text \<open>
  The runtime as the command-line surface assembles it: the tool registry as its dispatcher and
  the JSONL store as its event sink. The model client, the tool handlers, the run control, the
  JSON codec, the file-system faults and the stop requests of other threads stay arbitrary.
\<close>

definition store_adapters ::
    "('h, 'v) tool_handler \<Rightarrow> 'io \<Rightarrow> ('v, 'j) event_codec
       \<Rightarrow> ('m \<Rightarrow> 'v model_request \<Rightarrow> bool \<Rightarrow> (model_error + 'v model_stream_event list) \<times> 'm)
       \<Rightarrow> ('c \<Rightarrow> run_control_flow \<times> 'c)
       \<Rightarrow> ('c \<Rightarrow> 'v approval_request \<Rightarrow> bool \<Rightarrow> approval_decision \<times> 'c)
       \<Rightarrow> ('v tool_output \<Rightarrow> 'v)
       \<Rightarrow> ('v, 'm, ('h, 'v) tool_runtime, 'io jsonl_store, 'c, ('v, 'io, 'j) event_store_error) adapters"
where
  "store_adapters H missing C stream checkpoint decide to_value =
     \<lparr>a_stream = stream, a_prepare = prepare_tool H, a_execute = execute_tool H,
      a_append = jsonl_sink_append missing C, a_append_durable = jsonl_sink_append_durable missing C,
      a_checkpoint = checkpoint, a_decide = decide, a_to_value = to_value\<rparr>"

interpretation store_run: agent_run
  "runtime_ok is_object" "store_ok C" "store_recoverable C" "store_log C"
  "store_adapters H missing C stream checkpoint decide to_value"
proof (intro agent_run.intro)
  show "tool_dispatcher (runtime_ok is_object)
     (a_prepare (store_adapters H missing C stream checkpoint decide to_value))
     (a_execute (store_adapters H missing C stream checkpoint decide to_value))"
    unfolding store_adapters_def adapters.simps by (rule registry.tool_dispatcher_axioms)
  show "event_sink (store_ok C) (store_recoverable C) (store_log C)
     (a_append (store_adapters H missing C stream checkpoint decide to_value))"
    unfolding store_adapters_def adapters.simps by (rule jsonl.event_sink_axioms)
  show "event_sink (store_ok C) (store_recoverable C) (store_log C)
     (a_append_durable (store_adapters H missing C stream checkpoint decide to_value))"
    unfolding store_adapters_def adapters.simps by (rule jsonl_durable.event_sink_axioms)
qed

text \<open>A runtime before its run: never started, an empty store in good order, an unused token.\<close>

definition fresh_run ::
    "('v \<Rightarrow> bool) \<Rightarrow> ('v, 'j) event_codec
       \<Rightarrow> ('m, ('h, 'v) tool_runtime, 'io jsonl_store, 'c) run_world \<Rightarrow> bool" where
  "fresh_run is_object C w \<longleftrightarrow>
     started_run_id w = None \<and> next_event_sequence w = 1
     \<and> runtime_ok is_object (tool_dispatcher_state w)
     \<and> store_ok C (event_sink_state w) \<and> file_bytes (event_sink_state w) = []
     \<and> token_open (rw_stop w) \<and> bound_run_id (rw_stop w) = None"

lemma fresh_run_fresh:
  fixes C :: "('v, 'j) event_codec"
  shows "fresh_run is_object C w \<Longrightarrow> store_run.fresh TYPE('j) is_object C w"
  by (simp add: fresh_run_def store_run.fresh_def store_log_def)

text \<open>What \<open>agent_run\<close> says of this instance, in terms of the store.\<close>

lemma store_run_outcome:
  assumes "fresh_run is_object C w"
    and "run_with_control_and_stop
      (store_adapters H missing C stream checkpoint decide to_value) req w = (Inr outcome, w')"
  shows "\<exists>a. spec_log Strict (store_log C (event_sink_state w')) = Inr (rq_run_id req, a)
             \<and> ls_finished a = Some (outcome_status outcome)"
    and "token_status (rw_stop w') = Some (outcome_status outcome)"
    and "store_ok C (event_sink_state w')"
    and "sequenced_from 1 (store_log C (event_sink_state w'))"
    and "length (store_log C (event_sink_state w')) < 2 ^ 64 - 1"
  using store_run.run_correct [OF fresh_run_fresh [OF assms(1)], where H = H and missing = missing
      and stream = stream and checkpoint = checkpoint and decide = decide and to_value = to_value
      and req = req] assms(2)
  by (auto simp: store_run.finished_with_def sequenced_def)

lemma store_run_failure:
  assumes "fresh_run is_object C w"
    and "run_with_control_and_stop
      (store_adapters H missing C stream checkpoint decide to_value) req w = (Inl failure, w')"
  shows "case failure of
      RunErr (EventPersistenceIndeterminate q ev d x) \<Rightarrow>
        store_recoverable C (event_sink_state w') \<and>
        (\<exists>L. store_log C (event_sink_state w') \<in> {L, L @ [with_event_sequence q ev]}
             \<and> q = EventSequence (of_nat (length L + 1)) \<and> event_run_id ev = rq_run_id req
             \<and> replayable (rq_run_id req) L
             \<and> replayable (rq_run_id req) (L @ [with_event_sequence q ev]))
    | RunPanic \<Rightarrow> replayable (rq_run_id req) (store_log C (event_sink_state w'))
                  \<and> length (store_log C (event_sink_state w')) = 2 ^ 64 - 1
    | _ \<Rightarrow> False"
  using store_run.run_correct [OF fresh_run_fresh [OF assms(1)], where H = H and missing = missing
      and stream = stream and checkpoint = checkpoint and decide = decide and to_value = to_value
      and req = req] assms(2)
  by (cases failure) (auto simp: store_run.failed_def split: agent_runtime_error.splits)

lemma store_run_replayable:
  assumes "fresh_run is_object C w"
    and "run_with_control_and_stop
      (store_adapters H missing C stream checkpoint decide to_value) req w = (Inl failure, w')"
  shows "replayable (rq_run_id req) (store_log C (event_sink_state w'))"
  using store_run_failure [OF assms]
  by (auto split: run_failure.splits agent_runtime_error.splits)

lemma spec_log_finished_replay:
  assumes "spec_log Strict L = Inr (rid, a)" and "ls_finished a = Some s"
  shows "\<exists>r. replay_events L = Inr r \<and> rr_run_id r = rid \<and> rr_status r = Finished s"
  using replay_Inr [OF assms(1), of False] assms(2)
  by (auto simp: replay_events_def shows_log_def log_status_for_def log_status_def)

lemma replayable_replay:
  "replayable rid L \<Longrightarrow> L = [] \<or> (\<exists>r. replay_events L = Inr r \<and> rr_run_id r = rid)"
  using replay_Inr [of Strict L rid _ False]
  by (fastforce simp: replayable_def replay_events_def shows_log_def)

section \<open>A sample run\<close>

definition sample_events :: "unit agent_event list" where
  "sample_events =
     [RunStarted (RunId [1]) (Some (EventSequence 1)) [],
      TurnStarted (RunId [1]) (numbered_turn_id 1) (Some (EventSequence 2)) [],
      ModelOutput (RunId [1]) (numbered_turn_id 1) (TextDelta [65] []) (Some (EventSequence 3)) [],
      ModelOutput (RunId [1]) (numbered_turn_id 1) (ModelCompleted None []) (Some (EventSequence 4)) [],
      RunFinished (RunId [1]) (Completed [65]) (Some (EventSequence 5)) []]"

definition sample_request :: "unit run_request" where
  "sample_request = \<lparr>rq_run_id = RunId [1], rq_model = [], rq_messages = [], rq_tools = [],
     rq_metadata = []\<rparr>"

definition sample_world ::
    "(unit, (unit, unit) tool_runtime, unit jsonl_store, unit) run_world" where
  "sample_world = runtime_world
     (new_runtime () (tool_runtime_new (ToolDispatcherIdentity 1)) (store_new [] (Some []) []))
     () default_token []"

definition sample_handler :: "(unit, unit) tool_handler" where
  "sample_handler = \<lparr>h_classify = (\<lambda>_ _. Allow), h_execute = (\<lambda>h _ _. (Success [] [] [], h))\<rparr>"

definition sample_stream ::
    "unit \<Rightarrow> unit model_request \<Rightarrow> bool \<Rightarrow> (model_error + unit model_stream_event list) \<times> unit" where
  "sample_stream m req cancelled = (Inr [TextDelta [65] [], ModelCompleted None []], m)"

definition sample_checkpoint :: "unit \<Rightarrow> run_control_flow \<times> unit" where
  "sample_checkpoint c = (Continue, c)"

definition sample_decide :: "unit \<Rightarrow> unit approval_request \<Rightarrow> bool \<Rightarrow> approval_decision \<times> unit" where
  "sample_decide c q cancelled = (Approve, c)"

definition sample_to_value :: "unit tool_output \<Rightarrow> unit" where
  "sample_to_value out = ()"

definition sample_adapters ::
    "(unit, unit, (unit, unit) tool_runtime, unit jsonl_store, unit,
      (unit, unit, unit) event_store_error) adapters" where
  "sample_adapters = store_adapters sample_handler () (table_codec sample_events) sample_stream
     sample_checkpoint sample_decide sample_to_value"

lemma sample_fresh: "fresh_run (\<lambda>_. True) (table_codec sample_events) sample_world"
  by (simp add: fresh_run_def sample_world_def runtime_world_def new_runtime_def store_new_def
      runtime_ok_new store_ok_def table_codec_ok file_bytes_def default_token_def)
    (simp add: default_token_def [symmetric])


lemma sample_run:
  "fst (run_with_control_and_stop sample_adapters sample_request sample_world)
     = Inr (RunOutcome (Completed [65]))"
  by code_simp

section \<open>Properties\<close>

text \<open>
  C1. The log of every run replays. Whatever the model streams, the tools return, the control
  decides, the file system fails and whenever other threads stop the run: if the run returns an
  outcome, strict replay of the committed log yields this run, finished with exactly that outcome,
  which is also the status latched in the stop token; if it fails, the committed log is empty or
  still replays as this run.
\<close>
theorem run_log_replays:
  assumes "fresh_run is_object C w"
  shows "case run_with_control_and_stop
        (store_adapters H missing C stream checkpoint decide to_value) req w of
      (Inr outcome, w') \<Rightarrow>
        (\<exists>r. replay_events (store_log C (event_sink_state w')) = Inr r
             \<and> rr_run_id r = rq_run_id req \<and> rr_status r = Finished (outcome_status outcome))
        \<and> token_status (rw_stop w') = Some (outcome_status outcome)
    | (Inl failure, w') \<Rightarrow>
        store_log C (event_sink_state w') = []
        \<or> (\<exists>r. replay_events (store_log C (event_sink_state w')) = Inr r
               \<and> rr_run_id r = rq_run_id req)"
proof -
  obtain r w' where run: "run_with_control_and_stop
    (store_adapters H missing C stream checkpoint decide to_value) req w = (r, w')" by fastforce
  show ?thesis
  proof (cases r)
    case (Inr outcome)
    note finished = store_run_outcome(1,2) [OF assms run [unfolded Inr]]
    then show ?thesis using run Inr by (auto dest: spec_log_finished_replay)
  next
    case (Inl failure)
    from replayable_replay [OF store_run_replayable [OF assms run [unfolded Inl]]] run Inl
    show ?thesis by simp
  qed
qed

theorem run_log_replays_witness:
  "\<exists>r. replay_events (store_log (table_codec sample_events) (event_sink_state
        (snd (run_with_control_and_stop sample_adapters sample_request sample_world)))) = Inr r
      \<and> rr_status r = Finished (Completed [65])"
proof -
  obtain w' where "run_with_control_and_stop sample_adapters sample_request sample_world
      = (Inr (RunOutcome (Completed [65])), w')"
    using sample_run by (metis prod.collapse)
  then show ?thesis
    using run_log_replays [OF sample_fresh, where H = sample_handler and missing = "()"
        and stream = sample_stream and checkpoint = sample_checkpoint and decide = sample_decide
        and to_value = sample_to_value and req = sample_request, folded sample_adapters_def]
    by auto
qed

text \<open>
  C27. What is on disk after a run is the run: reading the file of a finished run back on a quiet
  file system decodes it record by record and \<open>JsonlEventStore::replay\<close> returns the finished run
  with the run's outcome, although any calls of the file system may have failed before.
\<close>
theorem finished_run_reads_back:
  fixes w :: "('m, ('h, 'v) tool_runtime, 'io jsonl_store, 'c) run_world"
  assumes "fresh_run is_object C w"
    and "run_with_control_and_stop
      (store_adapters H missing C stream checkpoint decide to_value) req w = (Inr outcome, w')"
  shows "\<exists>r s. store_replay missing C ((event_sink_state w')\<lparr>js_io := []\<rparr>) = (Inr r, s)
             \<and> rr_run_id r = rq_run_id req \<and> rr_status r = Finished (outcome_status outcome)
             \<and> sequenced_from 1 (rr_events r)"
proof -
  let ?s = "(event_sink_state w')\<lparr>js_io := []\<rparr>"
  have log: "store_log C ?s = store_log C (event_sink_state w')"
    by (simp add: store_log_def file_bytes_def)
  note out = store_run_outcome [OF assms, folded log]
  from out(1) obtain a where a: "spec_log Strict (store_log C ?s) = Inr (rq_run_id req, a)"
    "ls_finished a = Some (outcome_status outcome)" by blast
  then have "store_log C ?s \<noteq> []" by (auto simp: spec_log_def)
  then have "js_file ?s \<noteq> None"
    by (cases "js_file (event_sink_state w')") (simp_all add: store_log_def file_bytes_def)
  moreover have "store_ok C ?s" using out(3) by (simp add: store_ok_def file_bytes_def)
  ultimately have "read_all missing C ?s = (Inr (store_log C ?s), ?s)"
    using out(4,5) by (intro read_all_good(3)) simp_all
  moreover from spec_log_finished_replay [OF a] obtain r where
    "replay_events (store_log C ?s) = Inr r" "rr_run_id r = rq_run_id req"
    "rr_status r = Finished (outcome_status outcome)" by blast
  moreover have "rr_events r = store_log C ?s"
    using \<open>replay_events (store_log C ?s) = Inr r\<close>
    by (auto simp: replay_events_def replay_events_with_mode_def try_res_Inr)
  ultimately show ?thesis
    using out(4) by (auto simp: store_replay_def store_replay_with_def op_bind_def)
qed

theorem finished_run_reads_back_witness:
  "\<exists>r s. store_replay () (table_codec sample_events) ((event_sink_state
        (snd (run_with_control_and_stop sample_adapters sample_request sample_world)))\<lparr>js_io := []\<rparr>)
        = (Inr r, s)
      \<and> rr_run_id r = RunId [1] \<and> rr_status r = Finished (Completed [65])
      \<and> sequenced_from 1 (rr_events r)"
proof -
  obtain w' where "run_with_control_and_stop sample_adapters sample_request sample_world
      = (Inr (RunOutcome (Completed [65])), w')"
    using sample_run by (metis prod.collapse)
  from finished_run_reads_back [OF sample_fresh this [unfolded sample_adapters_def]] this
  show ?thesis by (simp add: sample_request_def)
qed

end
