(* ===== verification/Log_Identity.thy ===== *)
theory Log_Identity
  imports Replay_Properties Jsonl_Recovery
begin

text \<open>
  Strict replay accepts each durable identity once: an event that extends an accepted log is not
  a second request, approval, resolution, result or ending of the same thing. With it, the event
  of an ambiguous append of a run can always be reconciled.
\<close>

section \<open>Calls only gain facts\<close>

definition call_le :: "'v call_view \<Rightarrow> 'v call_view \<Rightarrow> bool" where
  "call_le u v \<longleftrightarrow>
     (cv_decision u \<noteq> None \<longrightarrow> cv_decision v \<noteq> None) \<and> (cv_result u \<noteq> None \<longrightarrow> cv_result v \<noteq> None)"

lemma call_le_refl [simp]: "call_le u u"
  by (simp add: call_le_def)

definition keeps_found :: "('v call_view \<Rightarrow> bool) \<Rightarrow> 'v call_view list \<Rightarrow> 'v call_view list \<Rightarrow> bool" where
  "keeps_found p us vs \<longleftrightarrow>
     (\<forall>i. find_index p us = Some i \<longrightarrow> find_index p vs = Some i \<and> call_le (us ! i) (vs ! i))"

lemma keeps_found_refl [simp]: "keeps_found p us us"
  by (simp add: keeps_found_def)

lemma keeps_found_append [simp]: "keeps_found p us (us @ vs)"
  by (auto simp: keeps_found_def find_index_append nth_append dest: find_index_SomeD)

lemma keeps_found_update:
  assumes "i < length us" and "p v = p (us ! i) \<or> find_index p us = None" and "call_le (us ! i) v"
  shows "keeps_found p us (us[i := v])"
  using assms find_index_update_same [of i us p v]
  by (auto simp: keeps_found_def nth_list_update dest: find_index_SomeD)

definition extends :: "'v log_state \<Rightarrow> 'v log_state \<Rightarrow> bool" where
  "extends a b \<longleftrightarrow>
     (\<forall>c. keeps_found (call_has_id c) (ls_calls a) (ls_calls b))
     \<and> (\<forall>q. keeps_found (call_has_approval q) (ls_calls a) (ls_calls b))
     \<and> (ls_finished a \<noteq> None \<longrightarrow> ls_finished b \<noteq> None)"

lemma spec_event_extends:
  assumes "spec_event mode n ev a = Inr b"
  shows "extends a b"
proof (cases ev)
  case (ApprovalRequested r t q s x)
  with assms obtain i where
    i: "find_index (call_has_id (tc_id (ar_call q))) (ls_calls a) = Some i"
    and g: "cv_approval (ls_calls a ! i) = None"
      "find_index (call_has_approval (ar_id q)) (ls_calls a) = None"
    and b: "ls_calls b = (ls_calls a)[i := (ls_calls a ! i)\<lparr>cv_approval := Some q\<rparr>]"
      "ls_finished b = ls_finished a"
    by (auto simp: spec_event_def try_res_Inr spec_approval_def Let_def split: option.splits if_splits)
  from find_index_SomeD [OF i] have li: "i < length (ls_calls a)" by simp
  have "call_has_approval p ((ls_calls a ! i)\<lparr>cv_approval := Some q\<rparr>) = call_has_approval p (ls_calls a ! i)
      \<or> find_index (call_has_approval p) (ls_calls a) = None" for p
    using g by (auto simp: call_has_approval_def)
  then have "keeps_found (call_has_approval p) (ls_calls a) (ls_calls b)" for p
    unfolding b by (rule keeps_found_update [OF li]) (simp add: call_le_def)
  with li show ?thesis
    by (auto simp: extends_def b call_has_id_def call_le_def intro!: keeps_found_update)
next
  case (ApprovalResolved r t aid d s x)
  with assms obtain i where i: "find_index (call_has_approval aid) (ls_calls a) = Some i"
    and b: "ls_calls b = (ls_calls a)[i := (ls_calls a ! i)\<lparr>cv_decision := Some d\<rparr>]"
      "ls_finished b = ls_finished a"
    by (auto simp: spec_event_def try_res_Inr spec_resolved_def Let_def split: option.splits if_splits)
  from find_index_SomeD [OF i] show ?thesis
    by (auto simp: extends_def b call_has_id_def call_has_approval_def call_le_def
        intro!: keeps_found_update)
next
  case (ToolResultEvent r t w s x)
  with assms obtain i where i: "find_index (call_has_id (tr_call_id w)) (ls_calls a) = Some i"
    and b: "ls_calls b = (ls_calls a)[i := (ls_calls a ! i)\<lparr>cv_result := Some w\<rparr>]"
      "ls_finished b = ls_finished a"
    by (auto simp: spec_event_def try_res_Inr spec_result_eq Let_def split: option.splits if_splits)
  from find_index_SomeD [OF i] show ?thesis
    by (auto simp: extends_def b call_has_id_def call_has_approval_def call_le_def
        intro!: keeps_found_update)
next
  case (ErrorEvent r t e s x)
  with assms show ?thesis
    by (cases t) (auto simp: spec_event_def try_res_Inr extends_def)
qed (use assms in \<open>auto simp: spec_event_def try_res_Inr spec_turn_started_def spec_requested_def
    spec_finished_def extends_def split: if_splits\<close>)

section \<open>Recorded events\<close>

definition found :: "('v call_view \<Rightarrow> bool) \<Rightarrow> ('v call_view \<Rightarrow> bool) \<Rightarrow> 'v log_state \<Rightarrow> bool" where
  "found p has a \<longleftrightarrow>
     (case find_index p (ls_calls a) of Some i \<Rightarrow> has (ls_calls a ! i) | None \<Rightarrow> False)"

fun recorded :: "'v agent_event \<Rightarrow> 'v log_state \<Rightarrow> bool" where
  "recorded (ToolCallRequested _ _ _ c _ _) a = found (call_has_id (tc_id c)) (\<lambda>_. True) a"
| "recorded (ApprovalRequested _ _ q _ _) a = found (call_has_approval (ar_id q)) (\<lambda>_. True) a"
| "recorded (ApprovalResolved _ _ q _ _ _) a =
     found (call_has_approval q) (\<lambda>v. cv_decision v \<noteq> None) a"
| "recorded (ToolResultEvent _ _ w _ _) a =
     found (call_has_id (tr_call_id w)) (\<lambda>v. cv_result v \<noteq> None) a"
| "recorded (RunFinished _ _ _ _) a = (ls_finished a \<noteq> None)"
| "recorded _ a = True"

lemma found_extends:
  assumes "found p has a" and "keeps_found p (ls_calls a) (ls_calls b)"
    and "\<And>u v. call_le u v \<Longrightarrow> has u \<Longrightarrow> has v"
  shows "found p has b"
  using assms by (auto simp: found_def keeps_found_def split: option.splits)

lemma recorded_extends: "extends a b \<Longrightarrow> recorded x a \<Longrightarrow> recorded x b"
  by (cases x) (auto simp: extends_def call_le_def elim!: found_extends)

lemma spec_event_recorded:
  assumes "spec_event mode n x a = Inr b"
  shows "recorded x b"
proof (cases x)
  case (ToolCallRequested r t m c s e)
  with assms show ?thesis
    by (auto simp: spec_event_def try_res_Inr spec_requested_def found_def find_index_append
        new_call_def call_has_id_def split: if_splits option.splits)
next
  case (ApprovalRequested r t q s e)
  with assms obtain i where "i < length (ls_calls a)"
    "find_index (call_has_approval (ar_id q)) (ls_calls a) = None"
    "ls_calls b = (ls_calls a)[i := (ls_calls a ! i)\<lparr>cv_approval := Some q\<rparr>]"
    by (auto simp: spec_event_def try_res_Inr spec_approval_def Let_def dest: find_index_SomeD
        split: option.splits if_splits)
  then show ?thesis
    using find_index_update_new [of "call_has_approval (ar_id q)" "ls_calls a" i
        "(ls_calls a ! i)\<lparr>cv_approval := Some q\<rparr>"]
    by (simp add: ApprovalRequested found_def call_has_approval_def)
next
  case (ApprovalResolved r t aid d s e)
  with assms obtain i where i: "find_index (call_has_approval aid) (ls_calls a) = Some i"
    and b: "ls_calls b = (ls_calls a)[i := (ls_calls a ! i)\<lparr>cv_decision := Some d\<rparr>]"
    by (auto simp: spec_event_def try_res_Inr spec_resolved_def Let_def split: option.splits if_splits)
  from find_index_SomeD [OF i] i show ?thesis
    using find_index_update_same [of i "ls_calls a" "call_has_approval aid"
        "(ls_calls a ! i)\<lparr>cv_decision := Some d\<rparr>"]
    by (simp add: ApprovalResolved found_def b call_has_approval_def)
next
  case (ToolResultEvent r t w s e)
  with assms obtain i where i: "find_index (call_has_id (tr_call_id w)) (ls_calls a) = Some i"
    and b: "ls_calls b = (ls_calls a)[i := (ls_calls a ! i)\<lparr>cv_result := Some w\<rparr>]"
    by (auto simp: spec_event_def try_res_Inr spec_result_eq Let_def split: option.splits if_splits)
  from find_index_SomeD [OF i] i show ?thesis
    using find_index_update_same [of i "ls_calls a" "call_has_id (tr_call_id w)"
        "(ls_calls a ! i)\<lparr>cv_result := Some w\<rparr>"]
    by (simp add: ToolResultEvent found_def b call_has_id_def)
next
  case (RunFinished r w s e)
  with assms show ?thesis by (auto simp: spec_event_def spec_finished_def split: if_splits)
qed simp_all

lemma spec_run_recorded:
  "spec_run mode rid n L a = Inr b \<Longrightarrow> x \<in> set L \<or> recorded x a \<Longrightarrow> recorded x b"
proof (induction L arbitrary: n a)
  case (Cons y L)
  from Cons.prems(1) obtain c where s: "spec_event mode n y a = Inr c"
    and r: "spec_run mode rid (Suc n) L c = Inr b"
    by (auto simp: try_res_Inr spec_step_def split: if_splits)
  from Cons.prems(2) have "x \<in> set L \<or> recorded x c"
    using spec_event_recorded [OF s] recorded_extends [OF spec_event_extends [OF s]] by auto
  with Cons.IH [OF r] show ?case .
qed simp

text \<open>An event with the identity of a recorded one is not accepted.\<close>

lemma recorded_rejects:
  assumes "recorded x a" and "has_same_durable_identity x e" and "spec_step mode rid n e a = Inr b"
  shows False
  using assms
  by (induction x e rule: has_same_durable_identity.induct)
    (auto simp: spec_step_def spec_event_def try_res_Inr found_def spec_requested_def
      spec_approval_def spec_resolved_def spec_result_eq Let_def split: if_splits option.splits)

lemma accepted_identity_unused:
  assumes "spec_log Strict (L @ [e]) = Inr (rid, b)"
  shows "identity_unused L e"
proof (cases L)
  case Nil
  then show ?thesis by (simp add: identity_unused_def)
next
  case (Cons y rest)
  from spec_log_cases [OF assms] obtain s x r where "L @ [e] = RunStarted rid s x # r"
    and run: "spec_run Strict rid 2 r init_log_state = Inr b" .
  with Cons have y: "y = RunStarted rid s x" and r: "r = rest @ [e]" by auto
  from run obtain a where a: "spec_run Strict rid 2 rest init_log_state = Inr a"
    and e: "spec_step Strict rid (2 + length rest) e a = Inr b"
    unfolding r spec_run_append spec_run.simps try_res_Inr by auto
  have "\<not> has_same_durable_identity z e" if "z \<in> set L" for z
  proof (cases "z = y")
    case False
    with that Cons have "z \<in> set rest" by simp
    then have "recorded z a" by (intro spec_run_recorded [OF a]) simp
    from recorded_rejects [OF this _ e] show ?thesis by blast
  qed (simp add: y)
  then show ?thesis by (simp add: identity_unused_def list_all_iff)
qed

end
