(* ===== verification/Run_Recovery.thy ===== *)
theory Run_Recovery
  imports Runtime_Over_Store Log_Identity
begin

text \<open>
  Recovery of a failed run: what its error reports is exactly what is needed to reconcile the
  log. A second run on the same runtime or with the same stop token is refused.
\<close>

lemma replayable_snoc:
  assumes "replayable rid (L @ [e])"
  shows "sequenced_from 1 L" and "identity_unused L e"
    and "\<exists>r. replay_events (L @ [e]) = Inr r \<and> rr_run_id r = rid"
proof -
  from assms obtain a where "spec_log Strict (L @ [e]) = Inr (rid, a)"
    and "sequenced (L @ [e])" by (auto simp: replayable_def)
  then show "sequenced_from 1 L" "identity_unused L e"
    using accepted_identity_unused by (auto simp: sequenced_def sequenced_from_append)
  show "\<exists>r. replay_events (L @ [e]) = Inr r \<and> rr_run_id r = rid"
    using replayable_replay [OF assms] by simp
qed

text \<open>
  C26. An ambiguous append is always recoverable. When a run fails with
  \<open>EventPersistenceIndeterminate\<close>, the reported event can be encoded and the log is shorter than the
  range of sequences, reconciling the reported sequence, event and durability on a
  quiet file system succeeds, whether the failed append had written nothing, a part of the record
  or all of it: afterwards the log ends with that event, which occurs exactly once, and replays as
  the same run.
\<close>
theorem failed_append_reconciles:
  fixes w :: "('m, ('h, 'v) tool_runtime, 'io jsonl_store, 'c) run_world"
  assumes fresh: "fresh_run is_object C w"
    and run: "run_with_control_and_stop
      (store_adapters H missing C stream checkpoint decide to_value) req w
        = (Inl (RunErr (EventPersistenceIndeterminate q ev d x)), w')"
    and enc: "to_vec C (with_event_sequence q ev) = Inr rec"
    and len: "length (store_log C (event_sink_state w')) + 3 < 2 ^ 64"
  shows "\<exists>s' L r. reconcile missing C q ev d ((event_sink_state w')\<lparr>js_io := []\<rparr>) = (Inr (), s')
      \<and> store_log C s' = L @ [with_event_sequence q ev]
      \<and> list_all (\<lambda>y. event_sequence_of y \<noteq> Some q) L
      \<and> replay_events (store_log C s') = Inr r \<and> rr_run_id r = rq_run_id req"
proof -
  let ?e = "with_event_sequence q ev"
  let ?s = "(event_sink_state w')\<lparr>js_io := []\<rparr>"
  from store_run_failure [OF fresh run] obtain L where
    rec: "store_recoverable C (event_sink_state w')"
    and log: "store_log C (event_sink_state w') \<in> {L, L @ [?e]}"
    and q: "q = EventSequence (of_nat (length L + 1))"
    and rep: "replayable (rq_run_id req) (L @ [?e])" by auto
  have s: "store_log C ?s = store_log C (event_sink_state w')" "store_recoverable C ?s"
    using rec by (simp_all add: store_log_def store_recoverable_def file_bytes_def)
  have L: "length L + 2 < 2 ^ 64 - 1" using log len by auto
  from reconcile_quiet [of C ?s ?e q ev L rec missing d] s log q L replayable_snoc [OF rep] enc
  obtain s' where r: "reconcile missing C q ev d ?s = (Inr (), s')" "store_log C s' = L @ [?e]" by auto
  have "list_all (\<lambda>y. event_sequence_of y \<noteq> Some q) L"
    unfolding list_all_length
  proof (intro allI impI)
    fix i assume i: "i < length L"
    then show "event_sequence_of (L ! i) \<noteq> Some q"
      using sequenced_from_nth [OF replayable_snoc(1) [OF rep] i] L
        of_nat_word_inject [of "1 + i" "length L + 1"] by (simp add: q)
  qed
  with r replayable_snoc(3) [OF rep] show ?thesis by auto
qed

text \<open>The sample run on a disk that is full after one byte of the first record.\<close>

definition torn_world :: "(unit, (unit, unit) tool_runtime, unit jsonl_store, unit) run_world" where
  "torn_world = sample_world\<lparr>event_sink_state :=
     store_new [] (Some []) [IoOk, IoOk, IoOk, IoErr 1 ()]\<rparr>"

lemma torn_fresh: "fresh_run (\<lambda>_. True) (table_codec sample_events) torn_world"
  using sample_fresh
  by (simp add: fresh_run_def torn_world_def sample_world_def runtime_world_def new_runtime_def
      store_new_def store_ok_def file_bytes_def)

lemma torn_run:
  "fst (run_with_control_and_stop sample_adapters sample_request torn_world)
     = Inl (RunErr (EventPersistenceIndeterminate (EventSequence 1) (RunStarted (RunId [1]) None [])
         Buffered (AppendError [] ())))"
  by code_simp

lemma torn_log:
  "store_log (table_codec sample_events)
     (event_sink_state (snd (run_with_control_and_stop sample_adapters sample_request torn_world))) = []"
  by code_simp

theorem failed_append_reconciles_witness:
  "\<exists>s' L r. reconcile () (table_codec sample_events) (EventSequence 1) (RunStarted (RunId [1]) None [])
        Buffered ((event_sink_state
          (snd (run_with_control_and_stop sample_adapters sample_request torn_world)))\<lparr>js_io := []\<rparr>)
        = (Inr (), s')
     \<and> store_log (table_codec sample_events) s' = L @ [RunStarted (RunId [1]) (Some (EventSequence 1)) []]
     \<and> replay_events (store_log (table_codec sample_events) s') = Inr r \<and> rr_run_id r = RunId [1]"
proof -
  obtain w' where run: "run_with_control_and_stop sample_adapters sample_request torn_world
      = (Inl (RunErr (EventPersistenceIndeterminate (EventSequence 1) (RunStarted (RunId [1]) None [])
           Buffered (AppendError [] ()))), w')"
    using torn_run by (metis prod.collapse)
  have enc: "to_vec (table_codec sample_events)
      (with_event_sequence (EventSequence 1) (RunStarted (RunId [1]) None [])) = Inr [11]"
    by (simp add: table_codec_def sample_events_def)
  have len: "length (store_log (table_codec sample_events) (event_sink_state w')) + 3 < 2 ^ 64"
    using torn_log by (simp add: run)
  have "rq_run_id sample_request = RunId [1]" by (simp add: sample_request_def)
  with failed_append_reconciles [OF torn_fresh run [unfolded sample_adapters_def] enc len]
  show ?thesis by (simp add: run) blast
qed

end
