(* ===== verification/Run_Frame.thy ===== *)
theory Run_Frame
  imports Agent_Runtime
begin

text \<open>
  A runtime and a stop token each serve one run. No operation of a run changes the run the
  runtime was started for or the run its token is bound to, so a later run on either is refused.
\<close>

section \<open>Operations that keep the binding\<close>

definition keeps_run :: "(('v, 'e) run_failure, ('m, 't, 's, 'c) run_world, 'a) op \<Rightarrow> bool" where
  "keeps_run m \<longleftrightarrow>
     (\<forall>w. started_run_id (snd (m w)) = started_run_id w
          \<and> bound_run_id (rw_stop (snd (m w))) = bound_run_id (rw_stop w))"

lemma keeps_runI:
  assumes "\<And>w. started_run_id (snd (m w)) = started_run_id w"
    and "\<And>w. bound_run_id (rw_stop (snd (m w))) = bound_run_id (rw_stop w)"
  shows "keeps_run m"
  using assms by (simp add: keeps_run_def)

lemma keeps_runD:
  assumes "keeps_run m" and "m w = (r, w')"
  shows "started_run_id w' = started_run_id w" "bound_run_id (rw_stop w') = bound_run_id (rw_stop w)"
  using assms unfolding keeps_run_def by (metis snd_conv)+

named_theorems kept

lemma keeps_return [kept]: "keeps_run (op_return a)"
  by (simp add: keeps_run_def op_return_def)

lemma keeps_run_bind [kept]:
  assumes m: "keeps_run m" and f: "\<And>a. keeps_run (f a)"
  shows "keeps_run (op_bind m f)"
proof -
  have "started_run_id (snd (op_bind m f w)) = started_run_id w
      \<and> bound_run_id (rw_stop (snd (op_bind m f w))) = bound_run_id (rw_stop w)" for w
  proof -
    obtain r w1 where r: "m w = (r, w1)" by fastforce
    note kept_m = keeps_runD [OF m r]
    show ?thesis
    proof (cases r)
      case (Inl e)
      then show ?thesis using kept_m r by (simp add: op_bind_def)
    next
      case (Inr a)
      obtain r2 w2 where r2: "f a w1 = (r2, w2)" by fastforce
      from keeps_runD [OF f r2] kept_m show ?thesis by (simp add: op_bind_def r Inr r2)
    qed
  qed
  then show ?thesis by (simp add: keeps_run_def)
qed

lemma concurrent_keeps [simp]:
  "started_run_id (concurrent_stops w) = started_run_id w"
  "bound_run_id (rw_stop (concurrent_stops w)) = bound_run_id (rw_stop w)"
  by (simp_all add: concurrent_stops_def split: list.split)

lemma resolve_keeps_bound [simp]:
  "bound_run_id (snd (resolve_terminal p k)) = bound_run_id k"
  by (simp add: resolve_terminal_def split: option.split)

lemma keeps_stop_now [kept]: "keeps_run stop_now"
  by (rule keeps_runI) (simp_all add: stop_now_def Let_def)

lemma keeps_flag [kept]: "keeps_run cancellation_flag"
  by (rule keeps_runI) (simp_all add: cancellation_flag_def Let_def)

lemma keeps_resolve [kept]: "keeps_run (resolve_now s)"
  by (rule keeps_runI) (simp_all add: resolve_now_def Let_def split_beta)

lemma keeps_stopped [kept]:
  fixes A :: "('v, 'm, 't, 's, 'c, 'e) adapters"
  shows "keeps_run (stopped_status A)"
proof -
  note resolve = keeps_run_bind [OF keeps_resolve keeps_stop_now, unfolded keeps_run_def]
  note now = keeps_stop_now [unfolded keeps_run_def]
  have "started_run_id (snd (stopped_status A w)) = started_run_id w
      \<and> bound_run_id (rw_stop (snd (stopped_status A w))) = bound_run_id (rw_stop w)"
    for w :: "('m, 't, 's, 'c) run_world"
    by (cases "a_checkpoint A (rw_control w)"; cases "fst (a_checkpoint A (rw_control w))")
      (simp_all add: stopped_status_def resolve now)
  then show ?thesis by (simp add: keeps_run_def)
qed

lemma keeps_emit_with:
  fixes app :: "'s \<Rightarrow> event_sequence \<Rightarrow> 'v agent_event \<Rightarrow> ('e + unit) \<times> 's"
  shows "keeps_run (emit_with app d ev :: (unit, 'v, 'm, 't, 's, 'c, 'e) run_op)"
proof -
  have "started_run_id (snd (emit_with app d ev w)) = started_run_id w
      \<and> bound_run_id (rw_stop (snd (emit_with app d ev w))) = bound_run_id (rw_stop w)"
    for w :: "('m, 't, 's, 'c) run_world"
    by (cases "app (event_sink_state w) (EventSequence (next_event_sequence w)) ev";
        cases "fst (app (event_sink_state w) (EventSequence (next_event_sequence w)) ev)")
      (simp_all add: emit_with_def advance_event_sequence_def split: option.split)
  then show ?thesis by (simp add: keeps_run_def)
qed

lemma keeps_emit [kept]: "keeps_run (emit A ev)" "keeps_run (emit_durable A ev)"
    "keeps_run (emit_tool_result A ev)"
  by (simp_all add: emit_def emit_durable_def emit_tool_result_def keeps_emit_with)

text \<open>The calls of the adapters only change the adapter's own state.\<close>

lemma keeps_call [kept]:
  "keeps_run (\<lambda>w. let (r, m) = f w in (Inr (g r), w\<lparr>model_client := m\<rparr>))"
  "keeps_run (\<lambda>w. let (r, c) = h w in (Inr (g r), w\<lparr>rw_control := c\<rparr>))"
  "keeps_run (\<lambda>w. let (r, t) = k w in (Inr (g r), w\<lparr>tool_dispatcher_state := t\<rparr>))"
  by (rule keeps_runI; simp add: split_beta Let_def)+

lemma keeps_prepare [kept]: "keeps_run (prepare_call A call)"
  by (rule keeps_runI) (simp_all add: prepare_call_def)

lemma keeps_finish [kept]: "keeps_run (finish A rid s)"
  unfolding finish_def by (intro kept)

lemma keeps_finish_error [kept]:
  "keeps_run (finish_agent_error A rid t err)" "keeps_run (finish_model_error A rid t merr)"
  unfolding finish_model_error_def finish_agent_error_def by (intro kept)+

section \<open>The operations of a run\<close>

lemma keeps_option [kept]:
  "(\<And>x. keeps_run (f x)) \<Longrightarrow> keeps_run g \<Longrightarrow> keeps_run (case q of Some x \<Rightarrow> f x | None \<Rightarrow> g)"
  by (cases q) simp_all

lemma keeps_if [kept]: "keeps_run f \<Longrightarrow> keeps_run g \<Longrightarrow> keeps_run (if b then f else g)"
  by simp

lemma keeps_call_stream [kept]: "keeps_run (call_stream A req)"
  unfolding call_stream_def by (intro kept)

lemma keeps_decide [kept]: "keeps_run (decide_approval A q)"
  unfolding decide_approval_def by (intro kept)

lemma keeps_execute [kept]: "keeps_run (execute_prepared_call A p auth)"
  unfolding execute_prepared_call_def by (intro kept)

lemma keeps_consume [kept]: "keeps_run (consume_stream A rid t events out calls ids)"
proof (induction events arbitrary: out calls ids)
  case Nil
  show ?case by (simp add: kept)
next
  case (Cons me rest)
  show ?case by (cases me) (auto intro!: kept Cons)
qed

lemma keeps_sum [kept]:
  "(\<And>x. keeps_run (f x)) \<Longrightarrow> (\<And>y. keeps_run (g y)) \<Longrightarrow>
    keeps_run (case r of Inl x \<Rightarrow> f x | Inr y \<Rightarrow> g y)"
  by (cases r) simp_all

lemma keeps_stream_end [kept]:
  "(\<And>x. keeps_run (f x)) \<Longrightarrow> (\<And>x y z. keeps_run (g x y z)) \<Longrightarrow>
    keeps_run (case r of StreamFinished x \<Rightarrow> f x | StreamEnded x y z \<Rightarrow> g x y z)"
  by (cases r) simp_all

lemma keeps_tool_progress [kept]:
  "(\<And>x. keeps_run (f x)) \<Longrightarrow> (\<And>x. keeps_run (g x)) \<Longrightarrow>
    keeps_run (case r of ToolStopped x \<Rightarrow> f x | ToolOutputReady x \<Rightarrow> g x)"
  by (cases r) simp_all

lemma keeps_calls_end [kept]:
  "(\<And>x y. keeps_run (f x y)) \<Longrightarrow> (\<And>x. keeps_run (g x)) \<Longrightarrow>
    keeps_run (case r of CallsDone x y \<Rightarrow> f x y | CallsFinished x \<Rightarrow> g x)"
  by (cases r) simp_all

lemma keeps_turn_progress [kept]:
  "(\<And>x. keeps_run (f x)) \<Longrightarrow> (\<And>x. keeps_run (g x)) \<Longrightarrow>
    keeps_run (case r of ModelTurnFinished x \<Rightarrow> f x | Collected x \<Rightarrow> g x)"
  by (cases r) simp_all

lemma keeps_call_progress [kept]:
  "(\<And>x. keeps_run (f x)) \<Longrightarrow> (\<And>x. keeps_run (g x)) \<Longrightarrow>
    keeps_run (case r of ToolCallMessage x \<Rightarrow> f x | ToolCallFinished x \<Rightarrow> g x)"
  by (cases r) simp_all

lemma keeps_decision [kept]:
  "keeps_run f \<Longrightarrow> (\<And>x. keeps_run (g x)) \<Longrightarrow>
    keeps_run (case r of Approve \<Rightarrow> f | Deny x \<Rightarrow> g x)"
  by (cases r) simp_all

lemma keeps_output [kept]:
  "(\<And>x y z. keeps_run (f x y z)) \<Longrightarrow> (\<And>x y. keeps_run (g x y)) \<Longrightarrow>
    keeps_run (case r of Success x y z \<Rightarrow> f x y z | Failure x y \<Rightarrow> g x y)"
  by (cases r) simp_all

lemma keeps_collect [kept]: "keeps_run (collect_model_turn A rid t req)"
  unfolding collect_model_turn_def by (intro kept)

lemma keeps_finish_tool [kept]: "keeps_run (finish_tool A rid s)"
  unfolding finish_tool_def by (intro kept)

lemma keeps_execute_unless_stopped [kept]: "keeps_run (execute_unless_stopped A rid p auth)"
  unfolding execute_unless_stopped_def by (intro kept)

lemma keeps_approval [kept]: "keeps_run (run_with_approval A rid t n p reason)"
  unfolding run_with_approval_def Let_def by (intro kept)

lemma keeps_record [kept]: "keeps_run (record_tool_result A rid t mcall result)"
  unfolding record_tool_result_def by (intro kept)

lemma keeps_drive [kept]: "keeps_run (drive_tool_call A rid t mcall sq)"
  unfolding drive_tool_call_def Let_def by (intro kept)

lemma keeps_drive_calls [kept]: "keeps_run (drive_tool_calls A rid t mcalls sq req)"
  by (induction mcalls arbitrary: sq req) (auto intro!: kept split: prod.split)

lemma keeps_turns [kept]: "keeps_run (run_turns A rid ns sq req)"
  by (induction ns arbitrary: sq req) (auto intro!: kept simp del: push_message_def)

section \<open>One run per runtime and token\<close>

lemma run_binds:
  assumes "run_with_control_and_stop A req w = (r, w')"
    and "started_run_id w = None" "bound_run_id (rw_stop w) = None"
  shows "started_run_id w' = Some (rq_run_id req)"
    and "bound_run_id (rw_stop w') = Some (rq_run_id req)"
proof -
  let ?w = "(concurrent_stops w)\<lparr>rw_stop := (rw_stop (concurrent_stops w))\<lparr>bound_run_id := Some (rq_run_id req)\<rparr>,
    started_run_id := Some (rq_run_id req)\<rparr>"
  let ?m = "op_bind (emit A (RunStarted (rq_run_id req) None [])) (\<lambda>_.
    run_turns A (rq_run_id req) [1..<MAX_TURNS + 1] default_sequences
      \<lparr>mr_model = rq_model req, mr_messages = rq_messages req, mr_tools = rq_tools req,
       mr_metadata = rq_metadata req\<rparr>)"
  have "?m ?w = (r, w')"
    using assms by (simp add: run_with_control_and_stop_def Let_def bind_token_def del: upt.simps)
  moreover have "keeps_run ?m" by (intro kept)
  ultimately have "keeps_run ?m" "?m ?w = (r, w')" by blast+
  from keeps_runD [OF this] show "started_run_id w' = Some (rq_run_id req)"
    "bound_run_id (rw_stop w') = Some (rq_run_id req)" by simp_all
qed

end
