(* ===== verification/Run_Safety.thy ===== *)
theory Run_Safety
  imports Runtime_Over_Store Run_Frame
begin

text \<open>
  Safety of the assembled runtime: a tool handler runs only after the log on disk says that it
  may, and a runtime and its stop token serve one run.
\<close>

text \<open>
  C2. Tools act only after the record: if driving a tool call changes anything behind the
  dispatcher, then the committed log holds the request of that very call, and, when the plan for
  the call asked for approval, also the decision that approved it. So a denied, stopped or
  unrecorded call has no effect, whatever fails.
\<close>
theorem tool_effects_follow_their_record:
  fixes w :: "('m, ('h, 'v) tool_runtime, 'io jsonl_store, 'c) run_world"
  assumes "store_ok C (event_sink_state w)"
    and "drive_tool_call (store_adapters H missing C stream checkpoint decide to_value) rid t mcall sq w
      = (r, w')"
    and "tool_dispatcher_state w' \<noteq> tool_dispatcher_state w"
    and "call = \<lparr>tc_id = numbered_call_id rid (sq_tool_call sq + 1),
                 tc_tool_name = mtc_name mcall, tc_arguments = mtc_arguments mcall\<rparr>"
  shows "(\<exists>q. ToolCallRequested rid t (mtc_id mcall) call (Some q) []
            \<in> set (store_log C (event_sink_state w')))
    \<and> (approval_reason (prepare_tool H (tool_dispatcher_state w) call) \<noteq> None \<longrightarrow>
        (\<exists>q. ApprovalResolved rid t (numbered_approval_id rid (sq_approval sq + 1)) Approve (Some q) []
              \<in> set (store_log C (event_sink_state w'))))"
  using store_run.tool_effects_recorded [OF assms(1,2,3,4)]
  by (auto simp: store_adapters_def)

text \<open>One registered tool, and an event log that can hold its call.\<close>

definition demo_runtime :: "(nat, unit) tool_runtime" where
  "demo_runtime = \<lparr>tools_identity = ToolDispatcherIdentity 1,
     tools = [([7],
        \<lparr>rt_definition = \<lparr>td_name = [7], td_description = [8], td_input_schema = (), td_output_schema = None,
           td_capability = \<lparr>cap_id = [9], cap_version = [9]\<rparr>,
           td_approval_policy = PolAlwaysAllow, td_mcp = None\<rparr>,
         rt_handler = 0\<rparr>)]\<rparr>"

definition demo_recorded :: "unit agent_event list" where
  "demo_recorded =
     [ToolCallRequested (RunId [1]) (TurnId [2]) (ModelToolCallId [3])
        \<lparr>tc_id = numbered_call_id (RunId [1]) 1, tc_tool_name = [7], tc_arguments = ()\<rparr>
        (Some (EventSequence 1)) [],
      ToolResultEvent (RunId [1]) (TurnId [2])
        \<lparr>tr_call_id = numbered_call_id (RunId [1]) 1, tr_output = Success [] [] []\<rparr>
        (Some (EventSequence 2)) []]"

definition demo_world :: "(unit, (nat, unit) tool_runtime, unit jsonl_store, unit) run_world" where
  "demo_world = runtime_world (new_runtime () demo_runtime (store_new [] (Some []) []))
     () default_token []"

definition demo_mcall :: "unit model_tool_call" where
  "demo_mcall = \<lparr>mtc_id = ModelToolCallId [3], mtc_name = [7], mtc_arguments = ()\<rparr>"

definition demo_drive where
  "demo_drive = drive_tool_call (store_adapters demo_handler () (table_codec demo_recorded) sample_stream
     sample_checkpoint sample_decide sample_to_value) (RunId [1]) (TurnId [2]) demo_mcall
     default_sequences demo_world"

lemma demo_changed:
  "map_option rt_handler (bt_get (tools (tool_dispatcher_state (snd demo_drive))) ([7]))
     = Some 1"
  by code_simp

theorem tool_effects_follow_their_record_witness:
  "\<exists>q. ToolCallRequested (RunId [1]) (TurnId [2]) (ModelToolCallId [3])
      \<lparr>tc_id = numbered_call_id (RunId [1]) 1, tc_tool_name = [7], tc_arguments = ()\<rparr> (Some q) []
     \<in> set (store_log (table_codec demo_recorded) (event_sink_state (snd demo_drive)))"
proof -
  have ok: "store_ok (table_codec demo_recorded) (event_sink_state demo_world)"
    by (simp add: demo_world_def runtime_world_def new_runtime_def store_new_def store_ok_def
        table_codec_ok file_bytes_def)
  have "map_option rt_handler (bt_get (tools (tool_dispatcher_state demo_world)) [7]) = Some 0"
    by code_simp
  with demo_changed have changed: "tool_dispatcher_state (snd demo_drive) \<noteq> tool_dispatcher_state demo_world"
    by (metis option.inject zero_neq_one)
  obtain r w' where run: "demo_drive = (r, w')" by fastforce
  from tool_effects_follow_their_record [OF ok run [unfolded demo_drive_def] changed [unfolded run snd_conv] refl]
  show ?thesis by (simp add: run default_sequences_def demo_mcall_def)
qed

text \<open>
  C32. A runtime and a stop token each serve one run. Once a run has been started, however it ended
  and with whatever adapters, the same runtime refuses every further run and names the run it was
  used for, and a runtime that was never used refuses a run with the same stop token and names the
  run that token is bound to; the refused run changes nothing but the pending stop requests.
\<close>
theorem run_and_token_are_single_use:
  assumes "started_run_id w = None" and "bound_run_id (rw_stop w) = None"
    and "run_with_control_and_stop A req w = (r, w')"
    and "rw_stop v = rw_stop w'" and "started_run_id v = None"
  shows "run_with_control_and_stop A req2 w' = (Inl (RunErr (RuntimeAlreadyUsed (rq_run_id req))), w')
    \<and> run_with_control_and_stop A2 req2 v
        = (Inl (RunErr (StopTokenAlreadyBound (rq_run_id req))), concurrent_stops v)"
  using run_binds [OF assms(3,1,2)] assms(4,5)
  by (simp add: run_with_control_and_stop_def Let_def bind_token_def)

theorem run_and_token_are_single_use_witness:
  "\<exists>w'. run_with_control_and_stop sample_adapters sample_request w'
      = (Inl (RunErr (RuntimeAlreadyUsed (RunId [1]))), w')"
proof -
  obtain r w' where run: "run_with_control_and_stop sample_adapters sample_request sample_world = (r, w')"
    by fastforce
  from run_and_token_are_single_use [OF _ _ run, where v = "w'\<lparr>started_run_id := None\<rparr>"]
  show ?thesis by (auto simp: sample_world_def runtime_world_def new_runtime_def default_token_def
      sample_request_def)
qed

end
