(* ===== verification/Unix_Paths.thy ===== *)
theory Unix_Paths
  imports Prelude
begin

text \<open>
  \<open>std::path\<close> on Unix as the coding capability uses it: a path is read through its components, and
  a \<open>PathBuf\<close> that is only compared, joined and stripped is the list of them. Separators and the
  special names are code points: 47 is the slash, 46 the dot.
\<close>

datatype component = RootDir | CurDir | ParentDir | NormalComp ustring

type_synonym path = "component list"

text \<open>\<open>str::split\<close> at a character.\<close>

fun split_on :: "uchar \<Rightarrow> ustring \<Rightarrow> ustring list" where
  "split_on d [] = [[]]"
| "split_on d (c # s) =
     (if c = d then [] # split_on d s
      else (case split_on d s of [] \<Rightarrow> [[c]] | p # ps \<Rightarrow> (c # p) # ps))"

lemma split_on_not_Nil [simp]: "split_on d s \<noteq> []"
  by (cases s) (auto split: list.split)

lemma split_on_parts: "p \<in> set (split_on d s) \<Longrightarrow> d \<notin> set p"
proof (induction s arbitrary: p)
  case (Cons c s)
  then show ?case by (cases "split_on d s") (auto split: if_splits)
qed simp

lemma split_on_clean: "d \<notin> set s \<Longrightarrow> split_on d s = [s]"
  by (induction s) auto

lemma split_on_append: "d \<notin> set p \<Longrightarrow> split_on d (p @ d # s) = p # split_on d s"
  by (induction p) auto

definition slash :: uchar where
  "slash = 47"

definition component_of :: "ustring \<Rightarrow> component" where
  "component_of p = (if p = [46, 46] then ParentDir else NormalComp p)"

text \<open>\<open>Path::components\<close>: empty and dot parts disappear, except a leading dot of a relative path.\<close>

definition path_components :: "ustring \<Rightarrow> path" where
  "path_components s =
     (let parts = split_on slash s;
          body = map component_of (filter (\<lambda>p. p \<noteq> [] \<and> p \<noteq> [46]) parts)
      in case s of
           [] \<Rightarrow> []
         | c # _ \<Rightarrow> if c = slash then RootDir # body
                    else if hd parts = [46] then CurDir # body else body)"

definition is_absolute :: "ustring \<Rightarrow> bool" where
  "is_absolute s \<longleftrightarrow> starts_with s [slash]"

text \<open>\<open>Path::starts_with\<close> and \<open>strip_prefix\<close>: component by component.\<close>

definition path_starts_with :: "path \<Rightarrow> path \<Rightarrow> bool" where
  "path_starts_with p base \<longleftrightarrow> prefix base p"

definition path_strip_prefix :: "path \<Rightarrow> path \<Rightarrow> path option" where
  "path_strip_prefix p base = (if prefix base p then Some (drop (length base) p) else None)"

text \<open>\<open>Path::join\<close> and \<open>PathBuf::push\<close> on a base that is not empty.\<close>

definition path_join :: "path \<Rightarrow> ustring \<Rightarrow> path" where
  "path_join base s =
     (if is_absolute s then path_components s
      else base @ filter (\<lambda>c. c \<noteq> CurDir) (path_components s))"

definition file_name :: "ustring \<Rightarrow> ustring option" where
  "file_name s =
     (case path_components s of
        [] \<Rightarrow> None
      | c # cs \<Rightarrow> (case last (c # cs) of NormalComp n \<Rightarrow> Some n | _ \<Rightarrow> None))"

lemma path_strip_prefix_Some: "path_strip_prefix p base = Some r \<longleftrightarrow> p = base @ r"
  by (auto simp: path_strip_prefix_def prefix_def)

lemma root_only_first:
  "path_components s = c # cs \<Longrightarrow> RootDir \<notin> set cs"
  by (auto simp: path_components_def component_of_def Let_def split: list.splits if_splits)

lemma relative_no_root: "\<not> is_absolute s \<Longrightarrow> RootDir \<notin> set (path_components s)"
  by (cases s) (auto simp: path_components_def component_of_def is_absolute_def starts_with_iff Let_def)

lemma absolute_root: "is_absolute s \<Longrightarrow> \<exists>cs. path_components s = RootDir # cs"
  by (cases s) (auto simp: path_components_def is_absolute_def starts_with_iff Let_def)

lemma curdir_only_first: "path_components s = c # cs \<Longrightarrow> CurDir \<notin> set cs"
  by (auto simp: path_components_def component_of_def Let_def split: list.splits if_splits)

end
