(* ===== verification/Command_Options.thy ===== *)
theory Command_Options
  imports Unix_Paths
begin

text \<open>
  What the command policy reads off the words of one command
  (crates/capability-coding/src/command_policy.rs): options and their values, transparent wrappers,
  sed scripts, printf formats, paths that name the filesystem root. Code points: 45 is the dash,
  61 the equals sign, 37 the percent sign, 42 the star.
\<close>

section \<open>Options\<close>

definition dash :: ustring where
  "dash = [45]"

definition two_dashes :: ustring where
  "two_dashes = [45, 45]"

definition short_option_cluster_contains :: "ustring \<Rightarrow> uchar \<Rightarrow> bool" where
  "short_option_cluster_contains argument option \<longleftrightarrow>
     starts_with argument dash \<and> \<not> starts_with argument two_dashes \<and> option \<in> set (drop 1 argument)"

definition option_name :: "ustring \<Rightarrow> ustring" where
  "option_name argument =
     (case split_once 61 argument of Some (name, _) \<Rightarrow> name | None \<Rightarrow> argument)"

definition long_option_matches_or_abbreviates :: "ustring \<Rightarrow> ustring \<Rightarrow> bool" where
  "long_option_matches_or_abbreviates argument full_option \<longleftrightarrow>
     starts_with (option_name argument) two_dashes \<and> 2 < byte_len (option_name argument)
     \<and> starts_with full_option (option_name argument)"

definition is_exact_short_option :: "ustring \<Rightarrow> uchar \<Rightarrow> bool" where
  "is_exact_short_option argument option \<longleftrightarrow>
     (case strip_prefix_of dash argument of Some rest \<Rightarrow> rest = [option] | None \<Rightarrow> False)"

definition attached_short_option_value :: "ustring \<Rightarrow> uchar list \<Rightarrow> ustring option" where
  "attached_short_option_value argument options =
     (if \<not> starts_with argument dash \<or> starts_with argument two_dashes then None
      else case dropWhile (\<lambda>c. c \<notin> set options) (drop 1 argument) of
             [] \<Rightarrow> None
           | _ # value \<Rightarrow> if value = [] then None else Some value)"

text \<open>The values of one option: the next word, the part after the equals sign, or the attached one.\<close>

fun option_values :: "uchar list \<Rightarrow> ustring \<Rightarrow> ustring list \<Rightarrow> ustring list" where
  "option_values short_options long_option [] = []"
| "option_values short_options long_option (argument # rest) =
     (let value =
        (if list_ex (is_exact_short_option argument) short_options
            \<or> long_option_matches_or_abbreviates argument long_option \<and> 61 \<notin> set argument
         then (case rest of next_word # _ \<Rightarrow> Some next_word | [] \<Rightarrow> None)
         else case split_once 61 argument of
                Some (_, v) \<Rightarrow>
                  if long_option_matches_or_abbreviates argument long_option then Some v else None
              | None \<Rightarrow> attached_short_option_value argument short_options)
      in (case value of Some v \<Rightarrow> [v] | None \<Rightarrow> []) @ option_values short_options long_option rest)"

section \<open>Programs with dangerous options\<close>

definition program_basename :: "ustring \<Rightarrow> ustring" where
  "program_basename program = (case file_name program of Some n \<Rightarrow> n | None \<Rightarrow> program)"

definition first_is :: "ustring list \<Rightarrow> string list \<Rightarrow> bool" where
  "first_is arguments names =
     (case arguments of a # _ \<Rightarrow> a \<in> set (map lit names) | [] \<Rightarrow> False)"

definition find_may_mutate_or_execute :: "ustring list \<Rightarrow> bool" where
  "find_may_mutate_or_execute arguments =
     list_ex (\<lambda>a. a \<in> set (map lit [''-delete'', ''-exec'', ''-execdir'', ''-ok'', ''-okdir'',
       ''-fprint'', ''-fprint0'', ''-fprintf'', ''-fls''])) arguments"

definition is_file_compile_option :: "ustring \<Rightarrow> bool" where
  "is_file_compile_option argument \<longleftrightarrow>
     long_option_matches_or_abbreviates argument (lit ''--compile'')
     \<or> short_option_cluster_contains argument 67"

definition file_may_execute_uncompress_helper :: "ustring list \<Rightarrow> bool" where
  "file_may_execute_uncompress_helper arguments =
     list_ex (\<lambda>a. short_option_cluster_contains a 122 \<or> short_option_cluster_contains a 90
       \<or> long_option_matches_or_abbreviates a (lit ''--uncompress'')
       \<or> long_option_matches_or_abbreviates a (lit ''--uncompress-noreport'')) arguments"

definition git_may_use_signature_verification :: "ustring list \<Rightarrow> bool" where
  "git_may_use_signature_verification arguments \<longleftrightarrow>
     first_is arguments [''log'', ''show'']
     \<or> list_ex (\<lambda>a. long_option_matches_or_abbreviates a (lit ''--show-signature'')
                     \<or> contains_str [37, 71] a) arguments"

definition known_filesystem_mutator :: "ustring \<Rightarrow> ustring list \<Rightarrow> bool" where
  "known_filesystem_mutator program arguments =
     (let name = program_basename program
      in if name \<in> set (map lit [''touch'', ''mkdir'', ''cp'', ''mv'', ''chmod'', ''chown'', ''tee''])
         then True
         else if name = lit ''sed'' then
           list_ex (\<lambda>a. a = lit ''-i'' \<or> starts_with a (lit ''-i'')
             \<or> long_option_matches_or_abbreviates a (lit ''--in-place'')) arguments
         else False)"

definition is_ascii_digit :: "uchar \<Rightarrow> bool" where
  "is_ascii_digit c \<longleftrightarrow> 48 \<le> c \<and> c \<le> 57"

definition is_ascii_alphabetic :: "uchar \<Rightarrow> bool" where
  "is_ascii_alphabetic c \<longleftrightarrow> 65 \<le> c \<and> c \<le> 90 \<or> 97 \<le> c \<and> c \<le> 122"

text \<open>A printf directive with a width, a precision or a star.\<close>

fun format_amplifies :: "bool \<Rightarrow> ustring \<Rightarrow> bool" where
  "format_amplifies in_directive [] = False"
| "format_amplifies in_directive (c # rest) =
     (if \<not> in_directive then format_amplifies (c = 37) rest
      else if c = 37 then format_amplifies False rest
      else if c = 42 then True
      else if is_ascii_digit c then True
      else if is_ascii_alphabetic c then format_amplifies False rest
      else format_amplifies in_directive rest)"

definition MAX_LOW_RISK_PRINTF_FORMAT_BYTES :: nat where
  "MAX_LOW_RISK_PRINTF_FORMAT_BYTES = 1024"

definition amplifies :: "ustring \<Rightarrow> ustring list \<Rightarrow> bool" where
  "amplifies format operands \<longleftrightarrow>
     MAX_LOW_RISK_PRINTF_FORMAT_BYTES < byte_len format \<and> 1 < length operands
     \<or> format_amplifies False format"

fun printf_format_may_amplify_output :: "ustring list \<Rightarrow> bool" where
  "printf_format_may_amplify_output [] = False"
| "printf_format_may_amplify_output [format] = amplifies format []"
| "printf_format_may_amplify_output (format # operand # operands) =
     (if format = two_dashes then amplifies operand operands
      else amplifies format (operand # operands))"

section \<open>sed\<close>

definition is_safe_sed_script :: "ustring \<Rightarrow> bool" where
  "is_safe_sed_script script \<longleftrightarrow>
     script \<noteq> [] \<and> list_all (\<lambda>c. is_ascii_digit c \<or> c \<in> set [44, 36, 112, 113]) script"

text \<open>The scripts of a sed command, or \<open>None\<close> where the code returns early.\<close>

fun sed_scripts :: "ustring list \<Rightarrow> ustring list \<Rightarrow> bool \<Rightarrow> ustring list option" where
  "sed_scripts [] scripts implicit_seen = Some scripts"
| "sed_scripts (a # rest) scripts implicit_seen =
     (if a \<in> set (map lit [''-n'', ''--quiet'', ''--silent'']) then sed_scripts rest scripts implicit_seen
      else if a \<in> set (map lit [''-e'', ''--expression'']) then
        (case rest of
           [] \<Rightarrow> None
         | script # rest1 \<Rightarrow> sed_scripts rest1 (scripts @ [script]) implicit_seen)
      else if a = two_dashes then
        (if scripts = [] then (case rest of [] \<Rightarrow> None | script # _ \<Rightarrow> Some [script])
         else Some scripts)
      else case strip_prefix_of (lit ''--expression='') a of
        Some script \<Rightarrow> sed_scripts rest (scripts @ [script]) implicit_seen
      | None \<Rightarrow>
          if starts_with a (lit ''-e'') \<and> 2 < byte_len a then
            sed_scripts rest (scripts @ [drop 2 a]) implicit_seen
          else if starts_with a dash then None
          else if scripts = [] \<and> \<not> implicit_seen then sed_scripts rest (scripts @ [a]) True
          else sed_scripts rest scripts implicit_seen)"

definition is_safe_sed_read :: "ustring list \<Rightarrow> bool" where
  "is_safe_sed_read arguments =
     (case sed_scripts arguments [] False of
        None \<Rightarrow> False
      | Some scripts \<Rightarrow> scripts \<noteq> [] \<and> list_all is_safe_sed_script scripts)"

section \<open>The filesystem root\<close>

fun ends_at_root :: "nat \<Rightarrow> path \<Rightarrow> bool" where
  "ends_at_root depth [] = (depth = 0)"
| "ends_at_root depth (c # cs) =
     (case c of
        RootDir \<Rightarrow> ends_at_root depth cs
      | CurDir \<Rightarrow> ends_at_root depth cs
      | ParentDir \<Rightarrow> ends_at_root (depth - 1) cs
      | NormalComp n \<Rightarrow>
          if depth = 0 \<and> list_ex (\<lambda>x. x \<in> set [42, 63, 91]) n then True
          else ends_at_root (depth + 1) cs)"

definition targets_filesystem_root :: "ustring \<Rightarrow> bool" where
  "targets_filesystem_root argument \<longleftrightarrow>
     is_absolute argument \<and> ends_at_root 0 (path_components argument)"

definition command_mutates_filesystem_root :: "ustring \<Rightarrow> ustring list \<Rightarrow> bool" where
  "command_mutates_filesystem_root program arguments =
     (if \<not> list_ex targets_filesystem_root arguments then False
      else let name = program_basename program
           in name = lit ''rm'' \<or> known_filesystem_mutator name arguments
              \<or> name = lit ''find'' \<and> find_may_mutate_or_execute arguments)"

section \<open>Transparent wrappers\<close>

datatype transparent_wrapper_error = TooDeep | UnsupportedSyntax

fun wrapper_reason :: "transparent_wrapper_error \<Rightarrow> ustring" where
  "wrapper_reason TooDeep = lit ''command uses too many transparent command wrappers''"
| "wrapper_reason UnsupportedSyntax =
     lit ''command uses unsupported transparent command wrapper syntax''"

type_synonym wrapped_index = "transparent_wrapper_error + nat option"

text \<open>The loops over \<open>words.get(index)\<close>: the index and the words from it on.\<close>

fun command_index :: "nat \<Rightarrow> ustring list \<Rightarrow> wrapped_index" where
  "command_index i [] = Inr None"
| "command_index i (a # rest) =
     (if a = two_dashes then Inr (if rest \<noteq> [] then Some (i + 1) else None)
      else if a = lit ''-p'' then command_index (i + 1) rest
      else if a = lit ''-v'' \<or> a = lit ''-V'' then Inr None
      else if starts_with a dash then Inl UnsupportedSyntax
      else Inr (Some i))"

definition command_wrapped_program_index :: "ustring list \<Rightarrow> wrapped_index" where
  "command_wrapped_program_index words = command_index 1 (drop 1 words)"

fun exec_index :: "nat \<Rightarrow> ustring list \<Rightarrow> wrapped_index" where
  "exec_index i [] = Inr None"
| "exec_index i (a # rest) =
     (if a = two_dashes then Inr (if rest \<noteq> [] then Some (i + 1) else None)
      else if a = lit ''-a'' then
        (case rest of [] \<Rightarrow> Inr None | _ # rest1 \<Rightarrow> exec_index (i + 2) rest1)
      else if starts_with a dash \<and> list_all (\<lambda>c. c = 99 \<or> c = 108) (drop 1 a) then
        exec_index (i + 1) rest
      else if starts_with a dash then Inl UnsupportedSyntax
      else Inr (Some i))"

definition exec_wrapped_program_index :: "ustring list \<Rightarrow> wrapped_index" where
  "exec_wrapped_program_index words = exec_index 1 (drop 1 words)"

definition env_short_option_has_attached_value :: "ustring \<Rightarrow> bool" where
  "env_short_option_has_attached_value argument =
     list_ex (\<lambda>option. case strip_prefix_of option argument of
                         Some value \<Rightarrow> value \<noteq> [] | None \<Rightarrow> False)
       (map lit [''-u'', ''-C'', ''-P'', ''-a''])"

definition env_short_option_cluster_has_no_value :: "ustring \<Rightarrow> bool" where
  "env_short_option_cluster_has_no_value argument =
     (case strip_prefix_of dash argument of
        Some options \<Rightarrow> options \<noteq> [] \<and> list_all (\<lambda>c. c \<in> set [48, 105, 118]) options
      | None \<Rightarrow> False)"

definition is_env_assignment :: "ustring \<Rightarrow> bool" where
  "is_env_assignment word =
     (case split_once 61 word of Some (name, _) \<Rightarrow> name \<noteq> [] | None \<Rightarrow> False)"

fun env_index :: "nat \<Rightarrow> ustring list \<Rightarrow> wrapped_index" where
  "env_index i [] = Inr None"
| "env_index i (a # rest) =
     (if a = two_dashes then
        (let assignments = takeWhile is_env_assignment rest
         in Inr (if length assignments < length rest then Some (i + 1 + length assignments) else None))
      else if a \<in> set (map lit [''-u'', ''--unset'', ''-C'', ''--chdir'', ''-P'', ''-a'', ''--argv0'']) then
        (case rest of [] \<Rightarrow> Inr None | _ # rest1 \<Rightarrow> env_index (i + 2) rest1)
      else if a \<in> set (map lit [''-S'', ''--split-string'']) then Inl UnsupportedSyntax
      else if a \<in> set (map lit [''--help'', ''--version'']) then Inr None
      else if starts_with a (lit ''--unset='') \<or> starts_with a (lit ''--chdir='')
              \<or> starts_with a (lit ''--argv0='') then env_index (i + 1) rest
      else if starts_with a (lit ''-S'') \<or> starts_with a (lit ''--split-string='') then
        Inl UnsupportedSyntax
      else if env_short_option_has_attached_value a then env_index (i + 1) rest
      else if env_short_option_cluster_has_no_value a then env_index (i + 1) rest
      else if starts_with a (lit ''--block-signal'') \<or> starts_with a (lit ''--default-signal'')
              \<or> starts_with a (lit ''--ignore-signal'') \<or> a = lit ''--list-signal-handling''
              \<or> a = lit ''--debug'' then env_index (i + 1) rest
      else if starts_with a dash then Inl UnsupportedSyntax
      else if is_env_assignment a then env_index (i + 1) rest
      else Inr (Some i))"

definition env_wrapped_program_index :: "ustring list \<Rightarrow> wrapped_index" where
  "env_wrapped_program_index words = env_index 1 (drop 1 words)"

text \<open>Where the wrapped program starts; \<open>None\<close> when the program is no wrapper.\<close>

definition wrapped_program_index :: "ustring list \<Rightarrow> wrapped_index option" where
  "wrapped_program_index words =
     (case words of
        [] \<Rightarrow> None
      | program # _ \<Rightarrow>
          let name = program_basename program
          in if name = lit ''command'' then Some (command_wrapped_program_index words)
             else if name = lit ''exec'' then Some (exec_wrapped_program_index words)
             else if name = lit ''env'' then Some (env_wrapped_program_index words)
             else None)"

definition MAX_TRANSPARENT_WRAPPER_DEPTH :: nat where
  "MAX_TRANSPARENT_WRAPPER_DEPTH = 4"

text \<open>The loop over the depths, with the number of wrappers that may still be removed.\<close>

fun unwrap_from :: "nat \<Rightarrow> ustring list \<Rightarrow> transparent_wrapper_error + ustring list" where
  "unwrap_from left words =
     (case wrapped_program_index words of
        None \<Rightarrow> Inr words
      | Some (Inl e) \<Rightarrow> Inl e
      | Some (Inr None) \<Rightarrow> Inr words
      | Some (Inr (Some i)) \<Rightarrow>
          if left = 0 then Inl TooDeep else unwrap_from (left - 1) (drop i words))"

declare unwrap_from.simps [simp del]

definition unwrap_transparent_command_wrappers ::
    "ustring list \<Rightarrow> transparent_wrapper_error + ustring list" where
  "unwrap_transparent_command_wrappers words = unwrap_from MAX_TRANSPARENT_WRAPPER_DEPTH words"

end
