(* ===== verification/Path_Probe.thy ===== *)
theory Path_Probe
  imports Unix_Paths
begin

text \<open>
  Whether a word of a command names a path outside the workspace
  (crates/capability-coding/src/command_policy.rs): a bounded walk over the components of the
  path, following symbolic links, with a cache and two budgets. The file system is what
  \<open>symlink_metadata\<close> and \<open>canonicalize\<close> answer; it does not change during one classification.
\<close>

section \<open>The file system\<close>

datatype lstat_result = LstatSymlink | LstatOther | LstatMissing | LstatError

record workspace_fs =
  ws_root :: path
  ws_lstat :: "path \<Rightarrow> lstat_result"
  ws_canonicalize :: "path \<Rightarrow> path option"

datatype path_inspection = Missing | Existing | Symlink path | Inaccessible

section \<open>The walk\<close>

text \<open>\<open>None\<close> is the exhausted inspection budget; the second component is what is left of it.\<close>

definition inspect_workspace_path ::
    "workspace_fs \<Rightarrow> path \<Rightarrow> nat \<Rightarrow> path_inspection option \<times> nat" where
  "inspect_workspace_path W p remaining =
     (if remaining = 0 then (None, 0)
      else let left = remaining - 1
           in case ws_lstat W p of
                LstatSymlink \<Rightarrow>
                  if left = 0 then (None, 0)
                  else (Some (case ws_canonicalize W p of
                                Some resolved \<Rightarrow> Symlink resolved
                              | None \<Rightarrow> Inaccessible), left - 1)
              | LstatOther \<Rightarrow> (Some Existing, left)
              | LstatMissing \<Rightarrow> (Some Missing, left)
              | LstatError \<Rightarrow> (Some Inaccessible, left))"

fun walk_path ::
    "path \<Rightarrow> (path \<Rightarrow> 's \<Rightarrow> path_inspection option \<times> 's) \<Rightarrow> path \<Rightarrow> path \<Rightarrow> 's
       \<Rightarrow> bool option \<times> 's" where
  "walk_path root inspect current [] st = (Some False, st)"
| "walk_path root inspect current (c # cs) st =
     (case c of
        NormalComp n \<Rightarrow>
          (case inspect (current @ [NormalComp n]) st of
             (None, st1) \<Rightarrow> (None, st1)
           | (Some Missing, st1) \<Rightarrow> (Some False, st1)
           | (Some Existing, st1) \<Rightarrow> walk_path root inspect (current @ [NormalComp n]) cs st1
           | (Some (Symlink resolved), st1) \<Rightarrow>
               if \<not> path_starts_with resolved root then (Some True, st1)
               else walk_path root inspect resolved cs st1
           | (Some Inaccessible, st1) \<Rightarrow> (Some True, st1))
      | CurDir \<Rightarrow> walk_path root inspect current cs st
      | RootDir \<Rightarrow> (Some True, st)
      | ParentDir \<Rightarrow> (Some True, st))"

definition path_escapes_workspace_with ::
    "path \<Rightarrow> path \<Rightarrow> (path \<Rightarrow> 's \<Rightarrow> path_inspection option \<times> 's) \<Rightarrow> 's \<Rightarrow> bool option \<times> 's" where
  "path_escapes_workspace_with root resolved inspect st =
     (case path_strip_prefix resolved root of
        None \<Rightarrow> (Some True, st)
      | Some relative \<Rightarrow> walk_path root inspect root relative st)"

definition escapes_workspace ::
    "workspace_fs \<Rightarrow> ustring \<Rightarrow> nat \<Rightarrow> bool option \<times> nat" where
  "escapes_workspace W candidate remaining =
     (if starts_with candidate [126] then (Some True, remaining)
      else if ParentDir \<in> set (path_components candidate) then (Some True, remaining)
      else let resolved = (if is_absolute candidate then path_components candidate
                           else path_join (ws_root W) candidate)
           in if is_absolute candidate
                 \<and> \<not> path_starts_with (path_components candidate) (ws_root W)
              then (Some True, remaining)
              else path_escapes_workspace_with (ws_root W) resolved (inspect_workspace_path W) remaining)"

section \<open>The budget\<close>

datatype path_classification = WithinWorkspace | EscapesWorkspace | BudgetExceeded

record path_probe_budget =
  remaining_candidates :: nat
  remaining_inspections :: nat
  cached :: "ustring \<Rightarrow> bool option"

definition MAX_PATH_PROBE_CANDIDATES :: nat where
  "MAX_PATH_PROBE_CANDIDATES = 256"

definition MAX_WORKSPACE_PATH_INSPECTIONS :: nat where
  "MAX_WORKSPACE_PATH_INSPECTIONS = 256"

definition default_budget :: path_probe_budget where
  "default_budget =
     \<lparr>remaining_candidates = MAX_PATH_PROBE_CANDIDATES,
      remaining_inspections = MAX_WORKSPACE_PATH_INSPECTIONS, cached = Map.empty\<rparr>"

definition escape_class :: "bool \<Rightarrow> path_classification" where
  "escape_class escapes = (if escapes then EscapesWorkspace else WithinWorkspace)"

definition probe_path ::
    "workspace_fs \<Rightarrow> ustring \<Rightarrow> path_probe_budget \<Rightarrow> path_classification \<times> path_probe_budget" where
  "probe_path W candidate b =
     (case cached b candidate of
        Some escapes \<Rightarrow> (escape_class escapes, b)
      | None \<Rightarrow>
          if remaining_candidates b = 0 then (BudgetExceeded, b)
          else let b1 = b\<lparr>remaining_candidates := remaining_candidates b - 1\<rparr>
               in case escapes_workspace W candidate (remaining_inspections b1) of
                    (None, left) \<Rightarrow> (BudgetExceeded, b1\<lparr>remaining_inspections := left\<rparr>)
                  | (Some escapes, left) \<Rightarrow>
                      (escape_class escapes,
                       b1\<lparr>remaining_inspections := left, cached := (cached b1)(candidate \<mapsto> escapes)\<rparr>))"

text \<open>The paths of one loop are probed in order until one is not inside the workspace.\<close>

fun probe_paths ::
    "workspace_fs \<Rightarrow> ustring list \<Rightarrow> path_probe_budget \<Rightarrow> path_classification \<times> path_probe_budget"
where
  "probe_paths W [] b = (WithinWorkspace, b)"
| "probe_paths W (p # ps) b =
     (case probe_path W p b of
        (WithinWorkspace, b1) \<Rightarrow> probe_paths W ps b1
      | (c, b1) \<Rightarrow> (c, b1))"

section \<open>Where a path leads\<close>

text \<open>
  Resolving a path one component at a time from a location: an ordinary entry is entered, a
  symbolic link leads to its canonical target.
\<close>

inductive leads_to :: "workspace_fs \<Rightarrow> path \<Rightarrow> path \<Rightarrow> path \<Rightarrow> bool" for W where
  here: "leads_to W cur [] cur"
| entry: "ws_lstat W (cur @ [NormalComp n]) = LstatOther \<Longrightarrow>
    leads_to W (cur @ [NormalComp n]) cs p \<Longrightarrow> leads_to W cur (NormalComp n # cs) p"
| link: "ws_lstat W (cur @ [NormalComp n]) = LstatSymlink \<Longrightarrow>
    ws_canonicalize W (cur @ [NormalComp n]) = Some t \<Longrightarrow>
    leads_to W t cs p \<Longrightarrow> leads_to W cur (NormalComp n # cs) p"
| dot: "leads_to W cur cs p \<Longrightarrow> leads_to W cur (CurDir # cs) p"

lemma inspect_cases:
  assumes "inspect_workspace_path W p n = (Some i, m)"
  shows "case ws_lstat W p of
      LstatOther \<Rightarrow> i = Existing | LstatMissing \<Rightarrow> i = Missing | LstatError \<Rightarrow> i = Inaccessible
    | LstatSymlink \<Rightarrow> i = (case ws_canonicalize W p of Some t \<Rightarrow> Symlink t | None \<Rightarrow> Inaccessible)"
  using assms
  by (auto simp: inspect_workspace_path_def Let_def split: if_splits lstat_result.splits)

lemma walk_inside:
  assumes "leads_to W cur cs p" and "prefix (ws_root W) cur"
    and "walk_path (ws_root W) (inspect_workspace_path W) cur cs n = (Some False, m)"
  shows "prefix (ws_root W) p"
  using assms
proof (induction arbitrary: n rule: leads_to.induct)
  case (here cur)
  then show ?case by simp
next
  case (entry cur x cs p)
  obtain i left where i: "inspect_workspace_path W (cur @ [NormalComp x]) n = (i, left)" by fastforce
  with entry.prems obtain j where j: "i = Some j" by (cases i) auto
  with inspect_cases [OF i [unfolded j]] entry.hyps(1) have "j = Existing" by simp
  with entry i j show ?case by (auto intro: prefix_prefix)
next
  case (link cur x t cs p)
  obtain i left where i: "inspect_workspace_path W (cur @ [NormalComp x]) n = (i, left)" by fastforce
  with link.prems obtain j where j: "i = Some j" by (cases i) auto
  with inspect_cases [OF i [unfolded j]] link.hyps(1,2) have "j = Symlink t" by simp
  with link i j show ?case by (auto simp: path_starts_with_def split: if_splits)
next
  case (dot cur cs p)
  then show ?case by simp
qed

text \<open>The location a word of a command denotes, from the root of the workspace.\<close>

definition denoted_path :: "workspace_fs \<Rightarrow> ustring \<Rightarrow> path" where
  "denoted_path W s = path_join (ws_root W) s"

definition stays_inside :: "workspace_fs \<Rightarrow> ustring \<Rightarrow> bool" where
  "stays_inside W s \<longleftrightarrow>
     \<not> starts_with s [126] \<and> ParentDir \<notin> set (path_components s)
     \<and> (\<exists>cs. denoted_path W s = ws_root W @ cs
             \<and> (\<forall>p. leads_to W (ws_root W) cs p \<longrightarrow> prefix (ws_root W) p))"

lemma escapes_False_inside:
  assumes "escapes_workspace W s n = (Some False, m)"
  shows "stays_inside W s"
proof -
  from assms have walk: "path_escapes_workspace_with (ws_root W) (denoted_path W s)
      (inspect_workspace_path W) n = (Some False, m)"
    and tilde: "\<not> starts_with s [126]" "ParentDir \<notin> set (path_components s)"
    by (auto simp: escapes_workspace_def denoted_path_def path_join_def Let_def split: if_splits)
  from walk obtain cs where "denoted_path W s = ws_root W @ cs"
    and "walk_path (ws_root W) (inspect_workspace_path W) (ws_root W) cs n = (Some False, m)"
    by (auto simp: path_escapes_workspace_with_def path_strip_prefix_Some split: option.splits)
  with tilde show ?thesis
    unfolding stays_inside_def by (blast intro: walk_inside)
qed

section \<open>The cache\<close>

definition cache_ok :: "workspace_fs \<Rightarrow> path_probe_budget \<Rightarrow> bool" where
  "cache_ok W b \<longleftrightarrow> (\<forall>s. cached b s = Some False \<longrightarrow> stays_inside W s)"

lemma cache_ok_default [simp]: "cache_ok W default_budget"
  by (simp add: cache_ok_def default_budget_def)

lemma probe_path_ok:
  assumes "cache_ok W b" and "probe_path W s b = (c, b')"
  shows "cache_ok W b'" and "c = WithinWorkspace \<Longrightarrow> stays_inside W s"
  using assms escapes_False_inside [of W s]
  by (auto simp: cache_ok_def probe_path_def escape_class_def Let_def
      split: option.splits if_splits prod.splits)

lemma probe_paths_ok:
  assumes "cache_ok W b" and "probe_paths W ps b = (c, b')"
  shows "cache_ok W b' \<and> (c = WithinWorkspace \<longrightarrow> list_all (stays_inside W) ps)"
  using assms
proof (induction ps arbitrary: b)
  case (Cons p ps)
  obtain d b1 where d: "probe_path W p b = (d, b1)" by fastforce
  note ok = probe_path_ok [OF Cons.prems(1) d]
  show ?case using Cons.IH [OF ok(1)] ok Cons.prems(2) d by (cases d) auto
qed simp

end
