(* ===== verification/Shell_Parser.thy ===== *)
theory Shell_Parser
  imports Prelude
begin

text \<open>
  The lexical scan of a shell command (\<open>ParsedShellCommand::parse\<close> of
  crates/capability-coding/src/command_policy.rs). The scan state is the local variables of
  \<open>parse\<close>; characters are code points: 39 and 34 are the quotes, 92 the backslash, 10 the newline,
  32 and 9 the blanks, 38 the ampersand, 124 the bar, 59 the semicolon, 35 the hash.
\<close>

section \<open>State\<close>

record parsed_shell_command =
  commands :: "ustring list list"
  has_background :: bool
  has_redirection :: bool
  has_dynamic_expansion :: bool
  has_pathname_expansion :: bool
  has_comment :: bool
  has_unclassified_syntax :: bool

datatype quote = NoQuote | SingleQuote | DoubleQuote

datatype shell_parse_error = Malformed | TooComplex

definition MAX_SIMPLE_COMMANDS :: nat where
  "MAX_SIMPLE_COMMANDS = 32"

definition MAX_POLICY_WORDS :: nat where
  "MAX_POLICY_WORDS = 256"

record shell_scan = parsed_shell_command +
  sc_words :: "ustring list"
  sc_word_count :: nat
  sc_word :: ustring
  sc_started :: bool
  sc_quote :: quote
  sc_requires :: bool

definition init_scan :: shell_scan where
  "init_scan = \<lparr>commands = [], has_background = False, has_redirection = False,
     has_dynamic_expansion = False, has_pathname_expansion = False, has_comment = False,
     has_unclassified_syntax = False, sc_words = [], sc_word_count = 0, sc_word = [],
     sc_started = False, sc_quote = NoQuote, sc_requires = False\<rparr>"

definition parsed_of :: "shell_scan \<Rightarrow> parsed_shell_command" where
  "parsed_of st = \<lparr>commands = commands st, has_background = has_background st,
     has_redirection = has_redirection st, has_dynamic_expansion = has_dynamic_expansion st,
     has_pathname_expansion = has_pathname_expansion st, has_comment = has_comment st,
     has_unclassified_syntax = has_unclassified_syntax st\<rparr>"

section \<open>The scan\<close>

definition push_char :: "uchar list \<Rightarrow> shell_scan \<Rightarrow> shell_scan" where
  "push_char cs st = st\<lparr>sc_word := sc_word st @ cs, sc_started := True\<rparr>"

definition push_word :: "shell_scan \<Rightarrow> shell_parse_error + shell_scan" where
  "push_word st =
     (if \<not> sc_started st then Inr st
      else if MAX_POLICY_WORDS \<le> sc_word_count st then Inl TooComplex
      else Inr (st\<lparr>sc_words := sc_words st @ [sc_word st], sc_word := [], sc_started := False,
                   sc_word_count := sc_word_count st + 1\<rparr>))"

definition push_command :: "shell_scan \<Rightarrow> shell_parse_error + shell_scan" where
  "push_command st =
     (if sc_words st = [] then Inl Malformed
      else if MAX_SIMPLE_COMMANDS \<le> length (commands st) then Inl TooComplex
      else Inr (st\<lparr>commands := commands st @ [sc_words st], sc_words := []\<rparr>))"

text \<open>End of a line: the word and, when there is one, the command are complete.\<close>

definition end_line :: "shell_scan \<Rightarrow> shell_parse_error + shell_scan" where
  "end_line st =
     try_res (push_word st) (\<lambda>st1.
     if sc_words st1 = [] then Inr st1
     else try_res (push_command st1) (\<lambda>st2. Inr (st2\<lparr>sc_requires := False\<rparr>)))"

text \<open>One iteration of the loop: the state after it and the characters that are left.\<close>

type_synonym scan_result = "shell_parse_error + shell_scan \<times> ustring"

definition scan_single :: "shell_scan \<Rightarrow> uchar \<Rightarrow> ustring \<Rightarrow> scan_result" where
  "scan_single st c rest =
     (if c = 39 then Inr (st\<lparr>sc_quote := NoQuote, sc_started := True\<rparr>, rest)
      else Inr (push_char [c] st, rest))"

definition unfinished_escape :: "shell_scan \<Rightarrow> scan_result" where
  "unfinished_escape st = Inr (push_char [92] (st\<lparr>has_unclassified_syntax := True\<rparr>), [])"

definition scan_double :: "shell_scan \<Rightarrow> uchar \<Rightarrow> ustring \<Rightarrow> scan_result" where
  "scan_double st c rest =
     (if c = 34 then Inr (st\<lparr>sc_quote := NoQuote\<rparr>, rest)
      else if c = 92 then
        (case rest of
           [] \<Rightarrow> unfinished_escape st
         | e # rest1 \<Rightarrow>
             if e \<in> {36, 96, 34, 92} then Inr (push_char [e] st, rest1)
             else if e = 10 then Inr (st, rest1)
             else Inr (push_char [92, e] st, rest1))
      else if c = 36 \<or> c = 96 then Inr (push_char [c] (st\<lparr>has_dynamic_expansion := True\<rparr>), rest)
      else Inr (push_char [c] st, rest))"

definition scan_comment :: "shell_scan \<Rightarrow> ustring \<Rightarrow> scan_result" where
  "scan_comment st rest =
     (let st1 = st\<lparr>has_comment := True\<rparr>
      in case dropWhile (\<lambda>c. c \<noteq> 10) rest of
           [] \<Rightarrow> Inr (st1, [])
         | _ # rest1 \<Rightarrow> try_res (end_line st1) (\<lambda>st2. Inr (st2, rest1)))"

definition scan_ampersand :: "shell_scan \<Rightarrow> ustring \<Rightarrow> scan_result" where
  "scan_ampersand st rest =
     try_res (push_word st) (\<lambda>st1.
     try_res (push_command st1) (\<lambda>st2.
     case rest of
       e # rest1 \<Rightarrow>
         if e = 38 then Inr (st2\<lparr>sc_requires := True\<rparr>, rest1)
         else Inr (st2\<lparr>has_background := True, sc_requires := False\<rparr>, rest)
     | [] \<Rightarrow> Inr (st2\<lparr>has_background := True, sc_requires := False\<rparr>, rest)))"

definition scan_bar :: "shell_scan \<Rightarrow> ustring \<Rightarrow> scan_result" where
  "scan_bar st rest =
     try_res (push_word st) (\<lambda>st1.
     try_res (push_command st1) (\<lambda>st2.
     Inr (st2\<lparr>sc_requires := True\<rparr>,
          case rest of e # rest1 \<Rightarrow> if e = 124 then rest1 else rest | [] \<Rightarrow> rest)))"

definition scan_plain :: "shell_scan \<Rightarrow> uchar \<Rightarrow> ustring \<Rightarrow> scan_result" where
  "scan_plain st c rest =
     (if c = 39 then Inr (st\<lparr>sc_quote := SingleQuote, sc_started := True\<rparr>, rest)
      else if c = 34 then Inr (st\<lparr>sc_quote := DoubleQuote, sc_started := True\<rparr>, rest)
      else if c = 92 then
        (case rest of
           [] \<Rightarrow> unfinished_escape st
         | e # rest1 \<Rightarrow> Inr (if e = 10 then st else push_char [e] st, rest1))
      else if c \<in> {36, 96, 40, 41, 123, 125} then
        Inr (push_char [c] (st\<lparr>has_dynamic_expansion := True\<rparr>), rest)
      else if c \<in> {42, 63, 91} then Inr (push_char [c] (st\<lparr>has_pathname_expansion := True\<rparr>), rest)
      else if c = 35 \<and> \<not> sc_started st then scan_comment st rest
      else if c = 62 \<or> c = 60 then
        try_res (push_word st) (\<lambda>st1. Inr (st1\<lparr>has_redirection := True\<rparr>, rest))
      else if c = 38 then scan_ampersand st rest
      else if c = 124 then scan_bar st rest
      else if c = 59 then
        try_res (push_word st) (\<lambda>st1.
        try_res (push_command st1) (\<lambda>st2. Inr (st2\<lparr>sc_requires := False\<rparr>, rest)))
      else if c = 10 then try_res (end_line st) (\<lambda>st1. Inr (st1, rest))
      else if c = 32 \<or> c = 9 then try_res (push_word st) (\<lambda>st1. Inr (st1, rest))
      else Inr (push_char [c] st, rest))"

definition scan_char :: "shell_scan \<Rightarrow> uchar \<Rightarrow> ustring \<Rightarrow> scan_result" where
  "scan_char st c rest =
     (case sc_quote st of
        SingleQuote \<Rightarrow> scan_single st c rest
      | DoubleQuote \<Rightarrow> scan_double st c rest
      | NoQuote \<Rightarrow> scan_plain st c rest)"

text \<open>Every iteration consumes its character, and perhaps more, never giving any back.\<close>

lemma length_dropWhile_tl: "dropWhile p xs = y # ys \<Longrightarrow> length ys < length xs"
  by (induction xs) (auto split: if_splits)

lemma scan_char_shorter:
  assumes "scan_char st c rest = Inr (st', rest')"
  shows "length rest' \<le> length rest"
proof -
  have comment: "length rest' \<le> length rest" if "scan_comment st rest = Inr (st', rest')"
    using that length_dropWhile_tl [of "\<lambda>c. c \<noteq> 10" rest]
    by (fastforce simp: scan_comment_def Let_def try_res_Inr split: list.splits)
  have ampersand: "length rest' \<le> length rest" if "scan_ampersand st rest = Inr (st', rest')"
    using that by (cases rest) (auto simp: scan_ampersand_def try_res_Inr split: if_splits)
  have bar: "length rest' \<le> length rest" if "scan_bar st rest = Inr (st', rest')"
    using that by (cases rest) (auto simp: scan_bar_def try_res_Inr split: if_splits)
  show ?thesis
    using assms comment ampersand bar
    by (cases "sc_quote st")
      (auto simp: scan_char_def scan_single_def scan_double_def scan_plain_def
        unfinished_escape_def try_res_Inr split: if_splits list.splits)
qed

function scan :: "shell_scan \<Rightarrow> ustring \<Rightarrow> shell_parse_error + shell_scan" where
  "scan st [] = Inr st"
| "scan st (c # rest) =
     (case scan_char st c rest of
        Inl e \<Rightarrow> Inl e
      | Inr (st1, rest1) \<Rightarrow> scan st1 rest1)"
  by pat_completeness auto
termination
  by (relation "measure (length \<circ> snd)") (auto dest: scan_char_shorter)

definition finish_scan :: "shell_scan \<Rightarrow> shell_parse_error + parsed_shell_command" where
  "finish_scan st =
     (if sc_quote st \<noteq> NoQuote then Inl Malformed
      else try_res (end_line st) (\<lambda>st1.
        if commands st1 = [] \<or> sc_requires st1 then Inl Malformed
        else Inr (parsed_of st1)))"

definition parse_shell :: "ustring \<Rightarrow> shell_parse_error + parsed_shell_command" where
  "parse_shell command = try_res (scan init_scan command) finish_scan"

section \<open>Bounds\<close>

text \<open>The scan never holds an empty command, more than 32 commands or more than 256 words.\<close>

definition scan_ok :: "shell_scan \<Rightarrow> bool" where
  "scan_ok st \<longleftrightarrow>
     list_all (\<lambda>ws. ws \<noteq> []) (commands st) \<and> length (commands st) \<le> MAX_SIMPLE_COMMANDS
     \<and> sc_word_count st = sum_list (map length (commands st)) + length (sc_words st)
     \<and> sc_word_count st \<le> MAX_POLICY_WORDS"

lemma scan_ok_init: "scan_ok init_scan"
  by (simp add: scan_ok_def init_scan_def)

lemma scan_ok_updates [simp]:
  "scan_ok (st\<lparr>has_background := b\<rparr>) = scan_ok st"
  "scan_ok (st\<lparr>has_redirection := b\<rparr>) = scan_ok st"
  "scan_ok (st\<lparr>has_dynamic_expansion := b\<rparr>) = scan_ok st"
  "scan_ok (st\<lparr>has_pathname_expansion := b\<rparr>) = scan_ok st"
  "scan_ok (st\<lparr>has_comment := b\<rparr>) = scan_ok st"
  "scan_ok (st\<lparr>has_unclassified_syntax := b\<rparr>) = scan_ok st"
  "scan_ok (st\<lparr>sc_word := w\<rparr>) = scan_ok st"
  "scan_ok (st\<lparr>sc_started := b\<rparr>) = scan_ok st"
  "scan_ok (st\<lparr>sc_quote := q\<rparr>) = scan_ok st"
  "scan_ok (st\<lparr>sc_requires := b\<rparr>) = scan_ok st"
  "scan_ok (push_char cs st) = scan_ok st"
  by (simp_all add: scan_ok_def push_char_def)

lemma push_word_ok: "scan_ok st \<Longrightarrow> push_word st = Inr st' \<Longrightarrow> scan_ok st'"
  by (auto simp: push_word_def scan_ok_def split: if_splits)

lemma push_command_ok: "scan_ok st \<Longrightarrow> push_command st = Inr st' \<Longrightarrow> scan_ok st'"
  by (auto simp: push_command_def scan_ok_def split: if_splits)

lemma push_both_ok:
  "scan_ok st \<Longrightarrow> push_word st = Inr a \<Longrightarrow> push_command a = Inr b \<Longrightarrow> scan_ok b"
  by (rule push_command_ok [OF push_word_ok])

lemma end_line_ok: "scan_ok st \<Longrightarrow> end_line st = Inr st' \<Longrightarrow> scan_ok st'"
  by (auto simp: end_line_def try_res_Inr split: if_splits dest: push_word_ok push_both_ok)

lemma scan_ampersand_ok: "scan_ok st \<Longrightarrow> scan_ampersand st rest = Inr (st', rest') \<Longrightarrow> scan_ok st'"
  by (cases rest)
    (auto simp: scan_ampersand_def try_res_Inr split: if_splits dest: push_word_ok push_both_ok)

lemma scan_bar_ok: "scan_ok st \<Longrightarrow> scan_bar st rest = Inr (st', rest') \<Longrightarrow> scan_ok st'"
  by (auto simp: scan_bar_def try_res_Inr dest: push_word_ok push_both_ok)

lemma scan_comment_ok: "scan_ok st \<Longrightarrow> scan_comment st rest = Inr (st', rest') \<Longrightarrow> scan_ok st'"
  using end_line_ok [of "st\<lparr>has_comment := True\<rparr>"]
  by (auto simp: scan_comment_def Let_def try_res_Inr split: list.splits)

lemma scan_char_ok:
  assumes "scan_ok st" and "scan_char st c rest = Inr (st', rest')"
  shows "scan_ok st'"
proof (cases "sc_quote st")
  case NoQuote
  with assms show ?thesis
    by (auto simp: scan_char_def scan_plain_def unfinished_escape_def try_res_Inr
        split: if_splits list.splits
        dest: push_word_ok push_both_ok end_line_ok scan_ampersand_ok scan_bar_ok scan_comment_ok)
qed (use assms in \<open>auto simp: scan_char_def scan_single_def scan_double_def unfinished_escape_def
       split: if_splits list.splits\<close>)

lemma scan_scan_ok: "scan_ok st \<Longrightarrow> scan st cs = Inr st' \<Longrightarrow> scan_ok st'"
  by (induction st cs rule: scan.induct) (auto split: sum.splits dest: scan_char_ok)

lemma parse_shell_Inr:
  assumes "parse_shell s = Inr c"
  shows "commands c \<noteq> []" and "list_all (\<lambda>ws. ws \<noteq> []) (commands c)"
    and "length (commands c) \<le> MAX_SIMPLE_COMMANDS"
    and "sum_list (map length (commands c)) \<le> MAX_POLICY_WORDS"
proof -
  from assms obtain st st1 where "scan init_scan s = Inr st" "end_line st = Inr st1"
    and c: "c = parsed_of st1" "commands st1 \<noteq> []"
    by (auto simp: parse_shell_def finish_scan_def try_res_Inr split: if_splits)
  then have "scan_ok st1" using scan_scan_ok [OF scan_ok_init] end_line_ok by blast
  with c show "commands c \<noteq> []" "list_all (\<lambda>ws. ws \<noteq> []) (commands c)"
    "length (commands c) \<le> MAX_SIMPLE_COMMANDS"
    "sum_list (map length (commands c)) \<le> MAX_POLICY_WORDS"
    by (simp_all add: scan_ok_def parsed_of_def)
qed

end
