(* ===== verification/Command_Policy.thy ===== *)
theory Command_Policy
  imports Command_Options Path_Probe Shell_Parser Tool_Execution
begin

text \<open>
  The approval policy of \<open>run_command\<close> (crates/capability-coding/src/command_policy.rs and
  command_input.rs): the classification of one command line. The JSON arguments are read through
  \<open>as_object\<close> and \<open>as_str\<close>, given as functions.
\<close>

section \<open>The input\<close>

datatype run_command_input_error =
    ArgumentsNotObject
  | CommandMissingOrNotString
  | UnknownArguments
  | CommandTooLarge
  | CommandEmpty

fun input_reason :: "run_command_input_error \<Rightarrow> ustring" where
  "input_reason ArgumentsNotObject = lit ''run_command arguments must be an object''"
| "input_reason CommandMissingOrNotString =
     lit ''run_command requires a string '' @ quoted (lit ''command'') @ lit '' argument''"
| "input_reason UnknownArguments = lit ''run_command does not accept unknown arguments''"
| "input_reason CommandTooLarge = lit ''command exceeds the 65536 bytes policy limit''"
| "input_reason CommandEmpty = lit ''command must not be empty''"

definition MAX_COMMAND_BYTES :: nat where
  "MAX_COMMAND_BYTES = 64 * 1024"

definition validate_run_command_text :: "ustring \<Rightarrow> run_command_input_error + unit" where
  "validate_run_command_text command =
     (if MAX_COMMAND_BYTES < byte_len command then Inl CommandTooLarge
      else if is_blank command then Inl CommandEmpty
      else Inr ())"

definition parse_run_command_arguments ::
    "('v \<Rightarrow> (ustring, 'v) btree_map option) \<Rightarrow> ('v \<Rightarrow> ustring option) \<Rightarrow> 'v
       \<Rightarrow> run_command_input_error + ustring" where
  "parse_run_command_arguments as_object as_str arguments =
     (case as_object arguments of
        None \<Rightarrow> Inl ArgumentsNotObject
      | Some obj \<Rightarrow>
          (case Option.bind (bt_get obj (lit ''command'')) as_str of
             None \<Rightarrow> Inl CommandMissingOrNotString
           | Some command \<Rightarrow>
               if length obj \<noteq> 1 then Inl UnknownArguments
               else try_res (validate_run_command_text command) (\<lambda>_. Inr command)))"

section \<open>Decisions\<close>

datatype command_policy_decision =
    PolicyAllow
  | PolicyRequiresApproval ustring
  | PolicyReject ustring

definition requires_approval :: "string \<Rightarrow> command_policy_decision" where
  "requires_approval reason = PolicyRequiresApproval (lit reason)"

definition reject :: "string \<Rightarrow> command_policy_decision" where
  "reject reason = PolicyReject (lit reason)"

definition LOW_RISK_EXTERNAL_PROGRAMS :: "ustring list" where
  "LOW_RISK_EXTERNAL_PROGRAMS =
     map lit [''git'', ''cargo'', ''rg'', ''ls'', ''cat'', ''grep'', ''head'', ''tail'', ''wc'',
              ''stat'', ''file'', ''find'', ''sed'']"

section \<open>One simple command\<close>

definition path_candidate :: "ustring \<Rightarrow> ustring option" where
  "path_candidate word =
     (let candidate =
        (if starts_with word two_dashes
         then (case split_once 61 word of Some (_, value) \<Rightarrow> value | None \<Rightarrow> word)
         else word)
      in if candidate \<noteq> [] \<and> candidate \<noteq> [46] \<and> \<not> starts_with candidate dash then Some candidate
         else None)"

text \<open>The words of a command that are probed as paths; everything after a double dash is one.\<close>

fun argument_paths :: "bool \<Rightarrow> ustring list \<Rightarrow> ustring list" where
  "argument_paths positional_only [] = []"
| "argument_paths positional_only (a # rest) =
     (if a = two_dashes \<and> \<not> positional_only then argument_paths True rest
      else (case (if positional_only then Some a else path_candidate a) of
              Some p \<Rightarrow> p # argument_paths positional_only rest
            | None \<Rightarrow> argument_paths positional_only rest))"

definition classify_argument_paths ::
    "workspace_fs \<Rightarrow> ustring list \<Rightarrow> path_probe_budget \<Rightarrow> path_classification \<times> path_probe_budget"
where
  "classify_argument_paths W arguments b = probe_paths W (argument_paths False arguments) b"

definition option_paths :: "uchar list \<Rightarrow> ustring \<Rightarrow> bool \<Rightarrow> ustring list \<Rightarrow> ustring list" where
  "option_paths short_options long_option colon_separated arguments =
     (let values = option_values short_options long_option arguments
      in if colon_separated then concat (map (split_on 58) values) else values)"

definition classify_option_paths ::
    "workspace_fs \<Rightarrow> ustring list \<Rightarrow> uchar list \<Rightarrow> ustring \<Rightarrow> bool \<Rightarrow> path_probe_budget
       \<Rightarrow> path_classification \<times> path_probe_budget" where
  "classify_option_paths W arguments short_options long_option colon_separated b =
     probe_paths W (option_paths short_options long_option colon_separated arguments) b"

definition classify_path_bearing_options ::
    "workspace_fs \<Rightarrow> ustring \<Rightarrow> ustring list \<Rightarrow> path_probe_budget
       \<Rightarrow> path_classification \<times> path_probe_budget" where
  "classify_path_bearing_options W program arguments b =
     (if program = lit ''rg'' \<or> program = lit ''grep'' then
        classify_option_paths W arguments [102] (lit ''--file'') False b
      else if program = lit ''git'' \<and> first_is arguments [''grep''] then
        classify_option_paths W (drop 1 arguments) [102] (lit ''--file'') False b
      else if program = lit ''git'' \<and> first_is arguments [''ls-files''] then
        classify_option_paths W (drop 1 arguments) [88] (lit ''--exclude-from'') False b
      else if program = lit ''file'' then
        classify_option_paths W arguments [109, 77] (lit ''--magic-file'') True b
      else (WithinWorkspace, b))"

text \<open>The checks that come before any path is probed.\<close>

definition before_path_probes ::
    "ustring \<Rightarrow> ustring list \<Rightarrow> command_policy_decision option" where
  "before_path_probes program arguments =
     (if program = lit ''file'' \<and> file_may_execute_uncompress_helper arguments then
        Some (requires_approval ''command executes a helper while inspecting compressed files'')
      else if program = lit ''git''
              \<and> list_ex (\<lambda>a. long_option_matches_or_abbreviates a (lit ''--output'')) arguments then
        Some (requires_approval ''command may mutate workspace files'')
      else if program = lit ''git'' \<and> git_may_use_signature_verification arguments then
        Some (requires_approval ''command executes configured signature verification tooling'')
      else if program = lit ''git''
              \<and> list_ex (\<lambda>a. short_option_cluster_contains a 79
                   \<or> long_option_matches_or_abbreviates a (lit ''--open-files-in-pager'')
                   \<or> long_option_matches_or_abbreviates a (lit ''--ext-diff'')
                   \<or> long_option_matches_or_abbreviates a (lit ''--textconv'')) arguments then
        Some (requires_approval ''command executes a helper configured by Git'')
      else if program = lit ''git''
              \<and> first_is arguments [''status'', ''diff'', ''ls-files'', ''grep''] then
        Some (requires_approval
          (''command may invoke Git'' @ [CHR 0x27] @ ''s configured fsmonitor helper or start its daemon''))
      else None)"

definition is_low_risk_external_command :: "ustring list \<Rightarrow> bool" where
  "is_low_risk_external_command words =
     (case words of
        [] \<Rightarrow> False
      | program # arguments \<Rightarrow>
          if program \<notin> set LOW_RISK_EXTERNAL_PROGRAMS then False
          else if program = lit ''git'' \<and> first_is arguments [''rev-parse''] then True
          else if program = lit ''git'' \<and> arguments = [lit ''branch'', lit ''--show-current''] then True
          else if program = lit ''cargo''
                  \<and> first_is arguments [''check'', ''test'', ''clippy'', ''metadata''] then True
          else if program = lit ''cargo'' \<and> first_is arguments [''fmt'']
                  \<and> lit ''--check'' \<in> set (drop 1 arguments) then True
          else if program = lit ''sed'' \<and> is_safe_sed_read arguments then True
          else program \<notin> set (map lit [''git'', ''cargo'', ''sed'']))"

text \<open>The options that make a search follow links or load lists of paths.\<close>

definition may_follow_outside :: "ustring \<Rightarrow> ustring list \<Rightarrow> bool" where
  "may_follow_outside program arguments \<longleftrightarrow>
     program = lit ''rg''
       \<and> list_ex (\<lambda>a. long_option_matches_or_abbreviates a (lit ''--follow'')
            \<or> short_option_cluster_contains a 76) arguments
     \<or> program = lit ''grep''
       \<and> list_ex (\<lambda>a. long_option_matches_or_abbreviates a (lit ''--dereference-recursive'')
            \<or> short_option_cluster_contains a 82) arguments
     \<or> program = lit ''find''
       \<and> list_ex (\<lambda>a. a = lit ''-L'' \<or> a = lit ''-follow'' \<or> starts_with a (lit ''-files0-from''))
           arguments
     \<or> program = lit ''file''
       \<and> list_ex (\<lambda>a. a = lit ''-f'' \<or> short_option_cluster_contains a 102
            \<or> long_option_matches_or_abbreviates a (lit ''--files-from'')) arguments
     \<or> program = lit ''wc''
       \<and> list_ex (\<lambda>a. long_option_matches_or_abbreviates a (lit ''--files0-from'')) arguments
     \<or> program = lit ''ls''
       \<and> list_ex (\<lambda>a. short_option_cluster_contains a 76
            \<or> long_option_matches_or_abbreviates a (lit ''--dereference'')) arguments"

definition monitors_file :: "ustring list \<Rightarrow> bool" where
  "monitors_file arguments =
     list_ex (\<lambda>a. short_option_cluster_contains a 102 \<or> short_option_cluster_contains a 70
       \<or> long_option_matches_or_abbreviates a (lit ''--follow'')
       \<or> long_option_matches_or_abbreviates a (lit ''--retry'')
       \<or> long_option_matches_or_abbreviates a (lit ''--pid'')) arguments"

definition changes_shell_variable :: "ustring list \<Rightarrow> bool" where
  "changes_shell_variable arguments =
     (case arguments of
        a # _ \<Rightarrow> a = lit ''-v'' \<or> starts_with a (lit ''-v'') \<and> 2 < byte_len a
      | [] \<Rightarrow> False)"

definition low_risk_form :: "ustring list \<Rightarrow> bool" where
  "low_risk_form words \<longleftrightarrow>
     words = [lit ''pwd'']
     \<or> (case words of [c, f, _] \<Rightarrow> c = lit ''command'' \<and> f = lit ''-v'' | _ \<Rightarrow> False)
     \<or> first_is words [''echo'', ''printf'', ''true'', ''false'']
     \<or> is_low_risk_external_command words"

text \<open>The checks that come after the paths of the command were found inside the workspace.\<close>

definition after_path_probes :: "ustring \<Rightarrow> ustring list \<Rightarrow> command_policy_decision" where
  "after_path_probes program arguments =
     (if program = lit ''cargo'' \<and> first_is arguments [''add'', ''install'', ''update'']
         \<or> program \<in> set (map lit [''npm'', ''pnpm'', ''yarn'', ''pip'', ''pip3''])
           \<and> first_is arguments [''install'', ''add'', ''update''] then
        requires_approval ''command installs or updates dependencies''
      else if program = lit ''rm''
              \<or> program = lit ''git'' \<and> first_is arguments [''reset'', ''clean''] then
        requires_approval ''command performs a destructive workspace operation''
      else if known_filesystem_mutator program arguments then
        requires_approval ''command may mutate workspace files''
      else if program = lit ''cargo'' \<and> first_is arguments [''clippy'']
              \<and> lit ''--fix'' \<in> set (drop 1 arguments) then
        requires_approval ''command may mutate workspace files''
      else if program = lit ''cargo''
              \<and> list_ex (\<lambda>a. a = lit ''--config'' \<or> starts_with a (lit ''--config='')) arguments then
        requires_approval ''command executes configured tooling''
      else if program = lit ''file'' \<and> list_ex is_file_compile_option arguments then
        requires_approval ''command may mutate workspace files''
      else if program = lit ''rg''
              \<and> list_ex (\<lambda>a. long_option_matches_or_abbreviates a (lit ''--pre'')
                   \<or> long_option_matches_or_abbreviates a (lit ''--search-zip'')
                   \<or> short_option_cluster_contains a 122) arguments then
        requires_approval ''command executes a helper while searching files''
      else if program = lit ''rg'' \<and> \<not> first_is arguments [''--no-config''] then
        requires_approval ''command may execute a preprocessor from inherited configuration''
      else if may_follow_outside program arguments then
        requires_approval ''command may follow or load paths outside the workspace''
      else if program = lit ''tail'' \<and> monitors_file arguments then
        requires_approval ''command starts a long-running file monitor''
      else if program = lit ''printf'' \<and> changes_shell_variable arguments then
        requires_approval ''command changes a shell variable''
      else if program = lit ''printf'' \<and> printf_format_may_amplify_output arguments then
        requires_approval ''command may amplify output without a fixed resource bound''
      else if program = lit ''find'' \<and> find_may_mutate_or_execute arguments then
        requires_approval ''command may mutate workspace files or execute a helper''
      else if program = lit ''sed'' \<and> \<not> is_safe_sed_read arguments then
        requires_approval ''command may mutate workspace files or execute a helper''
      else if low_risk_form (program # arguments) then PolicyAllow
      else requires_approval ''command is not classified as low-risk'')"

text \<open>What an unfinished or escaping probe means for the command; \<open>None\<close> continues.\<close>

definition probe_decision :: "path_classification \<Rightarrow> command_policy_decision option" where
  "probe_decision c =
     (case c of
        WithinWorkspace \<Rightarrow> None
      | EscapesWorkspace \<Rightarrow>
          Some (requires_approval ''command may access a path outside the workspace'')
      | BudgetExceeded \<Rightarrow>
          Some (requires_approval ''command exceeds the workspace path inspection budget''))"

definition classify_simple_command ::
    "workspace_fs \<Rightarrow> ustring list \<Rightarrow> path_probe_budget
       \<Rightarrow> command_policy_decision \<times> path_probe_budget" where
  "classify_simple_command W words b =
     (case words of
        [] \<Rightarrow> (reject ''command contains malformed shell syntax'', b)
      | program # arguments \<Rightarrow>
          (case before_path_probes program arguments of
             Some decision \<Rightarrow> (decision, b)
           | None \<Rightarrow>
               let (options, b1) = classify_path_bearing_options W program arguments b
               in case probe_decision options of
                    Some decision \<Rightarrow> (decision, b1)
                  | None \<Rightarrow>
                      let (paths, b2) = classify_argument_paths W arguments b1
                      in case probe_decision paths of
                           Some decision \<Rightarrow> (decision, b2)
                         | None \<Rightarrow> (after_path_probes program arguments, b2)))"

section \<open>Hard rejections\<close>

definition privilege_elevating :: "ustring \<Rightarrow> bool" where
  "privilege_elevating program \<longleftrightarrow>
     program_basename program \<in> set (map lit [''sudo'', ''doas'', ''su''])"

definition classify_working_directory ::
    "workspace_fs \<Rightarrow> ustring list \<Rightarrow> path_probe_budget
       \<Rightarrow> command_policy_decision option \<times> path_probe_budget" where
  "classify_working_directory W arguments b =
     (let (c, b1) = (case arguments of [] \<Rightarrow> (WithinWorkspace, b) | path # _ \<Rightarrow> probe_path W path b)
      in (case c of
            WithinWorkspace \<Rightarrow> None
          | EscapesWorkspace \<Rightarrow>
              Some (reject ''command changes its working directory outside the workspace'')
          | BudgetExceeded \<Rightarrow>
              Some (requires_approval ''command exceeds the workspace path inspection budget''), b1))"

definition classify_hard_rejection ::
    "workspace_fs \<Rightarrow> ustring list \<Rightarrow> path_probe_budget
       \<Rightarrow> command_policy_decision option \<times> path_probe_budget" where
  "classify_hard_rejection W words b =
     (case unwrap_transparent_command_wrappers words of
        Inl e \<Rightarrow> (Some (PolicyReject (wrapper_reason e)), b)
      | Inr [] \<Rightarrow> (None, b)
      | Inr (program # arguments) \<Rightarrow>
          if privilege_elevating program then
            (Some (reject ''command attempts privilege elevation''), b)
          else if command_mutates_filesystem_root program arguments then
            (Some (reject ''command targets the filesystem root''), b)
          else if program = lit ''cd'' then classify_working_directory W arguments b
          else (None, b))"

section \<open>A command line\<close>

fun first_hard_rejection ::
    "workspace_fs \<Rightarrow> ustring list list \<Rightarrow> path_probe_budget
       \<Rightarrow> command_policy_decision option \<times> path_probe_budget" where
  "first_hard_rejection W [] b = (None, b)"
| "first_hard_rejection W (ws # rest) b =
     (case classify_hard_rejection W ws b of
        (Some decision, b1) \<Rightarrow> (Some decision, b1)
      | (None, b1) \<Rightarrow> first_hard_rejection W rest b1)"

fun classify_simple_commands ::
    "workspace_fs \<Rightarrow> ustring list list \<Rightarrow> path_probe_budget
       \<Rightarrow> command_policy_decision \<times> path_probe_budget" where
  "classify_simple_commands W [] b = (PolicyAllow, b)"
| "classify_simple_commands W (ws # rest) b =
     (case classify_simple_command W ws b of
        (PolicyAllow, b1) \<Rightarrow> classify_simple_commands W rest b1
      | (decision, b1) \<Rightarrow> (decision, b1))"

definition classify_syntax :: "parsed_shell_command \<Rightarrow> command_policy_decision option" where
  "classify_syntax parsed =
     (if has_background parsed then
        Some (requires_approval ''command starts or manages a background process'')
      else if has_redirection parsed then
        Some (requires_approval ''command redirects input or output'')
      else if has_dynamic_expansion parsed \<or> has_pathname_expansion parsed then
        Some (requires_approval ''command uses dynamic shell expansion'')
      else if has_comment parsed \<or> has_unclassified_syntax parsed then
        Some (requires_approval
          ''command contains shell syntax that is not classified as low-risk'')
      else None)"

definition classify_parsed :: "workspace_fs \<Rightarrow> parsed_shell_command \<Rightarrow> command_policy_decision" where
  "classify_parsed W parsed =
     (case first_hard_rejection W (commands parsed) default_budget of
        (Some decision, _) \<Rightarrow> decision
      | (None, b) \<Rightarrow>
          (case classify_syntax parsed of
             Some decision \<Rightarrow> decision
           | None \<Rightarrow> fst (classify_simple_commands W (commands parsed) b)))"

definition classify_validated :: "workspace_fs \<Rightarrow> ustring \<Rightarrow> command_policy_decision" where
  "classify_validated W command =
     (case parse_shell command of
        Inl Malformed \<Rightarrow> reject ''command contains malformed shell syntax''
      | Inl TooComplex \<Rightarrow>
          reject ''command is too complex for the first-phase approval policy''
      | Inr parsed \<Rightarrow> classify_parsed W parsed)"

definition classify_command :: "workspace_fs \<Rightarrow> ustring \<Rightarrow> command_policy_decision" where
  "classify_command W command =
     (case validate_run_command_text command of
        Inl e \<Rightarrow> PolicyReject (input_reason e)
      | Inr _ \<Rightarrow> classify_validated W command)"

definition classify_call ::
    "('v \<Rightarrow> (ustring, 'v) btree_map option) \<Rightarrow> ('v \<Rightarrow> ustring option) \<Rightarrow> workspace_fs
       \<Rightarrow> 'v tool_call \<Rightarrow> command_policy_decision" where
  "classify_call as_object as_str W call =
     (case parse_run_command_arguments as_object as_str (tc_arguments call) of
        Inl e \<Rightarrow> PolicyReject (input_reason e)
      | Inr command \<Rightarrow> classify_validated W command)"

end
