(* ===== verification/Allowed_Commands.thy ===== *)
theory Allowed_Commands
  imports Command_Policy
begin

text \<open>
  What it takes for a command to run without being asked for, said without the checks of the policy
  and their order: the forms of the commands, as rules, one for each program, and the words of a
  command that must name places in the workspace. The lemmas tie each check of
  crates/capability-coding/src/command_policy.rs to what it rules out. Code points: 37 is the percent
  sign, 42 the star, 45 the dash, 58 the colon, 61 the equals sign.
\<close>

section \<open>Options\<close>

text \<open>
  A word that is a long option, or an abbreviation of it by at least one letter, alone or with a value
  behind an equals sign; and a word that is a group of short options with one of the given ones.
\<close>

definition names_long :: "string \<Rightarrow> ustring \<Rightarrow> bool" where
  "names_long full a \<longleftrightarrow>
     (\<exists>k \<in> {3..length full}. a = lit (take k full) \<or> prefix (lit (take k full) @ [61]) a)"

definition has_flag :: "string \<Rightarrow> ustring \<Rightarrow> bool" where
  "has_flag flags a \<longleftrightarrow>
     (case a of x # y # rest \<Rightarrow> x = 45 \<and> y \<noteq> 45 \<and> (\<exists>c \<in> set (y # rest). c \<in> set (lit flags)) | _ \<Rightarrow> False)"

definition without :: "string \<Rightarrow> string list \<Rightarrow> ustring list \<Rightarrow> bool" where
  "without flags longs as \<longleftrightarrow>
     (\<forall>a \<in> set as. \<not> has_flag flags a \<and> (\<forall>full \<in> set longs. \<not> names_long full a))"

definition long_option :: "string \<Rightarrow> bool" where
  "long_option full \<longleftrightarrow> take 2 full = ''--'' \<and> CHR ''='' \<notin> set full"

lemma lit_take: "lit (take k full) = take k (lit full)"
  by (simp add: lit_def take_map)

lemma no_equals: "CHR ''='' \<notin> set full \<Longrightarrow> 61 \<notin> set (lit full)"
proof
  assume "CHR ''='' \<notin> set full" "61 \<in> set (lit full)"
  then obtain c where "c \<in> set full" "of_char c = (61::nat)" by (auto simp: lit_def)
  moreover from this have "of_char c = (of_char CHR ''='' :: nat)" by simp
  ultimately show False using \<open>CHR ''='' \<notin> set full\<close> by (metis of_char_eq_iff)
qed

lemma long_option_lit:
  assumes "long_option full"
  shows "prefix two_dashes (lit full)" and "61 \<notin> set (lit full)"
proof -
  have "full = ''--'' @ drop 2 full"
    using assms append_take_drop_id [of 2 full] unfolding long_option_def by metis
  moreover have "lit ''--'' = two_dashes" by (simp add: lit_def two_dashes_def)
  ultimately have "lit full = two_dashes @ lit (drop 2 full)" by (metis lit_append)
  then show "prefix two_dashes (lit full)" by simp
  show "61 \<notin> set (lit full)" using assms no_equals by (simp add: long_option_def)
qed

lemma option_name_Some: "option_name (n @ 61 # v) = n" if "61 \<notin> set n"
  using that by (simp add: option_name_def split_once_append)

lemma option_name_None: "61 \<notin> set a \<Longrightarrow> option_name a = a"
  by (simp add: option_name_def split_once_None [THEN iffD2])

lemma option_name_cases: "option_name a = a \<and> 61 \<notin> set a \<or> (\<exists>v. a = option_name a @ 61 # v \<and> 61 \<notin> set (option_name a))"
proof (cases "split_once 61 a")
  case None
  then show ?thesis using split_once_None [of 61 a] by (simp add: option_name_def)
next
  case (Some p)
  then show ?thesis by (cases p) (auto simp: option_name_def dest: split_once_SomeD)
qed

text \<open>What the code means by a name that matches or abbreviates.\<close>

definition abbreviates :: "string \<Rightarrow> ustring \<Rightarrow> bool" where
  "abbreviates full n \<longleftrightarrow> (\<exists>k \<in> {3..length full}. n = lit (take k full))"

lemma matching_name:
  assumes "long_option full"
  shows "starts_with n two_dashes \<and> 2 < byte_len n \<and> starts_with (lit full) n \<longleftrightarrow> abbreviates full n"
proof
  assume n: "starts_with n two_dashes \<and> 2 < byte_len n \<and> starts_with (lit full) n"
  then obtain rest where rest: "n = 45 # 45 # rest" by (auto simp: starts_with_iff two_dashes_def prefix_def)
  with n have "rest \<noteq> []" by (auto simp: len_utf8_def)
  with rest have three: "3 \<le> length n" by (cases rest) auto
  from n have pre: "prefix n (lit full)" by (simp add: starts_with_iff)
  then have "n = lit (take (length n) full)" by (auto simp: lit_take prefix_def)
  moreover have "length n \<in> {3..length full}" using prefix_length_le [OF pre] three by simp
  ultimately show "abbreviates full n" unfolding abbreviates_def by blast
next
  assume "abbreviates full n"
  then obtain k where k: "3 \<le> k" "k \<le> length full" "n = take k (lit full)"
    by (auto simp: abbreviates_def lit_take)
  have len: "length n = k" using k by (simp add: lit_def)
  with k(1) have "2 < byte_len n" using length_le_byte_len [of n] by simp
  moreover have pre: "prefix n (lit full)" unfolding k(3) by (rule take_is_prefix)
  moreover have "length two_dashes \<le> length n" using len k(1) by (simp add: two_dashes_def)
  with prefix_length_prefix [OF long_option_lit(1) [OF assms] pre] have "prefix two_dashes n" .
  ultimately show "starts_with n two_dashes \<and> 2 < byte_len n \<and> starts_with (lit full) n"
    by (simp add: starts_with_iff)
qed

lemma matches_long_iff:
  "long_option full \<Longrightarrow>
     long_option_matches_or_abbreviates a (lit full) \<longleftrightarrow> abbreviates full (option_name a)"
  using matching_name unfolding long_option_matches_or_abbreviates_def by blast

lemma abbreviation_no_equals: "long_option full \<Longrightarrow> abbreviates full n \<Longrightarrow> 61 \<notin> set n"
  using long_option_lit(2) by (auto simp: abbreviates_def lit_take dest: in_set_takeD)

lemma names_long_iff:
  assumes "long_option full"
  shows "names_long full a \<longleftrightarrow> long_option_matches_or_abbreviates a (lit full)"
proof -
  have "names_long full a \<longleftrightarrow> (\<exists>n. abbreviates full n \<and> (a = n \<or> (\<exists>v. a = n @ 61 # v)))"
    by (auto simp: names_long_def abbreviates_def prefix_def)
  also have "\<dots> \<longleftrightarrow> abbreviates full (option_name a)"
    using option_name_cases [of a] abbreviation_no_equals [OF assms]
    by (metis option_name_None option_name_Some)
  finally show ?thesis by (simp add: matches_long_iff [OF assms])
qed

lemma has_flag_iff: "has_flag flags a \<longleftrightarrow> (\<exists>c \<in> set (lit flags). short_option_cluster_contains a c)"
  by (auto simp: has_flag_def short_option_cluster_contains_def starts_with_iff dash_def two_dashes_def
      split: list.splits)

text \<open>
  The word \<open>v\<close> is a value of one of the short options or of the long one at the word \<open>a\<close> that stands
  before the words \<open>vs\<close>. An attached value of a short option counts only while the word holds no
  equals sign: the code takes a word that does for a long option.
\<close>

inductive option_argument :: "string \<Rightarrow> string \<Rightarrow> ustring \<Rightarrow> ustring list \<Rightarrow> ustring \<Rightarrow> bool"
  for shorts full where
  short_next: "c \<in> set (lit shorts) \<Longrightarrow> option_argument shorts full [45, c] (v # vs) v"
| long_next: "3 \<le> k \<Longrightarrow> k \<le> length full \<Longrightarrow> option_argument shorts full (lit (take k full)) (v # vs) v"
| long_equals: "3 \<le> k \<Longrightarrow> k \<le> length full \<Longrightarrow>
    option_argument shorts full (lit (take k full) @ 61 # v) vs v"
| short_attached: "c \<in> set (lit shorts) \<Longrightarrow> set xs \<inter> set (lit shorts) = {} \<Longrightarrow> 61 \<notin> set (xs @ v)
    \<Longrightarrow> v \<noteq> [] \<Longrightarrow> hd (xs @ [c]) \<noteq> 45 \<Longrightarrow> option_argument shorts full (45 # xs @ c # v) vs v"

lemma exact_short_iff: "is_exact_short_option a c \<longleftrightarrow> a = [45, c]"
  by (auto simp: is_exact_short_option_def dash_def strip_prefix_of_Some split: option.splits)

lemma abbreviation_dashes:
  assumes "long_option full" "abbreviates full n"
  shows "\<exists>ys. n = 45 # 45 # ys"
  using matching_name [OF assms(1), of n] assms(2) by (auto simp: starts_with_iff two_dashes_def prefix_def)

lemma long_word:
  assumes "long_option full" and "3 \<le> k" "k \<le> length full"
  shows "abbreviates full (lit (take k full))" and "61 \<notin> set (lit (take k full))"
    and "\<exists>x xs. lit (take k full) = 45 # 45 # x # xs"
proof -
  show abbreviates: "abbreviates full (lit (take k full))" using assms(2,3) by (auto simp: abbreviates_def)
  show "61 \<notin> set (lit (take k full))" by (rule abbreviation_no_equals [OF assms(1) abbreviates])
  from abbreviation_dashes [OF assms(1) abbreviates]
  obtain ys where "lit (take k full) = 45 # 45 # ys" by blast
  moreover have "length (lit (take k full)) = k" using assms(3) by simp
  ultimately show "\<exists>x xs. lit (take k full) = 45 # 45 # x # xs"
    using assms(2) by (cases ys) auto
qed

lemma attached_value:
  assumes "c \<in> set opts" "set xs \<inter> set opts = {}" "v \<noteq> []" "hd (xs @ [c]) \<noteq> 45"
  shows "attached_short_option_value (45 # xs @ c # v) opts = Some v"
proof -
  have "\<not> starts_with (45 # xs @ c # v) two_dashes"
    using assms(4) by (cases xs) (auto simp: starts_with_iff two_dashes_def)
  moreover have "starts_with (45 # xs @ c # v) dash" by (simp add: starts_with_iff dash_def)
  moreover have "dropWhile (\<lambda>c. c \<notin> set opts) (xs @ c # v) = c # v"
    using assms(1,2) by (induction xs) auto
  ultimately show ?thesis using assms(3) by (simp add: attached_short_option_value_def)
qed

lemma option_argument_value:
  assumes "option_argument shorts full a vs v" and "long_option full" "61 \<notin> set (lit shorts)"
  shows "v \<in> set (option_values (lit shorts) (lit full) (us @ a # vs))"
proof (induction us)
  case (Cons u us)
  then show ?case by (simp add: Let_def)
next
  case Nil
  note long = matches_long_iff [OF assms(2)]
  from assms(1) show ?case
  proof cases
    case short_next
    then show ?thesis by (auto simp: exact_short_iff list_ex_iff Let_def)
  next
    case (long_next k)
    note word = long_word [OF assms(2) long_next(3,4)]
    then show ?thesis
      using long_next by (auto simp: Let_def long option_name_None)
  next
    case (long_equals k)
    note word = long_word [OF assms(2) long_equals(2,3)]
    then have "split_once 61 a = Some (lit (take k full), v)" "option_name a = lit (take k full)"
      "61 \<in> set a" using long_equals(1) by (simp_all add: split_once_append option_name_Some)
    moreover have "\<not> list_ex (is_exact_short_option a) (lit shorts)"
      using word(3) long_equals(1) by (auto simp: exact_short_iff list_ex_iff)
    ultimately show ?thesis using word(1) by (simp add: Let_def long)
  next
    case (short_attached c xs)
    then have "61 \<notin> set a" using assms(3) by auto
    then have "option_name a = a" "split_once 61 a = None"
      by (simp_all add: option_name_None split_once_None)
    moreover have "\<not> abbreviates full a"
      using short_attached(1,6) by (cases xs) (auto dest!: abbreviation_dashes [OF assms(2)])
    moreover have "\<not> list_ex (is_exact_short_option a) (lit shorts)"
      using short_attached(1,5) by (cases xs) (auto simp: exact_short_iff list_ex_iff)
    ultimately show ?thesis
      using attached_value [OF short_attached(2,3,5,6)] short_attached(1) by (simp add: Let_def long)
  qed
qed

section \<open>Words that name places\<close>

definition names_path :: "ustring \<Rightarrow> bool" where
  "names_path w \<longleftrightarrow> w \<noteq> [] \<and> w \<noteq> lit ''.'' \<and> \<not> prefix (lit ''-'') w"

text \<open>
  The paths among the words of a command: a word that does not start with a dash, the value of a long
  option with an equals sign, every word after a double dash, the pattern file of a search, and each
  of the magic files of \<open>file\<close>, which are separated by colons.
\<close>

inductive path_word :: "ustring list \<Rightarrow> ustring \<Rightarrow> bool" where
  operand: "lit ''--'' \<notin> set us \<Longrightarrow> names_path w \<Longrightarrow> path_word (p # us @ w # vs) w"
| option_value: "lit ''--'' \<notin> set us \<Longrightarrow> 61 \<notin> set n \<Longrightarrow> names_path v \<Longrightarrow>
    path_word (p # us @ (lit ''--'' @ n @ 61 # v) # vs) v"
| after_dashes: "lit ''--'' \<in> set us \<Longrightarrow> path_word (p # us @ w # vs) w"
| pattern_file: "p \<in> {lit ''rg'', lit ''grep''} \<Longrightarrow> option_argument ''f'' ''--file'' a vs v \<Longrightarrow>
    path_word (p # us @ a # vs) v"
| magic_file: "option_argument ''mM'' ''--magic-file'' a vs v \<Longrightarrow> w \<in> set (split_on 58 v) \<Longrightarrow>
    path_word (lit ''file'' # us @ a # vs) w"

definition paths_inside :: "workspace_fs \<Rightarrow> ustring list \<Rightarrow> bool" where
  "paths_inside W ws \<longleftrightarrow> (\<forall>w. path_word ws w \<longrightarrow> stays_inside W w)"

lemma lit_dashes: "lit ''--'' = two_dashes" "lit ''-'' = dash" "lit ''.'' = [46]"
  by (simp_all add: lit_def two_dashes_def dash_def)

lemma argument_paths_positional: "argument_paths True as = as"
  by (induction as) simp_all

lemma argument_paths_before:
  "two_dashes \<notin> set us \<Longrightarrow> argument_paths False (us @ ws) = argument_paths False us @ argument_paths False ws"
  by (induction us) (auto split: option.split)

lemma path_candidate_word: "names_path w \<Longrightarrow> path_candidate w = Some w"
  by (auto simp: names_path_def path_candidate_def lit_dashes starts_with_iff two_dashes_def dash_def
      prefix_def Let_def)

lemma path_candidate_value:
  "61 \<notin> set n \<Longrightarrow> names_path v \<Longrightarrow> path_candidate (two_dashes @ n @ 61 # v) = Some v"
  using split_once_append [of 61 "two_dashes @ n" v]
  by (auto simp: names_path_def path_candidate_def lit_dashes starts_with_iff Let_def two_dashes_def)

lemma argument_path_words:
  "two_dashes \<notin> set us \<Longrightarrow> names_path w \<Longrightarrow> w \<in> set (argument_paths False (us @ w # vs))"
  "two_dashes \<notin> set us \<Longrightarrow> 61 \<notin> set n \<Longrightarrow> names_path v \<Longrightarrow>
     v \<in> set (argument_paths False (us @ (two_dashes @ n @ 61 # v) # vs))"
  "two_dashes \<in> set us \<Longrightarrow> w \<in> set (argument_paths False (us @ w # vs))"
proof -
  show "w \<in> set (argument_paths False (us @ w # vs))" if "two_dashes \<notin> set us" "names_path w"
  proof -
    have "w \<noteq> two_dashes" using that(2) by (auto simp: names_path_def lit_dashes two_dashes_def dash_def)
    with that show ?thesis by (simp add: argument_paths_before path_candidate_word)
  qed
  show "v \<in> set (argument_paths False (us @ (two_dashes @ n @ 61 # v) # vs))"
    if "two_dashes \<notin> set us" "61 \<notin> set n" "names_path v"
    using that by (simp add: argument_paths_before path_candidate_value)
  show "w \<in> set (argument_paths False (us @ w # vs))" if "two_dashes \<in> set us"
  proof -
    from split_list_first [OF that] obtain u1 u2
      where us: "us = u1 @ two_dashes # u2" "two_dashes \<notin> set u1" by blast
    then show ?thesis by (simp add: argument_paths_before argument_paths_positional)
  qed
qed

lemma long_options: "long_option ''--file''" "long_option ''--magic-file''"
  by (simp_all add: long_option_def)

lemma path_words_probed:
  assumes "path_word ws w" and "list_all (stays_inside W) (argument_paths False (tl ws))"
    and "hd ws = lit ''rg'' \<or> hd ws = lit ''grep'' \<Longrightarrow>
      list_all (stays_inside W) (option_paths [102] (lit ''--file'') False (tl ws))"
    and "hd ws = lit ''file'' \<Longrightarrow>
      list_all (stays_inside W) (option_paths [109, 77] (lit ''--magic-file'') True (tl ws))"
  shows "stays_inside W w"
  using assms
proof cases
  case (operand us p vs)
  with assms(2) argument_path_words(1) show ?thesis by (simp add: lit_dashes list_all_iff)
next
  case (option_value us n p vs)
  with assms(2) argument_path_words(2) show ?thesis by (simp add: lit_dashes list_all_iff)
next
  case (after_dashes us p vs)
  with assms(2) argument_path_words(3) show ?thesis by (simp add: lit_dashes list_all_iff)
next
  case (pattern_file p a vs us)
  have "w \<in> set (option_values [102] (lit ''--file'') (us @ a # vs))"
    using option_argument_value [OF pattern_file(3) long_options(1)] by (simp add: lit_def)
  with assms(3) pattern_file(1,2) show ?thesis by (auto simp: option_paths_def list_all_iff)
next
  case (magic_file a vs v us)
  have "v \<in> set (option_values [109, 77] (lit ''--magic-file'') (us @ a # vs))"
    using option_argument_value [OF magic_file(2) long_options(2)] by (simp add: lit_def)
  with assms(4) magic_file(1,3) show ?thesis by (auto simp: option_paths_def list_all_iff)
qed

section \<open>Scripts and formats\<close>

text \<open>
  The words of \<open>sed\<close> as it reads them: the scripts given by options and the operands, the first of
  which is the script when no option gives one. Only these options occur.
\<close>

inductive sed_words :: "ustring list \<Rightarrow> ustring list \<Rightarrow> ustring list \<Rightarrow> bool" where
  sed_end: "sed_words [] [] []"
| sed_quiet: "a \<in> set (map lit [''-n'', ''--quiet'', ''--silent'']) \<Longrightarrow> sed_words as ss os \<Longrightarrow>
    sed_words (a # as) ss os"
| sed_script: "a \<in> set (map lit [''-e'', ''--expression'']) \<Longrightarrow> sed_words as ss os \<Longrightarrow>
    sed_words (a # s # as) (s # ss) os"
| sed_attached: "p \<in> set (map lit [''-e'', ''--expression='']) \<Longrightarrow> sed_words as ss os \<Longrightarrow>
    sed_words ((p @ s) # as) (s # ss) os"
| sed_operand: "\<not> prefix (lit ''-'') a \<Longrightarrow> sed_words as ss os \<Longrightarrow> sed_words (a # as) ss (a # os)"
| sed_dashes: "sed_words (lit ''--'' # as) [] as"

definition prints_lines :: "ustring \<Rightarrow> bool" where
  "prints_lines script \<longleftrightarrow> script \<noteq> [] \<and> set script \<subseteq> set (lit ''0123456789$,pq'')"

definition sed_prints :: "ustring list \<Rightarrow> bool" where
  "sed_prints as \<longleftrightarrow>
     (\<exists>ss os. sed_words as ss os \<and> ss @ os \<noteq> [] \<and> (\<forall>s \<in> set ss. prints_lines s)
        \<and> (ss = [] \<longrightarrow> prints_lines (hd os)))"

lemma safe_script_prints: "is_safe_sed_script s \<Longrightarrow> prints_lines s"
proof -
  have "c \<in> set (lit ''0123456789$,pq'')" if "is_ascii_digit c \<or> c \<in> set [44, 36, 112, 113]" for c
  proof -
    have "c \<in> {48, 49, 50, 51, 52, 53, 54, 55, 56, 57, 44, 36, 112, 113}"
      using that unfolding is_ascii_digit_def by simp presburger
    then show ?thesis by (auto simp: lit_def)
  qed
  then show "is_safe_sed_script s \<Longrightarrow> prints_lines s"
    by (auto simp: is_safe_sed_script_def prints_lines_def list_all_iff)
qed

definition sed_found :: "ustring list \<Rightarrow> ustring list \<Rightarrow> ustring list \<Rightarrow> bool" where
  "sed_found out acc as \<longleftrightarrow> set acc \<subseteq> set out
     \<and> (\<exists>ss os. sed_words as ss os \<and> set ss \<subseteq> set out
          \<and> (acc = [] \<and> ss = [] \<longrightarrow> (case os of [] \<Rightarrow> out = [] | s # _ \<Rightarrow> s \<in> set out)))"

lemma sed_found_quiet:
  "sed_found out acc as \<Longrightarrow> a \<in> set (map lit [''-n'', ''--quiet'', ''--silent'']) \<Longrightarrow> sed_found out acc (a # as)"
  unfolding sed_found_def using sed_quiet by blast

lemma sed_found_script:
  assumes "sed_found out (acc @ [s]) as" and "\<And>ss os. sed_words as ss os \<Longrightarrow> sed_words bs (s # ss) os"
  shows "sed_found out acc bs"
proof -
  from assms(1) obtain ss os where "sed_words as ss os" "set ss \<subseteq> set out" "set (acc @ [s]) \<subseteq> set out"
    by (auto simp: sed_found_def)
  with assms(2) show ?thesis unfolding sed_found_def
    by (intro conjI exI [of _ "s # ss"] exI [of _ os]) auto
qed

lemma sed_found_operand:
  assumes "sed_found out acc' as" and "\<not> prefix (lit ''-'') a" and "acc' = acc \<and> acc \<noteq> [] \<or> acc' = [a] \<and> acc = []"
  shows "sed_found out acc (a # as)"
proof -
  from assms(1) obtain ss os where "sed_words as ss os" "set ss \<subseteq> set out" "set acc' \<subseteq> set out"
    by (auto simp: sed_found_def)
  with assms(3) sed_operand [OF assms(2)] show ?thesis unfolding sed_found_def
    by (intro conjI exI [of _ ss] exI [of _ "a # os"]) auto
qed

lemma sed_scripts_words:
  assumes "sed_scripts as acc seen = Some out" and "seen \<longrightarrow> acc \<noteq> []"
  shows "sed_found out acc as"
  using assms
proof (induction as acc seen rule: sed_scripts.induct)
  case (1 scripts implicit_seen)
  then show ?case using sed_end by (force simp: sed_found_def)
next
  case (2 a rest scripts seen)
  note out = "2.prems"(1) and seen = "2.prems"(2)
  show ?case
  proof (cases "a \<in> set (map lit [''-n'', ''--quiet'', ''--silent''])")
    case True
    with out have "sed_scripts rest scripts seen = Some out" by simp
    from sed_found_quiet [OF "2.IH"(1) [OF True this seen] True] show ?thesis .
  next
    case quiet: False
    show ?thesis
    proof (cases "a \<in> set (map lit [''-e'', ''--expression''])")
      case True
      with out quiet obtain s rest1 where rest: "rest = s # rest1"
        "sed_scripts rest1 (scripts @ [s]) seen = Some out" by (cases rest) auto
      then have "sed_found out (scripts @ [s]) rest1" using "2.IH"(2) [OF quiet True rest(1)] by simp
      from sed_found_script [OF this] sed_script [OF True] rest(1) show ?thesis by simp
    next
      case script: False
      show ?thesis
      proof (cases "a = two_dashes")
        case True
        with out quiet script
        have "if scripts = [] then \<exists>s t. rest = s # t \<and> out = [s] else out = scripts"
          by (auto split: if_splits list.splits)
        then show ?thesis using sed_dashes [of rest] True
          by (force simp: lit_dashes sed_found_def split: if_splits)
      next
        case dashes: False
        show ?thesis
        proof (cases "strip_prefix_of (lit ''--expression='') a")
          case (Some s)
          with out quiet script dashes have "sed_scripts rest (scripts @ [s]) seen = Some out" by simp
          then have "sed_found out (scripts @ [s]) rest"
            using "2.IH"(6) [OF quiet script dashes Some] by simp
          from sed_found_script [OF this] Some sed_attached [of "lit ''--expression=''"] show ?thesis
            by (simp add: strip_prefix_of_Some)
        next
          case expression: None
          show ?thesis
          proof (cases "starts_with a (lit ''-e'') \<and> 2 < byte_len a")
            case True
            with out quiet script dashes expression
            have "sed_scripts rest (scripts @ [drop 2 a]) seen = Some out" by simp
            then have "sed_found out (scripts @ [drop 2 a]) rest"
              using "2.IH"(3) [OF quiet script dashes expression True] by simp
            moreover have "a = lit ''-e'' @ drop 2 a"
              using True by (auto simp: starts_with_iff prefix_def)
            ultimately show ?thesis
              using sed_found_script [of out scripts "drop 2 a" rest "a # rest"]
                sed_attached [of "lit ''-e''" rest _ _ "drop 2 a"] by simp
          next
            case attached: False
            with out quiet script dashes expression have word: "\<not> prefix (lit ''-'') a"
              and next_words: "if scripts = [] \<and> \<not> seen then sed_scripts rest [a] True = Some out
                else sed_scripts rest scripts seen = Some out"
              by (auto simp: lit_dashes starts_with_iff split: if_splits)
            then have "\<not> starts_with a dash" by (simp add: lit_dashes starts_with_iff)
            note IH = "2.IH"(4,5) [OF quiet script dashes expression attached this]
            show ?thesis
            proof (cases "scripts = [] \<and> \<not> seen")
              case True
              with next_words IH(1) have "sed_found out [a] rest" by simp
              from sed_found_operand [OF this word] True show ?thesis by simp
            next
              case False
              with next_words IH(2) seen have "sed_found out scripts rest" by simp
              from sed_found_operand [OF this word, of scripts] False seen show ?thesis by blast
            qed
          qed
        qed
      qed
    qed
  qed
qed

lemma safe_sed_prints:
  assumes "is_safe_sed_read as"
  shows "sed_prints as"
proof -
  from assms obtain out where out: "sed_scripts as [] False = Some out" "out \<noteq> []"
    "\<forall>s \<in> set out. prints_lines s"
    using safe_script_prints by (auto simp: is_safe_sed_read_def list_all_iff split: option.splits)
  from sed_scripts_words [OF out(1)] obtain ss os where words: "sed_words as ss os" "set ss \<subseteq> set out"
    "ss = [] \<longrightarrow> (case os of [] \<Rightarrow> out = [] | s # _ \<Rightarrow> s \<in> set out)"
    by (auto simp: sed_found_def)
  then show ?thesis unfolding sed_prints_def using out(2,3)
    by (intro exI [of _ ss] exI [of _ os]) (auto split: list.splits)
qed

text \<open>The format of \<open>printf\<close>: text and directives without a width, a precision or a star.\<close>

definition letter :: "uchar \<Rightarrow> bool" where
  "letter c \<longleftrightarrow> c \<in> {65..90} \<union> {97..122}"

definition ordinary_flag :: "uchar \<Rightarrow> bool" where
  "ordinary_flag c \<longleftrightarrow> \<not> letter c \<and> c \<notin> {48..57} \<and> c \<notin> {37, 42}"

inductive plain_format :: "ustring \<Rightarrow> bool" where
  format_end: "plain_format []"
| format_text: "c \<noteq> 37 \<Longrightarrow> plain_format s \<Longrightarrow> plain_format (c # s)"
| format_directive: "\<forall>f \<in> set flags. ordinary_flag f \<Longrightarrow>
    c = 37 \<or> letter c \<Longrightarrow> plain_format s \<Longrightarrow> plain_format (37 # flags @ c # s)"
| format_unfinished: "\<forall>f \<in> set flags. ordinary_flag f \<Longrightarrow> plain_format (37 # flags)"

lemma format_plain:
  "\<not> format_amplifies False s \<Longrightarrow> plain_format s"
  "\<not> format_amplifies True s \<Longrightarrow> plain_format (37 # s)"
proof -
  have "(\<not> format_amplifies False s \<longrightarrow> plain_format s)
    \<and> (\<not> format_amplifies True s \<longrightarrow>
        (\<exists>flags t. s = flags @ t \<and> (\<forall>f \<in> set flags. ordinary_flag f)
          \<and> (t = [] \<or> (\<exists>c u. t = c # u \<and> (c = 37 \<or> letter c) \<and> plain_format u))))"
  proof (induction s)
    case Nil
    show ?case using format_end by auto
  next
    case (Cons c s)
    have letter: "is_ascii_alphabetic c \<longleftrightarrow> letter c"
      by (auto simp: is_ascii_alphabetic_def letter_def)
    have outside: "plain_format (c # s)" if "\<not> format_amplifies False (c # s)"
    proof (cases "c = 37")
      case True
      with that Cons.IH obtain flags t where "s = flags @ t" "\<forall>f \<in> set flags. ordinary_flag f"
        "t = [] \<or> (\<exists>c u. t = c # u \<and> (c = 37 \<or> letter c) \<and> plain_format u)" by auto
      with True format_directive [of flags] format_unfinished [of flags] show ?thesis by auto
    next
      case False
      with that Cons.IH format_text show ?thesis by simp
    qed
    have directive: "\<exists>flags t. c # s = flags @ t \<and> (\<forall>f \<in> set flags. ordinary_flag f)
        \<and> (t = [] \<or> (\<exists>c u. t = c # u \<and> (c = 37 \<or> letter c) \<and> plain_format u))"
      if in_directive: "\<not> format_amplifies True (c # s)"
    proof (cases "c = 37 \<or> letter c")
      case True
      with in_directive Cons.IH have "plain_format s" by (auto simp: letter split: if_splits)
      with True show ?thesis by (intro exI [of _ "[]"] exI [of _ "c # s"]) auto
    next
      case False
      with in_directive have "\<not> format_amplifies True s" and flag: "ordinary_flag c"
        by (auto simp: letter ordinary_flag_def is_ascii_digit_def split: if_splits)
      with Cons.IH obtain flags t where "s = flags @ t" "\<forall>f \<in> set flags. ordinary_flag f"
        "t = [] \<or> (\<exists>c u. t = c # u \<and> (c = 37 \<or> letter c) \<and> plain_format u)" by auto
      with flag show ?thesis by (intro exI [of _ "c # flags"] exI [of _ t]) auto
    qed
    show ?case using outside directive by blast
  qed
  then show "\<not> format_amplifies False s \<Longrightarrow> plain_format s"
    "\<not> format_amplifies True s \<Longrightarrow> plain_format (37 # s)"
    using format_directive format_unfinished by auto
qed

section \<open>Forms that run without approval\<close>

text \<open>The format of \<open>printf\<close> and what it is applied to.\<close>

definition printf_operands :: "ustring list \<Rightarrow> ustring list" where
  "printf_operands as =
     (case as of a # b # bs \<Rightarrow> if a = lit ''--'' then b # bs else as | _ \<Rightarrow> as)"

definition bounded_printf :: "ustring list \<Rightarrow> bool" where
  "bounded_printf as \<longleftrightarrow>
     (\<forall>a \<in> set (take 1 as). \<not> prefix (lit ''-v'') a)
     \<and> (case printf_operands as of
          [] \<Rightarrow> True
        | f # operands \<Rightarrow> plain_format f \<and> (byte_len f \<le> 1024 \<or> length operands \<le> 1))"

definition without_config :: "ustring list \<Rightarrow> bool" where
  "without_config as \<longleftrightarrow> (\<forall>a \<in> set as. a \<noteq> lit ''--config'' \<and> \<not> prefix (lit ''--config='') a)"

text \<open>
  One rule for each form: git that only names a revision or the branch, cargo that checks, tests or
  reports, searches that read no configuration, run no helper and follow no links, readers
  that follow nothing and load no lists of files, and the builtins of the shell.
\<close>

inductive allowed_form :: "ustring list \<Rightarrow> bool" where
  git_rev_parse_form: "without ''O''
      [''--output'', ''--show-signature'', ''--open-files-in-pager'', ''--ext-diff'', ''--textconv''] as \<Longrightarrow>
    \<forall>a \<in> set as. \<not> sublist (lit ''%G'') a \<Longrightarrow> allowed_form (lit ''git'' # lit ''rev-parse'' # as)"
| git_branch_form: "allowed_form [lit ''git'', lit ''branch'', lit ''--show-current'']"
| cargo_check_form: "a \<in> set (map lit [''check'', ''test'', ''metadata'']) \<Longrightarrow> without_config as \<Longrightarrow>
    allowed_form (lit ''cargo'' # a # as)"
| cargo_clippy_form: "without_config as \<Longrightarrow> lit ''--fix'' \<notin> set as \<Longrightarrow>
    allowed_form (lit ''cargo'' # lit ''clippy'' # as)"
| cargo_fmt_form: "without_config as \<Longrightarrow> lit ''--check'' \<in> set as \<Longrightarrow>
    allowed_form (lit ''cargo'' # lit ''fmt'' # as)"
| rg_form: "without ''zL'' [''--pre'', ''--search-zip'', ''--follow''] as \<Longrightarrow>
    allowed_form (lit ''rg'' # lit ''--no-config'' # as)"
| grep_form: "without ''R'' [''--dereference-recursive''] as \<Longrightarrow> allowed_form (lit ''grep'' # as)"
| ls_form: "without ''L'' [''--dereference''] as \<Longrightarrow> allowed_form (lit ''ls'' # as)"
| reader_form: "p \<in> set (map lit [''cat'', ''head'', ''stat'']) \<Longrightarrow> allowed_form (p # as)"
| tail_form: "without ''fF'' [''--follow'', ''--retry'', ''--pid''] as \<Longrightarrow> allowed_form (lit ''tail'' # as)"
| wc_form: "without [] [''--files0-from''] as \<Longrightarrow> allowed_form (lit ''wc'' # as)"
| file_form: "without ''zZCf'' [''--uncompress'', ''--uncompress-noreport'', ''--compile'', ''--files-from''] as \<Longrightarrow>
    allowed_form (lit ''file'' # as)"
| find_form: "\<forall>a \<in> set as. a \<notin> set (map lit [''-delete'', ''-exec'', ''-execdir'', ''-ok'', ''-okdir'', ''-fprint'',
       ''-fprint0'', ''-fprintf'', ''-fls'', ''-L'', ''-follow'']) \<and> \<not> prefix (lit ''-files0-from'') a \<Longrightarrow>
    allowed_form (lit ''find'' # as)"
| sed_form: "sed_prints as \<Longrightarrow> \<forall>a \<in> set as. \<not> prefix (lit ''-i'') a \<and> \<not> names_long ''--in-place'' a \<Longrightarrow>
    allowed_form (lit ''sed'' # as)"
| pwd_form: "allowed_form [lit ''pwd'']"
| command_v_form: "allowed_form [lit ''command'', lit ''-v'', a]"
| printf_form: "bounded_printf as \<Longrightarrow> allowed_form (lit ''printf'' # as)"
| builtin_form: "p \<in> set (map lit [''echo'', ''true'', ''false'']) \<Longrightarrow> allowed_form (p # as)"

lemma without_iff:
  assumes "\<forall>full \<in> set longs. long_option full"
  shows "without flags longs as \<longleftrightarrow>
    \<not> list_ex (\<lambda>a. (\<exists>c \<in> set (lit flags). short_option_cluster_contains a c)
       \<or> (\<exists>full \<in> set longs. long_option_matches_or_abbreviates a (lit full))) as"
  using assms by (auto simp: without_def has_flag_iff names_long_iff list_ex_iff)

lemma contains_sublist: "contains_str p s \<longleftrightarrow> sublist p s"
proof (induction s)
  case (Cons c s)
  then show ?case by (auto simp: starts_with_iff sublist_Cons_right)
qed auto

lemma printf_bounded:
  assumes "\<not> changes_shell_variable as" and "\<not> printf_format_may_amplify_output as"
  shows "bounded_printf as"
proof -
  have "\<not> prefix (lit ''-v'') a" if "a \<in> set (take 1 as)" for a
  proof
    assume p: "prefix (lit ''-v'') a"
    then obtain rest where "a = lit ''-v'' @ rest" by (auto simp: prefix_def)
    with that assms(1) show False
      by (cases as; cases rest)
        (auto simp: changes_shell_variable_def starts_with_iff lit_def len_utf8_def split: if_splits)
  qed
  moreover have "case printf_operands as of [] \<Rightarrow> True
      | f # operands \<Rightarrow> plain_format f \<and> (byte_len f \<le> 1024 \<or> length operands \<le> 1)"
    using assms(2) format_plain(1)
    by (cases as rule: printf_format_may_amplify_output.cases)
      (auto simp: printf_operands_def lit_dashes amplifies_def MAX_LOW_RISK_PRINTF_FORMAT_BYTES_def
        split: if_splits)
  ultimately show ?thesis by (simp add: bounded_printf_def)
qed

section \<open>What the policy allows has such a form\<close>

lemma passed_check: "(if c then requires_approval r else d) = PolicyAllow \<longleftrightarrow> \<not> c \<and> d = PolicyAllow"
  by (simp add: requires_approval_def)

lemma after_path_probes_Allow:
  assumes "after_path_probes p as = PolicyAllow"
  shows "low_risk_form (p # as)" and "\<not> known_filesystem_mutator p as" and "\<not> may_follow_outside p as"
    and "p = lit ''cargo'' \<Longrightarrow> first_is as [''clippy''] \<Longrightarrow> lit ''--fix'' \<notin> set (drop 1 as)"
    and "p = lit ''cargo'' \<Longrightarrow> without_config as"
    and "p = lit ''file'' \<Longrightarrow> \<not> list_ex is_file_compile_option as"
    and "p = lit ''rg'' \<Longrightarrow> without ''z'' [''--pre'', ''--search-zip''] as"
    and "p = lit ''rg'' \<Longrightarrow> first_is as [''--no-config'']"
    and "p = lit ''tail'' \<Longrightarrow> \<not> monitors_file as"
    and "p = lit ''printf'' \<Longrightarrow> bounded_printf as"
    and "p = lit ''find'' \<Longrightarrow> \<not> find_may_mutate_or_execute as"
    and "p = lit ''sed'' \<Longrightarrow> sed_prints as"
proof -
  note allow = assms [unfolded after_path_probes_def passed_check]
  show "low_risk_form (p # as)"
    using allow by (simp add: requires_approval_def split: if_splits)
  show "\<not> known_filesystem_mutator p as" "\<not> may_follow_outside p as"
    using allow by blast+
  show "p = lit ''cargo'' \<Longrightarrow> first_is as [''clippy''] \<Longrightarrow> lit ''--fix'' \<notin> set (drop 1 as)"
    "p = lit ''file'' \<Longrightarrow> \<not> list_ex is_file_compile_option as"
    "p = lit ''rg'' \<Longrightarrow> first_is as [''--no-config'']" "p = lit ''tail'' \<Longrightarrow> \<not> monitors_file as"
    "p = lit ''find'' \<Longrightarrow> \<not> find_may_mutate_or_execute as"
    using allow by blast+
  have "\<not> (p = lit ''cargo'' \<and> list_ex (\<lambda>a. a = lit ''--config'' \<or> starts_with a (lit ''--config='')) as)"
    using allow by blast
  then show "p = lit ''cargo'' \<Longrightarrow> without_config as"
    by (auto simp: without_config_def list_ex_iff starts_with_iff)
  have "\<not> (p = lit ''rg'' \<and> list_ex (\<lambda>a. long_option_matches_or_abbreviates a (lit ''--pre'')
      \<or> long_option_matches_or_abbreviates a (lit ''--search-zip'') \<or> short_option_cluster_contains a 122) as)"
    using allow by blast
  then show "p = lit ''rg'' \<Longrightarrow> without ''z'' [''--pre'', ''--search-zip''] as"
    by (auto simp: without_iff long_option_def list_ex_iff lit_def [of "''z''"])
  show "p = lit ''printf'' \<Longrightarrow> bounded_printf as" using allow printf_bounded by blast
  show "p = lit ''sed'' \<Longrightarrow> sed_prints as" using allow safe_sed_prints by blast
qed

lemma first_is_Cons: "first_is as names \<longleftrightarrow> (\<exists>a bs. as = a # bs \<and> a \<in> set (map lit names))"
  by (cases as) (auto simp: first_is_def)

lemma without_join:
  "without flags longs as \<Longrightarrow> without flags' longs' as \<Longrightarrow> set flags'' \<subseteq> set flags \<union> set flags'
     \<Longrightarrow> set longs'' \<subseteq> set longs \<union> set longs' \<Longrightarrow> without flags'' longs'' as"
  by (fastforce simp: without_def has_flag_iff lit_def)

lemma without_Cons: "without flags longs (a # as) \<Longrightarrow> without flags longs as"
  by (simp add: without_def)

lemma allowed_external:
  assumes before: "before_path_probes p as = None" and after: "after_path_probes p as = PolicyAllow"
    and low: "is_low_risk_external_command (p # as)"
  shows "allowed_form (p # as)"
proof -
  note allow = after_path_probes_Allow [OF after]
  have "p \<in> set LOW_RISK_EXTERNAL_PROGRAMS" using low by (auto simp: is_low_risk_external_command_def split: if_splits)
  then consider "p = lit ''git''" | "p = lit ''cargo''" | "p = lit ''rg''" | "p = lit ''ls''" | "p = lit ''grep''"
    | "p \<in> set (map lit [''cat'', ''head'', ''stat''])" | "p = lit ''tail''" | "p = lit ''wc''"
    | "p = lit ''file''" | "p = lit ''find''" | "p = lit ''sed''"
    by (auto simp: LOW_RISK_EXTERNAL_PROGRAMS_def)
  then show ?thesis
  proof cases
    case 1
    have "as = [lit ''branch'', lit ''--show-current''] \<or> (\<exists>bs. as = lit ''rev-parse'' # bs)"
      using low 1 by (auto simp: is_low_risk_external_command_def first_is_Cons split: if_splits)
    then show ?thesis
    proof
      assume "\<exists>bs. as = lit ''rev-parse'' # bs"
      then obtain bs where as: "as = lit ''rev-parse'' # bs" by blast
      have options: "without ''O''
          [''--output'', ''--show-signature'', ''--open-files-in-pager'', ''--ext-diff'', ''--textconv''] as"
        using before 1 by (auto simp: before_path_probes_def git_may_use_signature_verification_def
            without_iff long_option_def list_ex_iff lit_def [of "''O''"] split: if_splits)
      moreover have "\<not> sublist (lit ''%G'') a" if "a \<in> set as" for a
        using before 1 that by (auto simp: before_path_probes_def git_may_use_signature_verification_def
            list_ex_iff contains_sublist lit_def [of "''%G''"] split: if_splits)
      ultimately show ?thesis using git_rev_parse_form without_Cons 1 as by auto
    qed (simp add: 1 git_branch_form)
  next
    case 2
    have "first_is as [''check'', ''test'', ''clippy'', ''metadata'']
        \<or> first_is as [''fmt''] \<and> lit ''--check'' \<in> set (drop 1 as)"
      using low 2 by (auto simp: is_low_risk_external_command_def split: if_splits)
    then show ?thesis
      using 2 allow(4,5) cargo_check_form cargo_clippy_form cargo_fmt_form
      by (auto simp: first_is_Cons without_config_def)
  next
    case 3
    have "without ''L'' [''--follow''] as"
      using allow(3) 3 by (auto simp: may_follow_outside_def without_iff long_option_def list_ex_iff lit_def [of "''L''"])
    with allow(7) [OF 3] have "without ''zL'' [''--pre'', ''--search-zip'', ''--follow''] as"
      by (rule without_join) auto
    then show ?thesis
      using allow(8) [OF 3] rg_form 3 without_Cons by (auto simp: first_is_Cons)
  next
    case 4
    have "without ''L'' [''--dereference''] as"
      using allow(3) 4 by (auto simp: may_follow_outside_def without_iff long_option_def list_ex_iff lit_def [of "''L''"])
    then show ?thesis using ls_form 4 by simp
  next
    case 5
    have "without ''R'' [''--dereference-recursive''] as"
      using allow(3) 5 by (auto simp: may_follow_outside_def without_iff long_option_def list_ex_iff lit_def [of "''R''"])
    then show ?thesis using grep_form 5 by simp
  next
    case 6
    then show ?thesis by (rule reader_form)
  next
    case 7
    have "without ''fF'' [''--follow'', ''--retry'', ''--pid''] as"
      using allow(9) 7 by (auto simp: monitors_file_def without_iff long_option_def list_ex_iff lit_def [of "''fF''"])
    then show ?thesis using tail_form 7 by simp
  next
    case 8
    have "without [] [''--files0-from''] as"
      using allow(3) 8 by (auto simp: may_follow_outside_def without_iff long_option_def list_ex_iff)
    then show ?thesis using wc_form 8 by simp
  next
    case 9
    have "without ''zZ'' [''--uncompress'', ''--uncompress-noreport''] as"
      using before 9 by (auto simp: before_path_probes_def file_may_execute_uncompress_helper_def
          without_iff long_option_def list_ex_iff lit_def [of "''zZ''"] split: if_splits)
    moreover have "without ''Cf'' [''--compile'', ''--files-from''] as"
      using allow(3) allow(6) [OF 9] 9 by (auto simp: may_follow_outside_def is_file_compile_option_def
          without_iff long_option_def list_ex_iff lit_def [of "''Cf''"])
    ultimately have "without ''zZCf'' [''--uncompress'', ''--uncompress-noreport'', ''--compile'', ''--files-from''] as"
      by (rule without_join) auto
    then show ?thesis using file_form 9 by simp
  next
    case 10
    have "\<forall>a \<in> set as. a \<notin> set (map lit [''-delete'', ''-exec'', ''-execdir'', ''-ok'', ''-okdir'', ''-fprint'',
       ''-fprint0'', ''-fprintf'', ''-fls'', ''-L'', ''-follow'']) \<and> \<not> prefix (lit ''-files0-from'') a"
      using allow(3) allow(11) [OF 10] 10
      by (auto simp: may_follow_outside_def find_may_mutate_or_execute_def list_ex_iff starts_with_iff)
    then show ?thesis using find_form 10 by simp
  next
    case 11
    have name: "program_basename (lit ''sed'') = lit ''sed''" by code_simp
    have "\<forall>a \<in> set as. \<not> prefix (lit ''-i'') a \<and> \<not> names_long ''--in-place'' a"
      using allow(2) 11 by (auto simp: known_filesystem_mutator_def name list_ex_iff starts_with_iff
          names_long_iff long_option_def)
    with sed_form [OF allow(12) [OF 11]] show ?thesis using 11 by simp
  qed
qed

lemma allowed_has_form:
  assumes before: "before_path_probes p as = None" and after: "after_path_probes p as = PolicyAllow"
  shows "allowed_form (p # as)"
proof -
  note allow = after_path_probes_Allow [OF after]
  from allow(1) consider "is_low_risk_external_command (p # as)" | "p # as = [lit ''pwd'']"
    | a where "p # as = [lit ''command'', lit ''-v'', a]" | "p = lit ''printf''"
    | "p \<in> set (map lit [''echo'', ''true'', ''false''])"
    by (auto simp: low_risk_form_def first_is_Cons split: list.splits)
  then show ?thesis
    using allowed_external [OF assms] allow(10) pwd_form command_v_form printf_form builtin_form
    by cases auto
qed

end
