(* ===== verification/Shell_Quoting.thy ===== *)
theory Shell_Quoting
  imports Shell_Parser
begin

text \<open>
  The scan against the shell's own quoting: commands written with every word in single quotes are
  read back exactly, whatever characters the words contain.
\<close>

section \<open>Writing commands\<close>

fun quote_body :: "ustring \<Rightarrow> ustring" where
  "quote_body [] = [39]"
| "quote_body (c # w) = (if c = 39 then [39, 92, 39, 39] else [c]) @ quote_body w"

definition shell_quote :: "ustring \<Rightarrow> ustring" where
  "shell_quote w = 39 # quote_body w"

fun join_with :: "uchar \<Rightarrow> ustring list \<Rightarrow> ustring" where
  "join_with d [] = []"
| "join_with d [x] = x"
| "join_with d (x # y # ys) = x @ d # join_with d (y # ys)"

definition words_source :: "ustring list \<Rightarrow> ustring" where
  "words_source ws = join_with 32 (map shell_quote ws)"

definition shell_source :: "ustring list list \<Rightarrow> ustring" where
  "shell_source cs = join_with 59 (map words_source cs)"

section \<open>Reading them back\<close>

definition word_total :: "ustring list list \<Rightarrow> ustring list \<Rightarrow> nat" where
  "word_total cs ws = sum_list (map length cs) + length ws"

text \<open>A scan that has seen only words and separators.\<close>

definition plain_scan :: "ustring list list \<Rightarrow> ustring list \<Rightarrow> ustring option \<Rightarrow> shell_scan" where
  "plain_scan cs ws pending = \<lparr>commands = cs, has_background = False, has_redirection = False,
     has_dynamic_expansion = False, has_pathname_expansion = False, has_comment = False,
     has_unclassified_syntax = False, sc_words = ws, sc_word_count = word_total cs ws,
     sc_word = (case pending of Some w \<Rightarrow> w | None \<Rightarrow> []), sc_started = (pending \<noteq> None),
     sc_quote = NoQuote, sc_requires = False\<rparr>"

definition plain_parse :: "ustring list list \<Rightarrow> parsed_shell_command" where
  "plain_parse cs = \<lparr>commands = cs, has_background = False, has_redirection = False,
     has_dynamic_expansion = False, has_pathname_expansion = False, has_comment = False,
     has_unclassified_syntax = False\<rparr>"

lemma init_plain: "init_scan = plain_scan [] [] None"
  by (simp add: init_scan_def plain_scan_def word_total_def)

lemma scan_quote_body:
  "sc_quote st = SingleQuote \<Longrightarrow> scan st (quote_body w @ rest) =
     scan (st\<lparr>sc_quote := NoQuote, sc_word := sc_word st @ w, sc_started := True\<rparr>) rest"
proof (induction w arbitrary: st)
  case Nil
  then show ?case by (simp add: scan_char_def scan_single_def)
next
  case (Cons c w)
  then show ?case
    by (cases "c = 39")
      (simp_all add: scan_char_def scan_single_def scan_plain_def push_char_def)
qed

lemma scan_shell_quote:
  "scan (plain_scan cs ws None) (shell_quote w @ rest) = scan (plain_scan cs ws (Some w)) rest"
  by (simp add: shell_quote_def scan_char_def scan_plain_def plain_scan_def scan_quote_body)

lemma scan_blank:
  "word_total cs ws < MAX_POLICY_WORDS \<Longrightarrow>
     scan (plain_scan cs ws (Some w)) (32 # rest) = scan (plain_scan cs (ws @ [w]) None) rest"
  by (simp add: scan_char_def scan_plain_def plain_scan_def push_word_def word_total_def)

lemma scan_words:
  "word_total cs ws + length vs < MAX_POLICY_WORDS \<Longrightarrow>
     scan (plain_scan cs ws None) (words_source (vs @ [w]) @ rest)
       = scan (plain_scan cs (ws @ vs) (Some w)) rest"
proof (induction vs arbitrary: ws)
  case Nil
  show ?case by (simp add: words_source_def scan_shell_quote)
next
  case (Cons v vs)
  have "words_source ((v # vs) @ [w]) = shell_quote v @ 32 # words_source (vs @ [w])"
    by (cases vs) (simp_all add: words_source_def)
  with Cons show ?case by (simp add: scan_shell_quote scan_blank word_total_def del: scan.simps)
qed

lemma scan_semicolon:
  "word_total cs ws < MAX_POLICY_WORDS \<Longrightarrow> length cs < MAX_SIMPLE_COMMANDS \<Longrightarrow>
     scan (plain_scan cs ws (Some w)) (59 # rest) = scan (plain_scan (cs @ [ws @ [w]]) [] None) rest"
  by (simp add: scan_char_def scan_plain_def plain_scan_def push_word_def push_command_def
      word_total_def)

lemma finish_plain:
  "word_total cs ws < MAX_POLICY_WORDS \<Longrightarrow> length cs < MAX_SIMPLE_COMMANDS \<Longrightarrow>
     finish_scan (plain_scan cs ws (Some w)) = Inr (plain_parse (cs @ [ws @ [w]]))"
  by (simp add: finish_scan_def end_line_def plain_scan_def push_word_def push_command_def
      parsed_of_def plain_parse_def)

lemma scan_source:
  assumes "ds \<noteq> []" and "list_all (\<lambda>ws. ws \<noteq> []) ds"
    and "length cs + length ds \<le> MAX_SIMPLE_COMMANDS"
    and "word_total cs [] + sum_list (map length ds) \<le> MAX_POLICY_WORDS"
  shows "try_res (scan (plain_scan cs [] None) (shell_source ds)) finish_scan
    = Inr (plain_parse (cs @ ds))"
  using assms
proof (induction ds arbitrary: cs)
  case (Cons d ds)
  from Cons.prems obtain vs w where d: "d = vs @ [w]" by (cases d rule: rev_cases) auto
  have fits: "word_total cs [] + length vs < MAX_POLICY_WORDS" "word_total cs vs < MAX_POLICY_WORDS"
    using Cons.prems d by (simp_all add: word_total_def)
  show ?case
  proof (cases ds)
    case Nil
    then show ?thesis
      using scan_words [of cs "[]" vs w "[]"] fits Cons.prems finish_plain [of cs vs w]
      by (simp add: shell_source_def d)
  next
    case (Cons e es)
    then have "shell_source (d # ds) = words_source d @ 59 # shell_source ds"
      by (simp add: shell_source_def)
    with Cons.IH [of "cs @ [d]"] Cons.prems fits Cons scan_words [of cs "[]" vs w]
    show ?thesis by (simp add: d scan_semicolon word_total_def del: scan.simps)
  qed
qed simp

text \<open>
  C36. Quoting is safe from the policy's scan: a command line whose words are in single quotes, with
  blanks between the words and semicolons between the commands, parses to exactly those words,
  with nothing seen as an expansion, a redirection, a comment or a background process, as long as
  it has at most 32 commands and 256 words.
\<close>
theorem quoted_commands_parse_back:
  assumes "cs \<noteq> []" and "list_all (\<lambda>ws. ws \<noteq> []) cs"
    and "length cs \<le> 32" and "sum_list (map length cs) \<le> 256"
  shows "parse_shell (shell_source cs) = Inr (plain_parse cs)"
  using scan_source [of cs "[]"] assms
  by (simp add: parse_shell_def init_plain word_total_def MAX_SIMPLE_COMMANDS_def MAX_POLICY_WORDS_def)

theorem quoted_commands_parse_back_witness:
  "parse_shell (shell_source [[lit ''echo'', lit ''$(rm -rf ~); it's''], [lit ''pwd'']])
     = Inr (plain_parse [[lit ''echo'', lit ''$(rm -rf ~); it's''], [lit ''pwd'']])"
  by (rule quoted_commands_parse_back) simp_all

text \<open>
  The scan is bounded: a command line that parses has between one and 32 commands, none of them
  empty, and at most 256 words, and quoting these commands gives a line that parses to the same
  commands.
\<close>
theorem parsed_commands_bounded:
  assumes "parse_shell s = Inr c"
  shows "0 < length (commands c) \<and> length (commands c) \<le> 32
    \<and> list_all (\<lambda>ws. ws \<noteq> []) (commands c) \<and> sum_list (map length (commands c)) \<le> 256
    \<and> parse_shell (shell_source (commands c)) = Inr (plain_parse (commands c))"
  using parse_shell_Inr [OF assms] scan_source [of "commands c" "[]"]
  by (simp add: parse_shell_def init_plain word_total_def MAX_SIMPLE_COMMANDS_def MAX_POLICY_WORDS_def)

theorem parsed_commands_bounded_witness:
  "parse_shell (shell_source [[[108, 115]]]) = Inr (plain_parse [[[108, 115]]])"
proof -
  have "parse_shell [108, 115] = Inr (plain_parse [[[108, 115]]])"
    by (simp add: parse_shell_def scan_char_def scan_plain_def init_scan_def push_char_def
        finish_scan_def end_line_def push_word_def push_command_def parsed_of_def plain_parse_def
        MAX_SIMPLE_COMMANDS_def MAX_POLICY_WORDS_def)
  from parsed_commands_bounded [OF this] show ?thesis by (simp add: plain_parse_def)
qed

end
