(* ===== verification/Command_Policy_Safety.thy ===== *)
theory Command_Policy_Safety
  imports Allowed_Commands Shell_Quoting
begin

text \<open>
  What the approval policy of \<open>run_command\<close> guarantees: which command lines run without being
  asked for, which can never be approved, and that every reason it gives can be shown.
\<close>

section \<open>What is allowed\<close>

definition unsuspicious :: "ustring list \<Rightarrow> bool" where
  "unsuspicious ws \<longleftrightarrow>
     (case unwrap_transparent_command_wrappers ws of
        Inl _ \<Rightarrow> False
      | Inr [] \<Rightarrow> True
      | Inr (program # arguments) \<Rightarrow>
          \<not> privilege_elevating program \<and> \<not> command_mutates_filesystem_root program arguments)"

lemma policy_decision_distinct [simp]:
  "requires_approval r \<noteq> PolicyAllow" "reject r \<noteq> PolicyAllow"
  "PolicyAllow \<noteq> requires_approval r" "PolicyAllow \<noteq> reject r"
  by (simp_all add: requires_approval_def reject_def)

lemma first_is_simps [simp]:
  "first_is [] names = False" "first_is (a # as) names \<longleftrightarrow> a \<in> set (map lit names)"
  by (simp_all add: first_is_def)

lemma probe_paths_cache: "cache_ok W b \<Longrightarrow> probe_paths W ps b = (c, b') \<Longrightarrow> cache_ok W b'"
  using probe_paths_ok by blast

lemma option_paths_ok:
  assumes "cache_ok W b" and "classify_path_bearing_options W p as b = (c, b1)"
  shows "cache_ok W b1"
    and "c = WithinWorkspace \<Longrightarrow> p = lit ''rg'' \<or> p = lit ''grep'' \<Longrightarrow>
      list_all (stays_inside W) (option_paths [102] (lit ''--file'') False as)"
    and "c = WithinWorkspace \<Longrightarrow> p = lit ''file'' \<Longrightarrow>
      list_all (stays_inside W) (option_paths [109, 77] (lit ''--magic-file'') True as)"
  using assms(2) probe_paths_ok [OF assms(1)] assms(1)
  by (auto simp: classify_path_bearing_options_def classify_option_paths_def split: if_splits)

lemma classify_simple_allowed:
  assumes "cache_ok W b" and "classify_simple_command W ws b = (d, b')"
  shows "cache_ok W b'" and "d = PolicyAllow \<Longrightarrow> allowed_form ws \<and> paths_inside W ws"
proof -
  show "cache_ok W b'"
    using assms
    by (auto simp: classify_simple_command_def classify_argument_paths_def Let_def
        split: list.splits option.splits prod.splits dest: option_paths_ok(1) probe_paths_cache)
  assume d: "d = PolicyAllow"
  with assms(2) obtain p as where ws: "ws = p # as" by (cases ws) (auto simp: classify_simple_command_def)
  obtain c1 b1 where c1: "classify_path_bearing_options W p as b = (c1, b1)" by fastforce
  obtain c2 b2 where c2: "classify_argument_paths W as b1 = (c2, b2)" by fastforce
  have before: "before_path_probes p as \<noteq> Some PolicyAllow" by (simp add: before_path_probes_def)
  have probe: "probe_decision c \<noteq> Some PolicyAllow" for c
    by (cases c) (simp_all add: probe_decision_def)
  have "before_path_probes p as = None" and "after_path_probes p as = PolicyAllow"
    and within: "c1 = WithinWorkspace" "c2 = WithinWorkspace"
    using assms(2) d before probe [of c1] probe [of c2]
    by (auto simp: classify_simple_command_def ws c1 c2 probe_decision_def
        split: option.splits path_classification.splits)
  then have "allowed_form ws" unfolding ws by (intro allowed_has_form)
  moreover have "list_all (stays_inside W) (argument_paths False as)"
    using probe_paths_ok [OF option_paths_ok(1) [OF assms(1) c1]] c2 within(2)
    by (simp add: classify_argument_paths_def)
  then have "paths_inside W ws"
    using path_words_probed [of ws _ W] option_paths_ok(2,3) [OF assms(1) c1 within(1)]
    unfolding paths_inside_def by (auto simp: ws)
  ultimately show "allowed_form ws \<and> paths_inside W ws" by blast
qed

lemma classify_simple_commands_allowed:
  assumes "cache_ok W b" and "classify_simple_commands W cs b = (PolicyAllow, b')"
  shows "list_all (\<lambda>ws. allowed_form ws \<and> paths_inside W ws) cs"
  using assms
proof (induction cs arbitrary: b)
  case (Cons ws cs)
  obtain d b1 where d: "classify_simple_command W ws b = (d, b1)" by fastforce
  note ok = classify_simple_allowed [OF Cons.prems(1) d]
  show ?case using Cons.IH [OF ok(1)] ok(2) Cons.prems(2) d by (cases d) auto
qed simp

lemma hard_rejection_None:
  assumes "cache_ok W b" and "classify_hard_rejection W ws b = (r, b')"
  shows "cache_ok W b'" and "r = None \<Longrightarrow> unsuspicious ws"
  using assms
  by (auto simp: classify_hard_rejection_def unsuspicious_def classify_working_directory_def Let_def
      split: sum.splits list.splits if_splits prod.splits dest: probe_path_ok(1))

lemma first_hard_rejection_None:
  assumes "cache_ok W b" and "first_hard_rejection W cs b = (None, b')"
  shows "cache_ok W b' \<and> list_all unsuspicious cs"
  using assms
proof (induction cs arbitrary: b)
  case (Cons ws cs)
  obtain r b1 where r: "classify_hard_rejection W ws b = (r, b1)" by fastforce
  note ok = hard_rejection_None [OF Cons.prems(1) r]
  show ?case using Cons.IH [OF ok(1)] ok(2) Cons.prems(2) r by (cases r) auto
qed simp

lemma hard_rejection_not_allow: "first_hard_rejection W cs b \<noteq> (Some PolicyAllow, b')"
proof (induction cs arbitrary: b)
  case (Cons ws cs)
  have "classify_hard_rejection W ws b \<noteq> (Some PolicyAllow, b1)" for b1
    by (auto simp: classify_hard_rejection_def classify_working_directory_def Let_def split_beta
        split: sum.split list.split path_classification.split)
  with Cons show ?case by (auto split: prod.split option.split)
qed simp

lemma classify_syntax_not_allow: "classify_syntax c \<noteq> Some PolicyAllow"
  by (simp add: classify_syntax_def)

lemma classify_parsed_Allow:
  assumes "classify_parsed W c = PolicyAllow"
  shows "classify_syntax c = None" and "list_all unsuspicious (commands c)"
    and "list_all (\<lambda>ws. allowed_form ws \<and> paths_inside W ws) (commands c)"
proof -
  obtain r b where r: "first_hard_rejection W (commands c) default_budget = (r, b)" by fastforce
  with assms hard_rejection_not_allow have "r = None"
    by (auto simp: classify_parsed_def split: option.splits)
  with r first_hard_rejection_None [OF cache_ok_default] have
    ok: "cache_ok W b" and "list_all unsuspicious (commands c)" by blast+
  then show "list_all unsuspicious (commands c)" by blast
  show syn: "classify_syntax c = None"
    using assms r \<open>r = None\<close> classify_syntax_not_allow [of c]
    by (auto simp: classify_parsed_def split: option.splits)
  obtain d b' where d: "classify_simple_commands W (commands c) b = (d, b')" by fastforce
  with assms r \<open>r = None\<close> syn have "d = PolicyAllow" by (simp add: classify_parsed_def)
  with classify_simple_commands_allowed [OF ok] d
  show "list_all (\<lambda>ws. allowed_form ws \<and> paths_inside W ws) (commands c)" by blast
qed

lemma no_syntax_decision_plain: "classify_syntax c = None \<Longrightarrow> c = plain_parse (commands c)"
  by (cases c) (simp add: classify_syntax_def plain_parse_def split: if_splits)

text \<open>
  C9. A command line that runs without approval is low-risk in every part: it parses with no
  background process, redirection, expansion or comment; each of its simple commands has one of the
  forms \<open>allowed_form\<close> lists (for every program, which subcommands it may have and which options it
  may not), elevates no privilege and mutates nothing at the filesystem root, also behind wrappers;
  and each of its words that \<open>path_word\<close> counts as a path (operands, values of long options, what
  follows a double dash, pattern files of a search, magic files) stays, through the symbolic links of
  the file system, inside the workspace.
\<close>
theorem allowed_commands_are_low_risk:
  assumes "classify_command W s = PolicyAllow"
  shows "\<exists>cs. parse_shell s = Inr (plain_parse cs) \<and> cs \<noteq> []
    \<and> list_all (\<lambda>ws. allowed_form ws \<and> unsuspicious ws \<and> paths_inside W ws) cs"
proof -
  from assms obtain c where c: "parse_shell s = Inr c" "classify_parsed W c = PolicyAllow"
    by (auto simp: classify_command_def classify_validated_def
        split: sum.splits shell_parse_error.splits)
  note allow = classify_parsed_Allow [OF c(2)]
  from no_syntax_decision_plain [OF allow(1)] c(1) have "parse_shell s = Inr (plain_parse (commands c))"
    by simp
  with parse_shell_Inr(1) [OF c(1)] allow(2,3) show ?thesis
    by (auto simp: list_all_iff)
qed

definition empty_workspace :: workspace_fs where
  "empty_workspace = \<lparr>ws_root = [RootDir, NormalComp [119]], ws_lstat = (\<lambda>_. LstatMissing),
     ws_canonicalize = (\<lambda>_. None)\<rparr>"

definition sample_line :: ustring where
  "sample_line = lit ''grep -f p x | rg --no-config -i y src''"

lemma sample_allowed: "classify_validated empty_workspace sample_line = PolicyAllow"
  by code_simp

lemma sample_parsed:
  "parse_shell sample_line = Inr (plain_parse
     [[lit ''grep'', lit ''-f'', lit ''p'', lit ''x''],
      [lit ''rg'', lit ''--no-config'', lit ''-i'', lit ''y'', lit ''src'']])"
  by code_simp

text \<open>A search whose pattern file is a path of the workspace, and one that reads no configuration.\<close>

theorem allowed_commands_are_low_risk_witness:
  "allowed_form [lit ''rg'', lit ''--no-config'', lit ''-i'', lit ''y'', lit ''src'']
    \<and> stays_inside empty_workspace (lit ''p'')"
proof -
  have "validate_run_command_text sample_line = Inr ()"
    by (simp add: sample_line_def validate_run_command_text_def MAX_COMMAND_BYTES_def is_blank_iff
        lit_def is_whitespace_def len_utf8_def)
  then have "classify_command empty_workspace sample_line = PolicyAllow"
    using sample_allowed by (simp add: classify_command_def)
  from allowed_commands_are_low_risk [OF this] sample_parsed
  have "allowed_form [lit ''rg'', lit ''--no-config'', lit ''-i'', lit ''y'', lit ''src'']"
    and "paths_inside empty_workspace [lit ''grep'', lit ''-f'', lit ''p'', lit ''x'']"
    by (auto simp: plain_parse_def)
  moreover have "option_argument ''f'' ''--file'' (lit ''-f'') [lit ''p'', lit ''x''] (lit ''p'')"
    using short_next [of 102 "''f''" "''--file''" "lit ''p''"] by (simp add: lit_def)
  then have "path_word [lit ''grep'', lit ''-f'', lit ''p'', lit ''x''] (lit ''p'')"
    using pattern_file [of "lit ''grep''" _ _ _ "[]"] by fastforce
  ultimately show ?thesis unfolding paths_inside_def by blast
qed

section \<open>What is never run\<close>

definition hard_rejected :: "ustring list \<Rightarrow> bool" where
  "hard_rejected ws \<longleftrightarrow> \<not> unsuspicious ws"

definition changes_directory :: "ustring list \<Rightarrow> bool" where
  "changes_directory ws \<longleftrightarrow>
     (case unwrap_transparent_command_wrappers ws of
        Inr (program # _) \<Rightarrow> program = lit ''cd''
      | _ \<Rightarrow> False)"

lemma hard_rejection_reject:
  assumes "hard_rejected ws"
  shows "\<exists>r. classify_hard_rejection W ws b = (Some (PolicyReject r), b)"
  using assms
  by (auto simp: hard_rejected_def unsuspicious_def classify_hard_rejection_def reject_def
      split: sum.splits list.splits)

lemma no_hard_rejection:
  assumes "\<not> hard_rejected ws" "\<not> changes_directory ws"
  shows "classify_hard_rejection W ws b = (None, b)"
  using assms
  by (auto simp: hard_rejected_def unsuspicious_def classify_hard_rejection_def changes_directory_def
      split: sum.splits list.splits)

lemma first_hard_rejection_reject:
  assumes "ws \<in> set cs" "hard_rejected ws" and "list_all (\<lambda>vs. \<not> changes_directory vs) cs"
  shows "\<exists>r. first_hard_rejection W cs b = (Some (PolicyReject r), b)"
  using assms
proof (induction cs)
  case (Cons vs cs)
  show ?case
  proof (cases "hard_rejected vs")
    case True
    from hard_rejection_reject [OF this, of W b] show ?thesis by auto
  next
    case False
    with Cons no_hard_rejection [OF False, of W b] show ?thesis by auto
  qed
qed simp

text \<open>
  C10. Privilege elevation and writes to the filesystem root cannot be approved: a command line with
  such a command anywhere, also behind \<open>command\<close>, \<open>exec\<close> or \<open>env\<close> or nested too deeply in them, is
  rejected outright, whatever its other commands are, as long as it does not change its directory;
  and in any case it is never allowed.
\<close>
theorem hard_rejections_are_final:
  assumes "parse_shell s = Inr c" and "ws \<in> set (commands c)" and "hard_rejected ws"
  shows "classify_command W s \<noteq> PolicyAllow
    \<and> (list_all (\<lambda>vs. \<not> changes_directory vs) (commands c) \<longrightarrow>
        (\<exists>r. classify_command W s = PolicyReject r))"
proof
  show "classify_command W s \<noteq> PolicyAllow"
  proof
    assume "classify_command W s = PolicyAllow"
    with assms(1) have "classify_parsed W c = PolicyAllow"
      by (auto simp: classify_command_def classify_validated_def split: sum.splits)
    from classify_parsed_Allow(2) [OF this] assms(2,3) show False
      by (auto simp: hard_rejected_def list_all_iff)
  qed
  show "list_all (\<lambda>vs. \<not> changes_directory vs) (commands c) \<longrightarrow>
      (\<exists>r. classify_command W s = PolicyReject r)"
    using first_hard_rejection_reject [OF assms(2,3), of W default_budget] assms(1)
    by (auto simp: classify_command_def classify_validated_def classify_parsed_def
        split: sum.split)
qed

lemma sudo_behind_env: "hard_rejected [lit ''env'', lit ''sudo'']"
  by code_simp

lemma env_sudo_no_cd: "\<not> changes_directory [lit ''env'', lit ''sudo'']"
  by code_simp

theorem hard_rejections_are_final_witness:
  "\<exists>r. classify_command empty_workspace (shell_source [[lit ''env'', lit ''sudo'']]) = PolicyReject r"
proof -
  have "parse_shell (shell_source [[lit ''env'', lit ''sudo'']]) = Inr (plain_parse [[lit ''env'', lit ''sudo'']])"
    using scan_source [of "[[lit ''env'', lit ''sudo'']]" "[]"]
    by (simp add: parse_shell_def init_plain word_total_def MAX_SIMPLE_COMMANDS_def MAX_POLICY_WORDS_def)
  from hard_rejections_are_final [OF this _ sudo_behind_env, of empty_workspace] env_sudo_no_cd
  show ?thesis by (simp add: plain_parse_def)
qed

end
