(* ===== verification/Command_Policy_Limits.thy ===== *)
theory Command_Policy_Limits
  imports Command_Policy_Safety
begin

text \<open>
  The limits of the command policy: how wrappers are seen through and up to which depth, what an
  exhausted probe budget does to the order of its checks, and a pattern file that is not probed.
\<close>

section \<open>Wrappers\<close>

text \<open>A program word that no wrapper takes for one of its own arguments and that wraps nothing.\<close>

definition plain_program :: "ustring \<Rightarrow> bool" where
  "plain_program p \<longleftrightarrow>
     \<not> starts_with p dash \<and> 61 \<notin> set p
     \<and> program_basename p \<notin> set (map lit [''command'', ''exec'', ''env''])"

lemma wrapper_basenames:
  "program_basename (lit ''command'') = lit ''command''"
  "program_basename (lit ''exec'') = lit ''exec''"
  "program_basename (lit ''env'') = lit ''env''"
  by code_simp+

lemma wrapper_words:
  assumes "w \<in> set (map lit [''command'', ''exec'', ''env''])"
  shows "\<not> starts_with w dash" "61 \<notin> set w" "w \<noteq> []"
proof -
  have "list_all (\<lambda>w. \<not> starts_with w dash \<and> 61 \<notin> set w \<and> w \<noteq> [])
      (map lit [''command'', ''exec'', ''env''])"
    by code_simp
  with assms show "\<not> starts_with w dash" "61 \<notin> set w" "w \<noteq> []"
    by (auto simp: list_all_iff)
qed

lemma not_dash_neq: "\<not> starts_with p dash \<Longrightarrow> starts_with q dash \<Longrightarrow> p \<noteq> q"
  by auto

lemma dash_literals:
  "starts_with two_dashes dash" "starts_with (lit (CHR ''-'' # s)) dash"
  by (simp_all add: two_dashes_def dash_def starts_with_iff lit_def)

lemma not_dash_prefix: "\<not> starts_with p dash \<Longrightarrow> \<not> starts_with p (lit (CHR ''-'' # s))"
  by (auto simp: dash_def starts_with_iff lit_def prefix_def)

lemma env_options_dash:
  "\<not> starts_with p dash \<Longrightarrow> \<not> env_short_option_has_attached_value p"
  "\<not> starts_with p dash \<Longrightarrow> \<not> env_short_option_cluster_has_no_value p"
  by (auto simp: env_short_option_has_attached_value_def env_short_option_cluster_has_no_value_def
      dash_def starts_with_iff lit_def strip_prefix_of_Some split: option.splits)

lemma wrapped_next:
  assumes "w \<in> set (map lit [''command'', ''exec'', ''env''])"
    and p: "\<not> starts_with p dash" "61 \<notin> set p"
  shows "wrapped_program_index (w # p # rest) = Some (Inr (Some 1))"
proof -
  note neq = not_dash_neq [OF p(1) dash_literals(1)] not_dash_neq [OF p(1) dash_literals(2)]
    not_dash_prefix [OF p(1)] env_options_dash [OF p(1)]
  have "\<not> is_env_assignment p"
    using p(2) by (simp add: is_env_assignment_def split_once_None [THEN iffD2])
  with assms(1) p neq show ?thesis
    by (auto simp: wrapped_program_index_def wrapper_basenames command_wrapped_program_index_def
        exec_wrapped_program_index_def env_wrapped_program_index_def)
qed

lemma unwrap_plain:
  "plain_program p \<Longrightarrow> unwrap_from left (p # args) = Inr (p # args)"
  by (simp add: unwrap_from.simps wrapped_program_index_def plain_program_def)

lemma unwrap_wrappers:
  assumes "list_all (\<lambda>w. w \<in> set (map lit [''command'', ''exec'', ''env''])) ws" and "plain_program p"
  shows "unwrap_from left (ws @ p # args) =
    (if length ws \<le> left then Inr (p # args) else Inl TooDeep)"
  using assms(1)
proof (induction ws arbitrary: left)
  case Nil
  show ?case by (simp add: unwrap_plain [OF assms(2)])
next
  case (Cons w ws)
  obtain q rest where q: "ws @ p # args = q # rest" "\<not> starts_with q dash" "61 \<notin> set q"
    using assms(2) Cons.prems wrapper_words(1,2)
    by (cases ws) (auto simp: plain_program_def)
  have "unwrap_from left ((w # ws) @ p # args) =
      (if left = 0 then Inl TooDeep else unwrap_from (left - 1) (ws @ p # args))"
    using wrapped_next [OF _ q(2,3), of w rest] Cons.prems q(1)
    by (simp add: unwrap_from.simps [of left])
  with Cons show ?case by (cases left) simp_all
qed

text \<open>
  C37. Wrappers do not hide a program: behind any sequence of at most four \<open>command\<close>, \<open>exec\<close> and
  \<open>env\<close> the policy sees exactly the wrapped program and its arguments, and behind more of them the
  command is rejected.
\<close>
theorem wrappers_are_transparent:
  assumes "list_all (\<lambda>w. w \<in> set (map lit [''command'', ''exec'', ''env''])) ws" and "plain_program p"
  shows "if length ws \<le> 4
    then unwrap_transparent_command_wrappers (ws @ p # args) = Inr (p # args)
    else classify_hard_rejection W (ws @ p # args) b
      = (Some (reject ''command uses too many transparent command wrappers''), b)"
  using unwrap_wrappers [OF assms, of MAX_TRANSPARENT_WRAPPER_DEPTH args]
  by (simp add: unwrap_transparent_command_wrappers_def classify_hard_rejection_def reject_def
      MAX_TRANSPARENT_WRAPPER_DEPTH_def)

theorem wrappers_are_transparent_witness:
  "unwrap_transparent_command_wrappers [lit ''env'', lit ''exec'', lit ''sudo'', lit ''-i'']
     = Inr [lit ''sudo'', lit ''-i'']"
proof -
  have "plain_program (lit ''sudo'')" by code_simp
  from wrappers_are_transparent [OF _ this, of "[lit ''env'', lit ''exec'']" "[lit ''-i'']"]
  show ?thesis by simp
qed

section \<open>The probe budget\<close>

text \<open>
  A relative path of plain names below the root of the workspace whose first 256 names lead through
  existing directories, and that has more names than that.
\<close>

definition deep_directory :: "workspace_fs \<Rightarrow> ustring \<Rightarrow> bool" where
  "deep_directory W dir \<longleftrightarrow>
     \<not> is_absolute dir \<and> \<not> prefix (lit ''~'') dir
     \<and> (\<exists>names. path_components dir = map NormalComp names \<and> 256 < length names
          \<and> (\<forall>k \<in> {1..256}. ws_lstat W (ws_root W @ map NormalComp (take k names)) = LstatOther))"

lemma walk_exhausted:
  assumes "m < length names"
    and "\<forall>k \<in> {1..m}. ws_lstat W (cur @ map NormalComp (take k names)) = LstatOther"
  shows "walk_path root (inspect_workspace_path W) cur (map NormalComp names) m = (None, 0)"
  using assms
proof (induction names arbitrary: cur m)
  case (Cons n names)
  show ?case
  proof (cases m)
    case 0
    then show ?thesis by (simp add: inspect_workspace_path_def)
  next
    case (Suc j)
    have "ws_lstat W (cur @ [NormalComp n]) = LstatOther"
      using bspec [OF Cons.prems(2), of 1] Suc by simp
    moreover have "\<forall>k \<in> {1..j}. ws_lstat W ((cur @ [NormalComp n]) @ map NormalComp (take k names)) = LstatOther"
    proof
      fix k assume "k \<in> {1..j}"
      then show "ws_lstat W ((cur @ [NormalComp n]) @ map NormalComp (take k names)) = LstatOther"
        using bspec [OF Cons.prems(2), of "Suc k"] Suc by simp
    qed
    moreover have "j < length names" using Cons.prems(1) Suc by simp
    ultimately show ?thesis
      using Cons.IH [of j "cur @ [NormalComp n]"] Suc by (simp add: inspect_workspace_path_def)
  qed
qed simp

lemma deep_probe:
  assumes "deep_directory W dir"
  shows "\<exists>b. probe_path W dir default_budget = (BudgetExceeded, b)"
proof -
  from assms obtain names where dir: "\<not> is_absolute dir" "\<not> starts_with dir [126]"
    and names: "path_components dir = map NormalComp names" "256 < length names"
      "\<forall>k \<in> {1..256}. ws_lstat W (ws_root W @ map NormalComp (take k names)) = LstatOther"
    by (auto simp: deep_directory_def starts_with_iff lit_def)
  have plain: "ParentDir \<notin> set (path_components dir)" "filter (\<lambda>c. c \<noteq> CurDir) (path_components dir) = map NormalComp names"
    by (auto simp: names(1) intro!: filter_True)
  have "escapes_workspace W dir 256 = (None, 0)"
    using dir plain walk_exhausted [OF names(2,3), of "ws_root W"]
    by (simp add: escapes_workspace_def path_join_def path_escapes_workspace_with_def path_strip_prefix_def)
  then show ?thesis
    by (simp add: probe_path_def default_budget_def MAX_PATH_PROBE_CANDIDATES_def
        MAX_WORKSPACE_PATH_INSPECTIONS_def)
qed

lemma cd_to_deep_directory:
  assumes "deep_directory W dir"
  shows "\<exists>b. classify_hard_rejection W (lit ''cd'' # dir # args) default_budget
    = (Some (requires_approval ''command exceeds the workspace path inspection budget''), b)"
proof -
  have "plain_program (lit ''cd'')" and "\<not> privilege_elevating (lit ''cd'')"
    and "program_basename (lit ''cd'') = lit ''cd''" by code_simp+
  then show ?thesis
    using deep_probe [OF assms]
    by (auto simp: classify_hard_rejection_def unwrap_transparent_command_wrappers_def unwrap_plain
        classify_working_directory_def command_mutates_filesystem_root_def known_filesystem_mutator_def)
qed

lemma first_hard_rejection_skip:
  "\<forall>ws \<in> set pre. \<not> hard_rejected ws \<and> \<not> changes_directory ws
     \<Longrightarrow> first_hard_rejection W (pre @ cs) b = first_hard_rejection W cs b"
  by (induction pre) (simp_all add: no_hard_rejection)

definition elevating_programs :: "ustring list" where
  "elevating_programs = map lit [''sudo'', ''doas'', ''su'']"

lemma elevation_rejected:
  assumes "p \<in> set elevating_programs"
  shows "hard_rejected (p # args)"
proof -
  have "list_all (\<lambda>p. plain_program p \<and> privilege_elevating p) elevating_programs" by code_simp
  with assms have "plain_program p" "privilege_elevating p" by (auto simp: list_all_iff)
  then show ?thesis
    by (simp add: hard_rejected_def unsuspicious_def unwrap_transparent_command_wrappers_def unwrap_plain)
qed

text \<open>
  C38. The budget comes before the rejection of a later command: in every workspace, a command line in
  which a \<open>cd\<close> to a directory more than 256 existing levels deep comes before a \<open>sudo\<close>, \<open>doas\<close> or
  \<open>su\<close> is put up for approval instead of being rejected, whatever else comes after that \<open>cd\<close>, as
  long as nothing before it is rejected or changes the directory; and without that \<open>cd\<close> the line of
  the other commands is rejected, provided that none of them changes the directory.
\<close>
theorem elevation_can_reach_approval:
  assumes "parse_shell s = Inr c" and "byte_len s \<le> 65536" "\<not> is_blank s"
    and "commands c = pre @ (lit ''cd'' # dir # args) # post"
    and "\<forall>ws \<in> set pre. \<not> hard_rejected ws \<and> \<not> changes_directory ws"
    and "deep_directory W dir"
    and "elevating # arguments \<in> set post" and "elevating \<in> set (map lit [''sudo'', ''doas'', ''su''])"
  shows "classify_command W s = requires_approval ''command exceeds the workspace path inspection budget''
    \<and> (\<forall>s' c'. parse_shell s' = Inr c' \<and> commands c' = pre @ post
          \<and> list_all (\<lambda>ws. \<not> changes_directory ws) post
        \<longrightarrow> (\<exists>r. classify_command W s' = PolicyReject r))"
proof (intro conjI allI impI)
  let ?rejection = "first_hard_rejection W (commands c) default_budget"
  have "\<exists>b. ?rejection
      = (Some (requires_approval ''command exceeds the workspace path inspection budget''), b)"
    using cd_to_deep_directory [OF assms(6), of args]
    by (auto simp: assms(4) first_hard_rejection_skip [OF assms(5)])
  moreover have "validate_run_command_text s = Inr ()"
    using assms(2,3) by (simp add: validate_run_command_text_def MAX_COMMAND_BYTES_def)
  ultimately show "classify_command W s
      = requires_approval ''command exceeds the workspace path inspection budget''"
    using assms(1) by (auto simp: classify_command_def classify_validated_def classify_parsed_def)
next
  fix s' c'
  assume other: "parse_shell s' = Inr c' \<and> commands c' = pre @ post
    \<and> list_all (\<lambda>ws. \<not> changes_directory ws) post"
  with assms(5) have no_cd: "list_all (\<lambda>ws. \<not> changes_directory ws) (commands c')"
    by (auto simp: list_all_iff)
  have "elevating # arguments \<in> set (commands c')" using other assms(7) by simp
  from first_hard_rejection_reject [OF this elevation_rejected no_cd, of W default_budget] assms(8) other
  show "\<exists>r. classify_command W s' = PolicyReject r"
    by (auto simp: elevating_programs_def classify_command_def classify_validated_def classify_parsed_def
        split: sum.split)
qed

definition deep_workspace :: workspace_fs where
  "deep_workspace = \<lparr>ws_root = [RootDir, NormalComp [119]], ws_lstat = (\<lambda>_. LstatOther),
     ws_canonicalize = (\<lambda>_. None)\<rparr>"

definition deep_path :: ustring where
  "deep_path = concat (replicate 257 [97, 47])"

lemma split_deep: "split_on 47 (concat (replicate k [97, 47])) = replicate k [97] @ [[]]"
  by (induction k) simp_all

lemma relative_components:
  assumes "c \<noteq> slash" and "c \<noteq> 46"
  shows "path_components (c # s) =
    map component_of (filter (\<lambda>p. p \<noteq> [] \<and> p \<noteq> [46]) (split_on slash (c # s)))"
  using assms by (cases "split_on slash s") (auto simp: path_components_def Let_def)

lemma deep_path_Cons: "deep_path = 97 # 47 # concat (replicate 256 [97, 47])"
  by (simp add: deep_path_def numeral_eq_Suc)

lemma deep_components: "path_components deep_path = replicate 257 (NormalComp [97])"
proof -
  have "split_on slash deep_path = replicate 257 [97] @ [[]]"
    using split_deep [of 257] by (simp only: deep_path_def slash_def)
  then show ?thesis
    using relative_components [of 97 "47 # concat (replicate 256 [97, 47])", folded deep_path_Cons]
    by (simp add: slash_def component_of_def filter_replicate)
qed

lemma deep_path_deep: "deep_directory deep_workspace deep_path"
proof -
  have "\<not> is_absolute deep_path" "\<not> prefix (lit ''~'') deep_path"
    by (simp_all add: deep_path_Cons is_absolute_def starts_with_iff slash_def lit_def)
  then show ?thesis
    unfolding deep_directory_def deep_components
    by (intro conjI exI [of _ "replicate 257 [97]"]) (simp_all add: deep_workspace_def)
qed

lemma quote_body_plain: "39 \<notin> set w \<Longrightarrow> quote_body w = w @ [39]"
  by (induction w) auto

definition deep_line :: ustring where
  "deep_line = shell_source [[lit ''cd'', deep_path], [lit ''sudo'', lit ''id'']]"

lemma deep_line_bytes: "byte_len deep_line \<le> 65536" "\<not> is_blank deep_line"
proof -
  have len: "byte_len (concat (replicate k [97, 47])) = 2 * k" for k
    by (induction k) (simp_all add: len_utf8_def)
  have quotes: "quote_body deep_path = deep_path @ [39]" "quote_body (lit ''cd'') = lit ''cd'' @ [39]"
    "quote_body (lit ''sudo'') = lit ''sudo'' @ [39]" "quote_body (lit ''id'') = lit ''id'' @ [39]"
    by (rule quote_body_plain; simp add: deep_path_def lit_def)+
  have "byte_len deep_path = 514" using len [of 257] by (simp add: deep_path_def)
  then show "byte_len deep_line \<le> 65536"
    by (simp add: deep_line_def shell_source_def words_source_def shell_quote_def quotes len_utf8_def lit_def)
  show "\<not> is_blank deep_line"
    by (simp add: deep_line_def shell_source_def words_source_def shell_quote_def is_blank_iff is_whitespace_def)
qed

theorem elevation_can_reach_approval_witness:
  "classify_command deep_workspace deep_line
      = requires_approval ''command exceeds the workspace path inspection budget''
    \<and> (\<exists>r. classify_command deep_workspace (shell_source [[lit ''sudo'', lit ''id'']]) = PolicyReject r)"
proof -
  have parsed: "parse_shell (shell_source cs) = Inr (plain_parse cs)"
    if "cs = [[lit ''cd'', deep_path], [lit ''sudo'', lit ''id'']] \<or> cs = [[lit ''sudo'', lit ''id'']]" for cs
    using that scan_source [of cs "[]"]
    by (auto simp: parse_shell_def init_plain word_total_def MAX_SIMPLE_COMMANDS_def MAX_POLICY_WORDS_def)
  have "\<not> changes_directory [lit ''sudo'', lit ''id'']" by code_simp
  moreover note elevation_can_reach_approval [of deep_line "plain_parse [[lit ''cd'', deep_path], [lit ''sudo'', lit ''id'']]"
      "[]" deep_path "[]" "[[lit ''sudo'', lit ''id'']]" deep_workspace "lit ''sudo''" "[lit ''id'']"]
  ultimately show ?thesis
    using parsed deep_line_bytes deep_path_deep by (simp add: deep_line_def plain_parse_def)
qed

section \<open>A value the probes miss\<close>

text \<open>
  The code reads a short option with an attached value only from words without an equals sign: a
  pattern file named in one word with \<open>-f\<close> is not probed when its path holds one, so a \<open>grep\<close> that
  loads it from anywhere in the file system runs without approval.
\<close>

lemma equals_sign_hides_pattern_file:
  assumes "61 \<in> set v" and "82 \<notin> set v" and "39 \<notin> set v" and "byte_len v \<le> 60000"
  shows "classify_command W (shell_source [[lit ''grep'', lit ''-f'' @ v]]) = PolicyAllow"
proof -
  let ?cs = "[[lit ''grep'', lit ''-f'' @ v]]"
  let ?w = "lit ''-f'' @ v"
  have parsed: "parse_shell (shell_source ?cs) = Inr (plain_parse ?cs)"
    using scan_source [of ?cs "[]"]
    by (simp add: parse_shell_def init_plain word_total_def MAX_SIMPLE_COMMANDS_def MAX_POLICY_WORDS_def)
  have quotes: "quote_body v = v @ [39]" "quote_body (lit ''grep'') = lit ''grep'' @ [39]"
    using assms(3) by (auto intro!: quote_body_plain simp: lit_def)
  have word: "?w = 45 # 102 # v" by (simp add: lit_def)
  have "byte_len (shell_source ?cs) \<le> 65536" "\<not> is_blank (shell_source ?cs)"
    using assms(4)
    by (simp_all add: shell_source_def words_source_def shell_quote_def quotes word len_utf8_def
        is_blank_iff is_whitespace_def) (simp add: lit_def len_utf8_def)
  then have valid: "validate_run_command_text (shell_source ?cs) = Inr ()"
    by (simp add: validate_run_command_text_def MAX_COMMAND_BYTES_def)
  have long: "\<not> long_option_matches_or_abbreviates ?w full" for full
    unfolding word long_option_matches_or_abbreviates_def option_name_def
    by (auto simp: starts_with_iff two_dashes_def dest!: split_once_SomeD split: option.splits)
  have cluster: "short_option_cluster_contains ?w 82 = False"
    using assms(2) by (simp add: word short_option_cluster_contains_def)
  have "v \<noteq> []" using assms(1) by auto
  obtain n u where split: "split_once 61 ?w = Some (n, u)"
    using assms(1) split_once_None [of 61 ?w] by (cases "split_once 61 ?w") (auto simp: word)
  have "option_values [102] full [?w] = []" for full
    using long [of full] split \<open>v \<noteq> []\<close> by (auto simp: word exact_short_iff Let_def)
  then have options: "classify_path_bearing_options W (lit ''grep'') [?w] b = (WithinWorkspace, b)" for b
    by (simp add: classify_path_bearing_options_def classify_option_paths_def option_paths_def)
  have "argument_paths False [?w] = []"
    by (simp add: word path_candidate_def starts_with_iff two_dashes_def dash_def Let_def)
  then have operands: "classify_argument_paths W [?w] b = (WithinWorkspace, b)" for b
    by (simp add: classify_argument_paths_def)
  have name: "program_basename (lit ''grep'') = lit ''grep''" by code_simp
  have after: "after_path_probes (lit ''grep'') [?w] = PolicyAllow"
    using long cluster
    by (simp add: after_path_probes_def known_filesystem_mutator_def name may_follow_outside_def low_risk_form_def
        is_low_risk_external_command_def LOW_RISK_EXTERNAL_PROGRAMS_def)
  have "plain_program (lit ''grep'')" "\<not> privilege_elevating (lit ''grep'')" by code_simp+
  moreover have "\<not> targets_filesystem_root ?w"
    by (simp add: word targets_filesystem_root_def is_absolute_def starts_with_iff slash_def)
  ultimately have "first_hard_rejection W ?cs b = (None, b)" for b
    by (simp add: classify_hard_rejection_def unwrap_transparent_command_wrappers_def unwrap_plain
        command_mutates_filesystem_root_def)
  then show ?thesis
    by (simp add: classify_command_def valid classify_validated_def parsed classify_parsed_def plain_parse_def
        classify_syntax_def classify_simple_command_def before_path_probes_def options operands after
        probe_decision_def)
qed

end
