(* ===== verification/Tool_Support.thy ===== *)
theory Tool_Support
  imports Unix_Paths Tool_Execution
begin

text \<open>
  What the coding tools share (crates/capability-coding/src/tool_support.rs): reading the JSON
  arguments of a call, truncation of text, and the shape of failures. JSON values are read through
  \<open>as_object\<close> and \<open>as_str\<close>, given as functions, and \<open>json_len\<close> is the length of the JSON
  encoding of an output.
\<close>

section \<open>Truncation\<close>

definition MAX_OUTPUT_BYTES :: nat where
  "MAX_OUTPUT_BYTES = 64 * 1024"

definition MAX_TOOL_CONTENT_SERIALIZED_BYTES :: nat where
  "MAX_TOOL_CONTENT_SERIALIZED_BYTES = 48 * 1024"

definition MAX_ERROR_MESSAGE_SERIALIZED_BYTES :: nat where
  "MAX_ERROR_MESSAGE_SERIALIZED_BYTES = 8 * 1024"

text \<open>\<open>str::is_char_boundary\<close> and the slice of a string up to a byte offset on a boundary.\<close>

definition is_char_boundary :: "ustring \<Rightarrow> nat \<Rightarrow> bool" where
  "is_char_boundary s i = list_ex (\<lambda>k. byte_len (take k s) = i) [0..<Suc (length s)]"

fun take_bytes :: "nat \<Rightarrow> ustring \<Rightarrow> ustring" where
  "take_bytes n [] = []"
| "take_bytes n (c # s) = (if len_utf8 c \<le> n then c # take_bytes (n - len_utf8 c) s else [])"

fun floor_boundary :: "ustring \<Rightarrow> nat \<Rightarrow> nat" where
  "floor_boundary s 0 = 0"
| "floor_boundary s (Suc i) = (if is_char_boundary s (Suc i) then Suc i else floor_boundary s i)"

definition truncate_utf8 :: "ustring \<Rightarrow> nat \<Rightarrow> ustring" where
  "truncate_utf8 s max_bytes =
     (if byte_len s \<le> max_bytes then s else take_bytes (floor_boundary s max_bytes) s)"

definition json_character_bytes :: "uchar \<Rightarrow> nat" where
  "json_character_bytes c =
     (if c \<in> {0x22, 0x5C, 8, 9, 10, 0xC, 13} then 2
      else if c \<le> 0x1F then 6
      else len_utf8 c)"

text \<open>The loop of \<open>truncate_json_string\<close>: the characters kept and whether any was left out.\<close>

fun json_prefix :: "nat \<Rightarrow> nat \<Rightarrow> ustring \<Rightarrow> ustring \<times> bool" where
  "json_prefix max_bytes used [] = ([], False)"
| "json_prefix max_bytes used (c # s) =
     (if used + json_character_bytes c > max_bytes then ([], True)
      else (case json_prefix max_bytes (used + json_character_bytes c) s of (p, t) \<Rightarrow> (c # p, t)))"

definition truncate_json_string :: "ustring \<Rightarrow> nat \<Rightarrow> ustring \<times> bool" where
  "truncate_json_string s max_serialized_bytes = json_prefix max_serialized_bytes 2 s"

lemma json_character_bytes_eq: "json_character_bytes c = serialized_json_character_bytes c"
  by (auto simp: json_character_bytes_def serialized_json_character_bytes_def)

lemma json_prefix_eq:
  "json_prefix m used s = (bounded_prefix m used s, bounded_prefix m used s \<noteq> s)"
  by (induction m used s rule: json_prefix.induct) (auto simp: json_character_bytes_eq)

lemma truncate_json_string_eq:
  "truncate_json_string s m = (bounded_prefix m 2 s, bounded_prefix m 2 s \<noteq> s)"
  by (simp add: truncate_json_string_def json_prefix_eq)

lemma truncate_json_fits:
  "2 \<le> m \<Longrightarrow> serialized_json_string_bytes (fst (truncate_json_string s m)) \<le> m"
  using bounded_prefix_fits [of 2 m s]
  by (simp add: truncate_json_string_eq serialized_json_string_bytes_def)

lemma bounded_prefix_id:
  "used + serialized_json_string_content_bytes s \<le> m \<Longrightarrow> bounded_prefix m used s = s"
  by (induction m used s rule: bounded_prefix.induct) (auto simp: add.assoc)

text \<open>\<open>truncate_utf8\<close> returns the longest prefix of whole characters within the limit.\<close>

lemma take_bytes_boundary: "take_bytes (byte_len (take k s)) s = take k s"
  by (induction s arbitrary: k) (auto simp: take_Cons' len_utf8_def)

lemma floor_boundary_ok:
  "is_char_boundary s (floor_boundary s i) \<and> floor_boundary s i \<le> i
   \<and> (\<forall>j. floor_boundary s i < j \<longrightarrow> j \<le> i \<longrightarrow> \<not> is_char_boundary s j)"
proof (induction i)
  case 0
  have "is_char_boundary s 0" by (auto simp: is_char_boundary_def list_ex_iff intro!: bexI [of _ 0])
  then show ?case by simp
next
  case (Suc i)
  then show ?case by (auto simp: le_Suc_eq)
qed

lemma is_char_boundary_iff: "is_char_boundary s i \<longleftrightarrow> (\<exists>p r. s = p @ r \<and> byte_len p = i)"
proof
  assume "is_char_boundary s i"
  then obtain k where "byte_len (take k s) = i" unfolding is_char_boundary_def list_ex_iff by blast
  then show "\<exists>p r. s = p @ r \<and> byte_len p = i" by (metis append_take_drop_id)
next
  assume "\<exists>p r. s = p @ r \<and> byte_len p = i"
  then obtain p r where "s = p @ r" "byte_len p = i" by blast
  then show "is_char_boundary s i"
    by (auto simp: is_char_boundary_def list_ex_iff intro!: bexI [of _ "length p"])
qed

lemma truncate_utf8_spec:
  "prefix (truncate_utf8 s m) s \<and> byte_len (truncate_utf8 s m) \<le> m
   \<and> (\<forall>p. prefix p s \<longrightarrow> byte_len p \<le> m \<longrightarrow> byte_len p \<le> byte_len (truncate_utf8 s m))"
proof (cases "byte_len s \<le> m")
  case True
  then show ?thesis by (auto simp: truncate_utf8_def prefix_def)
next
  case False
  let ?i = "floor_boundary s m"
  note ok = floor_boundary_ok [of s m]
  then obtain p r where p: "s = p @ r" "byte_len p = ?i" by (auto simp: is_char_boundary_iff)
  have "take_bytes ?i s = p" using take_bytes_boundary [of "length p" s] p by simp
  with False have eq: "truncate_utf8 s m = p" by (simp add: truncate_utf8_def)
  have "byte_len q \<le> ?i" if "prefix q s" "byte_len q \<le> m" for q
    using ok that by (metis is_char_boundary_iff leI prefix_def)
  with ok p eq show ?thesis by (auto simp: prefix_def)
qed

section \<open>Failures\<close>

definition failure :: "string \<Rightarrow> ustring \<Rightarrow> bool \<Rightarrow> 'v tool_output" where
  "failure code message retryable =
     Failure \<lparr>te_code = lit code,
              te_message = fst (truncate_json_string message MAX_ERROR_MESSAGE_SERIALIZED_BYTES),
              te_retryable = retryable\<rparr> []"

definition finalize_output :: "('v tool_output \<Rightarrow> nat) \<Rightarrow> 'v tool_output \<Rightarrow> 'v tool_output" where
  "finalize_output json_len out =
     (if json_len out \<le> MAX_OUTPUT_BYTES then out
      else failure ''output_too_large'' (lit ''tool output exceeds the serialized event budget'') False)"

text \<open>\<open>display_relative_path\<close> of a path given by its components.\<close>

fun component_name :: "component \<Rightarrow> ustring" where
  "component_name RootDir = []"
| "component_name CurDir = [46]"
| "component_name ParentDir = [46, 46]"
| "component_name (NormalComp n) = n"

fun join_components :: "path \<Rightarrow> ustring" where
  "join_components [] = []"
| "join_components [RootDir] = [slash]"
| "join_components [c] = component_name c"
| "join_components (c # cs) = component_name c @ slash # join_components cs"

definition display_relative_path :: "path \<Rightarrow> ustring" where
  "display_relative_path p =
     (let q = (case path_strip_prefix p [CurDir] of Some r \<Rightarrow> r | None \<Rightarrow> p)
      in if q = [] then [46] else join_components q)"

section \<open>Arguments\<close>

definition parse_arguments ::
    "('v \<Rightarrow> (ustring, 'v) btree_map option) \<Rightarrow> 'v \<Rightarrow> ustring list
       \<Rightarrow> 'v tool_output + (ustring, 'v) btree_map" where
  "parse_arguments as_object arguments allowed =
     (case as_object arguments of
        None \<Rightarrow> Inl (failure ''invalid_arguments'' (lit ''tool arguments must be a JSON object'') False)
      | Some obj \<Rightarrow>
          (case find (\<lambda>name. name \<notin> set allowed) (map fst obj) of
             Some unknown \<Rightarrow>
               Inl (failure ''invalid_arguments'' (lit ''unknown argument '' @ quoted unknown) False)
           | None \<Rightarrow> Inr obj))"

definition required_string ::
    "('v \<Rightarrow> ustring option) \<Rightarrow> (ustring, 'v) btree_map \<Rightarrow> ustring \<Rightarrow> 'v tool_output + ustring" where
  "required_string as_str obj name =
     (let invalid = Inl (failure ''invalid_arguments''
        (lit ''argument '' @ quoted name @ lit '' must be a non-empty string'') False)
      in case Option.bind (bt_get obj name) as_str of
           Some value \<Rightarrow> if value \<noteq> [] then Inr value else invalid
         | None \<Rightarrow> invalid)"

definition optional_string ::
    "('v \<Rightarrow> ustring option) \<Rightarrow> (ustring, 'v) btree_map \<Rightarrow> ustring
       \<Rightarrow> 'v tool_output + ustring option" where
  "optional_string as_str obj name =
     (let invalid = Inl (failure ''invalid_arguments''
        (lit ''argument '' @ quoted name @ lit '' must be a non-empty string when provided'') False)
      in case bt_get obj name of
           None \<Rightarrow> Inr None
         | Some v \<Rightarrow>
             (case as_str v of
                Some value \<Rightarrow> if value \<noteq> [] then Inr (Some value) else invalid
              | None \<Rightarrow> invalid))"

text \<open>
  Whatever a tool reports as a failure of its own, the message has at most 8192 bytes of JSON.
\<close>

definition small_failure :: "'v tool_output \<Rightarrow> bool" where
  "small_failure out \<longleftrightarrow>
     (case out of
        Failure e ext \<Rightarrow>
          serialized_json_string_bytes (te_message e) \<le> MAX_ERROR_MESSAGE_SERIALIZED_BYTES
      | Success _ _ _ \<Rightarrow> False)"

lemma small_failure_failure [simp]: "small_failure (failure code message retryable)"
  using truncate_json_fits [of MAX_ERROR_MESSAGE_SERIALIZED_BYTES message]
  by (simp add: small_failure_def failure_def MAX_ERROR_MESSAGE_SERIALIZED_BYTES_def)

lemma parse_arguments_Inr:
  "parse_arguments as_object v allowed = Inr obj \<longleftrightarrow>
     as_object v = Some obj \<and> set (map fst obj) \<subseteq> set allowed"
proof -
  have "set (map fst obj) \<subseteq> set allowed \<longleftrightarrow> find (\<lambda>name. name \<notin> set allowed) (map fst obj) = None"
    by (auto simp: find_None_iff)
  then show ?thesis by (auto simp: parse_arguments_def split: option.splits)
qed

lemma parse_arguments_Inl: "parse_arguments as_object v allowed = Inl out \<Longrightarrow> small_failure out"
  by (auto simp: parse_arguments_def split: option.splits)

lemma required_string_Inr:
  "required_string as_str obj name = Inr s \<longleftrightarrow> Option.bind (bt_get obj name) as_str = Some s \<and> s \<noteq> []"
  by (auto simp: required_string_def Let_def split: option.splits)

lemma required_string_Inl: "required_string as_str obj name = Inl out \<Longrightarrow> small_failure out"
  by (auto simp: required_string_def Let_def split: option.splits if_splits)

lemma finalize_output_cases:
  "finalize_output json_len out = out \<or> small_failure (finalize_output json_len out)"
  by (simp add: finalize_output_def)

end
