(* ===== verification/Workspace_Errors.thy ===== *)
theory Workspace_Errors
  imports Tool_Support
begin

text \<open>
  The error values of the workspace (crates/capability-coding/src/workspace.rs): \<open>io::Error\<close> with
  what the code reads of it, the evidence about staged or replaced data (\<open>PublishedRecovery\<close>), and
  the errors of resolving a path.
\<close>

datatype published_recovery =
    LocatedVerified path
  | LocatedContentUnverified path
  | LocatedPolicyUnverified path
  | LocatedContentAndPolicyUnverified path
  | NotApplicableNewFile
  | Unlocated

datatype io_error_kind =
    IoNotFound | IoPermissionDenied | IoAlreadyExists | IoWouldBlock | IoInvalidInput
  | IoInvalidData | IoInterrupted | IoUnsupported | IoOther ustring

text \<open>
  An \<open>io::Error\<close>: its kind, its text, whether its operating-system code is \<open>ELOOP\<close>, and the
  recovery of the \<open>PreservedStagingError\<close> it wraps, if it wraps one.
\<close>

record io_error =
  io_kind :: io_error_kind
  io_text :: ustring
  io_loop :: bool
  io_recovery :: "published_recovery option"

definition io_error_new :: "io_error_kind \<Rightarrow> ustring \<Rightarrow> io_error" where
  "io_error_new kind message =
     \<lparr>io_kind = kind, io_text = message, io_loop = False, io_recovery = None\<rparr>"

lemma io_error_new_simps [simp]:
  "io_kind (io_error_new k m) = k" "io_text (io_error_new k m) = m"
  "io_recovery (io_error_new k m) = None" "\<not> io_loop (io_error_new k m)"
  by (simp_all add: io_error_new_def)

datatype workspace_path_error =
    OutsideWorkspace path path
  | WorkspaceAccess path io_error

fun workspace_error_code :: "workspace_path_error \<Rightarrow> string" where
  "workspace_error_code (OutsideWorkspace _ _) = ''outside_workspace''"
| "workspace_error_code (WorkspaceAccess _ source) =
     (if io_kind source = IoNotFound then ''path_not_found'' else ''workspace_io_error'')"

fun workspace_error_retryable :: "workspace_path_error \<Rightarrow> bool" where
  "workspace_error_retryable (WorkspaceAccess _ source) = (io_kind source = IoInterrupted)"
| "workspace_error_retryable (OutsideWorkspace _ _) = False"

fun workspace_error_text :: "workspace_path_error \<Rightarrow> ustring" where
  "workspace_error_text (OutsideWorkspace p root) =
     lit ''path '' @ quoted (join_components p) @ lit '' escapes workspace boundary ''
       @ quoted (join_components root)"
| "workspace_error_text (WorkspaceAccess p source) =
     lit ''failed to access '' @ quoted (join_components p) @ lit '': '' @ io_text source"

definition workspace_path_failure :: "workspace_path_error \<Rightarrow> 'v tool_output" where
  "workspace_path_failure e =
     failure (workspace_error_code e) (workspace_error_text e) (workspace_error_retryable e)"

text \<open>\<open>PublishedRecovery::within_parent\<close>.\<close>

fun within_parent :: "path \<Rightarrow> published_recovery \<Rightarrow> published_recovery" where
  "within_parent parent (LocatedVerified p) = LocatedVerified (parent @ p)"
| "within_parent parent (LocatedContentUnverified p) = LocatedContentUnverified (parent @ p)"
| "within_parent parent (LocatedPolicyUnverified p) = LocatedPolicyUnverified (parent @ p)"
| "within_parent parent (LocatedContentAndPolicyUnverified p) =
     LocatedContentAndPolicyUnverified (parent @ p)"
| "within_parent parent NotApplicableNewFile = NotApplicableNewFile"
| "within_parent parent Unlocated = Unlocated"

end
