(* ===== verification/Disk.thy ===== *)
theory Disk
  imports Workspace_Errors
begin

text \<open>
  The file system as the publication code of crates/capability-coding/src/workspace.rs uses it:
  inodes, directory entries, and the system calls that cap-std and rustix make for it. Other
  processes act before every call, as an arbitrary function of the call's number and the disk, and
  any call may fail, in which case it has no effect. An open handle is its inode.
\<close>

section \<open>Inodes and entries\<close>

text \<open>An inode is known by its device and its number, \<open>dev()\<close> and \<open>ino()\<close>.\<close>

datatype node_id = Node nat nat

type_synonym timestamp = "int \<times> int"
type_synonym slot = "node_id \<times> ustring"

datatype node_kind = RegularNode | DirectoryNode | SymlinkNode | SpecialNode

text \<open>
  An entry of an access-control list, by what \<open>has_extended_acl\<close> reads of it. The extended
  attributes of a file are the bytes of their name list.
\<close>

record acl_entry =
  acl_name :: ustring
  acl_flags :: nat
  acl_is_mask :: bool

record disk_node =
  nd_kind :: node_kind
  nd_bytes :: "nat list"
  nd_uid :: nat
  nd_gid :: nat
  nd_mode :: nat
  nd_modified :: timestamp
  nd_changed :: timestamp
  nd_xattrs :: "nat list"
  nd_acl :: "acl_entry list"

record disk =
  nodes :: "node_id \<Rightarrow> disk_node option"
  entries :: "(slot \<times> node_id) list"

definition lookup :: "disk \<Rightarrow> slot \<Rightarrow> node_id option" where
  "lookup d s = map_of (entries d) s"

definition link_count :: "disk \<Rightarrow> node_id \<Rightarrow> nat" where
  "link_count d x =
     length (filter (\<lambda>s. lookup d s = Some x) (remdups (map fst (entries d))))"

definition node_bytes :: "disk \<Rightarrow> node_id \<Rightarrow> nat list option" where
  "node_bytes d x = map_option nd_bytes (nodes d x)"

text \<open>What one call changes.\<close>

definition set_node :: "node_id \<Rightarrow> disk_node \<Rightarrow> disk \<Rightarrow> disk" where
  "set_node x nd d = d\<lparr>nodes := (nodes d)(x := Some nd)\<rparr>"

definition set_entry :: "slot \<Rightarrow> node_id \<Rightarrow> disk \<Rightarrow> disk" where
  "set_entry s x d = d\<lparr>entries := (s, x) # filter (\<lambda>e. fst e \<noteq> s) (entries d)\<rparr>"

definition clear_entry :: "slot \<Rightarrow> disk \<Rightarrow> disk" where
  "clear_entry s d = d\<lparr>entries := filter (\<lambda>e. fst e \<noteq> s) (entries d)\<rparr>"

definition touch :: "node_id \<Rightarrow> timestamp \<Rightarrow> disk \<Rightarrow> disk" where
  "touch x t d = (case nodes d x of None \<Rightarrow> d | Some nd \<Rightarrow> set_node x (nd\<lparr>nd_changed := t\<rparr>) d)"

lemma map_of_filter_key: "map_of (filter (\<lambda>e. fst e \<noteq> s) es) r = (if r = s then None else map_of es r)"
  by (induction es) auto

lemma lookup_simps [simp]:
  "lookup (set_node x nd d) s = lookup d s"
  "lookup (set_entry r x d) s = (if s = r then Some x else lookup d s)"
  "lookup (clear_entry r d) s = (if s = r then None else lookup d s)"
  "lookup (touch x t d) s = lookup d s"
  by (simp_all add: lookup_def set_node_def set_entry_def clear_entry_def touch_def
      map_of_filter_key split: option.split)

lemma nodes_simps [simp]:
  "nodes (set_node x nd d) = (nodes d)(x := Some nd)"
  "nodes (set_entry r x d) = nodes d"
  "nodes (clear_entry r d) = nodes d"
  by (simp_all add: set_node_def set_entry_def clear_entry_def)

lemma node_bytes_simps [simp]:
  "node_bytes (set_node x nd d) y = (if y = x then Some (nd_bytes nd) else node_bytes d y)"
  "node_bytes (set_entry r x d) y = node_bytes d y"
  "node_bytes (clear_entry r d) y = node_bytes d y"
  "node_bytes (touch x t d) y = node_bytes d y"
  by (auto simp: node_bytes_def touch_def split: option.split)

text \<open>\<open>Metadata\<close>, as \<open>fstat\<close> and \<open>lstat\<close> fill it.\<close>

record metadata =
  md_id :: node_id
  md_kind :: node_kind
  md_size :: nat
  md_modified :: timestamp
  md_changed :: timestamp
  md_uid :: nat
  md_gid :: nat
  md_mode :: nat
  md_nlink :: nat

definition metadata_of :: "disk \<Rightarrow> node_id \<Rightarrow> disk_node \<Rightarrow> metadata" where
  "metadata_of d x nd =
     \<lparr>md_id = x, md_kind = nd_kind nd, md_size = length (nd_bytes nd),
      md_modified = nd_modified nd, md_changed = nd_changed nd, md_uid = nd_uid nd,
      md_gid = nd_gid nd, md_mode = nd_mode nd, md_nlink = link_count d x\<rparr>"

section \<open>Calls\<close>

text \<open>
  What the code cannot choose: the acts of other processes and the faults by the number of the call;
  how cap-std resolves a path to a directory or to an entry that it does not follow; what listing a
  directory yields, and what its entries say of their type and open as directories; the inode and
  attributes of a new file; how many bytes a read or a write moves; the clock; what a rename does to
  the change time of the file and what \<open>fchmod\<close> leaves of a mode; random bytes; the texts of
  operating-system errors; and the content hash (blake3).
\<close>

record 'h system =
  sys_interfere :: "nat \<Rightarrow> disk \<Rightarrow> disk"
  sys_fault :: "nat \<Rightarrow> io_error option"
  sys_open_dir :: "path \<Rightarrow> disk \<Rightarrow> io_error + node_id"
  sys_locate :: "path \<Rightarrow> disk \<Rightarrow> io_error + node_id"
  sys_list :: "node_id \<Rightarrow> disk \<Rightarrow> io_error + (io_error + ustring) list"
  sys_entry_type :: "slot \<Rightarrow> disk \<Rightarrow> io_error + node_kind"
  sys_open_entry_dir :: "slot \<Rightarrow> disk \<Rightarrow> io_error + node_id"
  sys_new_id :: "nat \<Rightarrow> disk \<Rightarrow> node_id"
  sys_new_node :: "nat \<Rightarrow> slot \<Rightarrow> nat \<Rightarrow> disk_node"
  sys_amount :: "nat \<Rightarrow> nat"
  sys_now :: "nat \<Rightarrow> timestamp"
  sys_rename_changed :: "nat \<Rightarrow> timestamp \<Rightarrow> timestamp"
  sys_set_mode :: "nat \<Rightarrow> nat \<Rightarrow> nat \<Rightarrow> nat"
  sys_random :: "nat \<Rightarrow> nat \<Rightarrow> nat"
  sys_text :: "io_error_kind \<Rightarrow> ustring"
  sys_hash :: "nat list \<Rightarrow> 'h"

text \<open>The disk, the number of calls made so far, and of loads of the cancellation flag.\<close>

record world =
  disk_of :: disk
  calls :: nat
  loads :: nat

type_synonym 'a io_op = "(io_error, world, 'a) op"

definition syscall :: "'h system \<Rightarrow> (nat \<Rightarrow> disk \<Rightarrow> (io_error + 'a) \<times> disk) \<Rightarrow> 'a io_op" where
  "syscall S f w =
     (let n = calls w; d = sys_interfere S n (disk_of w)
      in case sys_fault S n of
           Some e \<Rightarrow> (Inl e, w\<lparr>disk_of := d, calls := n + 1\<rparr>)
         | None \<Rightarrow> (case f n d of (r, d1) \<Rightarrow> (r, w\<lparr>disk_of := d1, calls := n + 1\<rparr>)))"

text \<open>A call that only looks.\<close>

definition inspect_disk :: "'h system \<Rightarrow> (disk \<Rightarrow> io_error + 'a) \<Rightarrow> 'a io_op" where
  "inspect_disk S f = syscall S (\<lambda>n d. (f d, d))"

definition os_error :: "'h system \<Rightarrow> io_error_kind \<Rightarrow> io_error" where
  "os_error S kind = io_error_new kind (sys_text S kind)"

definition loop_error :: "'h system \<Rightarrow> io_error" where
  "loop_error S = (os_error S (IoOther (lit ''FilesystemLoop'')))\<lparr>io_loop := True\<rparr>"

definition stale_handle :: "'h system \<Rightarrow> io_error" where
  "stale_handle S = os_error S (IoOther (lit ''StaleNetworkFileHandle''))"

definition with_node ::
    "'h system \<Rightarrow> disk \<Rightarrow> node_id \<Rightarrow> (disk_node \<Rightarrow> (io_error + 'a) \<times> disk) \<Rightarrow> (io_error + 'a) \<times> disk"
where
  "with_node S d x f = (case nodes d x of None \<Rightarrow> (Inl (stale_handle S), d) | Some nd \<Rightarrow> f nd)"

definition read_node ::
    "'h system \<Rightarrow> node_id \<Rightarrow> (disk \<Rightarrow> disk_node \<Rightarrow> io_error + 'a) \<Rightarrow> 'a io_op" where
  "read_node S x f =
     inspect_disk S (\<lambda>d. case nodes d x of None \<Rightarrow> Inl (stale_handle S) | Some nd \<Rightarrow> f d nd)"

text \<open>Opening a directory below the workspace, and \<open>symlink_metadata\<close> and \<open>open\<close> of a whole path.\<close>

definition fs_open_dir :: "'h system \<Rightarrow> path \<Rightarrow> node_id io_op" where
  "fs_open_dir S p = inspect_disk S (sys_open_dir S p)"

definition open_node :: "'h system \<Rightarrow> disk \<Rightarrow> node_id \<Rightarrow> io_error + node_id" where
  "open_node S d x =
     (case nodes d x of
        None \<Rightarrow> Inl (stale_handle S)
      | Some nd \<Rightarrow> if nd_kind nd = SymlinkNode then Inl (loop_error S) else Inr x)"

definition stat_node :: "'h system \<Rightarrow> disk \<Rightarrow> node_id \<Rightarrow> io_error + metadata" where
  "stat_node S d x =
     (case nodes d x of None \<Rightarrow> Inl (stale_handle S) | Some nd \<Rightarrow> Inr (metadata_of d x nd))"

definition fs_open_path :: "'h system \<Rightarrow> path \<Rightarrow> node_id io_op" where
  "fs_open_path S p = inspect_disk S (\<lambda>d. try_res (sys_locate S p d) (open_node S d))"

definition fs_stat_path :: "'h system \<Rightarrow> path \<Rightarrow> metadata io_op" where
  "fs_stat_path S p = inspect_disk S (\<lambda>d. try_res (sys_locate S p d) (stat_node S d))"

text \<open>Calls on one entry of an open directory; \<open>fs_open\<close> has \<open>O_NOFOLLOW\<close> and \<open>O_NONBLOCK\<close>.\<close>

definition entry_at :: "'h system \<Rightarrow> disk \<Rightarrow> slot \<Rightarrow> io_error + node_id" where
  "entry_at S d s = (case lookup d s of None \<Rightarrow> Inl (os_error S IoNotFound) | Some x \<Rightarrow> Inr x)"

definition fs_open :: "'h system \<Rightarrow> slot \<Rightarrow> node_id io_op" where
  "fs_open S s = inspect_disk S (\<lambda>d. try_res (entry_at S d s) (open_node S d))"

definition fs_symlink_metadata :: "'h system \<Rightarrow> slot \<Rightarrow> metadata io_op" where
  "fs_symlink_metadata S s = inspect_disk S (\<lambda>d. try_res (entry_at S d s) (stat_node S d))"

definition fs_open_directory :: "'h system \<Rightarrow> slot \<Rightarrow> node_id io_op" where
  "fs_open_directory S s =
     inspect_disk S (\<lambda>d. try_res (entry_at S d s) (\<lambda>x.
       case nodes d x of
         None \<Rightarrow> Inl (stale_handle S)
       | Some nd \<Rightarrow>
           if nd_kind nd = DirectoryNode then Inr x
           else Inl (os_error S (IoOther (lit ''NotADirectory'')))))"

text \<open>Listing a directory, and \<open>file_type\<close> and \<open>open_dir\<close> of an entry found there.\<close>

definition fs_list_dir :: "'h system \<Rightarrow> node_id \<Rightarrow> (io_error + ustring) list io_op" where
  "fs_list_dir S x = inspect_disk S (sys_list S x)"

definition fs_entry_type :: "'h system \<Rightarrow> slot \<Rightarrow> node_kind io_op" where
  "fs_entry_type S s = inspect_disk S (sys_entry_type S s)"

definition fs_open_entry_dir :: "'h system \<Rightarrow> slot \<Rightarrow> node_id io_op" where
  "fs_open_entry_dir S s = inspect_disk S (sys_open_entry_dir S s)"

definition make_node ::
    "'h system \<Rightarrow> node_kind \<Rightarrow> nat \<Rightarrow> slot \<Rightarrow> nat \<Rightarrow> disk \<Rightarrow> (io_error + node_id) \<times> disk" where
  "make_node S kind mode s n d =
     (if lookup d s \<noteq> None then (Inl (os_error S IoAlreadyExists), d)
      else let x = sys_new_id S n d
           in if nodes d x \<noteq> None then (Inl (os_error S (IoOther (lit ''StorageFull''))), d)
              else (Inr x,
                set_entry s x
                  (set_node x ((sys_new_node S n s mode)\<lparr>nd_kind := kind, nd_bytes := []\<rparr>) d)))"

definition fs_create_new :: "'h system \<Rightarrow> slot \<Rightarrow> node_id io_op" where
  "fs_create_new S s = syscall S (make_node S RegularNode 384 s)"

definition fs_create_dir :: "'h system \<Rightarrow> slot \<Rightarrow> node_id io_op" where
  "fs_create_dir S s = syscall S (make_node S DirectoryNode 511 s)"

text \<open>Calls on a handle.\<close>

definition fs_metadata :: "'h system \<Rightarrow> node_id \<Rightarrow> metadata io_op" where
  "fs_metadata S x = read_node S x (\<lambda>d nd. Inr (metadata_of d x nd))"

definition moved :: "'h system \<Rightarrow> nat \<Rightarrow> nat \<Rightarrow> nat" where
  "moved S n wanted = min wanted (max 1 (sys_amount S n))"

definition fs_read_at :: "'h system \<Rightarrow> node_id \<Rightarrow> nat \<Rightarrow> nat \<Rightarrow> nat list io_op" where
  "fs_read_at S x wanted offset =
     syscall S (\<lambda>n d. with_node S d x (\<lambda>nd.
       (Inr (take (moved S n wanted) (drop offset (nd_bytes nd))), d)))"

text \<open>A write at an offset past the end fills the gap with zeros.\<close>

definition overwrite :: "nat \<Rightarrow> nat list \<Rightarrow> nat list \<Rightarrow> nat list" where
  "overwrite offset new old =
     take offset old @ replicate (offset - length old) 0 @ new @ drop (offset + length new) old"

definition fs_write_at :: "'h system \<Rightarrow> node_id \<Rightarrow> nat list \<Rightarrow> nat \<Rightarrow> nat io_op" where
  "fs_write_at S x new offset =
     syscall S (\<lambda>n d. with_node S d x (\<lambda>nd.
       let k = moved S n (length new)
       in (Inr k, set_node x (nd\<lparr>nd_bytes := overwrite offset (take k new) (nd_bytes nd),
             nd_modified := sys_now S n, nd_changed := sys_now S n\<rparr>) d)))"

definition fs_sync :: "'h system \<Rightarrow> node_id \<Rightarrow> unit io_op" where
  "fs_sync S x = inspect_disk S (\<lambda>d. Inr ())"

definition fs_set_permissions :: "'h system \<Rightarrow> node_id \<Rightarrow> nat \<Rightarrow> unit io_op" where
  "fs_set_permissions S x mode =
     syscall S (\<lambda>n d. with_node S d x (\<lambda>nd.
       (Inr (), set_node x (nd\<lparr>nd_mode := sys_set_mode S n mode (nd_mode nd),
          nd_changed := sys_now S n\<rparr>) d)))"

definition fs_list_xattrs :: "'h system \<Rightarrow> node_id \<Rightarrow> nat \<Rightarrow> nat io_op" where
  "fs_list_xattrs S x buffer_size =
     read_node S x (\<lambda>d nd.
       if buffer_size < length (nd_xattrs nd) then Inl (os_error S (IoOther (lit ''Uncategorized'')))
       else Inr (length (nd_xattrs nd)))"

definition fs_get_acl :: "'h system \<Rightarrow> node_id \<Rightarrow> acl_entry list io_op" where
  "fs_get_acl S x = read_node S x (\<lambda>d nd. Inr (nd_acl nd))"

text \<open>\<open>renameat2\<close> with \<open>RENAME_NOREPLACE\<close> and with \<open>RENAME_EXCHANGE\<close>.\<close>

definition retouch :: "'h system \<Rightarrow> nat \<Rightarrow> node_id \<Rightarrow> disk \<Rightarrow> disk" where
  "retouch S n x d =
     (case nodes d x of None \<Rightarrow> d | Some nd \<Rightarrow> touch x (sys_rename_changed S n (nd_changed nd)) d)"

definition fs_rename_noreplace :: "'h system \<Rightarrow> slot \<Rightarrow> slot \<Rightarrow> unit io_op" where
  "fs_rename_noreplace S s r =
     syscall S (\<lambda>n d.
       case lookup d s of
         None \<Rightarrow> (Inl (os_error S IoNotFound), d)
       | Some x \<Rightarrow>
           if lookup d r \<noteq> None then (Inl (os_error S IoAlreadyExists), d)
           else (Inr (), retouch S n x (set_entry r x (clear_entry s d))))"

definition fs_exchange :: "'h system \<Rightarrow> slot \<Rightarrow> slot \<Rightarrow> unit io_op" where
  "fs_exchange S s r =
     syscall S (\<lambda>n d.
       case (lookup d s, lookup d r) of
         (Some x, Some y) \<Rightarrow>
           (Inr (), retouch S n x (retouch S n y (set_entry s y (set_entry r x d))))
       | _ \<Rightarrow> (Inl (os_error S IoNotFound), d))"

text \<open>\<open>getrandom::fill\<close> of a buffer.\<close>

definition fs_random :: "'h system \<Rightarrow> nat \<Rightarrow> nat list io_op" where
  "fs_random S k = syscall S (\<lambda>n d. (Inr (map (\<lambda>i. sys_random S n i mod 256) [0..<k]), d))"

lemma retouch_simps [simp]:
  "lookup (retouch S n x d) s = lookup d s"
  "node_bytes (retouch S n x d) y = node_bytes d y"
  by (simp_all add: retouch_def split: option.split)

end
