(* ===== verification/Publish_Checks.thy ===== *)
theory Publish_Checks
  imports Disk
begin

text \<open>
  The checks of the publication code (crates/capability-coding/src/workspace.rs): snapshots of a
  file that is held open, what the code compares an entry of a directory with, and the recovery
  directory beside a target. Parts for other platforms and the fault injection of the tests are
  left out.
\<close>

section \<open>Snapshots\<close>

definition MAX_FILE_SNAPSHOT_BYTES :: nat where
  "MAX_FILE_SNAPSHOT_BYTES = 32 * 1024 * 1024"

definition RECOVERY_DIRECTORY :: ustring where
  "RECOVERY_DIRECTORY = lit ''.young-agent-recovery''"

record file_stat_snapshot_rec =
  fst_id :: node_id
  fst_size :: nat
  fst_modified :: timestamp
  fst_changed :: timestamp
  fst_uid :: nat
  fst_gid :: nat
  fst_mode :: nat

record 'h file_snapshot_rec =
  fsn_stat :: file_stat_snapshot_rec
  fsn_digest :: 'h

definition file_stat_snapshot :: "metadata \<Rightarrow> file_stat_snapshot_rec" where
  "file_stat_snapshot m =
     \<lparr>fst_id = md_id m, fst_size = md_size m, fst_modified = md_modified m,
      fst_changed = md_changed m, fst_uid = md_uid m, fst_gid = md_gid m, fst_mode = md_mode m\<rparr>"

definition snapshot_changed :: io_error where
  "snapshot_changed =
     io_error_new IoWouldBlock (lit ''file changed while its content snapshot was being captured'')"

definition begin_file_snapshot :: "'h system \<Rightarrow> node_id \<Rightarrow> file_stat_snapshot_rec io_op" where
  "begin_file_snapshot S f =
     op_bind (fs_metadata S f) (\<lambda>m.
       if MAX_FILE_SNAPSHOT_BYTES < fst_size (file_stat_snapshot m) then
         op_fail (io_error_new IoInvalidData
           (lit ''safe file snapshots are limited to '' @ dec_string MAX_FILE_SNAPSHOT_BYTES
              @ lit '' bytes''))
       else op_return (file_stat_snapshot m))"

definition finish_file_snapshot_from_content ::
    "'h system \<Rightarrow> node_id \<Rightarrow> file_stat_snapshot_rec \<Rightarrow> nat list \<Rightarrow> 'h file_snapshot_rec io_op" where
  "finish_file_snapshot_from_content S f captured content =
     (if length content \<noteq> fst_size captured then
        op_fail (io_error_new IoWouldBlock (lit ''file length did not match the captured content''))
      else op_bind (fs_metadata S f) (\<lambda>m.
        if captured \<noteq> file_stat_snapshot m then op_fail snapshot_changed
        else op_return \<lparr>fsn_stat = file_stat_snapshot m, fsn_digest = sys_hash S content\<rparr>))"

text \<open>Reading from an offset up to a limit, in chunks; a read of nothing is the end of the file.\<close>

function read_up_to ::
    "'h system \<Rightarrow> node_id \<Rightarrow> nat \<Rightarrow> nat \<Rightarrow> nat \<Rightarrow> nat list \<Rightarrow> nat list io_op" where
  "read_up_to S f chunk limit offset acc w =
     (if offset < limit then
        (case fs_read_at S f (min (limit - offset) chunk) offset w of
           (Inl e, w1) \<Rightarrow> (Inl e, w1)
         | (Inr bs, w1) \<Rightarrow>
             if bs = [] then (Inr acc, w1)
             else read_up_to S f chunk limit (offset + length bs) (acc @ bs) w1)
      else (Inr acc, w))"
  by pat_completeness auto
termination
  by (relation "measure (\<lambda>(S, f, chunk, limit, offset, acc, w). limit - offset)")
    (auto simp: diff_less_mono2)

declare read_up_to.simps [simp del]

definition file_digest :: "'h system \<Rightarrow> node_id \<Rightarrow> nat \<Rightarrow> 'h io_op" where
  "file_digest S f len =
     op_bind (read_up_to S f (64 * 1024) len 0 []) (\<lambda>content.
       if length content < len then
         op_fail (io_error_new IoWouldBlock
           (lit ''file became shorter while its content snapshot was being captured''))
       else op_bind (fs_read_at S f 1 len) (\<lambda>probe.
         if probe \<noteq> [] then
           op_fail (io_error_new IoWouldBlock
             (lit ''file grew while its content snapshot was being captured''))
         else op_return (sys_hash S content)))"

definition file_snapshot :: "'h system \<Rightarrow> node_id \<Rightarrow> 'h file_snapshot_rec io_op" where
  "file_snapshot S f =
     op_bind (begin_file_snapshot S f) (\<lambda>captured.
     op_bind (file_digest S f (fst_size captured)) (\<lambda>digest.
     op_bind (fs_metadata S f) (\<lambda>m.
       if captured \<noteq> file_stat_snapshot m then op_fail snapshot_changed
       else op_return \<lparr>fsn_stat = file_stat_snapshot m, fsn_digest = digest\<rparr>)))"

definition same_payload_and_metadata :: "'h file_snapshot_rec \<Rightarrow> 'h file_snapshot_rec \<Rightarrow> bool" where
  "same_payload_and_metadata a b \<longleftrightarrow>
     fsn_digest a = fsn_digest b
     \<and> (let s = fsn_stat a; t = fsn_stat b
        in fst_id s = fst_id t \<and> fst_size s = fst_size t \<and> fst_modified s = fst_modified t
           \<and> fst_uid s = fst_uid t \<and> fst_gid s = fst_gid t \<and> fst_mode s = fst_mode t)"

definition matches_metadata :: "'h file_snapshot_rec \<Rightarrow> metadata \<Rightarrow> bool" where
  "matches_metadata s m \<longleftrightarrow> fsn_stat s = file_stat_snapshot m"

section \<open>Checks\<close>

definition file_has_extended_attributes :: "'h system \<Rightarrow> node_id \<Rightarrow> bool io_op" where
  "file_has_extended_attributes S f =
     op_bind (fs_list_xattrs S f (64 * 1024)) (\<lambda>written. op_return (written \<noteq> 0))"

definition has_extended_acl :: "'h system \<Rightarrow> node_id \<Rightarrow> bool io_op" where
  "has_extended_acl S f =
     op_bind (fs_get_acl S f) (\<lambda>acl.
       op_return (list_ex (\<lambda>e. acl_name e \<noteq> [] \<or> acl_flags e \<noteq> 0 \<or> acl_is_mask e) acl))"

definition validate_security_metadata :: "'h system \<Rightarrow> node_id \<Rightarrow> string \<Rightarrow> unit io_op" where
  "validate_security_metadata S f subject =
     op_bind (file_has_extended_attributes S f) (\<lambda>x.
       if x then
         op_fail (io_error_new IoUnsupported
           (lit subject @ lit '' has unsupported extended attributes''))
       else op_bind (has_extended_acl S f) (\<lambda>a.
         if a then
           op_fail (io_error_new IoUnsupported (lit subject @ lit '' has an unsupported extended ACL''))
         else op_return ()))"

definition require_regular_file :: "'h system \<Rightarrow> node_id \<Rightarrow> (node_id \<times> metadata) io_op" where
  "require_regular_file S f =
     op_bind (fs_metadata S f) (\<lambda>m.
       if md_kind m = RegularNode then op_return (f, m)
       else op_fail (io_error_new IoInvalidInput (lit ''path is not a regular file'')))"

definition multiple_links :: io_error where
  "multiple_links =
     io_error_new IoUnsupported (lit ''atomic patch refuses files with multiple hard links'')"

definition patch_target_changed :: io_error where
  "patch_target_changed =
     io_error_new IoWouldBlock (lit ''patch target changed while the patch was being applied'')"

text \<open>\<open>refresh_snapshot_after_rename\<close> returns the snapshot that the code stores back.\<close>

definition refresh_snapshot_after_rename ::
    "'h system \<Rightarrow> node_id \<Rightarrow> 'h file_snapshot_rec \<Rightarrow> string \<Rightarrow> 'h file_snapshot_rec io_op" where
  "refresh_snapshot_after_rename S f snapshot subject =
     op_bind (validate_security_metadata S f subject) (\<lambda>_.
     op_bind (file_snapshot S f) (\<lambda>refreshed.
       if same_payload_and_metadata refreshed snapshot then op_return refreshed
       else op_fail (io_error_new IoWouldBlock
              (lit subject @ lit '' changed during an atomic rename''))))"

definition validate_retained_snapshot_metadata ::
    "'h system \<Rightarrow> node_id \<Rightarrow> 'h file_snapshot_rec \<Rightarrow> string \<Rightarrow> unit io_op" where
  "validate_retained_snapshot_metadata S f expected changed_message =
     op_bind (fs_metadata S f) (\<lambda>m.
       if file_stat_snapshot m = fsn_stat expected then op_return ()
       else op_fail (io_error_new IoWouldBlock (lit changed_message)))"

definition validate_snapshot_slot ::
    "'h system \<Rightarrow> slot \<Rightarrow> 'h file_snapshot_rec \<Rightarrow> string \<Rightarrow> string \<Rightarrow> unit io_op" where
  "validate_snapshot_slot S s expected subject changed_message =
     op_bind (fs_symlink_metadata S s) (\<lambda>entry_before.
     if md_kind entry_before \<noteq> RegularNode then
       op_fail (io_error_new IoInvalidInput (lit changed_message))
     else op_bind (fs_open S s) (\<lambda>opened.
     op_bind (require_regular_file S opened) (\<lambda>(f, m).
     op_bind (fs_symlink_metadata S s) (\<lambda>entry_after.
     if md_kind entry_after \<noteq> RegularNode then
       op_fail (io_error_new IoInvalidInput (lit changed_message))
     else if md_id entry_before \<noteq> md_id m \<or> md_id entry_after \<noteq> md_id m then
       op_fail (io_error_new IoWouldBlock (lit changed_message))
     else if md_nlink m \<noteq> 1 then op_fail multiple_links
     else op_bind (validate_security_metadata S f subject) (\<lambda>_.
     op_bind (fs_metadata S f) (\<lambda>after.
     if md_nlink after \<noteq> 1 then op_fail multiple_links
     else if matches_metadata expected after then op_return ()
     else op_fail (io_error_new IoWouldBlock (lit changed_message))))))))"

section \<open>Staged files and the recovery directory\<close>

record 'h replacement_metadata_rec =
  rm_permissions :: nat
  rm_snapshot :: "'h file_snapshot_rec"
  rm_file :: node_id
  rm_uid :: nat
  rm_gid :: nat
  rm_mode :: nat

record 'h staged_file =
  st_path :: ustring
  st_file :: node_id
  st_snapshot :: "'h file_snapshot_rec"

record recovery_namespace =
  rn_directory :: node_id
  rn_id :: node_id

datatype recovery_namespace_error = NamespaceIdentity io_error | NamespacePolicy io_error

definition refresh_replacement_after_rename ::
    "'h system \<Rightarrow> 'h replacement_metadata_rec \<Rightarrow> 'h replacement_metadata_rec io_op" where
  "refresh_replacement_after_rename S expected =
     op_bind (refresh_snapshot_after_rename S (rm_file expected) (rm_snapshot expected)
         ''atomic patch target'') (\<lambda>snapshot.
     op_return (expected\<lparr>rm_snapshot := snapshot\<rparr>))"

definition validate_replacement_slot_identity ::
    "'h system \<Rightarrow> slot \<Rightarrow> 'h replacement_metadata_rec \<Rightarrow> unit io_op" where
  "validate_replacement_slot_identity S s expected =
     validate_snapshot_slot S s (rm_snapshot expected) ''atomic patch target''
       ''patch target changed during commit''"

definition validate_replacement_slot ::
    "'h system \<Rightarrow> slot \<Rightarrow> 'h replacement_metadata_rec \<Rightarrow> unit io_op" where
  "validate_replacement_slot S s expected =
     op_bind (validate_security_metadata S (rm_file expected) ''atomic patch target'') (\<lambda>_.
     op_bind (file_snapshot S (rm_file expected)) (\<lambda>snapshot.
       if snapshot \<noteq> rm_snapshot expected then op_fail patch_target_changed
       else validate_replacement_slot_identity S s expected))"

definition validate_installed_staging_slot ::
    "'h system \<Rightarrow> slot \<Rightarrow> 'h staged_file \<Rightarrow> unit io_op" where
  "validate_installed_staging_slot S s staged =
     validate_snapshot_slot S s (st_snapshot staged) ''installed patch file''
       ''patch target changed during commit; automatic cleanup was skipped''"

definition validate_staging_slot :: "'h system \<Rightarrow> node_id \<Rightarrow> 'h staged_file \<Rightarrow> unit io_op" where
  "validate_staging_slot S dir staged =
     op_bind (validate_security_metadata S (st_file staged) ''patch staging file'') (\<lambda>_.
     op_bind (validate_retained_snapshot_metadata S (st_file staged) (st_snapshot staged)
         ''patch staging file changed before commit'') (\<lambda>_.
     validate_snapshot_slot S (dir, st_path staged) (st_snapshot staged) ''patch staging file''
       ''patch staging file changed before commit''))"

definition replacement_metadata ::
    "'h system \<Rightarrow> slot \<Rightarrow> 'h file_snapshot_rec \<Rightarrow> 'h replacement_metadata_rec io_op" where
  "replacement_metadata S s expected =
     op_bind (fs_open S s) (\<lambda>opened.
     op_bind (require_regular_file S opened) (\<lambda>(f, m0).
     if md_nlink m0 \<noteq> 1 then op_fail multiple_links
     else op_bind (validate_security_metadata S f ''atomic patch target'') (\<lambda>_.
     op_bind (fs_metadata S f) (\<lambda>m.
     if md_nlink m \<noteq> 1 \<or> file_stat_snapshot m \<noteq> fsn_stat expected then
       op_fail patch_target_changed
     else op_bind (validate_security_metadata S f ''atomic patch target'') (\<lambda>_.
     op_bind (fs_metadata S f) (\<lambda>final.
     if md_nlink final \<noteq> 1 \<or> file_stat_snapshot final \<noteq> fsn_stat expected then
       op_fail patch_target_changed
     else op_return
       \<lparr>rm_permissions = md_mode final, rm_snapshot = expected, rm_file = f,
        rm_uid = md_uid final, rm_gid = md_gid final, rm_mode = md_mode final\<rparr>))))))"

text \<open>\<open>write_all\<close> from the start of a file just created.\<close>

function write_all :: "'h system \<Rightarrow> node_id \<Rightarrow> nat \<Rightarrow> nat list \<Rightarrow> unit io_op" where
  "write_all S f offset rest w =
     (if rest = [] then (Inr (), w)
      else case fs_write_at S f rest offset w of
             (Inl e, w1) \<Rightarrow> (Inl e, w1)
           | (Inr k, w1) \<Rightarrow>
               if k = 0 then
                 (Inl (io_error_new (IoOther (lit ''WriteZero''))
                    (lit ''failed to write whole buffer'')), w1)
               else write_all S f (offset + k) (drop k rest) w1)"
  by pat_completeness auto
termination
  by (relation "measure (\<lambda>(S, f, offset, rest, w). length rest)") auto

declare write_all.simps [simp del]

definition GITIGNORE_CONTENT :: "nat list" where
  "GITIGNORE_CONTENT = [42, 10]"

definition ensure_recovery_gitignore :: "'h system \<Rightarrow> node_id \<Rightarrow> unit io_op" where
  "ensure_recovery_gitignore S recovery =
     op_bind (op_attempt (fs_create_new S (recovery, lit ''.gitignore''))) (\<lambda>r.
       case r of
         Inr f \<Rightarrow> op_bind (write_all S f 0 GITIGNORE_CONTENT) (\<lambda>_. fs_sync S f)
       | Inl source \<Rightarrow>
           if io_kind source = IoAlreadyExists then
             op_bind (fs_open S (recovery, lit ''.gitignore'')) (\<lambda>opened.
             op_bind (require_regular_file S opened) (\<lambda>(f, m).
             op_bind (read_up_to S f 3 3 0 []) (\<lambda>content.
               if content = GITIGNORE_CONTENT then op_return ()
               else op_fail (io_error_new IoInvalidData
                 (lit ''recovery namespace .gitignore has unexpected content'')))))
           else op_fail source)"

definition open_recovery_directory_slot :: "'h system \<Rightarrow> node_id \<Rightarrow> node_id io_op" where
  "open_recovery_directory_slot S parent =
     op_bind (fs_open_directory S (parent, RECOVERY_DIRECTORY)) (\<lambda>f.
     op_bind (fs_metadata S f) (\<lambda>m.
       if md_kind m \<noteq> DirectoryNode then
         op_fail (io_error_new IoInvalidInput
           (lit ''recovery namespace '' @ quoted RECOVERY_DIRECTORY @ lit '' is not a real directory''))
       else op_return f))"

definition open_recovery_namespace :: "'h system \<Rightarrow> node_id \<Rightarrow> recovery_namespace io_op" where
  "open_recovery_namespace S dir =
     op_bind (op_attempt (fs_create_dir S (dir, RECOVERY_DIRECTORY))) (\<lambda>r.
     op_bind (case r of
         Inr _ \<Rightarrow> op_return ()
       | Inl source \<Rightarrow>
           if io_kind source = IoAlreadyExists then op_return () else op_fail source) (\<lambda>_.
     op_bind (open_recovery_directory_slot S dir) (\<lambda>recovery.
     op_bind (ensure_recovery_gitignore S recovery) (\<lambda>_.
     op_bind (fs_metadata S recovery) (\<lambda>m.
       op_return \<lparr>rn_directory = recovery, rn_id = md_id m\<rparr>)))))"

definition validate_recovery_namespace_slot ::
    "'h system \<Rightarrow> node_id \<Rightarrow> recovery_namespace \<Rightarrow> (recovery_namespace_error, world, unit) op" where
  "validate_recovery_namespace_slot S parent recovery =
     op_bind (op_map_err (\<lambda>source. NamespaceIdentity (io_error_new IoWouldBlock
         (lit ''recovery namespace path changed ('' @ io_text source @ lit '')'')))
       (open_recovery_directory_slot S parent)) (\<lambda>slot.
     op_bind (op_map_err (\<lambda>source. NamespaceIdentity (io_error_new (io_kind source)
         (lit ''failed to inspect recovery namespace slot ('' @ io_text source @ lit '')'')))
       (fs_metadata S slot)) (\<lambda>slot_metadata.
     op_bind (op_map_err (\<lambda>source. NamespaceIdentity (io_error_new (io_kind source)
         (lit ''failed to inspect retained recovery namespace ('' @ io_text source @ lit '')'')))
       (fs_metadata S (rn_directory recovery))) (\<lambda>handle_metadata.
       if md_id slot_metadata \<noteq> rn_id recovery \<or> md_id handle_metadata \<noteq> rn_id recovery then
         op_fail (NamespaceIdentity (io_error_new IoWouldBlock
           (lit ''recovery namespace identity changed'')))
       else op_map_err NamespacePolicy (ensure_recovery_gitignore S (rn_directory recovery)))))"

fun recovery_namespace_error_source :: "recovery_namespace_error \<Rightarrow> io_error" where
  "recovery_namespace_error_source (NamespacePolicy source) = source"
| "recovery_namespace_error_source (NamespaceIdentity source) = source"

end
