(* ===== verification/Workspace.thy ===== *)
theory Workspace
  imports Publish_Checks
begin

text \<open>
  The workspace as a whole (\<open>CodingWorkspace\<close> of crates/capability-coding/src/workspace.rs): how a
  requested path becomes a path relative to its root, the files opened below it, and the metadata
  that every tool output carries. Opening the root and probing git are not modelled.
\<close>

section \<open>The context\<close>

record git_worktree_context =
  gw_worktree_root :: path
  gw_git_dir :: path
  gw_common_dir :: path

record workspace_context =
  wc_root :: path
  wc_git_worktree :: "git_worktree_context option"

definition is_linked_worktree :: "git_worktree_context \<Rightarrow> bool" where
  "is_linked_worktree g \<longleftrightarrow> gw_git_dir g \<noteq> gw_common_dir g"

text \<open>The JSON values that the tools build.\<close>

record 'v json_build =
  js_null :: 'v
  js_string :: "ustring \<Rightarrow> 'v"
  js_number :: "nat \<Rightarrow> 'v"
  js_bool :: "bool \<Rightarrow> 'v"
  js_array :: "'v list \<Rightarrow> 'v"
  js_object :: "(ustring, 'v) btree_map \<Rightarrow> 'v"

text \<open>How JSON values are read, and the lengths of the encodings of a value and of an output.\<close>

record 'v json_read =
  as_object :: "'v \<Rightarrow> (ustring, 'v) btree_map option"
  as_str :: "'v \<Rightarrow> ustring option"
  value_len :: "'v \<Rightarrow> nat"
  encoded_len :: "'v tool_output \<Rightarrow> nat"

text \<open>\<open>BTreeMap::from\<close> of an array, and the map behind \<open>json!\<close> of an object.\<close>

definition btree_from :: "('k::linorder \<times> 'v) list \<Rightarrow> ('k, 'v) btree_map" where
  "btree_from kvs = fold (\<lambda>(k, v). bt_insert k v) kvs []"

fun bounded_path_loop :: "nat \<Rightarrow> ustring \<Rightarrow> ustring \<times> bool" where
  "bounded_path_loop used [] = ([], False)"
| "bounded_path_loop used (c # s) =
     (if used + json_character_bytes c > 2 * 1024 then ([], True)
      else (case bounded_path_loop (used + json_character_bytes c) s of (p, t) \<Rightarrow> (c # p, t)))"

definition bounded_metadata_path :: "path \<Rightarrow> ustring \<times> bool" where
  "bounded_metadata_path p = bounded_path_loop 2 (join_components p)"

definition context_metadata :: "'v json_build \<Rightarrow> workspace_context \<Rightarrow> 'v" where
  "context_metadata J c =
     (let root = bounded_metadata_path (wc_root c);
          git = map_option (\<lambda>g. (bounded_metadata_path (gw_worktree_root g),
                  bounded_metadata_path (gw_git_dir g), bounded_metadata_path (gw_common_dir g),
                  is_linked_worktree g)) (wc_git_worktree c);
          truncated = (snd root \<or> (case git of None \<Rightarrow> False
            | Some (a, b, d, _) \<Rightarrow> snd a \<or> snd b \<or> snd d))
      in js_object J (btree_from
           [(lit ''root'', js_string J (fst root)),
            (lit ''git_worktree'',
               (case git of None \<Rightarrow> js_null J
                | Some (a, b, d, linked) \<Rightarrow> js_object J (btree_from
                    [(lit ''worktree_root'', js_string J (fst a)),
                     (lit ''git_dir'', js_string J (fst b)),
                     (lit ''common_dir'', js_string J (fst d)),
                     (lit ''linked'', js_bool J linked)]))),
            (lit ''metadata_truncated'', js_bool J truncated)]))"

section \<open>Requested paths\<close>

text \<open>\<open>PathBuf::pop\<close> and \<open>push\<close> of one component.\<close>

definition path_pop :: "path \<Rightarrow> path" where
  "path_pop p = (if p = [] \<or> p = [RootDir] then p else butlast p)"

fun normalize_from :: "path \<Rightarrow> path \<Rightarrow> path" where
  "normalize_from acc [] = acc"
| "normalize_from acc (c # cs) =
     normalize_from
       (case c of
          CurDir \<Rightarrow> acc
        | ParentDir \<Rightarrow> path_pop acc
        | RootDir \<Rightarrow> [RootDir]
        | NormalComp n \<Rightarrow> acc @ [NormalComp n]) cs"

definition normalize_path :: "path \<Rightarrow> path" where
  "normalize_path p = normalize_from [] p"

definition ensure_inside :: "workspace_context \<Rightarrow> path \<Rightarrow> workspace_path_error + unit" where
  "ensure_inside c p =
     (if path_starts_with p (wc_root c) then Inr () else Inl (OutsideWorkspace p (wc_root c)))"

definition relative_request_path ::
    "workspace_context \<Rightarrow> ustring \<Rightarrow> workspace_path_error + path" where
  "relative_request_path c requested =
     (let lexical = (if is_absolute requested then normalize_path (path_components requested)
                     else normalize_path (path_join (wc_root c) requested))
      in try_res (ensure_inside c lexical) (\<lambda>_.
           let relative = drop (length (wc_root c)) lexical
           in Inr (if relative = [] then [CurDir] else relative)))"

definition path_access_error :: "workspace_context \<Rightarrow> path \<Rightarrow> io_error \<Rightarrow> workspace_path_error" where
  "path_access_error c p source =
     (if io_kind source = IoPermissionDenied
         \<and> contains_str (lit ''outside of the filesystem'') (io_text source)
      then OutsideWorkspace p (wc_root c)
      else WorkspaceAccess p source)"

record resolved_path =
  rp_relative :: path
  rp_existed :: bool

definition resolve_existing ::
    "'h system \<Rightarrow> workspace_context \<Rightarrow> ustring \<Rightarrow> (workspace_path_error, world, resolved_path) op" where
  "resolve_existing S c requested =
     op_bind (op_result (relative_request_path c requested)) (\<lambda>relative.
     op_bind (op_map_err (path_access_error c (path_components requested))
         (fs_stat_path S relative)) (\<lambda>m.
     if md_kind m = SymlinkNode then
       op_fail (OutsideWorkspace (path_components requested) (wc_root c))
     else op_return \<lparr>rp_relative = relative, rp_existed = True\<rparr>))"

text \<open>\<open>parent()\<close> or the dot, and \<open>file_name()\<close>, of a relative path.\<close>

definition parent_or_dot :: "path \<Rightarrow> path" where
  "parent_or_dot p = (if butlast p = [] then [CurDir] else butlast p)"

definition path_file_name :: "path \<Rightarrow> ustring option" where
  "path_file_name p = (case rev p of NormalComp n # _ \<Rightarrow> Some n | _ \<Rightarrow> None)"

definition resolve_for_write ::
    "'h system \<Rightarrow> workspace_context \<Rightarrow> ustring \<Rightarrow> (workspace_path_error, world, resolved_path) op" where
  "resolve_for_write S c requested =
     op_bind (op_result (relative_request_path c requested)) (\<lambda>relative.
     op_bind (op_attempt (fs_stat_path S relative)) (\<lambda>r.
     case r of
       Inr _ \<Rightarrow> resolve_existing S c requested
     | Inl source \<Rightarrow>
         if io_kind source = IoNotFound then
           op_bind (op_map_err (path_access_error c (parent_or_dot relative))
               (fs_open_dir S (parent_or_dot relative))) (\<lambda>_.
             case path_file_name relative of
               None \<Rightarrow> op_fail (OutsideWorkspace (path_components requested) (wc_root c))
             | Some _ \<Rightarrow> op_return \<lparr>rp_relative = relative, rp_existed = False\<rparr>)
         else op_fail (path_access_error c (path_components requested) source)))"

definition open_regular_file :: "'h system \<Rightarrow> path \<Rightarrow> (node_id \<times> metadata) io_op" where
  "open_regular_file S p = op_bind (fs_open_path S p) (require_regular_file S)"

text \<open>A request never resolves to a path that leaves the root.\<close>

lemma set_path_pop: "x \<in> set (path_pop p) \<Longrightarrow> x \<in> set p"
  by (auto simp: path_pop_def dest: in_set_butlastD split: if_splits)

lemma normalize_from_plain:
  "ParentDir \<notin> set acc \<Longrightarrow> CurDir \<notin> set acc
     \<Longrightarrow> ParentDir \<notin> set (normalize_from acc p) \<and> CurDir \<notin> set (normalize_from acc p)"
proof (induction acc p rule: normalize_from.induct)
  case (2 acc c cs)
  then show ?case by (cases c) (auto dest: set_path_pop)
qed simp

lemma relative_request_inside:
  assumes "relative_request_path c requested = Inr p"
  shows "ParentDir \<notin> set p" and "p \<noteq> []"
proof -
  have "ParentDir \<notin> set (normalize_path q)" for q
    using normalize_from_plain [of "[]" q] by (simp add: normalize_path_def)
  with assms show "ParentDir \<notin> set p"
    by (auto simp: relative_request_path_def ensure_inside_def Let_def dest: in_set_dropD
        split: if_splits)
  from assms show "p \<noteq> []"
    by (auto simp: relative_request_path_def ensure_inside_def Let_def split: if_splits)
qed

section \<open>Confinement\<close>

text \<open>A name that a file system resolves inside a directory, and a path of such names.\<close>

fun plain_component :: "component \<Rightarrow> bool" where
  "plain_component (NormalComp n) \<longleftrightarrow> n \<noteq> [] \<and> n \<noteq> [46] \<and> n \<noteq> [46, 46] \<and> slash \<notin> set n"
| "plain_component _ \<longleftrightarrow> False"

definition rooted :: "path \<Rightarrow> bool" where
  "rooted p \<longleftrightarrow> p \<noteq> [] \<and> hd p = RootDir \<and> list_all plain_component (tl p)"

definition sound_component :: "component \<Rightarrow> bool" where
  "sound_component x \<longleftrightarrow> (\<forall>n. x = NormalComp n \<longrightarrow> plain_component x)"

lemma path_components_sound: "list_all sound_component (path_components s)"
  by (auto simp: path_components_def component_of_def sound_component_def list_all_iff Let_def
      dest: split_on_parts split: list.splits if_splits)

lemma rooted_pop: "rooted acc \<Longrightarrow> rooted (path_pop acc)"
  by (cases acc) (auto simp: rooted_def path_pop_def list_all_iff dest: in_set_butlastD)

lemma rooted_push: "rooted acc \<Longrightarrow> plain_component x \<Longrightarrow> rooted (acc @ [x])"
  by (cases acc) (auto simp: rooted_def)

lemma normalize_from_rooted:
  "rooted acc \<Longrightarrow> list_all sound_component cs \<Longrightarrow> rooted (normalize_from acc cs)"
proof (induction acc cs rule: normalize_from.induct)
  case (2 acc c cs)
  then have "rooted (case c of CurDir \<Rightarrow> acc | ParentDir \<Rightarrow> path_pop acc | RootDir \<Rightarrow> [RootDir]
      | NormalComp n \<Rightarrow> acc @ [NormalComp n])"
    by (cases c) (simp_all add: rooted_pop rooted_push sound_component_def, simp add: rooted_def)
  with 2 show ?case by simp
qed simp

lemma joined_path_rooted:
  assumes "rooted root"
  shows "rooted (normalize_path (path_join root requested))"
proof -
  obtain q where root: "root = RootDir # q" "list_all plain_component q"
    using assms by (cases root) (auto simp: rooted_def)
  from root(2) have sound: "list_all sound_component q"
    by (auto simp: list_all_iff sound_component_def)
  have start: "rooted [RootDir]" by (simp add: rooted_def)
  obtain cs where "path_join root requested = RootDir # cs" "list_all sound_component cs"
    using path_components_sound [of requested] absolute_root [of requested] root(1) sound
    by (fastforce simp: path_join_def list_all_iff split: if_splits)
  with normalize_from_rooted [OF start] show ?thesis by (simp add: normalize_path_def)
qed

text \<open>
  C7. Requested paths are confined: whatever string a tool is given, it is either refused as outside
  the workspace, exactly when its normalized absolute form does not start with the root, or it
  becomes a path relative to the root that consists of plain names only (no root, no parent
  directory, no separator), or is the root itself.
\<close>
theorem requests_stay_inside:
  assumes "rooted (wc_root c)"
  shows "let lexical = normalize_path (path_join (wc_root c) requested)
    in case relative_request_path c requested of
         Inl e \<Rightarrow> e = OutsideWorkspace lexical (wc_root c) \<and> \<not> path_starts_with lexical (wc_root c)
       | Inr p \<Rightarrow> p = [CurDir] \<and> lexical = wc_root c
           \<or> p \<noteq> [] \<and> list_all plain_component p \<and> lexical = wc_root c @ p"
proof -
  let ?l = "normalize_path (path_join (wc_root c) requested)"
  have l: "(if is_absolute requested then normalize_path (path_components requested)
      else normalize_path (path_join (wc_root c) requested)) = ?l"
    by (simp add: path_join_def)
  have "rooted ?l" by (rule joined_path_rooted [OF assms])
  then have "list_all plain_component q" if "?l = wc_root c @ q" for q
    using assms that by (cases "wc_root c") (auto simp: rooted_def)
  then show ?thesis
    unfolding relative_request_path_def l
    by (auto simp: ensure_inside_def path_starts_with_def prefix_def Let_def)
qed

theorem requests_stay_inside_witness:
  "relative_request_path \<lparr>wc_root = [RootDir, NormalComp [119]], wc_git_worktree = None\<rparr>
       (lit ''a/./../b'') = Inr [NormalComp (lit ''b'')]
     \<and> (let lexical = normalize_path (path_join [RootDir, NormalComp [119]] (lit ''../w2''))
        in \<not> path_starts_with lexical [RootDir, NormalComp [119]])"
proof -
  let ?c = "\<lparr>wc_root = [RootDir, NormalComp [119]], wc_git_worktree = None\<rparr>"
  have "rooted (wc_root ?c)" by (simp add: rooted_def slash_def)
  note inside = requests_stay_inside [OF this, of "lit ''../w2''"]
  have "isl (relative_request_path ?c (lit ''../w2''))" by code_simp
  with inside have "\<not> path_starts_with (normalize_path (path_join (wc_root ?c) (lit ''../w2'')))
      (wc_root ?c)"
    by (auto simp: Let_def isl_def)
  moreover have "relative_request_path ?c (lit ''a/./../b'') = Inr [NormalComp (lit ''b'')]"
    by code_simp
  ultimately show ?thesis by simp
qed

end
