(* ===== verification/Publish.thy ===== *)
theory Publish
  imports Workspace
begin

text \<open>
  Publication of a patched file (crates/capability-coding/src/workspace.rs): the content is staged
  in a new file beside the target, and enters its place by a rename that never replaces an entry
  (\<open>commit_new_file\<close>) or by an exchange with the target inside the recovery directory
  (\<open>commit_existing_file\<close>). What cannot be published is moved into the recovery directory, and the
  error says what is known about it.
\<close>

section \<open>Names\<close>

definition hex_digit :: "nat \<Rightarrow> uchar" where
  "hex_digit n = (if n < 10 then 48 + n else 87 + n)"

definition hex_byte :: "nat \<Rightarrow> ustring" where
  "hex_byte b = [hex_digit (b div 16), hex_digit (b mod 16)]"

definition random_patch_path :: "'h system \<Rightarrow> string \<Rightarrow> ustring io_op" where
  "random_patch_path S kind =
     op_bind (op_map_err (\<lambda>source. io_error_new (IoOther (lit ''Other''))
         (lit ''failed to generate patch nonce: '' @ io_text source)) (fs_random S 16)) (\<lambda>random.
     op_return (lit ''.young-agent-patch-'' @ lit kind @ lit ''-'' @ concat (map hex_byte random)
       @ lit ''.tmp''))"

text \<open>The loop of \<open>claim_path\<close> and \<open>move_to_recovery_namespace\<close>.\<close>

fun rename_to_fresh :: "'h system \<Rightarrow> nat \<Rightarrow> slot \<Rightarrow> node_id \<Rightarrow> string \<Rightarrow> string \<Rightarrow> ustring io_op" where
  "rename_to_fresh S 0 s dir kind exhausted w =
     op_fail (io_error_new IoAlreadyExists (lit exhausted)) w"
| "rename_to_fresh S (Suc k) s dir kind exhausted w =
     op_bind (random_patch_path S kind) (\<lambda>name.
     op_bind (op_attempt (fs_rename_noreplace S s (dir, name))) (\<lambda>r.
       case r of
         Inr _ \<Rightarrow> op_return name
       | Inl source \<Rightarrow>
           if io_kind source = IoAlreadyExists
           then (\<lambda>w1. rename_to_fresh S k s dir kind exhausted w1)
           else op_fail source)) w"

definition claim_path :: "'h system \<Rightarrow> slot \<Rightarrow> string \<Rightarrow> ustring io_op" where
  "claim_path S s kind =
     rename_to_fresh S 100 s (fst s) kind ''could not allocate a unique patch recovery path''"

definition move_to_recovery_namespace ::
    "'h system \<Rightarrow> slot \<Rightarrow> node_id \<Rightarrow> string \<Rightarrow> ustring io_op" where
  "move_to_recovery_namespace S s recovery kind =
     rename_to_fresh S 100 s recovery kind ''could not allocate a unique namespaced recovery path''"

definition move_claimed_to_recovery_namespace ::
    "'h system \<Rightarrow> slot \<Rightarrow> string \<Rightarrow> (recovery_namespace \<times> ustring) io_op" where
  "move_claimed_to_recovery_namespace S s kind =
     op_bind (open_recovery_namespace S (fst s)) (\<lambda>recovery.
     op_bind (move_to_recovery_namespace S s (rn_directory recovery) kind) (\<lambda>destination.
     op_return (recovery, destination)))"

definition restore_claimed_path :: "'h system \<Rightarrow> slot \<Rightarrow> slot \<Rightarrow> ustring \<Rightarrow> unit io_op" where
  "restore_claimed_path S claimed s context_text =
     op_map_err (\<lambda>restore. io_error_new (io_kind restore)
       (context_text @ lit ''; '' @ quoted (snd claimed) @ lit '' could not be restored to ''
          @ quoted (snd s) @ lit '' and was preserved ('' @ io_text restore @ lit '')''))
       (fs_rename_noreplace S claimed s)"

section \<open>Evidence\<close>

datatype recovery_content_evidence = EvidenceVerified | InspectionFailed | Mismatch

definition recovery_content_failure_kind :: "io_error \<Rightarrow> recovery_content_evidence" where
  "recovery_content_failure_kind source =
     (if io_loop source then Mismatch
      else if io_kind source \<in> {IoWouldBlock, IoNotFound, IoInvalidInput} then Mismatch
      else InspectionFailed)"

definition inspect_preserved_recovery_content ::
    "'h system \<Rightarrow> slot \<Rightarrow> node_id \<Rightarrow> 'h file_snapshot_rec
       \<Rightarrow> ('e, world, recovery_content_evidence) op" where
  "inspect_preserved_recovery_content S s f expected =
     op_bind (op_attempt (refresh_snapshot_after_rename S f expected ''preserved patch staging file''))
       (\<lambda>r. case r of
          Inl source \<Rightarrow> op_return (recovery_content_failure_kind source)
        | Inr refreshed \<Rightarrow>
            op_bind (op_attempt (validate_snapshot_slot S s refreshed
                ''preserved patch staging file''
                ''preserved patch staging entry changed during recovery'')) (\<lambda>v.
              case v of
                Inl source \<Rightarrow> op_return (recovery_content_failure_kind source)
              | Inr _ \<Rightarrow> op_return EvidenceVerified))"

text \<open>
  Whether the recovery directory is still in place, and if so whether its policy file is: \<open>None\<close> is
  the early return of \<open>PublishedRecovery::Unlocated\<close>.
\<close>

definition namespace_policy ::
    "'h system \<Rightarrow> node_id \<Rightarrow> recovery_namespace \<Rightarrow> ('e, world, bool option) op" where
  "namespace_policy S parent recovery =
     op_bind (op_attempt (validate_recovery_namespace_slot S parent recovery)) (\<lambda>r.
       op_return (case r of
           Inr _ \<Rightarrow> Some True
         | Inl (NamespacePolicy _) \<Rightarrow> Some False
         | Inl (NamespaceIdentity _) \<Rightarrow> None))"

fun located_evidence :: "recovery_content_evidence \<Rightarrow> bool \<Rightarrow> path \<Rightarrow> published_recovery" where
  "located_evidence EvidenceVerified True p = LocatedVerified p"
| "located_evidence InspectionFailed True p = LocatedContentUnverified p"
| "located_evidence EvidenceVerified False p = LocatedPolicyUnverified p"
| "located_evidence InspectionFailed False p = LocatedContentAndPolicyUnverified p"
| "located_evidence Mismatch _ p = Unlocated"

definition recovery_file :: "ustring \<Rightarrow> path" where
  "recovery_file name = [NormalComp RECOVERY_DIRECTORY, NormalComp name]"

definition preserved_recovery_evidence ::
    "'h system \<Rightarrow> node_id \<Rightarrow> recovery_namespace \<Rightarrow> ustring \<Rightarrow> node_id \<Rightarrow> 'h file_snapshot_rec
       \<Rightarrow> ('e, world, published_recovery) op" where
  "preserved_recovery_evidence S parent recovery name f expected =
     op_bind (namespace_policy S parent recovery) (\<lambda>policy_before.
     case policy_before of
       None \<Rightarrow> op_return Unlocated
     | Some policy1 \<Rightarrow>
         op_bind (inspect_preserved_recovery_content S (rn_directory recovery, name) f expected)
           (\<lambda>content.
         if content = Mismatch then op_return Unlocated
         else op_bind (namespace_policy S parent recovery) (\<lambda>policy_after.
           case policy_after of
             None \<Rightarrow> op_return Unlocated
           | Some policy2 \<Rightarrow>
               op_return (located_evidence content (policy1 \<and> policy2) (recovery_file name)))))"

section \<open>Cleaning up a staged file\<close>

fun preserved_staging_text :: "published_recovery \<Rightarrow> ustring" where
  "preserved_staging_text (LocatedVerified p) =
     lit ''; owned staging data was preserved as recovery file '' @ quoted (join_components p)"
| "preserved_staging_text (LocatedPolicyUnverified p) =
     lit ''; owned staging data was preserved as recovery file '' @ quoted (join_components p)"
| "preserved_staging_text (LocatedContentUnverified p) =
     lit ''; a possible recovery path was retained at '' @ quoted (join_components p)
       @ lit '', but its content could not be verified''"
| "preserved_staging_text (LocatedContentAndPolicyUnverified p) =
     lit ''; a possible recovery path was retained at '' @ quoted (join_components p)
       @ lit '', but its content could not be verified''"
| "preserved_staging_text Unlocated =
     lit ''; owned staging data was preserved, but its recovery location could not be verified''"
| "preserved_staging_text NotApplicableNewFile =
     lit ''; owned staging data has no applicable recovery location''"

text \<open>The \<open>io::Error\<close> that wraps a \<open>PreservedStagingError\<close>.\<close>

definition preserved_staging_error :: "io_error \<Rightarrow> published_recovery \<Rightarrow> io_error" where
  "preserved_staging_error source recovery =
     \<lparr>io_kind = io_kind source,
      io_text = lit ''patch operation failed ('' @ io_text source @ lit '')''
        @ preserved_staging_text recovery,
      io_loop = False, io_recovery = Some recovery\<rparr>"

definition claimed_staging_matches ::
    "'h system \<Rightarrow> slot \<Rightarrow> node_id \<Rightarrow> 'h file_snapshot_rec \<Rightarrow> bool io_op" where
  "claimed_staging_matches S claimed staging_file expected =
     op_bind (fs_open S claimed) (\<lambda>opened.
     op_bind (require_regular_file S opened) (\<lambda>(f, m).
     op_bind (op_attempt (validate_security_metadata S staging_file ''patch staging file'')) (\<lambda>r1.
     if isl r1 then op_return False
     else op_bind (op_attempt (validate_security_metadata S f ''claimed patch staging file'')) (\<lambda>r2.
     if isl r2 then op_return False
     else op_bind (file_snapshot S staging_file) (\<lambda>retained.
     op_bind (file_snapshot S f) (\<lambda>claimed_snapshot.
       op_return (same_payload_and_metadata retained expected
         \<and> same_payload_and_metadata claimed_snapshot expected)))))))"

definition cleanup_expected_staging_after_error ::
    "'h system \<Rightarrow> slot \<Rightarrow> node_id \<Rightarrow> 'h file_snapshot_rec \<Rightarrow> io_error \<Rightarrow> 'a io_op" where
  "cleanup_expected_staging_after_error S staging staging_file expected source =
     op_bind (op_attempt (claim_path S staging ''cleanup'')) (\<lambda>c.
     case c of
       Inl claim \<Rightarrow>
         if io_kind claim = IoNotFound then op_fail source
         else op_fail (io_error_new (io_kind claim)
           (lit ''patch operation failed ('' @ io_text source @ lit ''); staging path ''
              @ quoted (snd staging) @ lit '' could not be claimed for cleanup (''
              @ io_text claim @ lit '')''))
     | Inr claimed \<Rightarrow>
         op_bind (op_attempt (claimed_staging_matches S (fst staging, claimed) staging_file expected))
           (\<lambda>matches.
         case matches of
           Inr False \<Rightarrow>
             op_bind (restore_claimed_path S (fst staging, claimed) staging
                 (lit ''patch operation failed ('' @ io_text source
                    @ lit ''); staging identity changed'')) (\<lambda>_.
             op_fail (io_error_new IoWouldBlock
               (lit ''patch operation failed ('' @ io_text source
                  @ lit ''); concurrent staging entry was restored as '' @ quoted (snd staging))))
         | Inl validation \<Rightarrow>
             op_bind (restore_claimed_path S (fst staging, claimed) staging
                 (lit ''patch operation failed ('' @ io_text source
                    @ lit ''); staging ownership was indeterminate ('' @ io_text validation
                    @ lit '')'')) (\<lambda>_.
             op_fail (io_error_new IoWouldBlock
               (lit ''patch operation failed ('' @ io_text source
                  @ lit ''); indeterminate staging entry was restored as '' @ quoted (snd staging)
                  @ lit '' ('' @ io_text validation @ lit '')'')))
         | Inr True \<Rightarrow>
             op_bind (op_map_err (\<lambda>recovery. io_error_new (io_kind recovery)
                 (lit ''patch operation failed ('' @ io_text source
                    @ lit ''); owned staging data remained at '' @ quoted claimed
                    @ lit '' because it could not enter the recovery namespace (''
                    @ io_text recovery @ lit '')''))
               (move_claimed_to_recovery_namespace S (fst staging, claimed) ''failed''))
               (\<lambda>(namespace, name).
             op_bind (preserved_recovery_evidence S (fst staging) namespace name staging_file expected)
               (\<lambda>recovery. op_fail (preserved_staging_error source recovery)))))"

definition cleanup_open_staging_after_error ::
    "'h system \<Rightarrow> slot \<Rightarrow> node_id \<Rightarrow> io_error \<Rightarrow> 'a io_op" where
  "cleanup_open_staging_after_error S staging staging_file source =
     op_bind (op_map_err (\<lambda>validation. io_error_new IoWouldBlock
         (lit ''patch operation failed ('' @ io_text source @ lit ''); staging file ''
            @ quoted (snd staging) @ lit '' could not be validated and was preserved (''
            @ io_text validation @ lit '')''))
       (file_snapshot S staging_file)) (\<lambda>expected.
     cleanup_expected_staging_after_error S staging staging_file expected source)"

definition cleanup_owned_staging_after_error ::
    "'h system \<Rightarrow> node_id \<Rightarrow> 'h staged_file \<Rightarrow> io_error \<Rightarrow> 'a io_op" where
  "cleanup_owned_staging_after_error S dir staged source =
     cleanup_expected_staging_after_error S (dir, st_path staged) (st_file staged)
       (st_snapshot staged) source"

section \<open>Staging\<close>

definition validate_staging_content_size :: "nat \<Rightarrow> unit io_op" where
  "validate_staging_content_size len =
     (if MAX_FILE_SNAPSHOT_BYTES < len then
        op_fail (io_error_new IoInvalidData
          (lit ''patch result exceeds '' @ dec_string MAX_FILE_SNAPSHOT_BYTES @ lit '' bytes''))
      else op_return ())"

text \<open>The checks before the write, and the mode after it, when an existing file is replaced.\<close>

definition check_staging_owner :: "'h system \<Rightarrow> node_id \<Rightarrow> 'h replacement_metadata_rec \<Rightarrow> unit io_op" where
  "check_staging_owner S f replacement =
     op_bind (fs_metadata S f) (\<lambda>m.
     if md_uid m \<noteq> rm_uid replacement \<or> md_gid m \<noteq> rm_gid replacement then
       op_fail (io_error_new IoUnsupported
         (lit ''atomic patch cannot preserve the target owner or group''))
     else op_bind (file_has_extended_attributes S f) (\<lambda>x.
     op_bind (if x then op_return True else has_extended_acl S f) (\<lambda>unsupported.
     if unsupported then
       op_fail (io_error_new IoUnsupported
         (lit ''atomic patch staging file inherited unsupported security metadata''))
     else op_return ())))"

definition copy_permissions :: "'h system \<Rightarrow> node_id \<Rightarrow> 'h replacement_metadata_rec \<Rightarrow> unit io_op" where
  "copy_permissions S f replacement =
     op_bind (fs_set_permissions S f (rm_permissions replacement)) (\<lambda>_.
     op_bind (fs_metadata S f) (\<lambda>m.
     if md_mode m \<noteq> rm_mode replacement then
       op_fail (io_error_new IoUnsupported
         (lit ''atomic patch could not preserve the target mode''))
     else fs_sync S f))"

definition fill_staging ::
    "'h system \<Rightarrow> node_id \<Rightarrow> nat list \<Rightarrow> 'h replacement_metadata_rec option \<Rightarrow> unit io_op" where
  "fill_staging S f content replacement =
     op_bind (case replacement of
         None \<Rightarrow> op_return () | Some r \<Rightarrow> check_staging_owner S f r) (\<lambda>_.
     op_bind (write_all S f 0 content) (\<lambda>_.
     op_bind (fs_sync S f) (\<lambda>_.
     op_bind (case replacement of
         None \<Rightarrow> op_return () | Some r \<Rightarrow> copy_permissions S f r) (\<lambda>_.
     validate_security_metadata S f ''patch staging file''))))"

definition stage_file ::
    "'h system \<Rightarrow> slot \<Rightarrow> node_id \<Rightarrow> nat list \<Rightarrow> 'h replacement_metadata_rec option
       \<Rightarrow> 'h staged_file io_op" where
  "stage_file S s f content replacement =
     op_bind (op_attempt (fill_staging S f content replacement)) (\<lambda>r.
     case r of
       Inl source \<Rightarrow> cleanup_open_staging_after_error S s f source
     | Inr _ \<Rightarrow>
         op_bind (op_attempt (op_bind (begin_file_snapshot S f) (\<lambda>captured.
           finish_file_snapshot_from_content S f captured content))) (\<lambda>snap.
         case snap of
           Inl source \<Rightarrow> cleanup_open_staging_after_error S s f source
         | Inr snapshot \<Rightarrow>
             op_return \<lparr>st_path = snd s, st_file = f, st_snapshot = snapshot\<rparr>))"

fun stage_attempts ::
    "'h system \<Rightarrow> nat \<Rightarrow> node_id \<Rightarrow> nat list \<Rightarrow> 'h replacement_metadata_rec option
       \<Rightarrow> 'h staged_file io_op" where
  "stage_attempts S 0 dir content replacement w =
     op_fail (io_error_new IoAlreadyExists
       (lit ''could not allocate a unique patch staging file'')) w"
| "stage_attempts S (Suc k) dir content replacement w =
     op_bind (random_patch_path S ''stage'') (\<lambda>candidate.
     op_bind (op_attempt (fs_create_new S (dir, candidate))) (\<lambda>r.
       case r of
         Inr f \<Rightarrow> stage_file S (dir, candidate) f content replacement
       | Inl source \<Rightarrow>
           if io_kind source = IoAlreadyExists
           then (\<lambda>w1. stage_attempts S k dir content replacement w1)
           else op_fail source)) w"

definition stage_content ::
    "'h system \<Rightarrow> node_id \<Rightarrow> nat list \<Rightarrow> 'h replacement_metadata_rec option \<Rightarrow> 'h staged_file io_op" where
  "stage_content S dir content replacement =
     op_bind (validate_staging_content_size (length content)) (\<lambda>_.
     stage_attempts S 100 dir content replacement)"

section \<open>Committing\<close>

datatype commit_new_error = NewBefore io_error | NewPublished io_error

datatype commit_error =
    CommitBefore io_error "published_recovery option"
  | CommitPublished io_error published_recovery

definition commit_before :: "io_error \<Rightarrow> commit_error" where
  "commit_before source = CommitBefore source (io_recovery source)"

definition published_target_changed :: "ustring \<Rightarrow> path option \<Rightarrow> io_error \<Rightarrow> io_error" where
  "published_target_changed target recovery source =
     io_error_new IoWouldBlock
       (lit ''patch was atomically published at '' @ quoted target
          @ lit '', but post-commit validation failed ('' @ io_text source
          @ lit ''); the published target was preserved''
          @ (case recovery of None \<Rightarrow> []
             | Some p \<Rightarrow> lit ''; displaced data was preserved as '' @ quoted (join_components p)))"

definition commit_new_file ::
    "'h system \<Rightarrow> node_id \<Rightarrow> 'h staged_file \<Rightarrow> ustring \<Rightarrow> (commit_new_error, world, unit) op" where
  "commit_new_file S dir staged name =
     op_bind (op_attempt (op_bind (validate_staging_slot S dir staged) (\<lambda>_.
       fs_rename_noreplace S (dir, st_path staged) (dir, name)))) (\<lambda>r.
     case r of
       Inl source \<Rightarrow> op_map_err NewBefore (cleanup_owned_staging_after_error S dir staged source)
     | Inr _ \<Rightarrow>
         op_map_err (\<lambda>source. NewPublished (published_target_changed name None source))
           (op_bind (refresh_snapshot_after_rename S (st_file staged) (st_snapshot staged)
               ''patch staging file'') (\<lambda>snapshot.
            validate_installed_staging_slot S (dir, name) (staged\<lparr>st_snapshot := snapshot\<rparr>))))"

text \<open>\<open>preserved_content_failure\<close>, \<open>preserved_commit_failure\<close> and \<open>published_commit_failure\<close>.\<close>

definition preserved_commit_failure ::
    "'h system \<Rightarrow> node_id \<Rightarrow> recovery_namespace \<Rightarrow> 'h staged_file \<Rightarrow> io_error
       \<Rightarrow> (commit_error, world, 'a) op" where
  "preserved_commit_failure S parent recovery staged source =
     op_bind (preserved_recovery_evidence S parent recovery (st_path staged)
       (st_file staged) (st_snapshot staged)) (\<lambda>evidence.
     op_fail (CommitBefore source (Some evidence)))"

definition published_commit_failure ::
    "'h system \<Rightarrow> node_id \<Rightarrow> recovery_namespace \<Rightarrow> 'h staged_file \<Rightarrow> 'h replacement_metadata_rec
       \<Rightarrow> io_error \<Rightarrow> (commit_error, world, 'a) op" where
  "published_commit_failure S parent recovery staged expected source =
     op_bind (preserved_recovery_evidence S parent recovery (st_path staged)
       (rm_file expected) (rm_snapshot expected)) (\<lambda>evidence.
     op_fail (CommitPublished source evidence))"

text \<open>
  \<open>commit_existing_file\<close> up to the exchange (\<open>prepare_exchange\<close>: \<open>Inl\<close> is an early return), the exchange
  itself, and what follows it.
\<close>

definition enter_recovery ::
    "'h system \<Rightarrow> node_id \<Rightarrow> recovery_namespace \<Rightarrow> 'h staged_file \<Rightarrow> slot \<Rightarrow> 'h replacement_metadata_rec
       \<Rightarrow> (commit_error, world, 'h staged_file) op" where
  "enter_recovery S dir recovery staged target expected =
     op_bind (op_attempt (op_bind (validate_staging_slot S dir staged) (\<lambda>_.
       op_bind (validate_replacement_slot S target expected) (\<lambda>_.
       move_to_recovery_namespace S (dir, st_path staged) (rn_directory recovery) ''displaced'')))) (\<lambda>r.
     case r of
       Inl source \<Rightarrow> op_map_err commit_before (cleanup_owned_staging_after_error S dir staged source)
     | Inr name \<Rightarrow> op_return (staged\<lparr>st_path := name\<rparr>))"

definition check_before_exchange ::
    "'h system \<Rightarrow> node_id \<Rightarrow> recovery_namespace \<Rightarrow> 'h staged_file
       \<Rightarrow> (commit_error, world, 'h staged_file) op" where
  "check_before_exchange S dir recovery staged =
     op_bind (op_attempt (refresh_snapshot_after_rename S (st_file staged) (st_snapshot staged)
         ''patch staging file'')) (\<lambda>r.
     case r of
       Inl source \<Rightarrow> preserved_commit_failure S dir recovery staged source
     | Inr snapshot \<Rightarrow>
         (let staged1 = staged\<lparr>st_snapshot := snapshot\<rparr>
          in op_bind (op_attempt (validate_installed_staging_slot S
                 (rn_directory recovery, st_path staged1) staged1)) (\<lambda>v.
             case v of
               Inl source \<Rightarrow> preserved_commit_failure S dir recovery staged1 source
             | Inr _ \<Rightarrow>
                 op_bind (op_attempt (validate_recovery_namespace_slot S dir recovery)) (\<lambda>n.
                 case n of
                   Inl e \<Rightarrow> preserved_commit_failure S dir recovery staged1
                             (recovery_namespace_error_source e)
                 | Inr _ \<Rightarrow> op_return staged1))))"

definition exchange_staged ::
    "'h system \<Rightarrow> node_id \<Rightarrow> recovery_namespace \<Rightarrow> 'h staged_file \<Rightarrow> slot
       \<Rightarrow> (commit_error, world, unit) op" where
  "exchange_staged S dir recovery staged target =
     op_bind (op_attempt (fs_exchange S (rn_directory recovery, st_path staged) target)) (\<lambda>r.
     case r of
       Inl source \<Rightarrow> preserved_commit_failure S dir recovery staged source
     | Inr _ \<Rightarrow> op_return ())"

definition check_after_exchange ::
    "'h system \<Rightarrow> node_id \<Rightarrow> recovery_namespace \<Rightarrow> 'h staged_file \<Rightarrow> slot \<Rightarrow> 'h replacement_metadata_rec
       \<Rightarrow> (commit_error, world, path) op" where
  "check_after_exchange S dir recovery staged target expected =
     op_bind (op_attempt (refresh_snapshot_after_rename S (st_file staged) (st_snapshot staged)
         ''patch staging file'')) (\<lambda>r.
     case r of
       Inl source \<Rightarrow> published_commit_failure S dir recovery staged expected source
     | Inr snapshot \<Rightarrow>
         (let staged1 = staged\<lparr>st_snapshot := snapshot\<rparr>
          in op_bind (op_attempt (refresh_replacement_after_rename S expected)) (\<lambda>q.
             case q of
               Inl source \<Rightarrow> published_commit_failure S dir recovery staged1 expected source
             | Inr expected1 \<Rightarrow>
                 op_bind (op_attempt (op_bind (validate_installed_staging_slot S target staged1) (\<lambda>_.
                   validate_replacement_slot_identity S (rn_directory recovery, st_path staged1)
                     expected1))) (\<lambda>v.
                 case v of
                   Inl source \<Rightarrow> published_commit_failure S dir recovery staged1 expected1 source
                 | Inr _ \<Rightarrow>
                     op_bind (op_attempt (validate_recovery_namespace_slot S dir recovery)) (\<lambda>n.
                     case n of
                       Inl e \<Rightarrow> published_commit_failure S dir recovery staged1 expected1
                                 (recovery_namespace_error_source e)
                     | Inr _ \<Rightarrow> op_return (recovery_file (st_path staged1)))))))"

definition commit_existing_file ::
    "'h system \<Rightarrow> node_id \<Rightarrow> recovery_namespace \<Rightarrow> 'h staged_file \<Rightarrow> ustring \<Rightarrow> 'h replacement_metadata_rec
       \<Rightarrow> (commit_error, world, path) op" where
  "commit_existing_file S dir recovery staged name expected =
     op_bind (enter_recovery S dir recovery staged (dir, name) expected) (\<lambda>staged1.
     op_bind (check_before_exchange S dir recovery staged1) (\<lambda>staged2.
     op_bind (exchange_staged S dir recovery staged2 (dir, name)) (\<lambda>_.
     check_after_exchange S dir recovery staged2 (dir, name) expected)))"

section \<open>The two entry points\<close>

datatype atomic_replace_error =
    ReplaceBefore io_error "published_recovery option"
  | ReplacePublished io_error path published_recovery

datatype atomic_create_error =
    CreateBefore io_error "published_recovery option"
  | CreatePublished io_error path

definition replace_before_within :: "path \<Rightarrow> io_error \<Rightarrow> atomic_replace_error" where
  "replace_before_within parent source =
     ReplaceBefore source (map_option (within_parent parent) (io_recovery source))"

definition create_before_within :: "path \<Rightarrow> io_error \<Rightarrow> atomic_create_error" where
  "create_before_within parent source =
     CreateBefore source (map_option (within_parent parent) (io_recovery source))"

definition target_name :: "path \<Rightarrow> io_error + ustring" where
  "target_name p =
     (case path_file_name p of
        Some n \<Rightarrow> Inr n
      | None \<Rightarrow> Inl (io_error_new IoInvalidInput (lit ''patch target has no file name'')))"

fun replace_error_of :: "path \<Rightarrow> path \<Rightarrow> commit_error \<Rightarrow> atomic_replace_error" where
  "replace_error_of parent p (CommitBefore source recovery) =
     ReplaceBefore source (map_option (within_parent parent) recovery)"
| "replace_error_of parent p (CommitPublished source recovery) =
     ReplacePublished source p (within_parent parent recovery)"

fun create_error_of :: "path \<Rightarrow> path \<Rightarrow> commit_new_error \<Rightarrow> atomic_create_error" where
  "create_error_of parent p (NewBefore source) = create_before_within parent source"
| "create_error_of parent p (NewPublished source) = CreatePublished source p"

definition replace_existing_atomically ::
    "'h system \<Rightarrow> path \<Rightarrow> nat list \<Rightarrow> 'h file_snapshot_rec \<Rightarrow> (atomic_replace_error, world, path option) op" where
  "replace_existing_atomically S p content expected_snapshot =
     (let parent = parent_or_dot p
      in op_bind (op_map_err (replace_before_within parent) (op_result (target_name p))) (\<lambda>name.
         op_bind (op_map_err (replace_before_within parent) (fs_open_dir S parent)) (\<lambda>dir.
         op_bind (op_map_err (replace_before_within parent)
             (replacement_metadata S (dir, name) expected_snapshot)) (\<lambda>expected.
         if rm_snapshot expected \<noteq> expected_snapshot then
           op_fail (replace_before_within parent patch_target_changed)
         else op_bind (op_map_err (replace_before_within parent) (open_recovery_namespace S dir))
             (\<lambda>recovery.
         op_bind (op_map_err (replace_before_within parent)
             (stage_content S dir content (Some expected))) (\<lambda>staged.
         op_bind (op_map_err (replace_error_of parent p)
             (commit_existing_file S dir recovery staged name expected)) (\<lambda>recovered.
         op_return (Some (parent @ recovered)))))))))"

definition create_new ::
    "'h system \<Rightarrow> path \<Rightarrow> nat list \<Rightarrow> (atomic_create_error, world, unit) op" where
  "create_new S p content =
     (let parent = parent_or_dot p
      in op_bind (op_map_err (create_before_within parent) (op_result (target_name p))) (\<lambda>name.
         op_bind (op_map_err (create_before_within parent) (fs_open_dir S parent)) (\<lambda>dir.
         op_bind (op_map_err (create_before_within parent) (stage_content S dir content None)) (\<lambda>staged.
         op_map_err (create_error_of parent p) (commit_new_file S dir staged name)))))"

end
