(* ===== verification/Disk_Invariant.thy ===== *)
theory Disk_Invariant
  imports Publish
begin

text \<open>
  What survives the publication code whatever other processes do, stated once as a contract: a
  predicate on the disk that other processes keep and that every kind of change the code makes
  keeps. The code creates entries where there are none, renames entries it made, and writes files
  it made; the predicate says which entries may be moved and which files written.
\<close>

section \<open>Operations that keep a predicate\<close>

definition steady :: "(disk \<Rightarrow> bool) \<Rightarrow> ('e, world, 'a) op \<Rightarrow> bool" where
  "steady I m \<longleftrightarrow> (\<forall>w. I (disk_of w) \<longrightarrow> I (disk_of (snd (m w))))"

text \<open>With a fact about the value returned.\<close>

definition gives :: "(disk \<Rightarrow> bool) \<Rightarrow> ('e, world, 'a) op \<Rightarrow> ('a \<Rightarrow> bool) \<Rightarrow> bool" where
  "gives I m R \<longleftrightarrow>
     (\<forall>w. I (disk_of w) \<longrightarrow>
        I (disk_of (snd (m w))) \<and> (\<forall>a. fst (m w) = Inr a \<longrightarrow> R a))"

named_theorems steady_rules \<open>rules for steady, one for each way of composing operations\<close>

lemma gives_keeps: "gives I m R \<Longrightarrow> steady I m"
  by (simp add: gives_def steady_def)

lemma gives_True: "gives I m (\<lambda>_. True) \<longleftrightarrow> steady I m"
  by (simp add: gives_def steady_def)

lemma steady_gives: "steady I m \<Longrightarrow> (\<And>w a. fst (m w) = Inr a \<Longrightarrow> R a) \<Longrightarrow> gives I m R"
  by (simp add: gives_def steady_def)

lemma gives_mono: "gives I m R \<Longrightarrow> (\<And>a. R a \<Longrightarrow> Q a) \<Longrightarrow> gives I m Q"
  by (auto simp: gives_def)

lemma gives_bind:
  assumes "gives I m R" and "\<And>a. R a \<Longrightarrow> gives I (f a) Q"
  shows "gives I (op_bind m f) Q"
  unfolding gives_def
proof (intro allI impI)
  fix w :: world assume I: "I (disk_of w)"
  show "I (disk_of (snd (op_bind m f w))) \<and> (\<forall>b. fst (op_bind m f w) = Inr b \<longrightarrow> Q b)"
  proof (cases "m w")
    case (Pair r w1)
    with assms(1) I have "I (disk_of w1)" "\<And>a. r = Inr a \<Longrightarrow> R a"
      by (metis fst_conv snd_conv gives_def)+
    with assms(2) Pair show ?thesis
      by (cases r) (simp_all add: op_bind_def gives_def)
  qed
qed

lemma gives_return [intro]: "R a \<Longrightarrow> gives I (op_return a) R"
  by (simp add: gives_def op_return_def)

lemma gives_fail [intro]: "gives I (op_fail e) R"
  by (simp add: gives_def op_fail_def)

lemma gives_map_err [intro]: "gives I m R \<Longrightarrow> gives I (op_map_err g m) R"
  by (auto simp: gives_def op_map_err_def split: prod.splits)

lemma gives_attempt:
  "gives I m R \<Longrightarrow> gives I (op_attempt m) (\<lambda>r. \<forall>a. r = Inr a \<longrightarrow> R a)"
  by (auto simp: gives_def op_attempt_def split: prod.splits)

lemma steady_return [steady_rules]: "steady I (op_return a)"
  by (simp add: steady_def op_return_def)

lemma steady_fail [steady_rules]: "steady I (op_fail e)"
  by (simp add: steady_def op_fail_def)

lemma steady_result [steady_rules]: "steady I (op_result r)"
  by (simp add: steady_def op_result_def)

lemma steady_bind [steady_rules]: "steady I m \<Longrightarrow> (\<And>a. steady I (f a)) \<Longrightarrow> steady I (op_bind m f)"
  using gives_bind [of I m "\<lambda>_. True" f "\<lambda>_. True"] by (simp add: gives_True)

lemma steady_bind_gives: "gives I m R \<Longrightarrow> (\<And>a. R a \<Longrightarrow> steady I (f a)) \<Longrightarrow> steady I (op_bind m f)"
  using gives_bind [of I m R f "\<lambda>_. True"] by (simp add: gives_True)

lemma steady_attempt [steady_rules]: "steady I m \<Longrightarrow> steady I (op_attempt m)"
  by (auto simp: steady_def op_attempt_def split: prod.splits)

lemma steady_map_err [steady_rules]: "steady I m \<Longrightarrow> steady I (op_map_err g m)"
  by (auto simp: steady_def op_map_err_def split: prod.splits)

lemma steady_cases [steady_rules]:
  "(b \<Longrightarrow> steady I m) \<Longrightarrow> (\<not> b \<Longrightarrow> steady I m') \<Longrightarrow> steady I (if b then m else m')"
  "(\<And>e. r = Inl e \<Longrightarrow> steady I (g e)) \<Longrightarrow> (\<And>a. r = Inr a \<Longrightarrow> steady I (h a))
     \<Longrightarrow> steady I (case r of Inl e \<Rightarrow> g e | Inr a \<Rightarrow> h a)"
  "steady I m \<Longrightarrow> (\<And>a. x = Some a \<Longrightarrow> steady I (k a))
     \<Longrightarrow> steady I (case x of None \<Rightarrow> m | Some a \<Rightarrow> k a)"
  "(\<And>a b. p = (a, b) \<Longrightarrow> steady I (l a b)) \<Longrightarrow> steady I (case p of (a, b) \<Rightarrow> l a b)"
  "(\<And>y. steady I (n y)) \<Longrightarrow> steady I (let y = v in n y)"
  "steady I m \<Longrightarrow> steady I m' \<Longrightarrow> steady I (case c of True \<Rightarrow> m | False \<Rightarrow> m')"
  by (auto split: sum.split option.split prod.split bool.split)

section \<open>The contract\<close>

locale disk_invariant =
  fixes S :: "'h system" and I :: "disk \<Rightarrow> bool"
    and movable :: "slot \<Rightarrow> bool" and writable :: "node_id \<Rightarrow> bool"
  assumes others: "I d \<Longrightarrow> I (sys_interfere S n d)"
    and made: "I d \<Longrightarrow> lookup d s = None \<Longrightarrow> nodes d x = None
      \<Longrightarrow> I (set_entry s x (set_node x nd d))"
    and renamed: "I d \<Longrightarrow> movable s \<Longrightarrow> lookup d s = Some x \<Longrightarrow> lookup d r = None
      \<Longrightarrow> I (set_entry r x (clear_entry s d))"
    and written: "I d \<Longrightarrow> writable x \<Longrightarrow> nodes d x = Some nd \<Longrightarrow> I (set_node x nd' d)"
    and retagged: "I d \<Longrightarrow> nodes d x = Some nd \<Longrightarrow> nd_bytes nd' = nd_bytes nd
      \<Longrightarrow> I (set_node x nd' d)"
    and empty_movable: "I d \<Longrightarrow> lookup d s = None \<Longrightarrow> movable s"
    and fresh_writable: "I d \<Longrightarrow> nodes d x = None \<Longrightarrow> writable x"
begin

lemma syscall_gives:
  assumes "\<And>n d r d'. I d \<Longrightarrow> f n d = (r, d') \<Longrightarrow> I d' \<and> (\<forall>a. r = Inr a \<longrightarrow> R a)"
  shows "gives I (syscall S f) R"
  unfolding gives_def
proof (intro allI impI)
  fix w :: world assume "I (disk_of w)"
  then have I: "I (sys_interfere S (calls w) (disk_of w))" by (rule others)
  show "I (disk_of (snd (syscall S f w))) \<and> (\<forall>a. fst (syscall S f w) = Inr a \<longrightarrow> R a)"
  proof (cases "sys_fault S (calls w)")
    case (Some e)
    with I show ?thesis by (simp add: syscall_def Let_def)
  next
    case None
    obtain r d' where fr: "f (calls w) (sys_interfere S (calls w) (disk_of w)) = (r, d')"
      by (cases "f (calls w) (sys_interfere S (calls w) (disk_of w))")
    from assms [OF I fr] None fr show ?thesis by (simp add: syscall_def Let_def)
  qed
qed

lemma syscall_keeps:
  assumes "\<And>n d r d'. I d \<Longrightarrow> f n d = (r, d') \<Longrightarrow> I d'"
  shows "steady I (syscall S f)"
  using syscall_gives [of f "\<lambda>_. True"] assms by (simp add: gives_True)

lemma inspect_gives: "(\<And>d a. I d \<Longrightarrow> f d = Inr a \<Longrightarrow> R a) \<Longrightarrow> gives I (inspect_disk S f) R"
  unfolding inspect_disk_def by (rule syscall_gives) auto

lemma inspect_keeps: "steady I (inspect_disk S f)"
  using inspect_gives [of f "\<lambda>_. True"] by (simp add: gives_True)

lemmas inspections_keep [steady_rules] =
  inspect_keeps [of "sys_open_dir S p" for p, folded fs_open_dir_def]
  inspect_keeps [of "\<lambda>d. try_res (sys_locate S p d) (open_node S d)" for p, folded fs_open_path_def]
  inspect_keeps [of "\<lambda>d. try_res (sys_locate S p d) (stat_node S d)" for p, folded fs_stat_path_def]
  inspect_keeps [of "\<lambda>d. try_res (entry_at S d s) (open_node S d)" for s, folded fs_open_def]
  inspect_keeps [of "\<lambda>d. try_res (entry_at S d s) (stat_node S d)" for s,
    folded fs_symlink_metadata_def]

lemma read_node_keeps: "steady I (read_node S x f)"
  unfolding read_node_def by (rule inspect_keeps)

lemma handle_inspections_keep [steady_rules]:
  "steady I (fs_metadata S x)" "steady I (fs_list_xattrs S x k)" "steady I (fs_get_acl S x)"
  "steady I (fs_sync S x)" "steady I (fs_open_directory S s)" "steady I (fs_random S k)"
  by (auto simp: fs_metadata_def fs_list_xattrs_def fs_get_acl_def fs_sync_def
      fs_open_directory_def fs_random_def intro: read_node_keeps inspect_keeps syscall_keeps)

lemma read_at_keeps [steady_rules]: "steady I (fs_read_at S x k offset)"
  unfolding fs_read_at_def
  by (rule syscall_keeps) (auto simp: with_node_def split: option.splits)

lemma make_node_gives:
  "gives I (syscall S (make_node S kind mode s)) (\<lambda>x. writable x \<and> movable s)"
  by (rule syscall_gives)
    (auto simp: make_node_def Let_def simp del: not_None_eq not_Some_eq split_paired_All split_paired_Ex
      split: if_splits intro: made empty_movable fresh_writable)

lemma create_new_gives: "gives I (fs_create_new S s) (\<lambda>x. writable x \<and> movable s)"
  unfolding fs_create_new_def by (rule make_node_gives)

lemma create_dir_keeps [steady_rules]: "steady I (fs_create_dir S s)"
  unfolding fs_create_dir_def by (rule gives_keeps [OF make_node_gives])

lemma write_at_keeps: "writable x \<Longrightarrow> steady I (fs_write_at S x bs offset)"
  unfolding fs_write_at_def
  by (rule syscall_keeps) (auto simp: with_node_def Let_def split: option.splits intro: written)

lemma set_permissions_keeps [steady_rules]: "steady I (fs_set_permissions S x mode)"
  unfolding fs_set_permissions_def
  by (rule syscall_keeps) (auto simp: with_node_def split: option.splits intro: retagged)

lemma retouch_I: "I d \<Longrightarrow> I (retouch S n x d)"
  by (auto simp: retouch_def touch_def split: option.split intro: retagged)

lemma rename_gives:
  assumes "movable s"
  shows "gives I (fs_rename_noreplace S s r) (\<lambda>_. movable r)"
  unfolding fs_rename_noreplace_def
  by (rule syscall_gives)
    (auto simp del: not_None_eq not_Some_eq split_paired_All split_paired_Ex
      split: option.splits if_splits intro: retouch_I renamed assms empty_movable)

end

text \<open>The exchange may be part of the contract as well.\<close>

locale exchange_invariant = disk_invariant +
  assumes exchanged: "I d \<Longrightarrow> lookup d s = Some x \<Longrightarrow> lookup d r = Some y
    \<Longrightarrow> I (set_entry s y (set_entry r x d))"
begin

lemma exchange_keeps [steady_rules]: "steady I (fs_exchange S s r)"
  unfolding fs_exchange_def
  by (rule syscall_keeps) (auto split: option.splits intro: retouch_I exchanged)

end

end
