(* ===== verification/Publish_Frame.thy ===== *)
theory Publish_Frame
  imports Disk_Invariant
begin

text \<open>
  Every operation of the publication code keeps a predicate that meets the contract of
  \<open>disk_invariant\<close>, up to the exchange of the target; with an \<open>exchange_invariant\<close>, all of it does.
\<close>

lemma steadyI: "(\<And>w r w'. I (disk_of w) \<Longrightarrow> m w = (r, w') \<Longrightarrow> I (disk_of w')) \<Longrightarrow> steady I m"
  unfolding steady_def by (metis prod.collapse)

lemma steadyD: "steady I m \<Longrightarrow> m w = (r, w') \<Longrightarrow> I (disk_of w) \<Longrightarrow> I (disk_of w')"
  unfolding steady_def by (metis snd_conv)

lemma gives_apply: "(\<And>w. m w = m' w) \<Longrightarrow> gives I m' R \<Longrightarrow> gives I m R"
  by (simp add: gives_def)

context disk_invariant
begin

section \<open>Checks\<close>

lemma read_up_to_keeps [steady_rules]: "steady I (read_up_to S f chunk limit offset acc)"
proof (rule steadyI)
  fix w r w' assume "I (disk_of w)" "read_up_to S f chunk limit offset acc w = (r, w')"
  then show "I (disk_of w')"
  proof (induction "limit - offset" arbitrary: offset acc w rule: less_induct)
    case less
    show ?case
    proof (cases "offset < limit")
      case True
      obtain q w1 where q: "fs_read_at S f (min (limit - offset) chunk) offset w = (q, w1)"
        by (cases "fs_read_at S f (min (limit - offset) chunk) offset w")
      have "I (disk_of w1)" by (rule steadyD [OF read_at_keeps q less(2)])
      moreover have "(case q of Inl e \<Rightarrow> (Inl e, w1)
          | Inr bs \<Rightarrow> if bs = [] then (Inr acc, w1)
              else read_up_to S f chunk limit (offset + length bs) (acc @ bs) w1) = (r, w')"
        using less(3) True q by (simp add: read_up_to.simps [of S f chunk limit offset acc w])
      ultimately show ?thesis
        using True
        by (cases q) (auto split: if_splits intro!: less(1) [rotated 2] diff_less_mono2)
    qed (use less in \<open>simp add: read_up_to.simps\<close>)
  qed
qed

lemma checks_keep [steady_rules]:
  "steady I (begin_file_snapshot S f)"
  "steady I (finish_file_snapshot_from_content S f captured content)"
  "steady I (file_digest S f len)"
  "steady I (file_has_extended_attributes S f)"
  "steady I (has_extended_acl S f)"
  "steady I (require_regular_file S f)"
  "steady I (validate_retained_snapshot_metadata S f snapshot message)"
  "steady I (open_recovery_directory_slot S dir)"
  unfolding begin_file_snapshot_def finish_file_snapshot_from_content_def file_digest_def
    file_has_extended_attributes_def has_extended_acl_def require_regular_file_def
    validate_retained_snapshot_metadata_def open_recovery_directory_slot_def
  by (intro steady_rules)+

lemma file_snapshot_keeps [steady_rules]: "steady I (file_snapshot S f)"
  unfolding file_snapshot_def by (intro steady_rules)

lemma validate_security_keeps [steady_rules]: "steady I (validate_security_metadata S f subject)"
  unfolding validate_security_metadata_def by (intro steady_rules)

lemma validate_slot_keeps [steady_rules]:
  "steady I (validate_snapshot_slot S s snapshot subject message)"
  unfolding validate_snapshot_slot_def by (intro steady_rules)

lemma refresh_keeps [steady_rules]: "steady I (refresh_snapshot_after_rename S f snapshot subject)"
  unfolding refresh_snapshot_after_rename_def by (intro steady_rules)

lemma slot_checks_keep [steady_rules]:
  "steady I (refresh_replacement_after_rename S expected)"
  "steady I (validate_replacement_slot_identity S s expected)"
  "steady I (validate_replacement_slot S s expected)"
  "steady I (validate_installed_staging_slot S s staged)"
  "steady I (validate_staging_slot S dir staged)"
  "steady I (replacement_metadata S s snapshot)"
  unfolding refresh_replacement_after_rename_def validate_replacement_slot_identity_def
    validate_replacement_slot_def validate_installed_staging_slot_def validate_staging_slot_def
    replacement_metadata_def
  by (intro steady_rules)+

section \<open>The recovery directory\<close>

lemma write_all_keeps:
  assumes "writable f"
  shows "steady I (write_all S f offset content)"
proof (rule steadyI)
  fix w r w' assume "I (disk_of w)" "write_all S f offset content w = (r, w')"
  then show "I (disk_of w')"
  proof (induction "length content" arbitrary: offset content w rule: less_induct)
    case less
    show ?case
    proof (cases "content = []")
      case False
      obtain q w1 where q: "fs_write_at S f content offset w = (q, w1)"
        by (cases "fs_write_at S f content offset w")
      have "I (disk_of w1)" by (rule steadyD [OF write_at_keeps [OF assms] q less(2)])
      moreover have "(case q of Inl e \<Rightarrow> (Inl e, w1)
          | Inr k \<Rightarrow> if k = 0 then (Inl (io_error_new (IoOther (lit ''WriteZero''))
                (lit ''failed to write whole buffer'')), w1)
              else write_all S f (offset + k) (drop k content) w1) = (r, w')"
        using less(3) False q by (simp add: write_all.simps [of S f offset content w])
      ultimately show ?thesis
        using False by (cases q) (auto split: if_splits intro: less(1) [rotated 2])
    qed (use less in \<open>simp add: write_all.simps\<close>)
  qed
qed

lemma gitignore_keeps [steady_rules]: "steady I (ensure_recovery_gitignore S recovery)"
  unfolding ensure_recovery_gitignore_def
proof (rule steady_bind_gives [OF gives_attempt [OF create_new_gives]])
  fix r :: "io_error + node_id"
  assume "\<forall>f. r = Inr f \<longrightarrow> writable f \<and> movable (recovery, lit ''.gitignore'')"
  then show "steady I (case r of
       Inr f \<Rightarrow> op_bind (write_all S f 0 GITIGNORE_CONTENT) (\<lambda>_. fs_sync S f)
     | Inl source \<Rightarrow>
         if io_kind source = IoAlreadyExists then
           op_bind (fs_open S (recovery, lit ''.gitignore'')) (\<lambda>opened.
           op_bind (require_regular_file S opened) (\<lambda>(f, m).
           op_bind (read_up_to S f 3 3 0 []) (\<lambda>content.
             if content = GITIGNORE_CONTENT then op_return ()
             else op_fail (io_error_new IoInvalidData
               (lit ''recovery namespace .gitignore has unexpected content'')))))
         else op_fail source)"
    by (intro steady_rules write_all_keeps) auto
qed

lemma recovery_keeps [steady_rules]:
  "steady I (open_recovery_namespace S dir)"
  "steady I (validate_recovery_namespace_slot S dir recovery)"
  unfolding open_recovery_namespace_def validate_recovery_namespace_slot_def
  by (intro steady_rules)+

section \<open>Evidence\<close>

lemma evidence_keeps [steady_rules]:
  "steady I (preserved_recovery_evidence S parent recovery name f snapshot)"
  unfolding preserved_recovery_evidence_def namespace_policy_def
    inspect_preserved_recovery_content_def
  by (intro steady_rules)

lemma commit_failures_keep [steady_rules]:
  "steady I (preserved_commit_failure S parent recovery staged source)"
  "steady I (published_commit_failure S parent recovery staged expected source)"
  unfolding preserved_commit_failure_def published_commit_failure_def by (intro steady_rules)+

section \<open>Moving entries\<close>

lemma random_path_keeps [steady_rules]: "steady I (random_patch_path S kind)"
  unfolding random_patch_path_def by (intro steady_rules)

lemma rename_to_fresh_gives:
  assumes "movable s"
  shows "gives I (rename_to_fresh S k s dir kind message) (\<lambda>name. movable (dir, name))"
proof (induction k)
  case 0
  show ?case by (rule gives_apply [OF rename_to_fresh.simps(1)]) (rule gives_fail)
next
  case (Suc k)
  show ?case
  proof (rule gives_apply [OF rename_to_fresh.simps(2)], rule gives_bind)
    show "gives I (random_patch_path S kind) (\<lambda>_. True)"
      by (simp add: gives_True random_path_keeps)
    fix name
    show "gives I (op_bind (op_attempt (fs_rename_noreplace S s (dir, name))) (\<lambda>r.
         case r of Inr _ \<Rightarrow> op_return name
         | Inl source \<Rightarrow> if io_kind source = IoAlreadyExists
             then \<lambda>w1. rename_to_fresh S k s dir kind message w1 else op_fail source))
       (\<lambda>name. movable (dir, name))"
      by (rule gives_bind [OF gives_attempt [OF rename_gives [OF assms]]])
        (use Suc in \<open>auto split: sum.split\<close>)
  qed
qed

lemma moves_give:
  "movable s \<Longrightarrow> gives I (claim_path S s kind) (\<lambda>name. movable (fst s, name))"
  "movable s \<Longrightarrow> gives I (move_to_recovery_namespace S s recovery kind) (\<lambda>name. movable (recovery, name))"
  unfolding claim_path_def move_to_recovery_namespace_def by (rule rename_to_fresh_gives; assumption)+

lemma move_claimed_keeps:
  "movable s \<Longrightarrow> steady I (move_claimed_to_recovery_namespace S s kind)"
  unfolding move_claimed_to_recovery_namespace_def
  by (intro steady_rules gives_keeps [OF moves_give(2)])

lemma restore_keeps: "movable claimed \<Longrightarrow> steady I (restore_claimed_path S claimed s message)"
  unfolding restore_claimed_path_def by (intro steady_rules gives_keeps [OF rename_gives])

lemma claimed_matches_keeps [steady_rules]: "steady I (claimed_staging_matches S claimed f snapshot)"
  unfolding claimed_staging_matches_def by (intro steady_rules)

section \<open>Cleaning up and staging\<close>

lemma cleanup_expected_keeps:
  assumes "movable staging"
  shows "steady I (cleanup_expected_staging_after_error S staging f snapshot source)"
  unfolding cleanup_expected_staging_after_error_def
  by (rule steady_bind_gives [OF gives_attempt [OF moves_give(1) [OF assms]]],
      intro steady_rules restore_keeps move_claimed_keeps) auto

lemma cleanups_keep:
  "movable staging \<Longrightarrow> steady I (cleanup_open_staging_after_error S staging f source)"
  "movable (dir, st_path staged) \<Longrightarrow> steady I (cleanup_owned_staging_after_error S dir staged source)"
  unfolding cleanup_open_staging_after_error_def cleanup_owned_staging_after_error_def
  by (intro steady_rules cleanup_expected_keeps, assumption?)+

lemma permissions_keep [steady_rules]:
  "steady I (check_staging_owner S f replacement)" "steady I (copy_permissions S f replacement)"
  unfolding check_staging_owner_def copy_permissions_def by (intro steady_rules)+

lemma fill_staging_keeps: "writable f \<Longrightarrow> steady I (fill_staging S f content replacement)"
  unfolding fill_staging_def by (intro steady_rules write_all_keeps)

text \<open>A staged file is at an entry and in a file that the code made.\<close>

lemma stage_file_gives:
  assumes "writable f" and "movable s"
  shows "gives I (stage_file S s f content replacement)
    (\<lambda>st. movable (fst s, st_path st) \<and> writable (st_file st))"
proof (rule steady_gives)
  show "steady I (stage_file S s f content replacement)"
    unfolding stage_file_def
    by (intro steady_rules fill_staging_keeps cleanups_keep(1) assms)
next
  fix w staged assume "fst (stage_file S s f content replacement w) = Inr staged"
  then have "st_path staged = snd s \<and> st_file staged = f"
    by (auto simp: stage_file_def op_bind_def op_attempt_def cleanup_open_staging_after_error_def
        cleanup_expected_staging_after_error_def op_fail_def op_return_def
        split: prod.splits sum.splits bool.splits if_splits)
  with assms show "movable (fst s, st_path staged) \<and> writable (st_file staged)" by simp
qed

lemma stage_attempts_gives:
  "gives I (stage_attempts S k dir content replacement)
    (\<lambda>st. movable (dir, st_path st) \<and> writable (st_file st))"
proof (induction k)
  case 0
  show ?case by (rule gives_apply [OF stage_attempts.simps(1)]) (rule gives_fail)
next
  case (Suc k)
  show ?case
  proof (rule gives_apply [OF stage_attempts.simps(2)], rule gives_bind)
    show "gives I (random_patch_path S ''stage'') (\<lambda>_. True)"
      by (simp add: gives_True random_path_keeps)
    fix name
    show "gives I (op_bind (op_attempt (fs_create_new S (dir, name))) (\<lambda>r.
         case r of Inr f \<Rightarrow> stage_file S (dir, name) f content replacement
         | Inl source \<Rightarrow> if io_kind source = IoAlreadyExists
             then \<lambda>w1. stage_attempts S k dir content replacement w1 else op_fail source))
       (\<lambda>st. movable (dir, st_path st) \<and> writable (st_file st))"
      by (rule gives_bind [OF gives_attempt [OF create_new_gives]])
        (use Suc stage_file_gives [of _ "(dir, name)"] in \<open>auto split: sum.split\<close>)
  qed
qed

lemma stage_content_gives:
  "gives I (stage_content S dir content replacement)
    (\<lambda>st. movable (dir, st_path st) \<and> writable (st_file st))"
  unfolding stage_content_def
  by (rule gives_bind [where R = "\<lambda>_. True"])
    (auto simp: validate_staging_content_size_def stage_attempts_gives)

section \<open>Committing\<close>

lemma commit_new_file_keeps:
  assumes "movable (dir, st_path staged)"
  shows "steady I (commit_new_file S dir staged name)"
  unfolding commit_new_file_def
  by (intro steady_rules cleanups_keep(2) gives_keeps [OF rename_gives] assms)

lemma enter_recovery_keeps:
  assumes "movable (dir, st_path staged)"
  shows "steady I (enter_recovery S dir recovery staged target expected)"
  unfolding enter_recovery_def
  by (intro steady_rules cleanups_keep(2) gives_keeps [OF moves_give(2)] assms)

lemma check_before_exchange_keeps [steady_rules]:
  "steady I (check_before_exchange S dir recovery staged)"
  unfolding check_before_exchange_def by (intro steady_rules)

lemma check_after_exchange_keeps [steady_rules]:
  "steady I (check_after_exchange S dir recovery staged target expected)"
  unfolding check_after_exchange_def by (intro steady_rules)

lemma create_new_keeps: "steady I (create_new S p content)"
  unfolding create_new_def Let_def
  by (intro steady_rules steady_bind_gives [OF gives_map_err [OF stage_content_gives]])
    (auto intro: steady_map_err commit_new_file_keeps)

end

context exchange_invariant
begin

lemma exchange_staged_keeps [steady_rules]:
  "steady I (exchange_staged S dir recovery staged target)"
  unfolding exchange_staged_def by (intro steady_rules)

lemma commit_existing_file_keeps:
  assumes "movable (dir, st_path staged)"
  shows "steady I (commit_existing_file S dir recovery staged name expected)"
  unfolding commit_existing_file_def by (intro steady_rules enter_recovery_keeps assms)

lemma replace_existing_keeps: "steady I (replace_existing_atomically S p content snapshot)"
  unfolding replace_existing_atomically_def Let_def
  by (intro steady_rules steady_bind_gives [OF gives_map_err [OF stage_content_gives]])
    (auto intro: steady_rules commit_existing_file_keeps)

end

end
