(* ===== verification/Publish_Safety.thy ===== *)
theory Publish_Safety
  imports Publish_Frame
begin

text \<open>
  What the publication code guarantees although other processes act at the same time: three
  contracts on what they leave alone (a file, an entry, the bytes of a file), each an instance of
  \<open>disk_invariant\<close>, and the outcomes of replacing and of creating a file under them.
\<close>

section \<open>What other processes leave alone\<close>

declare split_paired_All [simp del] split_paired_Ex [simp del]

definition undisturbed :: "'h system \<Rightarrow> 'h system" where
  "undisturbed S = S\<lparr>sys_interfere := \<lambda>n d. d\<rparr>"

lemma undisturbed_interfere [simp]: "sys_interfere (undisturbed S) n d = d"
  by (simp add: undisturbed_def)

text \<open>A file: others do not change its bytes and do not remove its last entry.\<close>

locale kept_file =
  fixes S :: "'h system" and x :: node_id and b :: "nat list"
  assumes leaves: "node_bytes d x = Some b \<Longrightarrow> lookup d s = Some x
    \<Longrightarrow> node_bytes (sys_interfere S n d) x = Some b
      \<and> (\<exists>r. lookup (sys_interfere S n d) r = Some x)"

sublocale kept_file \<subseteq> kept: exchange_invariant S
  "\<lambda>d. node_bytes d x = Some b \<and> (\<exists>s. lookup d s = Some x)" "\<lambda>_. True" "\<lambda>g. g \<noteq> x"
proof unfold_locales
  fix d n assume "node_bytes d x = Some b \<and> (\<exists>s. lookup d s = Some x)"
  then show "node_bytes (sys_interfere S n d) x = Some b
      \<and> (\<exists>s. lookup (sys_interfere S n d) s = Some x)"
    using leaves by blast
next
  fix d s y nd
  assume "node_bytes d x = Some b \<and> (\<exists>s. lookup d s = Some x)" "lookup d s = None" "nodes d y = None"
  then show "node_bytes (set_entry s y (set_node y nd d)) x = Some b
      \<and> (\<exists>r. lookup (set_entry s y (set_node y nd d)) r = Some x)"
    by (simp add: node_bytes_def) (metis option.distinct(1))
next
  fix d s y r
  assume "node_bytes d x = Some b \<and> (\<exists>s. lookup d s = Some x)" "lookup d s = Some y"
    "lookup d r = None"
  then show "node_bytes (set_entry r y (clear_entry s d)) x = Some b
      \<and> (\<exists>q. lookup (set_entry r y (clear_entry s d)) q = Some x)"
    by simp (metis option.distinct(1) option.inject)
next
  fix d s y r z
  assume "node_bytes d x = Some b \<and> (\<exists>s. lookup d s = Some x)" "lookup d s = Some y"
    "lookup d r = Some z"
  then show "node_bytes (set_entry s z (set_entry r y d)) x = Some b
      \<and> (\<exists>q. lookup (set_entry s z (set_entry r y d)) q = Some x)"
    by simp (metis option.inject)
qed (auto simp: node_bytes_def)

interpretation undisturbed_file: kept_file "undisturbed S" x b for S :: "'h system" and x b
  by unfold_locales auto

text \<open>An entry.\<close>

locale held_slot =
  fixes S :: "'h system" and s :: slot and y :: node_id
  assumes leaves: "lookup d s = Some y \<Longrightarrow> lookup (sys_interfere S n d) s = Some y"

sublocale held_slot \<subseteq> slot: disk_invariant S "\<lambda>d. lookup d s = Some y" "\<lambda>r. r \<noteq> s" "\<lambda>_. True"
  by unfold_locales (auto simp: leaves)

context held_slot
begin

lemma axioms_slot: "disk_invariant S (\<lambda>d. lookup d s = Some y) (\<lambda>r. r \<noteq> s) (\<lambda>_. True)"
  by unfold_locales

end

interpretation undisturbed_slot: held_slot "undisturbed S" s y for S :: "'h system" and s y
  by unfold_locales auto

text \<open>The bytes of a file.\<close>

locale held_bytes =
  fixes S :: "'h system" and f :: node_id and b :: "nat list"
  assumes leaves: "node_bytes d f = Some b \<Longrightarrow> node_bytes (sys_interfere S n d) f = Some b"

sublocale held_bytes \<subseteq> bytes: exchange_invariant S "\<lambda>d. node_bytes d f = Some b" "\<lambda>_. True" "\<lambda>g. g \<noteq> f"
proof unfold_locales
  fix d n assume "node_bytes d f = Some b"
  then show "node_bytes (sys_interfere S n d) f = Some b" by (rule leaves)
qed (auto simp: node_bytes_def)

context held_bytes
begin

lemma axioms_bytes:
  "exchange_invariant S (\<lambda>d. node_bytes d f = Some b) (\<lambda>_. True) (\<lambda>g. g \<noteq> f)"
  by unfold_locales

end

interpretation undisturbed_bytes: held_bytes "undisturbed S" f b for S :: "'h system" and f b
  by unfold_locales auto

definition leaves_slot :: "'h system \<Rightarrow> slot \<Rightarrow> bool" where
  "leaves_slot S s \<longleftrightarrow> (\<forall>n d. lookup (sys_interfere S n d) s = lookup d s)"

definition leaves_bytes :: "'h system \<Rightarrow> bool" where
  "leaves_bytes S \<longleftrightarrow>
     (\<forall>n d x b. node_bytes d x = Some b \<longrightarrow> node_bytes (sys_interfere S n d) x = Some b)"

lemma slot_frame:
  assumes "leaves_slot S s"
  shows "disk_invariant S (\<lambda>d. lookup d s = Some y) (\<lambda>r. r \<noteq> s) (\<lambda>_. True)"
proof -
  from assms have "held_slot S s y" by unfold_locales (simp add: leaves_slot_def)
  then show ?thesis by (rule held_slot.axioms_slot)
qed

lemma bytes_frame:
  assumes "leaves_bytes S"
  shows "exchange_invariant S (\<lambda>d. node_bytes d f = Some b) (\<lambda>_. True) (\<lambda>g. g \<noteq> f)"
proof -
  from assms have "held_bytes S f b" by unfold_locales (simp add: leaves_bytes_def)
  then show ?thesis by (rule held_bytes.axioms_bytes)
qed

section \<open>The staged content\<close>

lemma read_at_bytes:
  assumes "leaves_bytes S" and "node_bytes (disk_of w) x = Some b"
    and "fs_read_at S x wanted offset w = (Inr bs, w1)"
  shows "bs = take (moved S (calls w) wanted) (drop offset b)"
proof -
  from assms(1,2) have "node_bytes (sys_interfere S (calls w) (disk_of w)) x = Some b"
    by (simp add: leaves_bytes_def)
  then obtain nd where "nodes (sys_interfere S (calls w) (disk_of w)) x = Some nd" "nd_bytes nd = b"
    by (auto simp: node_bytes_def)
  with assms(3) show ?thesis
    by (auto simp: fs_read_at_def syscall_def with_node_def Let_def split: option.splits)
qed

lemma write_at_bytes:
  assumes "leaves_bytes S" and "node_bytes (disk_of w) f = Some old"
    and "fs_write_at S f new offset w = (Inr k, w1)"
  shows "node_bytes (disk_of w1) f = Some (overwrite offset (take k new) old)"
proof -
  from assms(1,2) have "node_bytes (sys_interfere S (calls w) (disk_of w)) f = Some old"
    by (simp add: leaves_bytes_def)
  then obtain nd where "nodes (sys_interfere S (calls w) (disk_of w)) f = Some nd" "nd_bytes nd = old"
    by (auto simp: node_bytes_def)
  with assms(3) show ?thesis
    by (auto simp: fs_write_at_def syscall_def with_node_def Let_def split: option.splits)
qed

lemma write_all_bytes:
  assumes "leaves_bytes S"
  shows "node_bytes (disk_of w) f = Some acc \<Longrightarrow> write_all S f (length acc) content w = (Inr u, w')
    \<Longrightarrow> node_bytes (disk_of w') f = Some (acc @ content)"
proof (induction "length content" arbitrary: acc content w rule: less_induct)
  case less
  show ?case
  proof (cases "content = []")
    case True
    with less show ?thesis by (simp add: write_all.simps)
  next
    case False
    obtain q w1 where q: "fs_write_at S f content (length acc) w = (q, w1)"
      by (cases "fs_write_at S f content (length acc) w")
    with less(3) False obtain k where k: "q = Inr k" "k \<noteq> 0"
      "write_all S f (length acc + k) (drop k content) w1 = (Inr u, w')"
      by (subst (asm) write_all.simps) (auto split: sum.splits if_splits)
    have "k \<le> length content"
      using q k(1) by (auto simp: fs_write_at_def syscall_def with_node_def moved_def Let_def
          split: option.splits)
    then have "node_bytes (disk_of w1) f = Some (acc @ take k content)" "length (take k content) = k"
      using write_at_bytes [OF assms less(2) q [unfolded k(1)]] by (auto simp: overwrite_def)
    with less(1) [of "drop k content" w1 "acc @ take k content"] k False show ?thesis
      by simp
  qed
qed

lemma fill_staging_bytes:
  assumes rely: "leaves_bytes S" and empty: "node_bytes (disk_of w) f = Some []"
    and run: "fill_staging S f content replacement w = (Inr u, w')"
  shows "node_bytes (disk_of w') f = Some content"
proof -
  note frame = exchange_invariant.axioms(1) [OF bytes_frame [OF rely]]
  note permissions = disk_invariant.permissions_keep [OF frame]
  note rest = disk_invariant.validate_security_keeps [OF frame]
    disk_invariant.handle_inspections_keep(4) [OF frame]
  from run obtain w1 w2 u2 where
    1: "(case replacement of None \<Rightarrow> op_return () | Some r \<Rightarrow> check_staging_owner S f r) w = (Inr (), w1)"
    and 2: "write_all S f 0 content w1 = (Inr u2, w2)"
    and 3: "op_bind (fs_sync S f) (\<lambda>_. op_bind (case replacement of
          None \<Rightarrow> op_return () | Some r \<Rightarrow> copy_permissions S f r) (\<lambda>_.
          validate_security_metadata S f ''patch staging file'')) w2 = (Inr u, w')"
    unfolding fill_staging_def op_bind_Inr by auto
  have "steady (\<lambda>d. node_bytes d f = Some [])
      (case replacement of None \<Rightarrow> op_return () | Some r \<Rightarrow> check_staging_owner S f r)"
    by (auto split: option.split intro: permissions steady_return)
  from steadyD [OF this 1 empty] have "node_bytes (disk_of w1) f = Some []" .
  from write_all_bytes [OF rely this, of content] 2
  have written: "node_bytes (disk_of w2) f = Some content" by simp
  have "steady (\<lambda>d. node_bytes d f = Some content)
      (op_bind (fs_sync S f) (\<lambda>_. op_bind (case replacement of
          None \<Rightarrow> op_return () | Some r \<Rightarrow> copy_permissions S f r) (\<lambda>_.
          validate_security_metadata S f ''patch staging file'')))"
    by (auto intro!: steady_bind permissions rest steady_return split: option.split)
  from steadyD [OF this 3 written] show ?thesis .
qed

lemma create_new_bytes:
  "fs_create_new S s w = (Inr f, w') \<Longrightarrow> node_bytes (disk_of w') f = Some []"
  by (auto simp: fs_create_new_def syscall_def make_node_def Let_def split: option.splits if_splits)

lemma cleanup_fails [simp]:
  "cleanup_expected_staging_after_error S s f e source w \<noteq> (Inr a, w')"
  "cleanup_open_staging_after_error S s f source w \<noteq> (Inr a, w')"
  "cleanup_owned_staging_after_error S dir staged source w \<noteq> (Inr a, w')"
  by (auto simp: cleanup_open_staging_after_error_def cleanup_expected_staging_after_error_def
      cleanup_owned_staging_after_error_def op_bind_Inr op_fail_eq
      split: prod.splits sum.splits bool.splits if_splits)

lemma stage_file_bytes:
  assumes rely: "leaves_bytes S" and empty: "node_bytes (disk_of w) f = Some []"
    and run: "stage_file S s f content replacement w = (Inr st, w')"
  shows "node_bytes (disk_of w') (st_file st) = Some content"
proof -
  note frame = exchange_invariant.axioms(1) [OF bytes_frame [OF rely]]
  let ?snap = "op_bind (begin_file_snapshot S f) (\<lambda>captured.
    finish_file_snapshot_from_content S f captured content)"
  from run obtain u w1 snapshot where
    filled: "fill_staging S f content replacement w = (Inr u, w1)"
    and snap: "?snap w1 = (Inr snapshot, w')" and st: "st_file st = f"
    by (auto simp: stage_file_def op_attempt_cases)
  have "steady (\<lambda>d. node_bytes d f = Some content) ?snap"
    by (intro steady_bind disk_invariant.checks_keep [OF frame])
  from steadyD [OF this snap fill_staging_bytes [OF rely empty filled]] st show ?thesis by simp
qed

lemma stage_attempts_bytes:
  assumes rely: "leaves_bytes S"
  shows "stage_attempts S k dir content replacement w = (Inr st, w')
    \<Longrightarrow> node_bytes (disk_of w') (st_file st) = Some content"
proof (induction k arbitrary: w)
  case 0
  then show ?case by (simp add: op_fail_def)
next
  case (Suc k)
  from Suc.prems obtain name w1 r w2 where
    r: "fs_create_new S (dir, name) w1 = (r, w2)" and
    run: "(case r of Inr f \<Rightarrow> stage_file S (dir, name) f content replacement
       | Inl source \<Rightarrow> if io_kind source = IoAlreadyExists
           then \<lambda>w1. stage_attempts S k dir content replacement w1 else op_fail source) w2
      = (Inr st, w')"
    by (auto simp: op_bind_Inr)
  show ?case
  proof (cases r)
    case (Inl e)
    with run Suc.IH show ?thesis by (auto simp: op_fail_eq split: if_splits)
  next
    case (Inr f)
    with r run stage_file_bytes [OF rely create_new_bytes] show ?thesis by simp
  qed
qed

lemma stage_content_bytes:
  assumes "leaves_bytes S" and "stage_content S dir content replacement w = (Inr st, w')"
  shows "node_bytes (disk_of w') (st_file st) = Some content"
  using assms(2)
  by (auto simp: stage_content_def op_bind_Inr intro: stage_attempts_bytes [OF assms(1)])

section \<open>What a successful check says\<close>

lemma metadata_id: "fs_metadata S f w = (Inr m, w') \<Longrightarrow> md_id m = f"
  by (auto simp: fs_metadata_def read_node_def inspect_disk_def syscall_def Let_def metadata_of_def
      split: option.splits)

lemma regular_file_id: "require_regular_file S f w = (Inr (g, m), w') \<Longrightarrow> g = f \<and> md_id m = f"
  by (auto simp: require_regular_file_def op_bind_Inr op_fail_eq dest: metadata_id split: if_splits)

lemma stat_id [simp]: "fst_id (file_stat_snapshot m) = md_id m"
  by (simp add: file_stat_snapshot_def)

lemma file_snapshot_id: "file_snapshot S f w = (Inr sn, w') \<Longrightarrow> fst_id (fsn_stat sn) = f"
  by (auto simp: file_snapshot_def op_bind_Inr op_fail_eq dest: metadata_id split: if_splits)

lemma refresh_id:
  "refresh_snapshot_after_rename S f snapshot subject w = (Inr sn, w') \<Longrightarrow> fst_id (fsn_stat sn) = f"
  by (auto simp: refresh_snapshot_after_rename_def op_bind_Inr op_fail_eq
      dest: file_snapshot_id split: if_splits)

lemma entry_id:
  assumes "leaves_slot S s" and "lookup (disk_of w) s = Some y"
    and "fs_symlink_metadata S s w = (Inr m, w')"
  shows "md_id m = y"
  using assms
  by (auto simp: fs_symlink_metadata_def inspect_disk_def syscall_def Let_def entry_at_def
      stat_node_def metadata_of_def leaves_slot_def split: option.splits)

text \<open>A checked entry leads to the file of the snapshot.\<close>

lemma validated_slot_id:
  assumes "leaves_slot S s" and "lookup (disk_of w) s = Some y"
    and "validate_snapshot_slot S s expected subject message w = (Inr u, w')"
  shows "fst_id (fsn_stat expected) = y"
  using assms(3)
  by (auto simp: validate_snapshot_slot_def op_bind_Inr op_fail_eq matches_metadata_def split: if_splits)
    (metis entry_id [OF assms(1,2)] regular_file_id metadata_id)

lemma exchanged_entry:
  "fs_exchange S s r w = (Inr u, w') \<Longrightarrow> \<exists>x. lookup (disk_of w') r = Some x"
  by (auto simp: fs_exchange_def syscall_def Let_def split: option.splits)

lemma renamed_entry:
  "fs_rename_noreplace S s r w = (Inr u, w') \<Longrightarrow> \<exists>x. lookup (disk_of w') r = Some x"
  by (auto simp: fs_rename_noreplace_def syscall_def Let_def split: option.splits if_splits)

section \<open>Replacing a file\<close>

text \<open>Before the exchange a failure is \<open>BeforePublication\<close>, after it \<open>Published\<close>.\<close>

definition before_publication :: "commit_error \<Rightarrow> bool" where
  "before_publication e = (case e of CommitBefore _ _ \<Rightarrow> True | CommitPublished _ _ \<Rightarrow> False)"

lemma inspection_total [simp]: "inspect_preserved_recovery_content S s f expected w \<noteq> (Inl e, w')"
  unfolding inspect_preserved_recovery_content_def op_attempt_cases by auto

lemma namespace_policy_total [simp]: "namespace_policy S parent recovery w \<noteq> (Inl e, w')"
  by (simp add: namespace_policy_def op_bind_Inl)

lemma evidence_total [simp]:
  "preserved_recovery_evidence S parent recovery name f expected w \<noteq> (Inl e, w')"
  by (auto simp: preserved_recovery_evidence_def op_bind_Inl split: option.splits if_splits)

lemma preserved_is_before:
  "preserved_commit_failure S dir recovery staged source w = (r, w')
     \<Longrightarrow> \<exists>e. r = Inl e \<and> before_publication e"
  by (cases r) (auto simp: preserved_commit_failure_def op_bind_Inr op_bind_Inl op_fail_eq
      before_publication_def)

lemma published_is_after:
  "published_commit_failure S dir recovery staged expected source w = (r, w')
     \<Longrightarrow> \<exists>e. r = Inl e \<and> \<not> before_publication e"
  by (cases r) (auto simp: published_commit_failure_def op_bind_Inr op_bind_Inl op_fail_eq
      before_publication_def)

lemma enter_recovery_result:
  "enter_recovery S dir recovery staged target expected w = (r, w') \<Longrightarrow>
     (case r of Inl e \<Rightarrow> before_publication e | Inr staged1 \<Rightarrow> st_file staged1 = st_file staged)"
  by (cases r) (auto simp: enter_recovery_def op_attempt_cases commit_before_def before_publication_def)

lemma check_before_exchange_result:
  "check_before_exchange S dir recovery staged w = (r, w') \<Longrightarrow>
     (case r of Inl e \<Rightarrow> before_publication e
      | Inr staged1 \<Rightarrow> st_file staged1 = st_file staged)"
  by (auto simp: check_before_exchange_def op_attempt_cases Let_def dest!: preserved_is_before)

lemma check_after_exchange_result:
  assumes "leaves_slot S target" and "lookup (disk_of w) target = Some x"
    and "check_after_exchange S dir recovery staged target expected w = (r, w')"
  shows "case r of Inl e \<Rightarrow> \<not> before_publication e | Inr _ \<Rightarrow> x = st_file staged"
proof (cases r)
  case (Inl e)
  with assms(3) show ?thesis
    by (auto simp: check_after_exchange_def op_attempt_cases Let_def dest!: published_is_after)
next
  case (Inr recovered)
  with assms(3) obtain snapshot w1 expected1 w2 w4 where
    1: "refresh_snapshot_after_rename S (st_file staged) (st_snapshot staged) ''patch staging file'' w
      = (Inr snapshot, w1)"
    and 2: "refresh_replacement_after_rename S expected w1 = (Inr expected1, w2)"
    and both: "op_bind (validate_installed_staging_slot S target (staged\<lparr>st_snapshot := snapshot\<rparr>)) (\<lambda>_.
        validate_replacement_slot_identity S (rn_directory recovery, st_path staged) expected1) w2
      = (Inr (), w4)"
    by (auto simp: check_after_exchange_def op_attempt_cases Let_def dest!: published_is_after)
  from both obtain w3 where
    3: "validate_installed_staging_slot S target (staged\<lparr>st_snapshot := snapshot\<rparr>) w2 = (Inr (), w3)"
    by (auto simp: op_bind_Inr)
  note frame = slot_frame [OF assms(1), of x]
  from steadyD [OF disk_invariant.refresh_keeps [OF frame] 1 assms(2)]
  have "lookup (disk_of w1) target = Some x" .
  from steadyD [OF disk_invariant.slot_checks_keep(1) [OF frame] 2 this]
  have "lookup (disk_of w2) target = Some x" .
  from validated_slot_id [OF assms(1) this] 3 refresh_id [OF 1] show ?thesis
    by (simp add: validate_installed_staging_slot_def Inr)
qed

lemma exchange_staged_result:
  assumes rely: "leaves_slot S target" and t: "lookup (disk_of w) target = Some t"
    and run: "exchange_staged S dir recovery staged target w = (r, w')"
  shows "case r of Inl e \<Rightarrow> before_publication e \<and> lookup (disk_of w') target = Some t
    | Inr _ \<Rightarrow> \<exists>x. lookup (disk_of w') target = Some x"
proof -
  have failed: "lookup (disk_of w1) target = Some t"
    if "fs_exchange S (rn_directory recovery, st_path staged) target w = (Inl e, w1)" for e w1
    using that t rely
    by (auto simp: fs_exchange_def syscall_def Let_def leaves_slot_def split: option.splits)
  show ?thesis
    using run unfolding exchange_staged_def op_attempt_cases
    by (auto dest!: exchanged_entry dest: preserved_is_before
        steadyD [OF disk_invariant.commit_failures_keep(1) [OF slot_frame [OF rely]], rotated]
        failed split: sum.split)
qed

text \<open>The outcomes of \<open>commit_existing_file\<close>, when others leave the entry of the target alone.\<close>

definition replace_failure :: "slot \<Rightarrow> node_id \<Rightarrow> commit_error \<Rightarrow> world \<Rightarrow> bool" where
  "replace_failure s t e w \<longleftrightarrow>
     (if before_publication e then lookup (disk_of w) s = Some t
      else \<exists>x. lookup (disk_of w) s = Some x)"

lemma commit_existing_outcome:
  assumes rely: "leaves_slot S (dir, name)" and staged: "st_path staged \<noteq> name"
  shows "triple (\<lambda>w. lookup (disk_of w) (dir, name) = Some t)
    (commit_existing_file S dir recovery staged name expected)
    (\<lambda>_ w. lookup (disk_of w) (dir, name) = Some (st_file staged))
    (replace_failure (dir, name) t)"
    (is "triple ?t _ ?published ?failed")
proof -
  note frame = slot_frame [OF rely, of t]
  have movable: "(dir, st_path staged) \<noteq> (dir, name)" using staged by simp
  have 1: "triple ?t (enter_recovery S dir recovery staged (dir, name) expected)
      (\<lambda>st w. ?t w \<and> st_file st = st_file staged) ?failed"
    unfolding triple_def
    by (auto split: prod.splits sum.splits simp: replace_failure_def dest: enter_recovery_result
        steadyD [OF disk_invariant.enter_recovery_keeps [OF frame movable]])
  have 2: "triple (\<lambda>w. ?t w \<and> st_file st = st_file staged) (check_before_exchange S dir recovery st)
      (\<lambda>st w. ?t w \<and> st_file st = st_file staged) ?failed" for st
    unfolding triple_def
    by (auto split: prod.splits sum.splits simp: replace_failure_def
        dest: check_before_exchange_result
        steadyD [OF disk_invariant.check_before_exchange_keeps [OF frame]])
  have 3: "triple (\<lambda>w. ?t w \<and> st_file st = st_file staged)
      (exchange_staged S dir recovery st (dir, name))
      (\<lambda>_ w. (\<exists>x. lookup (disk_of w) (dir, name) = Some x) \<and> st_file st = st_file staged) ?failed" for st
    unfolding triple_def
    by (auto split: prod.splits sum.splits simp: replace_failure_def
        dest: exchange_staged_result [OF rely])
  have 4: "triple (\<lambda>w. (\<exists>x. lookup (disk_of w) (dir, name) = Some x) \<and> st_file st = st_file staged)
      (check_after_exchange S dir recovery st (dir, name) expected) ?published ?failed" for st
    unfolding triple_def
  proof (intro allI impI, elim conjE exE)
    fix w :: world and x assume st: "st_file st = st_file staged" and x: "lookup (disk_of w) (dir, name) = Some x"
    let ?m = "check_after_exchange S dir recovery st (dir, name) expected"
    obtain r w' where run: "?m w = (r, w')" by (cases "?m w")
    from steadyD [OF disk_invariant.check_after_exchange_keeps [OF slot_frame [OF rely]] run x]
      check_after_exchange_result [OF rely x run] st run
    show "case ?m w of (Inr a, w') \<Rightarrow> ?published a w' | (Inl e, w') \<Rightarrow> ?failed e w'"
      by (cases r) (simp_all add: replace_failure_def)
  qed
  show ?thesis
    unfolding commit_existing_file_def
    by (rule triple_bind [OF 1], rule triple_bind [OF 2], rule triple_bind [OF 3]) (rule 4)
qed

section \<open>The entry points\<close>

text \<open>The directory of a target: cap-std opens its parent as this directory whenever it opens it.\<close>

definition target_directory :: "'h system \<Rightarrow> path \<Rightarrow> node_id \<Rightarrow> bool" where
  "target_directory S p dir \<longleftrightarrow>
     (\<forall>d dir'. sys_open_dir S (parent_or_dot p) d = Inr dir' \<longrightarrow> dir' = dir)"

lemma opened_directory:
  "target_directory S p dir \<Longrightarrow> fs_open_dir S (parent_or_dot p) w = (Inr dir', w') \<Longrightarrow> dir' = dir"
  by (auto simp: fs_open_dir_def inspect_disk_def syscall_def Let_def target_directory_def
      split: option.splits)

lemma gives_triple:
  "gives I m R \<Longrightarrow> triple (\<lambda>w. I (disk_of w)) m (\<lambda>a w. I (disk_of w) \<and> R a) (\<lambda>_ w. I (disk_of w))"
  by (auto simp: gives_def triple_def split: prod.splits sum.splits)

lemma steady_triple:
  "steady I m \<Longrightarrow> triple (\<lambda>w. I (disk_of w)) m (\<lambda>a w. I (disk_of w)) (\<lambda>_ w. I (disk_of w))"
  by (auto simp: steady_def triple_def split: prod.splits sum.splits)

lemma gives_value: "gives I m R \<Longrightarrow> I (disk_of w) \<Longrightarrow> m w = (Inr a, w') \<Longrightarrow> R a"
  unfolding gives_def by (metis fst_conv)

text \<open>What a failure of \<open>replace_existing_atomically\<close> says about the entry of the target.\<close>

fun replace_outcome ::
    "slot \<Rightarrow> node_id \<Rightarrow> nat list \<Rightarrow> atomic_replace_error + path option \<Rightarrow> disk \<Rightarrow> bool" where
  "replace_outcome s t content (Inl (ReplaceBefore _ _)) d \<longleftrightarrow> lookup d s = Some t"
| "replace_outcome s t content (Inl (ReplacePublished _ _ _)) d \<longleftrightarrow> lookup d s \<noteq> None"
| "replace_outcome s t content (Inr _) d \<longleftrightarrow>
     (\<exists>f. lookup d s = Some f \<and> node_bytes d f = Some content)"

lemma replace_existing_triple:
  assumes rely: "leaves_slot S (dir, name)" and bytes: "leaves_bytes S"
    and dir: "target_directory S p dir" and name: "target_name p = Inr name"
  shows "triple (\<lambda>w. lookup (disk_of w) (dir, name) = Some t)
    (replace_existing_atomically S p content snapshot)
    (\<lambda>q w. replace_outcome (dir, name) t content (Inr q) (disk_of w))
    (\<lambda>e w. replace_outcome (dir, name) t content (Inl e) (disk_of w))"
    (is "triple ?t _ ?Q ?E")
proof -
  note frame = slot_frame [OF rely, of t]
  have before: "triple ?t (op_map_err (replace_before_within parent) m) (\<lambda>_. ?t) ?E"
    if "steady (\<lambda>d. lookup d (dir, name) = Some t) m" for parent and m :: "'c io_op"
    by (rule triple_map_err, rule triple_mono [OF steady_triple [OF that]])
      (simp_all add: replace_before_within_def)
  have opened: "triple ?t (op_map_err (replace_before_within (parent_or_dot p)) (fs_open_dir S (parent_or_dot p)))
      (\<lambda>dir' w. ?t w \<and> dir' = dir) ?E"
    by (rule triple_value [OF before [OF disk_invariant.inspections_keep(1) [OF frame]]])
      (auto dest: opened_directory [OF dir])
  have staged: "triple ?t (op_map_err (replace_before_within parent) (stage_content S dir content r))
      (\<lambda>st w. (?t w \<and> node_bytes (disk_of w) (st_file st) = Some content) \<and> st_path st \<noteq> name) ?E"
    for parent r
  proof -
    note stage = disk_invariant.stage_content_gives [OF frame, of dir content r]
    have "node_bytes (disk_of w') (st_file st) = Some content \<and> st_path st \<noteq> name"
      if "?t w" "op_map_err (replace_before_within parent) (stage_content S dir content r) w = (Inr st, w')"
      for w st w'
      using that gives_value [OF stage, of w st w'] stage_content_bytes [OF bytes, of dir content r w st w']
      by auto
    from triple_value [OF before [OF gives_keeps [OF stage], of parent] this] show ?thesis
      by (simp add: conj_assoc)
  qed
  have committed: "triple (\<lambda>w. ?t w \<and> node_bytes (disk_of w) (st_file st) = Some content)
      (op_map_err (replace_error_of parent p)
        (commit_existing_file S dir recovery st name expected))
      (\<lambda>_ w. replace_outcome (dir, name) t content (Inr None) (disk_of w)) ?E"
    if st: "st_path st \<noteq> name" for parent st recovery expected
  proof (rule triple_map_err)
    show "triple (\<lambda>w. ?t w \<and> node_bytes (disk_of w) (st_file st) = Some content)
        (commit_existing_file S dir recovery st name expected)
        (\<lambda>_ w. replace_outcome (dir, name) t content (Inr None) (disk_of w))
        (\<lambda>e. ?E (replace_error_of parent p e))"
      using triple_both [OF commit_existing_outcome [OF rely st, of t recovery expected]
          steady_triple [OF exchange_invariant.commit_existing_file_keeps
            [OF bytes_frame [OF bytes, of "st_file st" content] TrueI, of dir recovery st name expected]]]
      by (rule triple_mono) (auto simp: replace_failure_def before_publication_def
          split: commit_error.splits if_splits)
  qed
  have named: "triple ?t (op_map_err g (op_result (Inr name))) (\<lambda>n w. ?t w \<and> n = name) ?E" for g
    by (simp add: triple_def op_map_err_def op_result_def)
  have tail: "triple ?t
      (if b then op_fail (replace_before_within parent patch_target_changed)
       else op_bind (op_map_err (replace_before_within parent) (open_recovery_namespace S dir)) (\<lambda>recovery.
         op_bind (op_map_err (replace_before_within parent) (stage_content S dir content (Some expected))) (\<lambda>st.
         op_bind (op_map_err (replace_error_of parent p)
           (commit_existing_file S dir recovery st name expected)) (\<lambda>recovered.
         op_return (Some (parent @ recovered)))))) ?Q ?E" for b parent expected
  proof (cases b)
    case True
    then show ?thesis by (simp add: triple_fail replace_before_within_def)
  next
    case False
    show ?thesis
      unfolding if_not_P [OF False]
      by (rule triple_bind [OF before [OF disk_invariant.recovery_keeps(1) [OF frame]]],
          rule triple_bind_pure [OF staged], rule triple_bind [OF committed], assumption)
        (simp add: triple_return)
  qed
  show ?thesis
    unfolding replace_existing_atomically_def Let_def name
    by (rule triple_bind_pure [OF named], simp only:, rule triple_bind_pure [OF opened], simp only:,
        rule triple_bind [OF before [OF disk_invariant.slot_checks_keep(6) [OF frame]]], rule tail)
qed

text \<open>
  \<open>create_new\<close>: an entry that exists is never replaced, and a success leaves the new content there.
\<close>

lemma create_new_keeps_entry:
  assumes "leaves_slot S s" and "lookup (disk_of w) s = Some t"
  shows "lookup (disk_of (snd (create_new S p content w))) s = Some t"
  using disk_invariant.create_new_keeps [OF slot_frame [OF assms(1), of t], of p content] assms(2)
  by (simp add: steady_def)

lemma commit_new_published:
  assumes rely: "leaves_slot S (dir, name)"
    and run: "commit_new_file S dir staged name w = (Inr u, w')"
  shows "lookup (disk_of w') (dir, name) = Some (st_file staged)"
proof -
  from run obtain w0 w1 snapshot w2 where
    1: "fs_rename_noreplace S (dir, st_path staged) (dir, name) w0 = (Inr (), w1)"
    and 2: "refresh_snapshot_after_rename S (st_file staged) (st_snapshot staged) ''patch staging file'' w1
      = (Inr snapshot, w2)"
    and 3: "validate_installed_staging_slot S (dir, name) (staged\<lparr>st_snapshot := snapshot\<rparr>) w2 = (Inr u, w')"
    unfolding commit_new_file_def op_attempt_cases by (auto simp: op_bind_Inr)
  from renamed_entry [OF 1] obtain x where x: "lookup (disk_of w1) (dir, name) = Some x" ..
  note frame = slot_frame [OF rely, of x]
  from steadyD [OF disk_invariant.refresh_keeps [OF frame] 2 x]
  have x2: "lookup (disk_of w2) (dir, name) = Some x" .
  from validated_slot_id [OF rely x2] 3 refresh_id [OF 2] have "x = st_file staged"
    by (simp add: validate_installed_staging_slot_def)
  with steadyD [OF disk_invariant.slot_checks_keep(4) [OF frame] 3 x2] show ?thesis by simp
qed

lemma create_new_published:
  assumes rely: "leaves_slot S (dir, name)" and bytes: "leaves_bytes S"
    and dir: "target_directory S p dir" and name: "target_name p = Inr name"
    and run: "create_new S p content w = (Inr u, w')"
  shows "\<exists>f. lookup (disk_of w') (dir, name) = Some f \<and> node_bytes (disk_of w') f = Some content"
proof -
  from run obtain dir' w1 staged w2 where
    1: "fs_open_dir S (parent_or_dot p) w = (Inr dir', w1)"
    and 2: "stage_content S dir' content None w1 = (Inr staged, w2)"
    and 3: "commit_new_file S dir' staged name w2 = (Inr u, w')"
    by (auto simp: create_new_def Let_def op_bind_Inr name op_result_def)
  from opened_directory [OF dir 1] have [simp]: "dir' = dir" .
  have "steady (\<lambda>d. node_bytes d (st_file staged) = Some content) (commit_new_file S dir staged name)"
    by (rule disk_invariant.commit_new_file_keeps
        [OF exchange_invariant.axioms(1) [OF bytes_frame [OF bytes]] TrueI])
  from steadyD [OF this _ stage_content_bytes [OF bytes 2]] 3 commit_new_published [OF rely] show ?thesis
    by auto
qed

end
