(* ===== verification/Patch_Errors.thy ===== *)
theory Patch_Errors
  imports Workspace
begin

text \<open>
  The errors of the patch tool (\<open>PatchError\<close> of crates/capability-coding/src/patch.rs) and the tool
  output they become. A message is the constructor that names its format string; \<open>debug\<close> is Rust's \<open>Debug\<close>
  rendering of a string.
\<close>

section \<open>Errors of a patch\<close>

datatype invalid_patch =
    NotOneFile
  | RenameUnsupported ustring ustring
  | BothDevNull
  | DeleteUnsupported
  | EmptyPatch
  | MissingNewHeader
  | HunkEndedEarly
  | InvalidHunkLine ustring
  | HunkExceedsCounts
  | NoHunk
  | UnaccountedContent ustring
  | NoFileHeader
  | ExpectedHeader ustring
  | EmptyPath
  | InvalidHunkHeader ustring
  | MissingOldRange ustring
  | MissingNewRange ustring
  | InvalidRanges ustring
  | InvalidRangeStart ustring
  | InvalidRangeCount ustring
  | MarkerWithoutLine
  | CountsMismatch

datatype patch_limit = PatchLines | TargetBytes path | TargetLines path | ResultBytes path

datatype patch_conflict =
    TargetExists
  | SourceMissing
  | HunkOutOfPlace nat
  | ContextMismatch nat ustring ustring
  | FileEnded nat

datatype patch_error =
    InvalidPatch invalid_patch
  | Limit patch_limit
  | Conflict patch_conflict
  | PatchWorkspace workspace_path_error
  | PatchIo path io_error
  | Preserved path published_recovery io_error
  | Published path published_recovery io_error
  | Cancelled

definition MAX_PATCH_BYTES :: nat where
  "MAX_PATCH_BYTES = 4 * 1024 * 1024"

definition MAX_PATCH_LINES :: nat where
  "MAX_PATCH_LINES = 200000"

definition MAX_PATCH_FILE_BYTES :: nat where
  "MAX_PATCH_FILE_BYTES = 32 * 1024 * 1024"

definition MAX_PATCH_FILE_LINES :: nat where
  "MAX_PATCH_FILE_LINES = 1000000"

definition MAX_CONFLICT_LINE_BYTES :: nat where
  "MAX_CONFLICT_LINE_BYTES = 1024"

fun invalid_patch_text :: "(ustring \<Rightarrow> ustring) \<Rightarrow> invalid_patch \<Rightarrow> ustring" where
  "invalid_patch_text debug NotOneFile = lit ''the minimal patch tool accepts exactly one file patch''"
| "invalid_patch_text debug (RenameUnsupported old new) =
     lit ''renaming '' @ quoted old @ lit '' to '' @ quoted new
       @ lit '' is not supported by the minimal patch tool''"
| "invalid_patch_text debug BothDevNull = lit ''a file patch cannot use /dev/null for both paths''"
| "invalid_patch_text debug DeleteUnsupported =
     lit ''delete-file patches are not supported by the minimal patch tool''"
| "invalid_patch_text debug EmptyPatch = lit ''patch must not be empty''"
| "invalid_patch_text debug MissingNewHeader = lit ''missing +++ file header''"
| "invalid_patch_text debug HunkEndedEarly = lit ''hunk ended before its declared counts''"
| "invalid_patch_text debug (InvalidHunkLine line) = lit ''invalid hunk line '' @ debug line"
| "invalid_patch_text debug HunkExceedsCounts = lit ''hunk content exceeds its declared counts''"
| "invalid_patch_text debug NoHunk = lit ''file patch must contain at least one hunk''"
| "invalid_patch_text debug (UnaccountedContent line) =
     lit ''unaccounted content after hunk: '' @ debug line"
| "invalid_patch_text debug NoFileHeader = lit ''patch does not contain a unified diff file header''"
| "invalid_patch_text debug (ExpectedHeader pre) =
     lit ''expected '' @ debug pre @ lit '' file header''"
| "invalid_patch_text debug EmptyPath = lit ''patch file path must not be empty''"
| "invalid_patch_text debug (InvalidHunkHeader line) = lit ''invalid hunk header '' @ debug line"
| "invalid_patch_text debug (MissingOldRange line) =
     lit ''missing old range in hunk header '' @ debug line"
| "invalid_patch_text debug (MissingNewRange line) =
     lit ''missing new range in hunk header '' @ debug line"
| "invalid_patch_text debug (InvalidRanges line) =
     lit ''invalid ranges in hunk header '' @ debug line"
| "invalid_patch_text debug (InvalidRangeStart s) = lit ''invalid hunk range start '' @ debug s"
| "invalid_patch_text debug (InvalidRangeCount s) = lit ''invalid hunk range count '' @ debug s"
| "invalid_patch_text debug MarkerWithoutLine = lit ''newline marker has no preceding hunk line''"
| "invalid_patch_text debug CountsMismatch = lit ''parsed hunk counts do not match its header''"

fun patch_limit_text :: "patch_limit \<Rightarrow> ustring" where
  "patch_limit_text PatchLines = lit ''patch exceeds '' @ dec_string MAX_PATCH_LINES @ lit '' lines''"
| "patch_limit_text (TargetBytes p) =
     lit ''patch target '' @ quoted (join_components p) @ lit '' exceeds ''
       @ dec_string MAX_PATCH_FILE_BYTES @ lit '' bytes''"
| "patch_limit_text (TargetLines p) =
     lit ''patch target '' @ quoted (join_components p) @ lit '' exceeds ''
       @ dec_string MAX_PATCH_FILE_LINES @ lit '' lines''"
| "patch_limit_text (ResultBytes p) =
     lit ''patch result '' @ quoted (join_components p) @ lit '' exceeds ''
       @ dec_string MAX_PATCH_FILE_BYTES @ lit '' bytes''"

fun patch_conflict_text :: "(ustring \<Rightarrow> ustring) \<Rightarrow> patch_conflict \<Rightarrow> ustring" where
  "patch_conflict_text debug TargetExists = lit ''new-file patch target already exists''"
| "patch_conflict_text debug SourceMissing = lit ''patch source file does not exist''"
| "patch_conflict_text debug (HunkOutOfPlace n) =
     lit ''hunk starting at old line '' @ dec_string n @ lit '' is out of order or outside the file''"
| "patch_conflict_text debug (ContextMismatch n expected actual) =
     lit ''patch context mismatch at old line '' @ dec_string n @ lit '': expected ''
       @ debug (truncate_utf8 expected MAX_CONFLICT_LINE_BYTES) @ lit '', found ''
       @ debug (truncate_utf8 actual MAX_CONFLICT_LINE_BYTES)"
| "patch_conflict_text debug (FileEnded n) =
     lit ''patch expects old line '' @ dec_string n @ lit '', but the file ended''"

fun patch_error_text :: "(ustring \<Rightarrow> ustring) \<Rightarrow> patch_error \<Rightarrow> ustring" where
  "patch_error_text debug (InvalidPatch m) = lit ''invalid patch: '' @ invalid_patch_text debug m"
| "patch_error_text debug (Limit m) = lit ''patch limit exceeded: '' @ patch_limit_text m"
| "patch_error_text debug (Conflict m) = lit ''patch conflict: '' @ patch_conflict_text debug m"
| "patch_error_text debug (PatchWorkspace e) = workspace_error_text e"
| "patch_error_text debug (PatchIo p source) =
     lit ''failed to update '' @ quoted (join_components p) @ lit '': '' @ io_text source"
| "patch_error_text debug (Preserved target _ source) =
     lit ''patch was not published at '' @ quoted (join_components target)
       @ lit '', and staged data was preserved: '' @ io_text source"
| "patch_error_text debug (Published target _ source) =
     lit ''patch was published at '' @ quoted (join_components target)
       @ lit '', but commit validation failed: '' @ io_text source"
| "patch_error_text debug Cancelled = lit ''apply_patch was cancelled''"

fun patch_error_retryable :: "patch_error \<Rightarrow> bool" where
  "patch_error_retryable (PatchWorkspace e) = workspace_error_retryable e"
| "patch_error_retryable (PatchIo _ source) = (io_kind source = IoInterrupted)"
| "patch_error_retryable _ = False"

fun preserved_code :: "published_recovery \<Rightarrow> string" where
  "preserved_code Unlocated = ''patch_not_published_recovery_unlocated''"
| "preserved_code NotApplicableNewFile = ''patch_not_published_without_recovery''"
| "preserved_code (LocatedContentUnverified _) = ''patch_not_published_with_recovery_candidate''"
| "preserved_code (LocatedContentAndPolicyUnverified _) =
     ''patch_not_published_with_recovery_candidate''"
| "preserved_code _ = ''patch_not_published_with_recovery''"

fun published_code :: "published_recovery \<Rightarrow> string" where
  "published_code Unlocated = ''patch_published_recovery_unlocated''"
| "published_code NotApplicableNewFile = ''patch_published_without_recovery''"
| "published_code (LocatedContentUnverified _) = ''patch_published_with_recovery_candidate''"
| "published_code (LocatedContentAndPolicyUnverified _) = ''patch_published_with_recovery_candidate''"
| "published_code _ = ''patch_published_with_recovery''"

fun patch_error_code :: "patch_error \<Rightarrow> string" where
  "patch_error_code (InvalidPatch _) = ''invalid_patch''"
| "patch_error_code (Limit _) = ''patch_too_large''"
| "patch_error_code (Conflict _) = ''patch_conflict''"
| "patch_error_code (PatchWorkspace e) = workspace_error_code e"
| "patch_error_code (PatchIo _ source) =
     (if io_kind source = IoUnsupported then ''unsupported_file_metadata''
      else if io_kind source = IoWouldBlock then ''patch_conflict''
      else if io_kind source = IoInvalidInput then ''patch_conflict''
      else ''workspace_io_error'')"
| "patch_error_code (Preserved _ recovery _) = preserved_code recovery"
| "patch_error_code (Published _ recovery _) = published_code recovery"
| "patch_error_code Cancelled = ''tool_cancelled''"

section \<open>Outputs\<close>

text \<open>What the two matches of \<open>into_output\<close> compute for a recovery.\<close>

record recovery_report =
  rep_code :: string
  rep_state :: string
  rep_files :: "path list"
  rep_candidates :: "path list"
  rep_recovery :: string
  rep_policy :: string

fun preserved_report :: "published_recovery \<Rightarrow> recovery_report" where
  "preserved_report (LocatedVerified p) =
     \<lparr>rep_code = ''patch_not_published_with_recovery'', rep_state = ''not_published'',
      rep_files = [p], rep_candidates = [], rep_recovery = ''located_verified'',
      rep_policy = ''verified_search_and_git_ignored''\<rparr>"
| "preserved_report (LocatedContentUnverified p) =
     \<lparr>rep_code = ''patch_not_published_with_recovery_candidate'', rep_state = ''not_published'',
      rep_files = [], rep_candidates = [p], rep_recovery = ''located_content_unverified'',
      rep_policy = ''verified_search_and_git_ignored''\<rparr>"
| "preserved_report (LocatedPolicyUnverified p) =
     \<lparr>rep_code = ''patch_not_published_with_recovery'', rep_state = ''not_published'',
      rep_files = [p], rep_candidates = [], rep_recovery = ''located_policy_unverified'',
      rep_policy = ''unverified''\<rparr>"
| "preserved_report (LocatedContentAndPolicyUnverified p) =
     \<lparr>rep_code = ''patch_not_published_with_recovery_candidate'', rep_state = ''not_published'',
      rep_files = [], rep_candidates = [p],
      rep_recovery = ''located_content_and_policy_unverified'', rep_policy = ''unverified''\<rparr>"
| "preserved_report Unlocated =
     \<lparr>rep_code = ''patch_not_published_recovery_unlocated'', rep_state = ''not_published'',
      rep_files = [], rep_candidates = [], rep_recovery = ''unlocated'',
      rep_policy = ''unverified''\<rparr>"
| "preserved_report NotApplicableNewFile =
     \<lparr>rep_code = ''patch_not_published_without_recovery'', rep_state = ''not_published'',
      rep_files = [], rep_candidates = [], rep_recovery = ''not_applicable_new_file'',
      rep_policy = ''not_applicable''\<rparr>"

fun published_report :: "published_recovery \<Rightarrow> recovery_report" where
  "published_report (LocatedVerified p) =
     \<lparr>rep_code = ''patch_published_with_recovery'', rep_state = ''published_with_recovery'',
      rep_files = [p], rep_candidates = [], rep_recovery = ''located_verified'',
      rep_policy = ''verified_search_and_git_ignored''\<rparr>"
| "published_report (LocatedContentUnverified p) =
     \<lparr>rep_code = ''patch_published_with_recovery_candidate'',
      rep_state = ''published_recovery_candidate'',
      rep_files = [], rep_candidates = [p], rep_recovery = ''located_content_unverified'',
      rep_policy = ''verified_search_and_git_ignored''\<rparr>"
| "published_report (LocatedPolicyUnverified p) =
     \<lparr>rep_code = ''patch_published_with_recovery'', rep_state = ''published_with_recovery'',
      rep_files = [p], rep_candidates = [], rep_recovery = ''located_policy_unverified'',
      rep_policy = ''unverified''\<rparr>"
| "published_report (LocatedContentAndPolicyUnverified p) =
     \<lparr>rep_code = ''patch_published_with_recovery_candidate'',
      rep_state = ''published_recovery_candidate'',
      rep_files = [], rep_candidates = [p],
      rep_recovery = ''located_content_and_policy_unverified'', rep_policy = ''unverified''\<rparr>"
| "published_report NotApplicableNewFile =
     \<lparr>rep_code = ''patch_published_without_recovery'', rep_state = ''published_without_recovery'',
      rep_files = [], rep_candidates = [], rep_recovery = ''not_applicable_new_file'',
      rep_policy = ''not_applicable''\<rparr>"
| "published_report Unlocated =
     \<lparr>rep_code = ''patch_published_recovery_unlocated'',
      rep_state = ''published_recovery_unlocated'',
      rep_files = [], rep_candidates = [], rep_recovery = ''unlocated'',
      rep_policy = ''unverified''\<rparr>"

definition js_paths :: "'v json_build \<Rightarrow> path list \<Rightarrow> 'v" where
  "js_paths J ps = js_array J (map (js_string J \<circ> display_relative_path) ps)"

definition recovery_failure ::
    "'v json_build \<Rightarrow> recovery_report \<Rightarrow> path list \<Rightarrow> ustring \<Rightarrow> 'v tool_output" where
  "recovery_failure J r changed message =
     Failure \<lparr>te_code = lit (rep_code r),
              te_message = fst (truncate_json_string message (8 * 1024)),
              te_retryable = False\<rparr>
       (btree_from
         [(lit ''publication_state'', js_string J (lit (rep_state r))),
          (lit ''changed_files'', js_paths J changed),
          (lit ''recovery_files'', js_paths J (rep_files r)),
          (lit ''recovery_candidates'', js_paths J (rep_candidates r)),
          (lit ''recovery_state'', js_string J (lit (rep_recovery r))),
          (lit ''recovery_policy'', js_string J (lit (rep_policy r)))])"

fun into_output :: "(ustring \<Rightarrow> ustring) \<Rightarrow> 'v json_build \<Rightarrow> patch_error \<Rightarrow> 'v tool_output" where
  "into_output debug J (Preserved target recovery source) =
     recovery_failure J (preserved_report recovery) []
       (lit ''patch was not published at '' @ quoted (display_relative_path target)
          @ lit '', and recovery evidence was recorded: '' @ io_text source)"
| "into_output debug J (Published target recovery source) =
     recovery_failure J (published_report recovery) [target]
       (lit ''patch was published at '' @ quoted (display_relative_path target)
          @ lit '', but commit validation failed: '' @ io_text source)"
| "into_output debug J e =
     failure (patch_error_code e) (patch_error_text debug e) (patch_error_retryable e)"

lemma report_codes [simp]:
  "rep_code (preserved_report r) = preserved_code r"
  "rep_code (published_report r) = published_code r"
  by (cases r; simp)+

text \<open>The path of a recovery is reported once, as a file or as a candidate, and only when located.\<close>

fun recovery_path :: "published_recovery \<Rightarrow> path option" where
  "recovery_path (LocatedVerified p) = Some p"
| "recovery_path (LocatedContentUnverified p) = Some p"
| "recovery_path (LocatedPolicyUnverified p) = Some p"
| "recovery_path (LocatedContentAndPolicyUnverified p) = Some p"
| "recovery_path NotApplicableNewFile = None"
| "recovery_path Unlocated = None"

lemma report_paths:
  "rep_files (preserved_report r) @ rep_candidates (preserved_report r)
     = (case recovery_path r of Some p \<Rightarrow> [p] | None \<Rightarrow> [])"
  "rep_files (published_report r) @ rep_candidates (published_report r)
     = (case recovery_path r of Some p \<Rightarrow> [p] | None \<Rightarrow> [])"
  by (cases r; simp)+

text \<open>
  The output of a patch error carries the code and the retry flag that the error itself reports,
  a message of at most 8192 bytes of JSON, and extensions exactly when staged or replaced data may
  have been left behind; only an error after publication names a changed file.
\<close>
lemma patch_output_matches_error:
  "case into_output debug J e of
     Failure err ext \<Rightarrow>
       te_code err = lit (patch_error_code e) \<and> te_retryable err = patch_error_retryable e
       \<and> serialized_json_string_bytes (te_message err) \<le> 8192
       \<and> (case e of
             Preserved p r s \<Rightarrow>
               bt_get ext (lit ''changed_files'') = Some (js_array J [])
           | Published p r s \<Rightarrow>
               bt_get ext (lit ''changed_files'')
                 = Some (js_array J [js_string J (display_relative_path p)])
           | _ \<Rightarrow> ext = [])
   | Success _ _ _ \<Rightarrow> False"
proof -
  have small: "serialized_json_string_bytes (fst (truncate_json_string m 8192)) \<le> 8192" for m
    using truncate_json_fits [of 8192 m] by simp
  have report: "bt_get (btree_from kvs) (lit ''changed_files'') = Some v"
    if "kvs = [(lit ''publication_state'', a), (lit ''changed_files'', v), (lit ''recovery_files'', b),
        (lit ''recovery_candidates'', c), (lit ''recovery_state'', d), (lit ''recovery_policy'', f)]"
    for kvs and v a b c d f :: 'b
    using that by (simp add: btree_from_def) (simp add: bt_get_def)
  show ?thesis
    by (cases e)
      (simp_all add: failure_def recovery_failure_def small js_paths_def
        MAX_ERROR_MESSAGE_SERIALIZED_BYTES_def report [OF refl])
qed

end
