(* ===== verification/Unified_Diff.thy ===== *)
theory Unified_Diff
  imports Patch_Errors
begin

text \<open>
  Parsing of a unified diff (\<open>parse_patch\<close> of crates/capability-coding/src/patch.rs). The cancellation
  flag is an atomic boolean that other threads may set: \<open>flag n\<close> is what the \<open>n\<close>-th load sees, and
  the functions thread the number of loads made so far. \<open>line.split_at(1)\<close> panics when the first
  character of the line has more than one byte; \<open>DiffPanicked\<close> is that outcome. Line numbers are
  naturals, bounded to 64 bits where they are parsed. Code points: 10 and 13 end lines, 45, 43 and 32
  are the prefixes of hunk lines, 64 is the at sign, 44 the comma, 9 the tab.
\<close>

section \<open>Lines and numbers\<close>

text \<open>\<open>str::split_inclusive\<close> at a newline: every line keeps its newline.\<close>

fun split_inclusive :: "ustring \<Rightarrow> ustring list" where
  "split_inclusive [] = []"
| "split_inclusive (c # s) =
     (if c = 10 then [c] # split_inclusive s
      else (case split_inclusive s of [] \<Rightarrow> [[c]] | l # ls \<Rightarrow> (c # l) # ls))"

text \<open>\<open>str::split_once\<close> at a pattern and \<open>str::split_whitespace\<close>.\<close>

fun split_once_str :: "ustring \<Rightarrow> ustring \<Rightarrow> (ustring \<times> ustring) option" where
  "split_once_str p [] = (if p = [] then Some ([], []) else None)"
| "split_once_str p (c # s) =
     (case strip_prefix_of p (c # s) of
        Some r \<Rightarrow> Some ([], r)
      | None \<Rightarrow> map_option (\<lambda>(a, b). (c # a, b)) (split_once_str p s))"

fun split_blank :: "ustring \<Rightarrow> ustring list" where
  "split_blank [] = [[]]"
| "split_blank (c # s) =
     (if is_whitespace c then [] # split_blank s
      else (case split_blank s of [] \<Rightarrow> [[c]] | w # ws \<Rightarrow> (c # w) # ws))"

definition split_whitespace :: "ustring \<Rightarrow> ustring list" where
  "split_whitespace s = filter (\<lambda>w. w \<noteq> []) (split_blank s)"

text \<open>\<open>trim_end_matches(['\r', '\n'])\<close>.\<close>

definition trim_line_end :: "ustring \<Rightarrow> ustring" where
  "trim_line_end s = rev (dropWhile (\<lambda>c. c = 13 \<or> c = 10) (rev s))"

text \<open>\<open>str::parse::<usize>\<close>: an optional plus sign, at least one digit, no overflow.\<close>

definition parse_usize :: "ustring \<Rightarrow> nat option" where
  "parse_usize s =
     (let ds = (case s of c # r \<Rightarrow> if c = 43 then r else s | [] \<Rightarrow> [])
      in if ds \<noteq> [] \<and> list_all (\<lambda>c. 48 \<le> c \<and> c \<le> 57) ds \<and> undec ds < 2 ^ 64
         then Some (undec ds) else None)"

section \<open>Data\<close>

datatype patch_line = Context ustring | Remove ustring | Add ustring

record hunk =
  old_start :: nat
  old_count :: nat
  new_count :: nat
  hunk_lines :: "patch_line list"

record file_patch =
  old_path :: "ustring option"
  new_path :: "ustring option"
  hunks :: "hunk list"

datatype diff_failure = DiffError patch_error | DiffPanicked

abbreviation invalid :: "invalid_patch \<Rightarrow> diff_failure + 'a" where
  "invalid m \<equiv> Inl (DiffError (InvalidPatch m))"

section \<open>Headers\<close>

definition is_diff_metadata :: "ustring \<Rightarrow> bool" where
  "is_diff_metadata line =
     list_ex (\<lambda>pre. starts_with line (lit pre))
       [''diff --git '', ''index '', ''new file mode '', ''deleted file mode '', ''old mode '',
        ''new mode '']"

definition parse_header_path :: "ustring \<Rightarrow> ustring \<Rightarrow> diff_failure + ustring option" where
  "parse_header_path line pre =
     (case strip_prefix_of pre line of
        None \<Rightarrow> invalid (ExpectedHeader pre)
      | Some rest \<Rightarrow>
          let raw = hd (split_on 9 (trim_line_end rest))
          in if raw = lit ''/dev/null'' then Inr None
             else let name = (case strip_prefix_of (lit ''a/'') raw of
                                Some n \<Rightarrow> n
                              | None \<Rightarrow> (case strip_prefix_of (lit ''b/'') raw of
                                           Some n \<Rightarrow> n | None \<Rightarrow> raw))
                  in if name = [] then invalid EmptyPath else Inr (Some name))"

definition parse_range :: "ustring \<Rightarrow> diff_failure + nat \<times> nat" where
  "parse_range rng =
     (let (start, count) = (case split_once 44 rng of Some p \<Rightarrow> p | None \<Rightarrow> (rng, lit ''1''))
      in case parse_usize start of
           None \<Rightarrow> invalid (InvalidRangeStart start)
         | Some s \<Rightarrow>
             (case parse_usize count of
                None \<Rightarrow> invalid (InvalidRangeCount count)
              | Some c \<Rightarrow> Inr (s, c)))"

definition parse_hunk_header :: "ustring \<Rightarrow> diff_failure + nat \<times> nat \<times> nat" where
  "parse_hunk_header raw =
     (let line = trim_line_end raw
      in case Option.bind (strip_prefix_of [64, 64] line) (split_once_str [64, 64]) of
           None \<Rightarrow> invalid (InvalidHunkHeader line)
         | Some (ranges, _) \<Rightarrow>
             (case split_whitespace (trim ranges) of
                [] \<Rightarrow> invalid (MissingOldRange line)
              | [_] \<Rightarrow> invalid (MissingNewRange line)
              | old # new # others \<Rightarrow>
                  if others \<noteq> [] \<or> \<not> starts_with old [45] \<or> \<not> starts_with new [43]
                  then invalid (InvalidRanges line)
                  else try_res (parse_range (drop 1 old)) (\<lambda>(os, oc).
                       try_res (parse_range (drop 1 new)) (\<lambda>(_, nc). Inr (os, oc, nc)))))"

section \<open>Hunks\<close>

definition no_newline_marker :: ustring where
  "no_newline_marker = 92 # lit '' No newline at end of file''"

fun line_content :: "patch_line \<Rightarrow> ustring" where
  "line_content (Context s) = s"
| "line_content (Remove s) = s"
| "line_content (Add s) = s"

fun with_content :: "patch_line \<Rightarrow> ustring \<Rightarrow> patch_line" where
  "with_content (Context _) s = Context s"
| "with_content (Remove _) s = Remove s"
| "with_content (Add _) s = Add s"

definition ends_with :: "uchar \<Rightarrow> ustring \<Rightarrow> bool" where
  "ends_with c s \<longleftrightarrow> s \<noteq> [] \<and> last s = c"

definition strip_line_ending :: "ustring \<Rightarrow> ustring" where
  "strip_line_ending s =
     (if ends_with 10 s
      then let t = butlast s in if ends_with 13 t then butlast t else t
      else s)"

definition strip_last_line_ending :: "patch_line list \<Rightarrow> diff_failure + patch_line list" where
  "strip_last_line_ending ls =
     (if ls = [] then invalid MarkerWithoutLine
      else Inr (butlast ls @ [with_content (last ls) (strip_line_ending (line_content (last ls)))]))"

text \<open>
  A hunk line after \<open>split_at(1)\<close>: the line and how many old and new lines it accounts for.
\<close>

definition read_hunk_line :: "ustring \<Rightarrow> diff_failure + patch_line \<times> nat \<times> nat" where
  "read_hunk_line line =
     (case line of
        [] \<Rightarrow> Inl DiffPanicked
      | c # content \<Rightarrow>
          if len_utf8 c \<noteq> 1 then Inl DiffPanicked
          else if c = 32 then Inr (Context content, 1, 1)
          else if c = 45 then Inr (Remove content, 1, 0)
          else if c = 43 then Inr (Add content, 0, 1)
          else invalid (InvalidHunkLine line))"

type_synonym 'a diff_result = "(diff_failure + 'a) \<times> nat"

text \<open>The inner loop: the lines of one hunk until the counts of its header are reached.\<close>

fun read_hunk_lines ::
    "(nat \<Rightarrow> bool) \<Rightarrow> nat \<Rightarrow> nat \<Rightarrow> ustring list \<Rightarrow> nat \<Rightarrow> nat \<Rightarrow> patch_line list \<Rightarrow> nat
       \<Rightarrow> (patch_line list \<times> ustring list) diff_result" where
  "read_hunk_lines flag oc nc lines os ns acc n =
     (if \<not> (os < oc \<or> ns < nc) then (Inr (acc, lines), n)
      else if flag n then (Inl (DiffError Cancelled), n + 1)
      else case lines of
        [] \<Rightarrow> (invalid HunkEndedEarly, n + 1)
      | line # rest \<Rightarrow>
          if starts_with line no_newline_marker then
            (case strip_last_line_ending acc of
               Inl e \<Rightarrow> (Inl e, n + 1)
             | Inr acc1 \<Rightarrow> read_hunk_lines flag oc nc rest os ns acc1 (n + 1))
          else (case read_hunk_line line of
                  Inl e \<Rightarrow> (Inl e, n + 1)
                | Inr (l, a, b) \<Rightarrow>
                    if oc < os + a \<or> nc < ns + b then (invalid HunkExceedsCounts, n + 1)
                    else read_hunk_lines flag oc nc rest (os + a) (ns + b) (acc @ [l]) (n + 1)))"

declare read_hunk_lines.simps [simp del]

text \<open>A newline marker after the last line of the hunk.\<close>

definition trailing_marker :: "patch_line list \<Rightarrow> ustring list \<Rightarrow> diff_failure + patch_line list \<times> ustring list"
where
  "trailing_marker ls lines =
     (case lines of
        line # rest \<Rightarrow>
          if starts_with line no_newline_marker
          then try_res (strip_last_line_ending ls) (\<lambda>ls1. Inr (ls1, rest))
          else Inr (ls, lines)
      | [] \<Rightarrow> Inr (ls, lines))"

definition read_hunk ::
    "(nat \<Rightarrow> bool) \<Rightarrow> ustring \<Rightarrow> ustring list \<Rightarrow> nat \<Rightarrow> (hunk \<times> ustring list) diff_result" where
  "read_hunk flag header lines n =
     (case parse_hunk_header header of
        Inl e \<Rightarrow> (Inl e, n)
      | Inr (os, oc, nc) \<Rightarrow>
          (case read_hunk_lines flag oc nc lines 0 0 [] n of
             (Inl e, n1) \<Rightarrow> (Inl e, n1)
           | (Inr (ls, rest), n1) \<Rightarrow>
               (try_res (trailing_marker ls rest) (\<lambda>(ls1, rest1).
                  Inr (\<lparr>old_start = os, old_count = oc, new_count = nc, hunk_lines = ls1\<rparr>, rest1)),
                n1)))"

lemmas read_hunk_lines_unfold =
  read_hunk_lines.simps [of _ _ _ "[]"] read_hunk_lines.simps [of _ _ _ "line # rest" for line rest]

lemma read_hunk_lines_shorter:
  "read_hunk_lines flag oc nc lines os ns acc n = (Inr (ls, rest), m) \<Longrightarrow> length rest \<le> length lines"
proof (induction lines arbitrary: os ns acc n)
  case (Cons line lines)
  have IH: "length rest \<le> Suc (length lines)"
    if "read_hunk_lines flag oc nc lines os' ns' acc' n' = (Inr (ls, rest), m)" for os' ns' acc' n'
    using Cons.IH [OF that] by simp
  from Cons.prems show ?case
    by (auto simp: read_hunk_lines_unfold split: if_splits sum.splits dest: IH)
qed (auto simp: read_hunk_lines_unfold split: if_splits)

lemma read_hunk_shorter:
  "read_hunk flag header lines n = (Inr (h, rest), m) \<Longrightarrow> length rest \<le> length lines"
  by (fastforce simp: read_hunk_def trailing_marker_def try_res_Inr
      split: sum.splits prod.splits list.splits if_splits dest: read_hunk_lines_shorter)

text \<open>The hunks of one file: as long as the next line starts with two at signs.\<close>

function read_hunks ::
    "(nat \<Rightarrow> bool) \<Rightarrow> hunk list \<Rightarrow> ustring list \<Rightarrow> nat \<Rightarrow> (hunk list \<times> ustring list) diff_result" where
  "read_hunks flag hs [] n = (Inr (hs, []), n)"
| "read_hunks flag hs (line # rest) n =
     (if \<not> starts_with line [64, 64] then (Inr (hs, line # rest), n)
      else case read_hunk flag line rest n of
             (Inl e, n1) \<Rightarrow> (Inl e, n1)
           | (Inr (h, rest1), n1) \<Rightarrow> read_hunks flag (hs @ [h]) rest1 n1)"
  by pat_completeness auto
termination
  by (relation "measure (\<lambda>(_, _, lines, _). length lines)")
    (auto simp: less_Suc_eq_le dest: read_hunk_shorter [OF sym])

lemma read_hunks_shorter:
  "read_hunks flag hs lines n = (Inr (hs', rest), m) \<Longrightarrow> length rest \<le> length lines"
proof (induction flag hs lines n rule: read_hunks.induct)
  case (2 flag hs line rest0 n)
  then show ?case
    by (fastforce split: if_splits sum.splits prod.splits dest: read_hunk_shorter)
qed simp

section \<open>Files\<close>

definition old_header :: ustring where
  "old_header = lit ''--- ''"

definition new_header :: ustring where
  "new_header = lit ''+++ ''"

text \<open>What may follow the last hunk of a file: nothing, the next file, or metadata of git.\<close>

definition accounted :: "ustring list \<Rightarrow> bool" where
  "accounted lines \<longleftrightarrow>
     (case lines of
        [] \<Rightarrow> True
      | line # _ \<Rightarrow> starts_with line old_header \<or> is_diff_metadata line)"

definition read_file ::
    "(nat \<Rightarrow> bool) \<Rightarrow> ustring \<Rightarrow> ustring list \<Rightarrow> nat \<Rightarrow> (file_patch \<times> ustring list) diff_result" where
  "read_file flag header lines n =
     (case try_res (parse_header_path header old_header) (\<lambda>old.
             case lines of
               [] \<Rightarrow> invalid MissingNewHeader
             | line # rest \<Rightarrow>
                 try_res (parse_header_path line new_header) (\<lambda>new. Inr (old, new, rest))) of
        Inl e \<Rightarrow> (Inl e, n)
      | Inr (old, new, rest) \<Rightarrow>
          (case read_hunks flag [] rest n of
             (Inl e, n1) \<Rightarrow> (Inl e, n1)
           | (Inr (hs, rest1), n1) \<Rightarrow>
               (if hs = [] then invalid NoHunk
                else if \<not> accounted rest1 then invalid (UnaccountedContent (hd rest1))
                else Inr (\<lparr>old_path = old, new_path = new, hunks = hs\<rparr>, rest1), n1)))"

lemma read_file_shorter:
  "read_file flag header lines n = (Inr (fp, rest), m) \<Longrightarrow> length rest \<le> length lines"
  by (auto simp: read_file_def try_res_Inr dest!: read_hunks_shorter
      split: sum.splits prod.splits if_splits list.splits)

text \<open>The outer loop: lines before a file header are skipped.\<close>

function read_files ::
    "(nat \<Rightarrow> bool) \<Rightarrow> file_patch list \<Rightarrow> ustring list \<Rightarrow> nat \<Rightarrow> file_patch list diff_result" where
  "read_files flag fs lines n =
     (if lines = [] then (Inr fs, n)
      else if flag n then (Inl (DiffError Cancelled), n + 1)
      else case dropWhile (\<lambda>l. \<not> starts_with l old_header) lines of
             [] \<Rightarrow> (Inr fs, n + 1)
           | header # rest \<Rightarrow>
               (case read_file flag header rest (n + 1) of
                  (Inl e, n1) \<Rightarrow> (Inl e, n1)
                | (Inr (fp, rest1), n1) \<Rightarrow> read_files flag (fs @ [fp]) rest1 n1))"
  by pat_completeness auto

lemma dropWhile_shorter: "dropWhile P xs = y # ys \<Longrightarrow> length ys < length xs"
  by (metis length_Cons length_dropWhile_le less_le_trans lessI)

termination read_files
  by (relation "measure (\<lambda>(_, _, lines, _). length lines)")
    (auto dest!: read_file_shorter [OF sym] dropWhile_shorter)

declare read_files.simps [simp del]

text \<open>The first loop: the flag is loaded before every 1024th line, and 200000 lines is the limit.\<close>

fun collect_lines :: "(nat \<Rightarrow> bool) \<Rightarrow> nat \<Rightarrow> ustring list \<Rightarrow> nat \<Rightarrow> ustring list diff_result" where
  "collect_lines flag i [] n = (Inr [], n)"
| "collect_lines flag i (line # rest) n =
     (let n1 = (if i mod 1024 = 0 then n + 1 else n)
      in if i mod 1024 = 0 \<and> flag n then (Inl (DiffError Cancelled), n1)
         else if i = MAX_PATCH_LINES then (Inl (DiffError (Limit PatchLines)), n1)
         else case collect_lines flag (i + 1) rest n1 of
                (Inl e, n2) \<Rightarrow> (Inl e, n2)
              | (Inr ls, n2) \<Rightarrow> (Inr (line # ls), n2))"

definition parse_patch :: "(nat \<Rightarrow> bool) \<Rightarrow> ustring \<Rightarrow> nat \<Rightarrow> file_patch list diff_result" where
  "parse_patch flag patch n =
     (if patch = [] then (invalid EmptyPatch, n)
      else case collect_lines flag 0 (split_inclusive patch) n of
             (Inl e, n1) \<Rightarrow> (Inl e, n1)
           | (Inr lines, n1) \<Rightarrow>
               (case read_files flag [] lines n1 of
                  (Inl e, n2) \<Rightarrow> (Inl e, n2)
                | (Inr fs, n2) \<Rightarrow> (if fs = [] then invalid NoFileHeader else Inr fs, n2)))"

end
