(* ===== verification/Patch_Apply.thy ===== *)
theory Patch_Apply
  imports Unified_Diff
begin

text \<open>
  Applying the hunks of a file patch (\<open>FilePatch\<close>, \<open>apply_hunks\<close> and \<open>require_original_line\<close> of
  crates/capability-coding/src/patch.rs), what a list of hunks means without cursors and counters,
  and that the code computes exactly that.
\<close>

section \<open>The code\<close>

datatype file_change = Write ustring

definition target_path :: "file_patch \<Rightarrow> diff_failure + ustring" where
  "target_path fp =
     (case (old_path fp, new_path fp) of
        (Some old, Some new) \<Rightarrow>
          if path_components old = path_components new then Inr new
          else invalid (RenameUnsupported old new)
      | (None, Some new) \<Rightarrow> Inr new
      | (Some old, None) \<Rightarrow> Inr old
      | (None, None) \<Rightarrow> invalid BothDevNull)"

definition require_original_line :: "ustring list \<Rightarrow> nat \<Rightarrow> ustring \<Rightarrow> diff_failure + unit" where
  "require_original_line original i expected =
     (if i < length original then
        (if original ! i = expected then Inr ()
         else Inl (DiffError (Conflict (ContextMismatch (i + 1) expected (original ! i)))))
      else Inl (DiffError (Conflict (FileEnded (i + 1)))))"

text \<open>Copying unchanged lines loads the flag before every 1024th of them.\<close>

fun copy_lines :: "(nat \<Rightarrow> bool) \<Rightarrow> nat \<Rightarrow> ustring list \<Rightarrow> ustring \<Rightarrow> nat \<Rightarrow> ustring diff_result" where
  "copy_lines flag i [] out n = (Inr out, n)"
| "copy_lines flag i (line # rest) out n =
     (if i mod 1024 = 0 \<and> flag n then (Inl (DiffError Cancelled), n + 1)
      else copy_lines flag (i + 1) rest (out @ line) (if i mod 1024 = 0 then n + 1 else n))"

record apply_state =
  cursor :: nat
  old_seen :: nat
  new_seen :: nat
  written :: ustring

fun apply_line :: "ustring list \<Rightarrow> patch_line \<Rightarrow> apply_state \<Rightarrow> diff_failure + apply_state" where
  "apply_line original (Context expected) s =
     try_res (require_original_line original (cursor s) expected) (\<lambda>_.
       Inr \<lparr>cursor = cursor s + 1, old_seen = old_seen s + 1, new_seen = new_seen s + 1,
            written = written s @ expected\<rparr>)"
| "apply_line original (Remove expected) s =
     try_res (require_original_line original (cursor s) expected) (\<lambda>_.
       Inr (s\<lparr>cursor := cursor s + 1, old_seen := old_seen s + 1\<rparr>))"
| "apply_line original (Add added) s =
     Inr (s\<lparr>written := written s @ added, new_seen := new_seen s + 1\<rparr>)"

fun apply_lines ::
    "(nat \<Rightarrow> bool) \<Rightarrow> ustring list \<Rightarrow> patch_line list \<Rightarrow> apply_state \<Rightarrow> nat \<Rightarrow> apply_state diff_result"
where
  "apply_lines flag original [] s n = (Inr s, n)"
| "apply_lines flag original (l # ls) s n =
     (if flag n then (Inl (DiffError Cancelled), n + 1)
      else case apply_line original l s of
             Inl e \<Rightarrow> (Inl e, n + 1)
           | Inr s1 \<Rightarrow> apply_lines flag original ls s1 (n + 1))"

definition hunk_start :: "hunk \<Rightarrow> nat" where
  "hunk_start h = (if old_start h = 0 then 0 else old_start h - 1)"

definition apply_hunk ::
    "(nat \<Rightarrow> bool) \<Rightarrow> ustring list \<Rightarrow> hunk \<Rightarrow> nat \<Rightarrow> ustring \<Rightarrow> nat \<Rightarrow> (nat \<times> ustring) diff_result" where
  "apply_hunk flag original h c out n =
     (if flag n then (Inl (DiffError Cancelled), n + 1)
      else let start = hunk_start h
           in if start < c \<or> length original < start
              then (Inl (DiffError (Conflict (HunkOutOfPlace (old_start h)))), n + 1)
              else case copy_lines flag 0 (take (start - c) (drop c original)) out (n + 1) of
                     (Inl e, n1) \<Rightarrow> (Inl e, n1)
                   | (Inr out1, n1) \<Rightarrow>
                       (case apply_lines flag original (hunk_lines h)
                               \<lparr>cursor = start, old_seen = 0, new_seen = 0, written = out1\<rparr> n1 of
                          (Inl e, n2) \<Rightarrow> (Inl e, n2)
                        | (Inr s, n2) \<Rightarrow>
                            (if old_seen s \<noteq> old_count h \<or> new_seen s \<noteq> new_count h
                             then invalid CountsMismatch
                             else Inr (cursor s, written s), n2)))"

fun apply_from ::
    "(nat \<Rightarrow> bool) \<Rightarrow> ustring list \<Rightarrow> hunk list \<Rightarrow> nat \<Rightarrow> ustring \<Rightarrow> nat \<Rightarrow> ustring diff_result" where
  "apply_from flag original [] c out n = copy_lines flag 0 (drop c original) out n"
| "apply_from flag original (h # hs) c out n =
     (case apply_hunk flag original h c out n of
        (Inl e, n1) \<Rightarrow> (Inl e, n1)
      | (Inr (c1, out1), n1) \<Rightarrow> apply_from flag original hs c1 out1 n1)"

definition apply_hunks :: "(nat \<Rightarrow> bool) \<Rightarrow> ustring \<Rightarrow> hunk list \<Rightarrow> nat \<Rightarrow> ustring diff_result" where
  "apply_hunks flag original hs n = apply_from flag (split_inclusive original) hs 0 [] n"

definition prepare_change ::
    "(nat \<Rightarrow> bool) \<Rightarrow> file_patch \<Rightarrow> ustring option \<Rightarrow> nat \<Rightarrow> file_change diff_result" where
  "prepare_change flag fp original n =
     (case (old_path fp, new_path fp, original) of
        (None, Some _, Some _) \<Rightarrow> (Inl (DiffError (Conflict TargetExists)), n)
      | (Some _, _, None) \<Rightarrow> (Inl (DiffError (Conflict SourceMissing)), n)
      | (Some _, None, Some _) \<Rightarrow> (invalid DeleteUnsupported, n)
      | _ \<Rightarrow>
          (case apply_hunks flag (case original of Some s \<Rightarrow> s | None \<Rightarrow> []) (hunks fp) n of
             (Inl e, n1) \<Rightarrow> (Inl e, n1)
           | (Inr updated, n1) \<Rightarrow> (Inr (Write updated), n1)))"

section \<open>What a list of hunks means\<close>

definition old_part :: "patch_line list \<Rightarrow> ustring list" where
  "old_part ls = concat (map (\<lambda>l. case l of Add _ \<Rightarrow> [] | _ \<Rightarrow> [line_content l]) ls)"

definition new_part :: "patch_line list \<Rightarrow> ustring list" where
  "new_part ls = concat (map (\<lambda>l. case l of Remove _ \<Rightarrow> [] | _ \<Rightarrow> [line_content l]) ls)"

definition counted :: "hunk \<Rightarrow> bool" where
  "counted h \<longleftrightarrow> old_count h = length (old_part (hunk_lines h))
     \<and> new_count h = length (new_part (hunk_lines h))"

text \<open>
  From line \<open>c\<close> of the old file on, the hunks turn the lines \<open>xs\<close> into \<open>ys\<close>: up to the start of a
  hunk the lines are kept, then its old part is replaced by its new part.
\<close>

inductive patches :: "nat \<Rightarrow> hunk list \<Rightarrow> ustring list \<Rightarrow> ustring list \<Rightarrow> bool" where
  patches_Nil: "patches c [] xs xs"
| patches_Cons:
    "hunk_start h = c + length gap \<Longrightarrow> counted h
      \<Longrightarrow> patches (hunk_start h + old_count h) hs xs ys
      \<Longrightarrow> patches c (h # hs) (gap @ old_part (hunk_lines h) @ xs) (gap @ new_part (hunk_lines h) @ ys)"

inductive_simps patches_Nil_iff [simp]: "patches c [] xs ys"
inductive_simps patches_Cons_iff: "patches c (h # hs) xs ys"

lemma part_simps [simp]:
  "old_part [] = []" "new_part [] = []"
  "old_part (Context s # ls) = s # old_part ls" "new_part (Context s # ls) = s # new_part ls"
  "old_part (Remove s # ls) = s # old_part ls" "new_part (Remove s # ls) = new_part ls"
  "old_part (Add s # ls) = old_part ls" "new_part (Add s # ls) = s # new_part ls"
  by (simp_all add: old_part_def new_part_def)

section \<open>The code computes it\<close>

text \<open>The flag of a call that nobody cancels.\<close>

abbreviation never :: "nat \<Rightarrow> bool" where
  "never \<equiv> \<lambda>_. False"

lemma copy_lines_never: "fst (copy_lines never i ls out n) = Inr (out @ concat ls)"
  by (induction ls arbitrary: i out n) auto

lemma require_original_line_Inr:
  "require_original_line original i expected = Inr u \<longleftrightarrow> i < length original \<and> original ! i = expected"
  by (auto simp: require_original_line_def)

lemma apply_lines_never:
  assumes "cursor s \<le> length original"
  shows "fst (apply_lines never original ls s n) = Inr t \<longleftrightarrow>
    prefix (old_part ls) (drop (cursor s) original)
    \<and> t = \<lparr>cursor = cursor s + length (old_part ls), old_seen = old_seen s + length (old_part ls),
           new_seen = new_seen s + length (new_part ls), written = written s @ concat (new_part ls)\<rparr>"
  using assms
proof (induction ls arbitrary: s n)
  case (Cons l ls)
  have next_line: "prefix (x # xs) (drop c original) \<longleftrightarrow>
      c < length original \<and> original ! c = x \<and> prefix xs (drop (Suc c) original)"
    if "c \<le> length original" for x xs c
    using that by (cases "c < length original") (auto simp: Cons_nth_drop_Suc [symmetric])
  show ?case
  proof (cases l)
    case (Context x)
    show ?thesis
    proof (cases "cursor s < length original \<and> original ! cursor s = x")
      case True
      with Context Cons.prems show ?thesis
        by (simp add: require_original_line_def Cons.IH next_line)
    qed (use Context Cons.prems next_line in \<open>auto simp: require_original_line_def\<close>)
  next
    case (Remove x)
    show ?thesis
    proof (cases "cursor s < length original \<and> original ! cursor s = x")
      case True
      with Remove Cons.prems show ?thesis
        by (simp add: require_original_line_def Cons.IH next_line)
    qed (use Remove Cons.prems next_line in \<open>auto simp: require_original_line_def\<close>)
  qed (use Cons in \<open>simp\<close>)
qed auto

text \<open>A hunk fits at a cursor when it is in place and finds its old part there.\<close>

definition hunk_fits :: "ustring list \<Rightarrow> nat \<Rightarrow> hunk \<Rightarrow> bool" where
  "hunk_fits original c h \<longleftrightarrow>
     c \<le> hunk_start h \<and> hunk_start h \<le> length original \<and> counted h
     \<and> prefix (old_part (hunk_lines h)) (drop (hunk_start h) original)"

definition gap_before :: "ustring list \<Rightarrow> nat \<Rightarrow> hunk \<Rightarrow> ustring list" where
  "gap_before original c h = take (hunk_start h - c) (drop c original)"

lemma apply_hunk_never:
  assumes "c \<le> length original"
  shows "fst (apply_hunk never original h c out n) = Inr (c', out') \<longleftrightarrow>
    hunk_fits original c h \<and> c' = hunk_start h + old_count h
    \<and> out' = out @ concat (gap_before original c h) @ concat (new_part (hunk_lines h))"
proof (cases "c \<le> hunk_start h \<and> hunk_start h \<le> length original")
  case True
  let ?gap = "take (hunk_start h - c) (drop c original)"
  obtain n1 where copy: "copy_lines never 0 ?gap out (n + 1) = (Inr (out @ concat ?gap), n1)"
    using copy_lines_never [of 0 ?gap out "n + 1"] by (metis prod.collapse)
  let ?s = "\<lparr>cursor = hunk_start h, old_seen = 0, new_seen = 0, written = out @ concat ?gap\<rparr>"
  obtain r n2 where lines: "apply_lines never original (hunk_lines h) ?s n1 = (r, n2)" by fastforce
  have r: "r = Inr t \<longleftrightarrow> prefix (old_part (hunk_lines h)) (drop (hunk_start h) original)
    \<and> t = \<lparr>cursor = hunk_start h + length (old_part (hunk_lines h)),
           old_seen = length (old_part (hunk_lines h)), new_seen = length (new_part (hunk_lines h)),
           written = (out @ concat ?gap) @ concat (new_part (hunk_lines h))\<rparr>" for t
    using apply_lines_never [of ?s original "hunk_lines h" n1 t] lines True by simp
  have run: "fst (apply_hunk never original h c out n) =
      (case r of Inl e \<Rightarrow> Inl e
       | Inr s \<Rightarrow> if old_seen s \<noteq> old_count h \<or> new_seen s \<noteq> new_count h then invalid CountsMismatch
                  else Inr (cursor s, written s))"
    using True copy lines by (cases r) (simp_all add: apply_hunk_def Let_def not_less)
  show ?thesis
  proof (cases r)
    case (Inl e)
    with r have "\<not> prefix (old_part (hunk_lines h)) (drop (hunk_start h) original)" by blast
    with Inl run show ?thesis by (simp add: hunk_fits_def)
  next
    case (Inr t)
    with r [of t] True run show ?thesis by (auto simp: counted_def hunk_fits_def gap_before_def)
  qed
qed (auto simp: apply_hunk_def hunk_fits_def)

lemma hunk_fits_split:
  assumes "hunk_fits original c h"
  shows "drop c original
    = gap_before original c h @ old_part (hunk_lines h) @ drop (hunk_start h + old_count h) original"
    and "hunk_start h = c + length (gap_before original c h)"
    and "hunk_start h + old_count h \<le> length original"
proof -
  let ?old = "old_part (hunk_lines h)"
  from assms have ok: "c \<le> hunk_start h" "hunk_start h \<le> length original" "old_count h = length ?old"
    and pre: "prefix ?old (drop (hunk_start h) original)"
    by (auto simp: hunk_fits_def counted_def)
  from pre obtain zs where zs: "drop (hunk_start h) original = ?old @ zs" by (auto simp: prefix_def)
  then have "drop (hunk_start h + old_count h) original = zs"
    by (metis append_eq_conv_conj drop_drop add.commute ok(3))
  with zs ok(1) show "drop c original
    = gap_before original c h @ ?old @ drop (hunk_start h + old_count h) original"
    unfolding gap_before_def by (metis append_take_drop_id drop_drop le_add_diff_inverse2)
  show "hunk_start h = c + length (gap_before original c h)"
    using ok by (simp add: gap_before_def)
  show "hunk_start h + old_count h \<le> length original"
    using prefix_length_le [OF pre] ok by simp
qed

lemma patches_drop_Cons:
  assumes "c \<le> length original"
  shows "patches c (h # hs) (drop c original) ls \<longleftrightarrow>
    hunk_fits original c h
    \<and> (\<exists>ys. ls = gap_before original c h @ new_part (hunk_lines h) @ ys
         \<and> patches (hunk_start h + old_count h) hs (drop (hunk_start h + old_count h) original) ys)"
proof
  assume "patches c (h # hs) (drop c original) ls"
  then obtain gap zs ys where p: "drop c original = gap @ old_part (hunk_lines h) @ zs"
    "ls = gap @ new_part (hunk_lines h) @ ys" "hunk_start h = c + length gap" "counted h"
    "patches (hunk_start h + old_count h) hs zs ys"
    by (auto simp: patches_Cons_iff)
  have "drop (hunk_start h) original = old_part (hunk_lines h) @ zs" and "gap_before original c h = gap"
    using p(1,3) by (auto simp: gap_before_def drop_drop [symmetric] add.commute [of c])
  moreover from this have "drop (hunk_start h + old_count h) original = zs"
    using p(4) by (metis append_eq_conv_conj counted_def drop_drop add.commute)
  moreover have "hunk_start h \<le> length original"
    using p(1,3) assms
    by (metis diff_add_inverse le_diff_conv2 length_append length_drop le_add1 add.commute)
  ultimately show "hunk_fits original c h
    \<and> (\<exists>ys. ls = gap_before original c h @ new_part (hunk_lines h) @ ys
         \<and> patches (hunk_start h + old_count h) hs (drop (hunk_start h + old_count h) original) ys)"
    using p by (auto simp: hunk_fits_def)
next
  assume "hunk_fits original c h
    \<and> (\<exists>ys. ls = gap_before original c h @ new_part (hunk_lines h) @ ys
         \<and> patches (hunk_start h + old_count h) hs (drop (hunk_start h + old_count h) original) ys)"
  then obtain ys where fits: "hunk_fits original c h"
    and ys: "ls = gap_before original c h @ new_part (hunk_lines h) @ ys"
      "patches (hunk_start h + old_count h) hs (drop (hunk_start h + old_count h) original) ys" by blast
  have "counted h" using fits by (simp add: hunk_fits_def)
  from patches_Cons [OF hunk_fits_split(2) [OF fits] this ys(2)]
  show "patches c (h # hs) (drop c original) ls"
    unfolding hunk_fits_split(1) [OF fits, symmetric] ys(1) .
qed

lemma apply_from_never:
  assumes "c \<le> length original"
  shows "fst (apply_from never original hs c out0 n) = Inr out \<longleftrightarrow>
    (\<exists>ls. patches c hs (drop c original) ls \<and> out = out0 @ concat ls)"
  using assms
proof (induction hs arbitrary: c out0 n)
  case Nil
  show ?case by (auto simp: copy_lines_never)
next
  case (Cons h hs)
  obtain r m where hunk: "apply_hunk never original h c out0 n = (r, m)" by fastforce
  note step = apply_hunk_never [OF Cons.prems, of h out0 n, unfolded hunk fst_conv]
  show ?case
  proof (cases "hunk_fits original c h")
    case True
    with step have "r = Inr (hunk_start h + old_count h,
        out0 @ concat (gap_before original c h) @ concat (new_part (hunk_lines h)))" by blast
    with True hunk hunk_fits_split(3) [OF True] show ?thesis
      by (auto simp: Cons.IH patches_drop_Cons [OF Cons.prems])
  next
    case False
    with step have "\<exists>e. r = Inl e" by (cases r) auto
    with False hunk show ?thesis by (auto simp: patches_drop_Cons [OF Cons.prems])
  qed
qed

lemma apply_hunks_spec:
  "fst (apply_hunks never original hs n) = Inr out \<longleftrightarrow>
     (\<exists>ls. patches 0 hs (split_inclusive original) ls \<and> out = concat ls)"
  using apply_from_never [of 0 "split_inclusive original" hs "[]" n out]
  by (simp add: apply_hunks_def)

text \<open>
  C17. Applying hunks computes what they mean: it succeeds exactly when there are lines that the hunks
  turn the lines of the file into (every hunk in its place, in order, with the declared counts and
  matching context), and the result is those lines.
\<close>
theorem apply_hunks_implements_patches:
  "fst (apply_hunks never original hs n) = Inr out \<longleftrightarrow>
     (\<exists>ls. patches 0 hs (split_inclusive original) ls \<and> out = concat ls)"
  by (rule apply_hunks_spec)

end
