(* ===== verification/Utf8.thy ===== *)
theory Utf8
  imports Prelude
begin

text \<open>
  UTF-8 as the standard library has it: \<open>str::as_bytes\<close>, and the validation behind
  \<open>str::from_utf8\<close> and \<open>String::from_utf8\<close>, with the position and the length of an error.
\<close>

definition utf8_char :: "uchar \<Rightarrow> nat list" where
  "utf8_char c =
     (if c < 128 then [c]
      else if c < 2048 then [192 + c div 64, 128 + c mod 64]
      else if c < 65536 then [224 + c div 4096, 128 + c div 64 mod 64, 128 + c mod 64]
      else [240 + c div 262144, 128 + c div 4096 mod 64, 128 + c div 64 mod 64, 128 + c mod 64])"

definition as_bytes :: "ustring \<Rightarrow> nat list" where
  "as_bytes s = concat (map utf8_char s)"

text \<open>A Rust \<open>char\<close> is a scalar value: no surrogate, at most 0x10FFFF.\<close>

definition is_scalar :: "uchar \<Rightarrow> bool" where
  "is_scalar c \<longleftrightarrow> c < 55296 \<or> (57344 \<le> c \<and> c < 1114112)"

text \<open>
  One character at the front: the character and the number of its bytes, or the length of the
  error, or the end of the input in the middle of a character.
\<close>

datatype utf8_step = ValidChar uchar nat | ErrorLen nat | Unexpected_end

definition continuation :: "nat \<Rightarrow> bool" where
  "continuation b \<longleftrightarrow> 128 \<le> b \<and> b \<le> 191"

definition second_byte_ok :: "nat \<Rightarrow> nat \<Rightarrow> bool" where
  "second_byte_ok b b1 \<longleftrightarrow>
     (if b = 224 then 160 \<le> b1 \<and> b1 \<le> 191
      else if b = 237 then 128 \<le> b1 \<and> b1 \<le> 159
      else if b = 240 then 144 \<le> b1 \<and> b1 \<le> 191
      else if b = 244 then 128 \<le> b1 \<and> b1 \<le> 143
      else continuation b1)"

definition char_width :: "nat \<Rightarrow> nat" where
  "char_width b =
     (if b < 128 then 1
      else if 194 \<le> b \<and> b \<le> 223 then 2
      else if 224 \<le> b \<and> b \<le> 239 then 3
      else if 240 \<le> b \<and> b \<le> 244 then 4
      else 0)"

definition utf8_step :: "nat \<Rightarrow> nat list \<Rightarrow> utf8_step" where
  "utf8_step b rest =
     (let k = char_width b
      in if k = 1 then ValidChar b 1
         else if k = 0 then ErrorLen 1
         else case rest of
           [] \<Rightarrow> Unexpected_end
         | b1 # rest1 \<Rightarrow>
             if \<not> second_byte_ok b b1 then ErrorLen 1
             else if k = 2 then ValidChar ((b - 192) * 64 + (b1 - 128)) 2
             else case rest1 of
               [] \<Rightarrow> Unexpected_end
             | b2 # rest2 \<Rightarrow>
                 if \<not> continuation b2 then ErrorLen 2
                 else if k = 3 then
                   ValidChar ((b - 224) * 4096 + (b1 - 128) * 64 + (b2 - 128)) 3
                 else case rest2 of
                   [] \<Rightarrow> Unexpected_end
                 | b3 # _ \<Rightarrow>
                     if \<not> continuation b3 then ErrorLen 3
                     else ValidChar ((b - 240) * 262144 + (b1 - 128) * 4096 + (b2 - 128) * 64
                            + (b3 - 128)) 4)"

text \<open>\<open>Utf8Error\<close>.\<close>

record utf8_error =
  valid_up_to :: nat
  error_len :: "nat option"

function from_utf8_at :: "nat \<Rightarrow> nat list \<Rightarrow> utf8_error + ustring" where
  "from_utf8_at i [] = Inr []"
| "from_utf8_at i (b # rest) =
     (case utf8_step b rest of
        ErrorLen k \<Rightarrow> Inl \<lparr>valid_up_to = i, error_len = Some k\<rparr>
      | Unexpected_end \<Rightarrow> Inl \<lparr>valid_up_to = i, error_len = None\<rparr>
      | ValidChar c k \<Rightarrow>
          try_res (from_utf8_at (i + k) (drop (k - 1) rest)) (\<lambda>s. Inr (c # s)))"
  by pat_completeness auto
termination by (relation "measure (\<lambda>(i, bs). length bs)") auto

definition from_utf8 :: "nat list \<Rightarrow> utf8_error + ustring" where
  "from_utf8 bs = from_utf8_at 0 bs"

definition utf8_error_text :: "utf8_error \<Rightarrow> ustring" where
  "utf8_error_text e =
     (case error_len e of
        Some k \<Rightarrow> lit ''invalid utf-8 sequence of '' @ dec_string k @ lit '' bytes from index ''
                    @ dec_string (valid_up_to e)
      | None \<Rightarrow> lit ''incomplete utf-8 byte sequence from index '' @ dec_string (valid_up_to e))"

text \<open>Decoding what was encoded.\<close>

lemma split_64: "(n :: nat) div 64 * 64 + n mod 64 = n" "n div 64 div 64 = n div 4096"
  "n div 4096 div 64 = n div 262144"
  by (simp_all add: div_mult2_eq [symmetric])

lemma three_byte_char:
  assumes "a < 16" "x < 64" "y < 64" "2048 \<le> a * 4096 + x * 64 + y"
    and "is_scalar (a * 4096 + x * 64 + y)"
  shows "utf8_step (224 + a) ((128 + x) # (128 + y) # rest) = ValidChar (a * 4096 + x * 64 + y) 3"
proof -
  have "a = 0 \<Longrightarrow> 32 \<le> x" using assms(3,4) by simp
  moreover have "a = 13 \<Longrightarrow> x < 32" using assms(2,3,5) unfolding is_scalar_def by linarith
  ultimately have "second_byte_ok (224 + a) (128 + x)"
    using assms(1,2) by (auto simp: second_byte_ok_def continuation_def)
  with assms(1-3) show ?thesis
    by (simp add: utf8_step_def char_width_def continuation_def)
qed

lemma four_byte_char:
  assumes "x < 64" "y < 64" "z < 64" "65536 \<le> a * 262144 + x * 4096 + y * 64 + z"
    and "is_scalar (a * 262144 + x * 4096 + y * 64 + z)"
  shows "utf8_step (240 + a) ((128 + x) # (128 + y) # (128 + z) # rest)
    = ValidChar (a * 262144 + x * 4096 + y * 64 + z) 4"
proof -
  have a: "a \<le> 4" using assms(5) unfolding is_scalar_def by linarith
  have "a = 0 \<Longrightarrow> 16 \<le> x" using assms(2-4) by simp
  moreover have "a = 4 \<Longrightarrow> x < 16" using assms(5) unfolding is_scalar_def by linarith
  ultimately have "second_byte_ok (240 + a) (128 + x)"
    using assms(1) by (auto simp: second_byte_ok_def continuation_def)
  with assms(1-3) a show ?thesis
    by (simp add: utf8_step_def char_width_def continuation_def)
qed

lemma utf8_step_char:
  assumes "is_scalar c"
  shows "\<exists>b bs. utf8_char c = b # bs \<and> utf8_step b (bs @ rest) = ValidChar c (length bs + 1)"
proof -
  have d: "m div n < q" if "m < q * n" for m n q :: nat
    using that by (simp add: less_mult_imp_div_less)
  consider "c < 128" | "128 \<le> c" "c < 2048" | "2048 \<le> c" "c < 65536" | "65536 \<le> c" by linarith
  then show ?thesis
  proof cases
    case 1
    then show ?thesis by (simp add: utf8_char_def utf8_step_def char_width_def)
  next
    case 2
    then have "2 \<le> c div 64" "c div 64 < 32" by (auto intro: d)
    with 2 show ?thesis
      by (simp add: utf8_char_def utf8_step_def char_width_def second_byte_ok_def continuation_def)
  next
    case 3
    let ?a = "c div 4096" and ?x = "c div 64 mod 64" and ?y = "c mod 64"
    have c: "?a * 4096 + ?x * 64 + ?y = c"
      using split_64(1) [of c] split_64(1) [of "c div 64"] split_64(2) [of c] by linarith
    have "?a < 16" "?x < 64" "?y < 64" using 3 by (auto intro: d)
    with three_byte_char [of ?a ?x ?y rest] 3 assms show ?thesis
      unfolding c by (simp add: utf8_char_def)
  next
    case 4
    let ?a = "c div 262144" and ?x = "c div 4096 mod 64" and ?y = "c div 64 mod 64" and ?z = "c mod 64"
    have c: "?a * 262144 + ?x * 4096 + ?y * 64 + ?z = c"
      using split_64(1) [of c] split_64(1) [of "c div 64"] split_64(1) [of "c div 4096"] split_64(2,3) [of c]
      by linarith
    have "?x < 64" "?y < 64" "?z < 64" by auto
    with four_byte_char [of ?x ?y ?z ?a rest] 4 assms show ?thesis
      unfolding c by (simp add: utf8_char_def)
  qed
qed

lemma from_utf8_as_bytes: "list_all is_scalar s \<Longrightarrow> from_utf8_at i (as_bytes s) = Inr s"
proof (induction s arbitrary: i)
  case (Cons c s)
  then obtain b bs where "utf8_char c = b # bs"
    "utf8_step b (bs @ as_bytes s) = ValidChar c (length bs + 1)"
    using utf8_step_char [of c "as_bytes s"] by auto
  with Cons show ?case by (simp add: as_bytes_def)
qed (simp add: as_bytes_def)

section \<open>Pieces of text\<close>

text \<open>Errors are positions relative to the start.\<close>

lemma from_utf8_at_shift:
  "from_utf8_at i bs = map_err (\<lambda>e. e\<lparr>valid_up_to := i + valid_up_to e\<rparr>) (from_utf8_at 0 bs)"
proof -
  have "from_utf8_at (i + j) bs = map_err (\<lambda>e. e\<lparr>valid_up_to := i + valid_up_to e\<rparr>) (from_utf8_at j bs)"
    for i j
  proof (induction j bs rule: from_utf8_at.induct)
    case (2 j b rest)
    show ?case
    proof (cases "utf8_step b rest")
      case (ValidChar c k)
      with 2 [OF ValidChar] show ?thesis
        by (cases "from_utf8_at (j + k) (drop (k - 1) rest)") (simp_all add: add.assoc)
    qed simp_all
  qed simp
  from this [of i 0] show ?thesis by simp
qed

lemma utf8_step_append:
  "utf8_step b rest = ValidChar c k
     \<Longrightarrow> utf8_step b (rest @ ys) = ValidChar c k \<and> 0 < k \<and> k \<le> Suc (length rest)"
  "utf8_step b rest = ErrorLen k \<Longrightarrow> utf8_step b (rest @ ys) = ErrorLen k"
  by (auto simp: utf8_step_def Let_def split: if_splits list.splits)

lemma from_utf8_at_append:
  "from_utf8_at i xs = Inr s
     \<Longrightarrow> from_utf8_at i (xs @ ys) = try_res (from_utf8_at (i + length xs) ys) (\<lambda>t. Inr (s @ t))"
proof (induction i xs arbitrary: s rule: from_utf8_at.induct)
  case (2 i b rest)
  then obtain c k s' where step: "utf8_step b rest = ValidChar c k"
    and s': "from_utf8_at (i + k) (drop (k - 1) rest) = Inr s'" "s = c # s'"
    by (auto simp: try_res_Inr split: utf8_step.splits)
  note k = utf8_step_append(1) [OF step, of ys]
  then have "i + k + length (drop (k - 1) rest) = i + length (b # rest)" by simp
  with 2(1) [OF step s'(1)] k s'(2) show ?case
    by (cases "from_utf8_at (i + length (b # rest)) ys") simp_all
next
  case (1 i)
  then show ?case by (cases "from_utf8_at i ys") simp_all
qed

lemma from_utf8_at_invalid:
  "from_utf8_at i xs = Inl e \<Longrightarrow> error_len e \<noteq> None \<Longrightarrow> from_utf8_at i (xs @ ys) = Inl e"
proof (induction i xs rule: from_utf8_at.induct)
  case (2 i b rest)
  show ?case
  proof (cases "utf8_step b rest")
    case (ValidChar c k)
    note k = utf8_step_append(1) [OF ValidChar, of ys]
    then have "k - Suc (length rest) = 0" by simp
    with 2 ValidChar k show ?thesis
      by (cases "from_utf8_at (i + k) (drop (k - 1) rest)") simp_all
  next
    case (ErrorLen k)
    with 2 utf8_step_append(2) [OF ErrorLen, of ys] show ?thesis by simp
  next
    case Unexpected_end
    with 2 show ?thesis by auto
  qed
qed simp

lemma from_utf8_at_incomplete:
  "from_utf8_at i xs = Inl e \<Longrightarrow> error_len e = None \<Longrightarrow>
     \<exists>good bad s. xs = good @ bad \<and> bad \<noteq> [] \<and> valid_up_to e = i + length good
       \<and> from_utf8_at i good = Inr s \<and> utf8_step (hd bad) (tl bad) = Unexpected_end"
proof (induction i xs rule: from_utf8_at.induct)
  case (2 i b rest)
  show ?case
  proof (cases "utf8_step b rest")
    case (ValidChar c k)
    with 2 obtain good bad s where r: "drop (k - 1) rest = good @ bad" "bad \<noteq> []"
      "valid_up_to e = i + k + length good" "from_utf8_at (i + k) good = Inr s"
      "utf8_step (hd bad) (tl bad) = Unexpected_end"
      by (cases "from_utf8_at (i + k) (drop (k - 1) rest)") fastforce+
    let ?pre = "take (k - 1) rest"
    have k: "0 < k" "k \<le> Suc (length rest)"
      using utf8_step_append(1) [OF ValidChar, of "[]"] by auto
    have "rest = ?pre @ good @ bad" using r(1) by (metis append_take_drop_id)
    moreover have "utf8_step b (?pre @ good) = ValidChar c k"
    proof -
      have "utf8_step b ?pre = ValidChar c k"
        using ValidChar k by (auto simp: utf8_step_def Let_def split: if_splits list.splits)
      then show ?thesis by (rule utf8_step_append(1) [THEN conjunct1])
    qed
    ultimately show ?thesis
      using r k by (intro exI [of _ "b # ?pre @ good"] exI [of _ bad] exI [of _ "c # s"]) auto
  next
    case Unexpected_end
    with 2 show ?thesis by (intro exI [of _ "[]"] exI [of _ "b # rest"]) auto
  qed (use 2 in auto)
qed simp

text \<open>Text, the start of a text, or neither.\<close>

definition is_text :: "nat list \<Rightarrow> bool" where
  "is_text bs \<longleftrightarrow> \<not> isl (from_utf8 bs)"

definition is_broken :: "nat list \<Rightarrow> bool" where
  "is_broken bs \<longleftrightarrow> (case from_utf8 bs of Inl e \<Rightarrow> error_len e \<noteq> None | Inr _ \<Rightarrow> False)"

lemma is_text_iff: "is_text bs \<longleftrightarrow> (\<exists>s. from_utf8 bs = Inr s)"
  by (cases "from_utf8 bs") (auto simp: is_text_def)

lemma is_broken_append: "is_broken xs \<Longrightarrow> is_broken (xs @ ys)"
  by (auto simp: is_broken_def from_utf8_def from_utf8_at_invalid split: sum.splits)

lemma text_not_broken: "is_text xs \<Longrightarrow> \<not> is_broken xs"
  by (auto simp: is_text_iff is_broken_def)

lemma text_append:
  assumes "is_text xs"
  shows "is_text (xs @ ys) \<longleftrightarrow> is_text ys" "is_broken (xs @ ys) \<longleftrightarrow> is_broken ys"
proof -
  obtain s where "from_utf8_at 0 xs = Inr s" using assms by (auto simp: is_text_iff from_utf8_def)
  from from_utf8_at_append [OF this, of ys] from_utf8_at_shift [of "length xs" ys]
  show "is_text (xs @ ys) \<longleftrightarrow> is_text ys" "is_broken (xs @ ys) \<longleftrightarrow> is_broken ys"
    by (cases "from_utf8_at 0 ys"; simp add: is_text_def is_broken_def from_utf8_def)+
qed

lemma text_Nil [simp]: "is_text []" "\<not> is_broken []"
  by (simp_all add: is_text_def is_broken_def from_utf8_def)

lemma incomplete_split:
  assumes "from_utf8 xs = Inl e" "error_len e = None"
  shows "is_text (take (valid_up_to e) xs)" "drop (valid_up_to e) xs \<noteq> []"
    "\<not> is_text (drop (valid_up_to e) xs)" "\<not> is_broken (drop (valid_up_to e) xs)"
proof -
  from from_utf8_at_incomplete [OF assms [unfolded from_utf8_def]] obtain good bad s where
    split: "xs = good @ bad" "bad \<noteq> []" "valid_up_to e = length good"
    "from_utf8_at 0 good = Inr s" "utf8_step (hd bad) (tl bad) = Unexpected_end"
    by auto
  then have "from_utf8 bad = Inl \<lparr>valid_up_to = 0, error_len = None\<rparr>"
    by (cases bad) (simp_all add: from_utf8_def)
  with split show "is_text (take (valid_up_to e) xs)" "drop (valid_up_to e) xs \<noteq> []"
    "\<not> is_text (drop (valid_up_to e) xs)" "\<not> is_broken (drop (valid_up_to e) xs)"
    by (auto simp: is_text_def is_broken_def from_utf8_def)
qed

text \<open>A newline byte is a character of its own: what is in front of it is text if it is not broken.\<close>

lemma newline_step:
  assumes "10 \<in> set (take (k - 1) rest)"
  shows "utf8_step b rest \<noteq> ValidChar c k"
  using assms
  by (auto simp: utf8_step_def Let_def second_byte_ok_def continuation_def char_width_def
      split: if_splits list.splits)

lemma text_before_newline: "\<not> is_broken (xs @ 10 # ys) \<Longrightarrow> is_text xs"
proof (induction "length xs" arbitrary: xs rule: less_induct)
  case less
  show ?case
  proof (cases "from_utf8 xs")
    case (Inl e)
    show ?thesis
    proof (cases "error_len e")
      case None
      from from_utf8_at_incomplete [OF Inl [unfolded from_utf8_def] None] obtain good bad s where
        split: "xs = good @ bad" "bad \<noteq> []" "from_utf8_at 0 good = Inr s"
        "utf8_step (hd bad) (tl bad) = Unexpected_end" by auto
      then obtain b rest where bad: "bad = b # rest" by (cases bad) auto
      have "is_text good" using split(3) by (auto simp: is_text_iff from_utf8_def)
      with less(2) split(1) have "\<not> is_broken (b # rest @ 10 # ys)"
        by (simp add: text_append(2) bad)
      moreover have "\<exists>k. utf8_step b (rest @ 10 # ys) = ErrorLen k"
        using split(4) bad
        by (auto simp: utf8_step_def Let_def second_byte_ok_def continuation_def
            split: if_splits list.splits)
      ultimately show ?thesis by (auto simp: is_broken_def from_utf8_def)
    next
      case (Some k)
      with Inl have "is_broken xs" by (simp add: is_broken_def)
      with is_broken_append less(2) show ?thesis by blast
    qed
  qed (simp add: is_text_def)
qed

section \<open>Decoded text\<close>

text \<open>Encoding what was decoded.\<close>

lemma digit_64:
  fixes n z :: nat
  assumes "z < 64"
  shows "(64 * n + z) div 64 = n" "(64 * n + z) mod 64 = z"
    "(64 * n + z) div 4096 = n div 64" "(64 * n + z) div 262144 = n div 4096"
proof -
  show n: "(64 * n + z) div 64 = n" and "(64 * n + z) mod 64 = z" using assms by simp_all
  have "(64 * n + z) div 4096 = (64 * n + z) div 64 div 64" "(64 * n + z) div 262144 = (64 * n + z) div 64 div 4096"
    by (simp_all add: div_mult2_eq [symmetric])
  with n show "(64 * n + z) div 4096 = n div 64" "(64 * n + z) div 262144 = n div 4096" by simp_all
qed

lemma encode_two: "2 \<le> x \<Longrightarrow> x < 32 \<Longrightarrow> y < 64 \<Longrightarrow> utf8_char (64 * x + y) = [192 + x, 128 + y]"
  by (simp add: utf8_char_def digit_64 del: distrib_left_numeral)

lemma encode_three:
  "x < 16 \<Longrightarrow> y < 64 \<Longrightarrow> z < 64 \<Longrightarrow> 32 \<le> 64 * x + y
     \<Longrightarrow> utf8_char (64 * (64 * x + y) + z) = [224 + x, 128 + y, 128 + z]"
  by (simp add: utf8_char_def digit_64 del: distrib_left_numeral) auto

lemma encode_four:
  "x < 8 \<Longrightarrow> y < 64 \<Longrightarrow> z < 64 \<Longrightarrow> v < 64 \<Longrightarrow> 16 \<le> 64 * x + y
     \<Longrightarrow> utf8_char (64 * (64 * (64 * x + y) + z) + v) = [240 + x, 128 + y, 128 + z, 128 + v]"
  by (simp add: utf8_char_def digit_64 del: distrib_left_numeral) auto

lemma utf8_step_two:
  assumes "char_width b = 2" and "second_byte_ok b b1"
  shows "utf8_char ((b - 192) * 64 + (b1 - 128)) = [b, b1]"
proof -
  have "194 \<le> b" "b \<le> 223" using assms(1) by (auto simp: char_width_def split: if_splits)
  moreover have "128 \<le> b1" "b1 \<le> 191"
    using assms(2) by (auto simp: second_byte_ok_def continuation_def split: if_splits)
  ultimately show ?thesis using encode_two [of "b - 192" "b1 - 128"] by (simp add: mult.commute)
qed

lemma utf8_step_three:
  assumes "char_width b = 3" and "second_byte_ok b b1" and "continuation b2"
  shows "utf8_char ((b - 224) * 4096 + (b1 - 128) * 64 + (b2 - 128)) = [b, b1, b2]"
proof -
  have b: "224 \<le> b" "b \<le> 239" using assms(1) by (auto simp: char_width_def split: if_splits)
  have b1: "128 \<le> b1" "b1 \<le> 191" "b = 224 \<longrightarrow> 160 \<le> b1"
    using assms(2) by (auto simp: second_byte_ok_def continuation_def split: if_splits)
  have b2: "128 \<le> b2" "b2 \<le> 191" using assms(3) by (auto simp: continuation_def)
  have "(b - 224) * 4096 + (b1 - 128) * 64 + (b2 - 128)
      = 64 * (64 * (b - 224) + (b1 - 128)) + (b2 - 128)" by simp
  moreover have "32 \<le> 64 * (b - 224) + (b1 - 128)" using b b1 by (cases "b = 224") auto
  ultimately show ?thesis
    using encode_three [of "b - 224" "b1 - 128" "b2 - 128"] b b1 b2 by simp
qed

lemma utf8_step_four:
  assumes "char_width b = 4" and "second_byte_ok b b1" and "continuation b2" and "continuation b3"
  shows "utf8_char ((b - 240) * 262144 + (b1 - 128) * 4096 + (b2 - 128) * 64 + (b3 - 128)) = [b, b1, b2, b3]"
proof -
  have b: "240 \<le> b" "b \<le> 244" using assms(1) by (auto simp: char_width_def split: if_splits)
  have b1: "128 \<le> b1" "b1 \<le> 191" "b = 240 \<longrightarrow> 144 \<le> b1"
    using assms(2) by (auto simp: second_byte_ok_def continuation_def split: if_splits)
  have b2: "128 \<le> b2" "b2 \<le> 191" "128 \<le> b3" "b3 \<le> 191"
    using assms(3,4) by (auto simp: continuation_def)
  have "(b - 240) * 262144 + (b1 - 128) * 4096 + (b2 - 128) * 64 + (b3 - 128)
      = 64 * (64 * (64 * (b - 240) + (b1 - 128)) + (b2 - 128)) + (b3 - 128)" by simp
  moreover have "16 \<le> 64 * (b - 240) + (b1 - 128)" using b b1 by (cases "b = 240") auto
  moreover have "b - 240 < 8" "b1 - 128 < 64" "b2 - 128 < 64" "b3 - 128 < 64" using b b1 b2 by auto
  moreover have "240 + (b - 240) = b" "128 + (b1 - 128) = b1" "128 + (b2 - 128) = b2" "128 + (b3 - 128) = b3"
    using b b1 b2 by auto
  ultimately show ?thesis
    using encode_four [of "b - 240" "b1 - 128" "b2 - 128" "b3 - 128"] by (simp only:)
qed

lemma utf8_step_encodes:
  assumes "utf8_step b rest = ValidChar c k"
  shows "utf8_char c @ drop (k - 1) rest = b # rest"
proof -
  have "char_width b \<in> {1, 2, 3, 4}"
    using assms by (auto simp: utf8_step_def char_width_def Let_def split: if_splits)
  then consider "char_width b = 1" | "char_width b = 2" | "char_width b = 3" | "char_width b = 4"
    by blast
  then show ?thesis
  proof cases
    case 1
    then have "b < 128" by (auto simp: char_width_def split: if_splits)
    with 1 assms show ?thesis by (auto simp: utf8_step_def utf8_char_def)
  next
    case 2
    with assms utf8_step_two [OF 2] show ?thesis
      by (auto simp: utf8_step_def Let_def split: list.splits if_splits)
  next
    case 3
    with assms utf8_step_three [OF 3] show ?thesis
      by (auto simp: utf8_step_def Let_def split: list.splits if_splits)
  next
    case 4
    with assms utf8_step_four [OF 4] show ?thesis
      by (auto simp: utf8_step_def Let_def split: list.splits if_splits)
  qed
qed

lemma from_utf8_at_encodes: "from_utf8_at i bs = Inr s \<Longrightarrow> as_bytes s = bs"
proof (induction i bs arbitrary: s rule: from_utf8_at.induct)
  case (2 i b rest)
  then obtain c k t where step: "utf8_step b rest = ValidChar c k"
    and rest: "from_utf8_at (i + k) (drop (k - 1) rest) = Inr t" and s: "s = c # t"
    by (auto simp: try_res_Inr split: utf8_step.splits)
  from "2.IH" [OF step rest] utf8_step_encodes [OF step] show ?case by (simp add: s as_bytes_def)
qed (simp add: as_bytes_def)

lemma from_utf8_encodes: "from_utf8 bs = Inr s \<Longrightarrow> as_bytes s = bs"
  by (simp add: from_utf8_def from_utf8_at_encodes)

lemma as_bytes_append: "as_bytes (s @ t) = as_bytes s @ as_bytes t"
  by (simp add: as_bytes_def)

lemma as_bytes_Nil: "as_bytes s = [] \<longleftrightarrow> s = []"
  by (cases s) (auto simp: as_bytes_def utf8_char_def split: if_splits)

lemma as_bytes_prefix: "prefix s t \<Longrightarrow> prefix (as_bytes s) (as_bytes t) \<and> (as_bytes s = as_bytes t \<longleftrightarrow> s = t)"
  by (auto simp: prefix_def as_bytes_append as_bytes_Nil)

end
