(* ===== verification/Patch_Tool.thy ===== *)
theory Patch_Tool
  imports Patch_Apply Publish Utf8
begin

text \<open>
  The apply-patch tool as a whole (crates/capability-coding/src/patch.rs): the patch is parsed, its
  target resolved inside the workspace and read with a snapshot of the file, the hunks are applied,
  and the result is published. The cancellation flag is read by the schedule \<open>flag\<close>, whose next
  entry is the \<open>loads\<close> of the world.
\<close>

type_synonym 'a patch_op = "(diff_failure, world, 'a) op"

text \<open>The steps of the parser and of the application, which only load the flag.\<close>

definition with_flag :: "(nat \<Rightarrow> 'a diff_result) \<Rightarrow> 'a patch_op" where
  "with_flag m w = (case m (loads w) of (r, n) \<Rightarrow> (r, w\<lparr>loads := n\<rparr>))"

definition check_cancelled :: "(nat \<Rightarrow> bool) \<Rightarrow> unit patch_op" where
  "check_cancelled flag w =
     (if flag (loads w) then (Inl (DiffError Cancelled), w\<lparr>loads := loads w + 1\<rparr>)
      else (Inr (), w\<lparr>loads := loads w + 1\<rparr>))"

definition patch_io :: "path \<Rightarrow> 'a io_op \<Rightarrow> 'a patch_op" where
  "patch_io p m = op_map_err (\<lambda>source. DiffError (PatchIo p source)) m"

section \<open>Reading the target\<close>

definition newlines :: "nat list \<Rightarrow> nat" where
  "newlines bs = length (filter (\<lambda>b. b = 10) bs)"

function read_target_loop ::
    "'h system \<Rightarrow> (nat \<Rightarrow> bool) \<Rightarrow> node_id \<Rightarrow> path \<Rightarrow> nat list \<Rightarrow> nat \<Rightarrow> (nat list \<times> nat) patch_op" where
  "read_target_loop S flag f p bytes newline_count w =
     (case check_cancelled flag w of
        (Inl e, w1) \<Rightarrow> (Inl e, w1)
      | (Inr _, w1) \<Rightarrow>
          (case patch_io p (fs_read_at S f (8 * 1024) (length bytes)) w1 of
             (Inl e, w2) \<Rightarrow> (Inl e, w2)
           | (Inr bs, w2) \<Rightarrow>
               if bs = [] then (Inr (bytes, newline_count), w2)
               else if MAX_PATCH_FILE_BYTES < length bytes + length bs then
                 (Inl (DiffError (Limit (TargetBytes p))), w2)
               else if MAX_PATCH_FILE_LINES < newline_count + newlines bs then
                 (Inl (DiffError (Limit (TargetLines p))), w2)
               else read_target_loop S flag f p (bytes @ bs) (newline_count + newlines bs) w2))"
  by pat_completeness auto
termination
  by (relation "measure (\<lambda>(S, flag, f, p, bytes, k, w). MAX_PATCH_FILE_BYTES + 1 - length bytes)")
    (auto intro!: diff_less_mono2)

declare read_target_loop.simps [simp del]

lemma read_target_loop_unfold:
  "read_target_loop S flag f p bytes k w =
     op_bind (check_cancelled flag) (\<lambda>_.
     op_bind (patch_io p (fs_read_at S f (8 * 1024) (length bytes))) (\<lambda>bs.
       if bs = [] then op_return (bytes, k)
       else if MAX_PATCH_FILE_BYTES < length bytes + length bs then
         op_fail (DiffError (Limit (TargetBytes p)))
       else if MAX_PATCH_FILE_LINES < k + newlines bs then
         op_fail (DiffError (Limit (TargetLines p)))
       else (\<lambda>w2. read_target_loop S flag f p (bytes @ bs) (k + newlines bs) w2))) w"
  by (subst read_target_loop.simps)
    (auto simp: op_bind_def op_return_def op_fail_def split: prod.split sum.split)

definition read_patch_target ::
    "'h system \<Rightarrow> (nat \<Rightarrow> bool) \<Rightarrow> node_id \<Rightarrow> path \<Rightarrow> (ustring \<times> 'h file_snapshot_rec) patch_op" where
  "read_patch_target S flag f p =
     op_bind (patch_io p (begin_file_snapshot S f)) (\<lambda>captured.
     op_bind (read_target_loop S flag f p [] 0) (\<lambda>(bytes, newline_count).
     if MAX_PATCH_FILE_LINES < newline_count + (if bytes \<noteq> [] \<and> last bytes \<noteq> 10 then 1 else 0) then
       op_fail (DiffError (Limit (TargetLines p)))
     else op_bind (patch_io p (finish_file_snapshot_from_content S f captured bytes)) (\<lambda>snapshot.
       case from_utf8 bytes of
         Inl e \<Rightarrow> op_fail (DiffError (PatchIo p (io_error_new IoInvalidData (utf8_error_text e))))
       | Inr content \<Rightarrow> op_return (content, snapshot))))"

definition read_original ::
    "'h system \<Rightarrow> (nat \<Rightarrow> bool) \<Rightarrow> path \<Rightarrow> (ustring \<times> 'h file_snapshot_rec) patch_op" where
  "read_original S flag p =
     op_bind (patch_io p (open_regular_file S p)) (\<lambda>(f, m).
     if MAX_PATCH_FILE_BYTES < md_size m then op_fail (DiffError (Limit (TargetBytes p)))
     else read_patch_target S flag f p)"

section \<open>Publishing the result\<close>

fun replace_failure_of :: "path \<Rightarrow> atomic_replace_error \<Rightarrow> diff_failure" where
  "replace_failure_of p (ReplaceBefore source (Some recovery)) = DiffError (Preserved p recovery source)"
| "replace_failure_of p (ReplaceBefore source None) = DiffError (PatchIo p source)"
| "replace_failure_of p (ReplacePublished source target recovery) =
     DiffError (Published target recovery source)"

fun create_failure_of :: "path \<Rightarrow> atomic_create_error \<Rightarrow> diff_failure" where
  "create_failure_of p (CreateBefore source (Some recovery)) = DiffError (Preserved p recovery source)"
| "create_failure_of p (CreateBefore source None) = DiffError (PatchIo p source)"
| "create_failure_of p (CreatePublished source target) =
     DiffError (Published target NotApplicableNewFile source)"

record patch_result =
  changed_files :: "ustring list"
  recovery_files :: "ustring list"

definition publish_change ::
    "'h system \<Rightarrow> path \<Rightarrow> 'h file_snapshot_rec option \<Rightarrow> nat list \<Rightarrow> ustring list patch_op" where
  "publish_change S p snapshot content =
     (case snapshot of
        Some expected \<Rightarrow>
          op_bind (op_map_err (replace_failure_of p) (replace_existing_atomically S p content expected))
            (\<lambda>recovery. op_return (case recovery of None \<Rightarrow> [] | Some r \<Rightarrow> [display_relative_path r]))
      | None \<Rightarrow>
          op_bind (op_map_err (create_failure_of p) (create_new S p content)) (\<lambda>_. op_return []))"

definition apply_file_patch ::
    "'h system \<Rightarrow> (nat \<Rightarrow> bool) \<Rightarrow> workspace_context \<Rightarrow> file_patch \<Rightarrow> patch_result patch_op" where
  "apply_file_patch S flag c fp =
     op_bind (op_result (target_path fp)) (\<lambda>requested.
     op_bind (op_map_err (DiffError \<circ> PatchWorkspace) (resolve_for_write S c requested)) (\<lambda>resolved.
     op_bind (if rp_existed resolved
              then op_bind (read_original S flag (rp_relative resolved)) (\<lambda>r. op_return (Some r))
              else op_return None) (\<lambda>original.
     op_bind (with_flag (prepare_change flag fp (map_option fst original))) (\<lambda>change.
     op_bind (check_cancelled flag) (\<lambda>_.
     case change of Write updated \<Rightarrow>
       if MAX_PATCH_FILE_BYTES < length (as_bytes updated) then
         op_fail (DiffError (Limit (ResultBytes (rp_relative resolved))))
       else op_bind (publish_change S (rp_relative resolved) (map_option snd original)
              (as_bytes updated)) (\<lambda>recovery.
         op_return \<lparr>changed_files = [display_relative_path (rp_relative resolved)],
                    recovery_files = recovery\<rparr>))))))"

definition apply_unified_patch ::
    "'h system \<Rightarrow> (nat \<Rightarrow> bool) \<Rightarrow> workspace_context \<Rightarrow> ustring \<Rightarrow> patch_result patch_op" where
  "apply_unified_patch S flag c patch =
     op_bind (with_flag (parse_patch flag patch)) (\<lambda>file_patches.
     case file_patches of
       [fp] \<Rightarrow> op_bind (check_cancelled flag) (\<lambda>_. apply_file_patch S flag c fp)
     | _ \<Rightarrow> op_fail (DiffError (InvalidPatch NotOneFile)))"

section \<open>The tool\<close>

text \<open>\<open>None\<close> is the panic of the parser.\<close>

definition patch_success ::
    "'v json_build \<Rightarrow> workspace_context \<Rightarrow> patch_result \<Rightarrow> 'v tool_output" where
  "patch_success J c result =
     Success
       [ToolJson (js_object J (btree_from
          [(lit ''changed_files'', js_array J (map (js_string J) (changed_files result))),
           (lit ''recovery_files'', js_array J (map (js_string J) (recovery_files result)))]))]
       (btree_from
          [(lit ''files_changed'', js_number J (length (changed_files result))),
           (lit ''recovery_files'', js_number J (length (recovery_files result))),
           (lit ''recovery_policy'', js_string J (lit ''ignored_by_search_and_git_until_caller_removes'')),
           (lit ''workspace'', context_metadata J c)])
       []"

definition patch_execute ::
    "'h system \<Rightarrow> 'v json_read \<Rightarrow> 'v json_build \<Rightarrow> (ustring \<Rightarrow> ustring) \<Rightarrow> workspace_context
       \<Rightarrow> (nat \<Rightarrow> bool) \<Rightarrow> 'v tool_call \<Rightarrow> world \<Rightarrow> 'v tool_output option \<times> world" where
  "patch_execute S R J debug c flag call w =
     (case try_res (parse_arguments (as_object R) (tc_arguments call) [lit ''patch''])
             (\<lambda>arguments. required_string (as_str R) arguments (lit ''patch'')) of
        Inl output \<Rightarrow> (Some output, w)
      | Inr patch \<Rightarrow>
          if MAX_PATCH_BYTES < byte_len patch then
            (Some (failure ''patch_too_large''
               (lit ''patch exceeds '' @ dec_string MAX_PATCH_BYTES @ lit '' bytes'') False), w)
          else case apply_unified_patch S flag c patch w of
                 (Inr result, w1) \<Rightarrow> (Some (finalize_output (encoded_len R) (patch_success J c result)), w1)
               | (Inl (DiffError e), w1) \<Rightarrow> (Some (into_output debug J e), w1)
               | (Inl DiffPanicked, w1) \<Rightarrow> (None, w1))"

end
