(* ===== verification/Patch_Properties.thy ===== *)
theory Patch_Properties
  imports Patch_Apply
begin

text \<open>
  What follows for the patch tool: cancellation changes nothing but whether there is a result, a patch
  that joins no lines can be undone, and where insertions land.
\<close>

section \<open>Cancellation\<close>

text \<open>The first outcome is cancellation, or both are the same and neither was cancelled.\<close>

definition unless_cancelled :: "'a diff_result \<Rightarrow> 'a diff_result \<Rightarrow> bool" where
  "unless_cancelled r r' \<longleftrightarrow>
     (fst r = Inl (DiffError Cancelled) \<or> r = r') \<and> fst r' \<noteq> Inl (DiffError Cancelled)"

lemma unless_cancelled_same: "fst r \<noteq> Inl (DiffError Cancelled) \<Longrightarrow> unless_cancelled r r"
  by (simp add: unless_cancelled_def)

lemma unless_cancelled_Cancelled:
  "fst r' \<noteq> Inl (DiffError Cancelled) \<Longrightarrow> unless_cancelled (Inl (DiffError Cancelled), m) r'"
  by (simp add: unless_cancelled_def)

text \<open>The shape of every composition: an error is passed on, a value is used.\<close>

lemma unless_cancelled_case:
  assumes "unless_cancelled r r'" and "\<And>a n. r' = (Inr a, n) \<Longrightarrow> unless_cancelled (f a n) (f' a n)"
  shows "unless_cancelled (case r of (Inl e, n) \<Rightarrow> (Inl e, n) | (Inr a, n) \<Rightarrow> f a n)
    (case r' of (Inl e, n) \<Rightarrow> (Inl e, n) | (Inr a, n) \<Rightarrow> f' a n)"
proof (cases "r = r'")
  case True
  with assms show ?thesis
    by (cases r') (auto simp: unless_cancelled_def split: sum.split)
next
  case False
  with assms(1) obtain n where "r = (Inl (DiffError Cancelled), n)"
    by (cases r) (auto simp: unless_cancelled_def)
  moreover have "fst (case r' of (Inl e, n) \<Rightarrow> (Inl e, n) | (Inr a, n) \<Rightarrow> f' a n)
      \<noteq> Inl (DiffError Cancelled)"
    using assms by (cases r') (auto simp: unless_cancelled_def split: sum.split)
  ultimately show ?thesis by (simp add: unless_cancelled_def)
qed

lemma not_cancelled_header: "parse_hunk_header s \<noteq> Inl (DiffError Cancelled)"
  by (auto simp: parse_hunk_header_def parse_range_def try_res_Inl Let_def
      split: option.splits list.splits prod.splits if_splits)

lemma not_cancelled_path: "parse_header_path s p \<noteq> Inl (DiffError Cancelled)"
  by (auto simp: parse_header_path_def Let_def split: option.splits)

lemma not_cancelled_line:
  "read_hunk_line s \<noteq> Inl (DiffError Cancelled)"
  "strip_last_line_ending ls \<noteq> Inl (DiffError Cancelled)"
  "trailing_marker ls lines \<noteq> Inl (DiffError Cancelled)"
  "apply_line original l st \<noteq> Inl (DiffError Cancelled)"
  by (auto simp: read_hunk_line_def strip_last_line_ending_def trailing_marker_def try_res_Inl
      split: list.splits)
    (cases l; auto simp: try_res_Inl require_original_line_def split: if_splits)

lemma read_hunk_lines_cancel:
  "unless_cancelled (read_hunk_lines flag oc nc lines os ns acc n)
     (read_hunk_lines never oc nc lines os ns acc n)"
proof (induction lines arbitrary: os ns acc n)
  case Nil
  show ?case by (auto simp: unless_cancelled_def read_hunk_lines_unfold)
next
  case (Cons line lines)
  have never: "fst (read_hunk_lines never oc nc lines a b c d) \<noteq> Inl (DiffError Cancelled)" for a b c d
    using Cons.IH [of a b c d] by (simp add: unless_cancelled_def)
  show ?case
    using Cons.IH never not_cancelled_line(1) [of line] not_cancelled_line(2) [of acc]
    by (auto simp: unless_cancelled_def read_hunk_lines_unfold split: sum.split)
qed

lemma read_hunk_cancel:
  "unless_cancelled (read_hunk flag header lines n) (read_hunk never header lines n)"
proof (cases "parse_hunk_header header")
  case (Inl e)
  with not_cancelled_header [of header] show ?thesis
    by (simp add: read_hunk_def unless_cancelled_def)
next
  case (Inr x)
  obtain os oc nc where x: "x = (os, oc, nc)" by (cases x)
  note inner = read_hunk_lines_cancel [of flag oc nc lines 0 0 "[]" n]
  show ?thesis
    unfolding read_hunk_def Inr x sum.case prod.case
    by (rule unless_cancelled_case [OF inner])
      (auto simp: unless_cancelled_def try_res_Inl not_cancelled_line)
qed

lemma read_hunks_cancel:
  "unless_cancelled (read_hunks flag hs lines n) (read_hunks never hs lines n)"
proof (induction "length lines" arbitrary: lines hs n rule: less_induct)
  case less
  show ?case
  proof (cases lines)
    case (Cons line rest)
    have "unless_cancelled (read_hunks flag hs' rest' n') (read_hunks never hs' rest' n')"
      if "read_hunk never line rest n = (Inr (h, rest'), n')" for h hs' rest' n'
      using less [of rest'] read_hunk_shorter [OF that] Cons by simp
    then have "unless_cancelled
        (case read_hunk flag line rest n of (Inl e, n1) \<Rightarrow> (Inl e, n1)
         | (Inr (h, rest1), n1) \<Rightarrow> read_hunks flag (hs @ [h]) rest1 n1)
        (case read_hunk never line rest n of (Inl e, n1) \<Rightarrow> (Inl e, n1)
         | (Inr (h, rest1), n1) \<Rightarrow> read_hunks never (hs @ [h]) rest1 n1)"
      by (intro unless_cancelled_case [OF read_hunk_cancel]) auto
    then show ?thesis by (simp add: Cons unless_cancelled_def)
  qed (simp add: unless_cancelled_def)
qed

lemma read_file_cancel:
  "unless_cancelled (read_file flag header lines n) (read_file never header lines n)"
proof -
  let ?hd = "try_res (parse_header_path header old_header) (\<lambda>old.
     case lines of
       [] \<Rightarrow> invalid MissingNewHeader
     | line # rest \<Rightarrow>
         try_res (parse_header_path line new_header) (\<lambda>new. Inr (old, new, rest)))"
  have not_cancelled: "?hd \<noteq> Inl (DiffError Cancelled)"
    by (auto simp: try_res_Inl not_cancelled_path split: list.splits)
  show ?thesis
  proof (cases ?hd)
    case (Inl e)
    with not_cancelled show ?thesis by (simp add: read_file_def unless_cancelled_def)
  next
    case (Inr x)
    obtain old new rest where x: "x = (old, new, rest)" by (cases x)
    show ?thesis
      unfolding read_file_def Inr x sum.case prod.case
      by (rule unless_cancelled_case [OF read_hunks_cancel])
        (auto simp: unless_cancelled_def split: if_splits)
  qed
qed

lemma read_files_cancel:
  "unless_cancelled (read_files flag fs lines n) (read_files never fs lines n)"
proof (induction "length lines" arbitrary: lines fs n rule: less_induct)
  case less
  show ?case
  proof (cases "dropWhile (\<lambda>l. \<not> starts_with l old_header) lines")
    case Nil
    show ?thesis
      by (simp add: read_files.simps [of _ fs lines n] Nil unless_cancelled_def del: dropWhile_eq_Nil_conv)
  next
    case (Cons header rest)
    have "unless_cancelled (read_files flag fs' rest' n') (read_files never fs' rest' n')"
      if "read_file never header rest (n + 1) = (Inr (fp, rest'), n')" for fp fs' rest' n'
      using less [of rest'] read_file_shorter [OF that] dropWhile_shorter [OF Cons] by simp
    then have "unless_cancelled
        (case read_file flag header rest (n + 1) of (Inl e, n1) \<Rightarrow> (Inl e, n1)
         | (Inr (fp, rest1), n1) \<Rightarrow> read_files flag (fs @ [fp]) rest1 n1)
        (case read_file never header rest (n + 1) of (Inl e, n1) \<Rightarrow> (Inl e, n1)
         | (Inr (fp, rest1), n1) \<Rightarrow> read_files never (fs @ [fp]) rest1 n1)"
      by (intro unless_cancelled_case [OF read_file_cancel]) auto
    with Cons show ?thesis
      by (auto simp: read_files.simps [of _ fs lines n] unless_cancelled_def)
  qed
qed

lemma collect_lines_cancel:
  "unless_cancelled (collect_lines flag i lines n) (collect_lines never i lines n)"
proof (induction lines arbitrary: i n)
  case (Cons line lines)
  have "unless_cancelled
      (case collect_lines flag (i + 1) lines m of (Inl e, n2) \<Rightarrow> (Inl e, n2)
       | (Inr ls, n2) \<Rightarrow> (Inr (line # ls), n2))
      (case collect_lines never (i + 1) lines m of (Inl e, n2) \<Rightarrow> (Inl e, n2)
       | (Inr ls, n2) \<Rightarrow> (Inr (line # ls), n2))" for m
    by (rule unless_cancelled_case [OF Cons.IH]) (simp add: unless_cancelled_def)
  then show ?case by (auto simp: unless_cancelled_def Let_def)
qed (simp add: unless_cancelled_def)

lemma parse_patch_cancel: "unless_cancelled (parse_patch flag patch n) (parse_patch never patch n)"
proof (cases "patch = []")
  case False
  then show ?thesis
    unfolding parse_patch_def if_not_P [OF False]
    by (intro unless_cancelled_case [OF collect_lines_cancel] unless_cancelled_case [OF read_files_cancel])
      (simp add: unless_cancelled_def)
qed (simp add: parse_patch_def unless_cancelled_def)

lemma copy_lines_cancel:
  "unless_cancelled (copy_lines flag i ls out n) (copy_lines never i ls out n)"
  by (induction ls arbitrary: i out n) (auto simp: unless_cancelled_def)

lemma apply_lines_cancel:
  "unless_cancelled (apply_lines flag original ls st n) (apply_lines never original ls st n)"
proof (induction ls arbitrary: st n)
  case (Cons l ls)
  with not_cancelled_line(4) [of original l st] show ?case
    by (cases "apply_line original l st") (auto simp: unless_cancelled_def)
qed (simp add: unless_cancelled_def)

lemma apply_hunk_cancel:
  "unless_cancelled (apply_hunk flag original h c out n) (apply_hunk never original h c out n)"
proof -
  let ?rest = "\<lambda>f. case copy_lines f 0 (take (hunk_start h - c) (drop c original)) out (n + 1) of
      (Inl e, n1) \<Rightarrow> (Inl e, n1)
    | (Inr out1, n1) \<Rightarrow>
        (case apply_lines f original (hunk_lines h)
            \<lparr>cursor = hunk_start h, old_seen = 0, new_seen = 0, written = out1\<rparr> n1 of
           (Inl e, n2) \<Rightarrow> (Inl e, n2)
         | (Inr s, n2) \<Rightarrow>
             (if old_seen s \<noteq> old_count h \<or> new_seen s \<noteq> new_count h then invalid CountsMismatch
              else Inr (cursor s, written s), n2))"
  have "unless_cancelled (?rest flag) (?rest never)"
    by (intro unless_cancelled_case [OF copy_lines_cancel] unless_cancelled_case [OF apply_lines_cancel])
      (simp add: unless_cancelled_def)
  then show ?thesis by (auto simp: apply_hunk_def Let_def unless_cancelled_def)
qed

lemma apply_from_cancel:
  "unless_cancelled (apply_from flag original hs c out n) (apply_from never original hs c out n)"
proof (induction hs arbitrary: c out n)
  case (Cons h hs)
  show ?case
    unfolding apply_from.simps
    by (intro unless_cancelled_case [OF apply_hunk_cancel]) (auto intro: Cons.IH)
qed (simp add: copy_lines_cancel)

text \<open>
  Cancellation has no other effect than to end the work: whatever another thread does to the flag,
  parsing a patch and applying its hunks either report the cancellation or return exactly what they
  return when nobody cancels, after the same number of looks at the flag; and when nobody cancels,
  they never report it.
\<close>
lemma cancellation_only_ends_work:
  "unless_cancelled (parse_patch flag patch n) (parse_patch never patch n)
   \<and> unless_cancelled (apply_hunks flag original hs n) (apply_hunks never original hs n)"
  by (simp add: parse_patch_cancel apply_hunks_def apply_from_cancel)

section \<open>Undoing a patch\<close>

fun flip_line :: "patch_line \<Rightarrow> patch_line" where
  "flip_line (Context s) = Context s"
| "flip_line (Remove s) = Add s"
| "flip_line (Add s) = Remove s"

text \<open>The reversed hunks, from line \<open>c\<close> of the old file and line \<open>d\<close> of the new file on.\<close>

fun reverse_hunks :: "nat \<Rightarrow> nat \<Rightarrow> hunk list \<Rightarrow> hunk list" where
  "reverse_hunks c d [] = []"
| "reverse_hunks c d (h # hs) =
     (let s = d + (hunk_start h - c)
      in \<lparr>old_start = s + 1, old_count = new_count h, new_count = old_count h,
          hunk_lines = map flip_line (hunk_lines h)\<rparr>
         # reverse_hunks (hunk_start h + old_count h) (s + new_count h) hs)"

lemma flip_parts [simp]:
  "old_part (map flip_line ls) = new_part ls" "new_part (map flip_line ls) = old_part ls"
proof (induction ls)
  case (Cons l ls)
  { case 1 with Cons show ?case by (cases l) simp_all }
  { case 2 with Cons show ?case by (cases l) simp_all }
qed simp_all

lemma reverse_patches: "patches c hs xs ys \<Longrightarrow> patches d (reverse_hunks c d hs) ys xs"
proof (induction arbitrary: d rule: patches.induct)
  case (patches_Cons h c gap hs xs ys)
  let ?h = "\<lparr>old_start = d + length gap + 1, old_count = new_count h, new_count = old_count h,
    hunk_lines = map flip_line (hunk_lines h)\<rparr>"
  have "hunk_start ?h = d + length gap" by (simp add: hunk_start_def)
  moreover have "counted ?h" using patches_Cons.hyps(2) by (simp add: counted_def)
  ultimately have "patches d (?h # reverse_hunks (hunk_start h + old_count h) (d + length gap + new_count h) hs)
      (gap @ old_part (hunk_lines ?h) @ ys) (gap @ new_part (hunk_lines ?h) @ xs)"
    using patches_Cons.IH [of "d + length gap + new_count h"] patches.patches_Cons [of ?h d gap]
    by simp
  then show ?case using patches_Cons.hyps(1) by (simp add: Let_def)
qed simp

text \<open>A line with its newline, and the texts made of them.\<close>

definition complete_line :: "ustring \<Rightarrow> bool" where
  "complete_line l \<longleftrightarrow> l \<noteq> [] \<and> last l = 10 \<and> 10 \<notin> set (butlast l)"

definition complete_text :: "ustring \<Rightarrow> bool" where
  "complete_text s \<longleftrightarrow> s = [] \<or> last s = 10"

lemma concat_split_inclusive [simp]: "concat (split_inclusive s) = s"
  by (induction s) (auto split: list.splits)

lemma split_inclusive_Nil [simp]: "split_inclusive s = [] \<longleftrightarrow> s = []"
  by (cases s) (auto split: list.splits)

lemma split_inclusive_line: "10 \<notin> set l \<Longrightarrow> split_inclusive (l @ 10 # s) = (l @ [10]) # split_inclusive s"
  by (induction l) auto

lemma split_inclusive_complete:
  "complete_line l \<Longrightarrow> split_inclusive (l @ s) = l # split_inclusive s"
  using split_inclusive_line [of "butlast l" s] append_butlast_last_id [of l]
  by (auto simp: complete_line_def) (metis append.assoc append_Cons append_Nil)

lemma split_inclusive_concat: "list_all complete_line ls \<Longrightarrow> split_inclusive (concat ls) = ls"
  by (induction ls) (simp_all add: split_inclusive_complete)

lemma complete_text_lines: "complete_text s \<Longrightarrow> list_all complete_line (split_inclusive s)"
proof (induction s)
  case (Cons c s)
  show ?case
  proof (cases "split_inclusive s")
    case Nil
    with Cons.prems show ?thesis by (auto simp: complete_text_def complete_line_def)
  next
    case (Cons l ls)
    then have "s \<noteq> []" by auto
    with Cons.prems Cons.IH have "list_all complete_line (split_inclusive s)"
      by (auto simp: complete_text_def)
    with Cons have l: "complete_line l" and ls: "list_all complete_line ls" by simp_all
    have "complete_line [10]" by (simp add: complete_line_def)
    moreover have "complete_line (c # l)" if "c \<noteq> 10"
      using that l by (auto simp: complete_line_def)
    ultimately show ?thesis using Cons l ls by simp
  qed
qed simp

text \<open>
  The lines of a text: each ends at its newline, and only the last may lack it. Splitting a text gives
  such lines, and putting them together and splitting again gives them back.
\<close>

definition text_lines :: "ustring list \<Rightarrow> bool" where
  "text_lines ls \<longleftrightarrow>
     list_all complete_line (butlast ls) \<and> (ls \<noteq> [] \<longrightarrow> last ls \<noteq> [] \<and> 10 \<notin> set (butlast (last ls)))"

lemma split_inclusive_single: "l \<noteq> [] \<Longrightarrow> 10 \<notin> set l \<Longrightarrow> split_inclusive l = [l]"
proof (induction l)
  case (Cons c l)
  then show ?case by (cases "l = []") auto
qed simp

lemma split_inclusive_text: "text_lines ls \<Longrightarrow> split_inclusive (concat ls) = ls"
proof (cases ls rule: rev_cases)
  case (snoc ms l)
  assume lines: "text_lines ls"
  have "split_inclusive (concat ms @ t) = ms @ split_inclusive t" if "list_all complete_line ms" for t
    using that by (induction ms) (simp_all add: split_inclusive_complete)
  moreover have "split_inclusive l = [l]"
  proof (cases "last l = 10")
    case True
    with lines snoc have "complete_line l" by (simp add: text_lines_def complete_line_def)
    from split_inclusive_complete [OF this, of "[]"] show ?thesis by simp
  next
    case False
    with lines snoc have "10 \<notin> set l"
      by (cases l rule: rev_cases) (auto simp: text_lines_def)
    with lines snoc show ?thesis by (simp add: text_lines_def split_inclusive_single)
  qed
  ultimately show ?thesis using lines snoc by (simp add: text_lines_def)
qed simp

text \<open>The lines a list of hunks makes of the lines of a file, from line \<open>c\<close> on.\<close>

fun patched_lines :: "nat \<Rightarrow> hunk list \<Rightarrow> ustring list \<Rightarrow> ustring list" where
  "patched_lines c [] xs = xs"
| "patched_lines c (h # hs) xs =
     take (hunk_start h - c) xs @ new_part (hunk_lines h)
     @ patched_lines (hunk_start h + old_count h) hs (drop (hunk_start h - c + old_count h) xs)"

lemma patches_lines: "patches c hs xs ys \<Longrightarrow> ys = patched_lines c hs xs"
  by (induction rule: patches.induct) (simp_all add: counted_def)

lemma patches_complete:
  "patches c hs xs ys \<Longrightarrow> list_all complete_line xs
     \<Longrightarrow> list_all (\<lambda>h. list_all complete_line (new_part (hunk_lines h))) hs
     \<Longrightarrow> list_all complete_line ys"
  by (induction rule: patches.induct) auto

lemma complete_text_lines_of:
  "list_all complete_line ls \<Longrightarrow> text_lines ls"
  by (cases ls rule: rev_cases) (auto simp: text_lines_def complete_line_def)

text \<open>
  C25. A patch can be undone as long as it joins no lines: when hunks apply to a text, and of the lines
  they make of it only the last may lack its newline, the reversed hunks apply to the result and give
  back exactly the original text. This holds in particular when the text ends in a newline and every
  line a hunk keeps or adds does.
\<close>
theorem reversed_patch_restores:
  assumes "fst (apply_hunks never original hs n) = Inr out"
    and "text_lines (patched_lines 0 hs (split_inclusive original))
      \<or> complete_text original \<and> list_all (\<lambda>h. list_all complete_line (new_part (hunk_lines h))) hs"
  shows "fst (apply_hunks never out (reverse_hunks 0 0 hs) m) = Inr original"
proof -
  from assms(1) obtain ls where ls: "patches 0 hs (split_inclusive original) ls" "out = concat ls"
    using apply_hunks_spec by blast
  have "text_lines ls"
    using assms(2) patches_lines [OF ls(1)] patches_complete [OF ls(1) complete_text_lines]
      complete_text_lines_of by auto
  then have "split_inclusive out = ls" by (simp add: ls(2) split_inclusive_text)
  with reverse_patches [OF ls(1), of 0] show ?thesis
    by (auto simp: apply_hunks_spec intro!: exI [of _ "split_inclusive original"])
qed

text \<open>The last line of the old file has no newline, that of the new file has.\<close>

theorem reversed_patch_restores_witness:
  "fst (apply_hunks never (lit ''a'' @ [10] @ lit ''c'' @ [10])
     (reverse_hunks 0 0 [\<lparr>old_start = 2, old_count = 1, new_count = 1,
        hunk_lines = [Remove (lit ''b''), Add (lit ''c'' @ [10])]\<rparr>]) 0)
   = Inr (lit ''a'' @ [10] @ lit ''b'')"
proof -
  let ?h = "\<lparr>old_start = 2, old_count = 1, new_count = 1,
    hunk_lines = [Remove (lit ''b''), Add (lit ''c'' @ [10])]\<rparr>"
  have "fst (apply_hunks never (lit ''a'' @ [10] @ lit ''b'') [?h] 0) = Inr (lit ''a'' @ [10] @ lit ''c'' @ [10])"
    by code_simp
  from reversed_patch_restores [OF this] show ?thesis
    by (simp add: text_lines_def complete_line_def hunk_start_def lit_def)
qed

text \<open>
  The condition is needed: the code accepts an added line without a newline in the middle of a file,
  which runs into the next line, and such a patch cannot be undone.
\<close>

lemma joined_lines_cannot_be_undone:
  fixes h :: hunk
  defines "h \<equiv> \<lparr>old_start = 1, old_count = 1, new_count = 1,
    hunk_lines = [Remove (lit ''a'' @ [10]), Add (lit ''c'')]\<rparr>"
  shows "fst (apply_hunks never (lit ''a'' @ [10] @ lit ''b'' @ [10]) [h] n) = Inr (lit ''cb'' @ [10])"
    and "\<exists>e. fst (apply_hunks never (lit ''cb'' @ [10]) (reverse_hunks 0 0 [h]) n) = Inl e"
  unfolding h_def
  by (simp_all add: apply_hunks_def apply_hunk_def hunk_start_def require_original_line_def lit_def)

section \<open>Hunks without old lines\<close>

text \<open>
  C40. Where an insertion lands: a hunk with no old lines and start \<open>k\<close> inserts its lines before line
  \<open>k\<close> of the file. In the unified diff format the start of an empty range is the line after which the
  lines go.
\<close>
theorem insertion_lands_before_its_line:
  assumes "0 < k" and "k \<le> length (split_inclusive original)"
  shows "fst (apply_hunks never original
      [\<lparr>old_start = k, old_count = 0, new_count = length added, hunk_lines = map Add added\<rparr>] n)
    = Inr (concat (take (k - 1) (split_inclusive original) @ added
                   @ drop (k - 1) (split_inclusive original)))"
proof -
  let ?xs = "split_inclusive original"
  let ?h = "\<lparr>old_start = k, old_count = 0, new_count = length added, hunk_lines = map Add added\<rparr>"
  have parts: "old_part (map Add added) = []" "new_part (map Add added) = added"
    by (induction added) simp_all
  have "patches 0 [?h] (take (k - 1) ?xs @ old_part (hunk_lines ?h) @ drop (k - 1) ?xs)
      (take (k - 1) ?xs @ new_part (hunk_lines ?h) @ drop (k - 1) ?xs)"
    using assms by (intro patches_Cons) (simp_all add: hunk_start_def counted_def parts)
  then have "patches 0 [?h] ?xs (take (k - 1) ?xs @ added @ drop (k - 1) ?xs)" by (simp add: parts)
  then show ?thesis unfolding apply_hunks_spec by blast
qed

theorem insertion_lands_before_its_line_witness:
  "fst (apply_hunks never (lit ''a'' @ [10] @ lit ''b'' @ [10])
      [\<lparr>old_start = 2, old_count = 0, new_count = 1, hunk_lines = [Add (lit ''c'' @ [10])]\<rparr>] 0)
    = Inr (lit ''a'' @ [10] @ lit ''c'' @ [10] @ lit ''b'' @ [10])"
proof -
  have "split_inclusive (lit ''a'' @ [10] @ lit ''b'' @ [10]) = [lit ''a'' @ [10], lit ''b'' @ [10]]"
    by (simp add: lit_def)
  with insertion_lands_before_its_line [of 2 "lit ''a'' @ [10] @ lit ''b'' @ [10]" "[lit ''c'' @ [10]]" 0]
  show ?thesis by simp
qed

end
