(* ===== verification/Diff_Printing.thy ===== *)
theory Diff_Printing
  imports Patch_Properties
begin

text \<open>
  A printer of file patches in the unified format, and the round trip through the parser.
\<close>

section \<open>The printer\<close>

fun line_sign :: "patch_line \<Rightarrow> uchar" where
  "line_sign (Context _) = 32"
| "line_sign (Remove _) = 45"
| "line_sign (Add _) = 43"

text \<open>A content without its newline is followed by the marker line.\<close>

definition line_texts :: "patch_line \<Rightarrow> ustring list" where
  "line_texts l =
     (if ends_with 10 (line_content l) then [line_sign l # line_content l]
      else [line_sign l # line_content l @ [10], no_newline_marker @ [10]])"

definition range_text :: "nat \<Rightarrow> nat \<Rightarrow> ustring" where
  "range_text s c = dec_string s @ 44 # dec_string c"

text \<open>The header names the start in the new file, which the parser does not keep: \<open>start h\<close>.\<close>

definition hunk_header_text :: "(hunk \<Rightarrow> nat) \<Rightarrow> hunk \<Rightarrow> ustring" where
  "hunk_header_text start h =
     [64, 64, 32, 45] @ range_text (old_start h) (old_count h) @ [32, 43]
       @ range_text (start h) (new_count h) @ [32, 64, 64, 10]"

definition hunk_texts :: "(hunk \<Rightarrow> nat) \<Rightarrow> hunk \<Rightarrow> ustring list" where
  "hunk_texts start h = hunk_header_text start h # concat (map line_texts (hunk_lines h))"

definition path_text :: "string \<Rightarrow> ustring option \<Rightarrow> ustring" where
  "path_text side p = (case p of None \<Rightarrow> lit ''/dev/null'' | Some s \<Rightarrow> lit side @ s)"

definition file_texts :: "(hunk \<Rightarrow> nat) \<Rightarrow> file_patch \<Rightarrow> ustring list" where
  "file_texts start fp =
     (old_header @ path_text ''a/'' (old_path fp) @ [10])
     # (new_header @ path_text ''b/'' (new_path fp) @ [10])
     # concat (map (hunk_texts start) (hunks fp))"

definition patch_texts :: "(hunk \<Rightarrow> nat) \<Rightarrow> file_patch list \<Rightarrow> ustring list" where
  "patch_texts start fps = concat (map (file_texts start) fps)"

definition print_patch :: "(hunk \<Rightarrow> nat) \<Rightarrow> file_patch list \<Rightarrow> ustring" where
  "print_patch start fps = concat (patch_texts start fps)"

definition printable_content :: "ustring \<Rightarrow> bool" where
  "printable_content s \<longleftrightarrow> complete_line s \<or> 10 \<notin> set s \<and> \<not> ends_with 13 s"

definition printable_hunk :: "(hunk \<Rightarrow> nat) \<Rightarrow> hunk \<Rightarrow> bool" where
  "printable_hunk start h \<longleftrightarrow>
     counted h \<and> list_all (printable_content \<circ> line_content) (hunk_lines h)
     \<and> old_start h < 2 ^ 64 \<and> old_count h < 2 ^ 64 \<and> new_count h < 2 ^ 64 \<and> start h < 2 ^ 64"

definition printable_path :: "ustring option \<Rightarrow> bool" where
  "printable_path p \<longleftrightarrow> (case p of None \<Rightarrow> True | Some s \<Rightarrow> s \<noteq> [] \<and> set s \<inter> {9, 10, 13} = {})"

definition printable_file :: "(hunk \<Rightarrow> nat) \<Rightarrow> file_patch \<Rightarrow> bool" where
  "printable_file start fp \<longleftrightarrow>
     printable_path (old_path fp) \<and> printable_path (new_path fp)
     \<and> hunks fp \<noteq> [] \<and> list_all (printable_hunk start) (hunks fp)"

section \<open>Numbers and headers\<close>

lemma dec_string_digits: "c \<in> set (dec_string n) \<Longrightarrow> 48 \<le> c \<and> c \<le> 57"
  by (induction n rule: dec_string.induct) (subst (asm) dec_string.simps, auto split: if_splits)

lemma dec_string_not_Nil [simp]: "dec_string n \<noteq> []"
  by (subst dec_string.simps) simp

lemma parse_usize_dec:
  assumes "n < 2 ^ 64"
  shows "parse_usize (dec_string n) = Some n"
proof -
  obtain c r where d: "dec_string n = c # r" by (cases "dec_string n") simp_all
  have "list_all (\<lambda>c. 48 \<le> c \<and> c \<le> 57) (c # r)"
    using dec_string_digits [of _ n] unfolding d list_all_iff by blast
  moreover from this have "c \<noteq> 43" by auto
  ultimately show ?thesis
    using assms undec_dec_string [of n] by (simp add: parse_usize_def Let_def d)
qed

lemma no_digit [simp]: "44 \<notin> set (dec_string n)" "64 \<notin> set (dec_string n)" "10 \<notin> set (dec_string n)"
  using dec_string_digits [of _ n] by force+

lemma not_blank_digits: "c \<in> set (dec_string n) \<Longrightarrow> \<not> is_whitespace c"
  using dec_string_digits [of c n] by (auto simp: is_whitespace_def)

lemma parse_range_text: "s < 2 ^ 64 \<Longrightarrow> c < 2 ^ 64 \<Longrightarrow> parse_range (range_text s c) = Inr (s, c)"
  by (simp add: parse_range_def range_text_def split_once_append parse_usize_dec)

lemma range_text_not_blank: "c \<in> set (range_text s n) \<Longrightarrow> \<not> is_whitespace c"
  by (auto simp: range_text_def not_blank_digits) (simp add: is_whitespace_def)

lemma range_text_no_at: "64 \<notin> set (range_text s n)" "10 \<notin> set (range_text s n)"
  by (simp_all add: range_text_def)

lemma split_blank_word:
  "\<forall>c \<in> set w. \<not> is_whitespace c \<Longrightarrow> is_whitespace b \<Longrightarrow> split_blank (w @ b # s) = w # split_blank s"
  by (induction w) auto

lemma split_blank_last: "\<forall>c \<in> set w. \<not> is_whitespace c \<Longrightarrow> split_blank w = [w]"
  by (induction w) auto

lemma split_once_str_at: "64 \<notin> set a \<Longrightarrow> split_once_str [64, 64] (a @ 64 # 64 # b) = Some (a, b)"
  by (induction a) auto

lemma dropWhile_blank: "w \<noteq> [] \<Longrightarrow> \<forall>c \<in> set w. \<not> is_whitespace c \<Longrightarrow> dropWhile is_whitespace (w @ s) = w @ s"
  by (cases w) auto

lemma parse_hunk_header_text:
  assumes "printable_hunk start h"
  shows "parse_hunk_header (hunk_header_text start h) = Inr (old_start h, old_count h, new_count h)"
proof -
  let ?o = "range_text (old_start h) (old_count h)" and ?n = "range_text (start h) (new_count h)"
  let ?body = "[45] @ ?o @ [32, 43] @ ?n"
  have trimmed: "trim_line_end (hunk_header_text start h) = [64, 64, 32] @ ?body @ [32, 64, 64]"
    by (simp add: trim_line_end_def hunk_header_text_def)
  have at: "split_once_str [64, 64] ((32 # ?body @ [32]) @ 64 # 64 # []) = Some (32 # ?body @ [32], [])"
    by (rule split_once_str_at) (simp add: range_text_no_at)
  have blank: "is_whitespace 32" "\<not> is_whitespace 45" "\<not> is_whitespace 43"
    by (simp_all add: is_whitespace_def)
  have nn: "?n \<noteq> []" by (simp add: range_text_def)
  have "dropWhile is_whitespace (rev ?n @ s) = rev ?n @ s" for s
    using nn range_text_not_blank by (intro dropWhile_blank) auto
  then have "trim (32 # ?body @ [32]) = ?body"
    using blank by (simp add: trim_def trim_end_def)
  moreover have "split_whitespace ?body = [45 # ?o, 43 # ?n]"
    using split_blank_word [of "45 # ?o" 32 "43 # ?n"] split_blank_last [of "43 # ?n"] blank
      range_text_not_blank
    by (simp add: split_whitespace_def)
  ultimately show ?thesis
    using assms at
    by (simp add: parse_hunk_header_def trimmed Let_def starts_with_iff parse_range_text
        printable_hunk_def)
qed

lemma trim_line_end_newline: "s = [] \<or> last s \<notin> {10, 13} \<Longrightarrow> trim_line_end (s @ [10]) = s"
  by (cases s rule: rev_cases) (simp_all add: trim_line_end_def)

lemma parse_header_path_text:
  assumes "printable_path p" and "side = ''a/'' \<or> side = ''b/''"
  shows "parse_header_path (pre @ path_text side p @ [10]) pre = Inr p"
proof -
  have pre: "strip_prefix_of pre (pre @ s) = Some s" for s by (simp add: strip_prefix_of_Some)
  show ?thesis
  proof (cases p)
    case None
    have "trim_line_end (lit ''/dev/null'' @ [10]) = lit ''/dev/null''"
      by (rule trim_line_end_newline) (simp add: lit_def)
    with None show ?thesis
      by (simp add: parse_header_path_def pre path_text_def Let_def split_on_clean lit_def)
  next
    case (Some s)
    with assms(1) have "s \<noteq> []" "9 \<notin> set s" "set s \<inter> {10, 13} = {}" by (auto simp: printable_path_def)
    moreover from this have "last s \<notin> {10, 13}" using last_in_set [of s] by blast
    ultimately have s: "s \<noteq> []" "9 \<notin> set s" "last s \<notin> {10, 13}" by blast+
    have "trim_line_end ((lit side @ s) @ [10]) = lit side @ s"
      by (rule trim_line_end_newline) (use s in simp)
    moreover have "split_on 9 (lit side @ s) = [lit side @ s]"
      using s(2) assms(2) by (intro split_on_clean) (auto simp: lit_def)
    ultimately show ?thesis
      using s assms(2) Some
      by (auto simp: parse_header_path_def pre path_text_def Let_def strip_prefix_of_Some lit_def)
  qed
qed

section \<open>Hunks\<close>

lemma strip_line_ending_newline: "\<not> ends_with 13 c \<Longrightarrow> strip_line_ending (c @ [10]) = c"
  by (auto simp: strip_line_ending_def ends_with_def)

lemma strip_last_line: "strip_last_line_ending (acc @ [l])
  = Inr (acc @ [with_content l (strip_line_ending (line_content l))])"
  by (simp add: strip_last_line_ending_def)

lemma with_content_simps [simp]:
  "with_content (with_content l s) t = with_content l t" "line_content (with_content l s) = s"
  "with_content l (line_content l) = l"
  by (cases l; simp)+

lemma old_new_with_content [simp]:
  "length (old_part [with_content l s]) = length (old_part [l])"
  "length (new_part [with_content l s]) = length (new_part [l])"
  by (cases l; simp)+

lemma read_hunk_line_text:
  "read_hunk_line (line_sign l # s)
     = Inr (with_content l s, length (old_part [l]), length (new_part [l]))"
  by (cases l) (simp_all add: read_hunk_line_def len_utf8_def)

lemma sign_not_marker: "\<not> starts_with (line_sign l # s) no_newline_marker"
  by (cases l) (simp_all add: starts_with_iff no_newline_marker_def)

lemma marker_starts: "starts_with (no_newline_marker @ s) no_newline_marker"
  by (simp add: starts_with_iff)

lemma part_lengths:
  "length (old_part (l # ls)) = length (old_part [l]) + length (old_part ls)"
  "length (new_part (l # ls)) = length (new_part [l]) + length (new_part ls)"
  by (cases l; simp)+

lemma line_counts: "0 < length (old_part [l]) + length (new_part [l])"
  by (cases l) simp_all

text \<open>The lines of a hunk and the marker after them, as \<open>read_hunk\<close> reads them.\<close>

definition read_body ::
    "nat \<Rightarrow> nat \<Rightarrow> ustring list \<Rightarrow> nat \<Rightarrow> nat \<Rightarrow> patch_line list \<Rightarrow> nat
       \<Rightarrow> diff_failure + patch_line list \<times> ustring list" where
  "read_body oc nc lines os ns acc n =
     (case fst (read_hunk_lines never oc nc lines os ns acc n) of
        Inl e \<Rightarrow> Inl e
      | Inr (ls, rest) \<Rightarrow> trailing_marker ls rest)"

lemma read_body_done:
  "read_body oc nc lines oc nc acc n = trailing_marker acc lines"
  by (simp add: read_body_def read_hunk_lines.simps)

lemma read_body_line:
  assumes "oc = os + length (old_part (l # ls))" and "nc = ns + length (new_part (l # ls))"
  shows "read_body oc nc ((line_sign l # s) # rest) os ns acc n
    = read_body oc nc rest (os + length (old_part [l])) (ns + length (new_part [l]))
        (acc @ [with_content l s]) (n + 1)"
proof -
  have "os < oc \<or> ns < nc" using assms line_counts [of l] part_lengths [of l ls] by auto
  moreover have "\<not> (oc < os + length (old_part [l]) \<or> nc < ns + length (new_part [l]))"
    using assms part_lengths [of l ls] by simp
  ultimately show ?thesis
    by (simp add: read_body_def read_hunk_lines.simps [of never oc nc "(line_sign l # s) # rest"]
        sign_not_marker read_hunk_line_text)
qed

lemma read_body_marker:
  assumes "os < oc \<or> ns < nc"
  shows "read_body oc nc ((no_newline_marker @ s) # rest) os ns (acc @ [l]) n
    = read_body oc nc rest os ns (acc @ [with_content l (strip_line_ending (line_content l))]) (n + 1)"
  using assms
  by (simp add: read_body_def read_hunk_lines.simps [of never oc nc "(no_newline_marker @ s) # rest"]
      marker_starts strip_last_line)

lemma trailing_marker_rest:
  "rest = [] \<or> \<not> starts_with (hd rest) no_newline_marker \<Longrightarrow> trailing_marker ls rest = Inr (ls, rest)"
  by (cases rest) (simp_all add: trailing_marker_def)

lemma read_body_texts:
  assumes "oc = os + length (old_part ls)" and "nc = ns + length (new_part ls)"
    and "list_all (printable_content \<circ> line_content) ls"
    and "rest = [] \<or> \<not> starts_with (hd rest) no_newline_marker"
  shows "read_body oc nc (concat (map line_texts ls) @ rest) os ns acc n = Inr (acc @ ls, rest)"
  using assms(1-3)
proof (induction ls arbitrary: os ns acc n)
  case Nil
  then show ?case by (simp add: read_body_done trailing_marker_rest [OF assms(4)])
next
  case (Cons l ls)
  let ?c = "line_content l" and ?os = "os + length (old_part [l])" and ?ns = "ns + length (new_part [l])"
  note line = read_body_line [OF Cons.prems(1,2)]
  have IH: "read_body oc nc (concat (map line_texts ls) @ rest) ?os ?ns acc' n' = Inr (acc' @ ls, rest)"
    for acc' n'
    using Cons.prems part_lengths [of l ls] by (intro Cons.IH) (simp_all add: add.assoc)
  show ?case
  proof (cases "ends_with 10 ?c")
    case True
    then show ?thesis by (simp add: line_texts_def [of l] line IH)
  next
    case False
    with Cons.prems(3) have "\<not> ends_with 13 ?c"
      by (auto simp: printable_content_def complete_line_def ends_with_def)
    then have strip: "strip_line_ending (?c @ [10]) = ?c" by (rule strip_line_ending_newline)
    let ?tail = "(no_newline_marker @ [10]) # concat (map line_texts ls) @ rest"
    have "read_body oc nc ?tail ?os ?ns (acc @ [with_content l (?c @ [10])]) (n + 1)
        = Inr (acc @ l # ls, rest)"
    proof (cases ls)
      case Nil
      with Cons.prems(1,2) have "oc = ?os" "nc = ?ns" by simp_all
      with Nil show ?thesis
        by (simp add: read_body_done trailing_marker_def marker_starts strip_last_line strip)
    next
      case (Cons k ks)
      with Cons.prems(1,2) line_counts [of k] part_lengths [of l ls] part_lengths [of k ks]
      have "?os < oc \<or> ?ns < nc" by auto
      from read_body_marker [OF this] show ?thesis by (simp add: strip IH)
    qed
    with False show ?thesis by (simp add: line_texts_def [of l] line)
  qed
qed

lemma read_hunk_text:
  assumes "printable_hunk start h" and "rest = [] \<or> \<not> starts_with (hd rest) no_newline_marker"
  shows "fst (read_hunk never (hunk_header_text start h) (concat (map line_texts (hunk_lines h)) @ rest) n)
    = Inr (h, rest)"
proof -
  have "read_body (old_count h) (new_count h) (concat (map line_texts (hunk_lines h)) @ rest) 0 0 [] n
      = Inr (hunk_lines h, rest)"
    using assms read_body_texts [of "old_count h" 0 "hunk_lines h" "new_count h" 0 rest "[]" n]
    by (simp add: printable_hunk_def counted_def)
  then show ?thesis
    by (auto simp: read_hunk_def parse_hunk_header_text [OF assms(1)] read_body_def
        split: prod.splits sum.splits)
qed

lemma header_starts: "starts_with (hunk_header_text start h) [64, 64]"
  by (simp add: starts_with_iff hunk_header_text_def)

lemma header_not_marker: "\<not> starts_with (hunk_header_text start h) no_newline_marker"
  by (simp add: starts_with_iff hunk_header_text_def no_newline_marker_def)

lemma read_hunks_texts:
  assumes "list_all (printable_hunk start) hs"
    and "rest = [] \<or> \<not> starts_with (hd rest) no_newline_marker \<and> \<not> starts_with (hd rest) [64, 64]"
  shows "fst (read_hunks never acc (concat (map (hunk_texts start) hs) @ rest) n) = Inr (acc @ hs, rest)"
  using assms(1)
proof (induction hs arbitrary: acc n)
  case Nil
  with assms(2) show ?case by (cases rest) simp_all
next
  case (Cons h hs)
  let ?rest = "concat (map (hunk_texts start) hs) @ rest"
  have "?rest = [] \<or> \<not> starts_with (hd ?rest) no_newline_marker"
    using assms(2) by (cases hs) (auto simp: hunk_texts_def header_not_marker)
  with Cons.prems obtain m where
    "read_hunk never (hunk_header_text start h) (concat (map line_texts (hunk_lines h)) @ ?rest) n
      = (Inr (h, ?rest), m)"
    using read_hunk_text [of start h ?rest n] by (metis list.pred_inject(2) prod.collapse)
  with Cons show ?case by (simp add: hunk_texts_def [of start h] header_starts)
qed

section \<open>The round trip\<close>

lemma header_facts:
  "starts_with (old_header @ s) old_header" "\<not> starts_with (old_header @ s) no_newline_marker"
  "\<not> starts_with (old_header @ s) [64, 64]"
  by (simp_all add: starts_with_iff old_header_def no_newline_marker_def lit_def)

lemma read_files_texts:
  assumes "list_all (printable_file start) fps"
  shows "fst (read_files never acc (patch_texts start fps) n) = Inr (acc @ fps)"
  using assms
proof (induction fps arbitrary: acc n)
  case Nil
  show ?case by (simp add: patch_texts_def read_files.simps)
next
  case (Cons fp fps)
  let ?rest = "patch_texts start fps" and ?hunks = "concat (map (hunk_texts start) (hunks fp))"
  let ?new = "new_header @ path_text ''b/'' (new_path fp) @ [10]"
  let ?old = "old_header @ path_text ''a/'' (old_path fp) @ [10]"
  from Cons.prems have fp: "printable_file start fp" by simp
  have rest: "?rest = [] \<or> starts_with (hd ?rest) old_header
      \<and> \<not> starts_with (hd ?rest) no_newline_marker \<and> \<not> starts_with (hd ?rest) [64, 64]"
    by (cases fps) (simp_all add: patch_texts_def file_texts_def header_facts)
  obtain m where hunks: "read_hunks never [] (?hunks @ ?rest) (n + 1) = (Inr (hunks fp, ?rest), m)"
    using read_hunks_texts [of start "hunks fp" ?rest "[]" "n + 1"] fp rest
    by (metis append_Nil prod.collapse printable_file_def)
  have accounted: "accounted ?rest"
    using rest by (auto simp: accounted_def split: list.split)
  have "read_file never ?old (?new # ?hunks @ ?rest) (n + 1) = (Inr (fp, ?rest), m)"
    using fp hunks accounted
    by (simp add: read_file_def parse_header_path_text printable_file_def)
  moreover have "patch_texts start (fp # fps) = ?old # ?new # ?hunks @ ?rest"
    by (simp add: patch_texts_def file_texts_def [of start fp])
  ultimately show ?case
    using Cons by (simp add: read_files.simps [of never acc] header_facts)
qed

lemma collect_lines_never:
  "i + length ls \<le> MAX_PATCH_LINES \<Longrightarrow> fst (collect_lines never i ls n) = Inr ls"
proof (induction ls arbitrary: i n)
  case (Cons l ls)
  from Cons.prems have "i + 1 + length ls \<le> MAX_PATCH_LINES" and "i \<noteq> MAX_PATCH_LINES" by simp_all
  with Cons.IH [of "i + 1"] show ?case by (auto simp: Let_def split: prod.splits sum.splits) (metis fst_conv sum.inject(2) sum.distinct(1))+
qed simp

lemma complete_line_snoc: "complete_line (s @ [10]) \<longleftrightarrow> 10 \<notin> set s"
  by (simp add: complete_line_def)

lemma complete_line_Cons: "c \<noteq> 10 \<Longrightarrow> complete_line s \<Longrightarrow> complete_line (c # s)"
  by (auto simp: complete_line_def)

lemma line_texts_complete: "printable_content (line_content l) \<Longrightarrow> list_all complete_line (line_texts l)"
proof -
  assume "printable_content (line_content l)"
  moreover have "line_sign l \<noteq> 10" by (cases l) simp_all
  moreover have "10 \<notin> set no_newline_marker" by (simp add: no_newline_marker_def lit_def)
  then have "complete_line (no_newline_marker @ [10])" by (simp only: complete_line_snoc simp_thms)
  moreover have "complete_line (line_content l)"
    if "printable_content (line_content l)" "ends_with 10 (line_content l)"
    using that last_in_set [of "line_content l"] by (auto simp: printable_content_def ends_with_def)
  moreover have "10 \<notin> set (line_content l)"
    if "printable_content (line_content l)" "\<not> ends_with 10 (line_content l)"
    using that by (auto simp: printable_content_def complete_line_def ends_with_def)
  ultimately show ?thesis
    using complete_line_snoc [of "line_sign l # line_content l"]
    by (simp add: line_texts_def complete_line_Cons)
qed

lemma hunk_texts_complete: "printable_hunk start h \<Longrightarrow> list_all complete_line (hunk_texts start h)"
proof -
  assume h: "printable_hunk start h"
  have "complete_line (hunk_header_text start h)"
    using complete_line_snoc [of "butlast (hunk_header_text start h)"]
    by (simp add: hunk_header_text_def range_text_no_at butlast_append)
  moreover have "list_all complete_line (concat (map line_texts (hunk_lines h)))"
    using h line_texts_complete by (auto simp: list_all_iff printable_hunk_def)
  ultimately show ?thesis by (simp add: hunk_texts_def)
qed

lemma patch_texts_complete:
  "list_all (printable_file start) fps \<Longrightarrow> list_all complete_line (patch_texts start fps)"
proof (induction fps)
  case (Cons fp fps)
  have path: "10 \<notin> set (path_text side p)" if "printable_path p" "10 \<notin> set (lit side)" for side p
    using that by (auto simp: path_text_def printable_path_def lit_def split: option.splits)
  have "complete_line ((old_header @ path_text ''a/'' (old_path fp)) @ [10])"
    "complete_line ((new_header @ path_text ''b/'' (new_path fp)) @ [10])"
    unfolding complete_line_snoc using Cons.prems path [of "old_path fp" "''a/''"] path [of "new_path fp" "''b/''"]
    by (auto simp: printable_file_def old_header_def new_header_def lit_def)
  moreover have "list_all complete_line (concat (map (hunk_texts start) (hunks fp)))"
    using Cons.prems hunk_texts_complete by (auto simp: list_all_iff printable_file_def)
  ultimately show ?case
    using Cons by (simp add: patch_texts_def file_texts_def [of start fp])
qed (simp add: patch_texts_def)

lemma parse_print_patch:
  assumes "list_all (printable_file start) fps" and "fps \<noteq> []"
    and "length (patch_texts start fps) \<le> MAX_PATCH_LINES"
  shows "fst (parse_patch never (print_patch start fps) n) = Inr fps"
proof -
  let ?lines = "patch_texts start fps"
  have lines: "split_inclusive (print_patch start fps) = ?lines"
    using patch_texts_complete [OF assms(1)] by (simp add: print_patch_def split_inclusive_concat)
  obtain m where collect: "collect_lines never 0 ?lines n = (Inr ?lines, m)"
    using collect_lines_never [of 0 ?lines n] assms(3) by (metis add_0 prod.collapse)
  have "?lines \<noteq> []" using assms(2) by (cases fps) (simp_all add: patch_texts_def file_texts_def)
  then have "print_patch start fps \<noteq> []" using lines by auto
  with read_files_texts [OF assms(1), of "[]" m] assms(2) show ?thesis
    by (auto simp: parse_patch_def lines collect split: prod.splits sum.splits)
qed

text \<open>
  C18. Printing and parsing are inverse: the unified diff text of file patches (paths, ranges, contents
  with and without a final newline) parses back to exactly those file patches, as long as it has at
  most 200000 lines.
\<close>
theorem printed_patch_parses_back:
  assumes "list_all (printable_file start) fps" and "fps \<noteq> []"
    and "length (patch_texts start fps) \<le> MAX_PATCH_LINES"
  shows "fst (parse_patch never (print_patch start fps) n) = Inr fps"
  using assms by (rule parse_print_patch)

definition demo_patch :: file_patch where
  "demo_patch = \<lparr>old_path = Some (lit ''f''), new_path = Some (lit ''f''),
     hunks = [\<lparr>old_start = 3, old_count = 2, new_count = 2,
       hunk_lines = [Context (lit ''a'' @ [10]), Remove (lit ''b''), Add (lit ''c'' @ [10])]\<rparr>]\<rparr>"

lemma demo_patch_printable:
  "list_all (printable_file old_start) [demo_patch]"
  "length (patch_texts old_start [demo_patch]) \<le> MAX_PATCH_LINES"
  by (simp_all add: demo_patch_def printable_file_def printable_path_def printable_hunk_def counted_def
      printable_content_def complete_line_def ends_with_def lit_def patch_texts_def file_texts_def
      hunk_texts_def line_texts_def MAX_PATCH_LINES_def)

theorem printed_patch_parses_back_witness:
  "fst (parse_patch never (print_patch old_start [demo_patch]) 0) = Inr [demo_patch]"
  by (rule printed_patch_parses_back [OF demo_patch_printable(1) _ demo_patch_printable(2)]) simp

section \<open>Panics\<close>

definition multibyte_line :: "ustring \<Rightarrow> bool" where
  "multibyte_line l \<longleftrightarrow> l = [] \<or> len_utf8 (hd l) \<noteq> 1"

lemma read_hunk_lines_panic:
  "fst (read_hunk_lines flag oc nc lines os ns acc n) = Inl DiffPanicked
     \<Longrightarrow> list_ex multibyte_line lines"
proof (induction lines arbitrary: os ns acc n)
  case (Cons line lines)
  then show ?case
    by (auto simp: read_hunk_lines_unfold strip_last_line_ending_def read_hunk_line_def
        multibyte_line_def split: if_splits sum.splits list.splits)
qed (simp add: read_hunk_lines_unfold split: if_splits)

lemma no_panic:
  "parse_hunk_header s \<noteq> Inl DiffPanicked" "parse_header_path s p \<noteq> Inl DiffPanicked"
  "trailing_marker ls lines \<noteq> Inl DiffPanicked"
  by (auto simp: parse_hunk_header_def parse_range_def parse_header_path_def trailing_marker_def
      strip_last_line_ending_def try_res_Inl Let_def
      split: option.splits list.splits prod.splits if_splits)

lemma read_hunk_lines_rest:
  "read_hunk_lines flag oc nc lines os ns acc n = (Inr (ls, rest), m) \<Longrightarrow> set rest \<subseteq> set lines"
proof (induction lines arbitrary: os ns acc n)
  case (Cons line lines)
  have IH: "set rest \<subseteq> insert line (set lines)"
    if "read_hunk_lines flag oc nc lines os' ns' acc' n' = (Inr (ls, rest), m)" for os' ns' acc' n'
    using Cons.IH [OF that] by auto
  from Cons.prems show ?case
    by (auto simp: read_hunk_lines_unfold split: if_splits sum.splits dest!: IH)
qed (auto simp: read_hunk_lines_unfold split: if_splits)

lemma read_hunk_rest:
  "read_hunk flag header lines n = (Inr (h, rest), m) \<Longrightarrow> set rest \<subseteq> set lines"
  by (fastforce simp: read_hunk_def trailing_marker_def try_res_Inr
      split: sum.splits prod.splits list.splits if_splits dest: read_hunk_lines_rest)

lemma read_hunk_panic:
  assumes "fst (read_hunk flag header lines n) = Inl DiffPanicked"
  shows "list_ex multibyte_line lines"
proof (cases "parse_hunk_header header")
  case (Inl e)
  with assms no_panic(1) [of header] show ?thesis by (simp add: read_hunk_def)
next
  case (Inr x)
  obtain os oc nc where x: "x = (os, oc, nc)" by (cases x)
  obtain r m where r: "read_hunk_lines flag oc nc lines 0 0 [] n = (r, m)" by fastforce
  with assms Inr x have "r = Inl DiffPanicked"
    by (cases r) (auto simp: read_hunk_def try_res_Inl no_panic)
  with r read_hunk_lines_panic [of flag oc nc lines 0 0 "[]" n] show ?thesis by simp
qed

lemma read_hunks_rest:
  "read_hunks flag hs lines n = (Inr (hs', rest), m) \<Longrightarrow> set rest \<subseteq> set lines"
proof (induction flag hs lines n rule: read_hunks.induct)
  case (2 flag hs line rest0 n)
  show ?case
  proof (cases "starts_with line [64, 64]")
    case True
    with "2.prems" obtain h rest1 n1 where h: "read_hunk flag line rest0 n = (Inr (h, rest1), n1)"
      and "read_hunks flag (hs @ [h]) rest1 n1 = (Inr (hs', rest), m)"
      by (auto split: prod.splits sum.splits)
    then have "set rest \<subseteq> set rest1" using "2.IH" True h by simp
    with read_hunk_rest [OF h] show ?thesis by auto
  qed (use "2.prems" in auto)
qed simp

lemma list_ex_mono: "set xs \<subseteq> set ys \<Longrightarrow> list_ex P xs \<Longrightarrow> list_ex P ys"
  by (auto simp: list_ex_iff)

lemma read_hunks_panic:
  "fst (read_hunks flag hs lines n) = Inl DiffPanicked \<Longrightarrow> list_ex multibyte_line lines"
proof (induction flag hs lines n rule: read_hunks.induct)
  case (2 flag hs line rest n)
  obtain r n1 where r: "read_hunk flag line rest n = (r, n1)" by fastforce
  from "2.prems" have start: "starts_with line [64, 64]" by (auto split: if_splits)
  show ?case
  proof (cases r)
    case (Inl e)
    with "2.prems" r start read_hunk_panic [of flag line rest n] show ?thesis by simp
  next
    case (Inr x)
    obtain h rest1 where x: "x = (h, rest1)" by (cases x)
    from "2.prems" r start Inr x have "fst (read_hunks flag (hs @ [h]) rest1 n1) = Inl DiffPanicked"
      by simp
    with "2.IH" start r Inr x have "list_ex multibyte_line rest1" by simp
    with read_hunk_rest [of flag line rest n h rest1 n1] r Inr x list_ex_mono [of rest1 rest]
    show ?thesis by simp
  qed
qed simp

lemma read_file_panic:
  assumes "fst (read_file flag header lines n) = Inl DiffPanicked"
  shows "list_ex multibyte_line lines"
proof (cases "parse_header_path header old_header")
  case (Inl e)
  with assms no_panic(2) [of header] show ?thesis by (simp add: read_file_def)
next
  case (Inr old)
  with assms obtain line rest where lines: "lines = line # rest"
    by (cases lines) (simp_all add: read_file_def)
  show ?thesis
  proof (cases "parse_header_path line new_header")
    case (Inl e)
    with assms Inr lines no_panic(2) [of line] show ?thesis by (simp add: read_file_def)
  next
    case new: (Inr new)
    obtain r m where r: "read_hunks flag [] rest n = (r, m)" by fastforce
    with assms Inr new lines have "r = Inl DiffPanicked"
      by (cases r) (auto simp: read_file_def split: if_splits)
    with r read_hunks_panic [of flag "[]" rest n] lines show ?thesis by simp
  qed
qed

lemma read_file_rest:
  "read_file flag header lines n = (Inr (fp, rest), m) \<Longrightarrow> set rest \<subseteq> set lines"
  by (auto simp: read_file_def try_res_Inr split: sum.splits prod.splits if_splits list.splits
      dest!: read_hunks_rest)

lemma read_files_panic:
  "fst (read_files flag fs lines n) = Inl DiffPanicked \<Longrightarrow> list_ex multibyte_line lines"
proof (induction "length lines" arbitrary: lines fs n rule: less_induct)
  case less
  show ?case
  proof (cases "dropWhile (\<lambda>l. \<not> starts_with l old_header) lines")
    case Nil
    with less.prems show ?thesis
      by (simp add: read_files.simps [of flag fs lines n] del: dropWhile_eq_Nil_conv split: if_splits)
  next
    case (Cons header rest)
    then have sub: "set rest \<subseteq> set lines"
      by (metis dropWhile_shorter set_dropWhileD set_subset_Cons subsetI subset_trans)
    obtain r m where r: "read_file flag header rest (n + 1) = (r, m)" by fastforce
    have "list_ex multibyte_line rest"
    proof (cases r)
      case (Inl e)
      with less.prems Cons r read_file_panic [of flag header rest "n + 1"] show ?thesis
        by (auto simp: read_files.simps [of flag fs lines n] split: if_splits)
    next
      case (Inr x)
      obtain fp rest1 where x: "x = (fp, rest1)" by (cases x)
      with less.prems Cons r Inr have "fst (read_files flag (fs @ [fp]) rest1 m) = Inl DiffPanicked"
        by (auto simp: read_files.simps [of flag fs lines n] split: if_splits)
      with less.hyps [of rest1] Cons r Inr x read_file_shorter [of flag header rest "n + 1" fp rest1 m]
        dropWhile_shorter [OF Cons] have "list_ex multibyte_line rest1" by simp
      with r Inr x read_file_rest [of flag header rest "n + 1" fp rest1 m] list_ex_mono [of rest1 rest]
      show ?thesis by simp
    qed
    with sub show ?thesis by (rule list_ex_mono)
  qed
qed

lemma collect_lines_Inr: "collect_lines flag i lines n = (Inr ls, m) \<Longrightarrow> ls = lines"
  by (induction lines arbitrary: i n ls) (auto simp: Let_def split: if_splits sum.splits prod.splits)

lemma collect_lines_panic: "fst (collect_lines flag i lines n) \<noteq> Inl DiffPanicked"
proof (induction lines arbitrary: i n)
  case (Cons line lines)
  then have "collect_lines flag i' lines n' \<noteq> (Inl DiffPanicked, m)" for i' n' m
    by (metis fst_conv)
  then show ?case by (auto simp: Let_def split: sum.splits prod.splits)
qed simp

text \<open>The texts of a file patch with one hunk, and in its place of first line the line \<open>c # s\<close>.\<close>

definition broken_lines :: "hunk \<Rightarrow> uchar \<Rightarrow> ustring \<Rightarrow> ustring list" where
  "broken_lines h c s =
     [old_header @ path_text ''a/'' (Some (lit ''f'')) @ [10],
      new_header @ path_text ''b/'' (Some (lit ''f'')) @ [10],
      hunk_header_text old_start h, c # s @ [10]]"

lemma read_hunk_broken:
  assumes "printable_hunk old_start h" and "hunk_lines h \<noteq> []" and "len_utf8 c \<noteq> 1"
  shows "read_hunk never (hunk_header_text old_start h) ((c # s) # rest) n = (Inl DiffPanicked, n + 1)"
proof -
  obtain l ls where l: "hunk_lines h = l # ls" using assms(2) by (cases "hunk_lines h") simp_all
  have "0 < old_count h \<or> 0 < new_count h"
    using assms(1) l line_counts [of l] part_lengths [of l ls]
    by (auto simp: printable_hunk_def counted_def)
  moreover have "\<not> starts_with (c # s) no_newline_marker"
    using assms(3) by (auto simp: starts_with_iff no_newline_marker_def len_utf8_def)
  ultimately show ?thesis
    using assms(3)
    by (simp add: read_hunk_def parse_hunk_header_text [OF assms(1)] read_hunk_lines_unfold
        read_hunk_line_def)
qed

lemma read_files_broken:
  assumes "printable_hunk old_start h" and "hunk_lines h \<noteq> []" and "len_utf8 c \<noteq> 1"
  shows "fst (read_files never [] (broken_lines h c s) n) = Inl DiffPanicked"
proof -
  have path: "printable_path (Some (lit ''f''))" by (simp add: printable_path_def lit_def)
  have "read_hunks never [] [hunk_header_text old_start h, c # s @ [10]] (n + 1) = (Inl DiffPanicked, n + 2)"
    using read_hunk_broken [OF assms, of "s @ [10]" "[]" "n + 1"] by (simp add: header_starts)
  then show ?thesis
    by (simp add: broken_lines_def read_files.simps [of never "[]"] header_facts read_file_def
        parse_header_path_text [OF path])
qed

lemma parse_patch_broken:
  assumes "printable_hunk old_start h" and "hunk_lines h \<noteq> []" and "len_utf8 c \<noteq> 1"
    and "10 \<notin> set s"
  shows "fst (parse_patch never (concat (broken_lines h c s)) n) = Inl DiffPanicked"
proof -
  let ?lines = "broken_lines h c s"
  have "hd (hunk_texts old_start h) = hunk_header_text old_start h" by (simp add: hunk_texts_def)
  with hunk_texts_complete [OF assms(1)] have "complete_line (hunk_header_text old_start h)"
    by (simp add: hunk_texts_def)
  moreover have "complete_line ((c # s) @ [10])"
    unfolding complete_line_snoc using assms(3,4) by (auto simp: len_utf8_def)
  ultimately have "list_all complete_line ?lines"
    by (simp add: broken_lines_def path_text_def)
      (simp add: complete_line_def old_header_def new_header_def lit_def)
  then have lines: "split_inclusive (concat ?lines) = ?lines" by (rule split_inclusive_concat)
  have "length ?lines \<le> MAX_PATCH_LINES" by (simp add: broken_lines_def MAX_PATCH_LINES_def)
  then obtain m where "collect_lines never 0 ?lines n = (Inr ?lines, m)"
    using collect_lines_never [of 0 ?lines n] by (metis add_0 prod.collapse)
  moreover have "concat ?lines \<noteq> []" by (simp add: broken_lines_def)
  ultimately show ?thesis
    using read_files_broken [OF assms(1-3), of s m]
    by (auto simp: parse_patch_def lines split: prod.splits sum.splits)
qed

text \<open>
  C39. Parsing a patch can panic: it does whenever the first line of a well-formed hunk starts with a
  character of more than one byte, where an invalid hunk line should be reported; and it panics only
  on patches that have a line starting with such a character.
\<close>
theorem parse_panics_on_multibyte_line:
  "(printable_hunk old_start h \<and> hunk_lines h \<noteq> [] \<and> len_utf8 c \<noteq> 1 \<and> 10 \<notin> set s
       \<longrightarrow> fst (parse_patch never (concat (broken_lines h c s)) n) = Inl DiffPanicked)
   \<and> (fst (parse_patch flag patch n) = Inl DiffPanicked
       \<longrightarrow> list_ex (\<lambda>l. len_utf8 (hd l) \<noteq> 1) (split_inclusive patch))"
proof (intro conjI impI)
  show "fst (parse_patch never (concat (broken_lines h c s)) n) = Inl DiffPanicked"
    if "printable_hunk old_start h \<and> hunk_lines h \<noteq> [] \<and> len_utf8 c \<noteq> 1 \<and> 10 \<notin> set s"
    using that parse_patch_broken by blast
  have nonempty: "\<forall>l \<in> set (split_inclusive s). l \<noteq> []" for s
    by (induction s) (auto split: list.splits)
  assume panic: "fst (parse_patch flag patch n) = Inl DiffPanicked"
  obtain r m where r: "collect_lines flag 0 (split_inclusive patch) n = (r, m)" by fastforce
  with panic collect_lines_panic [of flag 0 "split_inclusive patch" n]
  obtain ls where ls: "r = Inr ls" by (cases r) (auto simp: parse_patch_def split: if_splits)
  with r collect_lines_Inr have eq: "ls = split_inclusive patch" by blast
  have "fst (read_files flag [] ls m) = Inl DiffPanicked"
    using panic r ls by (auto simp: parse_patch_def split: if_splits prod.splits sum.splits)
  from read_files_panic [OF this] eq nonempty [of patch]
  show "list_ex (\<lambda>l. len_utf8 (hd l) \<noteq> 1) (split_inclusive patch)"
    by (auto simp: list_ex_iff multibyte_line_def)
qed

theorem parse_panics_on_multibyte_line_witness:
  "\<exists>h. let patch = concat (broken_lines h 0xE9 [])
       in fst (parse_patch never patch 0) = Inl DiffPanicked
          \<and> list_ex (\<lambda>l. len_utf8 (hd l) \<noteq> 1) (split_inclusive patch)"
proof -
  let ?h = "hd (hunks demo_patch)"
  have "printable_hunk old_start ?h \<and> hunk_lines ?h \<noteq> [] \<and> len_utf8 0xE9 \<noteq> 1 \<and> 10 \<notin> set ([] :: ustring)"
    by (simp add: demo_patch_def printable_hunk_def counted_def printable_content_def
        complete_line_def ends_with_def lit_def len_utf8_def)
  from parse_panics_on_multibyte_line [of ?h "0xE9" "[]" 0, THEN conjunct1, rule_format, OF this]
  have panic: "fst (parse_patch never (concat (broken_lines ?h 0xE9 [])) 0) = Inl DiffPanicked" .
  from parse_panics_on_multibyte_line [THEN conjunct2, rule_format, OF this] panic
  show ?thesis unfolding Let_def by blast
qed

end
