(* ===== verification/Demo_Disk.thy ===== *)
theory Demo_Disk
  imports Patch_Tool Diff_Printing "HOL-Library.Code_Target_Nat"
begin

text \<open>
  A small disk on which the witnesses of the publication theorems run the code: a directory with one
  file \<open>f\<close>, no other process, no fault, reads and writes that move at most eight bytes, and a hash
  without collisions.
\<close>

definition demo_node :: "node_kind \<Rightarrow> nat list \<Rightarrow> disk_node" where
  "demo_node kind bs =
     \<lparr>nd_kind = kind, nd_bytes = bs, nd_uid = 5, nd_gid = 5, nd_mode = 384,
      nd_modified = (0, 0), nd_changed = (0, 0), nd_xattrs = [], nd_acl = []\<rparr>"

definition demo_text :: "nat list" where
  "demo_text = [120, 10, 121, 10, 97, 10, 98]"

definition demo_disk :: disk where
  "demo_disk =
     \<lparr>nodes = [Node 8 2 \<mapsto> demo_node DirectoryNode [], Node 8 3 \<mapsto> demo_node RegularNode demo_text],
      entries = [((Node 8 2, [102]), Node 8 3)]\<rparr>"

definition demo_system :: "nat list system" where
  "demo_system =
     \<lparr>sys_interfere = \<lambda>n d. d, sys_fault = \<lambda>n. None,
      sys_open_dir = \<lambda>p d. Inr (Node 8 2), sys_locate = \<lambda>p d. Inr (Node 8 3),
      sys_list = \<lambda>x d. Inr (map (\<lambda>e. Inr (snd (fst e))) (filter (\<lambda>e. fst (fst e) = x) (entries d))),
      sys_entry_type = \<lambda>s d. (case Option.bind (lookup d s) (nodes d) of
          None \<Rightarrow> Inl (io_error_new IoNotFound []) | Some nd \<Rightarrow> Inr (nd_kind nd)),
      sys_open_entry_dir = \<lambda>s d. (case lookup d s of
          None \<Rightarrow> Inl (io_error_new IoNotFound []) | Some x \<Rightarrow> Inr x),
      sys_new_id = \<lambda>n d. Node 9 n, sys_new_node = \<lambda>n s m. demo_node RegularNode [],
      sys_amount = \<lambda>n. 8, sys_now = \<lambda>n. (0, 0), sys_rename_changed = \<lambda>n t. t,
      sys_set_mode = \<lambda>n m old. m, sys_random = \<lambda>n i. 0, sys_text = \<lambda>k. [], sys_hash = \<lambda>b. b\<rparr>"

definition demo_world :: world where
  "demo_world = \<lparr>disk_of = demo_disk, calls = 0, loads = 0\<rparr>"

definition demo_context :: workspace_context where
  "demo_context = \<lparr>wc_root = [RootDir, NormalComp [119]], wc_git_worktree = None\<rparr>"

definition demo_change :: "(diff_failure + patch_result) \<times> world" where
  "demo_change =
     apply_unified_patch demo_system never demo_context (print_patch old_start [demo_patch]) demo_world"

lemma demo_interfere [simp]: "sys_interfere demo_system n d = d"
  by (simp add: demo_system_def)

lemma demo_entry:
  "lookup (disk_of demo_world) (Node 8 2, [102]) = Some (Node 8 3)"
  "node_bytes (disk_of demo_world) (Node 8 3) = Some demo_text"
  by (simp_all add: demo_world_def demo_disk_def lookup_def node_bytes_def demo_node_def)

lemma demo_target:
  "target_path demo_patch = Inr [102]" "relative_request_path demo_context [102] = Inr [NormalComp [102]]"
  "target_name [NormalComp [102]] = Inr [102]"
  by code_simp+

lemma demo_change_succeeds: "\<not> isl (fst demo_change)"
  by code_simp

end
