(* ===== verification/Patch_Safety.thy ===== *)
theory Patch_Safety
  imports Publish_Safety Demo_Disk
begin

text \<open>
  What a call of apply-patch does to the disk although other processes act at the same time: it
  loses no file, it tells the truth about publication, and when it succeeds the target holds exactly
  what the patch means for the content that was there.
\<close>

declare split_paired_All [simp del] split_paired_Ex [simp del]

section \<open>The tool keeps what the publication keeps\<close>

lemma flag_steps_keep [steady_rules]:
  "steady I (with_flag m)" "steady I (check_cancelled flag)"
  by (auto simp: steady_def with_flag_def check_cancelled_def split: prod.splits)

lemma steady_apply: "(\<And>w. m w = m' w) \<Longrightarrow> steady I m' \<Longrightarrow> steady I m"
  by (simp add: steady_def)

context disk_invariant
begin

lemma read_target_loop_keeps [steady_rules]: "steady I (read_target_loop S flag f p bytes k)"
proof (induction "MAX_PATCH_FILE_BYTES + 1 - length bytes" arbitrary: bytes k rule: less_induct)
  case less
  show ?case
    by (rule steady_apply [OF read_target_loop_unfold])
      (auto simp: patch_io_def intro!: steady_rules less diff_less_mono2)
qed

lemma tool_reads_keep [steady_rules]:
  "steady I (patch_io p m)" if "steady I m" for m :: "'b io_op"
  using that by (simp add: patch_io_def steady_map_err)

lemma read_original_keeps [steady_rules]: "steady I (read_original S flag p)"
  unfolding read_original_def read_patch_target_def open_regular_file_def
  by (intro steady_rules)

lemma resolve_keeps [steady_rules]:
  "steady I (resolve_existing S c requested)" "steady I (resolve_for_write S c requested)"
  unfolding resolve_for_write_def resolve_existing_def by (intro steady_rules)+

end

context exchange_invariant
begin

lemma publish_change_keeps [steady_rules]: "steady I (publish_change S p snapshot content)"
  unfolding publish_change_def by (intro steady_rules replace_existing_keeps create_new_keeps)

lemma apply_unified_patch_keeps: "steady I (apply_unified_patch S flag c patch)"
  unfolding apply_unified_patch_def apply_file_patch_def
  by (auto split: list.split file_change.split intro!: steady_rules)

lemma patch_execute_keeps:
  "I (disk_of w) \<Longrightarrow> I (disk_of (snd (patch_execute S R J debug c flag call w)))"
  using apply_unified_patch_keeps [of flag c, unfolded steady_def]
  by (auto simp: patch_execute_def split: sum.split prod.split diff_failure.split) (metis snd_conv)+

end

section \<open>No file is lost\<close>

definition leaves_file :: "'h system \<Rightarrow> node_id \<Rightarrow> bool" where
  "leaves_file S x \<longleftrightarrow>
     (\<forall>n d b s. node_bytes d x = Some b \<longrightarrow> lookup d s = Some x \<longrightarrow>
        node_bytes (sys_interfere S n d) x = Some b \<and> (\<exists>r. lookup (sys_interfere S n d) r = Some x))"

context kept_file
begin

lemmas execute_keeps = kept.patch_execute_keeps

end

text \<open>
  C3. A call of apply-patch never loses a file, whatever it answers and whatever fails: a file that
  other processes leave alone (they may do anything else, at any time) has the same bytes after the
  call, and there still is an entry that leads to it.
\<close>
theorem patch_loses_no_file:
  assumes "leaves_file S x" and "node_bytes (disk_of w) x = Some b" and "lookup (disk_of w) s = Some x"
  shows "node_bytes (disk_of (snd (patch_execute S R J debug c flag call w))) x = Some b
    \<and> (\<exists>r. lookup (disk_of (snd (patch_execute S R J debug c flag call w))) r = Some x)"
proof -
  have "kept_file S x b" using assms(1) unfolding leaves_file_def by unfold_locales blast
  from kept_file.execute_keeps [OF this] assms(2,3) show ?thesis by blast
qed

lemma demo_leaves_file: "leaves_file demo_system x"
  by (auto simp: leaves_file_def)

theorem patch_loses_no_file_witness:
  "\<forall>R J debug call. \<exists>r. lookup (disk_of (snd (patch_execute demo_system R J debug demo_context
     never call demo_world))) r = Some (Node 8 3)"
  by (intro allI) (rule patch_loses_no_file [OF demo_leaves_file demo_entry(2,1), THEN conjunct2])

section \<open>What the code has read\<close>

lemma read_target_loop_bytes:
  assumes rely: "leaves_bytes S"
  shows "read_target_loop S flag f p (take i b) k w = (Inr (bytes, k'), w')
    \<Longrightarrow> node_bytes (disk_of w) f = Some b \<Longrightarrow> i \<le> length b \<Longrightarrow> bytes = b"
proof (induction "length b - i" arbitrary: i k w rule: less_induct)
  case less
  note frame = exchange_invariant.axioms(1) [OF bytes_frame [OF rely, of f b]]
  from less(2) obtain w1 bs w2 where
    1: "check_cancelled flag w = (Inr (), w1)"
    and 2: "fs_read_at S f (8 * 1024) i w1 = (Inr bs, w2)"
    and 3: "(if bs = [] then (Inr (take i b, k), w2)
       else if MAX_PATCH_FILE_BYTES < i + length bs then
         (Inl (DiffError (Limit (TargetBytes p))), w2)
       else if MAX_PATCH_FILE_LINES < k + newlines bs then
         (Inl (DiffError (Limit (TargetLines p))), w2)
       else read_target_loop S flag f p (take i b @ bs) (k + newlines bs) w2) = (Inr (bytes, k'), w')"
    by (subst (asm) read_target_loop_unfold)
      (auto simp: op_bind_Inr patch_io_def op_fail_def min_absorb2 [OF less(4)] split: if_splits)
  have w1: "node_bytes (disk_of w1) f = Some b"
    using steadyD [of "\<lambda>d. node_bytes d f = Some b", OF flag_steps_keep(2) 1] less(3) .
  have w2: "node_bytes (disk_of w2) f = Some b"
    using steadyD [of "\<lambda>d. node_bytes d f = Some b", OF disk_invariant.read_at_keeps [OF frame] 2 w1] .
  from read_at_bytes [OF rely w1 2] obtain j where j: "bs = take (Suc j) (drop i b)"
    by (cases "moved S (calls w1) (8 * 1024)") (auto simp: moved_def)
  show ?case
  proof (cases "bs = []")
    case True
    with 3 j show ?thesis by simp
  next
    case False
    then have "i < length b" using j by auto
    moreover have "take i b @ bs = take (min (i + Suc j) (length b)) b"
      using j take_add [of i "Suc j" b] by (simp add: min_def)
    ultimately show ?thesis
      using 3 False w2 less(1) [of "min (i + Suc j) (length b)" "k + newlines bs" w2]
      by (auto split: if_splits)
  qed
qed

lemma finished_snapshot_id:
  "finish_file_snapshot_from_content S f captured content w = (Inr sn, w') \<Longrightarrow> fst_id (fsn_stat sn) = f"
  by (auto simp: finish_file_snapshot_from_content_def op_bind_Inr op_fail_eq dest: metadata_id
      split: if_splits)

lemma read_original_content:
  assumes rely: "leaves_bytes S" and run: "read_original S flag p w = (Inr (content, snapshot), w')"
    and bytes: "node_bytes (disk_of w) (fst_id (fsn_stat snapshot)) = Some b"
  shows "from_utf8 b = Inr content"
proof -
  from run obtain f m w1 captured w2 bs k w3 where
    1: "open_regular_file S p w = (Inr (f, m), w1)"
    and 2: "begin_file_snapshot S f w1 = (Inr captured, w2)"
    and 3: "read_target_loop S flag f p [] 0 w2 = (Inr (bs, k), w3)"
    and 4: "finish_file_snapshot_from_content S f captured bs w3 = (Inr snapshot, w')"
    and content: "from_utf8 bs = Inr content"
    by (auto simp: read_original_def read_patch_target_def patch_io_def op_bind_Inr op_fail_eq
        split: if_splits sum.splits)
  have f: "fst_id (fsn_stat snapshot) = f" by (rule finished_snapshot_id [OF 4])
  note frame = exchange_invariant.axioms(1) [OF bytes_frame [OF rely, of f b]]
  have "steady (\<lambda>d. node_bytes d f = Some b) (open_regular_file S p)"
    unfolding open_regular_file_def
    by (intro steady_bind disk_invariant.inspections_keep [OF frame] disk_invariant.checks_keep [OF frame])
  from steadyD [OF this 1] bytes f have w1: "node_bytes (disk_of w1) f = Some b" by simp
  from steadyD [OF disk_invariant.checks_keep(1) [OF frame] 2 w1]
  have "node_bytes (disk_of w2) f = Some b" .
  with read_target_loop_bytes [OF rely, of flag f p 0 b 0 w2 bs k w3] 3 content show ?thesis by simp
qed

lemma opened_entry:
  assumes "leaves_slot S s" and "lookup (disk_of w) s = Some t" and "fs_open S s w = (Inr f, w')"
  shows "f = t"
  using assms
  by (auto simp: fs_open_def inspect_disk_def syscall_def Let_def entry_at_def open_node_def
      leaves_slot_def split: option.splits if_splits)

text \<open>A file is only replaced when it is the one that was read.\<close>

lemma replaced_file:
  assumes rely: "leaves_slot S (dir, name)" and t: "lookup (disk_of w) (dir, name) = Some t"
    and dir: "target_directory S p dir" and name: "target_name p = Inr name"
    and run: "replace_existing_atomically S p content snapshot w = (Inr q, w')"
  shows "fst_id (fsn_stat snapshot) = t"
proof -
  from run obtain dir' w1 expected w2 where
    1: "fs_open_dir S (parent_or_dot p) w = (Inr dir', w1)"
    and 2: "replacement_metadata S (dir', name) snapshot w1 = (Inr expected, w2)"
    unfolding replace_existing_atomically_def Let_def name by (auto simp: op_bind_Inr)
  from opened_directory [OF dir 1] have [simp]: "dir' = dir" .
  from steadyD [OF disk_invariant.inspections_keep(1) [OF slot_frame [OF rely]] 1 t]
  have t1: "lookup (disk_of w1) (dir, name) = Some t" .
  from 2 show ?thesis
    by (auto simp: replacement_metadata_def op_bind_Inr op_fail_eq split: if_splits)
      (metis opened_entry [OF rely t1] regular_file_id metadata_id stat_id)
qed

lemma created_nowhere_else:
  assumes rely: "leaves_slot S (dir, name)" and t: "lookup (disk_of w) (dir, name) = Some t"
  shows "commit_new_file S dir staged name w \<noteq> (Inr u, w')"
proof
  assume "commit_new_file S dir staged name w = (Inr u, w')"
  then obtain w0 w1 where 1: "validate_staging_slot S dir staged w = (Inr (), w0)"
    and 2: "fs_rename_noreplace S (dir, st_path staged) (dir, name) w0 = (Inr (), w1)"
    unfolding commit_new_file_def op_attempt_cases by (auto simp: op_bind_Inr)
  from steadyD [OF disk_invariant.slot_checks_keep(5) [OF slot_frame [OF rely]] 1 t]
  have "lookup (disk_of w0) (dir, name) = Some t" .
  with 2 rely show False
    by (auto simp: fs_rename_noreplace_def syscall_def Let_def leaves_slot_def
        split: option.splits if_splits)
qed

lemma create_new_refused:
  assumes rely: "leaves_slot S (dir, name)" and t: "lookup (disk_of w) (dir, name) = Some t"
    and dir: "target_directory S p dir" and name: "target_name p = Inr name"
  shows "create_new S p content w \<noteq> (Inr u, w')"
proof
  assume "create_new S p content w = (Inr u, w')"
  then obtain dir' w1 staged w2 where
    1: "fs_open_dir S (parent_or_dot p) w = (Inr dir', w1)"
    and 2: "stage_content S dir' content None w1 = (Inr staged, w2)"
    and 3: "commit_new_file S dir' staged name w2 = (Inr u, w')"
    by (auto simp: create_new_def Let_def op_bind_Inr name)
  from opened_directory [OF dir 1] have [simp]: "dir' = dir" .
  note frame = slot_frame [OF rely, of t]
  from steadyD [OF disk_invariant.inspections_keep(1) [OF frame] 1 t]
  have t1: "lookup (disk_of w1) (dir, name) = Some t" .
  from steadyD [OF gives_keeps [OF disk_invariant.stage_content_gives [OF frame]] 2 t1]
  have "lookup (disk_of w2) (dir, name) = Some t" .
  from created_nowhere_else [OF rely this] 3 show False by simp
qed

section \<open>Publication\<close>

text \<open>
  C6. The answer of a publication is true, as long as other processes leave the entry of the target
  alone and change no file in place: replacing a file before publication leaves the entry at the
  old file, after a failed validation the entry still leads to a file, and after a success to one
  with exactly the new content; creating a file over an existing entry fails and leaves it there.
\<close>
theorem publication_is_truthful:
  assumes "leaves_slot S (dir, name)" and "leaves_bytes S"
    and "target_directory S p dir" and "target_name p = Inr name"
    and "lookup (disk_of w) (dir, name) = Some t"
  shows "(case replace_existing_atomically S p content snapshot w of
      (r, w') \<Rightarrow> replace_outcome (dir, name) t content r (disk_of w'))
    \<and> (case create_new S p content w of
      (r, w') \<Rightarrow> isl r \<and> lookup (disk_of w') (dir, name) = Some t)"
proof
  from triple_result [OF replace_existing_triple [OF assms(1-4),
      where t = t and content = content and snapshot = snapshot] assms(5)]
  show "case replace_existing_atomically S p content snapshot w of
      (r, w') \<Rightarrow> replace_outcome (dir, name) t content r (disk_of w')"
    by (auto split: prod.splits sum.splits)
  show "case create_new S p content w of
      (r, w') \<Rightarrow> isl r \<and> lookup (disk_of w') (dir, name) = Some t"
    using create_new_keeps_entry [OF assms(1,5), of p content]
      create_new_refused [OF assms(1,5,3,4), of content]
    by (cases "create_new S p content w"; cases "fst (create_new S p content w)") auto
qed

lemma demo_rely:
  "leaves_slot demo_system s" "leaves_bytes demo_system" "target_directory demo_system p (Node 8 2)"
  by (simp_all add: leaves_slot_def leaves_bytes_def target_directory_def demo_system_def)

theorem publication_is_truthful_witness:
  "\<forall>content snapshot. case replace_existing_atomically demo_system [NormalComp [102]] content snapshot demo_world of
     (r, w') \<Rightarrow> replace_outcome (Node 8 2, [102]) (Node 8 3) content r (disk_of w')"
  by (intro allI) (rule publication_is_truthful [OF demo_rely demo_target(3) demo_entry(1), THEN conjunct1])

section \<open>A successful patch\<close>

lemma apply_hunks_success:
  assumes "fst (apply_hunks flag original hs n) = Inr out"
  shows "\<exists>ls. patches 0 hs (split_inclusive original) ls \<and> out = concat ls"
proof -
  have "fst (apply_hunks never original hs n) = Inr out"
    using assms apply_from_cancel [of flag "split_inclusive original" hs 0 "[]" n]
    by (auto simp: apply_hunks_def unless_cancelled_def)
  then show ?thesis by (simp add: apply_hunks_spec)
qed

lemma prepared_change:
  assumes "fst (prepare_change flag fp (Some original) n) = Inr (Write updated)"
  shows "\<exists>ls. patches 0 (hunks fp) (split_inclusive original) ls \<and> updated = concat ls"
  using assms apply_hunks_success [of flag original "hunks fp" n updated]
  by (auto simp: prepare_change_def split: option.splits prod.splits sum.splits)

lemma resolved_for_write:
  "resolve_for_write S c requested w = (Inr resolved, w') \<Longrightarrow>
     relative_request_path c requested = Inr (rp_relative resolved)"
  unfolding resolve_for_write_def op_bind_Inr [of "op_result _"] op_attempt_cases
  by (auto simp: resolve_existing_def op_bind_Inr op_fail_eq split: if_splits option.splits)

text \<open>What a successful run did, step by step.\<close>

lemma applied_patch_steps:
  assumes parsed: "fst (parse_patch flag patch (loads w)) = Inr [fp]"
    and target: "target_path fp = Inr requested" "relative_request_path c requested = Inr p"
    and run: "apply_unified_patch S flag c patch w = (Inr result, w')"
  obtains w1 resolved w2 original w3 updated w4 w5 recovery where
    "disk_of w1 = disk_of w"
    and "resolve_for_write S c requested w1 = (Inr resolved, w2)"
    and "(if rp_existed resolved
          then op_bind (read_original S flag p) (\<lambda>r. op_return (Some r))
          else op_return None) w2 = (Inr original, w3)"
    and "with_flag (prepare_change flag fp (map_option fst original)) w3 = (Inr (Write updated), w4)"
    and "check_cancelled flag w4 = (Inr (), w5)"
    and "publish_change S p (map_option snd original) (as_bytes updated) w5 = (Inr recovery, w')"
proof -
  obtain n where "parse_patch flag patch (loads w) = (Inr [fp], n)"
    using parsed by (metis prod.collapse)
  with run have "apply_file_patch S flag c fp (w\<lparr>loads := Suc n\<rparr>) = (Inr result, w')"
    by (auto simp: apply_unified_patch_def op_bind_Inr with_flag_def check_cancelled_def
        split: if_splits)
  with target(1) obtain resolved w2 original w3 change w4 w5 where
    2: "resolve_for_write S c requested (w\<lparr>loads := Suc n\<rparr>) = (Inr resolved, w2)"
    and 3: "(if rp_existed resolved
              then op_bind (read_original S flag (rp_relative resolved)) (\<lambda>r. op_return (Some r))
              else op_return None) w2 = (Inr original, w3)"
    and 4: "with_flag (prepare_change flag fp (map_option fst original)) w3 = (Inr change, w4)"
    and 5: "check_cancelled flag w4 = (Inr (), w5)"
    and 6: "(case change of Write updated \<Rightarrow>
       if MAX_PATCH_FILE_BYTES < length (as_bytes updated) then
         op_fail (DiffError (Limit (ResultBytes (rp_relative resolved))))
       else op_bind (publish_change S (rp_relative resolved) (map_option snd original)
              (as_bytes updated)) (\<lambda>recovery.
         op_return \<lparr>changed_files = [display_relative_path (rp_relative resolved)],
                    recovery_files = recovery\<rparr>)) w5 = (Inr result, w')"
    unfolding apply_file_patch_def op_bind_Inr by auto
  have p: "rp_relative resolved = p" using resolved_for_write [OF 2] target(2) by simp
  obtain updated where updated: "change = Write updated" by (cases change)
  from 6 updated p obtain recovery where
    "publish_change S p (map_option snd original) (as_bytes updated) w5 = (Inr recovery, w')"
    by (auto simp: op_bind_Inr op_fail_eq split: if_splits)
  then show thesis using that [OF _ 2 3 [unfolded p] 4 [unfolded updated] 5] by simp
qed

lemma flag_steps_disk:
  "with_flag m w = (r, w') \<Longrightarrow> disk_of w' = disk_of w"
  "check_cancelled flag w = (u, w') \<Longrightarrow> disk_of w' = disk_of w"
  by (auto simp: with_flag_def check_cancelled_def split: prod.splits if_splits)

text \<open>
  C5. A patch that is reported as applied was applied: if other processes leave the entry of the target
  alone and change no file in place, then the old file was text, the hunks turn its lines into new
  ones, and the entry of the target leads to a file with exactly those. Nothing between reading the
  old file and publishing the new one is lost.
\<close>
theorem applied_patch_is_published:
  assumes rely: "leaves_slot S (dir, name)" and bytes: "leaves_bytes S"
    and parsed: "fst (parse_patch flag patch (loads w)) = Inr [fp]"
    and target: "target_path fp = Inr requested" "relative_request_path c requested = Inr p"
    and place: "target_directory S p dir" "target_name p = Inr name"
    and old: "lookup (disk_of w) (dir, name) = Some t" "node_bytes (disk_of w) t = Some old"
    and run: "apply_unified_patch S flag c patch w = (Inr result, w')"
  shows "\<exists>original ls f. from_utf8 old = Inr original
    \<and> patches 0 (hunks fp) (split_inclusive original) ls
    \<and> lookup (disk_of w') (dir, name) = Some f
    \<and> node_bytes (disk_of w') f = Some (as_bytes (concat ls))"
proof -
  note slot = slot_frame [OF rely, of t]
  note held = exchange_invariant.axioms(1) [OF bytes_frame [OF bytes, of t old]]
  obtain w1 resolved w2 original w3 updated w4 w5 recovery where
    1: "disk_of w1 = disk_of w"
    and 2: "resolve_for_write S c requested w1 = (Inr resolved, w2)"
    and 3: "(if rp_existed resolved
          then op_bind (read_original S flag p) (\<lambda>r. op_return (Some r))
          else op_return None) w2 = (Inr original, w3)"
    and 4: "with_flag (prepare_change flag fp (map_option fst original)) w3 = (Inr (Write updated), w4)"
    and 5: "check_cancelled flag w4 = (Inr (), w5)"
    and 6: "publish_change S p (map_option snd original) (as_bytes updated) w5 = (Inr recovery, w')"
    by (rule applied_patch_steps [OF parsed target run])
  have t2: "lookup (disk_of w2) (dir, name) = Some t" "node_bytes (disk_of w2) t = Some old"
    by (rule steadyD [OF disk_invariant.resolve_keeps(2) [OF slot] 2 old(1) [folded 1]],
        rule steadyD [OF disk_invariant.resolve_keeps(2) [OF held] 2 old(2) [folded 1]])
  have w5: "disk_of w5 = disk_of w3" using flag_steps_disk(1) [OF 4] flag_steps_disk(2) [OF 5] by simp
  show ?thesis
  proof (cases "rp_existed resolved")
    case True
    with 3 obtain content snapshot where original: "original = Some (content, snapshot)"
      and read: "read_original S flag p w2 = (Inr (content, snapshot), w3)"
      by (auto simp: op_bind_Inr)
    from steadyD [OF disk_invariant.read_original_keeps [OF slot] read t2(1)]
    have t5: "lookup (disk_of w5) (dir, name) = Some t" by (simp add: w5)
    from 6 original obtain q where
      run5: "replace_existing_atomically S p (as_bytes updated) snapshot w5 = (Inr q, w')"
      by (auto simp: publish_change_def op_bind_Inr)
    from replaced_file [OF rely t5 place run5] t2(2) read_original_content [OF bytes read]
    have content: "from_utf8 old = Inr content" by simp
    from 4 original have "fst (prepare_change flag fp (Some content) (loads w3)) = Inr (Write updated)"
      by (auto simp: with_flag_def split: prod.splits)
    with prepared_change content triple_result [OF replace_existing_triple [OF rely bytes place,
        where t = t and content = "as_bytes updated" and snapshot = snapshot] t5] run5
    show ?thesis by fastforce
  next
    case False
    with 3 6 t2(1) w5 create_new_refused [OF rely _ place] show ?thesis
      by (auto simp: publish_change_def op_bind_Inr)
  qed
qed

theorem applied_patch_is_published_witness:
  "\<exists>original ls f. from_utf8 demo_text = Inr original
     \<and> patches 0 (hunks demo_patch) (split_inclusive original) ls
     \<and> lookup (disk_of (snd demo_change)) (Node 8 2, [102]) = Some f
     \<and> node_bytes (disk_of (snd demo_change)) f = Some (as_bytes (concat ls))"
proof -
  obtain result w' where change: "demo_change = (Inr result, w')"
    using demo_change_succeeds by (metis isl_def obj_sumE prod.collapse)
  have "fst (parse_patch never (print_patch old_start [demo_patch]) (loads demo_world)) = Inr [demo_patch]"
    by (rule parse_print_patch [OF demo_patch_printable(1) _ demo_patch_printable(2)]) simp
  from applied_patch_is_published [OF demo_rely(1,2) this demo_target(1,2) demo_rely(3)
      demo_target(3) demo_entry change [unfolded demo_change_def]]
  show ?thesis by (simp add: change)
qed

end
