(* ===== verification/Literal_Search.thy ===== *)
theory Literal_Search
  imports Prelude
begin

text \<open>
  The literal matcher of search-files (\<open>LiteralPattern\<close> of crates/capability-coding/src/search.rs): a
  table of fallbacks, built once, and a state that is advanced byte by byte. The loops index both
  vectors; \<open>None\<close> is an index out of range, a panic, or a loop that does not end. Both are proved
  not to happen, and a state reaches the length of the needle exactly where the needle ends.
\<close>

section \<open>The code\<close>

record literal_pattern =
  lp_needle :: "nat list"
  lp_fallback :: "nat list"

definition at_index :: "'a list \<Rightarrow> nat \<Rightarrow> 'a option" where
  "at_index xs i = (if i < length xs then Some (xs ! i) else None)"

partial_function (option) fall_back :: "nat list \<Rightarrow> nat list \<Rightarrow> nat \<Rightarrow> nat \<Rightarrow> nat option" where
  "fall_back needle fallback byte matched =
     (if 0 < matched then
        Option.bind (at_index needle matched) (\<lambda>b.
          if byte \<noteq> b then
            Option.bind (at_index fallback (matched - 1)) (fall_back needle fallback byte)
          else Some matched)
      else Some matched)"

declare fall_back.simps [code]

definition match_byte :: "nat list \<Rightarrow> nat list \<Rightarrow> nat \<Rightarrow> nat \<Rightarrow> nat option" where
  "match_byte needle fallback matched byte =
     Option.bind (fall_back needle fallback byte matched) (\<lambda>k.
     Option.bind (at_index needle k) (\<lambda>b. Some (if byte = b then k + 1 else k)))"

fun build_fallback :: "nat list \<Rightarrow> nat list \<Rightarrow> nat \<Rightarrow> nat list \<Rightarrow> nat list option" where
  "build_fallback needle fallback matched [] = Some fallback"
| "build_fallback needle fallback matched (index # rest) =
     Option.bind (at_index needle index) (\<lambda>byte.
     Option.bind (match_byte needle fallback matched byte) (\<lambda>k.
       build_fallback needle (fallback[index := k]) k rest))"

definition literal_pattern_new :: "nat list \<Rightarrow> literal_pattern option" where
  "literal_pattern_new needle =
     Option.bind (build_fallback needle (replicate (length needle) 0) 0 [1..<length needle])
       (\<lambda>fallback. Some \<lparr>lp_needle = needle, lp_fallback = fallback\<rparr>)"

definition advance :: "literal_pattern \<Rightarrow> nat \<Rightarrow> nat \<Rightarrow> nat option" where
  "advance P matched byte = match_byte (lp_needle P) (lp_fallback P) matched byte"

section \<open>What a state means\<close>

text \<open>The state after a text is the longest prefix of the needle that the text ends with.\<close>

definition overlap :: "nat list \<Rightarrow> nat list \<Rightarrow> nat \<Rightarrow> bool" where
  "overlap needle s k \<longleftrightarrow>
     k \<le> length needle \<and> suffix (take k needle) s
     \<and> (\<forall>j. j \<le> length needle \<longrightarrow> suffix (take j needle) s \<longrightarrow> j \<le> k)"

text \<open>The first \<open>n\<close> fallbacks: the longest proper border of each prefix of the needle.\<close>

definition table_ok :: "nat list \<Rightarrow> nat list \<Rightarrow> nat \<Rightarrow> bool" where
  "table_ok needle fallback n \<longleftrightarrow>
     n \<le> length fallback \<and> (\<forall>i < n. overlap needle (tl (take (Suc i) needle)) (fallback ! i))"

lemma overlap_Nil: "overlap needle [] 0"
  by (auto simp: overlap_def)

lemma overlap_less: "overlap needle s k \<Longrightarrow> length s < length needle \<Longrightarrow> k < length needle"
  by (auto simp: overlap_def dest!: suffix_length_le)

text \<open>Two suffixes of the same list are comparable.\<close>

lemma suffix_shorter: "suffix xs zs \<Longrightarrow> suffix ys zs \<Longrightarrow> length xs \<le> length ys \<Longrightarrow> suffix xs ys"
  using suffix_length_suffix by blast

lemma shorter_border:
  assumes "suffix (take j needle) s" "suffix (take m needle) s" "j \<le> m" "m \<le> length needle"
  shows "suffix (take j needle) (take m needle)"
  using suffix_shorter [OF assms(1,2)] assms(3,4) by simp

lemma proper_border:
  assumes "suffix (take j needle) (take m needle)" "j < m" "m \<le> length needle"
  shows "suffix (take j needle) (tl (take m needle))"
proof -
  from assms(1) obtain zs where zs: "take m needle = zs @ take j needle" by (auto simp: suffix_def)
  with assms(2,3) have "zs \<noteq> []" by (metis append_Nil length_take min.absorb2 nat_neq_iff order.strict_implies_order order.strict_trans2)
  with zs show ?thesis by (cases zs) (auto intro: suffixI)
qed

lemma suffix_snoc_take:
  assumes "j < length needle"
  shows "suffix (take (Suc j) needle) (s @ [byte]) \<longleftrightarrow> needle ! j = byte \<and> suffix (take j needle) s"
  unfolding take_Suc_conv_app_nth [OF assms] snoc_suffix_snoc ..

section \<open>The loops\<close>

text \<open>Falling back ends at the longest border that continues with the byte, or at zero.\<close>

lemma fall_back_border:
  assumes "table_ok needle fallback matched" and "matched < length needle"
  shows "\<exists>k. fall_back needle fallback byte matched = Some k \<and> k \<le> matched
    \<and> suffix (take k needle) (take matched needle) \<and> (k = 0 \<or> needle ! k = byte)
    \<and> (\<forall>j \<le> matched. suffix (take j needle) (take matched needle) \<longrightarrow> needle ! j = byte \<longrightarrow> j \<le> k)"
  using assms
proof (induction matched rule: less_induct)
  case (less m)
  show ?case
  proof (cases "0 < m \<and> needle ! m \<noteq> byte")
    case False
    then show ?thesis
      using less.prems(2) by (subst fall_back.simps) (auto simp: at_index_def)
  next
    case True
    let ?k = "fallback ! (m - 1)"
    from True less.prems have border: "overlap needle (tl (take m needle)) ?k"
      and bound: "m \<le> length fallback"
      by (auto simp: table_ok_def dest!: spec [of _ "m - 1"])
    then have k: "?k < m" "suffix (take ?k needle) (tl (take m needle))"
      using True less.prems(2) by (auto simp: overlap_def dest!: suffix_length_le)
    have tab: "table_ok needle fallback ?k" using less.prems(1) k(1) by (auto simp: table_ok_def)
    have whole: "suffix (take ?k needle) (take m needle)"
      using k(2) by (meson suffix_order.trans suffix_tl)
    have "fall_back needle fallback byte m = fall_back needle fallback byte ?k"
      using True less.prems(2) bound by (subst fall_back.simps) (auto simp: at_index_def)
    moreover from less.IH [OF k(1) tab] k(1) less.prems(2) obtain k' where
      k': "fall_back needle fallback byte ?k = Some k'" "k' \<le> ?k"
        "suffix (take k' needle) (take ?k needle)" "k' = 0 \<or> needle ! k' = byte"
        "\<forall>j \<le> ?k. suffix (take j needle) (take ?k needle) \<longrightarrow> needle ! j = byte \<longrightarrow> j \<le> k'"
      by auto
    moreover have "j \<le> k'" if "j \<le> m" "suffix (take j needle) (take m needle)" "needle ! j = byte" for j
    proof -
      from that True have "j < m" by (cases "j = m") auto
      with that(2) less.prems(2) have "suffix (take j needle) (tl (take m needle))"
        by (intro proper_border) auto
      with border \<open>j < m\<close> less.prems(2) have "j \<le> ?k" by (auto simp: overlap_def)
      moreover from this have "suffix (take j needle) (take ?k needle)"
        using shorter_border [OF that(2) whole] k(1) less.prems(2) by simp
      ultimately show ?thesis using k'(5) that(3) by blast
    qed
    ultimately show ?thesis
      using k(1) suffix_order.trans [OF k'(3) whole] by (auto intro!: exI [of _ k'])
  qed
qed

lemma match_byte_overlap:
  assumes "table_ok needle fallback m" and "overlap needle s m" and "m < length needle"
  shows "\<exists>k. match_byte needle fallback m byte = Some k \<and> overlap needle (s @ [byte]) k"
proof -
  from fall_back_border [OF assms(1,3), of byte] obtain k where
    k: "fall_back needle fallback byte m = Some k" "k \<le> m" "k = 0 \<or> needle ! k = byte"
    and border: "suffix (take k needle) (take m needle)"
    and longest: "\<forall>j \<le> m. suffix (take j needle) (take m needle) \<longrightarrow> needle ! j = byte \<longrightarrow> j \<le> k"
    by blast
  have s: "suffix (take m needle) s" "\<And>j. j \<le> length needle \<Longrightarrow> suffix (take j needle) s \<Longrightarrow> j \<le> m"
    using assms(2) by (auto simp: overlap_def)
  have limit: "j \<le> k" if "j < length needle" "suffix (take (Suc j) needle) (s @ [byte])" for j
  proof -
    from that have j: "needle ! j = byte" "suffix (take j needle) s"
      unfolding suffix_snoc_take [OF that(1)] by blast+
    with s(2) that(1) have "j \<le> m" by simp
    with shorter_border [OF j(2) s(1)] assms(3) longest j(1) show ?thesis by simp
  qed
  have less: "k < length needle" using k(2) assms(3) by simp
  have ks: "suffix (take k needle) s" using border s(1) suffix_order.trans by blast
  have "overlap needle (s @ [byte]) (if byte = needle ! k then k + 1 else k)"
    unfolding overlap_def
  proof (intro conjI allI impI)
    show "(if byte = needle ! k then k + 1 else k) \<le> length needle" using less by simp
    show "suffix (take (if byte = needle ! k then k + 1 else k) needle) (s @ [byte])"
      using ks k(3) suffix_snoc_take [OF less, of s byte] by auto
    fix j assume j: "j \<le> length needle" "suffix (take j needle) (s @ [byte])"
    show "j \<le> (if byte = needle ! k then k + 1 else k)"
    proof (cases j)
      case (Suc i)
      with j limit [of i] have "i \<le> k" by simp
      moreover have "i \<noteq> k" if "byte \<noteq> needle ! k"
        using that j Suc suffix_snoc_take [of i needle s byte] by auto
      ultimately show ?thesis using Suc by auto
    qed simp
  qed
  with k(1) less show ?thesis by (simp add: match_byte_def at_index_def)
qed

lemma table_ok_mono: "table_ok needle fallback n \<Longrightarrow> m \<le> n \<Longrightarrow> table_ok needle fallback m"
  by (auto simp: table_ok_def)

lemma build_fallback_ok:
  assumes "table_ok needle fallback i" and "overlap needle (tl (take i needle)) m"
    and "length fallback = length needle" and "0 < i"
  shows "\<exists>fb. build_fallback needle fallback m [i..<length needle] = Some fb
    \<and> length fb = length needle \<and> table_ok needle fb (max i (length needle))"
  using assms
proof (induction "length needle - i" arbitrary: i fallback m)
  case 0
  then have "i = length needle \<or> length needle < i" by auto
  then show ?case
    using 0 by (auto simp: table_ok_def)
next
  case (Suc d)
  then have i: "i < length needle" by simp
  have m: "m < i" using Suc.prems(2,4) i by (auto simp: overlap_def dest!: suffix_length_le)
  from match_byte_overlap [OF table_ok_mono [OF Suc.prems(1)] Suc.prems(2), of "needle ! i"] m i
  obtain k where k: "match_byte needle fallback m (needle ! i) = Some k"
    "overlap needle (tl (take i needle) @ [needle ! i]) k" by auto
  have tl: "tl (take (Suc i) needle) = tl (take i needle) @ [needle ! i]"
    using i Suc.prems(4) by (cases needle; cases i) (auto simp: take_Suc_conv_app_nth)
  have "table_ok needle (fallback[i := k]) (Suc i)"
    using Suc.prems(1,3) k(2) i by (auto simp: table_ok_def less_Suc_eq nth_list_update tl)
  moreover have "d = length needle - Suc i" using Suc.hyps(2) by simp
  ultimately show ?case
    using Suc.hyps(1) [of "Suc i" "fallback[i := k]" k] Suc.prems(3) k i
    by (auto simp: upt_conv_Cons at_index_def tl max_def)
qed

text \<open>Building a pattern always ends, and its table is right.\<close>

definition pattern_ok :: "literal_pattern \<Rightarrow> bool" where
  "pattern_ok P \<longleftrightarrow> lp_needle P \<noteq> [] \<and> table_ok (lp_needle P) (lp_fallback P) (length (lp_needle P))"

lemma literal_pattern_new_ok:
  assumes "needle \<noteq> []"
  shows "\<exists>P. literal_pattern_new needle = Some P \<and> lp_needle P = needle \<and> pattern_ok P"
proof -
  have "table_ok needle (replicate (length needle) 0) 1"
    using assms by (cases needle) (auto simp: table_ok_def overlap_def)
  moreover have "overlap needle (tl (take 1 needle)) 0"
    using assms by (cases needle) (simp_all add: overlap_Nil)
  ultimately show ?thesis
    using build_fallback_ok [of needle "replicate (length needle) 0" 1 0] assms
    by (cases needle) (auto simp: literal_pattern_new_def pattern_ok_def max_def)
qed

lemma advance_overlap:
  assumes "pattern_ok P" and "overlap (lp_needle P) s m" and "m < length (lp_needle P)"
  shows "\<exists>k. advance P m byte = Some k \<and> overlap (lp_needle P) (s @ [byte]) k"
  unfolding advance_def
  by (rule match_byte_overlap [OF table_ok_mono assms(2,3)])
    (use assms in \<open>auto simp: pattern_ok_def\<close>)

lemma full_overlap: "overlap needle s (length needle) \<longleftrightarrow> suffix needle s"
  by (auto simp: overlap_def)

lemma overlap_unique: "overlap needle s j \<Longrightarrow> overlap needle s k \<Longrightarrow> j = k"
  by (auto simp: overlap_def intro: antisym)

end
