(* ===== verification/Search_Lines.thy ===== *)
theory Search_Lines
  imports Literal_Search Utf8 Tool_Support
begin

text \<open>
  The state that search-files keeps while it reads a file in chunks (crates/capability-coding/src/
  search.rs): the current line (\<open>LineState\<close>) and the UTF-8 validation (\<open>Utf8Validator\<close>). Both are
  proved to depend only on the bytes read, not on how the reads cut them.
\<close>

definition MAX_SEARCH_LINE_BYTES :: nat where
  "MAX_SEARCH_LINE_BYTES = 8 * 1024"

section \<open>Lines\<close>

record line_state =
  ln_visible :: "nat list"
  ln_bytes_seen :: nat
  ln_matcher_state :: nat
  ln_matched :: bool
  ln_truncated :: bool

definition line_default :: line_state where
  "line_default =
     \<lparr>ln_visible = [], ln_bytes_seen = 0, ln_matcher_state = 0, ln_matched = False,
      ln_truncated = False\<rparr>"

text \<open>The loop over the bytes: the state of the matcher, and whether it broke off at a match.\<close>

fun match_bytes :: "literal_pattern \<Rightarrow> nat \<Rightarrow> nat list \<Rightarrow> (nat \<times> bool) option" where
  "match_bytes P matched [] = Some (matched, False)"
| "match_bytes P matched (byte # bytes) =
     Option.bind (advance P matched byte) (\<lambda>k.
       if k = length (lp_needle P) then Some (k, True) else match_bytes P k bytes)"

definition line_feed :: "literal_pattern \<Rightarrow> line_state \<Rightarrow> nat list \<Rightarrow> line_state option" where
  "line_feed P line bytes =
     (let remaining = MAX_SEARCH_LINE_BYTES - length (ln_visible line);
          retained = min remaining (length bytes);
          line1 = line\<lparr>ln_bytes_seen := ln_bytes_seen line + length bytes,
                       ln_visible := ln_visible line @ take retained bytes,
                       ln_truncated := ln_truncated line \<or> retained < length bytes\<rparr>
      in if ln_matched line then Some line1
         else Option.bind (match_bytes P (ln_matcher_state line) bytes) (\<lambda>(k, matched).
           Some (line1\<lparr>ln_matcher_state := k, ln_matched := matched\<rparr>)))"

definition reset_for_next_line :: "line_state \<Rightarrow> line_state" where
  "reset_for_next_line line =
     line\<lparr>ln_visible := [], ln_bytes_seen := 0, ln_matcher_state := 0, ln_matched := False,
          ln_truncated := False\<rparr>"

lemma reset_default [simp]: "reset_for_next_line line = line_default"
  by (simp add: reset_for_next_line_def line_default_def)

text \<open>The line holds what was fed since the last reset.\<close>

definition line_holds :: "literal_pattern \<Rightarrow> nat list \<Rightarrow> line_state \<Rightarrow> bool" where
  "line_holds P s line \<longleftrightarrow>
     ln_visible line = take MAX_SEARCH_LINE_BYTES s \<and> ln_bytes_seen line = length s
     \<and> (ln_truncated line \<longleftrightarrow> MAX_SEARCH_LINE_BYTES < length s)
     \<and> (ln_matched line \<longleftrightarrow> sublist (lp_needle P) s)
     \<and> (\<not> ln_matched line \<longrightarrow> overlap (lp_needle P) s (ln_matcher_state line))"

lemma line_holds_default: "pattern_ok P \<Longrightarrow> line_holds P [] line_default"
  by (auto simp: line_holds_def line_default_def overlap_Nil pattern_ok_def)

lemma match_bytes_sublist:
  assumes "pattern_ok P" and "overlap (lp_needle P) s m" and "\<not> sublist (lp_needle P) s"
  shows "\<exists>k b. match_bytes P m bytes = Some (k, b) \<and> (b \<longleftrightarrow> sublist (lp_needle P) (s @ bytes))
    \<and> (\<not> b \<longrightarrow> overlap (lp_needle P) (s @ bytes) k)"
  using assms(2,3)
proof (induction bytes arbitrary: s m)
  case (Cons byte bytes)
  have "m < length (lp_needle P)"
  proof (rule ccontr)
    assume "\<not> m < length (lp_needle P)"
    with Cons.prems(1) have "m = length (lp_needle P)" by (simp add: overlap_def)
    with Cons.prems show False by (simp add: full_overlap suffix_imp_sublist)
  qed
  from advance_overlap [OF assms(1) Cons.prems(1) this, of byte] obtain k where
    k: "advance P m byte = Some k" "overlap (lp_needle P) (s @ [byte]) k" by blast
  show ?case
  proof (cases "k = length (lp_needle P)")
    case True
    with k(2) have "suffix (lp_needle P) (s @ [byte])" by (simp add: full_overlap)
    then have "sublist (lp_needle P) ((s @ [byte]) @ bytes)"
      by (meson sublist_append suffix_imp_sublist)
    with k True show ?thesis by (intro exI [of _ k] exI [of _ True]) simp
  next
    case False
    then have "\<not> suffix (lp_needle P) (s @ [byte])"
      using k(2) overlap_unique full_overlap by blast
    with Cons.prems(2) have "\<not> sublist (lp_needle P) (s @ [byte])" by (simp add: sublist_snoc)
    from Cons.IH [OF k(2) this] k False show ?thesis by simp
  qed
qed (auto intro: exI [of _ False])

lemma line_feed_holds:
  assumes "pattern_ok P" and "line_holds P s line"
  shows "\<exists>line'. line_feed P line bytes = Some line' \<and> line_holds P (s @ bytes) line'"
proof -
  let ?m = MAX_SEARCH_LINE_BYTES
  let ?k = "min (?m - length (ln_visible line)) (length bytes)"
  have vis: "ln_visible line @ take ?k bytes = take ?m (s @ bytes)"
    using assms(2) by (auto simp: line_holds_def min_def)
  have trunc: "ln_truncated line \<or> ?k < length bytes \<longleftrightarrow> ?m < length (s @ bytes)"
    using assms(2) by (auto simp: line_holds_def)
  show ?thesis
  proof (cases "ln_matched line")
    case True
    then have "sublist (lp_needle P) (s @ bytes)"
      using assms(2) by (simp add: line_holds_def sublist_append)
    with True assms(2) vis trunc show ?thesis
      by (simp add: line_feed_def line_holds_def Let_def)
  next
    case False
    with assms(2) have "overlap (lp_needle P) s (ln_matcher_state line)" "\<not> sublist (lp_needle P) s"
      by (auto simp: line_holds_def)
    from match_bytes_sublist [OF assms(1) this, of bytes] False assms(2) vis trunc show ?thesis
      by (auto simp: line_feed_def line_holds_def Let_def)
  qed
qed

section \<open>Validation\<close>

text \<open>The pending bytes after a chunk; \<open>None\<close> is an invalid sequence.\<close>

definition utf8_feed :: "nat list \<Rightarrow> nat list \<Rightarrow> nat list option" where
  "utf8_feed pending bytes =
     (let buffer = pending @ bytes
      in case from_utf8 buffer of
           Inr _ \<Rightarrow> Some []
         | Inl e \<Rightarrow> if error_len e = None then Some (drop (valid_up_to e) buffer) else None)"

definition utf8_finish :: "nat list \<Rightarrow> bool" where
  "utf8_finish pending \<longleftrightarrow> pending = []"

definition visible_utf8_prefix :: "nat list \<Rightarrow> unit + ustring" where
  "visible_utf8_prefix bytes =
     (case from_utf8 bytes of
        Inr text \<Rightarrow> Inr text
      | Inl e \<Rightarrow>
          if error_len e = None then map_err (\<lambda>_. ()) (from_utf8 (take (valid_up_to e) bytes))
          else Inl ())"

text \<open>The pending bytes are what is left after the longest text read.\<close>

definition pending_holds :: "nat list \<Rightarrow> nat list \<Rightarrow> bool" where
  "pending_holds s pending \<longleftrightarrow>
     (\<exists>good. s = good @ pending \<and> is_text good \<and> \<not> is_broken pending
       \<and> (is_text pending \<longrightarrow> pending = []))"

lemma pending_holds_Nil: "pending_holds [] []"
  by (simp add: pending_holds_def)

lemma utf8_feed_holds:
  assumes "pending_holds s pending"
  shows "case utf8_feed pending bytes of
      None \<Rightarrow> is_broken (s @ bytes)
    | Some pending' \<Rightarrow> pending_holds (s @ bytes) pending'"
proof -
  let ?b = "pending @ bytes"
  obtain good where good: "s = good @ pending" "is_text good"
    using assms by (auto simp: pending_holds_def)
  show ?thesis
  proof (cases "from_utf8 ?b")
    case (Inl e)
    show ?thesis
    proof (cases "error_len e")
      case None
      note inc = incomplete_split [OF Inl None]
      have "s @ bytes = (good @ take (valid_up_to e) ?b) @ drop (valid_up_to e) ?b"
        using good(1) by (simp del: take_append drop_append)
      moreover have "is_text (good @ take (valid_up_to e) ?b)"
        using inc(1) good(2) by (simp add: text_append)
      ultimately show ?thesis
        using inc Inl None unfolding pending_holds_def by (auto simp: utf8_feed_def Let_def)
    next
      case (Some k)
      with Inl have "is_broken ?b" by (simp add: is_broken_def)
      with good Inl Some show ?thesis by (simp add: utf8_feed_def Let_def text_append)
    qed
  next
    case (Inr t)
    then have "is_text ?b" by (simp add: is_text_iff)
    with good Inr show ?thesis
      by (auto simp: utf8_feed_def Let_def pending_holds_def text_append)
  qed
qed

lemma pending_holds_text: "pending_holds s pending \<Longrightarrow> utf8_finish pending \<longleftrightarrow> is_text s"
  by (auto simp: pending_holds_def utf8_finish_def text_append)

lemma pending_holds_sound: "pending_holds s pending \<Longrightarrow> \<not> is_broken s"
  by (auto simp: pending_holds_def text_append dest: text_not_broken)

text \<open>A prefix of text has a visible prefix: the validation of a line cannot drift.\<close>

lemma visible_prefix_text:
  assumes "is_text s"
  shows "\<exists>t. visible_utf8_prefix (take n s) = Inr t"
proof (cases "from_utf8 (take n s)")
  case (Inl e)
  have "\<not> is_broken (take n s)"
    using is_broken_append [of "take n s" "drop n s"] text_not_broken [OF assms] by auto
  with Inl have "error_len e = None" by (simp add: is_broken_def)
  with incomplete_split(1) [OF Inl this] Inl show ?thesis
    by (auto simp: visible_utf8_prefix_def is_text_iff)
qed (simp add: visible_utf8_prefix_def)

end
