(* ===== verification/Search_Tool.thy ===== *)
theory Search_Tool
  imports Search_Lines Workspace
begin

text \<open>
  The search tool (crates/capability-coding/src/search.rs): the results and their budgets, one file
  read in chunks, the walk over a directory tree with an explicit stack, and the output that is
  fitted into its budget. Counters are natural numbers: they stay below the budgets, far from the
  end of their types.
\<close>

definition MAX_SEARCH_MATCHES :: nat where "MAX_SEARCH_MATCHES = 200"

definition MAX_SEARCH_QUERY_BYTES :: nat where "MAX_SEARCH_QUERY_BYTES = 8 * 1024"

definition MAX_SEARCH_QUERY_METADATA_SERIALIZED_BYTES :: nat where
  "MAX_SEARCH_QUERY_METADATA_SERIALIZED_BYTES = 4 * 1024"

definition MAX_SEARCH_PATH_BYTES :: nat where "MAX_SEARCH_PATH_BYTES = 8 * 1024"

definition MAX_SEARCH_PATH_METADATA_SERIALIZED_BYTES :: nat where
  "MAX_SEARCH_PATH_METADATA_SERIALIZED_BYTES = 4 * 1024"

definition MAX_SEARCH_DIRECTORY_ENTRIES :: nat where "MAX_SEARCH_DIRECTORY_ENTRIES = 100000"

definition MAX_SEARCH_DIRECTORIES :: nat where "MAX_SEARCH_DIRECTORIES = 10000"

definition MAX_SEARCH_ENTRIES :: nat where "MAX_SEARCH_ENTRIES = 100000"

definition MAX_SEARCH_DEPTH :: nat where "MAX_SEARCH_DEPTH = 256"

definition MAX_SEARCH_FILES :: nat where "MAX_SEARCH_FILES = 100000"

definition MAX_SEARCH_BYTES :: nat where "MAX_SEARCH_BYTES = 256 * 1024 * 1024"

section \<open>Results\<close>

record 'v search_results =
  sr_matches :: "'v list"
  sr_serialized_bytes :: nat
  sr_bytes_searched :: nat
  sr_files_searched :: nat
  sr_directories_visited :: nat
  sr_entries_visited :: nat
  sr_binary_files_skipped :: nat
  sr_lines_truncated :: nat
  sr_truncated :: bool
  sr_limit_reached :: bool

definition results_default :: "'v search_results" where
  "results_default =
     \<lparr>sr_matches = [], sr_serialized_bytes = 0, sr_bytes_searched = 0, sr_files_searched = 0,
      sr_directories_visited = 0, sr_entries_visited = 0, sr_binary_files_skipped = 0,
      sr_lines_truncated = 0, sr_truncated = False, sr_limit_reached = False\<rparr>"

record search_checkpoint =
  cp_matches_len :: nat
  cp_serialized_bytes :: nat
  cp_lines_truncated :: nat
  cp_truncated :: bool
  cp_limit_reached :: bool

definition mark_limit_reached :: "'v search_results \<Rightarrow> 'v search_results" where
  "mark_limit_reached results = results\<lparr>sr_truncated := True, sr_limit_reached := True\<rparr>"

definition record_directory :: "'v search_results \<Rightarrow> bool \<times> 'v search_results" where
  "record_directory results =
     (if sr_directories_visited results = MAX_SEARCH_DIRECTORIES then (False, mark_limit_reached results)
      else (True, results\<lparr>sr_directories_visited := sr_directories_visited results + 1\<rparr>))"

definition record_entry :: "'v search_results \<Rightarrow> bool \<times> 'v search_results" where
  "record_entry results =
     (if sr_entries_visited results = MAX_SEARCH_ENTRIES then (False, mark_limit_reached results)
      else (True, results\<lparr>sr_entries_visited := sr_entries_visited results + 1\<rparr>))"

definition checkpoint :: "'v search_results \<Rightarrow> search_checkpoint" where
  "checkpoint results =
     \<lparr>cp_matches_len = length (sr_matches results), cp_serialized_bytes = sr_serialized_bytes results,
      cp_lines_truncated = sr_lines_truncated results, cp_truncated = sr_truncated results,
      cp_limit_reached = sr_limit_reached results\<rparr>"

definition discard_binary_file ::
    "search_checkpoint \<Rightarrow> 'v search_results \<Rightarrow> 'v search_results" where
  "discard_binary_file cp results =
     results\<lparr>sr_matches := take (cp_matches_len cp) (sr_matches results),
             sr_serialized_bytes := cp_serialized_bytes cp,
             sr_lines_truncated := cp_lines_truncated cp,
             sr_truncated := cp_truncated cp,
             sr_limit_reached := cp_limit_reached cp,
             sr_binary_files_skipped := sr_binary_files_skipped results + 1\<rparr>"

definition discard_incomplete_file ::
    "search_checkpoint \<Rightarrow> 'v search_results \<Rightarrow> 'v search_results" where
  "discard_incomplete_file cp results =
     results\<lparr>sr_matches := take (cp_matches_len cp) (sr_matches results),
             sr_serialized_bytes := cp_serialized_bytes cp,
             sr_lines_truncated := cp_lines_truncated cp,
             sr_truncated := True, sr_limit_reached := True\<rparr>"

section \<open>One file\<close>

text \<open>An early return with the output of the tool, or a panic of the matcher.\<close>

datatype 'v search_error = SearchFailed "'v tool_output" | SearchPanicked

type_synonym ('v, 'a) search_op = "('v search_error, world, 'a) op"

definition strip_carriage_return :: "ustring \<Rightarrow> ustring" where
  "strip_carriage_return text = (if text \<noteq> [] \<and> last text = 13 then butlast text else text)"

definition match_value :: "'v json_build \<Rightarrow> ustring \<Rightarrow> nat \<Rightarrow> ustring \<Rightarrow> 'v" where
  "match_value J display_path line_number text =
     js_object J (btree_from
       [(lit ''path'', js_string J display_path), (lit ''line'', js_number J line_number),
        (lit ''text'', js_string J text)])"

definition finish_line ::
    "'v json_read \<Rightarrow> 'v json_build \<Rightarrow> ustring \<Rightarrow> nat \<Rightarrow> line_state \<Rightarrow> 'v search_results
       \<Rightarrow> 'v search_error + 'v search_results" where
  "finish_line R J display_path line_number line results =
     (if \<not> ln_matched line \<or> sr_limit_reached results then Inr results
      else case visible_utf8_prefix (ln_visible line) of
        Inl _ \<Rightarrow> Inl (SearchFailed
          (failure ''workspace_io_error'' (lit ''UTF-8 validation drifted'') False))
      | Inr text \<Rightarrow>
          (let results1 = (if ln_truncated line
                 then results\<lparr>sr_lines_truncated := sr_lines_truncated results + 1, sr_truncated := True\<rparr>
                 else results);
               v = match_value J display_path line_number (strip_carriage_return text);
               serialized_bytes = value_len R v
           in if length (sr_matches results1) = MAX_SEARCH_MATCHES
                 \<or> MAX_TOOL_CONTENT_SERIALIZED_BYTES < sr_serialized_bytes results1 + serialized_bytes
              then Inr (results1\<lparr>sr_truncated := True, sr_limit_reached := True\<rparr>)
              else Inr (results1\<lparr>sr_serialized_bytes := sr_serialized_bytes results1 + serialized_bytes,
                                 sr_matches := sr_matches results1 @ [v]\<rparr>)))"

definition finish_search_file ::
    "'v json_read \<Rightarrow> 'v json_build \<Rightarrow> ustring \<Rightarrow> nat \<Rightarrow> line_state \<Rightarrow> nat list \<Rightarrow> search_checkpoint
       \<Rightarrow> 'v search_results \<Rightarrow> 'v search_error + 'v search_results" where
  "finish_search_file R J display_path line_number line utf8 cp results =
     (if \<not> utf8_finish utf8 then Inr (discard_binary_file cp results)
      else if 0 < ln_bytes_seen line then finish_line R J display_path line_number line results
      else Inr results)"

text \<open>
  The slices of a chunk between its newlines: each but the last ends a line. The result is the
  current line, its number and the results.
\<close>

fun feed_slices ::
    "literal_pattern \<Rightarrow> 'v json_read \<Rightarrow> 'v json_build \<Rightarrow> ustring \<Rightarrow> nat \<Rightarrow> line_state
       \<Rightarrow> 'v search_results \<Rightarrow> nat list list
       \<Rightarrow> 'v search_error + (line_state \<times> nat \<times> 'v search_results)" where
  "feed_slices P R J display_path line_number line results [] = Inr (line, line_number, results)"
| "feed_slices P R J display_path line_number line results (part # parts) =
     (case line_feed P line part of
        None \<Rightarrow> Inl SearchPanicked
      | Some line1 \<Rightarrow>
          if parts = [] then Inr (line1, line_number, results)
          else try_res (finish_line R J display_path line_number line1 results) (\<lambda>results1.
            feed_slices P R J display_path (line_number + 1) (reset_for_next_line line1) results1 parts))"

definition search_failed :: "ustring \<Rightarrow> io_error \<Rightarrow> 'v search_error" where
  "search_failed message source =
     SearchFailed (failure ''workspace_io_error'' (message @ lit '': '' @ io_text source)
       (io_kind source = IoInterrupted))"

definition search_cancelled :: "(nat \<Rightarrow> bool) \<Rightarrow> ('v, unit) search_op" where
  "search_cancelled flag w =
     (if flag (loads w)
      then (Inl (SearchFailed (failure ''tool_cancelled'' (lit ''search_files was cancelled'') False)),
            w\<lparr>loads := loads w + 1\<rparr>)
      else (Inr (), w\<lparr>loads := loads w + 1\<rparr>))"

text \<open>One read of the loop: a probe of one byte when the budget of bytes is used up.\<close>

definition read_chunk ::
    "'h system \<Rightarrow> (nat \<Rightarrow> bool) \<Rightarrow> node_id \<Rightarrow> ustring \<Rightarrow> nat \<Rightarrow> 'v search_results
       \<Rightarrow> ('v, nat list) search_op" where
  "read_chunk S flag f display_path offset results =
     op_bind (search_cancelled flag) (\<lambda>_.
       let remaining = MAX_SEARCH_BYTES - sr_bytes_searched results
       in op_map_err (search_failed (lit ''failed to search '' @ quoted display_path))
            (fs_read_at S f (if remaining = 0 then 1 else min (8 * 1024) remaining) offset))"

lemma read_chunk_length:
  "read_chunk S flag f p offset results w = (Inr bs, w')
     \<Longrightarrow> sr_bytes_searched results < MAX_SEARCH_BYTES
     \<Longrightarrow> length bs \<le> MAX_SEARCH_BYTES - sr_bytes_searched results"
  by (auto simp: read_chunk_def op_bind_Inr fs_read_at_def syscall_def with_node_def moved_def Let_def
      split: option.splits if_splits)

lemma finish_line_counts:
  "finish_line R J p n line results = Inr results1
     \<Longrightarrow> sr_bytes_searched results1 = sr_bytes_searched results
       \<and> sr_entries_visited results1 = sr_entries_visited results"
  by (auto simp: finish_line_def Let_def split: if_splits sum.splits)

lemma feed_slices_counts:
  "feed_slices P R J p n line results parts = Inr (line1, n1, results1)
     \<Longrightarrow> sr_bytes_searched results1 = sr_bytes_searched results
       \<and> sr_entries_visited results1 = sr_entries_visited results"
proof (induction parts arbitrary: n line results)
  case (Cons part parts)
  then show ?case
    by (auto simp: try_res_Inr split: option.splits if_splits dest!: finish_line_counts)
qed simp

text \<open>\<open>offset\<close> is the position of the reader.\<close>

function search_reader ::
    "'h system \<Rightarrow> (nat \<Rightarrow> bool) \<Rightarrow> 'v json_read \<Rightarrow> 'v json_build \<Rightarrow> literal_pattern \<Rightarrow> ustring
       \<Rightarrow> search_checkpoint \<Rightarrow> node_id \<Rightarrow> nat \<Rightarrow> line_state \<Rightarrow> nat \<Rightarrow> nat list \<Rightarrow> 'v search_results
       \<Rightarrow> ('v, 'v search_results) search_op" where
  "search_reader S flag R J P p cp f offset line line_number utf8 results w =
     (case read_chunk S flag f p offset results w of
        (Inl e, w1) \<Rightarrow> (Inl e, w1)
      | (Inr bs, w1) \<Rightarrow>
          if bs = [] then (finish_search_file R J p line_number line utf8 cp results, w1)
          else if MAX_SEARCH_BYTES \<le> sr_bytes_searched results then
            (Inr (discard_incomplete_file cp results), w1)
          else
            let results1 = results\<lparr>sr_bytes_searched := sr_bytes_searched results + length bs\<rparr>
            in case utf8_feed utf8 bs of
                 None \<Rightarrow> (Inr (discard_binary_file cp results1), w1)
               | Some utf81 \<Rightarrow>
                   (case feed_slices P R J p line_number line results1 (split_on 10 bs) of
                      Inl e \<Rightarrow> (Inl e, w1)
                    | Inr (line1, n1, results2) \<Rightarrow>
                        search_reader S flag R J P p cp f (offset + length bs) line1 n1 utf81
                          results2 w1))"
  by pat_completeness auto
termination
  by (relation "measure (\<lambda>(S, flag, R, J, P, p, cp, f, offset, line, n, utf8, results, w).
        MAX_SEARCH_BYTES - sr_bytes_searched results)")
    (auto dest!: feed_slices_counts intro!: diff_less_mono2 simp: Suc_le_eq)

declare search_reader.simps [simp del]

definition search_file ::
    "'h system \<Rightarrow> (nat \<Rightarrow> bool) \<Rightarrow> 'v json_read \<Rightarrow> 'v json_build \<Rightarrow> literal_pattern \<Rightarrow> node_id \<Rightarrow> ustring
       \<Rightarrow> 'v search_results \<Rightarrow> ('v, 'v search_results) search_op" where
  "search_file S flag R J P f display_path results =
     (if sr_files_searched results = MAX_SEARCH_FILES then
        op_return (results\<lparr>sr_truncated := True, sr_limit_reached := True\<rparr>)
      else let results1 = results\<lparr>sr_files_searched := sr_files_searched results + 1\<rparr>
           in search_reader S flag R J P display_path (checkpoint results1) f 0 line_default 1 []
                results1)"

section \<open>A directory tree\<close>

fun collect_entries ::
    "(nat \<Rightarrow> bool) \<Rightarrow> path \<Rightarrow> ustring list \<Rightarrow> 'v search_results \<Rightarrow> (io_error + ustring) list
       \<Rightarrow> ('v, ustring list \<times> 'v search_results) search_op" where
  "collect_entries flag relative gathered results [] w = (Inr (gathered, results), w)"
| "collect_entries flag relative gathered results (entry # listing) w =
     op_bind (search_cancelled flag) (\<lambda>_.
       if length gathered = MAX_SEARCH_DIRECTORY_ENTRIES then
         op_fail (SearchFailed (failure ''search_limit_exceeded''
           (lit ''directory '' @ quoted (join_components relative) @ lit '' exceeds ''
              @ dec_string MAX_SEARCH_DIRECTORY_ENTRIES @ lit '' entries'') False))
       else case entry of
         Inl source \<Rightarrow> op_fail (search_failed (lit ''failed to read a directory entry'') source)
       | Inr name \<Rightarrow>
           (case record_entry results of
              (False, results1) \<Rightarrow> op_return (gathered, results1)
            | (True, results1) \<Rightarrow>
                (\<lambda>w1. collect_entries flag relative (gathered @ [name]) results1 listing w1))) w"

definition sorted_entries ::
    "'h system \<Rightarrow> (nat \<Rightarrow> bool) \<Rightarrow> node_id \<Rightarrow> path \<Rightarrow> 'v search_results
       \<Rightarrow> ('v, ustring list \<times> 'v search_results) search_op" where
  "sorted_entries S flag dir relative results =
     op_bind (op_map_err (search_failed (lit ''failed to list '' @ quoted (join_components relative)))
       (fs_list_dir S dir)) (\<lambda>listing.
     op_bind (collect_entries flag relative [] results listing) (\<lambda>(names, results1).
     op_return (sort names, results1)))"

text \<open>A frame of the stack: the directory, its path, and the names not yet visited.\<close>

record directory_frame =
  fr_relative_path :: path
  fr_directory :: node_id
  fr_entries :: "ustring list"

text \<open>One round of the loop, with the top of the stack in front: the walk is done or goes on.\<close>

datatype 'v walk_state =
    WalkDone "'v search_results"
  | WalkOn "directory_frame list" "'v search_results"

definition enter_directory ::
    "'h system \<Rightarrow> (nat \<Rightarrow> bool) \<Rightarrow> directory_frame list \<Rightarrow> slot \<Rightarrow> path \<Rightarrow> 'v search_results
       \<Rightarrow> ('v, 'v walk_state) search_op" where
  "enter_directory S flag stack s entry_path results =
     (if snd s = lit ''.git'' \<or> snd s = RECOVERY_DIRECTORY then op_return (WalkOn stack results)
      else if length stack = MAX_SEARCH_DEPTH then op_return (WalkDone (mark_limit_reached results))
      else case record_directory results of
        (False, results1) \<Rightarrow> op_return (WalkDone results1)
      | (True, results1) \<Rightarrow>
          op_bind (op_map_err
              (search_failed (lit ''failed to open '' @ quoted (join_components entry_path)))
              (fs_open_entry_dir S s)) (\<lambda>dir.
          op_bind (sorted_entries S flag dir entry_path results1) (\<lambda>(names, results2).
            op_return (if sr_limit_reached results2 then WalkDone results2
              else WalkOn (\<lparr>fr_relative_path = entry_path, fr_directory = dir, fr_entries = names\<rparr>
                     # stack) results2))))"

definition walk_entry ::
    "'h system \<Rightarrow> (nat \<Rightarrow> bool) \<Rightarrow> 'v json_read \<Rightarrow> 'v json_build \<Rightarrow> literal_pattern
       \<Rightarrow> directory_frame list \<Rightarrow> slot \<Rightarrow> path \<Rightarrow> 'v search_results \<Rightarrow> ('v, 'v walk_state) search_op" where
  "walk_entry S flag R J P stack s entry_path results =
     op_bind (op_map_err (search_failed (lit ''failed to inspect a directory entry''))
       (fs_entry_type S s)) (\<lambda>kind.
     case kind of
       SymlinkNode \<Rightarrow> op_return (WalkOn stack results)
     | DirectoryNode \<Rightarrow> enter_directory S flag stack s entry_path results
     | RegularNode \<Rightarrow>
         op_bind (op_map_err
             (search_failed (lit ''failed to open '' @ quoted (join_components entry_path)))
             (op_bind (fs_open S s) (require_regular_file S))) (\<lambda>(f, m).
         op_bind (search_file S flag R J P f (display_relative_path entry_path) results) (\<lambda>results1.
           op_return (if sr_limit_reached results1 then WalkDone results1 else WalkOn stack results1)))
     | SpecialNode \<Rightarrow> op_return (WalkOn stack results))"

definition walk_step ::
    "'h system \<Rightarrow> (nat \<Rightarrow> bool) \<Rightarrow> 'v json_read \<Rightarrow> 'v json_build \<Rightarrow> literal_pattern
       \<Rightarrow> directory_frame list \<Rightarrow> 'v search_results \<Rightarrow> ('v, 'v walk_state) search_op" where
  "walk_step S flag R J P stack results =
     (case stack of
        [] \<Rightarrow> op_return (WalkDone results)
      | frame # below \<Rightarrow>
          op_bind (search_cancelled flag) (\<lambda>_.
          case fr_entries frame of
            [] \<Rightarrow> op_return (WalkOn below results)
          | name # names \<Rightarrow>
              walk_entry S flag R J P (frame\<lparr>fr_entries := names\<rparr> # below) (fr_directory frame, name)
                (fr_relative_path frame @ [NormalComp name]) results))"

text \<open>The loop; \<open>None\<close> is a walk that does not end.\<close>

partial_function (option) walk_tree ::
    "'h system \<Rightarrow> (nat \<Rightarrow> bool) \<Rightarrow> 'v json_read \<Rightarrow> 'v json_build \<Rightarrow> literal_pattern
       \<Rightarrow> directory_frame list \<Rightarrow> 'v search_results \<Rightarrow> world
       \<Rightarrow> (('v search_error + 'v search_results) \<times> world) option" where
  "walk_tree S flag R J P stack results w =
     (case walk_step S flag R J P stack results w of
        (Inl e, w1) \<Rightarrow> Some (Inl e, w1)
      | (Inr (WalkDone results1), w1) \<Rightarrow> Some (Inr results1, w1)
      | (Inr (WalkOn stack1 results1), w1) \<Rightarrow> walk_tree S flag R J P stack1 results1 w1)"

declare walk_tree.simps [code]

definition search_directory ::
    "'h system \<Rightarrow> (nat \<Rightarrow> bool) \<Rightarrow> 'v json_read \<Rightarrow> 'v json_build \<Rightarrow> literal_pattern \<Rightarrow> node_id \<Rightarrow> path
       \<Rightarrow> 'v search_results \<Rightarrow> world \<Rightarrow> (('v search_error + 'v search_results) \<times> world) option" where
  "search_directory S flag R J P root relative results w =
     (case sorted_entries S flag root relative (snd (record_directory results)) w of
        (Inl e, w1) \<Rightarrow> Some (Inl e, w1)
      | (Inr (names, results1), w1) \<Rightarrow>
          if sr_limit_reached results1 then Some (Inr results1, w1)
          else walk_tree S flag R J P
                 [\<lparr>fr_relative_path = relative, fr_directory = root, fr_entries = names\<rparr>] results1 w1)"

section \<open>The output\<close>

record search_metadata =
  sm_path :: ustring
  sm_path_bytes :: nat
  sm_path_truncated :: bool
  sm_query :: ustring
  sm_query_bytes :: nat
  sm_query_truncated :: bool

definition build_search_output ::
    "'v json_build \<Rightarrow> workspace_context \<Rightarrow> 'v search_results \<Rightarrow> nat \<Rightarrow> bool \<Rightarrow> search_metadata
       \<Rightarrow> 'v tool_output" where
  "build_search_output J c results match_count truncated m =
     Success
       [ToolJson (js_object J (btree_from
          [(lit ''matches'', js_array J (take match_count (sr_matches results)))]))]
       (btree_from
          [(lit ''path'', js_string J (sm_path m)),
           (lit ''path_bytes'', js_number J (sm_path_bytes m)),
           (lit ''path_truncated'', js_bool J (sm_path_truncated m)),
           (lit ''query'', js_string J (sm_query m)),
           (lit ''query_bytes'', js_number J (sm_query_bytes m)),
           (lit ''query_truncated'', js_bool J (sm_query_truncated m)),
           (lit ''matches'', js_number J match_count),
           (lit ''bytes_searched'', js_number J (sr_bytes_searched results)),
           (lit ''files_searched'', js_number J (sr_files_searched results)),
           (lit ''directories_visited'', js_number J (sr_directories_visited results)),
           (lit ''entries_visited'', js_number J (sr_entries_visited results)),
           (lit ''binary_files_skipped'', js_number J (sr_binary_files_skipped results)),
           (lit ''lines_truncated'', js_number J (sr_lines_truncated results)),
           (lit ''truncated'', js_bool J truncated),
           (lit ''workspace'', context_metadata J c)])
       []"

definition search_output_fits :: "'v json_read \<Rightarrow> 'v tool_output \<Rightarrow> bool" where
  "search_output_fits R output \<longleftrightarrow> encoded_len R output \<le> MAX_OUTPUT_BYTES"

function bisect :: "(nat \<Rightarrow> bool) \<Rightarrow> nat \<Rightarrow> nat \<Rightarrow> nat" where
  "bisect fits low high =
     (if low < high then
        let middle = low + (high - low + 1) div 2
        in if fits middle then bisect fits middle high else bisect fits low (middle - 1)
      else low)"
  by pat_completeness auto
termination
  by (relation "measure (\<lambda>(fits, low, high). high - low)") auto

declare bisect.simps [simp del]

definition largest_fitting_prefix :: "nat \<Rightarrow> (nat \<Rightarrow> bool) \<Rightarrow> nat option" where
  "largest_fitting_prefix count fits = (if fits 0 then Some (bisect fits 0 count) else None)"

definition bounded_search_output ::
    "'v json_read \<Rightarrow> 'v json_build \<Rightarrow> workspace_context \<Rightarrow> ustring \<Rightarrow> ustring \<Rightarrow> 'v search_results
       \<Rightarrow> 'v tool_output" where
  "bounded_search_output R J c p query results =
     (let shown_path = truncate_json_string p MAX_SEARCH_PATH_METADATA_SERIALIZED_BYTES;
          shown_query = truncate_json_string query MAX_SEARCH_QUERY_METADATA_SERIALIZED_BYTES;
          m = \<lparr>sm_path = fst shown_path, sm_path_bytes = byte_len p, sm_path_truncated = snd shown_path,
               sm_query = fst shown_query, sm_query_bytes = byte_len query,
               sm_query_truncated = snd shown_query\<rparr>;
          full = build_search_output J c results (length (sr_matches results)) (sr_truncated results) m
      in if search_output_fits R full then finalize_output (encoded_len R) full
         else case largest_fitting_prefix (length (sr_matches results))
                (\<lambda>k. search_output_fits R (build_search_output J c results k True m)) of
           None \<Rightarrow> failure ''output_too_large''
             (lit ''search metadata exceeds the tool output budget'') False
         | Some k \<Rightarrow> finalize_output (encoded_len R) (build_search_output J c results k True m))"

text \<open>
  The tool: its query and its path (the root when there is none). The outer \<open>None\<close> is a call that
  does not return, the inner one a panic.
\<close>

definition search_arguments ::
    "'v json_read \<Rightarrow> 'v \<Rightarrow> 'v tool_output + (ustring \<times> ustring)" where
  "search_arguments R arguments =
     try_res (parse_arguments (as_object R) arguments [lit ''query'', lit ''path'']) (\<lambda>obj.
     try_res (required_string (as_str R) obj (lit ''query'')) (\<lambda>query.
     if query = [] then
       Inl (failure ''invalid_arguments'' (lit ''argument '' @ quoted (lit ''query'') @ lit '' must not be empty'') False)
     else if MAX_SEARCH_QUERY_BYTES < byte_len query then
       Inl (failure ''invalid_arguments'' (lit ''argument '' @ quoted (lit ''query'') @ lit '' exceeds ''
         @ dec_string MAX_SEARCH_QUERY_BYTES @ lit '' bytes'') False)
     else try_res (optional_string (as_str R) obj (lit ''path'')) (\<lambda>p.
       case p of
         None \<Rightarrow> Inr (query, lit ''.'')
       | Some p1 \<Rightarrow>
           if byte_len p1 \<le> MAX_SEARCH_PATH_BYTES then Inr (query, p1)
           else Inl (failure ''invalid_arguments'' (lit ''argument '' @ quoted (lit ''path'') @ lit '' exceeds ''
             @ dec_string MAX_SEARCH_PATH_BYTES @ lit '' bytes'') False))))"

definition search_resolved ::
    "'h system \<Rightarrow> (nat \<Rightarrow> bool) \<Rightarrow> 'v json_read \<Rightarrow> 'v json_build \<Rightarrow> literal_pattern \<Rightarrow> path \<Rightarrow> world
       \<Rightarrow> (('v search_error + 'v search_results) \<times> world) option" where
  "search_resolved S flag R J P relative w =
     (case fs_open_dir S relative w of
        (Inr dir, w1) \<Rightarrow> search_directory S flag R J P dir relative results_default w1
      | (Inl _, w1) \<Rightarrow>
          Some (op_bind (op_map_err
              (search_failed (lit ''failed to open '' @ quoted (join_components relative)))
              (open_regular_file S relative)) (\<lambda>(f, m).
            search_file S flag R J P f (display_relative_path relative) results_default) w1))"

definition search_execute ::
    "'h system \<Rightarrow> 'v json_read \<Rightarrow> 'v json_build \<Rightarrow> workspace_context \<Rightarrow> (nat \<Rightarrow> bool) \<Rightarrow> 'v tool_call
       \<Rightarrow> world \<Rightarrow> ('v tool_output option \<times> world) option" where
  "search_execute S R J c flag call w =
     (case search_arguments R (tc_arguments call) of
        Inl output \<Rightarrow> Some (Some output, w)
      | Inr (query, p) \<Rightarrow>
          (case resolve_existing S c p w of
             (Inl e, w1) \<Rightarrow> Some (Some (workspace_path_failure e), w1)
           | (Inr resolved, w1) \<Rightarrow>
               (case literal_pattern_new (as_bytes query) of
                  None \<Rightarrow> Some (None, w1)
                | Some P \<Rightarrow>
                    Option.bind (search_resolved S flag R J P (rp_relative resolved) w1) (\<lambda>r.
                      Some (case r of
                          (Inr results, w2) \<Rightarrow> (Some (bounded_search_output R J c p query results), w2)
                        | (Inl (SearchFailed output), w2) \<Rightarrow> (Some output, w2)
                        | (Inl SearchPanicked, w2) \<Rightarrow> (None, w2))))))"

end
