(* ===== verification/Search_Files.thy ===== *)
theory Search_Files
  imports Search_Tool Publish_Safety
begin

text \<open>
  What searching one file reports, whatever the chunks in which it is read: a reference that works on
  the lines of the whole file, and the proof that the code computes it.
\<close>

declare split_paired_All [simp del] split_paired_Ex [simp del]

text \<open>An error that is an answer: a failure with a message of bounded length.\<close>

fun answered :: "'v search_error \<Rightarrow> bool" where
  "answered (SearchFailed output) \<longleftrightarrow> small_failure output"
| "answered SearchPanicked \<longleftrightarrow> False"

lemma answered_search_failed [simp]: "answered (search_failed message source)"
  by (simp add: search_failed_def)

section \<open>The reference\<close>

text \<open>The lines of a file; a last line without newline counts when it is not empty.\<close>

definition file_lines :: "nat list \<Rightarrow> nat list list" where
  "file_lines b = (let parts = split_on 10 b in if last parts = [] then butlast parts else parts)"

definition shown_text :: "nat list \<Rightarrow> ustring" where
  "shown_text l =
     (case visible_utf8_prefix (take MAX_SEARCH_LINE_BYTES l) of
        Inr text \<Rightarrow> strip_carriage_return text | Inl _ \<Rightarrow> [])"

definition report_line ::
    "'v json_read \<Rightarrow> 'v json_build \<Rightarrow> nat list \<Rightarrow> ustring \<Rightarrow> nat \<Rightarrow> nat list \<Rightarrow> 'v search_results
       \<Rightarrow> 'v search_results" where
  "report_line R J needle p n l results =
     (if \<not> sublist needle l \<or> sr_limit_reached results then results
      else let results1 = (if MAX_SEARCH_LINE_BYTES < length l
                 then results\<lparr>sr_lines_truncated := sr_lines_truncated results + 1, sr_truncated := True\<rparr>
                 else results);
               v = match_value J p n (shown_text l)
           in if length (sr_matches results1) = MAX_SEARCH_MATCHES
                 \<or> MAX_TOOL_CONTENT_SERIALIZED_BYTES < sr_serialized_bytes results1 + value_len R v
              then mark_limit_reached results1
              else results1\<lparr>sr_serialized_bytes := sr_serialized_bytes results1 + value_len R v,
                            sr_matches := sr_matches results1 @ [v]\<rparr>)"

fun report_lines ::
    "'v json_read \<Rightarrow> 'v json_build \<Rightarrow> nat list \<Rightarrow> ustring \<Rightarrow> nat \<Rightarrow> nat list list \<Rightarrow> 'v search_results
       \<Rightarrow> 'v search_results" where
  "report_lines R J needle p n [] results = results"
| "report_lines R J needle p n (l # ls) results =
     report_lines R J needle p (n + 1) ls (report_line R J needle p n l results)"

text \<open>All the matches of a file, in order.\<close>

fun line_matches :: "'v json_build \<Rightarrow> nat list \<Rightarrow> ustring \<Rightarrow> nat \<Rightarrow> nat list list \<Rightarrow> 'v list" where
  "line_matches J needle p n [] = []"
| "line_matches J needle p n (l # ls) =
     (if sublist needle l then [match_value J p n (shown_text l)] else [])
       @ line_matches J needle p (n + 1) ls"

definition file_matches :: "'v json_build \<Rightarrow> nat list \<Rightarrow> ustring \<Rightarrow> nat list \<Rightarrow> 'v list" where
  "file_matches J needle p b = (if is_text b then line_matches J needle p 1 (file_lines b) else [])"

text \<open>Reports change the matches and what belongs to them; without a limit, they are all there.\<close>

lemma report_line_bytes:
  "report_line R J needle p n l (results\<lparr>sr_bytes_searched := k\<rparr>)
     = (report_line R J needle p n l results)\<lparr>sr_bytes_searched := k\<rparr>"
  by (simp add: report_line_def mark_limit_reached_def Let_def)

lemma report_lines_bytes:
  "report_lines R J needle p n ls (results\<lparr>sr_bytes_searched := k\<rparr>)
     = (report_lines R J needle p n ls results)\<lparr>sr_bytes_searched := k\<rparr>"
  by (induction ls arbitrary: n results) (simp_all add: report_line_bytes)

lemma report_lines_append:
  "report_lines R J needle p n (ls @ ms) results =
     report_lines R J needle p (n + length ls) ms (report_lines R J needle p n ls results)"
  by (induction ls arbitrary: n results) simp_all

lemma report_line_keeps:
  "\<exists>ms. sr_matches (report_line R J needle p n l results) = sr_matches results @ ms"
  "sr_files_searched (report_line R J needle p n l results) = sr_files_searched results"
  "sr_bytes_searched (report_line R J needle p n l results) = sr_bytes_searched results"
  "sr_directories_visited (report_line R J needle p n l results) = sr_directories_visited results"
  "sr_entries_visited (report_line R J needle p n l results) = sr_entries_visited results"
  "sr_binary_files_skipped (report_line R J needle p n l results) = sr_binary_files_skipped results"
  by (auto simp: report_line_def mark_limit_reached_def Let_def)

lemma report_lines_keeps:
  "\<exists>ms. sr_matches (report_lines R J needle p n ls results) = sr_matches results @ ms"
  "sr_files_searched (report_lines R J needle p n ls results) = sr_files_searched results"
  "sr_bytes_searched (report_lines R J needle p n ls results) = sr_bytes_searched results"
  "sr_directories_visited (report_lines R J needle p n ls results) = sr_directories_visited results"
  "sr_entries_visited (report_lines R J needle p n ls results) = sr_entries_visited results"
  "sr_binary_files_skipped (report_lines R J needle p n ls results) = sr_binary_files_skipped results"
proof (induction ls arbitrary: n results)
  case (Cons l ls)
  { case 1 show ?case using Cons(1) report_line_keeps(1) by (metis append.assoc report_lines.simps(2)) }
qed (simp_all add: report_line_keeps)

lemma report_lines_limit:
  "sr_limit_reached results \<Longrightarrow> report_lines R J needle p n ls results = results"
  by (induction ls arbitrary: n) (simp_all add: report_line_def)

lemma report_lines_matches:
  "\<not> sr_limit_reached (report_lines R J needle p n ls results) \<Longrightarrow>
     sr_matches (report_lines R J needle p n ls results) =
       sr_matches results @ line_matches J needle p n ls"
proof (induction ls arbitrary: n results)
  case (Cons l ls)
  let ?r = "report_line R J needle p n l results"
  have "\<not> sr_limit_reached ?r"
    using Cons.prems report_lines_limit by fastforce
  then have "sr_matches ?r = sr_matches results
      @ (if sublist needle l then [match_value J p n (shown_text l)] else [])"
    by (auto simp: report_line_def mark_limit_reached_def Let_def split: if_splits)
  with Cons.IH [of "n + 1" ?r] Cons.prems show ?case by simp
qed simp

section \<open>Chunks\<close>

lemma split_on_concat:
  "split_on d (xs @ ys) =
     butlast (split_on d xs) @ (last (split_on d xs) @ hd (split_on d ys)) # tl (split_on d ys)"
proof (induction xs)
  case Nil
  then show ?case by (cases "split_on d ys") auto
next
  case (Cons x xs)
  show ?case
  proof (cases "split_on d xs")
    case (Cons q qs)
    with Cons.IH show ?thesis by (cases qs) auto
  qed simp
qed

lemma finish_line_report:
  assumes "line_holds P l line" and "is_text l"
  shows "finish_line R J p n line results = Inr (report_line R J (lp_needle P) p n l results)"
proof -
  from visible_prefix_text [OF assms(2)] obtain t where
    "visible_utf8_prefix (take MAX_SEARCH_LINE_BYTES l) = Inr t" by blast
  with assms(1) show ?thesis
    by (simp add: finish_line_def report_line_def line_holds_def shown_text_def mark_limit_reached_def
        Let_def)
qed

text \<open>The lines that a chunk completes, with what the current line already holds, and what remains.\<close>

lemma feed_slices_report:
  assumes "pattern_ok P" and "line_holds P s line" and "parts \<noteq> []"
    and "list_all is_text (butlast ((s @ hd parts) # tl parts))"
  shows "\<exists>line'. feed_slices P R J p n line results parts =
      Inr (line', n + length parts - 1,
        report_lines R J (lp_needle P) p n (butlast ((s @ hd parts) # tl parts)) results)
    \<and> line_holds P (last ((s @ hd parts) # tl parts)) line'"
  using assms(2-4)
proof (induction parts arbitrary: s line n results)
  case (Cons part parts)
  from line_feed_holds [OF assms(1) Cons.prems(1), of part] obtain line1 where
    line1: "line_feed P line part = Some line1" "line_holds P (s @ part) line1" by blast
  show ?case
  proof (cases parts)
    case Nil
    with line1 show ?thesis by simp
  next
    case (Cons q qs)
    let ?r = "report_line R J (lp_needle P) p n (s @ part) results"
    have "is_text (s @ part)" and rest: "list_all is_text (butlast (([] @ hd parts) # tl parts))"
      using Cons.prems(3) Cons by simp_all
    from finish_line_report [OF line1(2) this(1)]
    have "finish_line R J p n line1 results = Inr ?r" .
    moreover from Cons.IH [OF line_holds_default [OF assms(1)] _ rest, of "n + 1" ?r] Cons
    obtain line' where "feed_slices P R J p (n + 1) line_default ?r parts =
        Inr (line', n + 1 + length parts - 1,
          report_lines R J (lp_needle P) p (n + 1) (butlast parts) ?r)"
      "line_holds P (last parts) line'" by auto
    ultimately show ?thesis using line1(1) Cons by simp
  qed
qed simp

text \<open>Every line that a newline ends in unbroken bytes is text.\<close>

lemma newline_text: "is_text [10]"
  by (simp add: is_text_def from_utf8_def utf8_step_def char_width_def)

lemma ended_lines_text: "\<not> is_broken b \<Longrightarrow> list_all is_text (butlast (split_on 10 b))"
proof (induction b rule: measure_induct_rule [of length])
  case (less b)
  show ?case
  proof (cases "10 \<in> set b")
    case False
    then show ?thesis by (simp add: split_on_clean)
  next
    case True
    then obtain xs ys where b: "b = xs @ 10 # ys" "10 \<notin> set xs" by (meson split_list_first)
    with less.prems have "is_text xs" by (auto intro: text_before_newline)
    moreover have "is_text (xs @ [10])"
      using \<open>is_text xs\<close> by (simp add: text_append newline_text)
    from text_append(2) [OF this, of ys] less.prems b(1) have "\<not> is_broken ys" by simp
    with less.IH [of ys] b have "list_all is_text (butlast (split_on 10 ys))" by simp
    ultimately show ?thesis using b by (simp add: split_on_append)
  qed
qed

lemma last_line_text: "is_text b \<Longrightarrow> is_text (last (split_on 10 b))"
proof (induction b rule: measure_induct_rule [of length])
  case (less b)
  show ?case
  proof (cases "10 \<in> set b")
    case False
    with less.prems show ?thesis by (simp add: split_on_clean)
  next
    case True
    then obtain xs ys where b: "b = xs @ 10 # ys" "10 \<notin> set xs" by (meson split_list_first)
    with less.prems have "is_text xs" by (auto intro: text_before_newline dest: text_not_broken)
    then have "is_text (xs @ [10])"
      by (simp add: text_append newline_text)
    from text_append(1) [OF this, of ys] less.prems b(1) have "is_text ys" by simp
    with less.IH [of ys] b show ?thesis by (simp add: split_on_append)
  qed
qed

section \<open>The reader\<close>

text \<open>What the loop holds when \<open>i\<close> bytes of the file have been read.\<close>

definition reading ::
    "'v json_read \<Rightarrow> 'v json_build \<Rightarrow> literal_pattern \<Rightarrow> ustring \<Rightarrow> nat list \<Rightarrow> 'v search_results
       \<Rightarrow> nat \<Rightarrow> line_state \<Rightarrow> nat \<Rightarrow> nat list \<Rightarrow> 'v search_results \<Rightarrow> bool" where
  "reading R J P p b start i line n utf8 results \<longleftrightarrow>
     (let parts = split_on 10 (take i b)
      in i \<le> length b \<and> pending_holds (take i b) utf8 \<and> line_holds P (last parts) line
         \<and> n = length parts
         \<and> results = report_lines R J (lp_needle P) p 1 (butlast parts)
             (start\<lparr>sr_bytes_searched := sr_bytes_searched start + i\<rparr>))"

lemma reading_start:
  assumes "pattern_ok P"
  shows "reading R J P p b start 0 line_default 1 [] start"
  using line_holds_default [OF assms] by (simp add: reading_def pending_holds_Nil)

lemma reading_bytes:
  "reading R J P p b start i line n utf8 results
     \<Longrightarrow> sr_bytes_searched results = sr_bytes_searched start + i"
  by (simp add: reading_def Let_def report_lines_keeps)

lemma reading_step:
  assumes P: "pattern_ok P" and reading: "reading R J P p b start i line n utf8 results"
    and bs: "take i b @ bs = take (i + length bs) b" "i + length bs \<le> length b"
    and valid: "utf8_feed utf8 bs = Some utf81"
  shows "\<exists>line1 n1 results1.
      feed_slices P R J p n line (results\<lparr>sr_bytes_searched := sr_bytes_searched results + length bs\<rparr>)
        (split_on 10 bs) = Inr (line1, n1, results1)
      \<and> reading R J P p b start (i + length bs) line1 n1 utf81 results1"
proof -
  let ?a = "take i b" and ?parts = "split_on 10 (take i b)"
  let ?lines = "(last ?parts @ hd (split_on 10 bs)) # tl (split_on 10 bs)"
  let ?r = "results\<lparr>sr_bytes_searched := sr_bytes_searched results + length bs\<rparr>"
  have pend: "pending_holds ?a utf8" and line: "line_holds P (last ?parts) line"
    and n: "n = length ?parts"
    and results: "results = report_lines R J (lp_needle P) p 1 (butlast ?parts)
      (start\<lparr>sr_bytes_searched := sr_bytes_searched start + i\<rparr>)"
    using reading by (simp_all add: reading_def Let_def)
  from utf8_feed_holds [OF pend, of bs] valid have pend1: "pending_holds (?a @ bs) utf81" by simp
  have whole: "split_on 10 (?a @ bs) = butlast ?parts @ ?lines" by (rule split_on_concat)
  have ended: "list_all is_text (butlast ?lines)"
    using ended_lines_text [OF pending_holds_sound [OF pend1]] by (simp add: whole butlast_append)
  from feed_slices_report [OF P line split_on_not_Nil ended, where R = R and J = J and p = p
      and n = n and results = ?r] obtain line1 where
    fed: "feed_slices P R J p n line ?r (split_on 10 bs) =
        Inr (line1, n + length (split_on 10 bs) - 1,
          report_lines R J (lp_needle P) p n (butlast ?lines) ?r)"
      "line_holds P (last ?lines) line1" by blast
  have "n + length (split_on 10 bs) - 1 = length (split_on 10 (?a @ bs))"
    by (cases "split_on 10 bs"; cases ?parts) (simp_all add: whole n)
  moreover have "report_lines R J (lp_needle P) p n (butlast ?lines) ?r
      = report_lines R J (lp_needle P) p 1 (butlast (split_on 10 (?a @ bs)))
          (start\<lparr>sr_bytes_searched := sr_bytes_searched start + (i + length bs)\<rparr>)"
  proof -
    have "?r = report_lines R J (lp_needle P) p 1 (butlast ?parts)
        (start\<lparr>sr_bytes_searched := sr_bytes_searched start + (i + length bs)\<rparr>)"
      by (simp add: results report_lines_bytes report_lines_keeps add.assoc)
    moreover have "1 + length (butlast ?parts) = n" by (cases ?parts) (simp_all add: n)
    moreover have "butlast (split_on 10 (?a @ bs)) = butlast ?parts @ butlast ?lines"
      by (simp add: whole butlast_append)
    ultimately show ?thesis by (simp only: report_lines_append)
  qed
  moreover have "last (split_on 10 (?a @ bs)) = last ?lines" by (simp add: whole)
  ultimately show ?thesis
    using fed pend1 bs by (auto simp: reading_def Let_def simp del: butlast.simps last.simps)
qed

text \<open>How a search of a file with the bytes \<open>b\<close> may end.\<close>

definition searched ::
    "'v json_read \<Rightarrow> 'v json_build \<Rightarrow> nat list \<Rightarrow> ustring \<Rightarrow> nat list \<Rightarrow> 'v search_results
       \<Rightarrow> 'v search_results \<Rightarrow> bool" where
  "searched R J needle p b start results \<longleftrightarrow>
     is_text b \<and> results = report_lines R J needle p 1 (file_lines b)
       (start\<lparr>sr_bytes_searched := sr_bytes_searched start + length b\<rparr>)
     \<or> \<not> is_text b \<and> (\<exists>k. results = start\<lparr>sr_bytes_searched := k,
         sr_binary_files_skipped := sr_binary_files_skipped start + 1\<rparr>)
     \<or> MAX_SEARCH_BYTES < sr_bytes_searched start + length b
         \<and> (\<exists>k. results = mark_limit_reached (start\<lparr>sr_bytes_searched := k\<rparr>))"

lemma discard_reading:
  assumes "reading R J P p b start i line n utf8 results"
  shows "discard_binary_file (checkpoint start) (results\<lparr>sr_bytes_searched := k\<rparr>) =
      start\<lparr>sr_bytes_searched := k, sr_binary_files_skipped := sr_binary_files_skipped start + 1\<rparr>"
    and "discard_incomplete_file (checkpoint start) (results\<lparr>sr_bytes_searched := k\<rparr>) =
      mark_limit_reached (start\<lparr>sr_bytes_searched := k\<rparr>)"
proof -
  have results: "results = report_lines R J (lp_needle P) p 1 (butlast (split_on 10 (take i b)))
      (start\<lparr>sr_bytes_searched := sr_bytes_searched start + i\<rparr>)"
    using assms by (simp add: reading_def Let_def)
  from report_lines_keeps(1) [of R J "lp_needle P" p 1 "butlast (split_on 10 (take i b))"
      "start\<lparr>sr_bytes_searched := sr_bytes_searched start + i\<rparr>"]
  obtain ms where "sr_matches results = sr_matches start @ ms" by (auto simp: results)
  then show "discard_binary_file (checkpoint start) (results\<lparr>sr_bytes_searched := k\<rparr>) =
      start\<lparr>sr_bytes_searched := k, sr_binary_files_skipped := sr_binary_files_skipped start + 1\<rparr>"
    and "discard_incomplete_file (checkpoint start) (results\<lparr>sr_bytes_searched := k\<rparr>) =
      mark_limit_reached (start\<lparr>sr_bytes_searched := k\<rparr>)"
    by (auto simp: discard_binary_file_def discard_incomplete_file_def checkpoint_def
        mark_limit_reached_def results report_lines_keeps)
qed

lemma search_reader_unfold:
  "search_reader S flag R J P p cp f offset line n utf8 results w = (r, w') \<longleftrightarrow>
     (\<exists>e w1. read_chunk S flag f p offset results w = (Inl e, w1) \<and> (Inl e, w1) = (r, w'))
     \<or> (\<exists>bs w1. read_chunk S flag f p offset results w = (Inr bs, w1)
         \<and> (if bs = [] then (finish_search_file R J p n line utf8 cp results, w1)
            else if MAX_SEARCH_BYTES \<le> sr_bytes_searched results then
              (Inr (discard_incomplete_file cp results), w1)
            else let results1 = results\<lparr>sr_bytes_searched := sr_bytes_searched results + length bs\<rparr>
              in case utf8_feed utf8 bs of
                   None \<Rightarrow> (Inr (discard_binary_file cp results1), w1)
                 | Some utf81 \<Rightarrow>
                     (case feed_slices P R J p n line results1 (split_on 10 bs) of
                        Inl e \<Rightarrow> (Inl e, w1)
                      | Inr (line1, n1, results2) \<Rightarrow>
                          search_reader S flag R J P p cp f (offset + length bs) line1 n1 utf81
                            results2 w1)) = (r, w'))"
  by (subst search_reader.simps) (auto split: prod.split sum.split)

lemma read_chunk_bytes:
  assumes "leaves_bytes S" and "node_bytes (disk_of w) f = Some b"
    and "read_chunk S flag f p i results w = (Inr bs, w1)"
  shows "\<exists>k. bs = take (Suc k) (drop i b)" and "node_bytes (disk_of w1) f = Some b"
proof -
  note frame = exchange_invariant.axioms(1) [OF bytes_frame [OF assms(1), of f b]]
  from assms(3) obtain w0 k where 0: "search_cancelled flag w = (Inr (), w0)" "disk_of w0 = disk_of w"
    and k: "fs_read_at S f k i w0 = (Inr bs, w1)" "0 < k"
    by (auto simp: read_chunk_def op_bind_Inr search_cancelled_def Let_def split: if_splits)
  from read_at_bytes [OF assms(1) _ k(1)] 0(2) assms(2) k(2)
  show "\<exists>k. bs = take (Suc k) (drop i b)"
    by (auto simp: moved_def intro!: exI [of _ "moved S (calls w0) k - 1"])
  from steadyD [OF disk_invariant.read_at_keeps [OF frame] k(1)] 0(2) assms(2)
  show "node_bytes (disk_of w1) f = Some b" by simp
qed

lemma read_chunk_failed:
  "read_chunk S flag f p i results w = (Inl e, w1) \<Longrightarrow> answered e"
  by (auto simp: read_chunk_def op_bind_Inl search_cancelled_def op_map_err_def
      map_err_def Let_def split: if_splits prod.splits sum.splits)

lemma finish_reading:
  assumes "pattern_ok P" and reading: "reading R J P p b start (length b) line n utf8 results"
  shows "\<exists>r. finish_search_file R J p n line utf8 (checkpoint start) results = Inr r
    \<and> searched R J (lp_needle P) p b start r"
proof -
  let ?parts = "split_on 10 b"
  from reading have pend: "pending_holds b utf8" and line: "line_holds P (last ?parts) line"
    and n: "n = length ?parts"
    and results: "results = report_lines R J (lp_needle P) p 1 (butlast ?parts)
      (start\<lparr>sr_bytes_searched := sr_bytes_searched start + length b\<rparr>)"
    by (simp_all add: reading_def Let_def)
  have k: "results = results\<lparr>sr_bytes_searched := sr_bytes_searched start + length b\<rparr>"
    by (simp add: reading_bytes [OF reading, symmetric])
  show ?thesis
  proof (cases "is_text b")
    case False
    with pend have "\<not> utf8_finish utf8" by (simp add: pending_holds_text)
    with False discard_reading(1) [OF reading] show ?thesis
      unfolding searched_def finish_search_file_def by (metis k)
  next
    case True
    with pend have utf8: "utf8_finish utf8" by (simp add: pending_holds_text)
    show ?thesis
    proof (cases "last ?parts = []")
      case True
      then have "ln_bytes_seen line = 0" using line by (simp add: line_holds_def)
      with True utf8 \<open>is_text b\<close> results show ?thesis
        by (simp add: finish_search_file_def searched_def file_lines_def Let_def)
    next
      case False
      then have "0 < ln_bytes_seen line" using line by (simp add: line_holds_def)
      with utf8 have "finish_search_file R J p n line utf8 (checkpoint start) results =
          Inr (report_line R J (lp_needle P) p n (last ?parts) results)"
        using finish_line_report [OF line last_line_text [OF \<open>is_text b\<close>]]
        by (simp add: finish_search_file_def)
      moreover have "report_line R J (lp_needle P) p n (last ?parts) results =
          report_lines R J (lp_needle P) p 1 ?parts
            (start\<lparr>sr_bytes_searched := sr_bytes_searched start + length b\<rparr>)"
        using report_lines_append [of R J "lp_needle P" p 1 "butlast ?parts" "[last ?parts]"]
        by (simp add: results n)
      ultimately show ?thesis
        using False \<open>is_text b\<close> by (simp add: searched_def file_lines_def Let_def)
    qed
  qed
qed

lemma reading_broken:
  assumes "reading R J P p b start i line n utf8 results" and "take i b @ bs = take j b"
    and "utf8_feed utf8 bs = None"
  shows "\<not> is_text b"
  using utf8_feed_holds [of "take i b" utf8 bs] assms is_broken_append [of "take j b" "drop j b"]
  by (auto simp: reading_def Let_def dest: text_not_broken)

text \<open>The loop, from any point of the file.\<close>

lemma search_reader_searched:
  assumes P: "pattern_ok P" and rely: "leaves_bytes S"
  shows "search_reader S flag R J P p (checkpoint start) f i line n utf8 results w = (r, w')
    \<Longrightarrow> reading R J P p b start i line n utf8 results \<Longrightarrow> node_bytes (disk_of w) f = Some b
    \<Longrightarrow> case r of Inr results1 \<Rightarrow> searched R J (lp_needle P) p b start results1
         | Inl e \<Rightarrow> answered e"
proof (induction "length b - i" arbitrary: i line n utf8 results w rule: less_induct)
  case less
  note reading = less.prems(2)
  from reading have i: "i \<le> length b" by (simp add: reading_def Let_def)
  from less.prems(1) [unfolded search_reader_unfold] consider
    (failed) e w1 where "read_chunk S flag f p i results w = (Inl e, w1)" "r = Inl e"
  | (chunk) bs w1 where "read_chunk S flag f p i results w = (Inr bs, w1)"
      "(if bs = [] then (finish_search_file R J p n line utf8 (checkpoint start) results, w1)
        else if MAX_SEARCH_BYTES \<le> sr_bytes_searched results then
          (Inr (discard_incomplete_file (checkpoint start) results), w1)
        else let results1 = results\<lparr>sr_bytes_searched := sr_bytes_searched results + length bs\<rparr>
          in case utf8_feed utf8 bs of
               None \<Rightarrow> (Inr (discard_binary_file (checkpoint start) results1), w1)
             | Some utf81 \<Rightarrow>
                 (case feed_slices P R J p n line results1 (split_on 10 bs) of
                    Inl e \<Rightarrow> (Inl e, w1)
                  | Inr (line1, n1, results2) \<Rightarrow>
                      search_reader S flag R J P p (checkpoint start) f (i + length bs) line1 n1 utf81
                        results2 w1)) = (r, w')"
    by auto
  then show ?case
  proof cases
    case failed
    with read_chunk_failed show ?thesis by fastforce
  next
    case (chunk bs w1)
    from read_chunk_bytes [OF rely less.prems(3) chunk(1)] obtain k where
      bs: "bs = take (Suc k) (drop i b)" and w1: "node_bytes (disk_of w1) f = Some b" by blast
    have k: "results = results\<lparr>sr_bytes_searched := sr_bytes_searched start + i\<rparr>"
      by (simp add: reading_bytes [OF reading, symmetric])
    show ?thesis
    proof (cases "bs = []")
      case True
      with bs i have "i = length b" by auto
      with finish_reading [OF P] reading chunk(2) True show ?thesis by fastforce
    next
      case False
      then have less_i: "i < length b" using bs by auto
      have chunk_of: "take i b @ bs = take (i + length bs) b" "i + length bs \<le> length b"
        using less_i by (auto simp: bs take_add min_def)
      show ?thesis
      proof (cases "MAX_SEARCH_BYTES \<le> sr_bytes_searched results")
        case True
        then have "MAX_SEARCH_BYTES < sr_bytes_searched start + length b"
          using less_i by (simp add: reading_bytes [OF reading])
        moreover have "r = Inr (discard_incomplete_file (checkpoint start) results)"
          using True False chunk(2) by simp
        moreover have "discard_incomplete_file (checkpoint start) results =
            mark_limit_reached (start\<lparr>sr_bytes_searched := sr_bytes_searched start + i\<rparr>)"
          using discard_reading(2) [OF reading] by (subst k)
        ultimately show ?thesis by (auto simp: searched_def)
      next
        case within: False
        show ?thesis
        proof (cases "utf8_feed utf8 bs")
          case None
          with reading_broken [OF reading chunk_of(1)] False within chunk(2)
            discard_reading(1) [OF reading] show ?thesis
            unfolding searched_def by (auto simp: Let_def)
        next
          case (Some utf81)
          from reading_step [OF P reading chunk_of Some] obtain line1 n1 results1 where
            fed: "feed_slices P R J p n line
                (results\<lparr>sr_bytes_searched := sr_bytes_searched results + length bs\<rparr>)
                (split_on 10 bs) = Inr (line1, n1, results1)"
            and reading1: "reading R J P p b start (i + length bs) line1 n1 utf81 results1" by blast
          from fed Some False within chunk(2)
          have "search_reader S flag R J P p (checkpoint start) f (i + length bs) line1 n1 utf81
              results1 w1 = (r, w')" by (simp add: Let_def)
          moreover have "length b - (i + length bs) < length b - i"
            using False less_i by (simp add: diff_less_mono2)
          ultimately show ?thesis using less.hyps reading1 w1 by blast
        qed
      qed
    qed
  qed
qed

end
