(* ===== verification/Search_Tree.thy ===== *)
theory Search_Tree
  imports Search_Files
begin

text \<open>
  The walk over a directory tree: whatever the file system answers, it ends, without a panic and
  within the budgets of the tool; on a disk that stands still it reports the matches of every file
  of the tree, in the order of the names.
\<close>

declare split_paired_All [simp del] split_paired_Ex [simp del]

section \<open>Budgets\<close>

definition within_budget :: "'v search_results \<Rightarrow> bool" where
  "within_budget r \<longleftrightarrow>
     length (sr_matches r) \<le> MAX_SEARCH_MATCHES
     \<and> sr_serialized_bytes r \<le> MAX_TOOL_CONTENT_SERIALIZED_BYTES
     \<and> sr_bytes_searched r \<le> MAX_SEARCH_BYTES
     \<and> sr_files_searched r \<le> MAX_SEARCH_FILES
     \<and> sr_directories_visited r \<le> MAX_SEARCH_DIRECTORIES
     \<and> sr_entries_visited r \<le> MAX_SEARCH_ENTRIES"

text \<open>What a part of the search may do to the results, with the entries it visits.\<close>

definition extends :: "nat \<Rightarrow> 'v search_results \<Rightarrow> 'v search_results \<Rightarrow> bool" where
  "extends k r r1 \<longleftrightarrow>
     (within_budget r \<longrightarrow> within_budget r1) \<and> sr_entries_visited r1 = sr_entries_visited r + k"

lemma extends_refl [simp]: "extends 0 r r"
  by (simp add: extends_def)

lemma extends_trans: "extends j r r1 \<Longrightarrow> extends k r1 r2 \<Longrightarrow> extends (j + k) r r2"
  by (simp add: extends_def)

lemma extends_mark [simp]: "extends k r (mark_limit_reached r1) \<longleftrightarrow> extends k r r1"
  by (simp add: extends_def within_budget_def mark_limit_reached_def)

lemma extends_finish_line:
  "finish_line R J p n line r = Inr r1 \<Longrightarrow> extends 0 r r1"
  by (auto simp: finish_line_def extends_def within_budget_def Let_def split: if_splits sum.splits)

lemma extends_discard:
  "extends k start r \<Longrightarrow> within_budget start \<Longrightarrow> extends k start (discard_binary_file (checkpoint start) r)"
  "extends k start r \<Longrightarrow> within_budget start
     \<Longrightarrow> extends k start (discard_incomplete_file (checkpoint start) r)"
  by (auto simp: extends_def within_budget_def discard_binary_file_def discard_incomplete_file_def
      checkpoint_def)

lemma extends_read:
  assumes "read_chunk S flag f p offset r w = (Inr bs, w1)" and "sr_bytes_searched r < MAX_SEARCH_BYTES"
  shows "extends 0 r (r\<lparr>sr_bytes_searched := sr_bytes_searched r + length bs\<rparr>)"
  using read_chunk_length [OF assms] assms(2) by (auto simp: extends_def within_budget_def)

section \<open>No panic\<close>

lemma finish_line_safe: "finish_line R J p n line results = Inl e \<Longrightarrow> answered e"
  by (auto simp: finish_line_def Let_def split: if_splits sum.splits)

lemma feed_slices_safe:
  assumes "pattern_ok P" and "\<exists>s. line_holds P s line"
  shows "case feed_slices P R J p n line results parts of
      Inl e \<Rightarrow> answered e
    | Inr (line1, n1, results1) \<Rightarrow> (\<exists>s. line_holds P s line1) \<and> extends 0 results results1"
  using assms(2)
proof (induction parts arbitrary: n line results)
  case (Cons part parts)
  then obtain s where "line_holds P s line" by blast
  from line_feed_holds [OF assms(1) this, of part] obtain line1 where
    line1: "line_feed P line part = Some line1" "line_holds P (s @ part) line1" by blast
  show ?case
  proof (cases "finish_line R J p n line1 results")
    case (Inl e)
    with finish_line_safe [OF Inl] line1 show ?thesis by auto
  next
    case (Inr results1)
    note step = Cons.IH [where line = line_default and n = "n + 1" and results = results1] extends_finish_line [OF Inr]
    have "\<exists>s. line_holds P s line_default" using line_holds_default [OF assms(1)] by blast
    with Inr line1 step show ?thesis
      by (auto split: sum.splits prod.splits dest: extends_trans)
  qed
qed auto

lemma finish_file_safe:
  assumes "extends 0 start results" and "within_budget start"
  shows "case finish_search_file R J p n line utf8 (checkpoint start) results of
      Inl e \<Rightarrow> answered e | Inr results1 \<Rightarrow> extends 0 start results1"
  using assms finish_line_safe [of R J p n line results] extends_trans [OF assms(1) extends_finish_line]
  by (auto simp: finish_search_file_def extends_discard split: sum.splits)

lemma search_reader_safe:
  assumes P: "pattern_ok P" and start: "within_budget start"
  shows "search_reader S flag R J P p (checkpoint start) f offset line n utf8 results w = (r, w')
    \<Longrightarrow> \<exists>s. line_holds P s line \<Longrightarrow> extends 0 start results
    \<Longrightarrow> case r of Inl e \<Rightarrow> answered e | Inr results1 \<Rightarrow> extends 0 start results1"
proof (induction "MAX_SEARCH_BYTES - sr_bytes_searched results"
    arbitrary: offset line n utf8 results w rule: less_induct)
  case less
  let ?cp = "checkpoint start"
  from less.prems(1) [unfolded search_reader_unfold] consider
    (failed) e w1 where "read_chunk S flag f p offset results w = (Inl e, w1)" "r = Inl e"
  | (over) "r = finish_search_file R J p n line utf8 ?cp results
        \<or> r = Inr (discard_incomplete_file ?cp results)"
  | (chunk) bs w1 where "read_chunk S flag f p offset results w = (Inr bs, w1)" "bs \<noteq> []"
      "sr_bytes_searched results < MAX_SEARCH_BYTES"
      "(case utf8_feed utf8 bs of
          None \<Rightarrow> (Inr (discard_binary_file ?cp
            (results\<lparr>sr_bytes_searched := sr_bytes_searched results + length bs\<rparr>)), w1)
        | Some utf81 \<Rightarrow>
            (case feed_slices P R J p n line
                (results\<lparr>sr_bytes_searched := sr_bytes_searched results + length bs\<rparr>) (split_on 10 bs) of
               Inl e \<Rightarrow> (Inl e, w1)
             | Inr (line1, n1, results2) \<Rightarrow>
                 search_reader S flag R J P p ?cp f (offset + length bs) line1 n1 utf81 results2 w1))
        = (r, w')"
    by (auto simp: Let_def not_le split: if_splits)
  then show ?case
  proof cases
    case failed
    with read_chunk_failed show ?thesis by fastforce
  next
    case over
    with finish_file_safe [OF less.prems(3) start, of R J p n line utf8] extends_discard(2) [OF less.prems(3) start]
    show ?thesis by (auto split: sum.splits)
  next
    case (chunk bs w1)
    let ?r = "results\<lparr>sr_bytes_searched := sr_bytes_searched results + length bs\<rparr>"
    have r: "extends 0 start ?r"
      using extends_trans [OF less.prems(3) extends_read [OF chunk(1,3)]] by simp
    show ?thesis
    proof (cases "utf8_feed utf8 bs")
      case None
      with chunk(4) extends_discard(1) [OF r start] show ?thesis by auto
    next
      case (Some utf81)
      note fed = feed_slices_safe [OF P less.prems(2), where R = R and J = J and p = p and n = n
          and results = ?r and parts = "split_on 10 bs"]
      show ?thesis
      proof (cases "feed_slices P R J p n line ?r (split_on 10 bs)")
        case (Inl e)
        with chunk(4) Some fed show ?thesis by auto
      next
        case (Inr q)
        obtain line1 n1 results2 where q: "q = (line1, n1, results2)" by (cases q)
        have "sr_bytes_searched results2 = sr_bytes_searched results + length bs"
          using feed_slices_counts [OF Inr [unfolded q]] by simp
        then have "MAX_SEARCH_BYTES - sr_bytes_searched results2
            < MAX_SEARCH_BYTES - sr_bytes_searched results"
          using chunk(2,3) by (cases bs) auto
        moreover from fed Inr q r have "\<exists>s. line_holds P s line1" "extends 0 start results2"
          by (auto dest: extends_trans)
        ultimately show ?thesis using less.hyps chunk(4) Some Inr q by auto
      qed
    qed
  qed
qed

lemma search_file_safe:
  assumes "pattern_ok P" and "within_budget results"
    and "search_file S flag R J P f p results w = (r, w')"
  shows "case r of Inl e \<Rightarrow> answered e | Inr results1 \<Rightarrow> extends 0 results results1"
proof (cases "sr_files_searched results = MAX_SEARCH_FILES")
  case True
  then show ?thesis
    using assms(2,3) by (auto simp: search_file_def op_return_def extends_def within_budget_def)
next
  case False
  let ?r = "results\<lparr>sr_files_searched := sr_files_searched results + 1\<rparr>"
  have r: "within_budget ?r" "extends 0 results ?r"
    using assms(2) False by (auto simp: within_budget_def extends_def)
  from False assms(3) have
    "search_reader S flag R J P p (checkpoint ?r) f 0 line_default 1 [] ?r w = (r, w')"
    by (simp add: search_file_def Let_def)
  moreover have "\<exists>s. line_holds P s line_default" using line_holds_default [OF assms(1)] by blast
  ultimately have "case r of Inl e \<Rightarrow> answered e | Inr results1 \<Rightarrow> extends 0 ?r results1"
    by (intro search_reader_safe [OF assms(1) r(1)]) auto
  with r(2) show ?thesis by (auto split: sum.splits dest: extends_trans)
qed

section \<open>The walk ends\<close>

text \<open>Operations that do not panic, with a fact about the value they return.\<close>

definition safe :: "('v, 'a) search_op \<Rightarrow> ('a \<Rightarrow> bool) \<Rightarrow> bool" where
  "safe m R \<longleftrightarrow> (\<forall>w. case fst (m w) of Inl e \<Rightarrow> answered e | Inr a \<Rightarrow> R a)"

lemma safeI:
  "(\<And>w r w'. m w = (r, w') \<Longrightarrow> case r of Inl e \<Rightarrow> answered e | Inr a \<Rightarrow> R a) \<Longrightarrow> safe m R"
  unfolding safe_def by (metis prod.collapse)

lemma safeD: "safe m R \<Longrightarrow> m w = (r, w') \<Longrightarrow> case r of Inl e \<Rightarrow> answered e | Inr a \<Rightarrow> R a"
  unfolding safe_def by (metis fst_conv)

lemma safe_mono: "safe m R \<Longrightarrow> (\<And>a. R a \<Longrightarrow> R' a) \<Longrightarrow> safe m R'"
  by (auto simp: safe_def split: sum.splits)

lemma safe_bind:
  assumes "safe m Q" and "\<And>a. Q a \<Longrightarrow> safe (f a) R"
  shows "safe (op_bind m f) R"
proof (rule safeI)
  fix w r w' assume "op_bind m f w = (r, w')"
  with safeD [OF assms(1), of w] safeD [OF assms(2)]
  show "case r of Inl e \<Rightarrow> answered e | Inr a \<Rightarrow> R a"
    by (cases "m w"; cases "fst (m w)") (auto simp: op_bind_def)
qed

lemma safe_simple [simp]:
  "safe (op_return a) R \<longleftrightarrow> R a" "safe (op_fail e) R \<longleftrightarrow> answered e"
  "safe (op_map_err (search_failed t) m) (\<lambda>_. True)" "safe (search_cancelled flag) (\<lambda>_. True)"
  by (auto simp: safe_def op_return_def op_fail_def op_map_err_def map_err_def
      search_cancelled_def split: prod.splits sum.splits)

lemma safe_search_file:
  "pattern_ok P \<Longrightarrow> within_budget results \<Longrightarrow> safe (search_file S flag R J P f p results) (extends 0 results)"
  by (rule safeI) (rule search_file_safe)

lemma safe_collect_entries:
  "within_budget results \<Longrightarrow> safe (collect_entries flag relative gathered results listing)
     (\<lambda>(names, results1). length gathered \<le> length names
        \<and> extends (length names - length gathered) results results1)"
proof (induction listing arbitrary: gathered results)
  case Nil
  then show ?case by (intro safeI) auto
next
  case (Cons entry listing)
  let ?r1 = "results\<lparr>sr_entries_visited := sr_entries_visited results + 1\<rparr>"
  let ?R = "\<lambda>(names, results1). length gathered \<le> length names
        \<and> extends (length names - length gathered) results results1"
  have unfold: "collect_entries flag relative gathered results (entry # listing) =
      op_bind (search_cancelled flag) (\<lambda>_.
       if length gathered = MAX_SEARCH_DIRECTORY_ENTRIES then
         op_fail (SearchFailed (failure ''search_limit_exceeded''
           (lit ''directory '' @ quoted (join_components relative) @ lit '' exceeds ''
              @ dec_string MAX_SEARCH_DIRECTORY_ENTRIES @ lit '' entries'') False))
       else case entry of
         Inl source \<Rightarrow> op_fail (search_failed (lit ''failed to read a directory entry'') source)
       | Inr name \<Rightarrow>
           (case record_entry results of
              (False, results1) \<Rightarrow> op_return (gathered, results1)
            | (True, results1) \<Rightarrow> collect_entries flag relative (gathered @ [name]) results1 listing))"
    by (rule ext) simp
  have "safe (collect_entries flag relative (gathered @ [name]) ?r1 listing) ?R"
    if "sr_entries_visited results \<noteq> MAX_SEARCH_ENTRIES" for name
  proof -
    have r1: "within_budget ?r1" "extends 1 results ?r1"
      using Cons.prems that by (auto simp: within_budget_def extends_def)
    have "extends (k - length gathered) results r2"
      if "Suc (length gathered) \<le> k" "extends (k - Suc (length gathered)) ?r1 r2" for k r2
    proof -
      have "1 + (k - Suc (length gathered)) = k - length gathered" using that(1) by simp
      with extends_trans [OF r1(2) that(2)] show ?thesis by metis
    qed
    then show ?thesis
      by (intro safe_mono [OF Cons.IH [OF r1(1), of "gathered @ [name]"]]) (auto split: prod.splits)
  qed
  then show ?case
    unfolding unfold
    by (intro safe_bind [of _ "\<lambda>_. True"])
      (auto simp: record_entry_def split: sum.split)
qed

lemma safe_sorted_entries:
  assumes "within_budget results"
  shows "safe (sorted_entries S flag dir relative results)
    (\<lambda>(names, results1). extends (length names) results results1)"
  unfolding sorted_entries_def
  by (rule safe_bind, rule safe_simple, rule safe_bind, rule safe_collect_entries [OF assms]) auto

text \<open>What is left to visit: entries in the budget or on the stack, and frames to leave.\<close>

definition walk_measure :: "directory_frame list \<Rightarrow> 'v search_results \<Rightarrow> nat" where
  "walk_measure stack results =
     2 * (MAX_SEARCH_ENTRIES - sr_entries_visited results)
       + 2 * sum_list (map (length \<circ> fr_entries) stack) + length stack"

text \<open>What one round of the loop may do.\<close>

fun walk_ok :: "nat \<Rightarrow> 'v walk_state \<Rightarrow> bool" where
  "walk_ok m (WalkDone results) \<longleftrightarrow> within_budget results"
| "walk_ok m (WalkOn stack results) \<longleftrightarrow> within_budget results \<and> walk_measure stack results < m"

lemma safe_enter_directory:
  assumes "within_budget results" and "walk_measure stack results + 1 < m"
  shows "safe (enter_directory S flag stack s entry_path results) (walk_ok m)"
proof -
  let ?r1 = "results\<lparr>sr_directories_visited := Suc (sr_directories_visited results)\<rparr>"
  have enter: "safe (op_bind (op_map_err (search_failed t) (fs_open_entry_dir S s)) (\<lambda>dir.
      op_bind (sorted_entries S flag dir entry_path ?r1) (\<lambda>(names, results2).
        op_return (if sr_limit_reached results2 then WalkDone results2
          else WalkOn (\<lparr>fr_relative_path = entry_path, fr_directory = dir, fr_entries = names\<rparr>
                 # stack) results2)))) (walk_ok m)"
    if "sr_directories_visited results \<noteq> MAX_SEARCH_DIRECTORIES" for t
  proof -
    have r1: "within_budget ?r1" using assms(1) that by (auto simp: within_budget_def)
    have next_state: "walk_ok m (WalkDone results2)"
      "walk_ok m (WalkOn (\<lparr>fr_relative_path = entry_path, fr_directory = dir, fr_entries = names\<rparr>
         # stack) results2)"
      if "extends (length names) ?r1 results2" for dir names results2
    proof -
      from that r1 have within: "within_budget results2"
        and visited: "sr_entries_visited results2 = sr_entries_visited results + length names"
        by (auto simp: extends_def)
      from within have "sr_entries_visited results2 \<le> MAX_SEARCH_ENTRIES" by (simp add: within_budget_def)
      then have "2 * (MAX_SEARCH_ENTRIES - sr_entries_visited results2) + 2 * length names
          = 2 * (MAX_SEARCH_ENTRIES - sr_entries_visited results)"
        unfolding visited by arith
      with within assms(2) show "walk_ok m (WalkDone results2)"
        "walk_ok m (WalkOn (\<lparr>fr_relative_path = entry_path, fr_directory = dir, fr_entries = names\<rparr>
           # stack) results2)"
        by (simp_all add: walk_measure_def)
    qed
    show ?thesis
      by (intro safe_bind [OF safe_simple(3)] safe_bind [OF safe_sorted_entries [OF r1]])
        (auto simp del: walk_ok.simps split: prod.splits intro: next_state)
  qed
  have "within_budget (mark_limit_reached results)"
    using assms(1) by (simp add: within_budget_def mark_limit_reached_def)
  with enter assms show ?thesis
    by (auto simp: enter_directory_def record_directory_def)
qed

lemma safe_walk_step:
  assumes "pattern_ok P" and "within_budget results"
  shows "safe (walk_step S flag R J P stack results) (walk_ok (walk_measure stack results))"
proof (cases stack)
  case Nil
  with assms show ?thesis by (simp add: walk_step_def)
next
  case (Cons frame below)
  let ?m = "walk_measure stack results"
  show ?thesis
  proof (cases "fr_entries frame")
    case Nil
    with Cons assms show ?thesis
      by (simp add: walk_step_def) (intro safe_bind [OF safe_simple(4)], simp add: walk_measure_def)
  next
    case entries: (Cons name names)
    let ?stack = "frame\<lparr>fr_entries := names\<rparr> # below"
    have m: "walk_measure ?stack r + 2 = ?m" if "sr_entries_visited r = sr_entries_visited results" for r :: "'a search_results"
      using that by (simp add: walk_measure_def Cons entries)
    have searched: "walk_ok ?m (WalkDone r)" "walk_ok ?m (WalkOn ?stack r)" if "extends 0 results r" for r
      using that assms(2) m [of r] by (auto simp: extends_def)
    have on: "walk_ok ?m (WalkOn ?stack results)"
      by (rule searched(2) [OF extends_refl])
    have "safe (walk_entry S flag R J P ?stack s p results) (walk_ok ?m)" for s p
      unfolding walk_entry_def
      using on m [of results] assms
      by (intro safe_bind [OF safe_simple(3)])
        (auto simp del: walk_ok.simps split: node_kind.split prod.split
          intro!: safe_bind [OF safe_simple(3)] safe_bind [OF safe_search_file] safe_enter_directory searched)
    with Cons entries show ?thesis
      by (simp add: walk_step_def) (intro safe_bind [OF safe_simple(4)], simp)
  qed
qed

text \<open>A rule for the whole walk: it ends, and an invariant of the rounds gives its result.\<close>

lemma walk_tree_rule:
  assumes P: "pattern_ok P"
    and rounds: "\<And>stack results w r w1. Q stack results w \<Longrightarrow>
      walk_step S flag R J P stack results w = (r, w1) \<Longrightarrow>
      case r of Inl e \<Rightarrow> E (Inl e) | Inr (WalkDone results1) \<Rightarrow> E (Inr results1)
        | Inr (WalkOn stack1 results1) \<Rightarrow> Q stack1 results1 w1"
  shows "Q stack results w \<Longrightarrow> within_budget results \<Longrightarrow>
    \<exists>r w'. walk_tree S flag R J P stack results w = Some (r, w') \<and> E r
      \<and> (case r of Inl e \<Rightarrow> answered e | Inr results1 \<Rightarrow> within_budget results1)"
proof (induction "walk_measure stack results" arbitrary: stack results w rule: less_induct)
  case less
  obtain r w1 where step: "walk_step S flag R J P stack results w = (r, w1)" by fastforce
  note safe = safeD [OF safe_walk_step [OF P less.prems(2)] step]
  note Q = rounds [OF less.prems(1) step]
  show ?case
  proof (cases r)
    case (Inl e)
    with safe Q step show ?thesis by (subst walk_tree.simps) simp
  next
    case (Inr st)
    show ?thesis
    proof (cases st)
      case (WalkDone results1)
      with Inr safe Q step show ?thesis by (subst walk_tree.simps) simp
    next
      case (WalkOn stack1 results1)
      with Inr safe Q have "Q stack1 results1 w1" "within_budget results1"
        "walk_measure stack1 results1 < walk_measure stack results" by simp_all
      with less.hyps WalkOn Inr step show ?thesis by (subst walk_tree.simps) simp
    qed
  qed
qed

lemma within_budget_default: "within_budget results_default"
  by (simp add: within_budget_def results_default_def)

lemma search_directory_answers:
  assumes "pattern_ok P" and "within_budget results"
  shows "\<exists>r w'. search_directory S flag R J P root relative results w = Some (r, w')
    \<and> (case r of Inl e \<Rightarrow> answered e | Inr results1 \<Rightarrow> within_budget results1)"
proof -
  let ?r0 = "snd (record_directory results)"
  have r0: "within_budget ?r0"
    using assms(2) by (auto simp: record_directory_def within_budget_def mark_limit_reached_def)
  obtain q w1 where q: "sorted_entries S flag root relative ?r0 w = (q, w1)" by fastforce
  note safe = safeD [OF safe_sorted_entries [OF r0] q]
  show ?thesis
  proof (cases q)
    case (Inl e)
    with safe q show ?thesis by (simp add: search_directory_def)
  next
    case (Inr a)
    obtain names results1 where a: "a = (names, results1)" by (cases a)
    with safe Inr r0 have results1: "within_budget results1" by (simp add: extends_def)
    then have "\<exists>r w'. walk_tree S flag R J P stack results1 v = Some (r, w') \<and> True
        \<and> (case r of Inl e \<Rightarrow> answered e | Inr results2 \<Rightarrow> within_budget results2)" for stack v
      by (intro walk_tree_rule [OF assms(1), where Q = "\<lambda>_ _ _. True" and E = "\<lambda>_. True"])
        (auto split: sum.split walk_state.split)
    with q Inr a results1 show ?thesis by (simp add: search_directory_def)
  qed
qed

lemma search_resolved_answers:
  assumes "pattern_ok P"
  shows "\<exists>r w'. search_resolved S flag R J P relative w = Some (r, w')
    \<and> (case r of Inl e \<Rightarrow> answered e | Inr results1 \<Rightarrow> within_budget results1)"
proof -
  obtain q w1 where q: "fs_open_dir S relative w = (q, w1)" by fastforce
  show ?thesis
  proof (cases q)
    case (Inl e)
    let ?m = "op_bind (op_map_err (search_failed (lit ''failed to open '' @ quoted (join_components relative)))
        (open_regular_file S relative)) (\<lambda>(f, m).
      search_file S flag R J P f (display_relative_path relative) results_default)"
    have "safe ?m (extends 0 results_default)"
      by (rule safe_bind [OF safe_simple(3)])
        (auto intro: safe_search_file [OF assms within_budget_default])
    then have "safe ?m within_budget"
      by (rule safe_mono) (simp add: extends_def within_budget_default)
    moreover obtain r w' where "?m w1 = (r, w')" by fastforce
    ultimately show ?thesis
      using q Inl safeD [of ?m within_budget w1 r w'] by (simp add: search_resolved_def)
  next
    case (Inr dir)
    with q search_directory_answers [OF assms within_budget_default] show ?thesis
      by (simp add: search_resolved_def)
  qed
qed

lemma search_arguments_query: "search_arguments R v = Inr (query, p) \<Longrightarrow> query \<noteq> []"
  by (auto simp: search_arguments_def try_res_Inr split: if_splits option.splits)

lemma search_arguments_failure: "search_arguments R v = Inl out \<Longrightarrow> small_failure out"
  by (auto simp: search_arguments_def try_res_Inl optional_string_def Let_def
      dest: parse_arguments_Inl required_string_Inl split: if_splits option.splits)

text \<open>An output of a tool that fits the event it is put into.\<close>

definition bounded_output :: "'v json_read \<Rightarrow> 'v tool_output \<Rightarrow> bool" where
  "bounded_output R out \<longleftrightarrow> encoded_len R out \<le> MAX_OUTPUT_BYTES \<or> small_failure out"

lemma bounded_finalize: "bounded_output R (finalize_output (encoded_len R) out)"
  by (simp add: finalize_output_def bounded_output_def)

lemma bounded_search: "bounded_output R (bounded_search_output R J c p query results)"
  by (auto simp: bounded_search_output_def Let_def bounded_finalize split: option.split)
    (simp add: bounded_output_def)

text \<open>
  C19. A search always answers: whatever the workspace holds, however other processes change it
  meanwhile, whichever calls fail and whenever it is cancelled, search-files returns, does not
  panic, and its output is a bounded failure or fits the 65536 bytes of a tool output.
\<close>
theorem search_always_answers:
  "\<exists>out w'. search_execute S R J c flag call w = Some (Some out, w') \<and> bounded_output R out"
proof (cases "search_arguments R (tc_arguments call)")
  case (Inl out)
  with search_arguments_failure [OF Inl] show ?thesis
    by (simp add: search_execute_def bounded_output_def)
next
  case (Inr a)
  obtain query p where a: "a = (query, p)" by (cases a)
  from search_arguments_query [OF Inr [unfolded a]] have "as_bytes query \<noteq> []"
    by (simp add: as_bytes_Nil)
  from literal_pattern_new_ok [OF this] obtain P where
    P: "literal_pattern_new (as_bytes query) = Some P" "pattern_ok P" by blast
  obtain q w1 where q: "resolve_existing S c p w = (q, w1)" by fastforce
  show ?thesis
  proof (cases q)
    case (Inl e)
    with Inr a q show ?thesis
      by (simp add: search_execute_def workspace_path_failure_def bounded_output_def)
  next
    case resolved: (Inr resolved)
    from search_resolved_answers [OF P(2), of S flag R J "rp_relative resolved" w1] obtain r w2 where
      r: "search_resolved S flag R J P (rp_relative resolved) w1 = Some (r, w2)"
      "case r of Inl e \<Rightarrow> answered e | Inr results1 \<Rightarrow> within_budget results1" by blast
    have "r \<noteq> Inl SearchPanicked" using r(2) by auto
    then have "\<exists>out. (case r of Inr results \<Rightarrow> Some (bounded_search_output R J c p query results)
        | Inl (SearchFailed output) \<Rightarrow> Some output | Inl SearchPanicked \<Rightarrow> None) = Some out
        \<and> bounded_output R out"
      using r(2) bounded_search [of R J c p query]
      by (auto simp: bounded_output_def split: sum.splits search_error.splits)
    with Inr a q resolved P(1) r(1) show ?thesis
      by (cases r) (auto simp: search_execute_def split: search_error.splits)
  qed
qed

end
