(* ===== verification/Search_Walk.thy ===== *)
theory Search_Walk
  imports Search_Tree Demo_Disk
begin

text \<open>
  What a search of a directory tree reports on a disk that stands still: the matches of every file
  of the tree, in the order of the names, up to the limit that stopped it.
\<close>

declare split_paired_All [simp del] split_paired_Ex [simp del]

section \<open>The reference\<close>

text \<open>The names in a directory, and the files below it down to a depth of \<open>k\<close> directories.\<close>

definition listed :: "(io_error + ustring) list \<Rightarrow> ustring list" where
  "listed listing = [name. Inr name \<leftarrow> listing]"

definition dir_names :: "'h system \<Rightarrow> disk \<Rightarrow> node_id \<Rightarrow> ustring list" where
  "dir_names S d dir = (case sys_list S dir d of Inl _ \<Rightarrow> [] | Inr listing \<Rightarrow> sort (listed listing))"

type_synonym found_file = "path \<times> nat list"

definition entry_files ::
    "'h system \<Rightarrow> disk \<Rightarrow> (node_id \<Rightarrow> path \<Rightarrow> found_file list) \<Rightarrow> node_id \<Rightarrow> path \<Rightarrow> ustring
       \<Rightarrow> found_file list" where
  "entry_files S d below dir p name =
     (case sys_entry_type S (dir, name) d of
        Inr DirectoryNode \<Rightarrow>
          if name = lit ''.git'' \<or> name = RECOVERY_DIRECTORY then []
          else (case sys_open_entry_dir S (dir, name) d of
              Inr sub \<Rightarrow> below sub (p @ [NormalComp name]) | Inl _ \<Rightarrow> [])
      | Inr RegularNode \<Rightarrow>
          (case Option.bind (lookup d (dir, name)) (node_bytes d) of
             Some b \<Rightarrow> [(p @ [NormalComp name], b)] | None \<Rightarrow> [])
      | _ \<Rightarrow> [])"

primrec tree_files ::
    "'h system \<Rightarrow> disk \<Rightarrow> nat \<Rightarrow> node_id \<Rightarrow> path \<Rightarrow> found_file list" where
  "tree_files S d 0 dir p = []"
| "tree_files S d (Suc k) dir p =
     concat (map (entry_files S d (tree_files S d k) dir p) (dir_names S d dir))"

definition matches_in :: "'v json_build \<Rightarrow> nat list \<Rightarrow> found_file list \<Rightarrow> 'v list" where
  "matches_in J needle files =
     concat (map (\<lambda>(p, b). file_matches J needle (display_relative_path p) b) files)"

lemma matches_in_simps [simp]:
  "matches_in J needle [] = []"
  "matches_in J needle ((p, b) # files) =
     file_matches J needle (display_relative_path p) b @ matches_in J needle files"
  "matches_in J needle (files @ files1) = matches_in J needle files @ matches_in J needle files1"
  by (simp_all add: matches_in_def)

section \<open>A disk that stands still\<close>

definition stands_still :: "'h system \<Rightarrow> bool" where
  "stands_still S \<longleftrightarrow> (\<forall>n d. sys_interfere S n d = d)"

lemma standing_leaves_bytes: "stands_still S \<Longrightarrow> leaves_bytes S"
  by (simp add: stands_still_def leaves_bytes_def)

lemma inspect_still:
  "stands_still S \<Longrightarrow> inspect_disk S f w = (r, w') \<Longrightarrow>
     disk_of w' = disk_of w \<and> (\<forall>a. r = Inr a \<longrightarrow> f (disk_of w) = Inr a)"
  by (auto simp: stands_still_def inspect_disk_def syscall_def Let_def split: option.splits)

lemma cancelled_still: "search_cancelled flag w = (r, w') \<Longrightarrow> disk_of w' = disk_of w"
  by (auto simp: search_cancelled_def split: if_splits)

lemma op_map_err_Inr: "op_map_err f m w = (Inr a, w') \<longleftrightarrow> m w = (Inr a, w')"
  by (auto simp: op_map_err_def map_err_def split: prod.splits sum.splits)

lemma read_chunk_still:
  "stands_still S \<Longrightarrow> read_chunk S flag f p i results w = (Inr bs, w') \<Longrightarrow> disk_of w' = disk_of w"
  by (auto simp: read_chunk_def op_bind_Inr op_map_err_Inr fs_read_at_def syscall_def with_node_def
      stands_still_def Let_def dest!: cancelled_still split: option.splits)

lemma search_reader_still:
  assumes still: "stands_still S"
  shows "search_reader S flag R J P p cp f i line n utf8 results w = (Inr r, w')
    \<Longrightarrow> disk_of w' = disk_of w"
proof (induction "MAX_SEARCH_BYTES - sr_bytes_searched results"
    arbitrary: i line n utf8 results w rule: less_induct)
  case less
  from less.prems [unfolded search_reader_unfold] obtain bs w1 where
    chunk: "read_chunk S flag f p i results w = (Inr bs, w1)"
    and rest: "w' = w1 \<or> (\<exists>line1 n1 utf81 results2. bs \<noteq> [] \<and> sr_bytes_searched results < MAX_SEARCH_BYTES
      \<and> sr_bytes_searched results2 = sr_bytes_searched results + length bs
      \<and> search_reader S flag R J P p cp f (i + length bs) line1 n1 utf81 results2 w1 = (Inr r, w'))"
    by (auto simp: Let_def not_le dest!: feed_slices_counts split: if_splits option.splits sum.splits prod.splits)
      blast
  have w1: "disk_of w1 = disk_of w" by (rule read_chunk_still [OF still chunk])
  from rest show ?case
  proof (elim disjE exE conjE)
    fix line1 n1 utf81 and results2 :: "'b search_results"
    assume "bs \<noteq> []" "sr_bytes_searched results < MAX_SEARCH_BYTES"
      "sr_bytes_searched results2 = sr_bytes_searched results + length bs"
      and rec: "search_reader S flag R J P p cp f (i + length bs) line1 n1 utf81 results2 w1 = (Inr r, w')"
    then have "MAX_SEARCH_BYTES - sr_bytes_searched results2
        < MAX_SEARCH_BYTES - sr_bytes_searched results" by (cases bs) auto
    from less.hyps [OF this rec] w1 show ?thesis by simp
  qed (simp add: w1)
qed

section \<open>One file\<close>

text \<open>The matches that one step adds are the first of those it should add, all of them without a limit.\<close>

definition reports :: "'v list \<Rightarrow> 'v search_results \<Rightarrow> 'v search_results \<Rightarrow> bool" where
  "reports ms results results1 \<longleftrightarrow>
     (\<exists>rest. sr_matches results @ ms = sr_matches results1 @ rest
        \<and> (\<not> sr_limit_reached results1 \<longrightarrow> rest = [] \<and> \<not> sr_limit_reached results))"

lemma report_lines_reports:
  "reports (line_matches J needle p n ls) results (report_lines R J needle p n ls results)"
proof (induction ls arbitrary: n results)
  case Nil
  then show ?case by (simp add: reports_def)
next
  case (Cons l ls)
  let ?r = "report_line R J needle p n l results"
  have step: "sr_matches ?r = sr_matches results
        @ (if sublist needle l then [match_value J p n (shown_text l)] else [])
      \<and> sr_limit_reached ?r = sr_limit_reached results
    \<or> sr_matches ?r = sr_matches results \<and> sr_limit_reached ?r"
    by (auto simp: report_line_def mark_limit_reached_def Let_def)
  then show ?case
  proof
    assume "sr_matches ?r = sr_matches results \<and> sr_limit_reached ?r"
    then show ?thesis by (simp add: reports_def report_lines_limit)
  next
    assume "sr_matches ?r = sr_matches results
        @ (if sublist needle l then [match_value J p n (shown_text l)] else [])
      \<and> sr_limit_reached ?r = sr_limit_reached results"
    with Cons.IH [of "n + 1" ?r] show ?thesis by (simp add: reports_def)
  qed
qed

lemma searched_reports:
  assumes "searched R J needle p b start results"
  shows "reports (file_matches J needle p b) start results"
proof -
  let ?start = "start\<lparr>sr_bytes_searched := sr_bytes_searched start + length b\<rparr>"
  from assms [unfolded searched_def] consider
    (whole) "is_text b" "results = report_lines R J needle p 1 (file_lines b) ?start"
  | (binary) "\<not> is_text b" "sr_matches results = sr_matches start"
      "sr_limit_reached results = sr_limit_reached start"
  | (over) "sr_matches results = sr_matches start" "sr_limit_reached results"
    by (auto simp: mark_limit_reached_def)
  then show ?thesis
  proof cases
    case whole
    with report_lines_reports [of J needle p 1 "file_lines b" ?start R] show ?thesis
      by (simp add: reports_def file_matches_def)
  qed (simp_all add: reports_def file_matches_def)
qed

lemma search_file_reports:
  assumes P: "pattern_ok P" and still: "stands_still S" and b: "node_bytes (disk_of w) f = Some b"
    and "search_file S flag R J P f p results w = (Inr results1, w')"
  shows "reports (file_matches J (lp_needle P) p b) results results1 \<and> disk_of w' = disk_of w"
proof (cases "sr_files_searched results = MAX_SEARCH_FILES")
  case True
  with assms(4) show ?thesis by (auto simp: search_file_def op_return_def reports_def)
next
  case False
  let ?r = "results\<lparr>sr_files_searched := sr_files_searched results + 1\<rparr>"
  from False assms(4) have run:
    "search_reader S flag R J P p (checkpoint ?r) f 0 line_default 1 [] ?r w = (Inr results1, w')"
    by (simp add: search_file_def Let_def)
  from search_reader_searched [OF P standing_leaves_bytes [OF still] run reading_start [OF P] b]
  have "reports (file_matches J (lp_needle P) p b) ?r results1" by (simp add: searched_reports)
  with search_reader_still [OF still run] show ?thesis by (simp add: reports_def)
qed

section \<open>The tree\<close>

lemma collect_entries_still:
  "collect_entries flag relative gathered results listing w = (Inr (names, results1), w') \<Longrightarrow>
     disk_of w' = disk_of w \<and> sr_matches results1 = sr_matches results
     \<and> (\<not> sr_limit_reached results1 \<longrightarrow>
          names = gathered @ listed listing \<and> \<not> sr_limit_reached results)"
proof (induction listing arbitrary: gathered results w)
  case Nil
  then show ?case by (auto simp: listed_def)
next
  case (Cons entry listing)
  let ?w1 = "w\<lparr>loads := loads w + 1\<rparr>"
  have cancelled: "\<not> flag (loads w)"
    using Cons.prems by (auto simp: op_bind_Inr search_cancelled_def)
  show ?case
  proof (cases entry)
    case (Inl e)
    with Cons.prems cancelled show ?thesis
      by (simp add: op_bind_def op_fail_eq search_cancelled_def split: if_splits)
  next
    case (Inr name)
    show ?thesis
    proof (cases "record_entry results")
      case (Pair b results2)
      with Inr Cons.prems cancelled have "length gathered \<noteq> MAX_SEARCH_DIRECTORY_ENTRIES"
        and "(if b then collect_entries flag relative (gathered @ [name]) results2 listing
            else op_return (gathered, results2)) ?w1 = (Inr (names, results1), w')"
        by (auto simp: op_bind_def op_fail_eq search_cancelled_def split: if_splits)
      then show ?thesis
        using Pair by (auto simp: record_entry_def mark_limit_reached_def op_return_def listed_def Inr
            dest!: Cons.IH split: if_splits)
    qed
  qed
qed

lemma sorted_entries_still:
  assumes "stands_still S"
    and "sorted_entries S flag dir relative results w = (Inr (names, results1), w')"
  shows "disk_of w' = disk_of w \<and> sr_matches results1 = sr_matches results
    \<and> (\<not> sr_limit_reached results1 \<longrightarrow>
         names = dir_names S (disk_of w) dir \<and> \<not> sr_limit_reached results)"
proof -
  from assms(2) obtain listing w1 gathered where
    listing: "fs_list_dir S dir w = (Inr listing, w1)"
    and collect: "collect_entries flag relative [] results listing w1 = (Inr (gathered, results1), w')"
    and names: "names = sort gathered"
    by (auto simp: sorted_entries_def op_bind_Inr op_map_err_Inr op_return_def)
  from inspect_still [OF assms(1) listing [unfolded fs_list_dir_def]] collect_entries_still [OF collect]
  show ?thesis by (auto simp: names dir_names_def)
qed

text \<open>What the frames of the stack still have to report.\<close>

definition frame_files :: "'h system \<Rightarrow> disk \<Rightarrow> nat \<Rightarrow> directory_frame \<Rightarrow> found_file list" where
  "frame_files S d k frame =
     concat (map (entry_files S d (tree_files S d k) (fr_directory frame) (fr_relative_path frame))
       (fr_entries frame))"

fun stack_files :: "'h system \<Rightarrow> disk \<Rightarrow> directory_frame list \<Rightarrow> found_file list" where
  "stack_files S d [] = []"
| "stack_files S d (frame # below) =
     frame_files S d (MAX_SEARCH_DEPTH - Suc (length below)) frame @ stack_files S d below"

text \<open>
  An invariant of the loop: what has been found and what the stack still has to report are \<open>found\<close>.
\<close>

definition walking ::
    "'h system \<Rightarrow> disk \<Rightarrow> 'v json_build \<Rightarrow> nat list \<Rightarrow> 'v list \<Rightarrow> directory_frame list
       \<Rightarrow> 'v search_results \<Rightarrow> world \<Rightarrow> bool" where
  "walking S d J needle found stack results w \<longleftrightarrow>
     disk_of w = d \<and> length stack \<le> MAX_SEARCH_DEPTH \<and> \<not> sr_limit_reached results
     \<and> sr_matches results @ matches_in J needle (stack_files S d stack) = found"

definition walked :: "'v list \<Rightarrow> 'v search_results \<Rightarrow> bool" where
  "walked found results \<longleftrightarrow>
     (\<exists>rest. found = sr_matches results @ rest \<and> (sr_limit_reached results \<or> rest = []))"

lemma walked_limit:
  "found = sr_matches results @ rest \<Longrightarrow> sr_limit_reached results \<Longrightarrow> walked found results"
  by (auto simp: walked_def)

text \<open>What a round of the loop leads to.\<close>

fun walked_step ::
    "'h system \<Rightarrow> disk \<Rightarrow> 'v json_build \<Rightarrow> nat list \<Rightarrow> 'v list \<Rightarrow> world \<Rightarrow> 'v walk_state \<Rightarrow> bool" where
  "walked_step S d J needle found w (WalkDone results) \<longleftrightarrow> walked found results"
| "walked_step S d J needle found w (WalkOn stack results) \<longleftrightarrow>
     walking S d J needle found stack results w"

lemma enter_directory_walks:
  assumes still: "stands_still S" and d: "disk_of w = d"
    and stack: "stack = frame # below" "length stack \<le> MAX_SEARCH_DEPTH"
    and open_results: "\<not> sr_limit_reached results"
    and kind: "sys_entry_type S (dir, name) d = Inr DirectoryNode"
    and found: "sr_matches results @ matches_in J needle
        (entry_files S d (tree_files S d (MAX_SEARCH_DEPTH - length stack)) dir p name
           @ stack_files S d stack) = found"
    and run: "enter_directory S flag stack (dir, name) (p @ [NormalComp name]) results w = (Inr st, w')"
  shows "walked_step S d J needle found w' st"
proof (cases "name = lit ''.git'' \<or> name = RECOVERY_DIRECTORY")
  case True
  with assms show ?thesis
    by (auto simp: enter_directory_def op_return_def walking_def entry_files_def)
next
  case False
  note enter = run [unfolded enter_directory_def]
  show ?thesis
  proof (cases "length stack = MAX_SEARCH_DEPTH \<or> sr_directories_visited results = MAX_SEARCH_DIRECTORIES")
    case True
    with False enter found show ?thesis
      by (auto simp: op_return_def record_directory_def walked_def mark_limit_reached_def split: if_splits)
  next
    case within: False
    let ?r = "results\<lparr>sr_directories_visited := sr_directories_visited results + 1\<rparr>"
    from False within enter obtain sub w1 names results2 where
      sub: "fs_open_entry_dir S (dir, name) w = (Inr sub, w1)"
      and entries: "sorted_entries S flag sub (p @ [NormalComp name]) ?r w1 = (Inr (names, results2), w')"
      and st: "st = (if sr_limit_reached results2 then WalkDone results2 else
        WalkOn (\<lparr>fr_relative_path = p @ [NormalComp name], fr_directory = sub, fr_entries = names\<rparr> # stack)
          results2)"
      by (auto simp: record_directory_def op_bind_Inr op_map_err_Inr op_return_def)
    from inspect_still [OF still sub [unfolded fs_open_entry_dir_def]] d have
      sub_of: "disk_of w1 = d" "sys_open_entry_dir S (dir, name) d = Inr sub" by auto
    note names = sorted_entries_still [OF still entries, unfolded sub_of]
    define k where "k = MAX_SEARCH_DEPTH - Suc (length stack)"
    have k: "MAX_SEARCH_DEPTH - length stack = Suc k"
      using within stack(2) by (auto simp: k_def)
    show ?thesis
    proof (cases "sr_limit_reached results2")
      case True
      with names found st show ?thesis by (auto intro: walked_limit)
    next
      case go_on: False
      have "entry_files S d (tree_files S d (Suc k)) dir p name
          = frame_files S d k \<lparr>fr_relative_path = p @ [NormalComp name], fr_directory = sub,
              fr_entries = dir_names S d sub\<rparr>"
        using False kind sub_of by (simp add: entry_files_def frame_files_def)
      with go_on names found [unfolded k] st within stack(2) show ?thesis
        by (auto simp: walking_def k_def)
    qed
  qed
qed

lemma open_regular_still:
  assumes still: "stands_still S"
    and run: "op_bind (fs_open S s) (require_regular_file S) w = (Inr (f, m), w')"
  shows "disk_of w' = disk_of w \<and> lookup (disk_of w) s = Some f \<and> nodes (disk_of w) f \<noteq> None"
proof -
  from run obtain w1 where opened: "fs_open S s w = (Inr f, w1)"
    and meta: "fs_metadata S f w1 = (Inr m, w')"
    by (auto simp: op_bind_Inr require_regular_file_def op_return_def op_fail_eq split: if_splits)
  from inspect_still [OF still opened [unfolded fs_open_def]] inspect_still [OF still meta [unfolded fs_metadata_def read_node_def]]
  show ?thesis
    by (auto simp: try_res_Inr entry_at_def open_node_def split: option.splits if_splits)
qed

lemma walk_entry_walks:
  assumes still: "stands_still S" and P: "pattern_ok P" and d: "disk_of w = d"
    and stack: "stack = frame # below" "length stack \<le> MAX_SEARCH_DEPTH"
    and open_results: "\<not> sr_limit_reached results"
    and found: "sr_matches results @ matches_in J (lp_needle P)
        (entry_files S d (tree_files S d (MAX_SEARCH_DEPTH - length stack)) dir p name
           @ stack_files S d stack) = found"
    and run: "walk_entry S flag R J P stack (dir, name) (p @ [NormalComp name]) results w = (Inr st, w')"
  shows "walked_step S d J (lp_needle P) found w' st"
proof -
  let ?path = "p @ [NormalComp name]"
  from run obtain kind w1 where typed: "fs_entry_type S (dir, name) w = (Inr kind, w1)"
    and rest: "(case kind of
        SymlinkNode \<Rightarrow> op_return (WalkOn stack results)
      | DirectoryNode \<Rightarrow> enter_directory S flag stack (dir, name) ?path results
      | RegularNode \<Rightarrow>
          op_bind (op_map_err (search_failed (lit ''failed to open '' @ quoted (join_components ?path)))
              (op_bind (fs_open S (dir, name)) (require_regular_file S))) (\<lambda>(f, m).
          op_bind (search_file S flag R J P f (display_relative_path ?path) results) (\<lambda>results1.
            op_return (if sr_limit_reached results1 then WalkDone results1 else WalkOn stack results1)))
      | SpecialNode \<Rightarrow> op_return (WalkOn stack results)) w1 = (Inr st, w')"
    by (auto simp: walk_entry_def op_bind_Inr op_map_err_Inr)
  from inspect_still [OF still typed [unfolded fs_entry_type_def]] d
  have w1: "disk_of w1 = d" and kind: "sys_entry_type S (dir, name) d = Inr kind" by auto
  show ?thesis
  proof (cases kind)
    case DirectoryNode
    with enter_directory_walks [OF still w1 stack open_results _ found] kind rest show ?thesis by simp
  next
    case RegularNode
    with rest obtain f m w2 results1 where
      opened: "op_bind (fs_open S (dir, name)) (require_regular_file S) w1 = (Inr (f, m), w2)"
      and searched: "search_file S flag R J P f (display_relative_path ?path) results w2 = (Inr results1, w')"
      and st: "st = (if sr_limit_reached results1 then WalkDone results1 else WalkOn stack results1)"
      by (auto simp: op_bind_Inr op_map_err_Inr op_return_def split: prod.splits)
    from open_regular_still [OF still opened] w1 obtain b where
      b: "disk_of w2 = d" "lookup d (dir, name) = Some f" "node_bytes d f = Some b"
      by (auto simp: node_bytes_def)
    from b kind RegularNode have files:
      "entry_files S d (tree_files S d (MAX_SEARCH_DEPTH - length stack)) dir p name = [(?path, b)]"
      by (simp add: entry_files_def)
    from search_file_reports [OF P still _ searched, of b] b obtain more where
      more: "sr_matches results @ file_matches J (lp_needle P) (display_relative_path ?path) b
          = sr_matches results1 @ more"
        "\<not> sr_limit_reached results1 \<longrightarrow> more = []" "disk_of w' = d"
      by (auto simp: reports_def)
    from more(1) found [symmetric] have "found = sr_matches results1 @ more
        @ matches_in J (lp_needle P) (stack_files S d stack)"
      by (simp add: files flip: append_assoc)
    with more st stack(2) show ?thesis by (auto simp: walking_def intro: walked_limit)
  next
    case SymlinkNode
    with kind rest found w1 stack(2) open_results show ?thesis
      by (auto simp: op_return_def entry_files_def walking_def)
  next
    case SpecialNode
    with kind rest found w1 stack(2) open_results show ?thesis
      by (auto simp: op_return_def entry_files_def walking_def)
  qed
qed

lemma walk_step_walks:
  assumes still: "stands_still S" and P: "pattern_ok P"
    and walking: "walking S d J (lp_needle P) found stack results w"
    and run: "walk_step S flag R J P stack results w = (Inr st, w')"
  shows "walked_step S d J (lp_needle P) found w' st"
proof (cases stack)
  case Nil
  with walking run show ?thesis by (auto simp: walk_step_def op_return_def walking_def walked_def)
next
  case (Cons frame below)
  show ?thesis
  proof (cases "fr_entries frame")
    case Nil
    with Cons walking run show ?thesis
      by (auto simp: walk_step_def op_bind_Inr op_return_def walking_def frame_files_def
          dest!: cancelled_still)
  next
    case entries: (Cons name names)
    let ?stack = "frame\<lparr>fr_entries := names\<rparr> # below"
    from run Cons entries obtain w1 where w1: "disk_of w1 = disk_of w" and entry:
      "walk_entry S flag R J P ?stack (fr_directory frame, name)
         (fr_relative_path frame @ [NormalComp name]) results w1 = (Inr st, w')"
      by (auto simp: walk_step_def op_bind_Inr dest!: cancelled_still)
    show ?thesis
      using walking w1
      by (intro walk_entry_walks [OF still P _ refl _ _ _ entry])
        (simp_all add: walking_def Cons entries frame_files_def)
  qed
qed

lemma search_directory_reports:
  fixes results :: "'v search_results"
  assumes P: "pattern_ok P" and still: "stands_still S"
    and run: "search_directory S flag R J P dir p results_default w = Some (Inr results, w')"
  shows "walked (matches_in J (lp_needle P) (tree_files S (disk_of w) MAX_SEARCH_DEPTH dir p)) results"
proof -
  let ?d = "disk_of w" and ?k = "MAX_SEARCH_DEPTH - 1"
  let ?r0 = "snd (record_directory results_default) :: 'v search_results"
  let ?found = "matches_in J (lp_needle P) (tree_files S ?d MAX_SEARCH_DEPTH dir p)"
  have depth: "MAX_SEARCH_DEPTH = Suc ?k" by (simp add: MAX_SEARCH_DEPTH_def)
  have r0: "sr_matches ?r0 = []" "within_budget ?r0"
    by (simp_all add: record_directory_def results_default_def mark_limit_reached_def
        within_budget_def MAX_SEARCH_DIRECTORIES_def)
  from run obtain names results1 w1 where
    entries: "sorted_entries S flag dir p ?r0 w = (Inr (names, results1), w1)"
    and rest: "(if sr_limit_reached results1 then Some (Inr results1, w1)
      else walk_tree S flag R J P
        [\<lparr>fr_relative_path = p, fr_directory = dir, fr_entries = names\<rparr>] results1 w1)
      = Some (Inr results, w')"
    by (auto simp: search_directory_def split: prod.splits sum.splits)
  note names = sorted_entries_still [OF still entries, unfolded r0]
  show ?thesis
  proof (cases "sr_limit_reached results1")
    case True
    with rest names show ?thesis by (auto intro: walked_limit)
  next
    case False
    let ?stack = "[\<lparr>fr_relative_path = p, fr_directory = dir, fr_entries = names\<rparr>]"
    from safeD [OF safe_sorted_entries [OF r0(2)] entries] r0(2)
    have within: "within_budget results1" by (simp add: extends_def)
    have "tree_files S ?d MAX_SEARCH_DEPTH dir p
        = concat (map (entry_files S ?d (tree_files S ?d ?k) dir p) (dir_names S ?d dir))"
      by (subst depth) simp
    then have "walking S ?d J (lp_needle P) ?found ?stack results1 w1"
      using names False depth by (simp add: walking_def frame_files_def)
    from walk_tree_rule [OF P, where S = S and flag = flag and R = R and J = J
        and Q = "walking S ?d J (lp_needle P) ?found"
        and E = "\<lambda>r. \<forall>results1. r = Inr results1 \<longrightarrow> walked ?found results1", OF _ this within]
      rest False show ?thesis
      using walk_step_walks [OF still P]
      by (fastforce split: sum.split walk_state.split)
  qed
qed

section \<open>What a search reports\<close>

text \<open>
  C20. On a disk that stands still, a search of a directory reports exactly the matches of the files
  of its tree: every regular file below it that is UTF-8 text (other than in .git and in the recovery
  directory, and not through symbolic links), in the order of the names, each line that contains the
  query with its number and its bounded text. A search that reached a limit says so, and what it
  reports is then the first part of these matches.
\<close>
theorem search_reports_the_tree:
  assumes "stands_still S" and "query \<noteq> []" and "literal_pattern_new (as_bytes query) = Some P"
    and "fs_open_dir S p w = (Inr dir, w1)"
    and "search_resolved S flag R J P p w = Some (Inr results, w')"
  shows "\<exists>rest. matches_in J (as_bytes query) (tree_files S (disk_of w) MAX_SEARCH_DEPTH dir p)
      = sr_matches results @ rest \<and> (sr_limit_reached results \<or> rest = [])"
proof -
  from literal_pattern_new_ok [of "as_bytes query"] assms(2,3)
  have P: "pattern_ok P" "lp_needle P = as_bytes query" by (auto simp: as_bytes_Nil)
  from inspect_still [OF assms(1) assms(4) [unfolded fs_open_dir_def]]
  have w1: "disk_of w1 = disk_of w" by simp
  from assms(4,5) have "search_directory S flag R J P dir p results_default w1 = Some (Inr results, w')"
    by (simp add: search_resolved_def)
  from search_directory_reports [OF P(1) assms(1) this] show ?thesis by (simp add: walked_def P(2) w1)
qed

text \<open>A small tree: a file and a directory with another one.\<close>

definition tree_world :: world where
  "tree_world =
     \<lparr>disk_of =
        \<lparr>nodes = (nodes demo_disk)(Node 8 4 \<mapsto> demo_node DirectoryNode []),
         entries = [((Node 8 2, [103]), Node 8 4), ((Node 8 2, [102]), Node 8 3), ((Node 8 4, [104]), Node 8 3)]\<rparr>,
      calls = 0, loads = 0\<rparr>"

definition tree_json :: "nat list json_build" where
  "tree_json =
     \<lparr>js_null = [], js_string = \<lambda>s. s, js_number = \<lambda>n. [n], js_bool = \<lambda>b. [], js_array = concat,
      js_object = \<lambda>m. concat (map (\<lambda>k. case bt_get m k of None \<Rightarrow> [] | Some v \<Rightarrow> v)
        [lit ''path'', lit ''line'', lit ''text''])\<rparr>"

definition tree_read :: "nat list json_read" where
  "tree_read = \<lparr>as_object = \<lambda>v. None, as_str = Some, value_len = length, encoded_len = \<lambda>out. 0\<rparr>"

definition tree_search ::
    "(nat list search_error + nat list search_results) \<times> world" where
  "tree_search =
     the (search_resolved demo_system never tree_read tree_json (the (literal_pattern_new [97])) [] tree_world)"

lemma tree_pattern: "literal_pattern_new (as_bytes [97]) = Some (the (literal_pattern_new [97]))"
  by code_simp

lemma tree_search_returns:
  "\<not> Option.is_none
     (search_resolved demo_system never tree_read tree_json (the (literal_pattern_new [97])) [] tree_world)"
  by code_simp

lemma tree_search_finds: "map_sum (\<lambda>_. ()) sr_matches (fst tree_search) = Inr [[102, 3, 97], [103, 47, 104, 3, 97]]"
  by code_simp

theorem search_reports_the_tree_witness:
  "\<exists>results rest. fst tree_search = Inr results
    \<and> matches_in tree_json (as_bytes [97]) (tree_files demo_system (disk_of tree_world) MAX_SEARCH_DEPTH (Node 8 2) [])
      = sr_matches results @ rest \<and> (sr_limit_reached results \<or> rest = [])"
proof -
  obtain results w' where run: "tree_search = (Inr results, w')"
    using tree_search_finds by (cases "fst tree_search") (auto simp: prod_eq_iff)
  then have found: "fst tree_search = Inr results" by (metis fst_conv)
  have search: "search_resolved demo_system never tree_read tree_json (the (literal_pattern_new [97]))
      [] tree_world = Some (Inr results, w')"
    using tree_search_returns run unfolding tree_search_def Option.is_none_def by force
  have "stands_still demo_system" by (simp add: stands_still_def)
  moreover obtain w1 where "fs_open_dir demo_system [] tree_world = (Inr (Node 8 2), w1)"
    by (simp add: fs_open_dir_def inspect_disk_def syscall_def demo_system_def)
  ultimately show ?thesis
    using search_reports_the_tree [OF _ _ tree_pattern _ search] found by simp
qed

text \<open>
  C21. Searching one file reports the lines that contain the query, in order, each with its number and
  its bounded text, when the bytes of the file are UTF-8 and nothing when they are not, in whatever
  chunks they are read and whatever else happens on the disk, as long as these bytes are left alone.
  A search that reached a limit says so, and what it reports is then the first part.
\<close>
theorem search_reports_the_file:
  fixes results :: "'v search_results"
  assumes "leaves_bytes S" and "query \<noteq> []" and "literal_pattern_new (as_bytes query) = Some P"
    and "fs_open_dir S p w = (Inl e, w1)" and "open_regular_file S p w1 = (Inr (f, m), w2)"
    and "node_bytes (disk_of w2) f = Some b"
    and "search_resolved S flag R J P p w = Some (Inr results, w')"
  shows "\<exists>rest. file_matches J (as_bytes query) (display_relative_path p) b = sr_matches results @ rest
    \<and> (sr_limit_reached results \<or> rest = [])"
proof -
  let ?r = "results_default\<lparr>sr_files_searched := 1\<rparr> :: 'v search_results"
  from literal_pattern_new_ok [of "as_bytes query"] assms(2,3)
  have P: "pattern_ok P" "lp_needle P = as_bytes query" by (auto simp: as_bytes_Nil)
  from assms(4,5,7) have
    "search_reader S flag R J P (display_relative_path p) (checkpoint ?r) f 0 line_default 1 [] ?r w2
      = (Inr results, w')"
    by (simp add: search_resolved_def op_bind_def op_map_err_def map_err_def search_file_def Let_def
        results_default_def MAX_SEARCH_FILES_def)
  from search_reader_searched [OF P(1) assms(1) this reading_start [OF P(1)] assms(6)]
  have "reports (file_matches J (as_bytes query) (display_relative_path p) b) ?r results"
    by (simp add: searched_reports P(2))
  then show ?thesis by (auto simp: reports_def results_default_def)
qed

text \<open>Searching the file of the demo: opening it as a directory fails.\<close>

definition file_system :: "nat list system" where
  "file_system = demo_system\<lparr>sys_open_dir := \<lambda>p d. Inl (io_error_new IoNotFound [])\<rparr>"

definition file_search ::
    "(nat list search_error + nat list search_results) \<times> world" where
  "file_search = the (search_resolved file_system never tree_read tree_json
     (the (literal_pattern_new [97])) [NormalComp [102]] demo_world)"

lemma file_search_returns:
  "\<not> Option.is_none (search_resolved file_system never tree_read tree_json
     (the (literal_pattern_new [97])) [NormalComp [102]] demo_world)"
  by code_simp

lemma file_search_finds: "map_sum (\<lambda>_. ()) sr_matches (fst file_search) = Inr [[102, 3, 97]]"
  by code_simp

theorem search_reports_the_file_witness:
  "\<exists>results rest. fst file_search = Inr results
    \<and> file_matches tree_json (as_bytes [97]) (display_relative_path [NormalComp [102]]) demo_text
      = sr_matches results @ rest \<and> (sr_limit_reached results \<or> rest = [])"
proof -
  let ?w = "\<lambda>n. demo_world\<lparr>calls := n\<rparr>"
  obtain results w' where run: "file_search = (Inr results, w')"
    using file_search_finds by (cases "fst file_search") (auto simp: prod_eq_iff)
  then have found: "fst file_search = Inr results" by (metis fst_conv)
  have search: "search_resolved file_system never tree_read tree_json (the (literal_pattern_new [97]))
      [NormalComp [102]] demo_world = Some (Inr results, w')"
    using file_search_returns run unfolding file_search_def Option.is_none_def by force
  have rely: "leaves_bytes file_system"
    by (simp add: leaves_bytes_def file_system_def)
  have dir: "fs_open_dir file_system [NormalComp [102]] demo_world = (Inl (io_error_new IoNotFound []), ?w 1)"
    by (simp add: fs_open_dir_def inspect_disk_def syscall_def file_system_def demo_system_def demo_world_def)
  obtain m where opened: "open_regular_file file_system [NormalComp [102]] (?w 1) = (Inr (Node 8 3, m), ?w 3)"
    by (simp add: open_regular_file_def op_bind_def fs_open_path_def require_regular_file_def fs_metadata_def
        read_node_def inspect_disk_def syscall_def file_system_def demo_system_def demo_world_def
        demo_disk_def open_node_def demo_node_def metadata_of_def op_return_def Let_def)
  have bytes: "node_bytes (disk_of (?w 3)) (Node 8 3) = Some demo_text"
    using demo_entry(2) by simp
  show ?thesis
    using search_reports_the_file [OF rely _ tree_pattern dir opened bytes search] found by simp
qed

section \<open>The largest output that fits\<close>

lemma bisect_stop: "\<not> low < high \<Longrightarrow> bisect fits low high = low"
  by (subst bisect.simps) simp

lemma bisect_halve:
  "low < high \<Longrightarrow> bisect fits low high =
     (if fits (low + (high - low + 1) div 2) then bisect fits (low + (high - low + 1) div 2) high
      else bisect fits low (low + (high - low + 1) div 2 - 1))"
  by (subst bisect.simps) (simp add: Let_def)

lemma bisect_fits: "fits low \<Longrightarrow> low \<le> high \<Longrightarrow> fits (bisect fits low high) \<and> bisect fits low high \<le> high"
proof (induction fits low high rule: bisect.induct)
  case (1 fits low high)
  show ?case
  proof (cases "low < high")
    case True
    let ?middle = "low + (high - low + 1) div 2"
    have half: "?middle \<le> high" "low \<le> ?middle - 1" "?middle - 1 \<le> high" using True by auto
    show ?thesis
    proof (cases "fits ?middle")
      case fits: True
      from "1.IH"(1) [OF True refl fits fits half(1)] fits show ?thesis
        by (simp only: bisect_halve [OF True] if_True)
    next
      case False
      from "1.IH"(2) [OF True refl False "1.prems"(1) half(2)] half(3) False show ?thesis
        by (simp only: bisect_halve [OF True] if_False) (elim conjE, intro conjI TrueI, rule order_trans)
    qed
  qed (use "1.prems" in \<open>simp add: bisect_stop\<close>)
qed

lemma bisect_largest:
  assumes "\<And>i j. i \<le> j \<Longrightarrow> fits j \<Longrightarrow> fits i" and "fits j"
  shows "low \<le> high \<Longrightarrow> j \<le> high \<Longrightarrow> j \<le> bisect fits low high"
  using assms
proof (induction fits low high rule: bisect.induct)
  case (1 fits low high)
  note prems = "1.prems"
  show ?case
  proof (cases "low < high")
    case True
    let ?middle = "low + (high - low + 1) div 2"
    have half: "?middle \<le> high" "low \<le> ?middle - 1" using True by auto
    show ?thesis
    proof (cases "fits ?middle")
      case fits: True
      with "1.IH"(1) [OF True refl fits half(1) prems(2) prems(3,4)] True show ?thesis
        by (simp add: bisect_halve)
    next
      case False
      then have "j \<le> ?middle - 1" using prems(3) [of ?middle j] prems(4) by force
      with "1.IH"(2) [OF True refl False half(2) _ prems(3,4)] True False show ?thesis
        by (simp add: bisect_halve)
    qed
  qed (use prems in \<open>simp add: bisect_stop\<close>)
qed

text \<open>
  The output of a search keeps as many matches as fit: whether they fit is tried by bisection,
  and where fewer matches never need more room, the number kept is the largest that fits; there is no
  answer exactly when not even an output without matches fits.
\<close>
lemma largest_fitting_prefix_is_largest:
  assumes "\<And>i j. i \<le> j \<Longrightarrow> fits j \<Longrightarrow> fits i"
  shows "largest_fitting_prefix count fits = (if \<exists>k. fits k then Some (Max {k. k \<le> count \<and> fits k}) else None)"
proof (cases "fits 0")
  case True
  have "k \<le> bisect fits 0 count" if "k \<le> count" "fits k" for k
    using bisect_largest [of fits k 0 count] assms that by blast
  with bisect_fits [of fits 0 count] True have "Max {k. k \<le> count \<and> fits k} = bisect fits 0 count"
    by (intro Max_eqI) auto
  with True show ?thesis by (auto simp: largest_fitting_prefix_def)
next
  case False
  with assms show ?thesis by (fastforce simp: largest_fitting_prefix_def)
qed

lemma largest_fitting_prefix_is_largest_witness:
  "largest_fitting_prefix 9 (\<lambda>k. k \<le> 5) = Some (Max {k. k \<le> 9 \<and> k \<le> (5::nat)})"
  by (subst largest_fitting_prefix_is_largest) auto

end
