(* ===== verification/Read_Tool.thy ===== *)
theory Read_Tool
  imports Utf8 Workspace
begin

text \<open>
  The read tool (crates/capability-coding/src/read.rs): one file of the workspace, up to the budget
  of a tool output, as text.
\<close>

section \<open>The code\<close>

definition MAX_READ_PATH_BYTES :: nat where "MAX_READ_PATH_BYTES = 8 * 1024"

text \<open>An early return is an error of the operation; both ends are outputs.\<close>

type_synonym ('v, 'a) read_op = "('v tool_output, world, 'a) op"

definition read_cancelled :: "(nat \<Rightarrow> bool) \<Rightarrow> ('v, unit) read_op" where
  "read_cancelled flag w =
     (if flag (loads w)
      then (Inl (failure ''tool_cancelled'' (lit ''read_file was cancelled'') False), w\<lparr>loads := loads w + 1\<rparr>)
      else (Inr (), w\<lparr>loads := loads w + 1\<rparr>))"

definition read_arguments :: "'v json_read \<Rightarrow> 'v \<Rightarrow> 'v tool_output + ustring" where
  "read_arguments R arguments =
     try_res (parse_arguments (as_object R) arguments [lit ''path'']) (\<lambda>obj.
     try_res (required_string (as_str R) obj (lit ''path'')) (\<lambda>p.
       if byte_len p \<le> MAX_READ_PATH_BYTES then Inr p
       else Inl (failure ''invalid_arguments'' (lit ''argument '' @ quoted (lit ''path'') @ lit '' exceeds ''
         @ dec_string MAX_READ_PATH_BYTES @ lit '' bytes'') False)))"

definition open_failure :: "path \<Rightarrow> io_error \<Rightarrow> 'v tool_output" where
  "open_failure p source =
     (if io_kind source = IoInvalidInput then
        failure ''path_is_not_file'' (quoted (join_components p) @ lit '' is not a file'') False
      else failure ''workspace_io_error''
        (lit ''failed to open '' @ quoted (join_components p) @ lit '': '' @ io_text source)
        (io_kind source = IoInterrupted))"

definition read_failure :: "path \<Rightarrow> io_error \<Rightarrow> 'v tool_output" where
  "read_failure p source =
     failure ''workspace_io_error''
       (lit ''failed to read '' @ quoted (join_components p) @ lit '': '' @ io_text source)
       (io_kind source = IoInterrupted)"

definition utf8_prefix :: "nat list \<Rightarrow> bool \<Rightarrow> ustring + ustring" where
  "utf8_prefix bytes truncated =
     (case from_utf8 bytes of
        Inr s \<Rightarrow> Inr s
      | Inl e \<Rightarrow>
          if truncated \<and> error_len e = None then
            map_err utf8_error_text (from_utf8 (take (valid_up_to e) bytes))
          else Inl (lit ''file content is not valid UTF-8: '' @ utf8_error_text e))"

text \<open>What is made of the bytes that were read, with the metadata of the opened file.\<close>

definition read_answer ::
    "'v json_read \<Rightarrow> 'v json_build \<Rightarrow> workspace_context \<Rightarrow> path \<Rightarrow> metadata \<Rightarrow> nat list
       \<Rightarrow> 'v tool_output" where
  "read_answer R J c p m bytes =
     (let cut = (MAX_OUTPUT_BYTES < md_size m \<or> MAX_OUTPUT_BYTES < length bytes);
          visible = (if cut then take MAX_OUTPUT_BYTES bytes else bytes)
      in case utf8_prefix visible cut of
           Inl message \<Rightarrow> failure ''file_not_utf8'' message False
         | Inr decoded \<Rightarrow>
             (let (shown, shortened) = truncate_json_string decoded MAX_TOOL_CONTENT_SERIALIZED_BYTES;
                  truncated = (cut \<or> shortened);
                  base = btree_from
                    [(lit ''path'', js_string J (display_relative_path p)),
                     (lit ''bytes'', js_number J (md_size m)),
                     (lit ''returned_bytes'', js_number J (byte_len shown)),
                     (lit ''truncated'', js_bool J truncated),
                     (lit ''workspace'', context_metadata J c)];
                  output_metadata = (if truncated
                    then bt_insert (lit ''truncation_limit_bytes'')
                           (js_number J MAX_TOOL_CONTENT_SERIALIZED_BYTES) base
                    else base)
              in finalize_output (encoded_len R) (Success [ToolText shown] output_metadata [])))"

definition read_outcome ::
    "'h system \<Rightarrow> 'v json_read \<Rightarrow> 'v json_build \<Rightarrow> workspace_context \<Rightarrow> (nat \<Rightarrow> bool) \<Rightarrow> 'v tool_call
       \<Rightarrow> ('v, 'v tool_output) read_op" where
  "read_outcome S R J c flag call =
     op_bind (read_cancelled flag) (\<lambda>_.
     op_bind (op_result (read_arguments R (tc_arguments call))) (\<lambda>p.
     op_bind (op_map_err workspace_path_failure (resolve_existing S c p)) (\<lambda>resolved.
     op_bind (op_map_err (open_failure (rp_relative resolved)) (open_regular_file S (rp_relative resolved)))
       (\<lambda>(f, m).
     op_bind (op_map_err (read_failure (rp_relative resolved))
         (read_up_to S f (MAX_OUTPUT_BYTES + 4) (MAX_OUTPUT_BYTES + 4) 0 [])) (\<lambda>bytes.
     op_bind (read_cancelled flag) (\<lambda>_.
       op_return (read_answer R J c (rp_relative resolved) m bytes)))))))"

definition read_execute ::
    "'h system \<Rightarrow> 'v json_read \<Rightarrow> 'v json_build \<Rightarrow> workspace_context \<Rightarrow> (nat \<Rightarrow> bool) \<Rightarrow> 'v tool_call
       \<Rightarrow> world \<Rightarrow> 'v tool_output \<times> world" where
  "read_execute S R J c flag call w =
     (case read_outcome S R J c flag call w of (Inl out, w1) \<Rightarrow> (out, w1) | (Inr out, w1) \<Rightarrow> (out, w1))"

end
