(* ===== verification/Read_Properties.thy ===== *)
theory Read_Properties
  imports Read_Tool Publish_Safety Demo_Disk
begin

text \<open>
  What read-file returns: the bytes of the file while they are left alone, and honest marks on what
  was cut off.
\<close>

section \<open>What is read\<close>

lemma read_up_to_bytes:
  assumes rely: "leaves_bytes S"
  shows "read_up_to S f chunk limit (length acc) acc w = (Inr bs, w')
    \<Longrightarrow> node_bytes (disk_of w) f = Some b \<Longrightarrow> acc = take (length acc) b \<Longrightarrow> 0 < chunk
    \<Longrightarrow> length acc \<le> limit \<Longrightarrow> bs = take limit b"
proof (induction "limit - length acc" arbitrary: acc w rule: less_induct)
  case less
  note frame = exchange_invariant.axioms(1) [OF bytes_frame [OF rely, of f b]]
  show ?case
  proof (cases "length acc < limit")
    case False
    with less.prems show ?thesis by (simp add: read_up_to.simps)
  next
    case True
    let ?wanted = "min (limit - length acc) chunk"
    from True less.prems(1) obtain read w1 where read: "fs_read_at S f ?wanted (length acc) w = (Inr read, w1)"
      and rest: "(if read = [] then (Inr acc, w1)
        else read_up_to S f chunk limit (length acc + length read) (acc @ read) w1) = (Inr bs, w')"
      by (subst (asm) read_up_to.simps) (auto split: prod.splits sum.splits)
    obtain k where k: "read = take (Suc k) (drop (length acc) b)" "Suc k \<le> limit - length acc"
      using read_at_bytes [OF rely less.prems(2) read] True less.prems(4)
      by (auto simp: moved_def intro!: that [of "moved S (calls w) ?wanted - 1"])
    show ?thesis
    proof (cases "read = []")
      case True
      then have "length b \<le> length acc" using k(1) by auto
      with True rest less.prems(3,5) show ?thesis by auto
    next
      case False
      have w1: "node_bytes (disk_of w1) f = Some b"
        using steadyD [OF disk_invariant.read_at_keeps [OF frame] read] less.prems(2) by simp
      have "length read \<le> limit - length acc" using k by auto
      then have within: "length (acc @ read) \<le> limit" using True by simp
      have so_far: "acc @ read = take (length (acc @ read)) b"
      proof -
        have "length acc \<le> length b" using less.prems(3) by (metis length_take min.cobounded1)
        then have "length read \<le> length (drop (length acc) b)" "read = take (length read) (drop (length acc) b)"
          using k(1) by (auto simp: min_def)
        then show ?thesis using less.prems(3) by (metis length_append take_add)
      qed
      have smaller: "limit - length (acc @ read) < limit - length acc"
        using True False by (simp add: diff_less_mono2)
      have "read_up_to S f chunk limit (length (acc @ read)) (acc @ read) w1 = (Inr bs, w')"
        using rest False by simp
      from less.hyps [OF smaller this w1 so_far less.prems(4) within] show ?thesis .
    qed
  qed
qed

lemma open_regular_size:
  assumes "open_regular_file S p w = (Inr (f, m), w')" and "node_bytes (disk_of w') f = Some b"
  shows "md_size m = length b"
  using assms
  by (auto simp: open_regular_file_def op_bind_Inr require_regular_file_def op_return_def op_fail_eq
      fs_metadata_def read_node_def inspect_disk_def syscall_def Let_def node_bytes_def metadata_of_def
      split: if_splits option.splits)

text \<open>The text that is shown of a file with the bytes \<open>b\<close>.\<close>

lemma utf8_prefix_shown:
  assumes "utf8_prefix bytes truncated = Inr s"
  shows "prefix (as_bytes s) bytes" and "\<not> truncated \<Longrightarrow> as_bytes s = bytes"
  using assms take_is_prefix [of _ bytes]
  by (auto simp: utf8_prefix_def map_err_Inr dest!: from_utf8_encodes split: sum.splits if_splits)

lemma utf8_prefix_text:
  assumes "is_text (bytes @ rest)" and "\<not> truncated \<Longrightarrow> rest = []"
  shows "\<exists>s. utf8_prefix bytes truncated = Inr s"
proof -
  have "\<not> is_broken bytes" using assms(1) is_broken_append text_not_broken by blast
  then show ?thesis
    using assms incomplete_split [of bytes]
    by (auto simp: utf8_prefix_def is_broken_def is_text_iff split: sum.splits)
qed

text \<open>The answer of the tool is about all of the file.\<close>

definition shows_file :: "'v json_build \<Rightarrow> nat list \<Rightarrow> 'v tool_output \<Rightarrow> bool" where
  "shows_file J b out \<longleftrightarrow>
     (\<exists>t meta. out = Success [ToolText t] meta []
        \<and> prefix (as_bytes t) b \<and> length (as_bytes t) \<le> MAX_OUTPUT_BYTES
        \<and> bt_get meta (lit ''truncated'') = Some (js_bool J (as_bytes t \<noteq> b))
        \<and> bt_get meta (lit ''bytes'') = Some (js_number J (length b)))"

definition failed_with :: "(ustring \<Rightarrow> bool) \<Rightarrow> 'v tool_output \<Rightarrow> bool" where
  "failed_with codes out \<longleftrightarrow> (\<exists>e x. out = Failure e x \<and> codes (te_code e))"

lemma failed_with_failure [simp]: "failed_with codes (failure code message retryable) \<longleftrightarrow> codes (lit code)"
  by (simp add: failed_with_def failure_def)

lemma metadata_get:
  fixes entries
  defines "entries \<equiv> \<lambda>a b c d e. btree_from
    [(lit ''path'', a), (lit ''bytes'', b), (lit ''returned_bytes'', c), (lit ''truncated'', d), (lit ''workspace'', e)]"
  shows "bt_get (entries a b c d e) (lit ''truncated'') = Some d"
    "bt_get (entries a b c d e) (lit ''bytes'') = Some b"
    "bt_get (bt_insert (lit ''truncation_limit_bytes'') x (entries a b c d e)) (lit ''truncated'') = Some d"
    "bt_get (bt_insert (lit ''truncation_limit_bytes'') x (entries a b c d e)) (lit ''bytes'') = Some b"
  by (simp_all add: entries_def btree_from_def lit_def bt_get_def)

lemma read_answer_shows:
  assumes "md_size m = length b"
  shows "shows_file J b (read_answer R J c p m (take (MAX_OUTPUT_BYTES + 4) b))
    \<or> failed_with (\<lambda>code. is_text b \<longrightarrow> code \<noteq> lit ''file_not_utf8'')
        (read_answer R J c p m (take (MAX_OUTPUT_BYTES + 4) b))"
proof -
  let ?bytes = "take (MAX_OUTPUT_BYTES + 4) b" and ?cut = "MAX_OUTPUT_BYTES < length b"
  let ?visible = "take MAX_OUTPUT_BYTES b"
  have cut: "(MAX_OUTPUT_BYTES < md_size m \<or> MAX_OUTPUT_BYTES < length ?bytes) = ?cut"
    and visible: "(if ?cut then take MAX_OUTPUT_BYTES ?bytes else ?bytes) = ?visible"
    using assms by auto
  show ?thesis
  proof (cases "utf8_prefix ?visible ?cut")
    case (Inl message)
    with utf8_prefix_text [of ?visible "drop MAX_OUTPUT_BYTES b" ?cut] have "\<not> is_text b" by auto
    with Inl show ?thesis unfolding read_answer_def Let_def cut visible by simp
  next
    case (Inr s)
    let ?t = "bounded_prefix MAX_TOOL_CONTENT_SERIALIZED_BYTES 2 s"
    note t = as_bytes_prefix [OF bounded_prefix_prefix [of MAX_TOOL_CONTENT_SERIALIZED_BYTES 2 s]]
    note shown = utf8_prefix_shown [OF Inr]
    from shown(1) t have pre: "prefix (as_bytes ?t) ?visible" by (meson prefix_order.trans)
    then have "prefix (as_bytes ?t) b" "length (as_bytes ?t) \<le> MAX_OUTPUT_BYTES"
      using take_is_prefix prefix_order.trans prefix_length_le by (blast, fastforce)
    moreover have "?cut \<or> ?t \<noteq> s \<longleftrightarrow> as_bytes ?t \<noteq> b"
    proof (cases ?cut)
      case True
      with \<open>length (as_bytes ?t) \<le> MAX_OUTPUT_BYTES\<close> show ?thesis by auto
    next
      case False
      with shown(2) t show ?thesis by auto
    qed
    ultimately show ?thesis
      using Inr assms unfolding read_answer_def Let_def cut visible
      by (auto simp: truncate_json_string_eq finalize_output_def shows_file_def metadata_get)
  qed
qed

text \<open>
  C24. What read-file shows is the file: the text it returns is a prefix of the bytes of the file, and
  it is marked as truncated exactly when it is not all of them; the length it reports is that of the
  file. Otherwise it fails, but never with the claim that a UTF-8 file is not UTF-8, even where the
  budget cuts a character in two. Other processes may do anything that leaves these bytes alone.
\<close>
theorem read_returns_the_file:
  assumes "leaves_bytes S" and "\<not> flag (loads w)" and "read_arguments R (tc_arguments call) = Inr p"
    and "resolve_existing S c p (w\<lparr>loads := loads w + 1\<rparr>) = (Inr resolved, w1)"
    and "open_regular_file S (rp_relative resolved) w1 = (Inr (f, m), w2)"
    and "node_bytes (disk_of w2) f = Some b"
  shows "shows_file J b (fst (read_execute S R J c flag call w))
    \<or> failed_with (\<lambda>code. is_text b \<longrightarrow> code \<noteq> lit ''file_not_utf8'') (fst (read_execute S R J c flag call w))"
proof -
  obtain q w3 where q: "read_up_to S f (MAX_OUTPUT_BYTES + 4) (MAX_OUTPUT_BYTES + 4) 0 [] w2 = (q, w3)"
    by fastforce
  have run: "read_outcome S R J c flag call w =
      op_bind (op_map_err (read_failure (rp_relative resolved)) (\<lambda>w. (q, w3))) (\<lambda>bytes.
        op_bind (read_cancelled flag) (\<lambda>_. op_return (read_answer R J c (rp_relative resolved) m bytes))) w2"
    using assms(2-5) q
    by (simp add: read_outcome_def op_bind_def read_cancelled_def op_result_def op_map_err_def)
  show ?thesis
  proof (cases q)
    case (Inl e)
    with run show ?thesis
      by (simp add: read_execute_def op_bind_def op_map_err_def read_failure_def)
  next
    case (Inr bytes)
    have "bytes = take (MAX_OUTPUT_BYTES + 4) b"
      by (rule read_up_to_bytes [OF assms(1), of f "MAX_OUTPUT_BYTES + 4" _ "[]" w2])
        (use q Inr assms(6) in simp_all)
    with run Inr read_answer_shows [OF open_regular_size [OF assms(5,6)]] show ?thesis
      by (cases "flag (loads w3)")
        (simp_all add: read_execute_def op_bind_def op_map_err_def read_cancelled_def op_return_def)
  qed
qed

text \<open>The file of the demo disk.\<close>

definition read_demo_json :: "ustring json_read" where
  "read_demo_json =
     \<lparr>as_object = \<lambda>v. Some [(lit ''path'', v)], as_str = Some, value_len = length, encoded_len = \<lambda>out. 0\<rparr>"

definition read_demo_call :: "ustring tool_call" where
  "read_demo_call =
     \<lparr>tc_id = ToolCallId [49], tc_tool_name = lit ''read_file'', tc_arguments = [102]\<rparr>"

theorem read_returns_the_file_witness:
  "\<forall>J. shows_file J demo_text (fst (read_execute demo_system read_demo_json J demo_context never read_demo_call demo_world))
    \<or> failed_with (\<lambda>code. is_text demo_text \<longrightarrow> code \<noteq> lit ''file_not_utf8'')
        (fst (read_execute demo_system read_demo_json J demo_context never read_demo_call demo_world))"
proof
  fix J
  let ?w = "\<lambda>n. demo_world\<lparr>loads := 1, calls := n\<rparr>"
  have rely: "leaves_bytes demo_system" by (simp add: leaves_bytes_def)
  have arguments: "read_arguments read_demo_json (tc_arguments read_demo_call) = Inr [102]"
    by code_simp
  have resolved: "resolve_existing demo_system demo_context [102] (demo_world\<lparr>loads := loads demo_world + 1\<rparr>)
      = (Inr \<lparr>rp_relative = [NormalComp [102]], rp_existed = True\<rparr>, ?w 1)"
    using demo_target(2)
    by (simp add: resolve_existing_def op_bind_def op_result_def op_map_err_def fs_stat_path_def inspect_disk_def
        syscall_def stat_node_def demo_system_def demo_world_def demo_disk_def demo_node_def
        metadata_of_def op_return_def Let_def)
  obtain m where opened: "open_regular_file demo_system [NormalComp [102]] (?w 1) = (Inr (Node 8 3, m), ?w 3)"
    by (simp add: open_regular_file_def op_bind_def fs_open_path_def require_regular_file_def fs_metadata_def
        read_node_def inspect_disk_def syscall_def demo_system_def demo_world_def
        demo_disk_def open_node_def demo_node_def metadata_of_def op_return_def Let_def)
  have bytes: "node_bytes (disk_of (?w 3)) (Node 8 3) = Some demo_text"
    using demo_entry(2) by simp
  show "shows_file J demo_text (fst (read_execute demo_system read_demo_json J demo_context never read_demo_call demo_world))
    \<or> failed_with (\<lambda>code. is_text demo_text \<longrightarrow> code \<noteq> lit ''file_not_utf8'')
        (fst (read_execute demo_system read_demo_json J demo_context never read_demo_call demo_world))"
    using opened
    by (intro read_returns_the_file [OF rely _ arguments resolved _ bytes]) simp_all
qed

end
