(* ===== verification/Command_Errors.thy ===== *)
theory Command_Errors
  imports Workspace_Errors Utf8
begin

text \<open>
  The values of run-command (crates/capability-coding/src/command.rs): errors of the operating system
  with their number, \<open>CommandError\<close>, exit statuses, and \<open>CapturedStream\<close> with the lossy decoding of
  what it retains.
\<close>

section \<open>Errors of the operating system\<close>

text \<open>An \<open>io::Error\<close> together with its \<open>raw_os_error()\<close>. The numbers are those of Linux.\<close>

record os_error = io_error +
  raw_os_error :: "nat option"

definition ERRNO_PERM :: nat where "ERRNO_PERM = 1"
definition ERRNO_SRCH :: nat where "ERRNO_SRCH = 3"
definition ERRNO_INTR :: nat where "ERRNO_INTR = 4"

definition decode_error_kind :: "nat \<Rightarrow> io_error_kind" where
  "decode_error_kind errno =
     (if errno = 1 \<or> errno = 13 then IoPermissionDenied
      else if errno = 2 then IoNotFound
      else if errno = 4 then IoInterrupted
      else if errno = 11 then IoWouldBlock
      else if errno = 17 then IoAlreadyExists
      else if errno = 22 then IoInvalidInput
      else if errno = 95 then IoUnsupported
      else IoOther (dec_string errno))"

text \<open>\<open>io::Error::from\<close> of an error number; \<open>strerror\<close> is its text.\<close>

definition from_raw_os_error :: "(nat \<Rightarrow> ustring) \<Rightarrow> nat \<Rightarrow> os_error" where
  "from_raw_os_error strerror errno =
     \<lparr>io_kind = decode_error_kind errno,
      io_text = strerror errno @ lit '' (os error '' @ dec_string errno @ lit '')'',
      io_loop = (errno = 40), io_recovery = None, raw_os_error = Some errno\<rparr>"

text \<open>\<open>io::Error::new\<close>.\<close>

definition os_error_new :: "io_error_kind \<Rightarrow> ustring \<Rightarrow> os_error" where
  "os_error_new kind message =
     \<lparr>io_kind = kind, io_text = message, io_loop = False, io_recovery = None, raw_os_error = None\<rparr>"

definition group_signal_permission_denied :: "os_error \<Rightarrow> bool" where
  "group_signal_permission_denied source \<longleftrightarrow>
     io_kind source = IoPermissionDenied \<or> raw_os_error source = Some ERRNO_PERM"

definition group_already_exited :: "os_error \<Rightarrow> bool" where
  "group_already_exited source \<longleftrightarrow>
     io_kind source = IoNotFound \<or> io_kind source = IoInvalidInput \<or> raw_os_error source = Some ERRNO_SRCH"

section \<open>Command errors\<close>

datatype command_error =
    SpawnError os_error
  | SupervisorUnavailable os_error
  | SupervisorDegraded
  | SupervisorAtCapacity
  | WorkspaceChanged os_error
  | ConfigureOutput os_error
  | KillError os_error
  | WaitError os_error
  | ReadOutput os_error
  | CommandCancelled
  | OutputIncomplete
  | TerminationUnverified
  | TerminationSupervised ustring

fun command_error_code :: "command_error \<Rightarrow> string" where
  "command_error_code (SpawnError _) = ''command_spawn_failed''"
| "command_error_code (SupervisorUnavailable _) = ''command_supervisor_unavailable''"
| "command_error_code SupervisorDegraded = ''command_supervisor_degraded''"
| "command_error_code SupervisorAtCapacity = ''command_supervisor_pressure''"
| "command_error_code (WorkspaceChanged _) = ''workspace_changed''"
| "command_error_code (ConfigureOutput _) = ''command_io_error''"
| "command_error_code (KillError _) = ''command_io_error''"
| "command_error_code (WaitError _) = ''command_io_error''"
| "command_error_code (ReadOutput _) = ''command_io_error''"
| "command_error_code CommandCancelled = ''tool_cancelled''"
| "command_error_code OutputIncomplete = ''command_output_incomplete''"
| "command_error_code TerminationUnverified = ''command_termination_unverified''"
| "command_error_code (TerminationSupervised _) = ''command_termination_unverified''"

fun command_error_retryable :: "command_error \<Rightarrow> bool" where
  "command_error_retryable (SupervisorUnavailable _) = True"
| "command_error_retryable SupervisorAtCapacity = True"
| "command_error_retryable (ConfigureOutput source) = (io_kind source = IoInterrupted)"
| "command_error_retryable (KillError source) = (io_kind source = IoInterrupted)"
| "command_error_retryable (WaitError source) = (io_kind source = IoInterrupted)"
| "command_error_retryable (ReadOutput source) = (io_kind source = IoInterrupted)"
| "command_error_retryable _ = False"

text \<open>Its \<open>Display\<close>.\<close>

fun command_error_text :: "command_error \<Rightarrow> ustring" where
  "command_error_text (SpawnError source) = lit ''failed to start command: '' @ io_text source"
| "command_error_text (SupervisorUnavailable source) =
     lit ''command supervisor is unavailable; no command was started: '' @ io_text source"
| "command_error_text SupervisorDegraded =
     lit ''command supervisor is degraded after repeated internal failures; no command was started''"
| "command_error_text SupervisorAtCapacity =
     lit ''command supervision capacity is exhausted; no command was started''"
| "command_error_text (WorkspaceChanged source) =
     lit ''selected workspace is no longer available: '' @ io_text source"
| "command_error_text (ConfigureOutput source) =
     lit ''failed to configure command output capture: '' @ io_text source"
| "command_error_text (KillError source) = lit ''failed to terminate command group: '' @ io_text source"
| "command_error_text (WaitError source) = lit ''failed to wait for command: '' @ io_text source"
| "command_error_text (ReadOutput source) = lit ''failed to capture command output: '' @ io_text source"
| "command_error_text CommandCancelled = lit ''run_command was cancelled''"
| "command_error_text OutputIncomplete =
     lit ''command output remained open after the command process group exited''"
| "command_error_text TerminationUnverified =
     lit ''termination was requested for signal-compatible process-group members; detached or credential-changing descendants were not verified''"
| "command_error_text (TerminationSupervised message) = message"

section \<open>Exit statuses\<close>

text \<open>The raw wait status of a process.\<close>

type_synonym exit_status = "32 word"

definition status_success :: "exit_status \<Rightarrow> bool" where
  "status_success st \<longleftrightarrow> st = 0"

definition status_code :: "exit_status \<Rightarrow> nat option" where
  "status_code st = (if unat st mod 128 = 0 then Some (unat st div 256 mod 256) else None)"

section \<open>Captured streams\<close>

record captured_stream =
  retained :: "nat list"
  total_bytes :: "64 word"
  max_bytes :: nat
  truncated :: bool

definition captured_new :: "nat \<Rightarrow> captured_stream" where
  "captured_new m = \<lparr>retained = [], total_bytes = 0, max_bytes = m, truncated = False\<rparr>"

definition saturating_add :: "64 word \<Rightarrow> nat \<Rightarrow> 64 word" where
  "saturating_add a n = (if unat a + n < 2 ^ 64 then a + of_nat n else - 1)"

definition captured_push :: "nat list \<Rightarrow> captured_stream \<Rightarrow> captured_stream" where
  "captured_push bytes c =
     (let remaining = max_bytes c - length (retained c);
          kept = min remaining (length bytes)
      in c\<lparr>total_bytes := saturating_add (total_bytes c) (length bytes),
           retained := retained c @ take kept bytes,
           truncated := truncated c \<or> kept < length bytes\<rparr>)"

text \<open>\<open>String::from_utf8_lossy\<close>: every error becomes a replacement character.\<close>

definition replacement_character :: uchar where "replacement_character = 0xFFFD"

function from_utf8_lossy :: "nat list \<Rightarrow> ustring" where
  "from_utf8_lossy [] = []"
| "from_utf8_lossy (b # rest) =
     (case utf8_step b rest of
        ValidChar c k \<Rightarrow> c # from_utf8_lossy (drop (k - 1) rest)
      | ErrorLen k \<Rightarrow> replacement_character # from_utf8_lossy (drop (k - 1) rest)
      | Unexpected_end \<Rightarrow> [replacement_character])"
  by pat_completeness auto
termination by (relation "measure length") auto

definition captured_text :: "captured_stream \<Rightarrow> ustring" where
  "captured_text c = from_utf8_lossy (retained c)"

section \<open>Properties\<close>

text \<open>What a stream has captured of the bytes \<open>bs\<close> that were pushed into it.\<close>

definition captures :: "nat \<Rightarrow> nat list \<Rightarrow> captured_stream \<Rightarrow> bool" where
  "captures m bs c \<longleftrightarrow>
     retained c = take m bs \<and> unat (total_bytes c) = min (2 ^ 64 - 1) (length bs)
     \<and> max_bytes c = m \<and> truncated c = (m < length bs)"

lemma captures_new: "captures m [] (captured_new m)"
  by (simp add: captures_def captured_new_def)

lemma unat_saturating_add: "unat (saturating_add a n) = min (2 ^ 64 - 1) (unat a + n)"
proof (cases "unat a + n < 2 ^ 64")
  case True
  then have "unat (of_nat n :: 64 word) = n"
    by (simp add: unat_of_nat take_bit_nat_eq_self)
  with True have "unat (a + of_nat n) = unat a + n"
    by (simp add: unat_word_ariths(1))
  with True show ?thesis by (simp add: saturating_add_def)
next
  case False
  then show ?thesis by (simp add: saturating_add_def unsigned_minus_1_eq_mask mask_eq_exp_minus_1)
qed

lemma captures_push: "captures m bs c \<Longrightarrow> captures m (bs @ bytes) (captured_push bytes c)"
  by (auto simp: captures_def captured_push_def Let_def unat_saturating_add min_def)

lemma utf8_lossy_valid: "from_utf8_at i bs = Inr s \<Longrightarrow> from_utf8_lossy bs = s"
proof (induction i bs arbitrary: s rule: from_utf8_at.induct)
  case (2 i b rest)
  then show ?case by (auto simp: try_res_Inr split: utf8_step.splits)
qed simp

lemma captured_text_valid: "from_utf8 (retained c) = Inr s \<Longrightarrow> captured_text c = s"
  by (simp add: captured_text_def from_utf8_def utf8_lossy_valid)

end
