(* ===== verification/Command_Environment.thy ===== *)
theory Command_Environment
  imports Tool_Support Workspace_Errors
begin

text \<open>
  The environment of a command (\<open>configure_command_environment\<close> of
  crates/capability-coding/src/command.rs and crates/capability-coding/src/git_environment.rs): the
  variables that are removed, and the search path, which keeps no directory of the workspace.
  \<open>vars\<close> are the variables of the agent, \<open>canonical\<close> what canonicalizing an entry of the search path
  answers, \<open>canonical_program\<close> the same for a program in a directory.
\<close>

section \<open>The code\<close>

definition MAX_COMMAND_PATH_ENTRIES :: nat where "MAX_COMMAND_PATH_ENTRIES = 64"

definition MAX_COMMAND_PATH_COMPONENTS :: nat where
  "MAX_COMMAND_PATH_COMPONENTS = MAX_COMMAND_PATH_ENTRIES * 2"

definition MAX_COMMAND_PATH_BYTES :: nat where "MAX_COMMAND_PATH_BYTES = 64 * 1024"

definition UNAVAILABLE_COMMAND_PATH :: ustring where "UNAVAILABLE_COMMAND_PATH = lit ''/dev/null''"

definition COMMAND_ENVIRONMENT_BLOCKLIST :: "ustring list" where
  "COMMAND_ENVIRONMENT_BLOCKLIST = map lit
     [''BASH_ENV'', ''ENV'', ''CDPATH'', ''IFS'', ''SHELLOPTS'', ''BASHOPTS'', ''PS4'', ''BASH_XTRACEFD'',
      ''CARGO_HOME'', ''CARGO_TARGET_DIR'', ''CARGO_BUILD_RUSTC'', ''CARGO_BUILD_RUSTC_WRAPPER'',
      ''CARGO_BUILD_RUSTC_WORKSPACE_WRAPPER'', ''CARGO_BUILD_RUSTDOC'', ''CARGO_BUILD_TARGET_DIR'',
      ''CARGO_BUILD_RUSTFLAGS'', ''CARGO_BUILD_RUSTDOCFLAGS'', ''CARGO_ENCODED_RUSTFLAGS'', ''RUSTC'',
      ''RUSTC_WRAPPER'', ''RUSTC_WORKSPACE_WRAPPER'', ''RUSTDOC'', ''RUSTFLAGS'', ''RUSTDOCFLAGS'']"

definition REPOSITORY_ENVIRONMENT :: "ustring list" where
  "REPOSITORY_ENVIRONMENT = map lit
     [''GIT_DIR'', ''GIT_WORK_TREE'', ''GIT_COMMON_DIR'', ''GIT_INDEX_FILE'', ''GIT_OBJECT_DIRECTORY'',
      ''GIT_ALTERNATE_OBJECT_DIRECTORIES'', ''GIT_CONFIG'', ''GIT_CONFIG_PARAMETERS'', ''GIT_CONFIG_COUNT'',
      ''GIT_CONFIG_SYSTEM'', ''GIT_CONFIG_GLOBAL'', ''GIT_CONFIG_NOSYSTEM'', ''GIT_EXEC_PATH'',
      ''GIT_IMPLICIT_WORK_TREE'', ''GIT_GRAFT_FILE'', ''GIT_NO_REPLACE_OBJECTS'', ''GIT_REPLACE_REF_BASE'',
      ''GIT_INTERNAL_SUPER_PREFIX'', ''GIT_SHALLOW_FILE'', ''GIT_QUARANTINE_PATH'', ''GIT_PREFIX'',
      ''GIT_CEILING_DIRECTORIES'', ''GIT_DISCOVERY_ACROSS_FILESYSTEM'', ''GIT_NAMESPACE'']"

text \<open>The environment of the child: what it inherits, with the changes made to the command so far.\<close>

type_synonym variables = "(ustring \<times> ustring) list"
type_synonym child_env = "ustring \<Rightarrow> ustring option"

definition env_remove :: "ustring list \<Rightarrow> child_env \<Rightarrow> child_env" where
  "env_remove keys m = fold (\<lambda>key m. m(key := None)) keys m"

definition inherited_git_key :: "ustring \<Rightarrow> bool" where
  "inherited_git_key name \<longleftrightarrow>
     starts_with name (lit ''GIT_CONFIG_KEY_'') \<or> starts_with name (lit ''GIT_CONFIG_VALUE_'')
     \<or> starts_with name (lit ''GIT_TRACE'')"

definition remove_inherited_git_execution_context :: "variables \<Rightarrow> child_env \<Rightarrow> child_env" where
  "remove_inherited_git_execution_context vars m =
     env_remove (filter inherited_git_key (map fst vars)) (env_remove REPOSITORY_ENVIRONMENT m)"

definition ends_with_str :: "ustring \<Rightarrow> ustring \<Rightarrow> bool" where
  "ends_with_str s t \<longleftrightarrow> starts_with (rev s) (rev t)"

definition cargo_target_environment_key_executes_code :: "ustring \<Rightarrow> bool" where
  "cargo_target_environment_key_executes_code key \<longleftrightarrow>
     starts_with key (lit ''CARGO_TARGET_'')
     \<and> (ends_with_str key (lit ''_LINKER'') \<or> ends_with_str key (lit ''_RUNNER'')
        \<or> ends_with_str key (lit ''_RUSTFLAGS''))"

definition executes_code :: "ustring \<times> ustring \<Rightarrow> bool" where
  "executes_code kv \<longleftrightarrow>
     (case kv of (key, value) \<Rightarrow>
        starts_with key (lit ''BASH_FUNC_'') \<or> starts_with key (lit ''LD_'') \<or> starts_with key (lit ''DYLD_'')
        \<or> cargo_target_environment_key_executes_code key
        \<or> starts_with (dropWhile is_whitespace value) (lit ''() {''))"

text \<open>Whether a program of the protected ones would be taken from the workspace.\<close>

definition path_entry_resolves_workspace_program ::
    "(path \<Rightarrow> ustring \<Rightarrow> io_error + path) \<Rightarrow> path \<Rightarrow> path \<Rightarrow> ustring list \<Rightarrow> bool" where
  "path_entry_resolves_workspace_program canonical_program entry root protected \<longleftrightarrow>
     list_ex (\<lambda>program.
       case canonical_program entry program of
         Inr p \<Rightarrow> path_starts_with p root
       | Inl source \<Rightarrow> io_kind source \<notin> {IoNotFound, IoOther (lit ''NotADirectory'')}) protected"

text \<open>
  The loop over the entries: the ones seen (as paths, which compare by their components), the
  resolved ones, and the safe ones. \<open>None\<close> gives up the search path.
\<close>

fun safe_path_entries ::
    "(ustring \<Rightarrow> path option) \<Rightarrow> (path \<Rightarrow> ustring \<Rightarrow> io_error + path) \<Rightarrow> path \<Rightarrow> ustring list \<Rightarrow> nat
       \<Rightarrow> path list \<Rightarrow> path list \<Rightarrow> path list \<Rightarrow> ustring list \<Rightarrow> path list option" where
  "safe_path_entries canonical canonical_program root protected index raw resolved safe [] = Some safe"
| "safe_path_entries canonical canonical_program root protected index raw resolved safe (entry # entries) =
     (let continue = (\<lambda>raw resolved safe.
            safe_path_entries canonical canonical_program root protected (index + 1) raw resolved safe entries);
          raw1 = path_components entry # raw
      in if MAX_COMMAND_PATH_COMPONENTS \<le> index then None
         else if path_components entry \<in> set raw then continue raw resolved safe
         else if MAX_COMMAND_PATH_ENTRIES < length raw1 then None
         else if \<not> is_absolute entry then continue raw1 resolved safe
         else case canonical entry of
           None \<Rightarrow> continue raw1 resolved safe
         | Some p \<Rightarrow>
             if path_starts_with p root then continue raw1 resolved safe
             else if p \<in> set resolved then continue raw1 resolved safe
             else if path_entry_resolves_workspace_program canonical_program p root protected then
               continue raw1 (p # resolved) safe
             else continue raw1 (p # resolved) (safe @ [p]))"

text \<open>\<open>split_paths\<close> and \<open>join_paths\<close> at a colon, which an entry must not contain.\<close>

definition colon :: uchar where "colon = 58"

fun join_with_colons :: "ustring list \<Rightarrow> ustring" where
  "join_with_colons [] = []"
| "join_with_colons [t] = t"
| "join_with_colons (t # ts) = t @ colon # join_with_colons ts"

definition join_paths :: "path list \<Rightarrow> ustring option" where
  "join_paths ps =
     (let texts = map join_components ps
      in if list_ex (\<lambda>t. colon \<in> set t) texts then None else Some (join_with_colons texts))"

definition sanitized_command_path ::
    "(ustring \<Rightarrow> path option) \<Rightarrow> (path \<Rightarrow> ustring \<Rightarrow> io_error + path) \<Rightarrow> path \<Rightarrow> ustring option
       \<Rightarrow> ustring list \<Rightarrow> ustring" where
  "sanitized_command_path canonical canonical_program root inherited protected =
     (case inherited of
        None \<Rightarrow> UNAVAILABLE_COMMAND_PATH
      | Some text \<Rightarrow>
          if MAX_COMMAND_PATH_BYTES < byte_len text then UNAVAILABLE_COMMAND_PATH
          else case safe_path_entries canonical canonical_program root protected 0 [] [] []
                      (split_on colon text) of
            None \<Rightarrow> UNAVAILABLE_COMMAND_PATH
          | Some safe \<Rightarrow>
              if safe = [] then UNAVAILABLE_COMMAND_PATH
              else (case join_paths safe of None \<Rightarrow> UNAVAILABLE_COMMAND_PATH | Some joined \<Rightarrow> joined))"

definition configure_command_environment ::
    "(ustring \<Rightarrow> path option) \<Rightarrow> (path \<Rightarrow> ustring \<Rightarrow> io_error + path) \<Rightarrow> variables \<Rightarrow> path
       \<Rightarrow> ustring option \<Rightarrow> ustring list \<Rightarrow> child_env \<Rightarrow> child_env" where
  "configure_command_environment canonical canonical_program vars root inherited protected m =
     (let m1 = remove_inherited_git_execution_context vars m;
          m2 = m1(lit ''PATH'' \<mapsto> sanitized_command_path canonical canonical_program root inherited protected)
      in env_remove (map fst (filter executes_code vars)) (env_remove COMMAND_ENVIRONMENT_BLOCKLIST m2))"

section \<open>The search path\<close>

text \<open>An entry that may stay.\<close>

definition safe_entry ::
    "(ustring \<Rightarrow> path option) \<Rightarrow> (path \<Rightarrow> ustring \<Rightarrow> io_error + path) \<Rightarrow> path \<Rightarrow> ustring list
       \<Rightarrow> ustring list \<Rightarrow> path \<Rightarrow> bool" where
  "safe_entry canonical canonical_program root protected inherited p \<longleftrightarrow>
     (\<exists>entry \<in> set inherited. is_absolute entry \<and> canonical entry = Some p)
     \<and> \<not> path_starts_with p root
     \<and> (\<forall>program \<in> set protected. \<forall>q. canonical_program p program = Inr q \<longrightarrow> \<not> path_starts_with q root)"


lemma safe_entries_sound:
  "safe_path_entries canonical canonical_program root protected index raw resolved safe entries = Some out
     \<Longrightarrow> \<forall>p \<in> set safe. safe_entry canonical canonical_program root protected inherited p
     \<Longrightarrow> set entries \<subseteq> set inherited \<Longrightarrow> set safe \<subseteq> set resolved \<Longrightarrow> distinct safe
     \<Longrightarrow> length safe \<le> length raw \<Longrightarrow> length raw \<le> MAX_COMMAND_PATH_ENTRIES
     \<Longrightarrow> (\<forall>p \<in> set out. safe_entry canonical canonical_program root protected inherited p)
       \<and> distinct out \<and> length out \<le> MAX_COMMAND_PATH_ENTRIES"
proof (induction entries arbitrary: index raw resolved safe)
  case Nil
  then show ?case by simp
next
  case (Cons entry entries)
  let ?raw1 = "path_components entry # raw"
  let ?next = "safe_path_entries canonical canonical_program root protected (index + 1)"
  note prems = Cons.prems
  from prems(1) consider
    (skip) raw1 resolved1 where "?next raw1 resolved1 safe entries = Some out" "set resolved \<subseteq> set resolved1"
      "length raw \<le> length raw1" "length raw1 \<le> MAX_COMMAND_PATH_ENTRIES"
  | (keep) p where "?next ?raw1 (p # resolved) (safe @ [p]) entries = Some out" "is_absolute entry"
      "canonical entry = Some p" "\<not> path_starts_with p root" "p \<notin> set resolved"
      "\<not> path_entry_resolves_workspace_program canonical_program p root protected"
      "length ?raw1 \<le> MAX_COMMAND_PATH_ENTRIES"
    using prems(7)
    by (auto simp: Let_def not_less split: if_splits option.splits) force
  then show ?case
  proof cases
    case skip
    with prems show ?thesis by (intro Cons.IH [OF skip(1)]) auto
  next
    case (keep p)
    from keep(2-4,6) prems(3) have "safe_entry canonical canonical_program root protected inherited p"
      by (auto simp: safe_entry_def path_entry_resolves_workspace_program_def list_ex_iff)
    with keep(5,7) prems show ?thesis by (intro Cons.IH [OF keep(1)]) auto
  qed
qed

lemma join_split: "ts \<noteq> [] \<Longrightarrow> \<forall>t \<in> set ts. colon \<notin> set t \<Longrightarrow> split_on colon (join_with_colons ts) = ts"
  by (induction ts rule: join_with_colons.induct) (auto simp: split_on_clean split_on_append)

lemma sanitized_path_cases:
  obtains (unavailable) "sanitized_command_path canonical canonical_program root inherited protected = UNAVAILABLE_COMMAND_PATH"
  | (entries) t ps where "inherited = Some t" "ps \<noteq> []"
      "split_on colon (sanitized_command_path canonical canonical_program root inherited protected)
         = map join_components ps"
      "\<forall>p \<in> set ps. safe_entry canonical canonical_program root protected (split_on colon t) p"
      "distinct ps" "length ps \<le> MAX_COMMAND_PATH_ENTRIES"
proof (cases "sanitized_command_path canonical canonical_program root inherited protected
    = UNAVAILABLE_COMMAND_PATH")
  case True
  then show thesis by (rule unavailable)
next
  case False
  then obtain t ps joined where t: "inherited = Some t"
    and ps: "safe_path_entries canonical canonical_program root protected 0 [] [] [] (split_on colon t) = Some ps"
    and some: "ps \<noteq> []" and joined: "join_paths ps = Some joined"
      "sanitized_command_path canonical canonical_program root inherited protected = joined"
    by (auto simp: sanitized_command_path_def split: option.splits if_splits)
  from safe_entries_sound [OF ps, of "split_on colon t"] have
    "\<forall>p \<in> set ps. safe_entry canonical canonical_program root protected (split_on colon t) p"
    "distinct ps" "length ps \<le> MAX_COMMAND_PATH_ENTRIES" by auto
  moreover have "split_on colon joined = map join_components ps"
    using joined(1) some join_split [of "map join_components ps"]
    by (auto simp: join_paths_def Let_def list_ex_iff split: if_splits)
  ultimately show thesis using entries [OF t some] joined(2) by simp
qed

section \<open>The environment\<close>

lemma env_remove_get: "env_remove keys m key = (if key \<in> set keys then None else m key)"
  unfolding env_remove_def by (induction keys arbitrary: m) auto

text \<open>
  The variables that must not reach a command, written out: what the shell reads when it starts or
  traces, what makes cargo and rustc run or link something else or build elsewhere, and what moves git
  to another repository, configuration or set of programs. Variables that are not listed are
  inherited, \<open>GIT_EXTERNAL_DIFF\<close>, \<open>GIT_SSH_COMMAND\<close> and \<open>GIT_PAGER\<close> among them.
\<close>

definition hazardous_name :: "ustring \<Rightarrow> bool" where
  "hazardous_name key \<longleftrightarrow>
     key \<in> set (map lit
       [''BASHOPTS'', ''BASH_ENV'', ''BASH_XTRACEFD'', ''CDPATH'', ''ENV'', ''IFS'', ''PS4'', ''SHELLOPTS'',
        ''CARGO_BUILD_RUSTC'', ''CARGO_BUILD_RUSTC_WORKSPACE_WRAPPER'', ''CARGO_BUILD_RUSTC_WRAPPER'',
        ''CARGO_BUILD_RUSTDOC'', ''CARGO_BUILD_RUSTDOCFLAGS'', ''CARGO_BUILD_RUSTFLAGS'',
        ''CARGO_BUILD_TARGET_DIR'', ''CARGO_ENCODED_RUSTFLAGS'', ''CARGO_HOME'', ''CARGO_TARGET_DIR'',
        ''RUSTC'', ''RUSTC_WORKSPACE_WRAPPER'', ''RUSTC_WRAPPER'', ''RUSTDOC'', ''RUSTDOCFLAGS'', ''RUSTFLAGS'',
        ''GIT_ALTERNATE_OBJECT_DIRECTORIES'', ''GIT_CEILING_DIRECTORIES'', ''GIT_COMMON_DIR'', ''GIT_CONFIG'',
        ''GIT_CONFIG_COUNT'', ''GIT_CONFIG_GLOBAL'', ''GIT_CONFIG_NOSYSTEM'', ''GIT_CONFIG_PARAMETERS'',
        ''GIT_CONFIG_SYSTEM'', ''GIT_DIR'', ''GIT_DISCOVERY_ACROSS_FILESYSTEM'', ''GIT_EXEC_PATH'',
        ''GIT_GRAFT_FILE'', ''GIT_IMPLICIT_WORK_TREE'', ''GIT_INDEX_FILE'', ''GIT_INTERNAL_SUPER_PREFIX'',
        ''GIT_NAMESPACE'', ''GIT_NO_REPLACE_OBJECTS'', ''GIT_OBJECT_DIRECTORY'', ''GIT_PREFIX'',
        ''GIT_QUARANTINE_PATH'', ''GIT_REPLACE_REF_BASE'', ''GIT_SHALLOW_FILE'', ''GIT_WORK_TREE''])
     \<or> (\<exists>p \<in> set (map lit [''BASH_FUNC_'', ''DYLD_'', ''GIT_CONFIG_KEY_'', ''GIT_CONFIG_VALUE_'',
          ''GIT_TRACE'', ''LD_'']). prefix p key)
     \<or> prefix (lit ''CARGO_TARGET_'') key
       \<and> (\<exists>s \<in> set (map lit [''_LINKER'', ''_RUNNER'', ''_RUSTFLAGS'']). suffix s key)"

text \<open>A value that a shell takes for the definition of a function.\<close>

definition shell_function :: "ustring \<Rightarrow> bool" where
  "shell_function v \<longleftrightarrow> prefix (lit ''() {'') (dropWhile is_whitespace v)"

text \<open>A variable that may reach a command.\<close>

definition harmless :: "ustring \<Rightarrow> ustring \<Rightarrow> bool" where
  "harmless key v \<longleftrightarrow> \<not> hazardous_name key \<and> \<not> shell_function v"

lemma harmless_iff_kept:
  "harmless key v \<longleftrightarrow>
     key \<notin> set COMMAND_ENVIRONMENT_BLOCKLIST \<and> key \<notin> set REPOSITORY_ENVIRONMENT
     \<and> \<not> inherited_git_key key \<and> \<not> executes_code (key, v)"
  by (auto simp: harmless_def hazardous_name_def shell_function_def COMMAND_ENVIRONMENT_BLOCKLIST_def
      REPOSITORY_ENVIRONMENT_def inherited_git_key_def executes_code_def starts_with_iff
      cargo_target_environment_key_executes_code_def ends_with_str_def suffix_to_prefix)

lemma environment_other:
  assumes "m = configure_command_environment canonical canonical_program vars root inherited protected e"
    and "key \<noteq> lit ''PATH''"
  shows "m key =
    (if key \<in> set COMMAND_ENVIRONMENT_BLOCKLIST \<or> key \<in> set REPOSITORY_ENVIRONMENT
        \<or> key \<in> set (filter inherited_git_key (map fst vars)) \<or> key \<in> set (map fst (filter executes_code vars))
     then None else e key)"
  using assms(2)
  by (auto simp: assms(1) configure_command_environment_def remove_inherited_git_execution_context_def
      env_remove_get Let_def)

lemma environment_harmless:
  assumes "m = configure_command_environment canonical canonical_program vars root inherited protected (map_of vars)"
    and "m key = Some v" and "key \<noteq> lit ''PATH''"
  shows "(key, v) \<in> set vars \<and> harmless key v"
proof -
  from assms(2) have kept: "key \<notin> set (map fst (filter executes_code vars))"
    "key \<notin> set COMMAND_ENVIRONMENT_BLOCKLIST" "key \<notin> set REPOSITORY_ENVIRONMENT"
    "key \<notin> set (filter inherited_git_key (map fst vars))"
    and v: "map_of vars key = Some v"
    by (auto simp: environment_other [OF assms(1,3)] split: if_splits)
  from v have "(key, v) \<in> set vars" by (rule map_of_SomeD)
  with kept show ?thesis by (force simp: harmless_iff_kept)
qed

lemma environment_keeps:
  assumes "m = configure_command_environment canonical canonical_program vars root inherited protected (map_of vars)"
    and "distinct (map fst vars)" "(key, v) \<in> set vars" "harmless key v" "key \<noteq> lit ''PATH''"
  shows "m key = Some v"
proof -
  have "w = v" if "(key, w) \<in> set vars" for w
    using map_of_is_SomeI [OF assms(2,3)] map_of_is_SomeI [OF assms(2) that] by simp
  with assms(4) have "key \<notin> set (map fst (filter executes_code vars))"
    by (auto simp: harmless_iff_kept)
  with assms(4) map_of_is_SomeI [OF assms(2,3)] show ?thesis
    by (auto simp: environment_other [OF assms(1,5)] harmless_iff_kept)
qed

text \<open>A search path of a command.\<close>

definition safe_search_path ::
    "(ustring \<Rightarrow> path option) \<Rightarrow> (path \<Rightarrow> ustring \<Rightarrow> io_error + path) \<Rightarrow> path \<Rightarrow> ustring list
       \<Rightarrow> ustring option \<Rightarrow> ustring \<Rightarrow> bool" where
  "safe_search_path canonical canonical_program root protected inherited v \<longleftrightarrow>
     v = lit ''/dev/null''
     \<or> (\<exists>t ps. inherited = Some t \<and> split_on colon v = map join_components ps \<and> length ps \<le> 64
         \<and> (\<forall>p \<in> set ps. safe_entry canonical canonical_program root protected (split_on colon t) p))"

lemma environment_path:
  assumes "m = configure_command_environment canonical canonical_program vars root inherited protected e"
    and "m (lit ''PATH'') = Some v"
  shows "safe_search_path canonical canonical_program root protected inherited v"
proof -
  have "v = sanitized_command_path canonical canonical_program root inherited protected"
    using assms(2)
    by (auto simp: assms(1) configure_command_environment_def env_remove_get Let_def split: if_splits)
  then show ?thesis
    by (cases rule: sanitized_path_cases [of canonical canonical_program root inherited protected])
      (auto simp: safe_search_path_def UNAVAILABLE_COMMAND_PATH_def MAX_COMMAND_PATH_ENTRIES_def)
qed

text \<open>
  C13. A command starts in a clean environment: every variable but PATH is inherited with its value,
  is none of the variables by which the shell, cargo or git are made to run or use something else
  that \<open>hazardous_name\<close> lists, and holds no shell function, and every variable that is not of these
  is inherited, so exactly the listed ones are missing; and each directory on its PATH is an absolute
  entry of the inherited one, resolved, outside the workspace, and leads to no low-risk program that
  lies inside it, or else the PATH names no directory at all.
\<close>
theorem command_environment_is_clean:
  assumes "m = configure_command_environment canonical canonical_program vars root inherited protected (map_of vars)"
  shows "(\<forall>key v. m key = Some v \<longrightarrow> key \<noteq> lit ''PATH'' \<longrightarrow> (key, v) \<in> set vars \<and> harmless key v)
    \<and> (distinct (map fst vars) \<longrightarrow>
        (\<forall>key v. (key, v) \<in> set vars \<and> harmless key v \<and> key \<noteq> lit ''PATH'' \<longrightarrow> m key = Some v))
    \<and> (\<forall>v. m (lit ''PATH'') = Some v \<longrightarrow>
        safe_search_path canonical canonical_program root protected inherited v)"
  using environment_harmless [OF assms] environment_keeps [OF assms] environment_path [OF assms] by blast

text \<open>Three inherited variables and a search path with a directory outside and one inside a workspace.\<close>

definition sample_variables :: variables where
  "sample_variables =
     [(lit ''HOME'', lit ''/h''), (lit ''LD_PRELOAD'', lit ''x''), (lit ''GIT_EXEC_PATH'', lit ''/w'')]"

theorem command_environment_is_clean_witness:
  "let canonical = (\<lambda>entry. Some (path_components entry));
       canonical_program = (\<lambda>dir name. Inl (io_error_new IoNotFound []));
       m = configure_command_environment canonical canonical_program sample_variables
             [RootDir, NormalComp (lit ''w'')] (Some (lit ''/b:/w/b'')) [lit ''git''] (map_of sample_variables)
   in m (lit ''HOME'') = Some (lit ''/h'') \<and> m (lit ''LD_PRELOAD'') = None \<and> m (lit ''GIT_EXEC_PATH'') = None
    \<and> (\<forall>v. m (lit ''PATH'') = Some v \<longrightarrow>
        safe_search_path canonical canonical_program [RootDir, NormalComp (lit ''w'')] [lit ''git'']
          (Some (lit ''/b:/w/b'')) v)"
proof -
  define canonical where "canonical entry = Some (path_components entry)" for entry
  define program :: "path \<Rightarrow> ustring \<Rightarrow> io_error + path"
    where "program dir name = Inl (io_error_new IoNotFound [])" for dir name
  obtain m where m: "m = configure_command_environment canonical program sample_variables
      [RootDir, NormalComp (lit ''w'')] (Some (lit ''/b:/w/b'')) [lit ''git''] (map_of sample_variables)"
    by blast
  note clean = command_environment_is_clean [OF m]
  have distinct: "distinct (map fst sample_variables)"
    and home: "(lit ''HOME'', lit ''/h'') \<in> set sample_variables" "harmless (lit ''HOME'') (lit ''/h'')"
    and bad: "\<not> harmless (lit ''LD_PRELOAD'') v" "\<not> harmless (lit ''GIT_EXEC_PATH'') v"
    and names: "lit ''HOME'' \<noteq> lit ''PATH''" "lit ''LD_PRELOAD'' \<noteq> lit ''PATH''"
      "lit ''GIT_EXEC_PATH'' \<noteq> lit ''PATH''" for v
    by (simp_all add: sample_variables_def harmless_def hazardous_name_def shell_function_def lit_def
        is_whitespace_def)
  have "m (lit ''HOME'') = Some (lit ''/h'')" using clean distinct home names(1) by blast
  moreover have "m (lit ''LD_PRELOAD'') = None" "m (lit ''GIT_EXEC_PATH'') = None"
    using clean bad names(2,3) by (meson not_Some_eq)+
  ultimately show ?thesis
    using clean unfolding m canonical_def program_def Let_def by blast
qed

end
