(* ===== verification/Loop_Operations.thy ===== *)
theory Loop_Operations
  imports Prelude
begin

text \<open>
  Operations that pass a state, may fail and may not return: an operation returns \<open>None\<close> if it runs
  for ever, and otherwise a failure or a value, and the state after it. \<open>holds\<close> is the triple of partial
  correctness, \<open>returns\<close> says that an operation ends.
\<close>

type_synonym ('e, 's, 'a) loop_op = "'s \<Rightarrow> (('e + 'a) \<times> 's) option"

definition lo_return :: "'a \<Rightarrow> ('e, 's, 'a) loop_op" where
  "lo_return a s = Some (Inr a, s)"

definition lo_fail :: "'e \<Rightarrow> ('e, 's, 'a) loop_op" where
  "lo_fail e s = Some (Inl e, s)"

definition lo_result :: "'e + 'a \<Rightarrow> ('e, 's, 'a) loop_op" where
  "lo_result r s = Some (r, s)"

definition lo_update :: "('s \<Rightarrow> 's) \<Rightarrow> ('e, 's, unit) loop_op" where
  "lo_update f s = Some (Inr (), f s)"

definition lo_get :: "('s \<Rightarrow> 'a) \<Rightarrow> ('e, 's, 'a) loop_op" where
  "lo_get f s = Some (Inr (f s), s)"

definition lo_bind ::
    "('e, 's, 'a) loop_op \<Rightarrow> ('a \<Rightarrow> ('e, 's, 'b) loop_op) \<Rightarrow> ('e, 's, 'b) loop_op" where
  "lo_bind m f s =
     (case m s of
        None \<Rightarrow> None
      | Some (Inl e, s1) \<Rightarrow> Some (Inl e, s1)
      | Some (Inr a, s1) \<Rightarrow> f a s1)"

definition lo_attempt :: "('e, 's, 'a) loop_op \<Rightarrow> ('f, 's, 'e + 'a) loop_op" where
  "lo_attempt m s = map_option (\<lambda>(r, s1). (Inr r, s1)) (m s)"

definition lo_map_err :: "('e \<Rightarrow> 'f) \<Rightarrow> ('e, 's, 'a) loop_op \<Rightarrow> ('f, 's, 'a) loop_op" where
  "lo_map_err g m s = map_option (\<lambda>(r, s1). (map_err g r, s1)) (m s)"

definition lo_if :: "bool \<Rightarrow> ('e, 's, unit) loop_op \<Rightarrow> ('e, 's, unit) loop_op" where
  "lo_if b m = (if b then m else lo_return ())"

lemmas lo_defs = lo_return_def lo_fail_def lo_result_def lo_update_def lo_get_def lo_bind_def
  lo_attempt_def lo_map_err_def lo_if_def

section \<open>Triples\<close>

definition holds ::
    "('s \<Rightarrow> bool) \<Rightarrow> ('e, 's, 'a) loop_op \<Rightarrow> ('a \<Rightarrow> 's \<Rightarrow> bool) \<Rightarrow> ('e \<Rightarrow> 's \<Rightarrow> bool) \<Rightarrow> bool" where
  "holds P m Q E \<longleftrightarrow>
     (\<forall>s r s1. P s \<longrightarrow> m s = Some (r, s1) \<longrightarrow> (case r of Inl e \<Rightarrow> E e s1 | Inr a \<Rightarrow> Q a s1))"

lemma holdsI:
  "(\<And>s e s1. P s \<Longrightarrow> m s = Some (Inl e, s1) \<Longrightarrow> E e s1)
     \<Longrightarrow> (\<And>s a s1. P s \<Longrightarrow> m s = Some (Inr a, s1) \<Longrightarrow> Q a s1) \<Longrightarrow> holds P m Q E"
  unfolding holds_def by (auto split: sum.splits)

lemma holds_Inr: "holds P m Q E \<Longrightarrow> P s \<Longrightarrow> m s = Some (Inr a, s1) \<Longrightarrow> Q a s1"
  by (fastforce simp: holds_def)

lemma holds_Inl: "holds P m Q E \<Longrightarrow> P s \<Longrightarrow> m s = Some (Inl e, s1) \<Longrightarrow> E e s1"
  by (fastforce simp: holds_def)

lemma holds_return [intro]: "(\<And>s. P s \<Longrightarrow> Q a s) \<Longrightarrow> holds P (lo_return a) Q E"
  by (simp add: holds_def lo_return_def)

lemma holds_fail [intro]: "(\<And>s. P s \<Longrightarrow> E e s) \<Longrightarrow> holds P (lo_fail e) Q E"
  by (simp add: holds_def lo_fail_def)

lemma holds_result:
  "(\<And>s e. P s \<Longrightarrow> r = Inl e \<Longrightarrow> E e s) \<Longrightarrow> (\<And>s a. P s \<Longrightarrow> r = Inr a \<Longrightarrow> Q a s) \<Longrightarrow> holds P (lo_result r) Q E"
  by (auto simp: holds_def lo_result_def split: sum.splits)

lemma holds_update: "(\<And>s. P s \<Longrightarrow> Q () (f s)) \<Longrightarrow> holds P (lo_update f) Q E"
  by (simp add: holds_def lo_update_def)

lemma holds_get: "(\<And>s. P s \<Longrightarrow> Q (f s) s) \<Longrightarrow> holds P (lo_get f) Q E"
  by (simp add: holds_def lo_get_def)

lemma holds_bind:
  assumes "holds P m R E" and "\<And>a. holds (R a) (f a) Q E"
  shows "holds P (lo_bind m f) Q E"
proof (rule holdsI)
  fix s e s1
  assume "P s" "lo_bind m f s = Some (Inl e, s1)"
  then consider "m s = Some (Inl e, s1)" | a s2 where "m s = Some (Inr a, s2)" "f a s2 = Some (Inl e, s1)"
    by (auto simp: lo_bind_def split: option.splits sum.splits)
  then show "E e s1"
  proof cases
    case 1
    with assms(1) \<open>P s\<close> show ?thesis by (rule holds_Inl)
  next
    case (2 a s2)
    from holds_Inr [OF assms(1) \<open>P s\<close> 2(1)] 2(2) show ?thesis by (rule holds_Inl [OF assms(2)])
  qed
next
  fix s b s1
  assume "P s" "lo_bind m f s = Some (Inr b, s1)"
  then obtain a s2 where 2: "m s = Some (Inr a, s2)" "f a s2 = Some (Inr b, s1)"
    by (auto simp: lo_bind_def split: option.splits sum.splits)
  from holds_Inr [OF assms(1) \<open>P s\<close> 2(1)] 2(2) show "Q b s1" by (rule holds_Inr [OF assms(2)])
qed

lemma lo_attempt_Some:
  "lo_attempt m s = Some (r, s1) \<longleftrightarrow> (\<exists>r1. m s = Some (r1, s1) \<and> r = Inr r1)"
  by (auto simp: lo_attempt_def)

lemma lo_map_err_Inl:
  "lo_map_err g m s = Some (Inl e, s1) \<longleftrightarrow> (\<exists>e1. m s = Some (Inl e1, s1) \<and> e = g e1)"
  by (cases "m s") (auto simp: lo_map_err_def map_err_def split: prod.splits sum.splits)

lemma lo_map_err_Inr: "lo_map_err g m s = Some (Inr a, s1) \<longleftrightarrow> m s = Some (Inr a, s1)"
  by (cases "m s") (auto simp: lo_map_err_def map_err_def split: prod.splits sum.splits)

lemma holds_attempt:
  assumes "holds P m (\<lambda>a. Q (Inr a)) (\<lambda>e. Q (Inl e))"
  shows "holds P (lo_attempt m) Q E"
proof (rule holdsI)
  fix s r s1
  assume "P s" "lo_attempt m s = Some (Inr r, s1)"
  then show "Q r s1"
    by (cases r) (auto simp: lo_attempt_Some dest: holds_Inr [OF assms] holds_Inl [OF assms])
qed (simp add: lo_attempt_Some)

lemma holds_map_err: "holds P m Q (\<lambda>e. E (g e)) \<Longrightarrow> holds P (lo_map_err g m) Q E"
  by (rule holdsI) (auto simp: lo_map_err_Inl lo_map_err_Inr dest: holds_Inr holds_Inl)

lemma holds_if: "(b \<Longrightarrow> holds P m Q E) \<Longrightarrow> (\<not> b \<Longrightarrow> \<forall>s. P s \<longrightarrow> Q () s) \<Longrightarrow> holds P (lo_if b m) Q E"
  by (auto simp: lo_if_def)

lemma holds_cond: "(b \<Longrightarrow> holds P m Q E) \<Longrightarrow> (\<not> b \<Longrightarrow> holds P n Q E) \<Longrightarrow> holds P (if b then m else n) Q E"
  by simp

lemma holds_pre: "holds P m Q E \<Longrightarrow> (\<And>s. P' s \<Longrightarrow> P s) \<Longrightarrow> holds P' m Q E"
  unfolding holds_def by blast

lemma holds_mono:
  "holds P m Q E \<Longrightarrow> (\<And>s. P' s \<Longrightarrow> P s) \<Longrightarrow> (\<And>a s. Q a s \<Longrightarrow> Q' a s) \<Longrightarrow> (\<And>e s. E e s \<Longrightarrow> E' e s)
     \<Longrightarrow> holds P' m Q' E'"
  by (rule holdsI) (blast dest: holds_Inr holds_Inl)+

lemma holds_post: "holds P m Q E \<Longrightarrow> (\<And>a s. Q a s \<Longrightarrow> Q' a s) \<Longrightarrow> holds P m Q' E"
  by (rule holds_mono)

lemma holds_conj:
  "holds P m Q E \<Longrightarrow> holds P' m Q' E' \<Longrightarrow>
     holds (\<lambda>s. P s \<and> P' s) m (\<lambda>a s. Q a s \<and> Q' a s) (\<lambda>e s. E e s \<and> E' e s)"
  by (rule holdsI) (blast dest: holds_Inr holds_Inl)+

text \<open>An invariant that an operation keeps, whatever it answers.\<close>

definition keeps :: "('s \<Rightarrow> bool) \<Rightarrow> ('e, 's, 'a) loop_op \<Rightarrow> bool" where
  "keeps I m \<longleftrightarrow> holds I m (\<lambda>_. I) (\<lambda>_. I)"

named_theorems keeps_rules \<open>operations that keep an invariant\<close>

lemma keeps_basic [keeps_rules]:
  "keeps I (lo_return a)" "keeps I (lo_fail e)" "keeps I (lo_result r)" "keeps I (lo_get f)"
  by (auto simp: keeps_def intro: holds_get holds_result)

lemma keeps_update [keeps_rules]: "(\<And>s. I s \<Longrightarrow> I (f s)) \<Longrightarrow> keeps I (lo_update f)"
  by (auto simp: keeps_def intro: holds_update)

lemma lo_keeps_bind [keeps_rules]: "keeps I m \<Longrightarrow> (\<And>a. keeps I (f a)) \<Longrightarrow> keeps I (lo_bind m f)"
  unfolding keeps_def by (rule holds_bind)

lemma keeps_attempt [keeps_rules]: "keeps I m \<Longrightarrow> keeps I (lo_attempt m)"
  unfolding keeps_def by (rule holds_attempt)

lemma keeps_map_err [keeps_rules]: "keeps I m \<Longrightarrow> keeps I (lo_map_err g m)"
  unfolding keeps_def by (rule holds_map_err)

lemma lo_keeps_if [keeps_rules]: "(b \<Longrightarrow> keeps I m) \<Longrightarrow> keeps I (lo_if b m)"
  by (simp add: lo_if_def keeps_basic)

lemma keeps_cond [keeps_rules]: "(b \<Longrightarrow> keeps I m) \<Longrightarrow> (\<not> b \<Longrightarrow> keeps I n) \<Longrightarrow> keeps I (if b then m else n)"
  by simp

lemma keeps_holds: "keeps I m \<Longrightarrow> holds I m (\<lambda>_. I) (\<lambda>_. I)"
  by (simp add: keeps_def)

lemma lo_keepsD: "keeps I m \<Longrightarrow> I s \<Longrightarrow> m s = Some (r, s1) \<Longrightarrow> I s1"
  by (cases r) (auto simp: keeps_def dest: holds_Inr holds_Inl)

lemma keepsI: "(\<And>s r s1. I s \<Longrightarrow> m s = Some (r, s1) \<Longrightarrow> I s1) \<Longrightarrow> keeps I m"
  unfolding keeps_def by (rule holdsI) blast+

section \<open>Operations that return\<close>

definition returns :: "('s \<Rightarrow> bool) \<Rightarrow> ('e, 's, 'a) loop_op \<Rightarrow> bool" where
  "returns P m \<longleftrightarrow> (\<forall>s. P s \<longrightarrow> m s \<noteq> None)"

named_theorems returns_rules \<open>operations that return\<close>

lemma returns_basic [returns_rules]:
  "returns P (lo_return a)" "returns P (lo_fail e)" "returns P (lo_result r)" "returns P (lo_get f)"
  "returns P (lo_update g)"
  by (simp_all add: returns_def lo_defs)

lemma returns_bind [returns_rules]:
  "returns P m \<Longrightarrow> keeps P m \<Longrightarrow> (\<And>a. returns P (f a)) \<Longrightarrow> returns P (lo_bind m f)"
  by (fastforce simp: returns_def lo_bind_def dest: lo_keepsD split: option.splits sum.splits)

lemma returns_attempt [returns_rules]: "returns P m \<Longrightarrow> returns P (lo_attempt m)"
  by (simp add: returns_def lo_attempt_def)

lemma returns_map_err [returns_rules]: "returns P m \<Longrightarrow> returns P (lo_map_err g m)"
  by (simp add: returns_def lo_map_err_def)

lemma returns_if [returns_rules]: "(b \<Longrightarrow> returns P m) \<Longrightarrow> returns P (lo_if b m)"
  by (simp add: lo_if_def returns_basic)

lemma returns_cond [returns_rules]:
  "(b \<Longrightarrow> returns P m) \<Longrightarrow> (\<not> b \<Longrightarrow> returns P n) \<Longrightarrow> returns P (if b then m else n)"
  by simp

end
