(* ===== verification/Command_Process.thy ===== *)
theory Command_Process
  imports Command_Errors Command_Environment Loop_Operations
begin

text \<open>
  One command as a process group (\<open>CommandProcess\<close> and \<open>DescendantToken\<close> of
  crates/capability-coding/src/command.rs, crates/platform-process/src/lib.rs): the operations that
  signal the group, look at its leader, close the token that its descendants inherit, and reap it.
  The operating system is an answer for every call, by the number of the call; the loops that retry
  an interrupted call may not end. \<open>ps_trace\<close> is what has happened to the command, oldest first. A
  duration is in nanoseconds. Yielding the processor has no effect here.
\<close>

definition milliseconds :: "nat \<Rightarrow> nat" where "milliseconds n = n * 1000000"

definition INITIAL_EXIT_POLL_INTERVAL :: nat where "INITIAL_EXIT_POLL_INTERVAL = milliseconds 1"

definition MAX_EXIT_POLL_INTERVAL :: nat where "MAX_EXIT_POLL_INTERVAL = milliseconds 50"

definition TERMINATION_CONFIRM_GRACE :: nat where "TERMINATION_CONFIRM_GRACE = milliseconds 100"

definition TERMINAL_GROUP_SEAL_ROUNDS :: nat where "TERMINAL_GROUP_SEAL_ROUNDS = 8"

definition DESCENDANT_TOKEN_WAIT_SLICE :: nat where "DESCENDANT_TOKEN_WAIT_SLICE = milliseconds 5"

section \<open>Commands\<close>

datatype std_stream = Stdout | Stderr

datatype stdio = StdioInherit | StdioNull | StdioPiped

text \<open>
  A \<open>Command\<close> that is being built: what it runs, its environment, and what its hooks do in the child
  before the program starts (\<open>fchdir\<close> to the workspace, \<open>PR_SET_NO_NEW_PRIVS\<close>, inheriting the token).
\<close>

record process_command =
  cmd_program :: ustring
  cmd_args :: "ustring list"
  cmd_env :: child_env
  cmd_in_workspace :: bool
  cmd_no_new_privs :: bool
  cmd_token :: bool
  cmd_stdin :: stdio
  cmd_stdout :: stdio
  cmd_stderr :: stdio

text \<open>What happens to a command.\<close>

datatype process_event =
    SlotReserved
  | SlotReleased
  | Spawned process_command
  | GroupSignalled
  | LeaderSeenTerminal
  | TokenSeenClosed
  | LeaderReaped exit_status
  | HandedOver
  | StreamBytes std_stream "nat list"
  | StreamEnded std_stream
  | Waited nat

record process_state =
  ps_calls :: nat
  ps_trace :: "process_event list"
  ps_child :: nat
  ps_token :: "bool option"

text \<open>
  The answers of the operating system and of the other threads. A call that only fails or succeeds
  answers \<open>None\<close> for success; calls of rustix fail with an error number.
\<close>

record command_os =
  os_cancelled :: "nat \<Rightarrow> bool"
  os_now :: "nat \<Rightarrow> nat"
  os_bind_directory :: "nat \<Rightarrow> os_error option"
  os_socket_pair :: "nat \<Rightarrow> os_error option"
  os_set_nonblocking :: "nat \<Rightarrow> os_error option"
  os_fcntl :: "nat \<Rightarrow> nat option"
  os_worker_running :: "nat \<Rightarrow> bool"
  os_start_worker :: "nat \<Rightarrow> os_error option"
  os_degraded :: "nat \<Rightarrow> bool"
  os_active_slots :: "nat \<Rightarrow> nat"
  os_slot_exchange :: "nat \<Rightarrow> nat option"
  os_spawn :: "nat \<Rightarrow> os_error + nat"
  os_kill :: "nat \<Rightarrow> os_error option"
  os_kill_group :: "nat \<Rightarrow> nat option"
  os_waitid :: "nat \<Rightarrow> nat + bool"
  os_waitpid :: "nat \<Rightarrow> nat + exit_status option"
  os_token_read :: "nat \<Rightarrow> os_error + nat"
  os_read :: "std_stream \<Rightarrow> nat \<Rightarrow> os_error + nat list"
  os_poll :: "nat \<Rightarrow> nat option"
  os_strerror :: "nat \<Rightarrow> ustring"

text \<open>One call, and one call that is an event of the command.\<close>

definition called :: "process_event list \<Rightarrow> 's process_state_scheme \<Rightarrow> 's process_state_scheme" where
  "called evs s = s\<lparr>ps_calls := ps_calls s + 1, ps_trace := ps_trace s @ evs\<rparr>"

lemma called_simps [simp]:
  "ps_trace (called evs s) = ps_trace s @ evs" "ps_calls (called evs s) = ps_calls s + 1"
  "ps_token (called evs s) = ps_token s" "ps_child (called evs s) = ps_child s"
  "process_state.more (called evs s) = process_state.more s"
  by (simp_all add: called_def)

definition os_call :: "(nat \<Rightarrow> 'a) \<Rightarrow> ('e, 's process_state_scheme, 'a) loop_op" where
  "os_call f s = Some (Inr (f (ps_calls s)), called [] s)"

definition os_check :: "(nat \<Rightarrow> 'x option) \<Rightarrow> ('x, 's process_state_scheme, unit) loop_op" where
  "os_check f s =
     Some (case f (ps_calls s) of None \<Rightarrow> Inr () | Some source \<Rightarrow> Inl source, called [] s)"

definition emit :: "process_event \<Rightarrow> ('e, 's process_state_scheme, unit) loop_op" where
  "emit ev = lo_update (\<lambda>s. s\<lparr>ps_trace := ps_trace s @ [ev]\<rparr>)"

definition now :: "command_os \<Rightarrow> ('e, 's process_state_scheme, nat) loop_op" where
  "now os = os_call (os_now os)"

definition sleep :: "nat \<Rightarrow> ('e, 's process_state_scheme, unit) loop_op" where
  "sleep d = emit (Waited d)"

section \<open>Signalling the group\<close>

text \<open>\<open>GroupChild::kill\<close>, repeated while it is interrupted.\<close>

partial_function (option) kill_wrapper ::
    "command_os \<Rightarrow> 's process_state_scheme \<Rightarrow> ((os_error + unit) \<times> 's process_state_scheme) option" where
  "kill_wrapper os s =
     (case os_kill os (ps_calls s) of
        None \<Rightarrow> Some (Inr (), called [GroupSignalled] s)
      | Some source \<Rightarrow>
          if io_kind source = IoInterrupted then kill_wrapper os (called [GroupSignalled] s)
          else if group_already_exited source then Some (Inr (), called [GroupSignalled] s)
          else Some (Inl source, called [GroupSignalled] s))"

partial_function (option) kill_group_loop ::
    "command_os \<Rightarrow> 's process_state_scheme \<Rightarrow> ((os_error + unit) \<times> 's process_state_scheme) option" where
  "kill_group_loop os s =
     (case os_kill_group os (ps_calls s) of
        None \<Rightarrow> Some (Inr (), called [GroupSignalled] s)
      | Some errno \<Rightarrow>
          if errno = ERRNO_INTR then kill_group_loop os (called [GroupSignalled] s)
          else if errno = ERRNO_SRCH then Some (Inr (), called [GroupSignalled] s)
          else Some (Inl (from_raw_os_error (os_strerror os) errno), called [GroupSignalled] s))"

text \<open>The id of a child, a \<open>u32\<close>, as a process id, which is a positive \<open>i32\<close>.\<close>

definition child_pid :: "nat \<Rightarrow> os_error + nat" where
  "child_pid i =
     (if 2 ^ 31 \<le> i then
        Inl (os_error_new IoInvalidInput (lit ''command process-group id does not fit in i32''))
      else if i = 0 then
        Inl (os_error_new IoInvalidInput (lit ''command process-group id was zero''))
      else Inr i)"

definition kill_process_group_by_id ::
    "command_os \<Rightarrow> (os_error, 's process_state_scheme, unit) loop_op" where
  "kill_process_group_by_id os =
     lo_bind (lo_get ps_child) (\<lambda>i.
     lo_bind (lo_result (child_pid i)) (\<lambda>_. kill_group_loop os))"

definition process_group_id :: "(command_error, 's process_state_scheme, nat) loop_op" where
  "process_group_id =
     lo_bind (lo_get ps_child) (\<lambda>i. lo_result (map_err KillError (child_pid i)))"

definition group_kill_failure :: "os_error \<Rightarrow> os_error \<Rightarrow> command_error" where
  "group_kill_failure wrapper fallback =
     KillError (os_error_new
       (if group_signal_permission_denied wrapper \<or> group_signal_permission_denied fallback
        then IoPermissionDenied else io_kind fallback)
       (lit ''command-group wrapper failed ('' @ io_text wrapper
          @ lit ''); direct process-group termination also failed ('' @ io_text fallback @ lit '')''))"

definition terminate_command_group ::
    "command_os \<Rightarrow> (command_error, 's process_state_scheme, unit) loop_op" where
  "terminate_command_group os =
     lo_bind (lo_attempt (kill_wrapper os)) (\<lambda>wrapper_result.
     case wrapper_result of
       Inr _ \<Rightarrow> lo_return ()
     | Inl wrapper \<Rightarrow> lo_map_err (group_kill_failure wrapper) (kill_process_group_by_id os))"

definition permission_denied_kill :: "command_error \<Rightarrow> bool" where
  "permission_denied_kill e \<longleftrightarrow>
     (case e of KillError source \<Rightarrow> group_signal_permission_denied source | _ \<Rightarrow> False)"

definition terminate_signal_compatible_group_after_leader_exit ::
    "command_os \<Rightarrow> (command_error, 's process_state_scheme, unit) loop_op" where
  "terminate_signal_compatible_group_after_leader_exit os =
     lo_bind (lo_attempt (terminate_command_group os)) (\<lambda>result.
     case result of
       Inl e \<Rightarrow> if permission_denied_kill e then lo_return () else lo_fail e
     | Inr _ \<Rightarrow> lo_return ())"

section \<open>The token of the descendants\<close>

definition observe_close :: "command_os \<Rightarrow> (command_error, 's process_state_scheme, bool) loop_op" where
  "observe_close os =
     lo_bind (lo_get ps_token) (\<lambda>closed.
     if closed = Some True then lo_return True
     else lo_bind (os_call (os_token_read os)) (\<lambda>answer.
       case answer of
         Inr n \<Rightarrow>
           if n = 0 then
             lo_bind (emit TokenSeenClosed) (\<lambda>_.
             lo_bind (lo_update (\<lambda>s. s\<lparr>ps_token := Some True\<rparr>)) (\<lambda>_. lo_return True))
           else lo_return False
       | Inl source \<Rightarrow>
           if io_kind source \<in> {IoInterrupted, IoWouldBlock} then lo_return False
           else lo_fail (ReadOutput source)))"

partial_function (option) wait_for_close_loop ::
    "command_os \<Rightarrow> nat \<Rightarrow> 's process_state_scheme \<Rightarrow> ((command_error + bool) \<times> 's process_state_scheme) option"
  where
  "wait_for_close_loop os deadline s =
     (if deadline \<le> os_now os (ps_calls s) then observe_close os (called [] s)
      else case os_poll os (ps_calls s + 1) of
        None \<Rightarrow> observe_close os (called [Waited (deadline - os_now os (ps_calls s))] (called [] s))
      | Some errno \<Rightarrow>
          if errno = ERRNO_INTR then
            wait_for_close_loop os deadline (called [Waited (deadline - os_now os (ps_calls s))] (called [] s))
          else Some (Inl (ReadOutput (from_raw_os_error (os_strerror os) errno)),
                 called [Waited (deadline - os_now os (ps_calls s))] (called [] s)))"

definition wait_for_close ::
    "command_os \<Rightarrow> nat \<Rightarrow> (command_error, 's process_state_scheme, bool) loop_op" where
  "wait_for_close os timeout =
     lo_bind (observe_close os) (\<lambda>closed.
     if closed then lo_return True
     else lo_bind (now os) (\<lambda>t. wait_for_close_loop os (t + timeout)))"

section \<open>The leader\<close>

partial_function (option) waitid_loop ::
    "command_os \<Rightarrow> 's process_state_scheme \<Rightarrow> ((command_error + bool) \<times> 's process_state_scheme) option" where
  "waitid_loop os s =
     (case os_waitid os (ps_calls s) of
        Inr terminal \<Rightarrow> Some (Inr terminal, called (if terminal then [LeaderSeenTerminal] else []) s)
      | Inl errno \<Rightarrow>
          if errno = ERRNO_INTR then waitid_loop os (called [] s)
          else Some (Inl (WaitError (from_raw_os_error (os_strerror os) errno)), called [] s))"

definition command_leader_terminal ::
    "command_os \<Rightarrow> (command_error, 's process_state_scheme, bool) loop_op" where
  "command_leader_terminal os = lo_bind process_group_id (\<lambda>_. waitid_loop os)"

text \<open>The wait for the leader, with a poll interval that doubles up to ten milliseconds.\<close>

partial_function (option) leader_wait_loop ::
    "command_os \<Rightarrow> nat \<Rightarrow> nat \<Rightarrow> nat \<Rightarrow> 's process_state_scheme
       \<Rightarrow> ((command_error + bool) \<times> 's process_state_scheme) option" where
  "leader_wait_loop os started grace poll_interval s =
     (case command_leader_terminal os s of
        None \<Rightarrow> None
      | Some (Inl e, s1) \<Rightarrow> Some (Inl e, s1)
      | Some (Inr terminal, s1) \<Rightarrow>
          if terminal then Some (Inr True, s1)
          else if grace \<le> os_now os (ps_calls s1) - started then Some (Inr False, called [] s1)
          else leader_wait_loop os started grace (min (poll_interval * 2) (milliseconds 10))
                 (called [Waited poll_interval] s1))"

definition wait_for_leader_terminal_bounded ::
    "command_os \<Rightarrow> nat \<Rightarrow> (command_error, 's process_state_scheme, bool) loop_op" where
  "wait_for_leader_terminal_bounded os grace =
     lo_bind (now os) (\<lambda>started. leader_wait_loop os started grace (milliseconds 1))"

section \<open>Sealing and reaping\<close>

primrec seal_rounds :: "command_os \<Rightarrow> nat \<Rightarrow> (command_error, 's process_state_scheme, unit) loop_op" where
  "seal_rounds os 0 =
     lo_bind (lo_get ps_token) (\<lambda>token.
       if token \<noteq> None then lo_fail TerminationUnverified else lo_return ())"
| "seal_rounds os (Suc n) =
     lo_bind (terminate_signal_compatible_group_after_leader_exit os) (\<lambda>_.
     lo_bind (lo_get ps_token) (\<lambda>token.
       if token = None then seal_rounds os n
       else lo_bind (wait_for_close os DESCENDANT_TOKEN_WAIT_SLICE) (\<lambda>closed.
         if closed then lo_return () else seal_rounds os n)))"

definition seal_terminal_process_group ::
    "command_os \<Rightarrow> (command_error, 's process_state_scheme, unit) loop_op" where
  "seal_terminal_process_group os = seal_rounds os TERMINAL_GROUP_SEAL_ROUNDS"

partial_function (option) waitpid_loop ::
    "command_os \<Rightarrow> 's process_state_scheme
       \<Rightarrow> ((command_error + exit_status) \<times> 's process_state_scheme) option" where
  "waitpid_loop os s =
     (case os_waitpid os (ps_calls s) of
        Inr (Some st) \<Rightarrow> Some (Inr st, called [LeaderReaped st] s)
      | Inr None \<Rightarrow> waitpid_loop os (called [] s)
      | Inl errno \<Rightarrow>
          if errno = ERRNO_INTR then waitpid_loop os (called [] s)
          else Some (Inl (WaitError (from_raw_os_error (os_strerror os) errno)), called [] s))"

definition wait_for_command_group ::
    "command_os \<Rightarrow> (command_error, 's process_state_scheme, exit_status) loop_op" where
  "wait_for_command_group os = lo_bind process_group_id (\<lambda>_. waitpid_loop os)"

definition seal_and_reap_terminal_group ::
    "command_os \<Rightarrow> (command_error, 's process_state_scheme, exit_status) loop_op" where
  "seal_and_reap_terminal_group os =
     lo_bind (seal_terminal_process_group os) (\<lambda>_. wait_for_command_group os)"

definition tracked_descendants_are_sealed :: "'s process_state_scheme \<Rightarrow> bool" where
  "tracked_descendants_are_sealed s \<longleftrightarrow> ps_token s = Some True"

end
