(* ===== verification/Command_Cleanup.thy ===== *)
theory Command_Cleanup
  imports Command_Process
begin

text \<open>
  What run-command does before a process is started and after its loop has ended
  (crates/capability-coding/src/command.rs): admission by the process-wide supervisor, the hand-over
  of a command that cannot be reaped, the cleanup of the process group, and the reconciliation of the
  two results. The state of the supervisor is read by a schedule, since other commands change it.
\<close>

section \<open>Admission\<close>

definition MAX_COMMAND_SUPERVISION_SLOTS :: nat where "MAX_COMMAND_SUPERVISION_SLOTS = 64"

text \<open>The worker thread of the supervisor runs already or is started.\<close>

definition ensure_worker_started :: "command_os \<Rightarrow> (os_error, 's process_state_scheme, unit) loop_op" where
  "ensure_worker_started os =
     lo_bind (os_call (os_worker_running os)) (\<lambda>running.
       if running then lo_return () else os_check (os_start_worker os))"

definition ensure_admission_healthy ::
    "command_os \<Rightarrow> (command_error, 's process_state_scheme, unit) loop_op" where
  "ensure_admission_healthy os =
     lo_bind (os_call (os_degraded os)) (\<lambda>degraded.
       if degraded then lo_fail SupervisorDegraded else lo_return ())"

text \<open>The loop around \<open>compare_exchange_weak\<close>, which answers the value it saw when it fails.\<close>

partial_function (option) reserve_slot_loop ::
    "command_os \<Rightarrow> nat \<Rightarrow> 's process_state_scheme
       \<Rightarrow> ((command_error + unit) \<times> 's process_state_scheme) option" where
  "reserve_slot_loop os active s =
     (if MAX_COMMAND_SUPERVISION_SLOTS \<le> active then Some (Inl SupervisorAtCapacity, s)
      else case os_slot_exchange os (ps_calls s) of
        None \<Rightarrow> Some (Inr (), called [SlotReserved] s)
      | Some observed \<Rightarrow> reserve_slot_loop os observed (called [] s))"

definition reserve_slot :: "command_os \<Rightarrow> (command_error, 's process_state_scheme, unit) loop_op" where
  "reserve_slot os = lo_bind (os_call (os_active_slots os)) (reserve_slot_loop os)"

definition prepare_command_supervision ::
    "command_os \<Rightarrow> (command_error, 's process_state_scheme, unit) loop_op" where
  "prepare_command_supervision os =
     lo_bind (lo_map_err SupervisorUnavailable (ensure_worker_started os)) (\<lambda>_.
     lo_bind (ensure_admission_healthy os) (\<lambda>_. reserve_slot os))"

section \<open>Hand-over\<close>

text \<open>The child and its slot move into the registry of the supervisor.\<close>

definition supervise_live_command ::
    "command_os \<Rightarrow> command_error \<Rightarrow> command_error option
       \<Rightarrow> ('e, 's process_state_scheme, command_error) loop_op" where
  "supervise_live_command os termination_error wait_error =
     (let wait_context = (case wait_error of
            None \<Rightarrow> []
          | Some source \<Rightarrow>
              lit ''; nonblocking reap inspection also failed ('' @ command_error_text source @ lit '')'')
      in lo_bind (emit HandedOver) (\<lambda>_.
         lo_bind (lo_attempt (ensure_worker_started os)) (\<lambda>started.
           let supervision = (case started of
                 Inr _ \<Rightarrow> lit ''a live command may remain while the process-wide supervisor retries termination and retains reaping ownership''
               | Inl source \<Rightarrow>
                   lit ''the process-wide supervisor worker is unavailable ('' @ io_text source
                     @ lit ''); live-command ownership remains retained and the next command preflight will retry worker startup'')
           in lo_return (TerminationSupervised
                (command_error_text termination_error @ wait_context @ lit ''; '' @ supervision)))))"

section \<open>Cleanup\<close>

datatype command_cleanup_state = CleanupAlreadyReaped | CleanupTerminateAndReap

datatype command_cleanup_completion =
    CompletionAlreadyReaped
  | CompletionReaped exit_status bool

text \<open>What the cleanup answers after it has reaped the leader: the first error, unless the seal excuses it.\<close>

definition reaped_answer ::
    "command_error option \<Rightarrow> exit_status \<Rightarrow> bool \<Rightarrow> command_error + command_cleanup_completion" where
  "reaped_answer first_error st sealed =
     (case first_error of
        None \<Rightarrow> Inr (CompletionReaped st sealed)
      | Some source \<Rightarrow>
          if sealed \<and> permission_denied_kill source then Inr (CompletionReaped st sealed) else Inl source)"

text \<open>
  The slot is released where the code drops the permit: at the end of every path that does not hand the
  command over.
\<close>

definition reap_after_termination ::
    "command_os \<Rightarrow> command_error option
       \<Rightarrow> (command_error, 's process_state_scheme, command_cleanup_completion) loop_op" where
  "reap_after_termination os first_error =
     lo_bind (lo_attempt (seal_and_reap_terminal_group os)) (\<lambda>reaped.
     case reaped of
       Inl source \<Rightarrow>
         lo_bind (supervise_live_command os (case first_error of None \<Rightarrow> source | Some e \<Rightarrow> e) None) lo_fail
     | Inr st \<Rightarrow>
         lo_bind (lo_get tracked_descendants_are_sealed) (\<lambda>sealed.
         lo_bind (emit SlotReleased) (\<lambda>_. lo_result (reaped_answer first_error st sealed))))"

definition cleanup_process_group ::
    "command_os \<Rightarrow> command_cleanup_state
       \<Rightarrow> (command_error, 's process_state_scheme, command_cleanup_completion) loop_op" where
  "cleanup_process_group os state =
     (case state of
        CleanupAlreadyReaped \<Rightarrow> lo_bind (emit SlotReleased) (\<lambda>_. lo_return CompletionAlreadyReaped)
      | CleanupTerminateAndReap \<Rightarrow>
          lo_bind (lo_attempt (terminate_command_group os)) (\<lambda>terminated.
          let first_error = (case terminated of Inl source \<Rightarrow> Some source | Inr _ \<Rightarrow> None);
              termination_error = (case first_error of None \<Rightarrow> TerminationUnverified | Some e \<Rightarrow> e)
          in lo_bind (lo_attempt (wait_for_leader_terminal_bounded os TERMINATION_CONFIRM_GRACE)) (\<lambda>waited.
             case waited of
               Inr terminal \<Rightarrow>
                 if terminal then reap_after_termination os first_error
                 else lo_bind (supervise_live_command os termination_error None) lo_fail
             | Inl wait_error \<Rightarrow>
                 lo_bind (supervise_live_command os termination_error (Some wait_error)) lo_fail)))"

definition reconcile_control_and_cleanup ::
    "command_error + unit \<Rightarrow> command_error + command_cleanup_completion \<Rightarrow> bool \<Rightarrow> bool
       \<Rightarrow> command_error + exit_status option" where
  "reconcile_control_and_cleanup control_result cleanup_result cancellation_observed streams_done =
     (case (control_result, cleanup_result) of
        (Inl _, Inl cleanup) \<Rightarrow> Inl cleanup
      | (Inl source, Inr completion) \<Rightarrow>
          (case completion of
             CompletionReaped st sealed \<Rightarrow>
               if source = TerminationUnverified \<and> sealed \<and> streams_done then Inr (Some st)
               else if permission_denied_kill source \<and> sealed \<and> cancellation_observed \<and> streams_done
                 then Inr (Some st)
               else Inl source
           | CompletionAlreadyReaped \<Rightarrow> Inl source)
      | (Inr _, Inl cleanup) \<Rightarrow> Inl cleanup
      | (Inr _, Inr completion) \<Rightarrow>
          (case completion of
             CompletionReaped st _ \<Rightarrow> Inr (Some st)
           | CompletionAlreadyReaped \<Rightarrow> Inr None))"

end
