(* ===== verification/Command_Run.thy ===== *)
theory Command_Run
  imports Command_Cleanup Command_Policy
begin

text \<open>
  Running a command to its end (\<open>run_shell_command\<close> of crates/capability-coding/src/command.rs): the
  child is started, its streams are captured while its leader is watched, a cancellation terminates
  its group, and the process is reaped or handed over. The local variables of the code are the fields
  of \<open>command_state\<close>.
\<close>

definition MAX_STREAM_READS_PER_TICK :: nat where "MAX_STREAM_READS_PER_TICK = 16"

definition OUTPUT_DRAIN_GRACE :: nat where "OUTPUT_DRAIN_GRACE = milliseconds 250"

record command_state = process_state +
  rs_capture :: "std_stream \<Rightarrow> captured_stream"
  rs_done :: "std_stream \<Rightarrow> bool"
  rs_stream_error :: "os_error option"
  rs_status :: "exit_status option"
  rs_leader_terminal :: bool
  rs_drain_started_at :: "nat option"
  rs_output_incomplete :: bool
  rs_cancelled :: bool
  rs_forced_at :: "nat option"
  rs_exit_poll_interval :: nat

definition command_start :: "nat \<Rightarrow> command_state" where
  "command_start max_output_bytes =
     \<lparr>ps_calls = 0, ps_trace = [], ps_child = 0, ps_token = None,
      rs_capture = (\<lambda>_. captured_new max_output_bytes), rs_done = (\<lambda>_. False), rs_stream_error = None,
      rs_status = None, rs_leader_terminal = False, rs_drain_started_at = None,
      rs_output_incomplete = False, rs_cancelled = False, rs_forced_at = None,
      rs_exit_poll_interval = INITIAL_EXIT_POLL_INTERVAL\<rparr>"

text \<open>An early return with an error, or a panic of an \<open>expect\<close>.\<close>

datatype command_failure = CommandFailed command_error | CommandPanicked

section \<open>Streams\<close>

definition stream_ended :: "std_stream \<Rightarrow> command_state \<Rightarrow> command_state" where
  "stream_ended st s = s\<lparr>rs_done := (rs_done s)(st := True)\<rparr>"

definition stream_pushed :: "std_stream \<Rightarrow> nat list \<Rightarrow> command_state \<Rightarrow> command_state" where
  "stream_pushed st bytes s =
     s\<lparr>rs_capture := (rs_capture s)(st := captured_push bytes (rs_capture s st))\<rparr>"

definition stream_failed :: "std_stream \<Rightarrow> os_error \<Rightarrow> command_state \<Rightarrow> command_state" where
  "stream_failed st source s =
     s\<lparr>rs_done := (rs_done s)(st := True),
       rs_stream_error := (case rs_stream_error s of None \<Rightarrow> Some source | Some e \<Rightarrow> Some e)\<rparr>"

text \<open>The reads of one round; the result is whether one of them made progress.\<close>

primrec stream_reads ::
    "command_os \<Rightarrow> std_stream \<Rightarrow> nat \<Rightarrow> bool \<Rightarrow> (command_error, command_state, bool) loop_op" where
  "stream_reads os st 0 progressed = lo_return progressed"
| "stream_reads os st (Suc n) progressed =
     lo_bind (os_call (os_read os st)) (\<lambda>answer.
     case answer of
       Inr bytes \<Rightarrow>
         if bytes = [] then
           lo_bind (emit (StreamEnded st)) (\<lambda>_. lo_bind (lo_update (stream_ended st)) (\<lambda>_. lo_return True))
         else
           lo_bind (emit (StreamBytes st (take (8 * 1024) bytes))) (\<lambda>_.
           lo_bind (lo_update (stream_pushed st (take (8 * 1024) bytes))) (\<lambda>_. stream_reads os st n True))
     | Inl source \<Rightarrow>
         if io_kind source = IoInterrupted then stream_reads os st n progressed
         else if io_kind source = IoWouldBlock then lo_return progressed
         else lo_bind (lo_update (stream_failed st source)) (\<lambda>_. lo_return True))"

definition read_available_stream ::
    "command_os \<Rightarrow> std_stream \<Rightarrow> (command_error, command_state, bool) loop_op" where
  "read_available_stream os st =
     lo_bind (lo_get (\<lambda>s. rs_done s st)) (\<lambda>ended.
       if ended then lo_return False else stream_reads os st MAX_STREAM_READS_PER_TICK False)"

definition streams_done :: "command_state \<Rightarrow> bool" where
  "streams_done s \<longleftrightarrow> rs_done s Stdout \<and> rs_done s Stderr"

text \<open>A poll over the streams that are open, with a timeout, or a sleep when none is.\<close>

definition wait_for_stream_activity ::
    "command_os \<Rightarrow> nat \<Rightarrow> (command_error, command_state, unit) loop_op" where
  "wait_for_stream_activity os interval =
     lo_bind (lo_get streams_done) (\<lambda>ended.
     lo_bind (emit (Waited interval)) (\<lambda>_.
     if ended then lo_return ()
     else lo_bind (os_call (os_poll os)) (\<lambda>answer.
       case answer of
         None \<Rightarrow> lo_return ()
       | Some errno \<Rightarrow>
           if errno = ERRNO_INTR then lo_return ()
           else lo_fail (ReadOutput (from_raw_os_error (os_strerror os) errno)))))"

definition next_exit_poll_interval :: "nat \<Rightarrow> bool \<Rightarrow> nat" where
  "next_exit_poll_interval current made_progress =
     (if made_progress then INITIAL_EXIT_POLL_INTERVAL else min (current * 2) MAX_EXIT_POLL_INTERVAL)"

definition drain_step :: "command_os \<Rightarrow> nat \<Rightarrow> (command_error, command_state, bool) loop_op" where
  "drain_step os deadline =
     lo_bind (read_available_stream os Stdout) (\<lambda>stdout_progress.
     lo_bind (read_available_stream os Stderr) (\<lambda>stderr_progress.
     lo_bind (lo_get (\<lambda>s. streams_done s \<or> rs_stream_error s \<noteq> None)) (\<lambda>finished.
     if finished then lo_return True
     else lo_bind (now os) (\<lambda>t.
       if deadline \<le> t then lo_return True
       else lo_bind (lo_if (\<not> stdout_progress \<and> \<not> stderr_progress)
              (wait_for_stream_activity os (min (deadline - t) MAX_EXIT_POLL_INTERVAL))) (\<lambda>_.
            lo_return False)))))"

partial_function (option) drain_loop ::
    "command_os \<Rightarrow> nat \<Rightarrow> command_state \<Rightarrow> ((command_error + unit) \<times> command_state) option" where
  "drain_loop os deadline s =
     (case drain_step os deadline s of
        None \<Rightarrow> None
      | Some (Inl e, s1) \<Rightarrow> Some (Inl e, s1)
      | Some (Inr finished, s1) \<Rightarrow> if finished then Some (Inr (), s1) else drain_loop os deadline s1)"

definition drain_streams_after_reap :: "command_os \<Rightarrow> (command_error, command_state, unit) loop_op" where
  "drain_streams_after_reap os = lo_bind (now os) (\<lambda>t. drain_loop os (t + OUTPUT_DRAIN_GRACE))"

section \<open>One round of the loop\<close>

definition cancel_command :: "command_os \<Rightarrow> (command_error, command_state, unit) loop_op" where
  "cancel_command os =
     lo_bind (lo_update (\<lambda>s. s\<lparr>rs_cancelled := True\<rparr>)) (\<lambda>_.
     lo_bind (lo_get rs_status) (\<lambda>status.
     lo_bind (lo_if (status = None)
       (lo_bind (terminate_command_group os) (\<lambda>_.
        lo_bind (wait_for_leader_terminal_bounded os TERMINATION_CONFIRM_GRACE) (\<lambda>terminal.
        lo_if terminal (lo_bind (seal_and_reap_terminal_group os) (\<lambda>st.
          lo_update (\<lambda>s. s\<lparr>rs_status := Some st\<rparr>))))))) (\<lambda>_.
     lo_bind (now os) (\<lambda>t. lo_update (\<lambda>s. s\<lparr>rs_forced_at := Some t\<rparr>)))))"

definition observe_cancellation :: "command_os \<Rightarrow> (command_error, command_state, unit) loop_op" where
  "observe_cancellation os =
     lo_bind (os_call (os_cancelled os)) (\<lambda>requested.
     lo_bind (lo_get rs_cancelled) (\<lambda>cancelled.
       lo_if (requested \<and> \<not> cancelled) (cancel_command os)))"

definition observe_leader :: "command_os \<Rightarrow> (command_error, command_state, unit) loop_op" where
  "observe_leader os =
     lo_bind (lo_get (\<lambda>s. rs_status s = None \<and> \<not> rs_leader_terminal s)) (\<lambda>unseen.
     lo_bind (lo_if unseen (lo_bind (command_leader_terminal os) (\<lambda>terminal.
       lo_update (\<lambda>s. s\<lparr>rs_leader_terminal := terminal\<rparr>)))) (\<lambda>_.
     lo_bind (lo_get (\<lambda>s. rs_status s = None \<and> rs_leader_terminal s)) (\<lambda>terminal.
       lo_if terminal (lo_bind (seal_and_reap_terminal_group os) (\<lambda>st.
         lo_update (\<lambda>s. s\<lparr>rs_status := Some st\<rparr>))))))"

text \<open>Whether the loop ends because the time for draining after a cancellation is over.\<close>

definition forced_drain_over :: "command_os \<Rightarrow> (command_error, command_state, bool) loop_op" where
  "forced_drain_over os =
     lo_bind (lo_get rs_forced_at) (\<lambda>forced_at.
     case forced_at of
       None \<Rightarrow> lo_return False
     | Some instant \<Rightarrow> lo_bind (now os) (\<lambda>t. lo_return (OUTPUT_DRAIN_GRACE \<le> t - instant)))"

text \<open>The streams of a reaped command stay open for a while; then the output counts as incomplete.\<close>

definition watch_drain :: "command_os \<Rightarrow> (command_error, command_state, unit) loop_op" where
  "watch_drain os =
     lo_bind (lo_get (\<lambda>s. rs_forced_at s = None \<and> rs_status s \<noteq> None)) (\<lambda>draining.
     if draining then
       lo_bind (lo_get rs_drain_started_at) (\<lambda>drain_started_at.
       lo_bind (case drain_started_at of Some t \<Rightarrow> lo_return t | None \<Rightarrow> now os) (\<lambda>started.
       lo_bind (lo_update (\<lambda>s. s\<lparr>rs_drain_started_at := Some started\<rparr>)) (\<lambda>_.
       lo_bind (now os) (\<lambda>t.
         lo_if (OUTPUT_DRAIN_GRACE \<le> t - started)
           (lo_bind (lo_update (\<lambda>s. s\<lparr>rs_output_incomplete := True\<rparr>)) (\<lambda>_.
            lo_bind (now os) (\<lambda>t1. lo_update (\<lambda>s. s\<lparr>rs_forced_at := Some t1\<rparr>))))))))
     else lo_update (\<lambda>s. s\<lparr>rs_drain_started_at := None\<rparr>))"

text \<open>One round: \<open>True\<close> is the end of the loop.\<close>

definition command_tick :: "command_os \<Rightarrow> (command_error, command_state, bool) loop_op" where
  "command_tick os =
     lo_bind (observe_cancellation os) (\<lambda>_.
     lo_bind (read_available_stream os Stdout) (\<lambda>stdout_progress.
     lo_bind (read_available_stream os Stderr) (\<lambda>stderr_progress.
     lo_bind (lo_if (stdout_progress \<or> stderr_progress) (lo_update (\<lambda>s.
       s\<lparr>rs_exit_poll_interval := next_exit_poll_interval (rs_exit_poll_interval s) True\<rparr>))) (\<lambda>_.
     lo_bind (observe_leader os) (\<lambda>_.
     lo_bind (lo_get (\<lambda>s. rs_status s \<noteq> None \<and> streams_done s)) (\<lambda>finished.
     if finished then lo_return True
     else lo_bind (forced_drain_over os) (\<lambda>over.
       if over then lo_return True
       else lo_bind (watch_drain os) (\<lambda>_.
            lo_bind (lo_if (\<not> stdout_progress \<and> \<not> stderr_progress)
              (lo_bind (lo_get rs_exit_poll_interval) (\<lambda>interval.
               lo_bind (wait_for_stream_activity os interval) (\<lambda>_.
               lo_update (\<lambda>s. s\<lparr>rs_exit_poll_interval :=
                 next_exit_poll_interval (rs_exit_poll_interval s) False\<rparr>))))) (\<lambda>_.
            lo_return False)))))))))"

partial_function (option) command_loop ::
    "command_os \<Rightarrow> command_state \<Rightarrow> ((command_error + unit) \<times> command_state) option" where
  "command_loop os s =
     (case command_tick os s of
        None \<Rightarrow> None
      | Some (Inl e, s1) \<Rightarrow> Some (Inl e, s1)
      | Some (Inr finished, s1) \<Rightarrow> if finished then Some (Inr (), s1) else command_loop os s1)"

section \<open>Starting the child\<close>

definition shell_command :: "ustring \<Rightarrow> child_env \<Rightarrow> process_command" where
  "shell_command command env =
     \<lparr>cmd_program = lit ''/bin/sh'', cmd_args = [lit ''-c'', command], cmd_env = env,
      cmd_in_workspace = False, cmd_no_new_privs = False, cmd_token = False,
      cmd_stdin = StdioInherit, cmd_stdout = StdioInherit, cmd_stderr = StdioInherit\<rparr>"

text \<open>
  The agent's environment and what it needs of the file system to clean the search path, read when
  the command is prepared.
\<close>

record command_host =
  ch_vars :: variables
  ch_canonical :: "ustring \<Rightarrow> path option"
  ch_canonical_program :: "path \<Rightarrow> ustring \<Rightarrow> io_error + path"

definition configured_command :: "command_host \<Rightarrow> path \<Rightarrow> process_command \<Rightarrow> process_command" where
  "configured_command H root cmd =
     cmd\<lparr>cmd_env := configure_command_environment (ch_canonical H) (ch_canonical_program H) (ch_vars H) root
            (map_of (ch_vars H) (lit ''PATH'')) LOW_RISK_EXTERNAL_PROGRAMS (cmd_env cmd),
         cmd_no_new_privs := True,
         cmd_stdin := StdioNull, cmd_stdout := StdioPiped, cmd_stderr := StdioPiped\<rparr>"

text \<open>\<open>bind_working_directory\<close>: the hook holds a clone of the handle of the root.\<close>

definition bind_command_working_directory ::
    "command_os \<Rightarrow> process_command \<Rightarrow> (os_error, command_state, process_command) loop_op" where
  "bind_command_working_directory os cmd =
     lo_bind (os_check (os_bind_directory os)) (\<lambda>_. lo_return (cmd\<lparr>cmd_in_workspace := True\<rparr>))"

text \<open>A pair of flag operations on a descriptor, as \<open>fcntl\<close> gets and sets them.\<close>

definition change_flags :: "command_os \<Rightarrow> (os_error, command_state, unit) loop_op" where
  "change_flags os =
     lo_map_err (from_raw_os_error (os_strerror os))
       (lo_bind (os_check (os_fcntl os)) (\<lambda>_. os_check (os_fcntl os)))"

definition descendant_token_prepare ::
    "command_os \<Rightarrow> process_command \<Rightarrow> (command_error, command_state, process_command) loop_op" where
  "descendant_token_prepare os cmd =
     lo_map_err ConfigureOutput
       (lo_bind (os_check (os_socket_pair os)) (\<lambda>_.
        lo_bind (os_check (os_set_nonblocking os)) (\<lambda>_.
        lo_bind (change_flags os) (\<lambda>_.
        lo_bind (lo_update (\<lambda>s. s\<lparr>ps_token := Some False\<rparr>)) (\<lambda>_.
          lo_return (cmd\<lparr>cmd_token := True\<rparr>))))))"

definition check_cancelled :: "command_os \<Rightarrow> (command_error, command_state, unit) loop_op" where
  "check_cancelled os =
     lo_bind (os_call (os_cancelled os)) (\<lambda>requested.
       if requested then lo_fail CommandCancelled else lo_return ())"

text \<open>A permit that is dropped with an early return releases its slot.\<close>

definition spawn_group ::
    "command_os \<Rightarrow> process_command \<Rightarrow> (command_error, command_state, unit) loop_op" where
  "spawn_group os cmd =
     lo_bind (os_call (os_spawn os)) (\<lambda>answer.
     case answer of
       Inl source \<Rightarrow> lo_bind (emit SlotReleased) (\<lambda>_. lo_fail (SpawnError source))
     | Inr i \<Rightarrow> lo_bind (emit (Spawned cmd)) (\<lambda>_. lo_update (\<lambda>s. s\<lparr>ps_child := i\<rparr>)))"

definition start_command ::
    "command_os \<Rightarrow> command_host \<Rightarrow> path \<Rightarrow> ustring \<Rightarrow> (command_error, command_state, process_command) loop_op"
  where
  "start_command os H root command =
     lo_bind (check_cancelled os) (\<lambda>_.
     lo_bind (lo_map_err WorkspaceChanged
       (bind_command_working_directory os (shell_command command (map_of (ch_vars H))))) (\<lambda>cmd.
     lo_bind (descendant_token_prepare os (configured_command H root cmd)) (\<lambda>cmd1.
     lo_bind (check_cancelled os) (\<lambda>_.
     lo_bind (prepare_command_supervision os) (\<lambda>_.
     lo_bind (spawn_group os cmd1) (\<lambda>_. lo_return cmd1))))))"

section \<open>The whole run\<close>

record command_outcome =
  co_status :: exit_status
  co_stdout :: ustring
  co_stderr :: ustring
  co_stdout_bytes :: "64 word"
  co_stderr_bytes :: "64 word"
  co_stdout_truncated :: bool
  co_stderr_truncated :: bool
  co_output_incomplete :: bool

definition command_outcome_of :: "command_state \<Rightarrow> exit_status \<Rightarrow> command_outcome" where
  "command_outcome_of s st =
     \<lparr>co_status = st, co_stdout = captured_text (rs_capture s Stdout),
      co_stderr = captured_text (rs_capture s Stderr),
      co_stdout_bytes = total_bytes (rs_capture s Stdout), co_stderr_bytes = total_bytes (rs_capture s Stderr),
      co_stdout_truncated = (truncated (rs_capture s Stdout) \<or> rs_output_incomplete s),
      co_stderr_truncated = (truncated (rs_capture s Stderr) \<or> rs_output_incomplete s),
      co_output_incomplete = rs_output_incomplete s\<rparr>"

text \<open>The end of the code: what the state says after the child is gone.\<close>

definition command_answer :: "(command_failure, command_state, command_outcome) loop_op" where
  "command_answer =
     lo_bind (lo_get (\<lambda>s. s)) (\<lambda>s.
     case rs_stream_error s of
       Some source \<Rightarrow> lo_fail (CommandFailed (ReadOutput source))
     | None \<Rightarrow>
         if rs_cancelled s then lo_fail (CommandFailed TerminationUnverified)
         else if rs_output_incomplete s then lo_fail (CommandFailed OutputIncomplete)
         else case rs_status s of
           None \<Rightarrow> lo_fail CommandPanicked
         | Some st \<Rightarrow> lo_return (command_outcome_of s st))"

definition reaped_by_cleanup :: "command_error + command_cleanup_completion \<Rightarrow> bool" where
  "reaped_by_cleanup cleanup_result \<longleftrightarrow>
     (case cleanup_result of Inr (CompletionReaped _ _) \<Rightarrow> True | _ \<Rightarrow> False)"

definition settle_command ::
    "command_os \<Rightarrow> command_error + unit \<Rightarrow> (command_failure, command_state, command_outcome) loop_op" where
  "settle_command os control_result =
     lo_bind (lo_get rs_status) (\<lambda>status.
     lo_bind (lo_attempt (cleanup_process_group os
       (if status \<noteq> None then CleanupAlreadyReaped else CleanupTerminateAndReap))) (\<lambda>cleanup_result.
     lo_bind (lo_map_err CommandFailed
       (lo_if (isl control_result \<and> reaped_by_cleanup cleanup_result) (drain_streams_after_reap os))) (\<lambda>_.
     lo_bind (lo_get (\<lambda>s. reconcile_control_and_cleanup control_result cleanup_result
       (rs_cancelled s) (streams_done s))) (\<lambda>reconciled.
     lo_bind (lo_map_err CommandFailed (lo_result reconciled)) (\<lambda>cleanup_status.
     lo_bind (lo_if (cleanup_status \<noteq> None) (lo_update (\<lambda>s. s\<lparr>rs_status := cleanup_status\<rparr>))) (\<lambda>_.
       command_answer))))))"

text \<open>\<open>take_stdout\<close> and \<open>take_stderr\<close>: a child has a stream of its own where a pipe was configured.\<close>

definition run_started_command ::
    "command_os \<Rightarrow> process_command \<Rightarrow> (command_failure, command_state, command_outcome) loop_op" where
  "run_started_command os cmd =
     (if cmd_stdout cmd \<noteq> StdioPiped \<or> cmd_stderr cmd \<noteq> StdioPiped then lo_fail CommandPanicked
      else lo_bind (lo_attempt (lo_bind (change_flags os) (\<lambda>_. change_flags os))) (\<lambda>configured.
        case configured of
          Inl source \<Rightarrow>
            lo_bind (lo_map_err CommandFailed (cleanup_process_group os CleanupTerminateAndReap)) (\<lambda>_.
              lo_fail (CommandFailed (ConfigureOutput source)))
        | Inr _ \<Rightarrow> lo_bind (lo_attempt (command_loop os)) (settle_command os)))"

definition run_shell_command ::
    "command_os \<Rightarrow> command_host \<Rightarrow> path \<Rightarrow> ustring
       \<Rightarrow> (command_failure, command_state, command_outcome) loop_op" where
  "run_shell_command os H root command =
     lo_bind (lo_map_err CommandFailed (start_command os H root command)) (run_started_command os)"

end
