(* ===== verification/Command_Supervisor.thy ===== *)
theory Command_Supervisor
  imports Command_Run
begin

text \<open>
  The process-wide supervisor of run-command (\<open>CommandSupervisor\<close> of
  crates/capability-coding/src/command.rs): the registry of the commands that were handed over, ordered
  by the time of their next action, one round of supervision, what a panic of the worker does, the
  slots, and the steps that the worker and the runs take. The counter of slots is an \<open>AtomicUsize\<close>.
\<close>

definition MAX_COMMAND_PROCESSING_PANICS :: nat where "MAX_COMMAND_PROCESSING_PANICS = 8"

definition INITIAL_PROCESSING_PANIC_BACKOFF :: nat where
  "INITIAL_PROCESSING_PANIC_BACKOFF = milliseconds 10"

definition MAX_PROCESSING_PANIC_BACKOFF :: nat where "MAX_PROCESSING_PANIC_BACKOFF = milliseconds 250"

section \<open>Supervised commands\<close>

text \<open>The child and what the supervisor notes about it; its permit is the slot it holds.\<close>

record supervised_command = process_state +
  sc_processing_panics :: nat
  sc_termination_attempts :: nat
  sc_retry_delay :: nat
  sc_next_action :: nat

definition supervised_new :: "'s process_state_scheme \<Rightarrow> nat \<Rightarrow> supervised_command" where
  "supervised_new child t =
     \<lparr>ps_calls = ps_calls child, ps_trace = ps_trace child, ps_child = ps_child child, ps_token = ps_token child,
      sc_processing_panics = 0, sc_termination_attempts = 8, sc_retry_delay = milliseconds 10,
      sc_next_action = t\<rparr>"

text \<open>The order of the heap: the greatest command acts first, that is the one with the earliest time.\<close>

definition acts_before :: "supervised_command \<Rightarrow> supervised_command \<Rightarrow> bool" where
  "acts_before c d \<longleftrightarrow>
     sc_next_action c < sc_next_action d \<or> sc_next_action c = sc_next_action d \<and> ps_child c < ps_child d"

fun peek_command :: "supervised_command list \<Rightarrow> supervised_command option" where
  "peek_command [] = None"
| "peek_command (c # registry) =
     (case peek_command registry of
        None \<Rightarrow> Some c
      | Some d \<Rightarrow> if acts_before d c then Some d else Some c)"

text \<open>The command that is due, if there is one; otherwise the worker waits.\<close>

definition take_next_due :: "nat \<Rightarrow> supervised_command list \<Rightarrow> (supervised_command \<times> supervised_command list) option" where
  "take_next_due t registry =
     (case peek_command registry of
        None \<Rightarrow> None
      | Some c \<Rightarrow> if sc_next_action c \<le> t then Some (c, remove1 c registry) else None)"

definition act_later :: "nat \<Rightarrow> supervised_command \<Rightarrow> supervised_command" where
  "act_later t c = c\<lparr>sc_next_action := t\<rparr>"

definition terminated_again :: "nat \<Rightarrow> supervised_command \<Rightarrow> supervised_command" where
  "terminated_again t c =
     c\<lparr>sc_termination_attempts := sc_termination_attempts c - 1,
       sc_next_action := t + sc_retry_delay c,
       sc_retry_delay := min (sc_retry_delay c * 2) (milliseconds 250)\<rparr>"

text \<open>One round: whether the command stays with the supervisor.\<close>

definition supervise_command_once :: "command_os \<Rightarrow> nat \<Rightarrow> (command_error, supervised_command, bool) loop_op" where
  "supervise_command_once os t =
     lo_bind (lo_attempt (command_leader_terminal os)) (\<lambda>terminal.
     if terminal = Inr True then
       lo_bind (lo_attempt (seal_and_reap_terminal_group os)) (\<lambda>reaped.
       case reaped of
         Inr _ \<Rightarrow> lo_return False
       | Inl _ \<Rightarrow> lo_bind (lo_update (act_later (t + milliseconds 250))) (\<lambda>_. lo_return True))
     else lo_bind (lo_get sc_termination_attempts) (\<lambda>attempts.
       if 0 < attempts then
         lo_bind (lo_attempt (terminate_command_group os)) (\<lambda>_.
         lo_bind (lo_update (terminated_again t)) (\<lambda>_. lo_return True))
       else lo_bind (lo_update (act_later (t + milliseconds 250))) (\<lambda>_. lo_return True)))"

section \<open>Panics of the worker\<close>

datatype supervisor_worker_state = WorkerStopped | WorkerRunning

datatype supervisor_admission_health = AdmissionHealthy | AdmissionDegraded

definition panic_backoff :: "nat \<Rightarrow> nat" where
  "panic_backoff panics =
     min (INITIAL_PROCESSING_PANIC_BACKOFF * 2 ^ min (panics - 1) 5) MAX_PROCESSING_PANIC_BACKOFF"

text \<open>The panics in a row, an \<open>u8\<close> that saturates, give the time of the next try and the health of admission.\<close>

definition record_processing_panic ::
    "nat \<Rightarrow> supervised_command \<times> supervisor_admission_health \<Rightarrow> supervised_command \<times> supervisor_admission_health"
  where
  "record_processing_panic t = (\<lambda>(c, health).
     let panics = min 255 (sc_processing_panics c + 1)
     in (c\<lparr>sc_processing_panics := panics, sc_next_action := t + panic_backoff panics\<rparr>,
         if MAX_COMMAND_PROCESSING_PANICS \<le> panics then AdmissionDegraded else health))"

section \<open>The supervisor\<close>

text \<open>
  Besides the fields of the code, \<open>sv_runs\<close> counts the permits that runs hold and \<open>sv_completed\<close> keeps
  the commands that were completed: they are what the theorems speak of, and no step reads the latter.
\<close>

record command_supervisor =
  sv_registry :: "supervised_command list"
  sv_in_flight :: "supervised_command option"
  sv_worker :: supervisor_worker_state
  sv_health :: supervisor_admission_health
  sv_active_slots :: "64 word"
  sv_runs :: nat
  sv_completed :: "supervised_command list"

definition supervisor_new :: command_supervisor where
  "supervisor_new =
     \<lparr>sv_registry = [], sv_in_flight = None, sv_worker = WorkerStopped, sv_health = AdmissionHealthy,
      sv_active_slots = 0, sv_runs = 0, sv_completed = []\<rparr>"

text \<open>A successful \<open>compare_exchange\<close> below the limit.\<close>

definition slot_reserved :: "command_supervisor \<Rightarrow> command_supervisor option" where
  "slot_reserved S =
     (if of_nat MAX_COMMAND_SUPERVISION_SLOTS \<le> sv_active_slots S then None
      else Some (S\<lparr>sv_active_slots := sv_active_slots S + 1, sv_runs := sv_runs S + 1\<rparr>))"

text \<open>\<open>Drop\<close> of a permit: \<open>fetch_sub\<close>.\<close>

definition permit_dropped :: "command_supervisor \<Rightarrow> command_supervisor" where
  "permit_dropped S = S\<lparr>sv_active_slots := sv_active_slots S - 1\<rparr>"

definition enqueue_command :: "supervised_command \<Rightarrow> command_supervisor \<Rightarrow> command_supervisor" where
  "enqueue_command c S = S\<lparr>sv_registry := c # sv_registry S\<rparr>"

text \<open>\<open>InFlightCommand\<close>: dropping it requeues the command; \<open>complete\<close> drops the command and its permit.\<close>

definition in_flight_kept :: "supervised_command \<Rightarrow> command_supervisor \<Rightarrow> command_supervisor" where
  "in_flight_kept c S = enqueue_command (c\<lparr>sc_processing_panics := 0\<rparr>) (S\<lparr>sv_in_flight := None\<rparr>)"

definition in_flight_completed :: "supervised_command \<Rightarrow> command_supervisor \<Rightarrow> command_supervisor" where
  "in_flight_completed c S =
     permit_dropped (S\<lparr>sv_in_flight := None,
       sv_completed := c\<lparr>ps_trace := ps_trace c @ [SlotReleased]\<rparr> # sv_completed S\<rparr>)"

definition in_flight_panicked :: "nat \<Rightarrow> supervised_command \<Rightarrow> command_supervisor \<Rightarrow> command_supervisor" where
  "in_flight_panicked t c S =
     (case record_processing_panic t (c, sv_health S) of
        (c1, health) \<Rightarrow> enqueue_command c1 (S\<lparr>sv_in_flight := None, sv_health := health\<rparr>))"

definition worker_started :: "bool \<Rightarrow> command_supervisor \<Rightarrow> command_supervisor" where
  "worker_started spawned S =
     (if sv_worker S = WorkerRunning then S
      else S\<lparr>sv_worker := (if spawned then WorkerRunning else WorkerStopped)\<rparr>)"

text \<open>
  The steps. A run takes a slot, gives it back, or hands its command over with it; which of these is
  what \<open>run_shell_command\<close> says. The worker takes a command that is due and ends its round, by keeping
  it, completing it, or panicking before it touches it. The answers of the operating system and the
  clock are arbitrary in every step.
\<close>

inductive supervisor_step :: "command_supervisor \<Rightarrow> command_supervisor \<Rightarrow> bool" where
  run_reserves: "slot_reserved S = Some S1 \<Longrightarrow> supervisor_step S S1"
| run_releases: "0 < sv_runs S \<Longrightarrow> supervisor_step S (permit_dropped (S\<lparr>sv_runs := sv_runs S - 1\<rparr>))"
| run_hands_over:
    "0 < sv_runs S
       \<Longrightarrow> run_shell_command os H root command (command_start m)
             = Some (Inl (CommandFailed (TerminationSupervised message)), child)
       \<Longrightarrow> supervisor_step S (enqueue_command (supervised_new child t) (S\<lparr>sv_runs := sv_runs S - 1\<rparr>))"
| starts_worker: "supervisor_step S (worker_started spawned S)"
| worker_takes:
    "sv_worker S = WorkerRunning \<Longrightarrow> sv_in_flight S = None \<Longrightarrow> take_next_due t (sv_registry S) = Some (c, registry)
       \<Longrightarrow> supervisor_step S (S\<lparr>sv_registry := registry, sv_in_flight := Some c\<rparr>)"
| worker_keeps:
    "sv_in_flight S = Some c \<Longrightarrow> supervise_command_once os t c = Some (Inr True, c1)
       \<Longrightarrow> supervisor_step S (in_flight_kept c1 S)"
| worker_completes:
    "sv_in_flight S = Some c \<Longrightarrow> supervise_command_once os t c = Some (Inr False, c1)
       \<Longrightarrow> supervisor_step S (in_flight_completed c1 S)"
| worker_panics:
    "sv_in_flight S = Some c \<Longrightarrow> supervisor_step S (in_flight_panicked t c S)"
| worker_stops:
    "sv_in_flight S = None \<Longrightarrow> supervisor_step S (S\<lparr>sv_worker := WorkerStopped\<rparr>)"

inductive supervisor_reaches :: "command_supervisor \<Rightarrow> bool" where
  reaches_new: "supervisor_reaches supervisor_new"
| reaches_step: "supervisor_reaches S \<Longrightarrow> supervisor_step S S1 \<Longrightarrow> supervisor_reaches S1"

end
