(* ===== verification/Process_Phases.thy ===== *)
theory Process_Phases
  imports Command_Cleanup
begin

text \<open>
  A walk through the operations of one process group, done once: \<open>process_phases\<close> is the contract of a
  family of predicates that follow a command from its start to the reaping of its leader, and the
  lemmas inside it say between which of them each operation leads.
\<close>

section \<open>The contract\<close>

text \<open>
  The predicates get stronger: the command lives, its leader was seen to be terminal, its group was
  signalled since then, its token is closed.
\<close>

locale process_phases =
  fixes alive terminal swept sealed :: "'s process_state_scheme \<Rightarrow> bool"
    and reaped :: "exit_status \<Rightarrow> 's process_state_scheme \<Rightarrow> bool"
  assumes nested: "sealed s \<Longrightarrow> swept s" "swept s \<Longrightarrow> terminal s" "terminal s \<Longrightarrow> alive s"
    and tracked: "alive s \<Longrightarrow> ps_token s \<noteq> None"
    and idle: "alive s \<Longrightarrow> alive (called [] s)" "terminal s \<Longrightarrow> terminal (called [] s)"
      "swept s \<Longrightarrow> swept (called [] s)" "sealed s \<Longrightarrow> sealed (called [] s)"
    and waited: "alive s \<Longrightarrow> alive (called [Waited d] s)" "terminal s \<Longrightarrow> terminal (called [Waited d] s)"
      "swept s \<Longrightarrow> swept (called [Waited d] s)" "sealed s \<Longrightarrow> sealed (called [Waited d] s)"
    and signalled: "alive s \<Longrightarrow> alive (called [GroupSignalled] s)"
      "terminal s \<Longrightarrow> swept (called [GroupSignalled] s)" "sealed s \<Longrightarrow> sealed (called [GroupSignalled] s)"
    and seen: "alive s \<Longrightarrow> terminal (called [LeaderSeenTerminal] s)"
    and closed: "swept s \<Longrightarrow> ps_token s = Some False \<Longrightarrow>
        sealed (s\<lparr>ps_trace := ps_trace s @ [TokenSeenClosed], ps_token := Some True\<rparr>)"
      "swept s \<Longrightarrow> ps_token s = Some True \<Longrightarrow> sealed s"
    and reaps: "sealed s \<Longrightarrow> reaped st (called [LeaderReaped st] s)"

lemma holds_os_call: "(\<And>s a. P s \<Longrightarrow> Q a (called [] s)) \<Longrightarrow> holds P (os_call f) Q E"
  by (auto simp: holds_def os_call_def)

lemma holds_os_check:
  "(\<And>s. P s \<Longrightarrow> Q () (called [] s)) \<Longrightarrow> (\<And>s e. P s \<Longrightarrow> E e (called [] s)) \<Longrightarrow> holds P (os_check f) Q E"
  by (auto simp: holds_def os_check_def split: option.splits)

lemma holds_emit:
  "(\<And>s. P s \<Longrightarrow> Q () (s\<lparr>ps_trace := ps_trace s @ [ev]\<rparr>)) \<Longrightarrow> holds P (emit ev) Q E"
  unfolding emit_def by (rule holds_update)

section \<open>The loops\<close>

text \<open>Signals lead from \<open>P\<close> to \<open>Q\<close>, where more of them stay.\<close>

lemma holds_loop:
  "(\<And>s y. m s = Some y \<Longrightarrow> P s \<Longrightarrow> case fst y of Inr a \<Rightarrow> Q a (snd y) | Inl e \<Rightarrow> E e (snd y))
     \<Longrightarrow> holds P m Q E"
  by (rule holdsI) fastforce+

lemma holds_kill_wrapper:
  assumes "\<And>s. P s \<Longrightarrow> Q (called [GroupSignalled] s)" "\<And>s. Q s \<Longrightarrow> Q (called [GroupSignalled] s)"
  shows "holds P (kill_wrapper os) (\<lambda>_. Q) (\<lambda>_. Q)"
proof -
  have "P s \<or> Q s \<longrightarrow> Q (snd y)" if "kill_wrapper os s = Some y" for s y
    by (rule kill_wrapper.raw_induct [where P = "\<lambda>os s y. P s \<or> Q s \<longrightarrow> Q (snd y)", OF _ that])
      (use assms in \<open>auto split: option.splits if_splits\<close>)
  then show ?thesis by (auto intro!: holds_loop split: sum.splits)
qed

lemma holds_kill_group_loop:
  assumes "\<And>s. P s \<Longrightarrow> Q (called [GroupSignalled] s)" "\<And>s. Q s \<Longrightarrow> Q (called [GroupSignalled] s)"
  shows "holds P (kill_group_loop os) (\<lambda>_. Q) (\<lambda>_. Q)"
proof -
  have "P s \<or> Q s \<longrightarrow> Q (snd y)" if "kill_group_loop os s = Some y" for s y
    by (rule kill_group_loop.raw_induct [where P = "\<lambda>os s y. P s \<or> Q s \<longrightarrow> Q (snd y)", OF _ that])
      (use assms in \<open>auto split: option.splits if_splits\<close>)
  then show ?thesis by (auto intro!: holds_loop split: sum.splits)
qed

text \<open>An error that does not say that the command was handed over.\<close>

definition plain_error :: "command_error \<Rightarrow> bool" where
  "plain_error e \<longleftrightarrow> (\<forall>message. e \<noteq> TerminationSupervised message)"

lemma plain_error_simps [simp]:
  "plain_error (KillError x)" "plain_error (WaitError x)" "plain_error (ReadOutput x)"
  "plain_error (SpawnError x)" "plain_error (SupervisorUnavailable x)" "plain_error SupervisorDegraded"
  "plain_error SupervisorAtCapacity" "plain_error (WorkspaceChanged x)" "plain_error (ConfigureOutput x)"
  "plain_error CommandCancelled" "plain_error OutputIncomplete" "plain_error TerminationUnverified"
  "\<not> plain_error (TerminationSupervised message)" "plain_error (group_kill_failure x y)"
  by (simp_all add: plain_error_def group_kill_failure_def)

text \<open>A question about the leader or the token: \<open>Q\<close> if it is answered with yes, else \<open>P\<close>.\<close>

definition answered :: "('s \<Rightarrow> bool) \<Rightarrow> ('s \<Rightarrow> bool) \<Rightarrow> (command_error + bool) \<times> 's \<Rightarrow> bool" where
  "answered P Q y \<longleftrightarrow>
     (case fst y of Inr b \<Rightarrow> (if b then Q else P) (snd y) | Inl e \<Rightarrow> plain_error e \<and> P (snd y))"

lemma answered_simps [simp]:
  "answered P Q (Inr True, s) = Q s" "answered P Q (Inr False, s) = P s" "answered P Q (Inl e, s) = (plain_error e \<and> P s)"
  by (simp_all add: answered_def)

lemma holds_answeredI:
  "(\<And>s y. m s = Some y \<Longrightarrow> P s \<Longrightarrow> answered P Q y) \<Longrightarrow> holds P m (\<lambda>b. if b then Q else P) (\<lambda>e s. plain_error e \<and> P s)"
  by (rule holdsI) (fastforce simp: answered_def)+

lemma holds_answeredD:
  "holds P m (\<lambda>b. if b then Q else P) (\<lambda>e s. plain_error e \<and> P s) \<Longrightarrow> m s = Some y \<Longrightarrow> P s \<Longrightarrow> answered P Q y"
  by (cases y, cases "fst y") (auto simp: answered_def dest: holds_Inr holds_Inl)

lemma plain_child_pid: "map_err KillError (child_pid i) = Inl e \<Longrightarrow> plain_error e"
  by (auto simp: child_pid_def split: if_splits)

lemma holds_waitid_loop:
  assumes "\<And>s. P s \<Longrightarrow> P (called [] s)" "\<And>s. P s \<Longrightarrow> Q (called [LeaderSeenTerminal] s)"
  shows "holds P (waitid_loop os) (\<lambda>b. if b then Q else P) (\<lambda>e s. plain_error e \<and> P s)"
proof (rule holds_answeredI)
  fix s y
  assume *: "waitid_loop os s = Some y" and "P s"
  have "P s \<longrightarrow> answered P Q y"
    by (rule waitid_loop.raw_induct [where P = "\<lambda>os s y. P s \<longrightarrow> answered P Q y", OF _ *])
      (use assms in \<open>auto split: sum.splits if_splits\<close>)
  with \<open>P s\<close> show "answered P Q y" by simp
qed

lemma holds_waitpid_loop:
  fixes P :: "'s process_state_scheme \<Rightarrow> bool"
  assumes "\<And>s. P s \<Longrightarrow> P (called [] s)" "\<And>s st. P s \<Longrightarrow> Q st (called [LeaderReaped st] s)"
  shows "holds P (waitpid_loop os) Q (\<lambda>e s. plain_error e \<and> P s)"
proof (rule holds_loop)
  define ending :: "(command_error + exit_status) \<times> 's process_state_scheme \<Rightarrow> bool"
    where "ending y = (case fst y of Inr st \<Rightarrow> Q st (snd y) | Inl e \<Rightarrow> plain_error e \<and> P (snd y))" for y
  then have ending_simps: "ending (Inr st, s) = Q st s" "ending (Inl e, s) = (plain_error e \<and> P s)" for st s e by simp_all
  fix s y
  assume *: "waitpid_loop os s = Some y" and "P s"
  have "P s \<longrightarrow> ending y"
    by (rule waitpid_loop.raw_induct [where P = "\<lambda>os s y. P s \<longrightarrow> ending y", OF _ *])
      (use assms in \<open>auto simp: ending_simps split: sum.splits option.splits if_splits\<close>)
  with \<open>P s\<close> show "case fst y of Inr st \<Rightarrow> Q st (snd y) | Inl e \<Rightarrow> plain_error e \<and> P (snd y)" by (simp add: ending_def)
qed

lemma holds_leader_wait_loop:
  assumes "holds P (command_leader_terminal os) (\<lambda>b. if b then Q else P) (\<lambda>e s. plain_error e \<and> P s)"
    and "\<And>s. P s \<Longrightarrow> P (called [] s)" "\<And>s d. P s \<Longrightarrow> P (called [Waited d] s)"
  shows "holds P (leader_wait_loop os started grace i) (\<lambda>b. if b then Q else P) (\<lambda>e s. plain_error e \<and> P s)"
proof (rule holds_answeredI)
  fix s y
  assume *: "leader_wait_loop os started grace i s = Some y" and "P s"
  note asked = holds_answeredD [OF assms(1)]
  have "os = os \<longrightarrow> P s \<longrightarrow> answered P Q y"
  proof (rule leader_wait_loop.raw_induct
      [where P = "\<lambda>os1 started grace i s y. os1 = os \<longrightarrow> P s \<longrightarrow> answered P Q y", OF _ *])
    fix f os1 started grace i s y
    assume IH: "\<And>os1 started grace i s y. f os1 started grace i s = Some y \<Longrightarrow> os1 = os \<longrightarrow> P s \<longrightarrow> answered P Q y"
      and eq: "(case command_leader_terminal os1 s of None \<Rightarrow> None | Some (Inl e, s1) \<Rightarrow> Some (Inl e, s1)
        | Some (Inr terminal, s1) \<Rightarrow> if terminal then Some (Inr True, s1)
          else if grace \<le> os_now os1 (ps_calls s1) - started then Some (Inr False, called [] s1)
          else f os1 started grace (min (i * 2) (milliseconds 10)) (called [Waited i] s1)) = Some y"
    show "os1 = os \<longrightarrow> P s \<longrightarrow> answered P Q y"
    proof (intro impI)
      assume "os1 = os" "P s"
      from eq obtain r s1 where asked1: "command_leader_terminal os s = Some (r, s1)"
        using \<open>os1 = os\<close> by (cases "command_leader_terminal os s") auto
      from asked [OF this \<open>P s\<close>] eq asked1 \<open>os1 = os\<close> show "answered P Q y"
        using IH [of os started grace _ "called [Waited i] s1" y] assms(2,3)
        by (cases r) (auto split: if_splits)
    qed
  qed
  with \<open>P s\<close> show "answered P Q y" by simp
qed

lemma holds_wait_for_close_loop:
  assumes "holds P (observe_close os) (\<lambda>b. if b then Q else P) (\<lambda>e s. plain_error e \<and> P s)"
    and "\<And>s. P s \<Longrightarrow> P (called [] s)" "\<And>s d. P s \<Longrightarrow> P (called [Waited d] s)"
  shows "holds P (wait_for_close_loop os deadline) (\<lambda>b. if b then Q else P) (\<lambda>e s. plain_error e \<and> P s)"
proof (rule holds_answeredI)
  fix s y
  assume *: "wait_for_close_loop os deadline s = Some y" and "P s"
  note asked = holds_answeredD [OF assms(1)]
  have "os = os \<longrightarrow> P s \<longrightarrow> answered P Q y"
    by (rule wait_for_close_loop.raw_induct
        [where P = "\<lambda>os1 deadline s y. os1 = os \<longrightarrow> P s \<longrightarrow> answered P Q y", OF _ *])
      (use asked assms(2,3) in \<open>auto split: option.splits if_splits\<close>)
  with \<open>P s\<close> show "answered P Q y" by simp
qed

section \<open>The walk\<close>

context process_phases
begin

lemma kill_any:
  assumes "A = alive \<and> B = alive \<or> A = terminal \<and> B = swept \<or> A = sealed \<and> B = sealed"
  shows "holds A (terminate_command_group os) (\<lambda>_. B) (\<lambda>e s. plain_error e \<and> B s)"
proof -
  have step: "\<And>s. A s \<Longrightarrow> B (called [GroupSignalled] s)" "\<And>s. B s \<Longrightarrow> B (called [GroupSignalled] s)"
    using assms signalled nested by metis+
  note loop = holds_kill_wrapper [of A B, OF step] holds_kill_group_loop [of B B, OF step(2) step(2)]
  show ?thesis
    unfolding terminate_command_group_def
    by (rule holds_bind [where R = "\<lambda>_. B", OF holds_attempt [OF loop(1)]])
      (auto split: sum.splits simp: kill_process_group_by_id_def
        intro!: holds_map_err holds_bind [OF holds_get, where R = "\<lambda>_. B"] loop(2)
          holds_bind [OF holds_result, where R = "\<lambda>_. B"])
qed

lemmas terminates = kill_any [of alive alive] kill_any [of terminal swept] kill_any [of sealed sealed]

lemma leader:
  assumes "A = alive \<and> B = terminal \<or> A = terminal \<and> B = terminal"
  shows "holds A (command_leader_terminal os) (\<lambda>b. if b then B else A) (\<lambda>e s. plain_error e \<and> A s)"
proof -
  have "A (called [] s)" "B (called [LeaderSeenTerminal] s)" if "A s" for s
    using assms that idle seen nested by metis+
  then show ?thesis
    unfolding command_leader_terminal_def process_group_id_def
    by (intro holds_bind [OF holds_bind [OF holds_get holds_result], where R = "\<lambda>_. A"] holds_waitid_loop) (auto dest: plain_child_pid)
qed

lemma leader_wait:
  assumes "A = alive \<and> B = terminal \<or> A = terminal \<and> B = terminal"
  shows "holds A (wait_for_leader_terminal_bounded os grace) (\<lambda>b. if b then B else A) (\<lambda>e s. plain_error e \<and> A s)"
proof -
  have step: "A (called [] s)" "A (called [Waited d] s)" if "A s" for s d
    using assms that idle waited by metis+
  show ?thesis
    unfolding wait_for_leader_terminal_bounded_def now_def
    by (rule holds_bind [OF holds_os_call, where R = "\<lambda>_. A"])
      (auto intro: step holds_leader_wait_loop [OF leader [OF assms]])
qed

lemma observe: "holds swept (observe_close os) (\<lambda>b. if b then sealed else swept) (\<lambda>e s. plain_error e \<and> swept s)"
proof -
  have token: "ps_token s = Some False \<or> ps_token s = Some True" if "swept s" for s
    using tracked nested that by (metis (full_types) not_Some_eq)
  have shut: "holds (\<lambda>s. swept s \<and> ps_token s \<noteq> Some True)
      (lo_bind (emit TokenSeenClosed) (\<lambda>_. lo_bind (lo_update (\<lambda>s. s\<lparr>ps_token := Some True\<rparr>)) (\<lambda>_. lo_return True)))
      (\<lambda>b. if b then sealed else swept) (\<lambda>e s. plain_error e \<and> swept s)"
    using closed(1) token
    by (auto simp: holds_def lo_defs emit_def)
  have idle': "swept (called [] s) \<and> ps_token (called [] s) = ps_token s" if "swept s" for s
    using that idle(3) by (simp add: called_def)
  show ?thesis
    unfolding observe_close_def
    apply (rule holds_bind [OF holds_get, where R = "\<lambda>c s. swept s \<and> ps_token s = c"])
     apply simp
    apply (rule holds_cond)
     apply (rule holds_return)
    using closed(2) apply simp
    apply (rule holds_bind [OF holds_os_call, where R = "\<lambda>_ s. swept s \<and> ps_token s \<noteq> Some True"])
    using idle' apply auto[1]
    apply (auto split: sum.splits intro!: holds_cond holds_return holds_fail shut)
    done
qed

lemma wait_close: "holds swept (wait_for_close os timeout) (\<lambda>b. if b then sealed else swept) (\<lambda>e s. plain_error e \<and> swept s)"
proof -
  have loop: "holds swept (wait_for_close_loop os d) (\<lambda>b. if b then sealed else swept) (\<lambda>e s. plain_error e \<and> swept s)" for d
    by (rule holds_wait_for_close_loop [OF observe]) (auto intro: idle waited)
  show ?thesis
    unfolding wait_for_close_def now_def
    by (rule holds_bind [OF observe])
      (auto intro!: holds_cond holds_return loop holds_bind [OF holds_os_call, where R = "\<lambda>_. swept"] idle)
qed

lemma compatible_kill: 
  "holds terminal (terminate_signal_compatible_group_after_leader_exit os) (\<lambda>_. swept) (\<lambda>e s. plain_error e \<and> swept s)"
  unfolding terminate_signal_compatible_group_after_leader_exit_def
  by (rule holds_bind [where R = "\<lambda>r s. (\<forall>e. r = Inl e \<longrightarrow> plain_error e) \<and> swept s", OF holds_attempt])
    (auto split: sum.splits intro!: holds_mono [OF terminates(2)] holds_cond)

lemma seal_rounds: "holds terminal (seal_rounds os n) (\<lambda>_. sealed) (\<lambda>e s. plain_error e \<and> terminal s)"
proof (induction n)
  case 0
  show ?case
    by (auto simp: holds_def lo_defs dest: tracked nested)
next
  case (Suc n)
  have untracked: "holds (\<lambda>s. swept s \<and> ps_token s = None) m Q E" for m :: "('e, 's process_state_scheme, 'b) loop_op" and Q E
    using tracked nested by (fastforce simp: holds_def)
  show ?case
    unfolding seal_rounds.simps
    apply (rule holds_bind [OF holds_mono [OF compatible_kill], where R = "\<lambda>_. swept"])
       apply (auto dest: nested)[3]
    apply (rule holds_bind [OF holds_get, where R = "\<lambda>c s. swept s \<and> ps_token s = c"])
     apply simp
    subgoal for u c
      apply (cases c)
       apply (simp add: untracked)
      apply simp
      apply (rule holds_bind [OF holds_mono [OF wait_close], where R = "\<lambda>b. if b then sealed else swept"])
         apply (auto dest: nested intro!: holds_return holds_pre [OF Suc])
      done
    done
qed

lemma seal_and_reap:
  "holds terminal (seal_and_reap_terminal_group os) reaped (\<lambda>e s. plain_error e \<and> terminal s)"
proof -
  have "holds sealed (wait_for_command_group os) reaped (\<lambda>e s. plain_error e \<and> sealed s)"
    unfolding wait_for_command_group_def process_group_id_def
    by (intro holds_bind [OF holds_bind [OF holds_get holds_result], where R = "\<lambda>_. sealed"] holds_waitpid_loop)
      (auto intro: idle reaps dest: plain_child_pid)
  from holds_mono [OF this, of sealed reaped "\<lambda>e s. plain_error e \<and> terminal s"]
  have "holds sealed (wait_for_command_group os) reaped (\<lambda>e s. plain_error e \<and> terminal s)" by (auto dest: nested)
  then show ?thesis
    unfolding seal_and_reap_terminal_group_def seal_terminal_process_group_def
    by (intro holds_bind [OF seal_rounds])
qed

end

end
