(* ===== verification/Command_Lifecycle.thy ===== *)
theory Command_Lifecycle
  imports Process_Phases
begin

text \<open>
  The life of a command as an automaton over what happens to it: when its process group may be
  signalled, when its leader may be reaped, and who owns the slot of the supervisor meanwhile.
  \<open>Process_Phases\<close> is interpreted on the states of the automaton.
\<close>

section \<open>The automaton\<close>

datatype leader_phase = NotStarted | Live | TerminalSeen | Swept | Sealed | Reaped exit_status

datatype slot_phase = NoSlot | HeldByRun | HeldBySupervisor | Dropped

definition alive_phases :: "leader_phase set" where "alive_phases = {Live, TerminalSeen, Swept, Sealed}"

lemma alive_phases_simps [simp]:
  "Live \<in> alive_phases" "TerminalSeen \<in> alive_phases" "Swept \<in> alive_phases" "Sealed \<in> alive_phases"
  "NotStarted \<notin> alive_phases" "Reaped st \<notin> alive_phases"
  by (simp_all add: alive_phases_def)

text \<open>
  A signal goes to the group only while the leader is not reaped, so its id cannot belong to another
  process. The token is looked at after the group was signalled behind a terminal leader, and only a
  closed token lets the leader be reaped. A slot is given back when nothing was started or the leader
  is reaped, by whoever holds it.
\<close>

fun lifecycle_step :: "leader_phase \<times> slot_phase \<Rightarrow> process_event \<Rightarrow> (leader_phase \<times> slot_phase) option" where
  "lifecycle_step (L, slot) SlotReserved = (if L = NotStarted \<and> slot = NoSlot then Some (L, HeldByRun) else None)"
| "lifecycle_step (L, slot) (Spawned cmd) = (if L = NotStarted \<and> slot = HeldByRun then Some (Live, slot) else None)"
| "lifecycle_step (L, slot) GroupSignalled =
     (if L \<in> alive_phases then Some (if L = TerminalSeen then Swept else L, slot) else None)"
| "lifecycle_step (L, slot) LeaderSeenTerminal =
     (if L \<in> alive_phases then Some (if L = Live then TerminalSeen else L, slot) else None)"
| "lifecycle_step (L, slot) TokenSeenClosed = (if L = Swept then Some (Sealed, slot) else None)"
| "lifecycle_step (L, slot) (LeaderReaped st) = (if L = Sealed then Some (Reaped st, slot) else None)"
| "lifecycle_step (L, slot) HandedOver =
     (if L \<in> alive_phases \<and> slot = HeldByRun then Some (L, HeldBySupervisor) else None)"
| "lifecycle_step (L, slot) SlotReleased =
     (if L \<notin> alive_phases \<and> slot \<in> {HeldByRun, HeldBySupervisor} then Some (L, Dropped) else None)"
| "lifecycle_step (L, slot) (StreamBytes st bytes) = (if L \<noteq> NotStarted then Some (L, slot) else None)"
| "lifecycle_step (L, slot) (StreamEnded st) = (if L \<noteq> NotStarted then Some (L, slot) else None)"
| "lifecycle_step (L, slot) (Waited d) = (if L \<noteq> NotStarted then Some (L, slot) else None)"

definition lifecycle_of :: "process_event list \<Rightarrow> (leader_phase \<times> slot_phase) option" where
  "lifecycle_of trace =
     foldl (\<lambda>phase ev. Option.bind phase (\<lambda>p. lifecycle_step p ev)) (Some (NotStarted, NoSlot)) trace"

lemma lifecycle_of_simps [simp]:
  "lifecycle_of [] = Some (NotStarted, NoSlot)"
  "lifecycle_of (trace @ [ev]) = Option.bind (lifecycle_of trace) (\<lambda>p. lifecycle_step p ev)"
  by (simp_all add: lifecycle_of_def)

lemma foldl_None: "foldl (\<lambda>phase ev. Option.bind phase (\<lambda>p. f p ev)) None trace = None"
  by (induction trace) auto

text \<open>What a life that is accepted says about any of its moments.\<close>

lemma lifecycle_prefix: "lifecycle_of (pre @ post) \<noteq> None \<Longrightarrow> lifecycle_of pre \<noteq> None"
  by (cases "lifecycle_of pre") (auto simp: lifecycle_of_def foldl_None)

lemma lifecycle_event:
  assumes "lifecycle_of (pre @ ev # post) \<noteq> None"
  obtains p where "lifecycle_of pre = Some p" "lifecycle_step p ev \<noteq> None"
proof -
  have "lifecycle_of (pre @ [ev]) \<noteq> None" using assms lifecycle_prefix [of "pre @ [ev]" post] by simp
  then show thesis using that by (auto simp: Option.bind_eq_Some_conv)
qed

text \<open>What has happened in a phase.\<close>

lemma lifecycle_history:
  "lifecycle_of trace = Some (L, slot) \<Longrightarrow>
     (L = NotStarted \<longleftrightarrow> (\<forall>cmd. Spawned cmd \<notin> set trace))
     \<and> (\<forall>st. L = Reaped st \<longleftrightarrow> LeaderReaped st \<in> set trace)
     \<and> (L = Sealed \<or> (\<exists>st. L = Reaped st) \<longleftrightarrow> TokenSeenClosed \<in> set trace)
     \<and> (slot = Dropped \<longleftrightarrow> SlotReleased \<in> set trace)
     \<and> (slot = HeldBySupervisor \<longrightarrow> HandedOver \<in> set trace)"
proof (induction trace arbitrary: L slot rule: rev_induct)
  case Nil
  then show ?case by simp
next
  case (snoc ev trace)
  then obtain L1 slot1 where before: "lifecycle_of trace = Some (L1, slot1)"
    and step: "lifecycle_step (L1, slot1) ev = Some (L, slot)"
    by (auto simp: Option.bind_eq_Some_conv)
  from snoc.IH [OF before] step show ?case
    by (cases ev; cases L1) (auto split: if_splits)
qed

text \<open>Signals come between the start and the reaping of the leader, and reaping after the token closed.\<close>

definition signals_in_life :: "process_event list \<Rightarrow> bool" where
  "signals_in_life trace \<longleftrightarrow>
     (\<forall>pre post. trace = pre @ GroupSignalled # post \<longrightarrow>
        (\<exists>cmd. Spawned cmd \<in> set pre) \<and> (\<forall>st. LeaderReaped st \<notin> set pre))
     \<and> (\<forall>pre st post. trace = pre @ LeaderReaped st # post \<longrightarrow> TokenSeenClosed \<in> set pre)"

lemma accepted_signals:
  assumes "lifecycle_of trace \<noteq> None"
  shows "signals_in_life trace"
  unfolding signals_in_life_def
proof (intro conjI allI impI)
  fix pre post
  assume "trace = pre @ GroupSignalled # post"
  with assms have "lifecycle_of (pre @ GroupSignalled # post) \<noteq> None" by simp
  then obtain p where p: "lifecycle_of pre = Some p" "lifecycle_step p GroupSignalled \<noteq> None"
    by (rule lifecycle_event)
  obtain L slot where "p = (L, slot)" by (cases p)
  with p lifecycle_history [of pre L slot]
  show "\<exists>cmd. Spawned cmd \<in> set pre" "LeaderReaped st \<notin> set pre" for st
    by (auto simp: alive_phases_def split: if_splits)
next
  fix pre st post
  assume "trace = pre @ LeaderReaped st # post"
  with assms have "lifecycle_of (pre @ LeaderReaped st # post) \<noteq> None" by simp
  then obtain p where p: "lifecycle_of pre = Some p" "lifecycle_step p (LeaderReaped st) \<noteq> None"
    by (rule lifecycle_event)
  obtain L slot where "p = (L, slot)" by (cases p)
  with p lifecycle_history [of pre L slot] show "TokenSeenClosed \<in> set pre"
    by (auto split: if_splits)
qed

section \<open>The phases of a state\<close>

text \<open>What no operation of the process group touches: the fields beyond it, what was started, and what the streams did.\<close>

fun kept_event :: "process_event \<Rightarrow> bool" where
  "kept_event (Spawned _) = True"
| "kept_event (StreamBytes _ _) = True"
| "kept_event (StreamEnded _) = True"
| "kept_event _ = False"

definition untouched :: "'s process_state_scheme \<Rightarrow> 's \<times> process_event list" where
  "untouched s = (process_state.more s, filter kept_event (ps_trace s))"

definition in_phase :: "leader_phase set \<Rightarrow> slot_phase \<Rightarrow> 's process_state_scheme \<Rightarrow> bool" where
  "in_phase A slot s \<longleftrightarrow>
     (\<exists>L \<in> A. lifecycle_of (ps_trace s) = Some (L, slot)
        \<and> ps_token s = Some (L \<notin> {NotStarted, Live, TerminalSeen, Swept}))
     \<and> slot \<in> {HeldByRun, HeldBySupervisor}"

definition phase_in ::
    "leader_phase set \<Rightarrow> slot_phase \<Rightarrow> 's \<times> process_event list \<Rightarrow> 's process_state_scheme \<Rightarrow> bool" where
  "phase_in A slot x s \<longleftrightarrow> in_phase A slot s \<and> untouched s = x"

abbreviation terminal_phases :: "leader_phase set" where
  "terminal_phases \<equiv> {TerminalSeen, Swept, Sealed}"

interpretation lc: process_phases "phase_in alive_phases slot x" "phase_in terminal_phases slot x"
    "phase_in {Swept, Sealed} slot x" "phase_in {Sealed} slot x" "\<lambda>st. phase_in {Reaped st} slot x" for slot x
  by unfold_locales (auto simp: phase_in_def in_phase_def untouched_def alive_phases_def)

text \<open>The walk, beside facts about what it leaves untouched.\<close>

definition beside :: "('s process_state_scheme \<Rightarrow> bool) \<Rightarrow> bool" where
  "beside R \<longleftrightarrow> (\<forall>s s'. untouched s = untouched s' \<longrightarrow> R s \<longrightarrow> R s')"

lemma beside_holds:
  assumes "beside R"
    and "\<And>x. holds (phase_in A slot x) m (\<lambda>a. phase_in (B a) slot x) (\<lambda>e s. F e \<and> phase_in C slot x s)"
  shows "holds (\<lambda>s. in_phase A slot s \<and> R s) m (\<lambda>a s. in_phase (B a) slot s \<and> R s)
    (\<lambda>e s. F e \<and> in_phase C slot s \<and> R s)"
proof (rule holdsI)
  fix s e s1
  assume pre: "in_phase A slot s \<and> R s" and "m s = Some (Inl e, s1)"
  with holds_Inl [OF assms(2) [of "untouched s"], of s e s1]
  have "F e \<and> phase_in C slot (untouched s) s1" by (simp add: phase_in_def)
  with pre assms(1) show "F e \<and> in_phase C slot s1 \<and> R s1" by (auto simp: phase_in_def beside_def)
next
  fix s a s1
  assume pre: "in_phase A slot s \<and> R s" and "m s = Some (Inr a, s1)"
  with holds_Inr [OF assms(2) [of "untouched s"], of s a s1]
  have "phase_in (B a) slot (untouched s) s1" by (simp add: phase_in_def)
  with pre assms(1) show "in_phase (B a) slot s1 \<and> R s1" by (auto simp: phase_in_def beside_def)
qed

lemma phase_answer:
  assumes "holds P m (\<lambda>b. if b then phase_in A slot x else phase_in B slot x) E"
  shows "holds P m (\<lambda>b. phase_in (if b then A else B) slot x) E"
  by (rule holds_post [OF assms]) (simp split: if_splits)

lemma terminate_phase:
  "beside R \<Longrightarrow> holds (\<lambda>s. in_phase alive_phases slot s \<and> R s) (terminate_command_group os)
     (\<lambda>_ s. in_phase alive_phases slot s \<and> R s) (\<lambda>e s. plain_error e \<and> in_phase alive_phases slot s \<and> R s)"
  by (rule beside_holds) (auto intro: lc.terminates(1))

lemma leader_phase:
  "beside R \<Longrightarrow> holds (\<lambda>s. in_phase alive_phases slot s \<and> R s) (command_leader_terminal os)
     (\<lambda>b s. in_phase (if b then terminal_phases else alive_phases) slot s \<and> R s)
     (\<lambda>e s. plain_error e \<and> in_phase alive_phases slot s \<and> R s)"
  by (erule beside_holds) (rule phase_answer, rule lc.leader, blast)

lemma leader_wait_phase:
  "beside R \<Longrightarrow> holds (\<lambda>s. in_phase alive_phases slot s \<and> R s) (wait_for_leader_terminal_bounded os grace)
     (\<lambda>b s. in_phase (if b then terminal_phases else alive_phases) slot s \<and> R s)
     (\<lambda>e s. plain_error e \<and> in_phase alive_phases slot s \<and> R s)"
  by (erule beside_holds) (rule phase_answer, rule lc.leader_wait, blast)

lemma reap_phase:
  "beside R \<Longrightarrow> holds (\<lambda>s. in_phase terminal_phases slot s \<and> R s) (seal_and_reap_terminal_group os)
     (\<lambda>st s. in_phase {Reaped st} slot s \<and> R s)
     (\<lambda>e s. plain_error e \<and> in_phase terminal_phases slot s \<and> R s)"
  by (rule beside_holds) (auto intro: lc.seal_and_reap)

lemma in_phase_mono: "in_phase A slot s \<Longrightarrow> A \<subseteq> B \<Longrightarrow> in_phase B slot s"
  by (auto simp: in_phase_def)

lemma terminal_alive: "in_phase terminal_phases slot s \<Longrightarrow> in_phase alive_phases slot s"
  by (rule in_phase_mono) (auto simp: alive_phases_def)

end
