(* ===== verification/Command_Rounds.thy ===== *)
theory Command_Rounds
  imports Command_Lifecycle Command_Run
begin

text \<open>
  What a run of a command keeps (\<open>run_inv\<close>): it is in a phase of \<open>Command_Lifecycle\<close>, and its captures
  are those of the bytes its streams have given. Every part of a round keeps it, the cleanup leads out
  of it, and the loop ends in it.
\<close>

section \<open>Captured output\<close>

fun stream_bytes :: "std_stream \<Rightarrow> process_event list \<Rightarrow> nat list" where
  "stream_bytes st [] = []"
| "stream_bytes st (ev # trace) =
     (case ev of StreamBytes st1 bytes \<Rightarrow> if st1 = st then bytes else [] | _ \<Rightarrow> []) @ stream_bytes st trace"

lemma stream_bytes_append [simp]: "stream_bytes st (t @ u) = stream_bytes st t @ stream_bytes st u"
  by (induction t) simp_all

lemma stream_bytes_kept: "stream_bytes st (filter kept_event trace) = stream_bytes st trace"
  by (induction trace) (auto split: process_event.splits)

text \<open>
  The facts about a run that its process group does not touch: \<open>cmd\<close> is what was started, the captures
  are complete as far as the streams were read, and the loop is forced to its end only by a
  cancellation or by streams that stay open.
\<close>

definition run_facts :: "nat \<Rightarrow> process_command \<Rightarrow> command_state \<Rightarrow> bool" where
  "run_facts m cmd s \<longleftrightarrow>
     (\<forall>st. captures m (stream_bytes st (ps_trace s)) (rs_capture s st)
        \<and> (rs_done s st \<longrightarrow> StreamEnded st \<in> set (ps_trace s) \<or> rs_stream_error s \<noteq> None))
     \<and> (rs_forced_at s \<noteq> None \<longrightarrow> rs_cancelled s \<or> rs_output_incomplete s)
     \<and> (\<forall>c. Spawned c \<in> set (ps_trace s) \<longrightarrow> c = cmd)"

lemma untouched_fields:
  assumes "untouched s = untouched (s' :: command_state)"
  shows "rs_capture s = rs_capture s'" "rs_done s = rs_done s'" "rs_stream_error s = rs_stream_error s'"
    "rs_status s = rs_status s'" "rs_leader_terminal s = rs_leader_terminal s'"
    "rs_drain_started_at s = rs_drain_started_at s'" "rs_output_incomplete s = rs_output_incomplete s'"
    "rs_cancelled s = rs_cancelled s'" "rs_forced_at s = rs_forced_at s'"
    "rs_exit_poll_interval s = rs_exit_poll_interval s'"
    "stream_bytes st (ps_trace s) = stream_bytes st (ps_trace s')"
    "kept_event ev \<Longrightarrow> ev \<in> set (ps_trace s) \<longleftrightarrow> ev \<in> set (ps_trace s')"
proof -
  from assms have kept: "filter kept_event (ps_trace s) = filter kept_event (ps_trace s')"
    and more: "process_state.more s = process_state.more s'"
    by (simp_all add: untouched_def)
  from more show "rs_capture s = rs_capture s'" "rs_done s = rs_done s'"
    "rs_stream_error s = rs_stream_error s'" "rs_status s = rs_status s'"
    "rs_leader_terminal s = rs_leader_terminal s'" "rs_drain_started_at s = rs_drain_started_at s'"
    "rs_output_incomplete s = rs_output_incomplete s'" "rs_cancelled s = rs_cancelled s'"
    "rs_forced_at s = rs_forced_at s'" "rs_exit_poll_interval s = rs_exit_poll_interval s'"
    by (cases s; cases s'; simp)+
  show "stream_bytes st (ps_trace s) = stream_bytes st (ps_trace s')"
    by (metis kept stream_bytes_kept)
  show "ev \<in> set (ps_trace s) \<longleftrightarrow> ev \<in> set (ps_trace s')" if "kept_event ev"
    using arg_cong [OF kept, of set] that by auto
qed

lemma beside_facts: "beside (run_facts m cmd)"
  unfolding beside_def
proof (intro allI impI)
  fix s s' :: command_state
  assume "untouched s = untouched s'" and facts: "run_facts m cmd s"
  note same = untouched_fields [OF this(1)]
  from facts show "run_facts m cmd s'"
    unfolding run_facts_def same(1-11) by (simp add: same(12))
qed

lemma beside_conj: "beside R \<Longrightarrow> beside R' \<Longrightarrow> beside (\<lambda>s. R s \<and> R' s)"
  unfolding beside_def by blast

lemma beside_status: "beside (\<lambda>s :: command_state. rs_status s = st)"
  "beside (\<lambda>s :: command_state. rs_leader_terminal s = b)" "beside (\<lambda>s :: command_state. rs_cancelled s = b)"
  unfolding beside_def by (metis untouched_fields(4), metis untouched_fields(5), metis untouched_fields(8))

section \<open>Cleanup\<close>

text \<open>The two ways in which a command leaves its run: reaped, with its slot given back, or supervised.\<close>

definition released :: "exit_status \<Rightarrow> 's process_state_scheme \<Rightarrow> bool" where
  "released st s \<longleftrightarrow> lifecycle_of (ps_trace s) = Some (Reaped st, Dropped)"

definition supervised :: "'s process_state_scheme \<Rightarrow> bool" where
  "supervised s \<longleftrightarrow> in_phase alive_phases HeldBySupervisor s"

definition left_run :: "command_error \<Rightarrow> 's process_state_scheme \<Rightarrow> bool" where
  "left_run e s \<longleftrightarrow> (if plain_error e then \<exists>st. released st s else supervised s)"

definition reaped_completion :: "command_cleanup_completion \<Rightarrow> 's process_state_scheme \<Rightarrow> bool" where
  "reaped_completion c s \<longleftrightarrow> (\<exists>st b. c = CompletionReaped st b \<and> released st s)"

lemma beside_emit:
  assumes "beside R" "\<not> kept_event ev" "R s"
  shows "R (s\<lparr>ps_trace := ps_trace s @ [ev]\<rparr>)"
proof -
  have "untouched s = untouched (s\<lparr>ps_trace := ps_trace s @ [ev]\<rparr>)"
    using assms(2) by (simp add: untouched_def)
  from assms(1) [unfolded beside_def, rule_format, OF this assms(3)] show ?thesis .
qed

lemma beside_called: "beside R \<Longrightarrow> R s \<Longrightarrow> R (called [] s)"
  unfolding beside_def untouched_def by (metis append_Nil2 called_simps(1,5))

lemma release_phase:
  "beside R \<Longrightarrow> holds (\<lambda>s. in_phase {Reaped st} HeldByRun s \<and> R s) (emit SlotReleased)
     (\<lambda>_ s. released st s \<and> R s) E"
  by (rule holds_emit) (auto simp: in_phase_def released_def intro: beside_emit)

lemma worker_phase:
  assumes "\<And>s. P s \<Longrightarrow> P (called [] s)"
  shows "holds P (ensure_worker_started os) (\<lambda>_. P) (\<lambda>_. P)"
  unfolding ensure_worker_started_def
  by (rule holds_bind [OF holds_os_call, where R = "\<lambda>_. P"])
    (auto intro!: holds_cond holds_return holds_os_check assms)

lemma supervise_phase:
  assumes "beside R"
  shows "holds (\<lambda>s. in_phase alive_phases HeldByRun s \<and> R s)
    (lo_bind (supervise_live_command os e w) lo_fail) Q (\<lambda>e s. left_run e s \<and> R s)"
proof -
  have handed: "holds (\<lambda>s. in_phase alive_phases HeldByRun s \<and> R s) (emit HandedOver) (\<lambda>_ s. supervised s \<and> R s) E"
    for E :: "'e \<Rightarrow> _"
    by (rule holds_emit) (auto simp: in_phase_def supervised_def intro: beside_emit [OF assms])
  have worker: "holds (\<lambda>s. supervised s \<and> R s) (lo_attempt (ensure_worker_started os)) (\<lambda>_ s. supervised s \<and> R s) E"
    for E :: "'e \<Rightarrow> _"
    by (rule holds_attempt, rule worker_phase) (auto simp: supervised_def in_phase_def intro: beside_called [OF assms])
  show ?thesis
    unfolding supervise_live_command_def Let_def
    by (rule holds_bind [where R = "\<lambda>e s. (\<not> plain_error e \<and> supervised s) \<and> R s"],
        rule holds_bind [OF handed], rule holds_bind [OF worker])
      (auto simp: left_run_def)
qed

lemma reaped_answer_cases:
  "(\<forall>e. first_error = Some e \<longrightarrow> plain_error e) \<Longrightarrow> reaped_answer first_error st b = Inl e \<Longrightarrow> plain_error e"
  "reaped_answer first_error st b = Inr c \<Longrightarrow> c = CompletionReaped st b"
  by (auto simp: reaped_answer_def split: option.splits if_splits)

lemma reap_after_phase:
  assumes R: "beside R" and first: "\<forall>e. first_error = Some e \<longrightarrow> plain_error e"
  shows "holds (\<lambda>s. in_phase terminal_phases HeldByRun s \<and> R s) (reap_after_termination os first_error)
    (\<lambda>c s. reaped_completion c s \<and> R s) (\<lambda>e s. left_run e s \<and> R s)"
proof -
  let ?M = "\<lambda>r s. (case r of Inl _ \<Rightarrow> in_phase alive_phases HeldByRun s | Inr st \<Rightarrow> in_phase {Reaped st} HeldByRun s) \<and> R s"
  have reap: "holds (\<lambda>s. in_phase terminal_phases HeldByRun s \<and> R s) (lo_attempt (seal_and_reap_terminal_group os)) ?M E"
    for E :: "command_error \<Rightarrow> _"
    by (rule holds_attempt, rule holds_mono [OF reap_phase [OF R]]) (auto dest: terminal_alive)
  have answer: "holds (\<lambda>s. in_phase {Reaped st} HeldByRun s \<and> R s)
      (lo_bind (lo_get tracked_descendants_are_sealed) (\<lambda>sealed.
       lo_bind (emit SlotReleased) (\<lambda>_. lo_result (reaped_answer first_error st sealed))))
      (\<lambda>c s. reaped_completion c s \<and> R s) (\<lambda>e s. left_run e s \<and> R s)" for st
    by (rule holds_bind [OF holds_get, where R = "\<lambda>_ s. in_phase {Reaped st} HeldByRun s \<and> R s"], assumption,
        rule holds_bind [OF release_phase [OF R]], rule holds_result)
      (auto simp: left_run_def reaped_completion_def dest: reaped_answer_cases(1) [OF first] reaped_answer_cases(2))
  show ?thesis
    unfolding reap_after_termination_def
    by (rule holds_bind [OF reap]) (auto split: sum.splits intro: supervise_phase [OF R] answer)
qed

lemma cleanup_phase:
  assumes R: "beside R"
  shows "holds (\<lambda>s. in_phase alive_phases HeldByRun s \<and> R s) (cleanup_process_group os CleanupTerminateAndReap)
    (\<lambda>c s. reaped_completion c s \<and> R s) (\<lambda>e s. left_run e s \<and> R s)"
proof -
  let ?M = "\<lambda>r s. (\<forall>e. r = Inl e \<longrightarrow> plain_error e) \<and> in_phase alive_phases HeldByRun s \<and> R s"
  let ?N = "\<lambda>r s. (case r of Inr True \<Rightarrow> in_phase terminal_phases HeldByRun s
      | _ \<Rightarrow> in_phase alive_phases HeldByRun s) \<and> R s"
  have kill: "holds (\<lambda>s. in_phase alive_phases HeldByRun s \<and> R s) (lo_attempt (terminate_command_group os)) ?M E"
    for E :: "command_error \<Rightarrow> _"
    by (rule holds_attempt, rule holds_mono [OF terminate_phase [OF R]]) auto
  have wait: "holds (\<lambda>s. in_phase alive_phases HeldByRun s \<and> R s)
      (lo_attempt (wait_for_leader_terminal_bounded os TERMINATION_CONFIRM_GRACE)) ?N E"
    for E :: "command_error \<Rightarrow> _"
    by (rule holds_attempt, rule holds_mono [OF leader_wait_phase [OF R]]) (auto split: bool.splits)
  show ?thesis
    unfolding cleanup_process_group_def Let_def command_cleanup_state.case
  proof (rule holds_bind [OF kill])
    fix r :: "command_error + unit"
    show "holds (?M r) (lo_bind (lo_attempt (wait_for_leader_terminal_bounded os TERMINATION_CONFIRM_GRACE))
        (\<lambda>waited. case waited of
           Inr terminal \<Rightarrow>
             if terminal then reap_after_termination os (case r of Inl source \<Rightarrow> Some source | Inr _ \<Rightarrow> None)
             else lo_bind (supervise_live_command os (case case r of Inl source \<Rightarrow> Some source | Inr _ \<Rightarrow> None of
                 None \<Rightarrow> TerminationUnverified | Some e \<Rightarrow> e) None) lo_fail
         | Inl wait_error \<Rightarrow> lo_bind (supervise_live_command os (case case r of Inl source \<Rightarrow> Some source | Inr _ \<Rightarrow> None of
                 None \<Rightarrow> TerminationUnverified | Some e \<Rightarrow> e) (Some wait_error)) lo_fail))
        (\<lambda>c s. reaped_completion c s \<and> R s) (\<lambda>e s. left_run e s \<and> R s)"
    proof (cases "\<forall>e. r = Inl e \<longrightarrow> plain_error e")
      case True
      then have first: "\<forall>e. (case r of Inl source \<Rightarrow> Some source | Inr _ \<Rightarrow> None) = Some e \<longrightarrow> plain_error e"
        by (auto split: sum.splits)
      show ?thesis
        apply (rule holds_bind [OF holds_pre [OF wait]])
         apply simp
        subgoal for waited
          by (cases waited) (auto intro!: holds_cond intro: reap_after_phase [OF R first] supervise_phase [OF R])
        done
    next
      case False
      then show ?thesis by (auto simp: holds_def)
    qed
  qed
qed

section \<open>Streams\<close>

text \<open>What reading the streams leaves as it is, once the command is started.\<close>

definition started :: "'s process_state_scheme \<Rightarrow> bool" where
  "started s \<longleftrightarrow> (\<exists>L slot. lifecycle_of (ps_trace s) = Some (L, slot) \<and> L \<noteq> NotStarted)"

definition control ::
    "command_state \<Rightarrow> (leader_phase \<times> slot_phase) option \<times> bool option \<times> exit_status option \<times> bool \<times> bool
       \<times> nat option \<times> bool" where
  "control s = (lifecycle_of (ps_trace s), ps_token s, rs_status s, rs_leader_terminal s, rs_cancelled s,
     rs_forced_at s, rs_output_incomplete s)"

definition streaming ::
    "nat \<Rightarrow> process_command \<Rightarrow> ((leader_phase \<times> slot_phase) option \<times> bool option \<times> exit_status option \<times> bool
       \<times> bool \<times> nat option \<times> bool) \<Rightarrow> command_state \<Rightarrow> bool" where
  "streaming m cmd c s \<longleftrightarrow> started s \<and> run_facts m cmd s \<and> control s = c"

lemma streaming_called: "streaming m cmd c s \<Longrightarrow> streaming m cmd c (called [] s)"
  by (cases s) (simp add: streaming_def started_def run_facts_def control_def called_def)

lemma streaming_waited: "streaming m cmd c s \<Longrightarrow> streaming m cmd c (s\<lparr>ps_trace := ps_trace s @ [Waited d]\<rparr>)"
  by (auto simp: streaming_def started_def run_facts_def control_def)

lemma streaming_ended:
  "streaming m cmd c s \<Longrightarrow> streaming m cmd c (stream_ended st (s\<lparr>ps_trace := ps_trace s @ [StreamEnded st]\<rparr>))"
  by (auto simp: streaming_def started_def run_facts_def control_def stream_ended_def)

lemma streaming_pushed:
  "streaming m cmd c s
     \<Longrightarrow> streaming m cmd c (stream_pushed st bs (s\<lparr>ps_trace := ps_trace s @ [StreamBytes st bs]\<rparr>))"
  by (auto simp: streaming_def started_def run_facts_def control_def stream_pushed_def captures_push)

lemma streaming_failed: "streaming m cmd c s \<Longrightarrow> streaming m cmd c (stream_failed st source s)"
  by (auto simp: streaming_def started_def run_facts_def control_def stream_failed_def split: option.splits)

lemma keeps_emit_update:
  "(\<And>s. I s \<Longrightarrow> I (f (s\<lparr>ps_trace := ps_trace s @ [ev]\<rparr>))) \<Longrightarrow> (\<And>a. keeps I (g a)) \<Longrightarrow>
     keeps I (lo_bind (emit ev) (\<lambda>_. lo_bind (lo_update f) g))"
  by (fastforce simp: keeps_def holds_def lo_bind_def emit_def lo_update_def)

lemma keeps_os_call: "(\<And>s. I s \<Longrightarrow> I (called [] s)) \<Longrightarrow> keeps I (os_call f)"
  unfolding keeps_def by (rule holds_os_call)

lemma lo_keeps_emit: "(\<And>s. I s \<Longrightarrow> I (s\<lparr>ps_trace := ps_trace s @ [ev]\<rparr>)) \<Longrightarrow> keeps I (emit ev)"
  unfolding keeps_def by (rule holds_emit)

lemma streaming_reads: "keeps (streaming m cmd c) (stream_reads os st n p)"
proof (induction n arbitrary: p)
  case (Suc n)
  show ?case
    by (auto intro!: lo_keeps_bind keeps_os_call streaming_called keeps_emit_update streaming_ended streaming_pushed
        keeps_update streaming_failed keeps_basic Suc keeps_cond split: sum.splits)
qed (simp add: keeps_basic)

lemma streaming_available: "keeps (streaming m cmd c) (read_available_stream os st)"
  unfolding read_available_stream_def
  by (intro lo_keeps_bind keeps_basic keeps_cond streaming_reads)

text \<open>What a run knows outside its streams.\<close>

definition aside :: "(command_state \<Rightarrow> bool) \<Rightarrow> bool" where
  "aside K \<longleftrightarrow> (\<forall>s s'. control s = control s' \<longrightarrow> K s \<longrightarrow> K s') \<and> (\<forall>s. K s \<longrightarrow> started s)"

lemma aside_keeps:
  assumes "\<And>c. keeps (streaming m cmd c) f" and "aside K"
  shows "keeps (\<lambda>s. run_facts m cmd s \<and> K s) f"
proof (rule keepsI)
  fix s r s1
  assume s: "run_facts m cmd s \<and> K s" and f: "f s = Some (r, s1)"
  with assms(2) have "streaming m cmd (control s) s" by (auto simp: streaming_def aside_def)
  from lo_keepsD [OF assms(1) this f] have "streaming m cmd (control s) s1" .
  with s assms(2) show "run_facts m cmd s1 \<and> K s1"
    by (auto simp: streaming_def aside_def dest: spec2)
qed

lemmas read_keeps = aside_keeps [OF streaming_available]

text \<open>An error of a wait is plain.\<close>

lemma wait_holds:
  assumes "aside K"
  shows "holds (\<lambda>s. run_facts m cmd s \<and> K s) (wait_for_stream_activity os i)
    (\<lambda>_ s. run_facts m cmd s \<and> K s) (\<lambda>e s. plain_error e \<and> run_facts m cmd s \<and> K s)"
proof -
  have keeps: "keeps (streaming m cmd c) (wait_for_stream_activity os i)" for c
    unfolding wait_for_stream_activity_def
    by (auto intro!: lo_keeps_bind keeps_basic lo_keeps_emit streaming_waited keeps_os_call streaming_called keeps_cond
        split: option.splits)
  have plain: "holds (\<lambda>_. True) (wait_for_stream_activity os i) (\<lambda>_ _. True) (\<lambda>e _. plain_error e)"
    unfolding wait_for_stream_activity_def
    by (auto simp: holds_def lo_defs emit_def os_call_def split: option.splits if_splits)
  from holds_conj [OF keeps_holds [OF aside_keeps [OF keeps assms]] plain] show ?thesis
    by (rule holds_mono) auto
qed

section \<open>The loop\<close>

text \<open>Between two rounds, and after a round has failed.\<close>

definition in_control :: "command_state \<Rightarrow> bool" where
  "in_control s \<longleftrightarrow>
     (case rs_status s of
        None \<Rightarrow> in_phase alive_phases HeldByRun s
      | Some st \<Rightarrow> in_phase {Reaped st} HeldByRun s)"

definition between_rounds :: "command_state \<Rightarrow> bool" where
  "between_rounds s \<longleftrightarrow> in_control s \<and> (rs_leader_terminal s \<longrightarrow> rs_status s \<noteq> None)"

definition run_inv :: "nat \<Rightarrow> process_command \<Rightarrow> command_state \<Rightarrow> bool" where
  "run_inv m cmd s \<longleftrightarrow> run_facts m cmd s \<and> between_rounds s"

definition run_stopped :: "nat \<Rightarrow> process_command \<Rightarrow> command_error \<Rightarrow> command_state \<Rightarrow> bool" where
  "run_stopped m cmd e s \<longleftrightarrow> plain_error e \<and> run_facts m cmd s \<and> in_control s"

lemma in_phase_started: "in_phase A slot s \<Longrightarrow> NotStarted \<notin> A \<Longrightarrow> started s"
  by (auto simp: in_phase_def started_def)

lemma aside_in_control: "aside in_control"
  unfolding aside_def
  by (auto simp: control_def in_control_def in_phase_def started_def split: option.splits)

lemma aside_between: "aside between_rounds"
  using aside_in_control unfolding aside_def
  by (auto simp: between_rounds_def control_def)

lemma fields_updated [simp]:
  "in_phase A slot (s\<lparr>rs_status := x\<rparr>) = in_phase A slot s"
  "in_phase A slot (s\<lparr>rs_leader_terminal := b\<rparr>) = in_phase A slot s"
  "in_phase A slot (s\<lparr>rs_cancelled := b\<rparr>) = in_phase A slot s"
  "in_phase A slot (s\<lparr>rs_forced_at := t\<rparr>) = in_phase A slot s"
  "in_phase A slot (s\<lparr>rs_drain_started_at := t\<rparr>) = in_phase A slot s"
  "in_phase A slot (s\<lparr>rs_output_incomplete := b\<rparr>) = in_phase A slot s"
  "in_phase A slot (s\<lparr>rs_exit_poll_interval := i\<rparr>) = in_phase A slot s"
  "run_facts m cmd (s\<lparr>rs_status := x\<rparr>) = run_facts m cmd s"
  "run_facts m cmd (s\<lparr>rs_leader_terminal := b\<rparr>) = run_facts m cmd s"
  "run_facts m cmd (s\<lparr>rs_drain_started_at := t\<rparr>) = run_facts m cmd s"
  "run_facts m cmd (s\<lparr>rs_exit_poll_interval := i\<rparr>) = run_facts m cmd s"
  "run_facts m cmd s \<Longrightarrow> run_facts m cmd (s\<lparr>rs_cancelled := True\<rparr>)"
  "run_facts m cmd s \<Longrightarrow> run_facts m cmd (s\<lparr>rs_output_incomplete := True\<rparr>)"
  "run_facts m cmd s \<Longrightarrow> rs_cancelled s \<or> rs_output_incomplete s \<Longrightarrow> run_facts m cmd (s\<lparr>rs_forced_at := t\<rparr>)"
  by (simp_all add: in_phase_def run_facts_def)

lemma fields_called [simp]:
  "rs_status (called evs s) = rs_status s" "rs_leader_terminal (called evs s) = rs_leader_terminal s"
  "rs_cancelled (called evs s) = rs_cancelled s" "rs_output_incomplete (called evs s) = rs_output_incomplete s"
  "rs_forced_at (called evs s) = rs_forced_at s" "rs_drain_started_at (called evs s) = rs_drain_started_at s"
  "rs_capture (called evs s) = rs_capture s" "rs_done (called evs s) = rs_done s"
  "rs_stream_error (called evs s) = rs_stream_error s"
  "in_phase A slot (called [] s) = in_phase A slot s" "run_facts m cmd (called [] s) = run_facts m cmd s"
  by (simp_all add: called_def in_phase_def run_facts_def)

lemma inv_called: "run_inv m cmd s \<Longrightarrow> run_inv m cmd (called [] s)"
  by (auto simp: run_inv_def between_rounds_def in_control_def split: option.splits)

text \<open>A question, and then the reaping, while the status is not known.\<close>

definition unreaped :: "nat \<Rightarrow> process_command \<Rightarrow> bool \<Rightarrow> command_state \<Rightarrow> bool" where
  "unreaped m cmd b s \<longleftrightarrow> run_facts m cmd s \<and> rs_status s = None \<and> rs_cancelled s = b"

lemma beside_unreaped: "beside (unreaped m cmd b)"
  unfolding unreaped_def by (intro beside_conj beside_facts beside_status)

lemma unreaped_stopped:
  "in_phase alive_phases HeldByRun s \<Longrightarrow> unreaped m cmd b s \<Longrightarrow> plain_error e \<Longrightarrow> run_stopped m cmd e s"
  by (simp add: run_stopped_def unreaped_def in_control_def)

lemma reap_status:
  "holds (\<lambda>s. in_phase terminal_phases HeldByRun s \<and> unreaped m cmd b s)
     (lo_bind (seal_and_reap_terminal_group os) (\<lambda>st. lo_update (\<lambda>s. s\<lparr>rs_status := Some st\<rparr>)))
     (\<lambda>_ s. run_inv m cmd s \<and> rs_cancelled s = b) (run_stopped m cmd)"
  by (rule holds_bind [OF holds_mono [OF reap_phase [OF beside_unreaped [of m cmd b]]]], assumption, assumption)
    (auto intro!: holds_update unreaped_stopped dest: terminal_alive
      simp: run_inv_def between_rounds_def in_control_def unreaped_def)

lemma cancel_holds:
  "holds (run_inv m cmd) (cancel_command os) (\<lambda>_. run_inv m cmd) (run_stopped m cmd)"
proof -
  let ?I = "\<lambda>s. run_inv m cmd s \<and> rs_cancelled s = True"
  let ?R = "\<lambda>s. unreaped m cmd True s \<and> rs_leader_terminal s = False"
  have R: "beside ?R" by (intro beside_conj beside_unreaped beside_status)
  let ?K = "lo_bind (terminate_command_group os) (\<lambda>_.
      lo_bind (wait_for_leader_terminal_bounded os TERMINATION_CONFIRM_GRACE) (\<lambda>terminal.
      lo_if terminal (lo_bind (seal_and_reap_terminal_group os) (\<lambda>st.
        lo_update (\<lambda>s. s\<lparr>rs_status := Some st\<rparr>)))))"
  have kill: "holds (\<lambda>s. in_phase alive_phases HeldByRun s \<and> ?R s) ?K (\<lambda>_. ?I) (run_stopped m cmd)"
  proof (rule holds_bind [OF holds_mono [OF terminate_phase [OF R]]], assumption, assumption)
    show "run_stopped m cmd e s" if "plain_error e \<and> in_phase alive_phases HeldByRun s \<and> ?R s" for e s
      using that by (auto intro: unreaped_stopped)
    show "holds (\<lambda>s. in_phase alive_phases HeldByRun s \<and> ?R s)
        (lo_bind (wait_for_leader_terminal_bounded os TERMINATION_CONFIRM_GRACE) (\<lambda>terminal.
          lo_if terminal (lo_bind (seal_and_reap_terminal_group os) (\<lambda>st.
            lo_update (\<lambda>s. s\<lparr>rs_status := Some st\<rparr>))))) (\<lambda>_. ?I) (run_stopped m cmd)"
    proof (rule holds_bind [OF holds_mono [OF leader_wait_phase [OF R]]], assumption, assumption)
      show "run_stopped m cmd e s" if "plain_error e \<and> in_phase alive_phases HeldByRun s \<and> ?R s" for e s
        using that by (auto intro: unreaped_stopped)
      show "holds (\<lambda>s. in_phase (if terminal then terminal_phases else alive_phases) HeldByRun s \<and> ?R s)
          (lo_if terminal (lo_bind (seal_and_reap_terminal_group os) (\<lambda>st.
            lo_update (\<lambda>s. s\<lparr>rs_status := Some st\<rparr>)))) (\<lambda>_. ?I) (run_stopped m cmd)" for terminal
        by (rule holds_if)
          (auto intro: holds_mono [OF reap_status [of m cmd True]]
            simp: unreaped_def run_inv_def between_rounds_def in_control_def)
    qed
  qed
  have branch: "holds (\<lambda>s. ?I s \<and> rs_status s = status) (lo_if (status = None) ?K) (\<lambda>_. ?I) (run_stopped m cmd)" for status
    by (rule holds_if, rule holds_pre [OF kill])
      (auto simp: unreaped_def run_inv_def between_rounds_def in_control_def)
  show ?thesis
    unfolding cancel_command_def now_def
  proof (rule holds_bind [OF holds_update, where R = "\<lambda>_. ?I"])
    show "?I (s\<lparr>rs_cancelled := True\<rparr>)" if "run_inv m cmd s" for s
      using that by (auto simp: run_inv_def between_rounds_def in_control_def split: option.splits)
  qed (rule holds_bind [OF holds_get, where R = "\<lambda>status s. ?I s \<and> rs_status s = status"], simp,
      rule holds_bind [OF branch], rule holds_bind [OF holds_os_call, where R = "\<lambda>_. ?I"],
      auto intro!: inv_called holds_update simp: run_inv_def between_rounds_def in_control_def split: option.splits)
qed

lemma observe_cancellation_holds:
  "holds (run_inv m cmd) (observe_cancellation os) (\<lambda>_. run_inv m cmd) (run_stopped m cmd)"
  unfolding observe_cancellation_def
  by (rule holds_bind [OF holds_os_call, where R = "\<lambda>_. run_inv m cmd"], erule inv_called,
      rule holds_bind [OF holds_get, where R = "\<lambda>_. run_inv m cmd"], assumption,
      rule holds_if, rule cancel_holds, simp)

text \<open>After the leader was looked at.\<close>

definition leader_known :: "nat \<Rightarrow> process_command \<Rightarrow> command_state \<Rightarrow> bool" where
  "leader_known m cmd s \<longleftrightarrow>
     run_facts m cmd s \<and> in_control s
     \<and> (rs_status s = None \<longrightarrow> rs_leader_terminal s \<longrightarrow> in_phase terminal_phases HeldByRun s)"

lemma ask_leader:
  "holds (\<lambda>s. run_inv m cmd s \<and> rs_status s = None \<and> \<not> rs_leader_terminal s)
     (lo_bind (command_leader_terminal os) (\<lambda>terminal. lo_update (\<lambda>s. s\<lparr>rs_leader_terminal := terminal\<rparr>)))
     (\<lambda>_. leader_known m cmd) (run_stopped m cmd)" (is "holds ?P ?m _ _")
proof (rule holdsI)
  fix s e s1
  assume s: "?P s" and "?m s = Some (Inl e, s1)"
  then have "command_leader_terminal os s = Some (Inl e, s1)"
    by (auto simp: lo_bind_def lo_update_def split: option.splits sum.splits)
  from holds_Inl [OF leader_phase [where slot = HeldByRun, OF beside_unreaped [of m cmd "rs_cancelled s"]] _ this] s
  show "run_stopped m cmd e s1"
    by (auto simp: run_inv_def between_rounds_def in_control_def unreaped_def run_stopped_def)
next
  fix s a s1
  assume s: "?P s" and "?m s = Some (Inr a, s1)"
  then obtain b s2 where asked: "command_leader_terminal os s = Some (Inr b, s2)"
    and s1: "s1 = s2\<lparr>rs_leader_terminal := b\<rparr>"
    by (auto simp: lo_bind_def lo_update_def split: option.splits sum.splits)
  from holds_Inr [OF leader_phase [where slot = HeldByRun, OF beside_unreaped [of m cmd "rs_cancelled s"]] _ asked] s
  show "leader_known m cmd s1"
    by (cases b)
      (auto simp: leader_known_def run_inv_def between_rounds_def in_control_def unreaped_def s1 dest: terminal_alive)
qed

lemma reap_known:
  "holds (\<lambda>s. leader_known m cmd s \<and> rs_status s = None \<and> rs_leader_terminal s)
     (lo_bind (seal_and_reap_terminal_group os) (\<lambda>st. lo_update (\<lambda>s. s\<lparr>rs_status := Some st\<rparr>)))
     (\<lambda>_. run_inv m cmd) (run_stopped m cmd)" (is "holds ?P ?m _ _")
proof (rule holdsI)
  fix s e s1
  assume "?P s" and "?m s = Some (Inl e, s1)"
  then show "run_stopped m cmd e s1"
    by (intro holds_Inl [OF reap_status [where b = "rs_cancelled s"]]) (auto simp: leader_known_def unreaped_def)
next
  fix s a s1
  assume "?P s" and reaped: "?m s = Some (Inr a, s1)"
  with holds_Inr [OF reap_status [where b = "rs_cancelled s"] _ reaped] show "run_inv m cmd s1"
    by (auto simp: leader_known_def unreaped_def)
qed

lemma observe_leader_holds:
  "holds (run_inv m cmd) (observe_leader os) (\<lambda>_. run_inv m cmd) (run_stopped m cmd)"
proof -
  let ?D = "\<lambda>s. rs_status s = None \<and> \<not> rs_leader_terminal s"
  let ?T = "\<lambda>s. rs_status s = None \<and> rs_leader_terminal s"
  have ask: "holds (\<lambda>s. run_inv m cmd s \<and> unseen = ?D s) (lo_if unseen (lo_bind (command_leader_terminal os)
      (\<lambda>terminal. lo_update (\<lambda>s. s\<lparr>rs_leader_terminal := terminal\<rparr>)))) (\<lambda>_. leader_known m cmd) (run_stopped m cmd)"
    for unseen
    by (rule holds_if, rule holds_pre [OF ask_leader]) (auto simp: leader_known_def run_inv_def between_rounds_def)
  have reap: "holds (\<lambda>s. leader_known m cmd s \<and> terminal = ?T s) (lo_if terminal (lo_bind (seal_and_reap_terminal_group os)
      (\<lambda>st. lo_update (\<lambda>s. s\<lparr>rs_status := Some st\<rparr>)))) (\<lambda>_. run_inv m cmd) (run_stopped m cmd)" for terminal
    by (rule holds_if, rule holds_pre [OF reap_known]) (auto simp: leader_known_def run_inv_def between_rounds_def)
  show ?thesis
    unfolding observe_leader_def
    by (rule holds_bind [OF holds_get, where R = "\<lambda>b s. run_inv m cmd s \<and> b = ?D s"], simp,
        rule holds_bind [OF ask],
        rule holds_bind [OF holds_get, where R = "\<lambda>b s. leader_known m cmd s \<and> b = ?T s"], simp, rule reap)
qed

lemma inv_aside: "run_inv m cmd = (\<lambda>s. run_facts m cmd s \<and> between_rounds s)"
  by (simp add: fun_eq_iff run_inv_def)

lemma reads_never_fail: "holds (\<lambda>_. True) (read_available_stream os st) (\<lambda>_ _. True) (\<lambda>_ _. False)"
proof -
  have "holds (\<lambda>_. True) (stream_reads os st n p) (\<lambda>_ _. True) (\<lambda>_ _. False)" for n p
  proof (induction n arbitrary: p)
    case (Suc n)
    show ?case
      by (auto intro!: holds_bind [where R = "\<lambda>_ _. True"] holds_os_call holds_emit holds_update Suc
          split: sum.splits)
  qed (auto simp: holds_def lo_return_def)
  then show ?thesis
    unfolding read_available_stream_def
    by (intro holds_bind [OF holds_get, where R = "\<lambda>_ _. True"] holds_cond) auto
qed

lemma read_holds:
  assumes "aside K"
  shows "holds (\<lambda>s. run_facts m cmd s \<and> K s) (read_available_stream os st) (\<lambda>_ s. run_facts m cmd s \<and> K s) E"
  using holds_conj [OF keeps_holds [OF read_keeps [OF assms]] reads_never_fail]
  by (rule holds_mono) auto

lemma inv_reads: "holds (run_inv m cmd) (read_available_stream os st) (\<lambda>_. run_inv m cmd) E"
  unfolding inv_aside by (rule read_holds [OF aside_between])

lemma inv_wait:
  "holds (run_inv m cmd) (wait_for_stream_activity os i) (\<lambda>_. run_inv m cmd) (run_stopped m cmd)"
  by (rule holds_mono [OF wait_holds [OF aside_between]])
    (auto simp: run_inv_def run_stopped_def between_rounds_def)

lemma inv_updated [simp]:
  "run_inv m cmd (s\<lparr>rs_exit_poll_interval := i\<rparr>) = run_inv m cmd s"
  "run_inv m cmd (s\<lparr>rs_drain_started_at := t\<rparr>) = run_inv m cmd s"
  "run_inv m cmd s \<Longrightarrow> run_inv m cmd (s\<lparr>rs_output_incomplete := True\<rparr>)"
  "run_inv m cmd s \<Longrightarrow> rs_cancelled s \<or> rs_output_incomplete s \<Longrightarrow> run_inv m cmd (s\<lparr>rs_forced_at := t\<rparr>)"
  by (simp_all add: run_inv_def between_rounds_def in_control_def split: option.splits)

text \<open>The loop ends when everything is read, or by force.\<close>

definition loop_over :: "command_state \<Rightarrow> bool" where
  "loop_over s \<longleftrightarrow>
     rs_status s \<noteq> None \<and> streams_done s \<or> rs_cancelled s \<or> rs_output_incomplete s"

lemma forced_holds:
  "holds (run_inv m cmd) (forced_drain_over os) (\<lambda>over s. run_inv m cmd s \<and> (over \<longrightarrow> loop_over s)) E"
  unfolding forced_drain_over_def now_def
  apply (rule holds_bind [OF holds_get, where R = "\<lambda>t s. run_inv m cmd s \<and> rs_forced_at s = t"])
   apply simp
  subgoal for t
    by (cases t) (auto intro!: holds_return holds_bind [OF holds_os_call,
        where R = "\<lambda>_ s. run_inv m cmd s \<and> loop_over s"] inv_called
        simp: loop_over_def run_inv_def run_facts_def)
  done

lemma watch_holds: "holds (run_inv m cmd) (watch_drain os) (\<lambda>_. run_inv m cmd) E"
proof -
  have call: "holds (run_inv m cmd) (os_call f) (\<lambda>_. run_inv m cmd) E" for f :: "nat \<Rightarrow> nat" and E :: "'e \<Rightarrow> _"
    by (rule holds_os_call) (rule inv_called)
  have force: "holds (run_inv m cmd) (lo_bind (lo_update (\<lambda>s. s\<lparr>rs_output_incomplete := True\<rparr>)) (\<lambda>_.
      lo_bind (now os) (\<lambda>t1. lo_update (\<lambda>s. s\<lparr>rs_forced_at := Some t1\<rparr>)))) (\<lambda>_. run_inv m cmd) E"
    for E :: "'e \<Rightarrow> _"
    unfolding now_def
    by (rule holds_bind [OF holds_update, where R = "\<lambda>_ s. run_inv m cmd s \<and> rs_output_incomplete s"], simp,
        rule holds_bind [OF holds_os_call, where R = "\<lambda>_ s. run_inv m cmd s \<and> rs_output_incomplete s"])
      (auto intro: inv_called holds_update)
  show ?thesis
    unfolding watch_drain_def
    apply (rule holds_bind [OF holds_get, where R = "\<lambda>_. run_inv m cmd"], assumption)
    apply (rule holds_cond)
     apply (rule holds_bind [OF holds_get, where R = "\<lambda>_. run_inv m cmd"], assumption)
     apply (rule holds_bind [where R = "\<lambda>_. run_inv m cmd"])
      apply (auto simp: now_def intro: call split: option.splits)[1]
     apply (rule holds_bind [OF holds_update, where R = "\<lambda>_. run_inv m cmd"], simp)
     apply (rule holds_bind [where R = "\<lambda>_. run_inv m cmd"])
      apply (simp add: now_def call)
     apply (rule holds_if, rule force, simp)
    apply (rule holds_update, simp)
    done
qed

lemma tick_holds:
  "holds (run_inv m cmd) (command_tick os) (\<lambda>over s. run_inv m cmd s \<and> (over \<longrightarrow> loop_over s)) (run_stopped m cmd)"
proof -
  have slower: "holds (run_inv m cmd) (lo_bind (lo_get rs_exit_poll_interval) (\<lambda>interval.
      lo_bind (wait_for_stream_activity os interval) (\<lambda>_. lo_update (\<lambda>s. s\<lparr>rs_exit_poll_interval :=
        next_exit_poll_interval (rs_exit_poll_interval s) False\<rparr>)))) (\<lambda>_. run_inv m cmd) (run_stopped m cmd)"
    by (rule holds_bind [OF holds_get, where R = "\<lambda>_. run_inv m cmd"], assumption, rule holds_bind [OF inv_wait],
        rule holds_update, simp)
  show ?thesis
    unfolding command_tick_def
    apply (rule holds_bind [OF observe_cancellation_holds])
    apply (rule holds_bind [OF inv_reads])+
    apply (rule holds_bind [where R = "\<lambda>_. run_inv m cmd"], rule holds_if, rule holds_update, simp, simp)
    apply (rule holds_bind [OF observe_leader_holds])
    apply (rule holds_bind [OF holds_get, where R = "\<lambda>b s. run_inv m cmd s \<and> b = (rs_status s \<noteq> None \<and> streams_done s)"], simp)
    apply (rule holds_cond)
     apply (rule holds_return, simp add: loop_over_def)
    apply (rule holds_bind [OF holds_pre [OF forced_holds]], simp)
    apply (rule holds_cond)
     apply (rule holds_return, simp)
    apply (rule holds_bind [OF holds_pre [OF watch_holds]], simp)
    apply (rule holds_bind [where R = "\<lambda>_. run_inv m cmd"], rule holds_if, rule slower, simp)
    apply (rule holds_return, simp)
    done
qed

lemma loop_holds:
  "holds (run_inv m cmd) (command_loop os) (\<lambda>_ s. run_inv m cmd s \<and> loop_over s) (run_stopped m cmd)"
proof (rule holds_loop)
  define ending :: "(command_error + unit) \<times> command_state \<Rightarrow> bool"
    where "ending y = (case fst y of Inr _ \<Rightarrow> run_inv m cmd (snd y) \<and> loop_over (snd y)
      | Inl e \<Rightarrow> run_stopped m cmd e (snd y))" for y
  fix s y
  assume *: "command_loop os s = Some y" and "run_inv m cmd s"
  have "os = os \<longrightarrow> run_inv m cmd s \<longrightarrow> ending y"
  proof (rule command_loop.raw_induct [where P = "\<lambda>os1 s y. os1 = os \<longrightarrow> run_inv m cmd s \<longrightarrow> ending y", OF _ *])
    fix f os1 s y
    assume IH: "\<And>os1 s y. f os1 s = Some y \<Longrightarrow> os1 = os \<longrightarrow> run_inv m cmd s \<longrightarrow> ending y"
      and eq: "(case command_tick os1 s of None \<Rightarrow> None | Some (Inl e, s1) \<Rightarrow> Some (Inl e, s1)
        | Some (Inr over, s1) \<Rightarrow> if over then Some (Inr (), s1) else f os1 s1) = Some y"
    show "os1 = os \<longrightarrow> run_inv m cmd s \<longrightarrow> ending y"
    proof (intro impI)
      assume "os1 = os" and inv: "run_inv m cmd s"
      from eq obtain r s1 where tick: "command_tick os s = Some (r, s1)"
        using \<open>os1 = os\<close> by (cases "command_tick os s") auto
      with eq \<open>os1 = os\<close> IH [of os s1 y] holds_Inl [OF tick_holds inv, of os _ s1] holds_Inr [OF tick_holds inv, of os _ s1]
      show "ending y" by (cases r) (auto simp: ending_def split: if_splits)
    qed
  qed
  with \<open>run_inv m cmd s\<close> show "case fst y of Inr a \<Rightarrow> run_inv m cmd (snd y) \<and> loop_over (snd y)
      | Inl e \<Rightarrow> run_stopped m cmd e (snd y)"
    by (simp add: ending_def)
qed

end
