(* ===== verification/Command_Safety.thy ===== *)
theory Command_Safety
  imports Command_Rounds
begin

text \<open>
  A whole run of a command: who owns the child and its slot when the run returns, what the outcome of
  a successful run is worth, and what is started at all.
\<close>

section \<open>Starting\<close>

text \<open>What is started.\<close>

definition prepared_command :: "command_host \<Rightarrow> path \<Rightarrow> ustring \<Rightarrow> process_command" where
  "prepared_command H root command =
     (configured_command H root
        ((shell_command command (map_of (ch_vars H)))\<lparr>cmd_in_workspace := True\<rparr>))\<lparr>cmd_token := True\<rparr>"

definition unstarted :: "'s process_state_scheme \<Rightarrow> bool" where
  "unstarted s \<longleftrightarrow> lifecycle_of (ps_trace s) \<in> {Some (NotStarted, NoSlot), Some (NotStarted, Dropped)}
     \<and> (\<forall>cmd. Spawned cmd \<notin> set (ps_trace s))"

definition preparing :: "nat \<Rightarrow> process_event list \<Rightarrow> command_state \<Rightarrow> bool" where
  "preparing m trace s \<longleftrightarrow>
     ps_trace s = trace \<and> process_state.more s = process_state.more (command_start m)"

lemma preparing_called: "preparing m trace s \<Longrightarrow> preparing m (trace @ evs) (called evs s)"
  by (simp add: preparing_def)

lemma preparing_unstarted: "preparing m [] s \<Longrightarrow> unstarted s"
  by (simp add: preparing_def unstarted_def)

definition failed_unstarted :: "command_error \<Rightarrow> command_state \<Rightarrow> bool" where
  "failed_unstarted e s \<longleftrightarrow> plain_error e \<and> unstarted s"

text \<open>Calls that change nothing else.\<close>

definition quiet :: "nat \<Rightarrow> bool option \<Rightarrow> command_state \<Rightarrow> bool" where
  "quiet m token s \<longleftrightarrow> preparing m [] s \<and> ps_token s = token"

lemma quiet_called: "quiet m token s \<Longrightarrow> quiet m token (called [] s)"
  by (simp add: quiet_def preparing_def)

lemma quiet_unstarted: "quiet m token s \<Longrightarrow> unstarted s"
  unfolding quiet_def by (blast intro: preparing_unstarted)

lemma quiet_fails: "plain_error e \<Longrightarrow> holds (quiet m token) (lo_fail e) Q failed_unstarted"
  by (rule holds_fail) (auto simp: failed_unstarted_def dest: quiet_unstarted)

lemma quiet_call: "holds (quiet m token) (os_call f) (\<lambda>_. quiet m token) E"
  by (rule holds_os_call) (rule quiet_called)

lemma quiet_check: "holds (quiet m token) (os_check f) (\<lambda>_. quiet m token) (\<lambda>_. quiet m token)"
  by (rule holds_os_check; erule quiet_called)

lemma check_cancelled_quiet: "holds (quiet m token) (check_cancelled os) (\<lambda>_. quiet m token) failed_unstarted"
  unfolding check_cancelled_def
  by (rule holds_bind [OF quiet_call], rule holds_cond) (auto intro: quiet_fails)

lemma bind_quiet:
  "holds (quiet m token) (lo_map_err WorkspaceChanged (bind_command_working_directory os cmd))
     (\<lambda>cmd1 s. cmd1 = cmd\<lparr>cmd_in_workspace := True\<rparr> \<and> quiet m token s) failed_unstarted"
  unfolding bind_command_working_directory_def
  by (rule holds_map_err, rule holds_bind [OF holds_mono [OF quiet_check], where R = "\<lambda>_. quiet m token"])
    (auto simp: failed_unstarted_def dest: quiet_unstarted)

lemma flags_quiet: "holds (quiet m token) (change_flags os) (\<lambda>_. quiet m token) (\<lambda>_. quiet m token)"
  unfolding change_flags_def
  by (rule holds_map_err, rule holds_bind [OF quiet_check], rule quiet_check)

lemma token_quiet:
  "holds (quiet m None) (descendant_token_prepare os cmd)
     (\<lambda>cmd1 s. cmd1 = cmd\<lparr>cmd_token := True\<rparr> \<and> quiet m (Some False) s) failed_unstarted"
proof -
  have steps: "holds (quiet m None)
      (lo_bind (os_check (os_socket_pair os)) (\<lambda>_. lo_bind (os_check (os_set_nonblocking os)) (\<lambda>_.
       lo_bind (change_flags os) (\<lambda>_. lo_bind (lo_update (\<lambda>s. s\<lparr>ps_token := Some False\<rparr>)) (\<lambda>_.
         lo_return (cmd\<lparr>cmd_token := True\<rparr>))))))
      (\<lambda>cmd1 s. cmd1 = cmd\<lparr>cmd_token := True\<rparr> \<and> quiet m (Some False) s) (\<lambda>_. quiet m None)"
    by (rule holds_bind [OF quiet_check], rule holds_bind [OF quiet_check], rule holds_bind [OF flags_quiet],
        rule holds_bind [OF holds_update, where R = "\<lambda>_. quiet m (Some False)"])
      (auto simp: quiet_def preparing_def)
  show ?thesis
    unfolding descendant_token_prepare_def
    by (rule holds_map_err, rule holds_mono [OF steps]) (auto simp: failed_unstarted_def dest: quiet_unstarted)
qed

text \<open>With a slot, and with a child.\<close>

definition admitted :: "nat \<Rightarrow> command_state \<Rightarrow> bool" where
  "admitted m s \<longleftrightarrow> preparing m [SlotReserved] s \<and> ps_token s = Some False"

lemma reserve_loop_holds:
  "holds (quiet m (Some False)) (reserve_slot_loop os active) (\<lambda>_. admitted m) failed_unstarted"
proof (rule holds_loop)
  define ending :: "(command_error + unit) \<times> command_state \<Rightarrow> bool"
    where "ending y = (case fst y of Inr _ \<Rightarrow> admitted m (snd y) | Inl e \<Rightarrow> failed_unstarted e (snd y))" for y
  then have ending_simps: "ending (Inr u, s) = admitted m s" "ending (Inl e, s) = failed_unstarted e s" for u s e
    by simp_all
  fix s y
  assume *: "reserve_slot_loop os active s = Some y" and "quiet m (Some False) s"
  have "quiet m (Some False) s \<longrightarrow> ending y"
    by (rule reserve_slot_loop.raw_induct [where P = "\<lambda>os active s y. quiet m (Some False) s \<longrightarrow> ending y", OF _ *])
      (auto simp: ending_simps failed_unstarted_def admitted_def quiet_unstarted
        intro: quiet_called split: option.splits if_splits,
       auto simp: quiet_def preparing_def)
  with \<open>quiet m (Some False) s\<close> show "case fst y of Inr a \<Rightarrow> admitted m (snd y) | Inl e \<Rightarrow> failed_unstarted e (snd y)"
    by (simp add: ending_def)
qed

lemma prepare_supervision_holds:
  "holds (quiet m (Some False)) (prepare_command_supervision os) (\<lambda>_. admitted m) failed_unstarted"
proof -
  have worker: "holds (quiet m (Some False)) (lo_map_err SupervisorUnavailable (ensure_worker_started os))
      (\<lambda>_. quiet m (Some False)) failed_unstarted"
    by (rule holds_map_err, rule holds_mono [OF worker_phase [of "quiet m (Some False)"]])
      (auto simp: failed_unstarted_def dest: quiet_unstarted intro: quiet_called)
  have healthy: "holds (quiet m (Some False)) (ensure_admission_healthy os)
      (\<lambda>_. quiet m (Some False)) failed_unstarted"
    unfolding ensure_admission_healthy_def
    by (rule holds_bind [OF quiet_call], rule holds_cond) (auto intro: quiet_fails)
  show ?thesis
    unfolding prepare_command_supervision_def reserve_slot_def
    by (rule holds_bind [OF worker], rule holds_bind [OF healthy], rule holds_bind [OF quiet_call],
        rule reserve_loop_holds)
qed

lemma fresh_fields:
  assumes "preparing m trace s"
  shows "rs_status s = None" "rs_leader_terminal s = False" "rs_capture s = (\<lambda>_. captured_new m)"
    "rs_done s = (\<lambda>_. False)" "rs_forced_at s = None"
  using assms by (cases s; simp add: preparing_def command_start_def process_state.defs)+

lemma started_inv:
  "preparing m [SlotReserved, Spawned cmd] s \<Longrightarrow> ps_token s = Some False
     \<Longrightarrow> run_inv m cmd s \<and> rs_status s = None"
  using fresh_fields [of m "[SlotReserved, Spawned cmd]" s]
  by (auto simp: run_inv_def between_rounds_def in_control_def in_phase_def run_facts_def
      preparing_def alive_phases_def captures_new lifecycle_of_def)

lemma spawn_holds:
  "holds (admitted m) (spawn_group os cmd)
     (\<lambda>_ s. run_inv m cmd s \<and> rs_status s = None) failed_unstarted"
proof -
  have call: "admitted m s \<Longrightarrow> admitted m (called [] s)" for s
    by (simp add: admitted_def preparing_def)
  have failed: "holds (admitted m) (lo_bind (emit SlotReleased) (\<lambda>_. lo_fail (SpawnError source))) Q failed_unstarted"
    for source and Q :: "unit \<Rightarrow> _"
    by (rule holds_bind [OF holds_emit, where R = "\<lambda>_. unstarted"])
      (auto simp: admitted_def preparing_def unstarted_def failed_unstarted_def lifecycle_of_def)
  have spawned: "holds (admitted m) (lo_bind (emit (Spawned cmd)) (\<lambda>_. lo_update (\<lambda>s. s\<lparr>ps_child := i\<rparr>)))
      (\<lambda>_ s. run_inv m cmd s \<and> rs_status s = None) failed_unstarted" for i
    by (rule holds_bind [OF holds_emit,
          where R = "\<lambda>_ s. preparing m [SlotReserved, Spawned cmd] s \<and> ps_token s = Some False"])
      (auto simp: admitted_def preparing_def intro!: holds_update started_inv)
  show ?thesis
    unfolding spawn_group_def
    by (rule holds_bind [OF holds_os_call, where R = "\<lambda>_. admitted m"], erule call)
      (auto split: sum.splits intro: failed spawned)
qed

lemma holds_known: "(a = b \<Longrightarrow> holds P m Q E) \<Longrightarrow> holds (\<lambda>s. a = b \<and> P s) m Q E"
  by (auto simp: holds_def)

lemma start_holds:
  "holds (\<lambda>s. s = command_start m) (start_command os H root command)
     (\<lambda>cmd s. cmd = prepared_command H root command \<and> run_inv m cmd s \<and> rs_status s = None) failed_unstarted"
proof -
  have "holds (admitted m) (lo_bind (spawn_group os cmd) (\<lambda>_. lo_return cmd))
      (\<lambda>cmd1 s. cmd1 = cmd \<and> run_inv m cmd1 s \<and> rs_status s = None) failed_unstarted" for cmd
    by (rule holds_bind [OF spawn_holds]) auto
  then show ?thesis
    unfolding start_command_def
    by (intro holds_bind [OF holds_pre [OF check_cancelled_quiet [of m None]]] holds_bind [OF bind_quiet]
          holds_known holds_bind [OF token_quiet] holds_bind [OF check_cancelled_quiet]
          holds_bind [OF prepare_supervision_holds])
      (auto simp: quiet_def preparing_def command_start_def prepared_command_def)
qed

section \<open>Settling\<close>

text \<open>After the cleanup, by its result.\<close>

definition cleaned :: "command_error + command_cleanup_completion \<Rightarrow> command_state \<Rightarrow> bool" where
  "cleaned result s \<longleftrightarrow>
     (case result of
        Inl e \<Rightarrow> left_run e s
      | Inr CompletionAlreadyReaped \<Rightarrow> \<exists>st. rs_status s = Some st \<and> released st s
      | Inr (CompletionReaped st _) \<Rightarrow> rs_status s = None \<and> released st s)"

text \<open>What the result of the loop says.\<close>

definition looped :: "command_error + unit \<Rightarrow> command_state \<Rightarrow> bool" where
  "looped result s \<longleftrightarrow> (case result of Inl e \<Rightarrow> plain_error e | Inr _ \<Rightarrow> loop_over s)"

lemma beside_looped: "beside (looped result)"
  unfolding beside_def looped_def loop_over_def streams_done_def
  by (auto split: sum.splits dest: untouched_fields(2,4,7,8))

lemma cleanup_holds:
  "holds (\<lambda>s. run_facts m cmd s \<and> in_control s \<and> looped result s \<and> rs_status s = status)
     (lo_attempt (cleanup_process_group os
       (if status \<noteq> None then CleanupAlreadyReaped else CleanupTerminateAndReap)))
     (\<lambda>r s. run_facts m cmd s \<and> looped result s \<and> cleaned r s) E"
proof (cases status)
  case None
  let ?R = "\<lambda>s. (run_facts m cmd s \<and> looped result s) \<and> rs_status s = None"
  have R: "beside ?R" by (intro beside_conj beside_facts beside_looped beside_status)
  show ?thesis
    by (rule holds_attempt, simp only: None, simp, rule holds_mono [OF cleanup_phase [OF R]])
      (auto simp: in_control_def cleaned_def reaped_completion_def)
next
  case (Some st)
  let ?R = "\<lambda>s. (run_facts m cmd s \<and> looped result s) \<and> rs_status s = Some st"
  have R: "beside ?R" by (intro beside_conj beside_facts beside_looped beside_status)
  show ?thesis
    by (rule holds_attempt, simp only: Some, simp add: cleanup_process_group_def,
        rule holds_bind [OF holds_pre [OF release_phase [OF R, of st]]])
      (auto simp: in_control_def cleaned_def)
qed

lemma aside_call:
  "aside K \<Longrightarrow> holds (\<lambda>s. run_facts m cmd s \<and> K s) (os_call f) (\<lambda>_ s. run_facts m cmd s \<and> K s) E"
  by (rule holds_os_call) (auto simp: aside_def control_def)

lemma drain_step_holds:
  assumes "aside K"
  shows "holds (\<lambda>s. run_facts m cmd s \<and> K s) (drain_step os deadline) (\<lambda>_ s. run_facts m cmd s \<and> K s)
    (\<lambda>e s. plain_error e \<and> run_facts m cmd s \<and> K s)"
proof -
  note call = aside_call [OF assms]
  show ?thesis
    unfolding drain_step_def now_def
    by (rule holds_bind [OF read_holds [OF assms]], rule holds_bind [OF read_holds [OF assms]],
        rule holds_bind [OF holds_get, where R = "\<lambda>_ s. run_facts m cmd s \<and> K s"], assumption,
        rule holds_cond, rule holds_return, assumption,
        rule holds_bind [OF call], rule holds_cond, rule holds_return, assumption,
        rule holds_bind [where R = "\<lambda>_ s. run_facts m cmd s \<and> K s"],
        rule holds_if, rule wait_holds [OF assms])
      auto
qed

lemma drain_loop_holds:
  assumes "aside K"
  shows "holds (\<lambda>s. run_facts m cmd s \<and> K s) (drain_streams_after_reap os) (\<lambda>_ s. run_facts m cmd s \<and> K s)
    (\<lambda>e s. plain_error e \<and> run_facts m cmd s \<and> K s)"
proof -
  let ?I = "\<lambda>s. run_facts m cmd s \<and> K s"
  have loop: "holds ?I (drain_loop os deadline) (\<lambda>_. ?I) (\<lambda>e s. plain_error e \<and> ?I s)" for deadline
  proof (rule holds_loop)
    define ending :: "(command_error + unit) \<times> command_state \<Rightarrow> bool"
      where "ending y = (case fst y of Inr _ \<Rightarrow> ?I (snd y) | Inl e \<Rightarrow> plain_error e \<and> ?I (snd y))" for y
    fix s y
    assume *: "drain_loop os deadline s = Some y" and "?I s"
    have "os = os \<longrightarrow> ?I s \<longrightarrow> ending y"
    proof (rule drain_loop.raw_induct [where P = "\<lambda>os1 deadline s y. os1 = os \<longrightarrow> ?I s \<longrightarrow> ending y", OF _ *])
      fix f os1 deadline s y
      assume IH: "\<And>os1 deadline s y. f os1 deadline s = Some y \<Longrightarrow> os1 = os \<longrightarrow> ?I s \<longrightarrow> ending y"
        and eq: "(case drain_step os1 deadline s of None \<Rightarrow> None | Some (Inl e, s1) \<Rightarrow> Some (Inl e, s1)
          | Some (Inr over, s1) \<Rightarrow> if over then Some (Inr (), s1) else f os1 deadline s1) = Some y"
      show "os1 = os \<longrightarrow> ?I s \<longrightarrow> ending y"
      proof (intro impI)
        assume "os1 = os" and inv: "?I s"
        from eq obtain r s1 where step: "drain_step os deadline s = Some (r, s1)"
          using \<open>os1 = os\<close> by (cases "drain_step os1 deadline s") auto
        note step_holds = drain_step_holds [OF assms, of m cmd os deadline]
        from eq \<open>os1 = os\<close> step IH [of os deadline s1 y]
          holds_Inl [OF step_holds inv, of _ s1] holds_Inr [OF step_holds inv, of _ s1]
        show "ending y" by (cases r) (auto simp: ending_def split: if_splits)
      qed
    qed
    with \<open>?I s\<close> show "case fst y of Inr a \<Rightarrow> ?I (snd y) | Inl e \<Rightarrow> plain_error e \<and> ?I (snd y)"
      by (simp add: ending_def)
  qed
  note call = aside_call [OF assms]
  show ?thesis
    unfolding drain_streams_after_reap_def now_def by (rule holds_bind [OF call], rule loop)
qed

text \<open>How a run ends: with an outcome, or with an error.\<close>

definition completed :: "nat \<Rightarrow> process_command \<Rightarrow> command_outcome \<Rightarrow> command_state \<Rightarrow> bool" where
  "completed m cmd outcome s \<longleftrightarrow>
     run_facts m cmd s \<and> released (co_status outcome) s
     \<and> outcome = command_outcome_of s (co_status outcome)
     \<and> streams_done s \<and> rs_stream_error s = None \<and> \<not> rs_cancelled s \<and> \<not> rs_output_incomplete s"

definition failed_run :: "nat \<Rightarrow> process_command \<Rightarrow> command_failure \<Rightarrow> command_state \<Rightarrow> bool" where
  "failed_run m cmd f s \<longleftrightarrow> (\<exists>e. f = CommandFailed e \<and> left_run e s) \<and> run_facts m cmd s"

definition reconciled_state :: "nat \<Rightarrow> process_command \<Rightarrow> command_state \<Rightarrow> bool" where
  "reconciled_state m cmd s \<longleftrightarrow>
     run_facts m cmd s \<and> (\<exists>st. rs_status s = Some st \<and> released st s)
     \<and> (streams_done s \<or> rs_cancelled s \<or> rs_output_incomplete s)"

lemma answer_holds: "holds (reconciled_state m cmd) command_answer (completed m cmd) (failed_run m cmd)"
  unfolding command_answer_def
  by (rule holds_bind [OF holds_get, where R = "\<lambda>t s. reconciled_state m cmd s \<and> t = s"], simp)
    (auto simp: holds_def lo_defs reconciled_state_def completed_def failed_run_def left_run_def command_outcome_of_def
      split: option.splits if_splits)

lemma drain_holds:
  "holds (\<lambda>s. run_facts m cmd s \<and> looped result s \<and> cleaned r s)
     (lo_map_err CommandFailed (lo_if (isl result \<and> reaped_by_cleanup r) (drain_streams_after_reap os)))
     (\<lambda>_ s. run_facts m cmd s \<and> looped result s \<and> cleaned r s) (failed_run m cmd)"
proof (rule holds_map_err, rule holds_if)
  assume "isl result \<and> reaped_by_cleanup r"
  then obtain e st b where e: "result = Inl e" and r: "r = Inr (CompletionReaped st b)"
    by (cases result) (auto simp: reaped_by_cleanup_def split: sum.splits command_cleanup_completion.splits)
  let ?K = "\<lambda>s. plain_error e \<and> rs_status s = None \<and> released st s"
  have "aside ?K" by (auto simp: aside_def control_def released_def started_def)
  from drain_loop_holds [OF this, of m cmd os]
  show "holds (\<lambda>s. run_facts m cmd s \<and> looped result s \<and> cleaned r s) (drain_streams_after_reap os)
      (\<lambda>_ s. run_facts m cmd s \<and> looped result s \<and> cleaned r s) (\<lambda>e. failed_run m cmd (CommandFailed e))"
    by (rule holds_mono) (auto simp: e r looped_def cleaned_def failed_run_def left_run_def)
qed simp

lemma reconcile_cases:
  assumes "looped result s" "cleaned r s"
    and "reconcile_control_and_cleanup result r (rs_cancelled s) (streams_done s) = rec"
  shows "rec = Inl e \<Longrightarrow> left_run e s"
    and "rec = Inr None \<Longrightarrow> \<exists>st. rs_status s = Some st \<and> released st s"
    and "rec = Inr (Some st) \<Longrightarrow> released st s"
    and "rec = Inr x \<Longrightarrow> streams_done s \<or> rs_cancelled s \<or> rs_output_incomplete s"
  using assms
  by (auto simp: reconcile_control_and_cleanup_def looped_def cleaned_def left_run_def loop_over_def
      split: sum.splits command_cleanup_completion.splits if_splits)

lemma settle_holds:
  "holds (\<lambda>s. run_facts m cmd s \<and> in_control s \<and> looped result s) (settle_command os result)
     (completed m cmd) (failed_run m cmd)"
proof -
  let ?C = "\<lambda>r s. run_facts m cmd s \<and> looped result s \<and> cleaned r s"
  let ?R = "\<lambda>r s. reconcile_control_and_cleanup result r (rs_cancelled s) (streams_done s)"
  have result: "holds (\<lambda>s. ?C r s \<and> ?R r s = rec) (lo_map_err CommandFailed (lo_result rec))
      (\<lambda>x s. ?C r s \<and> ?R r s = Inr x) (failed_run m cmd)" for r rec
    by (rule holds_map_err, rule holds_result) (auto simp: failed_run_def dest: reconcile_cases(1))
  have update: "holds (\<lambda>s. ?C r s \<and> ?R r s = Inr x) (lo_if (x \<noteq> None) (lo_update (\<lambda>s. s\<lparr>rs_status := x\<rparr>)))
      (\<lambda>_. reconciled_state m cmd) (failed_run m cmd)" for r x
  proof (rule holds_if)
    assume "x \<noteq> None"
    then obtain st where x: "x = Some st" by blast
    show "holds (\<lambda>s. ?C r s \<and> ?R r s = Inr x) (lo_update (\<lambda>s. s\<lparr>rs_status := x\<rparr>))
        (\<lambda>_. reconciled_state m cmd) (failed_run m cmd)"
      by (rule holds_update) (auto simp: x reconciled_state_def released_def streams_done_def
          dest: reconcile_cases(3,4) [unfolded released_def streams_done_def])
  next
    assume "\<not> x \<noteq> None"
    then show "\<forall>s. ?C r s \<and> ?R r s = Inr x \<longrightarrow> reconciled_state m cmd s"
      by (auto simp: reconciled_state_def dest: reconcile_cases(2,4))
  qed
  have reconcile: "holds (?C r) (lo_bind (lo_get (?R r)) (\<lambda>reconciled.
      lo_bind (lo_map_err CommandFailed (lo_result reconciled)) (\<lambda>x.
      lo_bind (lo_if (x \<noteq> None) (lo_update (\<lambda>s. s\<lparr>rs_status := x\<rparr>))) (\<lambda>_. command_answer))))
      (completed m cmd) (failed_run m cmd)" for r
    by (rule holds_bind [OF holds_get, where R = "\<lambda>rec s. ?C r s \<and> ?R r s = rec"], simp,
        rule holds_bind [OF result], rule holds_bind [OF update], rule answer_holds)
  show ?thesis
    unfolding settle_command_def
    by (rule holds_bind [OF holds_get, where R = "\<lambda>status s. run_facts m cmd s \<and> in_control s
          \<and> looped result s \<and> rs_status s = status"], simp,
        rule holds_bind [OF cleanup_holds], rule holds_bind [OF drain_holds], rule reconcile)
qed

section \<open>The whole run\<close>

definition ends_run :: "nat \<Rightarrow> process_command \<Rightarrow> command_failure + command_outcome \<Rightarrow> command_state \<Rightarrow> bool" where
  "ends_run m cmd r s \<longleftrightarrow>
     (case r of
        Inr outcome \<Rightarrow> completed m cmd outcome s
      | Inl f \<Rightarrow> failed_run m cmd f s \<or> (\<exists>e. f = CommandFailed e \<and> failed_unstarted e s))"

lemma configuring_holds:
  assumes "\<And>s. P s \<Longrightarrow> P (called [] s)"
  shows "holds P (change_flags os) (\<lambda>_. P) (\<lambda>_. P)"
  unfolding change_flags_def
  by (rule holds_map_err, rule holds_bind [OF holds_os_check, where R = "\<lambda>_. P"]) (auto intro!: holds_os_check assms)

lemma run_started_holds:
  assumes "cmd_stdout cmd = StdioPiped" "cmd_stderr cmd = StdioPiped"
  shows "holds (\<lambda>s. run_inv m cmd s \<and> rs_status s = None) (run_started_command os cmd)
    (completed m cmd) (failed_run m cmd)"
proof -
  let ?I = "\<lambda>s. run_inv m cmd s \<and> rs_status s = None"
  have flags: "holds ?I (lo_attempt (lo_bind (change_flags os) (\<lambda>_. change_flags os))) (\<lambda>_. ?I) E"
    for E :: "command_failure \<Rightarrow> _"
    by (rule holds_attempt, rule holds_bind [OF configuring_holds], rule_tac [2] configuring_holds)
      (auto intro: inv_called)
  have loop: "holds ?I (lo_attempt (command_loop os))
      (\<lambda>r s. run_facts m cmd s \<and> in_control s \<and> looped r s) (failed_run m cmd)"
    by (rule holds_attempt, rule holds_mono [OF loop_holds [of m cmd]])
      (auto simp: run_inv_def run_stopped_def between_rounds_def looped_def)
  have R: "beside (\<lambda>s. run_facts m cmd s)" by (rule beside_facts)
  have cleanup: "holds ?I (lo_bind (lo_map_err CommandFailed (cleanup_process_group os CleanupTerminateAndReap))
      (\<lambda>_. lo_fail (CommandFailed (ConfigureOutput source)))) (completed m cmd) (failed_run m cmd)" for source
    by (rule holds_bind [OF holds_map_err [OF holds_mono [OF cleanup_phase [OF R]]],
          where R = "\<lambda>c s. reaped_completion c s \<and> run_facts m cmd s"], rule_tac [4] holds_fail)
      (auto simp: run_inv_def between_rounds_def in_control_def failed_run_def left_run_def reaped_completion_def)
  show ?thesis
    unfolding run_started_command_def
    by (simp only: assms, simp, rule holds_bind [OF flags])
      (auto split: sum.splits intro!: cleanup holds_bind [OF loop] settle_holds)
qed

lemma run_holds:
  "holds (\<lambda>s. s = command_start m) (run_shell_command os H root command)
     (completed m (prepared_command H root command))
     (\<lambda>f s. failed_run m (prepared_command H root command) f s \<or> (\<exists>e. f = CommandFailed e \<and> failed_unstarted e s))"
  unfolding run_shell_command_def
proof (rule holds_bind [OF holds_map_err [OF holds_mono [OF start_holds]]], assumption, assumption)
  fix cmd
  show "holds (\<lambda>s. cmd = prepared_command H root command \<and> run_inv m cmd s \<and> rs_status s = None)
      (run_started_command os cmd) (completed m (prepared_command H root command))
      (\<lambda>f s. failed_run m (prepared_command H root command) f s \<or> (\<exists>e. f = CommandFailed e \<and> failed_unstarted e s))"
  proof (rule holds_known)
    assume cmd: "cmd = prepared_command H root command"
    then have "cmd_stdout cmd = StdioPiped" "cmd_stderr cmd = StdioPiped"
      by (simp_all add: prepared_command_def configured_command_def)
    from run_started_holds [OF this, of m os]
    show "holds (\<lambda>s. run_inv m cmd s \<and> rs_status s = None) (run_started_command os cmd)
        (completed m (prepared_command H root command))
        (\<lambda>f s. failed_run m (prepared_command H root command) f s \<or> (\<exists>e. f = CommandFailed e \<and> failed_unstarted e s))"
      by (rule holds_mono) (auto simp: cmd)
  qed
qed simp

lemma run_ends:
  assumes "run_shell_command os H root command (command_start m) = Some (r, s)"
  shows "ends_run m (prepared_command H root command) r s"
  using assms run_holds [of m os H root command]
  by (cases r) (auto simp: ends_run_def dest: holds_Inr holds_Inl)

end
