(* ===== verification/Command_Ownership.thy ===== *)
theory Command_Ownership
  imports Command_Safety
begin

text \<open>
  The properties of a run of a command (\<open>run_shell_command\<close>): its process group and its slot are owned
  until the leader is reaped, a successful outcome is complete, and what is started is confined.
  \<open>demo_os\<close> is a small operating system on which the witnesses run a command.
\<close>

section \<open>A small operating system\<close>

text \<open>
  Every call succeeds: standard output gives the text hi and ends, standard error ends at once, the
  leader is terminal, the token closes and the status is zero. Calls are made in the order of the
  code, so the first two loads of the flag are the calls 0 and 6.
\<close>

definition demo_os :: command_os where
  "demo_os =
     \<lparr>os_cancelled = (\<lambda>_. False), os_now = (\<lambda>n. n), os_bind_directory = (\<lambda>_. None),
      os_socket_pair = (\<lambda>_. None), os_set_nonblocking = (\<lambda>_. None), os_fcntl = (\<lambda>_. None),
      os_worker_running = (\<lambda>_. True), os_start_worker = (\<lambda>_. None), os_degraded = (\<lambda>_. False),
      os_active_slots = (\<lambda>_. 0), os_slot_exchange = (\<lambda>_. None), os_spawn = (\<lambda>_. Inr 7),
      os_kill = (\<lambda>_. None), os_kill_group = (\<lambda>_. None), os_waitid = (\<lambda>_. Inr True),
      os_waitpid = (\<lambda>_. Inr (Some 0)), os_token_read = (\<lambda>_. Inr 0),
      os_read = (\<lambda>st n. Inr (if st = Stdout \<and> n < 18 then [104, 105] else [])),
      os_poll = (\<lambda>_. None), os_strerror = (\<lambda>_. [])\<rparr>"

definition demo_host :: command_host where
  "demo_host = \<lparr>ch_vars = [(lit ''HOME'', lit ''/h'')], ch_canonical = (\<lambda>_. None),
     ch_canonical_program = (\<lambda>_ _. Inl (io_error_new IoNotFound []))\<rparr>"

text \<open>The calls of the run, one operation after the other.\<close>

lemmas demo_os_simps =
  demo_os_def os_call_def os_check_def emit_def now_def sleep_def lo_bind_def lo_return_def lo_fail_def
  lo_update_def lo_get_def lo_attempt_def lo_map_err_def lo_if_def lo_result_def

lemmas demo_run_simps =
  run_shell_command_def start_command_def check_cancelled_def bind_command_working_directory_def
  descendant_token_prepare_def change_flags_def prepare_command_supervision_def ensure_worker_started_def
  ensure_admission_healthy_def reserve_slot_def reserve_slot_loop.simps MAX_COMMAND_SUPERVISION_SLOTS_def
  spawn_group_def command_start_def called_def run_started_command_def shell_command_def configured_command_def
  command_loop.simps command_tick_def observe_cancellation_def read_available_stream_def
  MAX_STREAM_READS_PER_TICK_def stream_ended_def stream_pushed_def observe_leader_def
  command_leader_terminal_def process_group_id_def child_pid_def waitid_loop.simps
  seal_and_reap_terminal_group_def seal_terminal_process_group_def TERMINAL_GROUP_SEAL_ROUNDS_def
  terminate_signal_compatible_group_after_leader_exit_def terminate_command_group_def kill_wrapper.simps
  wait_for_close_def observe_close_def wait_for_command_group_def waitpid_loop.simps
  streams_done_def settle_command_def cleanup_process_group_def reconcile_control_and_cleanup_def
  command_answer_def command_outcome_of_def

lemmas stream_reads_numeral = stream_reads.simps(2) [of _ _ "pred_numeral k" for k, folded numeral_eq_Suc]

lemmas seal_rounds_numeral = seal_rounds.simps(2) [of _ "pred_numeral k" for k, folded numeral_eq_Suc]

lemma demo_completes:
  "\<exists>outcome s. run_shell_command demo_os H root command (command_start 2) = Some (Inr outcome, s)"
  by (simp add: demo_os_simps demo_run_simps stream_reads_numeral seal_rounds_numeral)

section \<open>Who owns a command\<close>

lemma run_lifecycle:
  assumes "run_shell_command os H root command (command_start m) = Some (r, s)"
  shows "unstarted s \<and> (\<exists>e. r = Inl (CommandFailed e)) \<or> (\<exists>st. released st s) \<and> r \<noteq> Inl CommandPanicked
    \<or> supervised s \<and> (\<exists>message. r = Inl (CommandFailed (TerminationSupervised message)))"
  using run_ends [OF assms]
  by (auto simp: ends_run_def completed_def failed_run_def failed_unstarted_def left_run_def plain_error_def
      split: sum.splits if_splits)

lemma run_accepted:
  assumes "run_shell_command os H root command (command_start m) = Some (r, s)"
  shows "lifecycle_of (ps_trace s) \<noteq> None"
  using run_lifecycle [OF assms] by (auto simp: unstarted_def released_def supervised_def in_phase_def)

text \<open>
  C4. The process group of a command is signalled only between its start and the reaping of its
  leader, and its leader is reaped only after the token of its descendants was seen closed. When a run
  returns, without a panic, either nothing was started, or the leader was reaped and the slot given
  back, or the live command was handed over to the supervisor, which the error says.
\<close>
theorem command_is_owned_until_reaped:
  assumes "run_shell_command os H root command (command_start m) = Some (r, s)"
  shows "(\<forall>pre post. ps_trace s = pre @ GroupSignalled # post \<longrightarrow>
        (\<exists>cmd. Spawned cmd \<in> set pre) \<and> (\<forall>st. LeaderReaped st \<notin> set pre))
    \<and> (\<forall>pre st post. ps_trace s = pre @ LeaderReaped st # post \<longrightarrow> TokenSeenClosed \<in> set pre)
    \<and> r \<noteq> Inl CommandPanicked
    \<and> ((\<forall>cmd. Spawned cmd \<notin> set (ps_trace s))
       \<or> (\<exists>st. LeaderReaped st \<in> set (ps_trace s)) \<and> SlotReleased \<in> set (ps_trace s)
       \<or> HandedOver \<in> set (ps_trace s) \<and> SlotReleased \<notin> set (ps_trace s)
         \<and> (\<exists>message. r = Inl (CommandFailed (TerminationSupervised message))))"
proof -
  have "r \<noteq> Inl CommandPanicked" using run_lifecycle [OF assms] by auto
  moreover have "(\<forall>cmd. Spawned cmd \<notin> set (ps_trace s))
      \<or> (\<exists>st. LeaderReaped st \<in> set (ps_trace s)) \<and> SlotReleased \<in> set (ps_trace s)
      \<or> HandedOver \<in> set (ps_trace s) \<and> SlotReleased \<notin> set (ps_trace s)
        \<and> (\<exists>message. r = Inl (CommandFailed (TerminationSupervised message)))"
    using run_lifecycle [OF assms]
    by (auto simp: unstarted_def released_def supervised_def in_phase_def dest!: lifecycle_history)
  ultimately show ?thesis
    using accepted_signals [OF run_accepted [OF assms]] unfolding signals_in_life_def by blast
qed

theorem command_is_owned_until_reaped_witness:
  "\<exists>r s. run_shell_command demo_os demo_host [RootDir] (lit ''ls'') (command_start 2) = Some (r, s)
    \<and> (\<forall>pre post. ps_trace s = pre @ GroupSignalled # post \<longrightarrow>
        (\<exists>cmd. Spawned cmd \<in> set pre) \<and> (\<forall>st. LeaderReaped st \<notin> set pre))
    \<and> (\<forall>pre st post. ps_trace s = pre @ LeaderReaped st # post \<longrightarrow> TokenSeenClosed \<in> set pre)
    \<and> r \<noteq> Inl CommandPanicked
    \<and> ((\<forall>cmd. Spawned cmd \<notin> set (ps_trace s))
       \<or> (\<exists>st. LeaderReaped st \<in> set (ps_trace s)) \<and> SlotReleased \<in> set (ps_trace s)
       \<or> HandedOver \<in> set (ps_trace s) \<and> SlotReleased \<notin> set (ps_trace s)
         \<and> (\<exists>message. r = Inl (CommandFailed (TerminationSupervised message))))"
proof -
  obtain outcome s where run: "run_shell_command demo_os demo_host [RootDir] (lit ''ls'') (command_start 2)
      = Some (Inr outcome, s)"
    using demo_completes by blast
  from command_is_owned_until_reaped [OF this] run show ?thesis by blast
qed

section \<open>What an outcome is worth\<close>

text \<open>
  C14. The outcome of a command that succeeds is complete: both streams were read to their ends, the
  status is that of the reaped leader, nothing was cancelled, each text is the lossy decoding of the
  first \<open>m\<close> bytes that its stream gave, the counts are those of all bytes, and a stream is marked
  as truncated exactly when it gave more than \<open>m\<close> bytes.
\<close>
theorem successful_output_is_complete:
  assumes "run_shell_command os H root command (command_start m) = Some (Inr outcome, s)"
  shows "LeaderReaped (co_status outcome) \<in> set (ps_trace s)
    \<and> (\<forall>st. StreamEnded st \<in> set (ps_trace s)) \<and> \<not> rs_cancelled s
    \<and> co_stdout outcome = from_utf8_lossy (take m (stream_bytes Stdout (ps_trace s)))
    \<and> co_stderr outcome = from_utf8_lossy (take m (stream_bytes Stderr (ps_trace s)))
    \<and> unat (co_stdout_bytes outcome) = min (2 ^ 64 - 1) (length (stream_bytes Stdout (ps_trace s)))
    \<and> unat (co_stderr_bytes outcome) = min (2 ^ 64 - 1) (length (stream_bytes Stderr (ps_trace s)))
    \<and> co_stdout_truncated outcome = (m < length (stream_bytes Stdout (ps_trace s)))
    \<and> co_stderr_truncated outcome = (m < length (stream_bytes Stderr (ps_trace s)))
    \<and> \<not> co_output_incomplete outcome"
proof -
  from run_ends [OF assms] have completed: "completed m (prepared_command H root command) outcome s"
    by (simp add: ends_run_def)
  then have facts: "captures m (stream_bytes st (ps_trace s)) (rs_capture s st)"
      "StreamEnded st \<in> set (ps_trace s)" for st
    by (cases st; force simp: completed_def run_facts_def streams_done_def)+
  from completed have "outcome = command_outcome_of s (co_status outcome)"
    and "released (co_status outcome) s" "\<not> rs_cancelled s" "\<not> rs_output_incomplete s"
    by (simp_all add: completed_def)
  note outcome = arg_cong [OF this(1)] and released = this(2-4)
  from lifecycle_history [OF released(1) [unfolded released_def]]
  have "LeaderReaped (co_status outcome) \<in> set (ps_trace s)" by blast
  with facts released outcome [of co_stdout] outcome [of co_stderr] outcome [of co_stdout_bytes]
    outcome [of co_stderr_bytes] outcome [of co_stdout_truncated] outcome [of co_stderr_truncated]
    outcome [of co_output_incomplete]
  show ?thesis by (simp add: captures_def captured_text_def command_outcome_of_def)
qed

theorem successful_output_is_complete_witness:
  "\<exists>outcome s. run_shell_command demo_os demo_host [RootDir] (lit ''ls'') (command_start 2)
      = Some (Inr outcome, s)
    \<and> LeaderReaped (co_status outcome) \<in> set (ps_trace s)
    \<and> co_stdout outcome = from_utf8_lossy (take 2 (stream_bytes Stdout (ps_trace s)))
    \<and> co_stdout_truncated outcome = (2 < length (stream_bytes Stdout (ps_trace s)))"
proof -
  obtain outcome s where run: "run_shell_command demo_os demo_host [RootDir] (lit ''ls'') (command_start 2)
      = Some (Inr outcome, s)"
    using demo_completes by blast
  from successful_output_is_complete [OF this] run show ?thesis by blast
qed

section \<open>What is started\<close>

text \<open>
  C11. The only process a run starts is the shell with the command line: bound to the workspace, unable
  to gain privileges, tracked by its token, without standard input, in an environment that keeps variables of the agent
  but none that \<open>hazardous_name\<close> lists, and with a search path that is safe.
\<close>
theorem started_command_is_confined:
  assumes "run_shell_command os H root command (command_start m) = Some (r, s)"
    and "Spawned cmd \<in> set (ps_trace s)"
  shows "cmd_program cmd = lit ''/bin/sh'' \<and> cmd_args cmd = [lit ''-c'', command]
    \<and> cmd_in_workspace cmd \<and> cmd_no_new_privs cmd \<and> cmd_token cmd \<and> cmd_stdin cmd = StdioNull
    \<and> (\<forall>key v. cmd_env cmd key = Some v \<longrightarrow> key \<noteq> lit ''PATH'' \<longrightarrow>
        (key, v) \<in> set (ch_vars H) \<and> harmless key v)
    \<and> (\<forall>v. cmd_env cmd (lit ''PATH'') = Some v \<longrightarrow>
        safe_search_path (ch_canonical H) (ch_canonical_program H) root LOW_RISK_EXTERNAL_PROGRAMS
          (map_of (ch_vars H) (lit ''PATH'')) v)"
proof -
  from run_ends [OF assms(1)] assms(2) have cmd: "cmd = prepared_command H root command"
    by (auto simp: ends_run_def completed_def failed_run_def failed_unstarted_def unstarted_def run_facts_def
        split: sum.splits)
  have env: "cmd_env cmd = configure_command_environment (ch_canonical H) (ch_canonical_program H) (ch_vars H) root
      (map_of (ch_vars H) (lit ''PATH'')) LOW_RISK_EXTERNAL_PROGRAMS (map_of (ch_vars H))"
    by (simp add: cmd prepared_command_def configured_command_def shell_command_def)
  show ?thesis
    using environment_harmless [OF env] environment_path [OF env]
    by (simp add: cmd prepared_command_def configured_command_def shell_command_def)
qed

theorem started_command_is_confined_witness:
  "\<exists>r s cmd. run_shell_command demo_os demo_host [RootDir] (lit ''ls'') (command_start 2) = Some (r, s)
    \<and> Spawned cmd \<in> set (ps_trace s)
    \<and> cmd_program cmd = lit ''/bin/sh'' \<and> cmd_args cmd = [lit ''-c'', lit ''ls'']
    \<and> cmd_in_workspace cmd \<and> cmd_no_new_privs cmd \<and> cmd_token cmd \<and> cmd_stdin cmd = StdioNull"
proof -
  obtain outcome s where run: "run_shell_command demo_os demo_host [RootDir] (lit ''ls'') (command_start 2)
      = Some (Inr outcome, s)"
    using demo_completes by blast
  then have "\<exists>st. released st s"
    using run_ends by (fastforce simp: ends_run_def completed_def)
  then obtain cmd where "Spawned cmd \<in> set (ps_trace s)"
    by (auto simp: released_def dest!: lifecycle_history)
  with started_command_is_confined [OF run] run show ?thesis by blast
qed

end
