(* ===== verification/Command_Prompt.thy ===== *)
theory Command_Prompt
  imports Command_Ownership
begin

text \<open>
  Every operation of a run but its loop returns, on an operating system where no call is interrupted
  for ever and the clock advances: \<open>prompt_os\<close>, which also says that either a cancellation stays
  requested or the leader comes to its end. \<open>Command_Return\<close> draws the conclusion for the loop.
\<close>

section \<open>The operating system\<close>

definition again_and_again :: "(nat \<Rightarrow> bool) \<Rightarrow> bool" where
  "again_and_again P \<longleftrightarrow> (\<forall>n. \<exists>k \<ge> n. P k)"

definition prompt_os :: "command_os \<Rightarrow> bool" where
  "prompt_os os \<longleftrightarrow>
     again_and_again (\<lambda>k. \<forall>e. os_kill os k = Some e \<longrightarrow> io_kind e \<noteq> IoInterrupted)
     \<and> again_and_again (\<lambda>k. os_kill_group os k \<noteq> Some ERRNO_INTR)
     \<and> again_and_again (\<lambda>k. os_waitid os k \<noteq> Inl ERRNO_INTR)
     \<and> again_and_again (\<lambda>k. os_waitpid os k \<notin> {Inl ERRNO_INTR, Inr None})
     \<and> again_and_again (\<lambda>k. os_slot_exchange os k = None)
     \<and> (\<forall>t. \<exists>n. \<forall>k \<ge> n. t \<le> os_now os k)
     \<and> ((\<exists>n. \<forall>k \<ge> n. os_cancelled os k) \<or> (\<exists>n. \<forall>k \<ge> n. os_waitid os k \<noteq> Inr False))"

lemma prompt_clock:
  assumes "prompt_os os"
  obtains n where "\<forall>k \<ge> n. t \<le> os_now os k"
  using assms unfolding prompt_os_def by blast

definition total_op :: "('e, 's, 'a) loop_op \<Rightarrow> bool" where
  "total_op m \<longleftrightarrow> (\<forall>s. m s \<noteq> None)"

named_theorems total_rules \<open>operations that return from every state\<close>

lemma total_basic [total_rules]:
  "total_op (lo_return a)" "total_op (lo_fail e)" "total_op (lo_result r)" "total_op (lo_get f)"
  "total_op (lo_update g)" "total_op (os_call h)" "total_op (os_check k)" "total_op (emit ev)"
  by (simp_all add: total_op_def lo_defs os_call_def os_check_def emit_def)

lemma total_bind [total_rules]: "total_op m \<Longrightarrow> (\<And>a. total_op (f a)) \<Longrightarrow> total_op (lo_bind m f)"
  by (auto simp: total_op_def lo_bind_def split: option.splits sum.splits)

lemma total_attempt [total_rules]: "total_op m \<Longrightarrow> total_op (lo_attempt m)"
  by (simp add: total_op_def lo_attempt_def)

lemma total_map_err [total_rules]: "total_op m \<Longrightarrow> total_op (lo_map_err g m)"
  by (simp add: total_op_def lo_map_err_def)

lemma total_if [total_rules]: "(b \<Longrightarrow> total_op m) \<Longrightarrow> total_op (lo_if b m)"
  by (simp add: lo_if_def total_basic)

lemma total_cond [total_rules]: "(b \<Longrightarrow> total_op m) \<Longrightarrow> (\<not> b \<Longrightarrow> total_op n) \<Longrightarrow> total_op (if b then m else n)"
  by simp

text \<open>A loop that goes on with the next call returns if it stops at one of the calls to come.\<close>

lemma retry_returns:
  fixes f :: "('e, 's process_state_scheme, 'a) loop_op"
  assumes stops: "again_and_again P"
    and stop: "\<And>s. P (ps_calls s) \<Longrightarrow> f s \<noteq> None"
    and again: "\<And>s. f s \<noteq> None \<or> (\<exists>evs. f s = f (called evs s))"
  shows "total_op f"
  unfolding total_op_def
proof
  fix s :: "'s process_state_scheme"
  from stops obtain k where "k \<ge> ps_calls s" "P k" by (auto simp: again_and_again_def)
  then show "f s \<noteq> None"
  proof (induction "k - ps_calls s" arbitrary: s)
    case 0
    with stop [of s] show ?case by simp
  next
    case (Suc d)
    from again [of s] show ?case
    proof
      assume "\<exists>evs. f s = f (called evs s)"
      then obtain evs where evs: "f s = f (called evs s)" by blast
      from Suc have "f (called evs s) \<noteq> None" by (intro Suc.hyps(1)) auto
      with evs show ?thesis by simp
    qed
  qed
qed

lemma prompt_kill:
  assumes "prompt_os os"
  shows "total_op (kill_wrapper os)"
proof (rule retry_returns)
  show "again_and_again (\<lambda>k. \<forall>e. os_kill os k = Some e \<longrightarrow> io_kind e \<noteq> IoInterrupted)"
    using assms by (simp add: prompt_os_def)
next
  fix s :: "'s process_state_scheme"
  note step = kill_wrapper.simps [of os s]
  show "(\<lambda>k. \<forall>e. os_kill os k = Some e \<longrightarrow> io_kind e \<noteq> IoInterrupted) (ps_calls s) \<Longrightarrow> kill_wrapper os s \<noteq> None"
    "kill_wrapper os s \<noteq> None \<or> (\<exists>evs. kill_wrapper os s = kill_wrapper os (called evs s))"
    using step by (auto split: option.splits)
qed

lemma prompt_kill_group:
  assumes "prompt_os os"
  shows "total_op (kill_group_loop os)"
proof (rule retry_returns)
  show "again_and_again (\<lambda>k. os_kill_group os k \<noteq> Some ERRNO_INTR)"
    using assms by (simp add: prompt_os_def)
next
  fix s :: "'s process_state_scheme"
  note step = kill_group_loop.simps [of os s]
  show "(\<lambda>k. os_kill_group os k \<noteq> Some ERRNO_INTR) (ps_calls s) \<Longrightarrow> kill_group_loop os s \<noteq> None"
    "kill_group_loop os s \<noteq> None \<or> (\<exists>evs. kill_group_loop os s = kill_group_loop os (called evs s))"
    using step by (auto split: option.splits)
qed

lemma prompt_waitid:
  assumes "prompt_os os"
  shows "total_op (waitid_loop os)"
proof (rule retry_returns)
  show "again_and_again (\<lambda>k. os_waitid os k \<noteq> Inl ERRNO_INTR)"
    using assms by (simp add: prompt_os_def)
next
  fix s :: "'s process_state_scheme"
  note step = waitid_loop.simps [of os s]
  show "(\<lambda>k. os_waitid os k \<noteq> Inl ERRNO_INTR) (ps_calls s) \<Longrightarrow> waitid_loop os s \<noteq> None"
    "waitid_loop os s \<noteq> None \<or> (\<exists>evs. waitid_loop os s = waitid_loop os (called evs s))"
    using step by (auto split: sum.splits)
qed

lemma prompt_waitpid:
  assumes "prompt_os os"
  shows "total_op (waitpid_loop os)"
proof (rule retry_returns)
  show "again_and_again (\<lambda>k. os_waitpid os k \<notin> {Inl ERRNO_INTR, Inr None})"
    using assms by (simp add: prompt_os_def)
next
  fix s :: "'s process_state_scheme"
  note step = waitpid_loop.simps [of os s]
  show "(\<lambda>k. os_waitpid os k \<notin> {Inl ERRNO_INTR, Inr None}) (ps_calls s) \<Longrightarrow> waitpid_loop os s \<noteq> None"
    "waitpid_loop os s \<noteq> None \<or> (\<exists>evs. waitpid_loop os s = waitpid_loop os (called evs s))"
    using step by (auto split: sum.splits option.splits)
qed

lemma prompt_reserve:
  assumes "prompt_os os"
  shows "total_op (reserve_slot_loop os active)"
  unfolding total_op_def
proof
  fix s :: "'s process_state_scheme"
  from assms have "again_and_again (\<lambda>k. os_slot_exchange os k = None)" by (simp add: prompt_os_def)
  then obtain k where "k \<ge> ps_calls s" "os_slot_exchange os k = None"
    unfolding again_and_again_def by blast
  then show "reserve_slot_loop os active s \<noteq> None"
  proof (induction "k - ps_calls s" arbitrary: s active)
    case 0
    then show ?case using reserve_slot_loop.simps [of os active s] by simp
  next
    case (Suc d)
    then have "reserve_slot_loop os a (called [] s) \<noteq> None" for a by (intro Suc.hyps(1)) auto
    then show ?case using reserve_slot_loop.simps [of os active s] by (auto split: option.splits)
  qed
qed

section \<open>The process group\<close>

lemma total_observe: "total_op (observe_close os)"
  unfolding observe_close_def
  by (auto intro!: total_rules split: sum.splits)

lemma prompt_close_loop:
  assumes "prompt_os os"
  shows "total_op (wait_for_close_loop os deadline)"
  unfolding total_op_def
proof
  fix s :: "'s process_state_scheme"
  from prompt_clock [OF assms, of deadline] obtain n where n: "\<forall>k \<ge> n. deadline \<le> os_now os k" .
  show "wait_for_close_loop os deadline s \<noteq> None"
  proof (induction "n - ps_calls s" arbitrary: s rule: less_induct)
    case less
    have "wait_for_close_loop os deadline (called [Waited d] (called [] s)) \<noteq> None" if "ps_calls s < n" for d
      by (rule less) (use that in auto)
    moreover have "observe_close os t \<noteq> None" for t :: "'s process_state_scheme"
      by (rule total_observe [unfolded total_op_def, THEN spec])
    ultimately show ?case
      using wait_for_close_loop.simps [of os deadline s] n
      by (cases "n \<le> ps_calls s") (auto split: option.splits)
  qed
qed

lemma prompt_leader: "prompt_os os \<Longrightarrow> total_op (command_leader_terminal os)"
  unfolding command_leader_terminal_def process_group_id_def
  by (intro total_rules prompt_waitid)

lemma leader_later:
  "holds (\<lambda>s. n \<le> ps_calls s) (command_leader_terminal os) (\<lambda>_ s. n \<le> ps_calls s) (\<lambda>_ s. n \<le> ps_calls s)"
proof -
  have "holds (\<lambda>s. n \<le> ps_calls s) (waitid_loop os)
      (\<lambda>b. if b then (\<lambda>s. n \<le> ps_calls s) else (\<lambda>s. n \<le> ps_calls s))
      (\<lambda>e s. plain_error e \<and> n \<le> ps_calls s)"
    by (rule holds_waitid_loop) auto
  then have "holds (\<lambda>s. n \<le> ps_calls s) (waitid_loop os) (\<lambda>_ s. n \<le> ps_calls s) (\<lambda>_ s. n \<le> ps_calls s)"
    by (rule holds_mono) (auto split: if_splits)
  then show ?thesis
    unfolding command_leader_terminal_def process_group_id_def
    by (intro holds_bind [OF holds_bind [OF holds_get holds_result], where R = "\<lambda>_ s. n \<le> ps_calls s"]) auto
qed

lemma prompt_leader_loop:
  assumes "prompt_os os"
  shows "total_op (leader_wait_loop os t0 grace i)"
  unfolding total_op_def
proof
  fix s :: "'s process_state_scheme"
  from prompt_clock [OF assms, of "t0 + grace"] obtain n where n: "\<forall>k \<ge> n. t0 + grace \<le> os_now os k" .
  show "leader_wait_loop os t0 grace i s \<noteq> None"
  proof (induction "n - ps_calls s" arbitrary: s i rule: less_induct)
    case less
    obtain r s1 where leader: "command_leader_terminal os s = Some (r, s1)"
      using prompt_leader [OF assms] by (metis total_op_def option.exhaust surj_pair)
    have later: "ps_calls s \<le> ps_calls s1"
      using leader holds_Inr [OF leader_later, of "ps_calls s" s os _ s1]
        holds_Inl [OF leader_later, of "ps_calls s" s os _ s1] by (cases r) auto
    have "leader_wait_loop os t0 grace (min (i * 2) (milliseconds 10)) (called [Waited i] s1) \<noteq> None"
      if "ps_calls s1 < n"
      by (rule less) (use that later in auto)
    moreover have "grace \<le> os_now os (ps_calls s1) - t0" if "n \<le> ps_calls s1"
      using n that by (metis add.commute le_diff_conv2 le_trans le_add1)
    ultimately show ?case
      using leader_wait_loop.simps [of os t0 grace i s] leader
      by (cases "n \<le> ps_calls s1"; cases r) (auto split: if_splits)
  qed
qed

lemma prompt_terminate: "prompt_os os \<Longrightarrow> total_op (terminate_command_group os)"
  unfolding terminate_command_group_def kill_process_group_by_id_def
  by (auto intro!: total_rules prompt_kill prompt_kill_group split: sum.splits)

lemma prompt_wait_leader: "prompt_os os \<Longrightarrow> total_op (wait_for_leader_terminal_bounded os grace)"
  unfolding wait_for_leader_terminal_bounded_def now_def
  by (intro total_rules prompt_leader_loop)

lemma prompt_reap:
  assumes "prompt_os os"
  shows "total_op (seal_and_reap_terminal_group os)"
proof -
  have close: "total_op (wait_for_close os t)" for t
    unfolding wait_for_close_def now_def
    by (intro total_rules total_observe prompt_close_loop [OF assms])
  have kill: "total_op (terminate_signal_compatible_group_after_leader_exit os)"
    unfolding terminate_signal_compatible_group_after_leader_exit_def
    by (auto intro!: total_rules prompt_terminate assms split: sum.splits)
  have "total_op (seal_rounds os n)" for n
    by (induction n) (auto intro!: total_rules close kill)
  then show ?thesis
    unfolding seal_and_reap_terminal_group_def seal_terminal_process_group_def wait_for_command_group_def
      process_group_id_def
    by (intro total_rules prompt_waitpid [OF assms])
qed

lemma prompt_cleanup:
  assumes "prompt_os os"
  shows "total_op (cleanup_process_group os state)"
proof -
  have supervise: "total_op (supervise_live_command os e w)" for e w
    unfolding supervise_live_command_def Let_def ensure_worker_started_def
    by (auto intro!: total_rules)
  have "total_op (reap_after_termination os first)" for first
    unfolding reap_after_termination_def
    by (auto intro!: total_rules prompt_reap [OF assms] supervise split: sum.splits)
  then show ?thesis
    unfolding cleanup_process_group_def Let_def
    by (auto intro!: total_rules prompt_terminate [OF assms] prompt_wait_leader [OF assms] supervise
        split: sum.splits command_cleanup_state.splits)
qed

section \<open>The rounds\<close>

lemma total_reads: "total_op (read_available_stream os st)"
proof -
  have "total_op (stream_reads os st n p)" for n p
    by (induction n arbitrary: p) (auto intro!: total_rules split: sum.splits)
  then show ?thesis unfolding read_available_stream_def by (intro total_rules)
qed

lemma total_wait: "total_op (wait_for_stream_activity os i)"
  unfolding wait_for_stream_activity_def by (auto intro!: total_rules split: option.splits)

lemma prompt_observe_cancellation: "prompt_os os \<Longrightarrow> total_op (observe_cancellation os)"
  unfolding observe_cancellation_def cancel_command_def now_def
  by (intro total_rules prompt_terminate prompt_wait_leader prompt_reap)

lemma prompt_observe_leader: "prompt_os os \<Longrightarrow> total_op (observe_leader os)"
  unfolding observe_leader_def
  by (intro total_rules prompt_leader prompt_reap)

lemma total_forced: "total_op (forced_drain_over os)"
  unfolding forced_drain_over_def now_def by (auto intro!: total_rules split: option.splits)

lemma total_watch: "total_op (watch_drain os)"
  unfolding watch_drain_def now_def by (auto intro!: total_rules split: option.splits)

lemma prompt_tick: "prompt_os os \<Longrightarrow> total_op (command_tick os)"
  unfolding command_tick_def
  by (intro total_rules prompt_observe_cancellation prompt_observe_leader total_reads total_forced total_watch
      total_wait)

end
