(* ===== verification/Command_Return.thy ===== *)
theory Command_Return
  imports Command_Prompt
begin

text \<open>
  The loop of a run ends: each round either ends it, moves it to a later stage, or leaves the instant
  that bounds its stage, so a run returns on every prompt operating system.
\<close>

section \<open>The view of a round\<close>

text \<open>What a round changes besides its streams, from the call \<open>n\<close> on.\<close>

type_synonym round_view = "exit_status option \<times> bool \<times> nat option \<times> bool \<times> nat option"

definition view_of :: "command_state \<Rightarrow> round_view" where
  "view_of s = (rs_status s, rs_leader_terminal s, rs_drain_started_at s, rs_cancelled s, rs_forced_at s)"

text \<open>The process group leaves the view alone.\<close>

definition same_view :: "nat \<Rightarrow> (round_view \<Rightarrow> bool) \<Rightarrow> command_state \<Rightarrow> bool" where
  "same_view n V s \<longleftrightarrow> n \<le> ps_calls s \<and> ps_token s \<noteq> None \<and> V (view_of s)"

lemma view_called [simp]: "view_of (called evs s) = view_of s"
  by (simp add: view_of_def)

lemma view_emitted [simp]:
  "view_of (s\<lparr>ps_trace := trace\<rparr>) = view_of s" "view_of (s\<lparr>ps_token := token\<rparr>) = view_of s"
  "view_of (s\<lparr>rs_exit_poll_interval := i\<rparr>) = view_of s" "view_of (s\<lparr>rs_output_incomplete := b\<rparr>) = view_of s"
  "view_of (stream_ended st s) = view_of s" "view_of (stream_pushed st bs s) = view_of s"
  "view_of (stream_failed st source s) = view_of s"
  by (simp_all add: view_of_def stream_ended_def stream_pushed_def stream_failed_def)

interpretation view: process_phases "same_view n V" "same_view n V" "same_view n V" "same_view n V"
    "\<lambda>_. same_view n V" for n V
  by unfold_locales (auto simp: same_view_def)

lemma view_streams: "keeps (same_view n V) (read_available_stream os st)"
proof -
  have "keeps (same_view n V) (stream_reads os st k p)" for k p
    by (induction k arbitrary: p)
      (auto intro!: keeps_rules keeps_os_call lo_keeps_emit split: sum.splits simp: same_view_def,
       auto simp: stream_ended_def stream_pushed_def stream_failed_def)
  then show ?thesis unfolding read_available_stream_def by (intro keeps_rules)
qed

lemma view_wait: "keeps (same_view n V) (wait_for_stream_activity os i)"
  unfolding wait_for_stream_activity_def
  by (auto intro!: keeps_rules keeps_os_call lo_keeps_emit split: option.splits simp: same_view_def)

section \<open>Progress\<close>

definition always_requested :: "command_os \<Rightarrow> nat \<Rightarrow> bool" where
  "always_requested os n \<longleftrightarrow> (\<forall>k \<ge> n. os_cancelled os k)"

definition always_terminal :: "command_os \<Rightarrow> nat \<Rightarrow> bool" where
  "always_terminal os n \<longleftrightarrow> (\<forall>k \<ge> n. os_waitid os k \<noteq> Inr False)"

definition grace_over :: "command_os \<Rightarrow> nat \<Rightarrow> nat \<Rightarrow> bool" where
  "grace_over os n t \<longleftrightarrow> (\<forall>k \<ge> n. t + OUTPUT_DRAIN_GRACE \<le> os_now os k)"

abbreviation is_view :: "nat \<Rightarrow> round_view \<Rightarrow> command_state \<Rightarrow> bool" where
  "is_view n v \<equiv> same_view n (\<lambda>w. w = v)"

lemma holds_absurd: "(\<And>s. P s \<Longrightarrow> False) \<Longrightarrow> holds P m Q E"
  by (auto simp: holds_def)

lemma holds_call_at: "(\<And>s. P s \<Longrightarrow> Q (f (ps_calls s)) (called [] s)) \<Longrightarrow> holds P (os_call f) Q E"
  by (simp add: holds_def os_call_def)

lemma view_call: "holds (same_view n V) (os_call f) (\<lambda>_. same_view n V) E"
  by (rule holds_os_call) (simp add: same_view_def)

abbreviation leads :: "('s \<Rightarrow> bool) \<Rightarrow> ('e, 's, 'a) loop_op \<Rightarrow> ('a \<Rightarrow> 's \<Rightarrow> bool) \<Rightarrow> bool" where
  "leads P m Q \<equiv> holds P m Q (\<lambda>_ _. True)"

lemma leads_same:
  "leads (same_view n V) (terminate_command_group os) (\<lambda>_. same_view n V)"
  "leads (same_view n V) (wait_for_leader_terminal_bounded os grace) (\<lambda>_. same_view n V)"
  "leads (same_view n V) (seal_and_reap_terminal_group os) (\<lambda>_. same_view n V)"
  "leads (same_view n V) (os_call f) (\<lambda>_. same_view n V)"
  by (rule holds_mono [OF view.terminates(1) [where n = n and V = V]], simp_all,
      rule holds_mono [OF view.leader_wait [where n = n and V = V and A = "same_view n V" and B = "same_view n V"]],
      simp_all, rule holds_mono [OF view.seal_and_reap [where n = n and V = V]], simp_all add: view_call)

lemma leads_reap:
  "leads (same_view n (\<lambda>v. fst v = None \<and> V (snd v)))
     (lo_bind (seal_and_reap_terminal_group os) (\<lambda>st. lo_update (\<lambda>s. s\<lparr>rs_status := Some st\<rparr>)))
     (\<lambda>_. same_view n (\<lambda>v. fst v \<noteq> None \<and> V (snd v)))"
  by (rule holds_bind [OF leads_same(3)], rule holds_update) (simp add: same_view_def view_of_def)

lemma view_cancel:
  "leads (is_view n (st, lt, d, c, f)) (cancel_command os)
     (\<lambda>_. same_view n (\<lambda>v. \<exists>st1 t. v = (st1, lt, d, True, Some t) \<and> (st \<noteq> None \<longrightarrow> st1 \<noteq> None)))"
proof -
  let ?V = "\<lambda>v. \<exists>st1. v = (st1, lt, d, True, f) \<and> (st \<noteq> None \<longrightarrow> st1 \<noteq> None)"
  have reap: "leads (same_view n ?V) (lo_bind (seal_and_reap_terminal_group os) (\<lambda>st.
      lo_update (\<lambda>s. s\<lparr>rs_status := Some st\<rparr>))) (\<lambda>_. same_view n ?V)"
    by (rule holds_bind [OF leads_same(3)], rule holds_update) (auto simp: same_view_def view_of_def)
  have kill: "leads (same_view n ?V) (lo_bind (terminate_command_group os) (\<lambda>_.
      lo_bind (wait_for_leader_terminal_bounded os TERMINATION_CONFIRM_GRACE) (\<lambda>terminal.
      lo_if terminal (lo_bind (seal_and_reap_terminal_group os) (\<lambda>st.
        lo_update (\<lambda>s. s\<lparr>rs_status := Some st\<rparr>)))))) (\<lambda>_. same_view n ?V)"
    by (rule holds_bind [OF leads_same(1)], rule holds_bind [OF leads_same(2)], rule holds_if, rule reap, simp)
  have mark: "leads (is_view n (st, lt, d, c, f)) (lo_update (\<lambda>s. s\<lparr>rs_cancelled := True\<rparr>)) (\<lambda>_. same_view n ?V)"
    by (rule holds_update) (auto simp: same_view_def view_of_def)
  have ask: "leads (same_view n ?V) (lo_get rs_status) (\<lambda>_. same_view n ?V)" by (rule holds_get)
  have stamp: "leads (same_view n ?V) (lo_bind (os_call (os_now os)) (\<lambda>t. lo_update (\<lambda>s. s\<lparr>rs_forced_at := Some t\<rparr>)))
      (\<lambda>_. same_view n (\<lambda>v. \<exists>st1 t. v = (st1, lt, d, True, Some t) \<and> (st \<noteq> None \<longrightarrow> st1 \<noteq> None)))"
    by (rule holds_bind [OF leads_same(4)], rule holds_update) (auto simp: same_view_def view_of_def)
  have act: "leads (same_view n ?V) (lo_if b (lo_bind (terminate_command_group os) (\<lambda>_.
      lo_bind (wait_for_leader_terminal_bounded os TERMINATION_CONFIRM_GRACE) (\<lambda>terminal.
      lo_if terminal (lo_bind (seal_and_reap_terminal_group os) (\<lambda>st.
        lo_update (\<lambda>s. s\<lparr>rs_status := Some st\<rparr>))))))) (\<lambda>_. same_view n ?V)" for b
    by (rule holds_if [OF kill]) simp
  show ?thesis
    unfolding cancel_command_def now_def     by (rule holds_bind [OF mark], rule holds_bind [OF ask], rule holds_bind [OF act], rule stamp)
qed

lemma view_observe_cancellation:
  "leads (is_view n (st, lt, d, c, f)) (observe_cancellation os)
     (\<lambda>_. same_view (n + 1) (\<lambda>v. v = (st, lt, d, c, f) \<and> (c \<or> \<not> always_requested os n)
        \<or> (\<exists>st1 t. v = (st1, lt, d, True, Some t) \<and> \<not> c \<and> (st \<noteq> None \<longrightarrow> st1 \<noteq> None))))"
  (is "holds _ _ (\<lambda>_. ?Q) _")
proof -
  let ?R = "\<lambda>b s. is_view (n + 1) (st, lt, d, c, f) s \<and> (b \<or> \<not> always_requested os n)"
  have cancel: "leads (is_view (n + 1) (st, lt, d, c, f)) (cancel_command os) (\<lambda>_. ?Q)" if "\<not> c"
    by (rule holds_post [OF view_cancel]) (use that in \<open>auto simp: same_view_def\<close>)
  have branch: "leads (\<lambda>s. ?R b s \<and> rs_cancelled s = b1) (lo_if (b \<and> \<not> b1) (cancel_command os)) (\<lambda>_. ?Q)"
    for b b1
  proof (cases "b1 = c")
    case True
    show ?thesis
    proof (rule holds_if)
      assume "b \<and> \<not> b1"
      with True have "\<not> c" by simp
      show "leads (\<lambda>s. ?R b s \<and> rs_cancelled s = b1) (cancel_command os) (\<lambda>_. ?Q)"
        by (rule holds_pre [OF cancel [OF \<open>\<not> c\<close>]]) simp
    qed (use True in \<open>auto simp: same_view_def\<close>)
  next
    case False
    then show ?thesis by (intro holds_absurd) (auto simp: same_view_def view_of_def)
  qed
  have call: "leads (is_view n (st, lt, d, c, f)) (os_call (os_cancelled os)) ?R"
    by (rule holds_call_at) (auto simp: same_view_def always_requested_def)
  show ?thesis
    unfolding observe_cancellation_def
    by (rule holds_bind [OF call], rule holds_bind [OF holds_get]) (rule conjI, assumption, rule refl, rule branch)
qed

lemma waitid_answers:
  assumes "waitid_loop os s = Some (Inr False, s1)" "always_terminal os n" "n \<le> ps_calls s"
  shows False
proof -
  have "os = os \<longrightarrow> n \<le> ps_calls s \<longrightarrow> fst (Inr False, s1) \<noteq> (Inr False :: command_error + bool)"
    by (rule waitid_loop.raw_induct
        [where P = "\<lambda>os1 s y. os1 = os \<longrightarrow> n \<le> ps_calls s \<longrightarrow> fst y \<noteq> (Inr False :: command_error + bool)", OF _ assms(1)])
      (use assms(2) in \<open>auto simp: always_terminal_def split: sum.splits if_splits\<close>)
  with assms(3) show False by simp
qed

lemma view_leader:
  "holds (same_view n V) (command_leader_terminal os) (\<lambda>b s. same_view n V s \<and> (always_terminal os n \<longrightarrow> b)) (\<lambda>_ _. True)"
proof (rule holdsI)
  fix s b s1
  assume s: "same_view n V s" and leader: "command_leader_terminal os s = Some (Inr b, s1)"
  have "same_view n V s1"
    using holds_Inr [OF view.leader [where n = n and V = V and A = "same_view n V" and B = "same_view n V"] s leader] by simp
  moreover have "b" if "always_terminal os n"
  proof (rule ccontr)
    assume "\<not> b"
    with leader have "waitid_loop os s = Some (Inr False, s1)"
      by (auto simp: command_leader_terminal_def process_group_id_def lo_bind_def lo_get_def lo_result_def
          split: sum.splits)
    from waitid_answers [OF this that] s show False by (simp add: same_view_def)
  qed
  ultimately show "same_view n V s1 \<and> (always_terminal os n \<longrightarrow> b)" by blast
qed simp

text \<open>From a state with one of several views.\<close>

lemma leads_view:
  assumes "\<And>v. V v \<Longrightarrow> leads (is_view n v) m Q"
  shows "leads (same_view n V) m Q"
proof (rule holdsI)
  fix s a s1
  assume "same_view n V s" and run: "m s = Some (Inr a, s1)"
  then have "V (view_of s)" and "is_view n (view_of s) s" by (simp_all add: same_view_def)
  from holds_Inr [OF assms [OF this(1)] this(2) run] show "Q a s1" .
qed simp

lemma view_observe_leader:
  "leads (is_view n (st, lt, d, c, f)) (observe_leader os)
     (\<lambda>_. same_view n (\<lambda>w. \<exists>st1 lt1. w = (st1, lt1, d, c, f) \<and> (st \<noteq> None \<longrightarrow> st1 = st)
        \<and> (always_terminal os n \<longrightarrow> st1 \<noteq> None)))"
  (is "leads _ _ (\<lambda>_. same_view n ?W)")
proof -
  let ?V = "\<lambda>w. \<exists>lt1. w = (st, lt1, d, c, f) \<and> (st = None \<longrightarrow> always_terminal os n \<longrightarrow> lt1)"
  have look: "leads (is_view n (st, lt, d, c, f)) (lo_bind (command_leader_terminal os) (\<lambda>terminal.
      lo_update (\<lambda>s. s\<lparr>rs_leader_terminal := terminal\<rparr>))) (\<lambda>_. same_view n ?V)"
    by (rule holds_bind [OF view_leader], rule holds_update) (auto simp: same_view_def view_of_def)
  have first: "leads (\<lambda>s. is_view n (st, lt, d, c, f) s \<and> b = (st = None \<and> \<not> lt))
      (lo_if b (lo_bind (command_leader_terminal os) (\<lambda>terminal.
        lo_update (\<lambda>s. s\<lparr>rs_leader_terminal := terminal\<rparr>)))) (\<lambda>_. same_view n ?V)" for b
    by (rule holds_if, rule holds_pre [OF look]) (auto simp: same_view_def)
  have reap: "leads (same_view n ?V) (lo_bind (seal_and_reap_terminal_group os) (\<lambda>st.
      lo_update (\<lambda>s. s\<lparr>rs_status := Some st\<rparr>))) (\<lambda>_. same_view n (\<lambda>w. fst w \<noteq> None \<and> (\<exists>lt1. snd w = (lt1, d, c, f))))"
    by (rule holds_bind [OF leads_same(3)], rule holds_update) (auto simp: same_view_def view_of_def)
  have second: "leads (\<lambda>s. same_view n ?V s \<and> b = (rs_status s = None \<and> rs_leader_terminal s))
      (lo_if b (lo_bind (seal_and_reap_terminal_group os) (\<lambda>st. lo_update (\<lambda>s. s\<lparr>rs_status := Some st\<rparr>))))
      (\<lambda>_. same_view n ?W)" for b
  proof (cases "st = None")
    case True
    show ?thesis
      by (rule holds_if, rule holds_mono [OF reap]) (use True in \<open>auto simp: same_view_def view_of_def\<close>)
  next
    case False
    show ?thesis
    proof (cases b)
      case True
      with False show ?thesis by (intro holds_absurd) (auto simp: same_view_def view_of_def)
    next
      case b: False
      show ?thesis
        by (rule holds_if) (use b False in \<open>auto simp: same_view_def\<close>)
    qed
  qed
  have ask: "leads (is_view n (st, lt, d, c, f)) (lo_get (\<lambda>s. rs_status s = None \<and> \<not> rs_leader_terminal s))
      (\<lambda>b s. is_view n (st, lt, d, c, f) s \<and> b = (st = None \<and> \<not> lt))"
    by (rule holds_get) (auto simp: same_view_def view_of_def)
  have ask2: "leads (same_view n ?V) (lo_get (\<lambda>s. rs_status s = None \<and> rs_leader_terminal s))
      (\<lambda>b s. same_view n ?V s \<and> b = (rs_status s = None \<and> rs_leader_terminal s))"
    by (rule holds_get) simp
  show ?thesis
    unfolding observe_leader_def
    by (rule holds_bind [OF ask], rule holds_bind [OF first], rule holds_bind [OF ask2], rule second)
qed

lemma view_forced:
  "leads (is_view n (st, lt, d, c, f)) (forced_drain_over os)
     (\<lambda>b s. is_view n (st, lt, d, c, f) s \<and> ((\<exists>t. f = Some t \<and> grace_over os n t) \<longrightarrow> b))"
proof -
  have look: "leads (is_view n (st, lt, d, c, f1)) (lo_bind (os_call (os_now os)) (\<lambda>t. lo_return (OUTPUT_DRAIN_GRACE \<le> t - i)))
      (\<lambda>b s. is_view n (st, lt, d, c, f1) s \<and> (grace_over os n i \<longrightarrow> b))" for i f1
    by (rule holds_bind [OF holds_call_at, where R = "\<lambda>t s. is_view n (st, lt, d, c, f1) s
          \<and> (grace_over os n i \<longrightarrow> i + OUTPUT_DRAIN_GRACE \<le> t)"])
      (auto simp: same_view_def grace_over_def)
  have ask: "leads (is_view n (st, lt, d, c, f)) (lo_get rs_forced_at) (\<lambda>x s. x = f \<and> is_view n (st, lt, d, c, f) s)"
    by (rule holds_get) (simp add: same_view_def view_of_def)
  show ?thesis
    unfolding forced_drain_over_def now_def
    by (rule holds_bind [OF ask], rule holds_known)
      (cases f; simp; rule look holds_return; simp)
qed

text \<open>The instants after \<open>watch_drain\<close>.\<close>

definition drained :: "command_os \<Rightarrow> nat \<Rightarrow> round_view \<Rightarrow> round_view \<Rightarrow> bool" where
  "drained os n v w \<longleftrightarrow>
     (case v of (st, lt, d, c, f) \<Rightarrow>
        if f = None \<and> st \<noteq> None then
          \<exists>i f1. w = (st, lt, Some i, c, f1) \<and> (d \<noteq> None \<longrightarrow> d = Some i) \<and> (f1 = None \<longrightarrow> \<not> grace_over os n i)
        else w = (st, lt, None, c, f))"

lemma view_watch:
  "leads (is_view n (st, lt, d, c, f)) (watch_drain os) (\<lambda>_. same_view n (drained os n (st, lt, d, c, f)))"
proof -
  let ?v = "(st, lt, d, c, f)"
  have ask: "leads (is_view n ?v) (lo_get (\<lambda>s. rs_forced_at s = None \<and> rs_status s \<noteq> None))
      (\<lambda>b s. b = (f = None \<and> st \<noteq> None) \<and> is_view n ?v s)"
    by (rule holds_get) (auto simp: same_view_def view_of_def)
  have start: "leads (\<lambda>s. d1 = d \<and> is_view n ?v s) (case d1 of Some t \<Rightarrow> lo_return t | None \<Rightarrow> now os)
      (\<lambda>i s. (d \<noteq> None \<longrightarrow> d = Some i) \<and> is_view n ?v s)" for d1
    by (rule holds_known) (cases d; auto simp: now_def intro!: holds_return holds_post [OF leads_same(4)])
  have note_start: "leads (\<lambda>s. (d \<noteq> None \<longrightarrow> d = Some i) \<and> is_view n ?v s)
      (lo_update (\<lambda>s. s\<lparr>rs_drain_started_at := Some i\<rparr>))
      (\<lambda>_ s. (d \<noteq> None \<longrightarrow> d = Some i) \<and> is_view n (st, lt, Some i, c, f) s)" for i
    by (rule holds_update) (auto simp: same_view_def view_of_def)
  have look: "leads (\<lambda>s. (d \<noteq> None \<longrightarrow> d = Some i) \<and> is_view n (st, lt, Some i, c, f) s) (os_call (os_now os))
      (\<lambda>t s. (d \<noteq> None \<longrightarrow> d = Some i) \<and> (grace_over os n i \<longrightarrow> OUTPUT_DRAIN_GRACE \<le> t - i)
         \<and> is_view n (st, lt, Some i, c, f) s)" for i
    by (rule holds_call_at) (auto simp: same_view_def grace_over_def)
  have force: "leads (\<lambda>s. (d \<noteq> None \<longrightarrow> d = Some i) \<and> is_view n (st, lt, Some i, c, f) s)
      (lo_bind (lo_update (\<lambda>s. s\<lparr>rs_output_incomplete := True\<rparr>)) (\<lambda>_. lo_bind (os_call (os_now os))
        (\<lambda>t1. lo_update (\<lambda>s. s\<lparr>rs_forced_at := Some t1\<rparr>))))
      (\<lambda>_ s. same_view n (\<lambda>w. \<exists>f1. w = (st, lt, Some i, c, f1) \<and> f1 \<noteq> None) s \<and> (d \<noteq> None \<longrightarrow> d = Some i))" for i
    by (rule holds_bind [OF holds_update, where R = "\<lambda>_ s. (d \<noteq> None \<longrightarrow> d = Some i) \<and> is_view n (st, lt, Some i, c, f) s"],
        simp add: same_view_def,
        rule holds_bind [OF holds_call_at, where R = "\<lambda>_ s. (d \<noteq> None \<longrightarrow> d = Some i) \<and> is_view n (st, lt, Some i, c, f) s"])
      (auto simp: same_view_def view_of_def intro!: holds_update)
  have finish: "leads (\<lambda>s. (d \<noteq> None \<longrightarrow> d = Some i) \<and> (grace_over os n i \<longrightarrow> b) \<and> is_view n (st, lt, Some i, c, f) s)
      (lo_if b (lo_bind (lo_update (\<lambda>s. s\<lparr>rs_output_incomplete := True\<rparr>)) (\<lambda>_. lo_bind (os_call (os_now os))
        (\<lambda>t1. lo_update (\<lambda>s. s\<lparr>rs_forced_at := Some t1\<rparr>)))))
      (\<lambda>_. same_view n (drained os n ?v))" if "f = None \<and> st \<noteq> None" for i b
    by (rule holds_if, rule holds_mono [OF force [of i]])
      (use that in \<open>auto simp: same_view_def drained_def\<close>)
  have other: "leads (is_view n ?v) (lo_update (\<lambda>s. s\<lparr>rs_drain_started_at := None\<rparr>)) (\<lambda>_. same_view n (drained os n ?v))"
    if "\<not> (f = None \<and> st \<noteq> None)"
    by (rule holds_update) (use that in \<open>auto simp: same_view_def view_of_def drained_def\<close>)
  have seen: "leads (is_view n ?v) (lo_get rs_drain_started_at) (\<lambda>d1 s. d1 = d \<and> is_view n ?v s)"
    by (rule holds_get) (auto simp: same_view_def view_of_def)
  show ?thesis
    unfolding watch_drain_def
  proof (rule holds_bind [OF ask], rule holds_known, rule holds_cond)
    fix b
    assume "b = (f = None \<and> st \<noteq> None)" b
    then have fs: "f = None \<and> st \<noteq> None" by simp
    show "leads (is_view n ?v) (lo_bind (lo_get rs_drain_started_at) (\<lambda>drain_started_at.
        lo_bind (case drain_started_at of Some t \<Rightarrow> lo_return t | None \<Rightarrow> now os) (\<lambda>started.
        lo_bind (lo_update (\<lambda>s. s\<lparr>rs_drain_started_at := Some started\<rparr>)) (\<lambda>_.
        lo_bind (now os) (\<lambda>t. lo_if (OUTPUT_DRAIN_GRACE \<le> t - started)
          (lo_bind (lo_update (\<lambda>s. s\<lparr>rs_output_incomplete := True\<rparr>)) (\<lambda>_.
           lo_bind (now os) (\<lambda>t1. lo_update (\<lambda>s. s\<lparr>rs_forced_at := Some t1\<rparr>)))))))))
        (\<lambda>_. same_view n (drained os n ?v))"
      unfolding now_def
      by (rule holds_bind [OF seen], rule holds_bind [OF start [unfolded now_def]], rule holds_bind [OF note_start],
          rule holds_bind [OF look], rule finish [OF fs])
  qed (rule other, simp)
qed

section \<open>Stages\<close>

text \<open>
  The stage of a view goes down to zero: the command runs, its leader is reaped and its streams drain,
  the time of the drain was over, it was cancelled. Each stage but the first has an instant that bounds it.
\<close>

fun round_stage :: "round_view \<Rightarrow> nat" where
  "round_stage (st, lt, d, c, f) =
     (if f \<noteq> None then if c then 0 else 1 else if st \<noteq> None \<and> d \<noteq> None then 2 else 3)"

fun round_instant :: "round_view \<Rightarrow> nat option" where
  "round_instant (st, lt, d, c, f) = (if f \<noteq> None then f else if st \<noteq> None then d else None)"

definition stage_over :: "command_os \<Rightarrow> nat \<Rightarrow> nat option \<Rightarrow> bool" where
  "stage_over os n instant \<longleftrightarrow>
     (case instant of
        Some i \<Rightarrow> grace_over os n i
      | None \<Rightarrow> always_requested os n \<or> always_terminal os n)"

fun cancelled_is_forced :: "round_view \<Rightarrow> bool" where
  "cancelled_is_forced (st, lt, d, c, f) = (c \<longrightarrow> f \<noteq> None)"

definition moves_on :: "command_os \<Rightarrow> nat \<Rightarrow> round_view \<Rightarrow> round_view \<Rightarrow> bool" where
  "moves_on os n v w \<longleftrightarrow> cancelled_is_forced w
     \<and> (round_stage w < round_stage v
        \<or> round_stage w = round_stage v \<and> round_instant w = round_instant v
          \<and> \<not> stage_over os n (round_instant v))"

lemma later_simps:
  "grace_over os n i \<Longrightarrow> n \<le> k \<Longrightarrow> grace_over os k i"
  "always_requested os n \<Longrightarrow> n \<le> k \<Longrightarrow> always_requested os k"
  "always_terminal os n \<Longrightarrow> n \<le> k \<Longrightarrow> always_terminal os k"
  by (simp_all add: grace_over_def always_requested_def always_terminal_def)

lemma stage_over_later: "stage_over os n i \<Longrightarrow> n \<le> k \<Longrightarrow> stage_over os k i"
  by (auto simp: stage_over_def later_simps split: option.splits)

text \<open>A round whose view changes as the three observations change it.\<close>

lemma round_moves:
  assumes ok: "cancelled_is_forced (st, lt, d, c, f)"
    and cancel: "(st0, lt0, d0, c0, f0) = (st, lt, d, c, f) \<and> (c \<or> \<not> always_requested os n)
        \<or> (\<exists>t. (lt0, d0, c0, f0) = (lt, d, True, Some t) \<and> \<not> c \<and> (st \<noteq> None \<longrightarrow> st0 \<noteq> None))"
    and leader: "st0 \<noteq> None \<longrightarrow> st1 = st0" "always_terminal os (n + 1) \<longrightarrow> st1 \<noteq> None"
    and forced: "\<not> (\<exists>t. f0 = Some t \<and> grace_over os (n + 1) t)"
    and drained: "drained os (n + 1) (st1, lt1, d0, c0, f0) w"
  shows "moves_on os n (st, lt, d, c, f) w"
proof -
  have later: "grace_over os n i \<Longrightarrow> grace_over os (n + 1) i" "always_terminal os n \<Longrightarrow> always_terminal os (n + 1)" for i
    by (simp_all add: later_simps)
  show ?thesis
    using assms later
    by (cases f; cases st; cases d; cases st1; cases f0; cases c)
      (auto simp: moves_on_def drained_def stage_over_def split: if_splits)
qed

lemma leads_streams: "leads (same_view n V) (read_available_stream os st) (\<lambda>_. same_view n V)"
  by (rule holds_mono [OF keeps_holds [OF view_streams]]; simp)

text \<open>A round after the leader was observed.\<close>

definition round_end :: "command_os \<Rightarrow> bool \<Rightarrow> (command_error, command_state, bool) loop_op" where
  "round_end os idle =
     lo_bind (lo_get (\<lambda>s. rs_status s \<noteq> None \<and> streams_done s)) (\<lambda>finished.
     if finished then lo_return True
     else lo_bind (forced_drain_over os) (\<lambda>over.
       if over then lo_return True
       else lo_bind (watch_drain os) (\<lambda>_.
            lo_bind (lo_if idle
              (lo_bind (lo_get rs_exit_poll_interval) (\<lambda>interval.
               lo_bind (wait_for_stream_activity os interval) (\<lambda>_.
               lo_update (\<lambda>s. s\<lparr>rs_exit_poll_interval :=
                 next_exit_poll_interval (rs_exit_poll_interval s) False\<rparr>))))) (\<lambda>_.
            lo_return False))))"

lemma view_round_end:
  "leads (is_view n (st, lt, d, c, f)) (round_end os idle)
     (\<lambda>finished s. finished \<or> \<not> (\<exists>t. f = Some t \<and> grace_over os n t)
        \<and> same_view n (drained os n (st, lt, d, c, f)) s)"
  (is "leads ?P _ ?Q")
proof -
  let ?D = "same_view n (drained os n (st, lt, d, c, f))"
  have wait: "leads ?D (lo_bind (lo_get rs_exit_poll_interval) (\<lambda>interval.
      lo_bind (wait_for_stream_activity os interval) (\<lambda>_. lo_update (\<lambda>s. s\<lparr>rs_exit_poll_interval :=
        next_exit_poll_interval (rs_exit_poll_interval s) False\<rparr>)))) (\<lambda>_. ?D)"
    by (rule holds_bind [OF holds_get, where R = "\<lambda>_. ?D"], assumption,
        rule holds_bind [OF holds_mono [OF keeps_holds [OF view_wait]]], assumption, assumption, simp,
        rule holds_update) (simp add: same_view_def)
  have rest: "leads (\<lambda>s. is_view n (st, lt, d, c, f) s \<and> \<not> (\<exists>t. f = Some t \<and> grace_over os n t))
      (lo_bind (watch_drain os) (\<lambda>_. lo_bind (lo_if idle (lo_bind (lo_get rs_exit_poll_interval) (\<lambda>interval.
        lo_bind (wait_for_stream_activity os interval) (\<lambda>_. lo_update (\<lambda>s. s\<lparr>rs_exit_poll_interval :=
          next_exit_poll_interval (rs_exit_poll_interval s) False\<rparr>))))) (\<lambda>_. lo_return False))) ?Q"
  proof (cases "\<exists>t. f = Some t \<and> grace_over os n t")
    case True
    then show ?thesis by (intro holds_absurd) simp
  next
    case False
    show ?thesis
      by (rule holds_bind [OF holds_pre [OF view_watch]], erule conjunct1,
          rule holds_bind [OF holds_if [OF wait]], simp, rule holds_return) (use False in simp)
  qed
  have "leads ?P (lo_bind (forced_drain_over os) (\<lambda>over. if over then lo_return True
      else lo_bind (watch_drain os) (\<lambda>_. lo_bind (lo_if idle (lo_bind (lo_get rs_exit_poll_interval) (\<lambda>interval.
        lo_bind (wait_for_stream_activity os interval) (\<lambda>_. lo_update (\<lambda>s. s\<lparr>rs_exit_poll_interval :=
          next_exit_poll_interval (rs_exit_poll_interval s) False\<rparr>))))) (\<lambda>_. lo_return False)))) ?Q"
    by (rule holds_bind [OF view_forced], rule holds_cond, rule holds_return, simp, rule holds_pre [OF rest]) auto
  then show ?thesis
    unfolding round_end_def
    by (intro holds_bind [OF holds_get, where R = "\<lambda>_. ?P"] holds_cond holds_return) auto
qed

text \<open>What the leader may have become.\<close>

definition leader_seen :: "command_os \<Rightarrow> nat \<Rightarrow> round_view \<Rightarrow> round_view \<Rightarrow> bool" where
  "leader_seen os n v w \<longleftrightarrow>
     snd (snd w) = snd (snd v) \<and> (fst v \<noteq> None \<longrightarrow> fst w = fst v) \<and> (always_terminal os n \<longrightarrow> fst w \<noteq> None)"

lemma leads_leader: "leads (is_view n v) (observe_leader os) (\<lambda>_. same_view n (leader_seen os n v))"
  by (cases v) (simp, rule holds_post [OF view_observe_leader], auto simp: same_view_def leader_seen_def)

lemma tick_moves:
  assumes "cancelled_is_forced v"
  shows "leads (is_view n v) (command_tick os) (\<lambda>finished s. finished \<or> same_view (n + 1) (moves_on os n v) s)"
proof -
  obtain st lt d c f where v: "v = (st, lt, d, c, f)" by (cases v)
  let ?A = "\<lambda>w. w = (st, lt, d, c, f) \<and> (c \<or> \<not> always_requested os n)
        \<or> (\<exists>st1 t. w = (st1, lt, d, True, Some t) \<and> \<not> c \<and> (st \<noteq> None \<longrightarrow> st1 \<noteq> None))"
  let ?Q = "\<lambda>finished s. finished \<or> same_view (n + 1) (moves_on os n v) s"
  note moves = round_moves [OF assms [unfolded v]]
  have ending: "leads (same_view (n + 1) (leader_seen os (n + 1) w)) (round_end os idle) ?Q" if w: "?A w" for w idle
  proof (rule leads_view)
    fix w1
    assume seen: "leader_seen os (n + 1) w w1"
    obtain st0 lt0 d0 c0 f0 where w0: "w = (st0, lt0, d0, c0, f0)" by (cases w)
    with seen obtain st1 lt1 where w1: "w1 = (st1, lt1, d0, c0, f0)"
      by (cases w1) (simp add: leader_seen_def)
    show "leads (is_view (n + 1) w1) (round_end os idle) ?Q"
      unfolding w1
    proof (rule holds_post [OF view_round_end])
      fix finished s
      assume "finished \<or> \<not> (\<exists>t. f0 = Some t \<and> grace_over os (n + 1) t)
        \<and> same_view (n + 1) (drained os (n + 1) (st1, lt1, d0, c0, f0)) s"
      then show "?Q finished s"
        using seen w moves [where w = "view_of s" and n = n and os = os and ?st1.0 = st1 and ?lt1.0 = lt1
            and ?st0.0 = st0 and ?lt0.0 = lt0 and ?d0.0 = d0 and ?c0.0 = c0 and ?f0.0 = f0]
        by (auto simp: same_view_def v w0 w1 leader_seen_def)
    qed
  qed
  have middle: "leads (same_view (n + 1) ?A) (lo_bind (observe_leader os) (\<lambda>_. round_end os idle)) ?Q" for idle
    by (rule leads_view, rule holds_bind [OF leads_leader], rule ending)
  have poll: "leads (same_view (n + 1) ?A) (lo_if b (lo_update (\<lambda>s.
      s\<lparr>rs_exit_poll_interval := next_exit_poll_interval (rs_exit_poll_interval s) True\<rparr>))) (\<lambda>_. same_view (n + 1) ?A)" for b
    by (rule holds_if, rule holds_update) (simp_all add: same_view_def)
  show ?thesis
    unfolding command_tick_def v round_end_def [symmetric]
    by (rule holds_bind [OF view_observe_cancellation], rule holds_bind [OF leads_streams],
        rule holds_bind [OF leads_streams], rule holds_bind [OF poll], rule middle [unfolded v])
qed

section \<open>The loops\<close>

lemma stage_ends:
  assumes "prompt_os os"
  obtains n where "stage_over os n i"
proof (cases i)
  case None
  from assms obtain n where "always_requested os n \<or> always_terminal os n"
    unfolding prompt_os_def always_requested_def always_terminal_def by blast
  with None show ?thesis by (auto intro: that simp: stage_over_def)
next
  case (Some t)
  from prompt_clock [OF assms] obtain n where "\<forall>k \<ge> n. t + OUTPUT_DRAIN_GRACE \<le> os_now os k" by blast
  with Some show ?thesis by (auto intro: that simp: stage_over_def grace_over_def)
qed

lemma tick_result:
  assumes "prompt_os os" "ps_token s \<noteq> None" "cancelled_is_forced (view_of s)"
  obtains e s1 where "command_tick os s = Some (Inl e, s1)"
  | s1 where "command_tick os s = Some (Inr True, s1)"
  | s1 where "command_tick os s = Some (Inr False, s1)" "ps_calls s < ps_calls s1" "ps_token s1 \<noteq> None"
      "moves_on os (ps_calls s) (view_of s) (view_of s1)"
proof -
  obtain r s1 where tick: "command_tick os s = Some (r, s1)"
    using prompt_tick [OF assms(1)] by (metis total_op_def option.exhaust surj_pair)
  show thesis
  proof (cases r)
    case (Inl e)
    with tick that(1) show ?thesis by blast
  next
    case (Inr finished)
    have "is_view (ps_calls s) (view_of s) s" using assms(2) by (simp add: same_view_def)
    from holds_Inr [OF tick_moves [OF assms(3)] this tick [unfolded Inr]] tick Inr that(2,3)
    show ?thesis by (cases finished) (auto simp: same_view_def)
  qed
qed

lemma loop_returns:
  assumes "prompt_os os" "ps_token s \<noteq> None" "cancelled_is_forced (view_of s)"
  shows "command_loop os s \<noteq> None"
  using assms(2,3)
proof (induction "round_stage (view_of s)" arbitrary: s rule: less_induct)
  case less
  obtain n where n: "stage_over os n (round_instant (view_of s))" by (rule stage_ends [OF assms(1)])
  have "command_loop os t \<noteq> None"
    if "round_stage (view_of t) = round_stage (view_of s)" "round_instant (view_of t) = round_instant (view_of s)"
      "ps_token t \<noteq> None" "cancelled_is_forced (view_of t)" for t
    using that
  proof (induction "n - ps_calls t" arbitrary: t rule: less_induct)
    case inner: less
    show ?case
    proof (rule tick_result [OF assms(1) inner.prems(3,4)])
      fix s1
      assume tick: "command_tick os t = Some (Inr False, s1)" and calls: "ps_calls t < ps_calls s1"
        and s1: "ps_token s1 \<noteq> None" and moves: "moves_on os (ps_calls t) (view_of t) (view_of s1)"
      then have ok: "cancelled_is_forced (view_of s1)" by (simp add: moves_on_def)
      have "command_loop os s1 \<noteq> None"
      proof (cases "round_stage (view_of s1) < round_stage (view_of s)")
        case True
        from less.hyps [OF this s1 ok] show ?thesis .
      next
        case False
        with moves inner.prems have same: "round_stage (view_of s1) = round_stage (view_of s)"
          "round_instant (view_of s1) = round_instant (view_of s)"
          and before: "\<not> stage_over os (ps_calls t) (round_instant (view_of s))"
          by (auto simp: moves_on_def)
        from before have "ps_calls t < n"
          by (rule contrapos_np) (rule stage_over_later [OF n], simp)
        with calls have "n - ps_calls s1 < n - ps_calls t" by simp
        from inner.hyps [OF this same s1 ok] show ?thesis .
      qed
      with tick show ?thesis by (simp add: command_loop.simps [of os t])
    qed (simp_all add: command_loop.simps [of os t])
  qed
  from this [OF refl refl less.prems] show ?case .
qed

text \<open>The drain after a cleanup ends with its deadline.\<close>

definition from_call :: "nat \<Rightarrow> 's process_state_scheme \<Rightarrow> bool" where
  "from_call n s \<longleftrightarrow> n \<le> ps_calls s"

lemma from_call_called [simp]: "from_call n s \<Longrightarrow> from_call n (called evs s)"
  by (simp add: from_call_def)

lemma from_call_streams: "keeps (from_call n) (read_available_stream os st)"
proof -
  have "keeps (from_call n) (stream_reads os st k p)" for k p
    by (induction k arbitrary: p)
      (auto intro!: keeps_rules keeps_os_call lo_keeps_emit split: sum.splits
        simp: from_call_def stream_ended_def stream_pushed_def stream_failed_def)
  then show ?thesis unfolding read_available_stream_def by (intro keeps_rules)
qed

lemma from_call_wait: "keeps (from_call n) (wait_for_stream_activity os i)"
  unfolding wait_for_stream_activity_def
  by (auto intro!: keeps_rules keeps_os_call lo_keeps_emit split: option.splits simp: from_call_def)

lemma drain_step_later:
  "leads (from_call n) (drain_step os deadline)
     (\<lambda>finished s. finished \<or> from_call (n + 1) s \<and> \<not> (\<forall>k \<ge> n. deadline \<le> os_now os k))"
  (is "leads _ _ ?Q")
proof -
  note same = holds_mono [OF keeps_holds, of "from_call k" _ "from_call k" "\<lambda>_. from_call k" "\<lambda>_ _. True" for k]
  have wait: "leads (from_call (n + 1)) (wait_for_stream_activity os i) (\<lambda>_. from_call (n + 1))" for i
    by (rule same [OF from_call_wait]) auto
  have read: "leads (from_call n) (read_available_stream os st) (\<lambda>_. from_call n)" for st
    by (rule same [OF from_call_streams]) auto
  have clock: "leads (from_call n) (os_call (os_now os))
      (\<lambda>t s. from_call (n + 1) s \<and> ((\<forall>k \<ge> n. deadline \<le> os_now os k) \<longrightarrow> deadline \<le> t))"
    by (rule holds_call_at) (auto simp: from_call_def)
  have ending: "leads (\<lambda>s. from_call (n + 1) s \<and> ((\<forall>k \<ge> n. deadline \<le> os_now os k) \<longrightarrow> deadline \<le> t))
      (if deadline \<le> t then lo_return True
       else lo_bind (lo_if idle (wait_for_stream_activity os i)) (\<lambda>_. lo_return False)) ?Q" for t idle i
  proof (cases "deadline \<le> t")
    case False
    show ?thesis
    proof (cases "\<forall>k \<ge> n. deadline \<le> os_now os k")
      case True
      with False show ?thesis by (intro holds_absurd) simp
    next
      case late: False
      have "leads (from_call (n + 1)) (lo_bind (lo_if idle (wait_for_stream_activity os i)) (\<lambda>_. lo_return False)) ?Q"
        by (rule holds_bind [OF holds_if [OF wait]], simp, rule holds_return) (use late in simp)
      then show ?thesis by (simp only: False if_False) (rule holds_pre, assumption, simp)
    qed
  qed (auto intro!: holds_return)
  show ?thesis
    unfolding drain_step_def now_def
    by (rule holds_bind [OF read], rule holds_bind [OF read],
        rule holds_bind [OF holds_get, where R = "\<lambda>_. from_call n"], assumption,
        rule holds_cond, rule holds_return, simp, rule holds_bind [OF clock], rule ending)
qed

lemma total_drain_step: "total_op (drain_step os deadline)"
  unfolding drain_step_def now_def
  by (intro total_rules total_reads total_wait)

lemma prompt_drain:
  assumes "prompt_os os"
  shows "total_op (drain_streams_after_reap os)"
proof -
  have loop: "drain_loop os deadline s \<noteq> None" for deadline s
  proof -
    from prompt_clock [OF assms] obtain n where n: "\<forall>k \<ge> n. deadline \<le> os_now os k" by blast
    show ?thesis
    proof (induction "n - ps_calls s" arbitrary: s rule: less_induct)
      case less
      obtain r s1 where step: "drain_step os deadline s = Some (r, s1)"
        using total_drain_step by (metis total_op_def option.exhaust surj_pair)
      have "drain_loop os deadline s1 \<noteq> None" if "r = Inr False"
      proof -
        have "from_call (ps_calls s) s" by (simp add: from_call_def)
        from holds_Inr [OF drain_step_later this step [unfolded that]]
        have "ps_calls s < ps_calls s1" and "\<not> (\<forall>k \<ge> ps_calls s. deadline \<le> os_now os k)"
          by (simp_all add: from_call_def)
        moreover from this(2) n have "ps_calls s < n" by (meson le_trans not_le)
        ultimately show ?thesis by (intro less) simp
      qed
      then show ?case
        using drain_loop.simps [of os deadline s] step by (cases r) (auto split: if_splits)
    qed
  qed
  then show ?thesis
    unfolding drain_streams_after_reap_def now_def
    by (intro total_rules) (simp add: total_op_def)
qed

section \<open>The run\<close>

lemma prompt_settle: "prompt_os os \<Longrightarrow> total_op (settle_command os control_result)"
  unfolding settle_command_def command_answer_def
  by (auto intro!: total_rules prompt_cleanup prompt_drain split: option.splits)

lemma prompt_start: "prompt_os os \<Longrightarrow> total_op (start_command os H root command)"
  unfolding start_command_def check_cancelled_def bind_command_working_directory_def descendant_token_prepare_def
    change_flags_def prepare_command_supervision_def ensure_worker_started_def ensure_admission_healthy_def
    reserve_slot_def spawn_group_def
  by (auto intro!: total_rules prompt_reserve split: sum.splits)

definition uncancelled :: "command_state \<Rightarrow> bool" where
  "uncancelled s \<longleftrightarrow> \<not> rs_cancelled s"

lemma uncancelled_simps [simp]:
  "uncancelled (called evs s) = uncancelled s" "uncancelled (s\<lparr>ps_trace := trace\<rparr>) = uncancelled s"
  "uncancelled (s\<lparr>ps_token := token\<rparr>) = uncancelled s" "uncancelled (s\<lparr>ps_child := i\<rparr>) = uncancelled s"
  by (simp_all add: uncancelled_def called_def)

lemma uncancelled_check: "keeps uncancelled (os_check f)"
  unfolding keeps_def by (rule holds_os_check) simp_all

lemma uncancelled_reserve: "keeps uncancelled (reserve_slot_loop os active)"
proof (rule keepsI)
  fix s r s1
  assume "uncancelled s" and run: "reserve_slot_loop os active s = Some (r, s1)"
  have "uncancelled s \<longrightarrow> uncancelled (snd (r, s1))"
    by (rule reserve_slot_loop.raw_induct
        [where P = "\<lambda>os active s y. uncancelled s \<longrightarrow> uncancelled (snd y)", OF _ run])
      (auto split: option.splits if_splits)
  with \<open>uncancelled s\<close> show "uncancelled s1" by simp
qed

lemma uncancelled_start: "keeps uncancelled (start_command os H root command)"
  unfolding start_command_def check_cancelled_def bind_command_working_directory_def descendant_token_prepare_def
    change_flags_def prepare_command_supervision_def ensure_worker_started_def ensure_admission_healthy_def
    reserve_slot_def spawn_group_def
  by (auto intro!: keeps_rules keeps_os_call lo_keeps_emit uncancelled_check uncancelled_reserve split: sum.splits)

lemma total_returns: "total_op m \<Longrightarrow> returns P m"
  by (simp add: total_op_def returns_def)

lemma run_started_returns:
  assumes "prompt_os os" "ps_token s \<noteq> None" "uncancelled s"
  shows "run_started_command os cmd s \<noteq> None"
proof -
  have flags: "total_op (change_flags os)" unfolding change_flags_def by (intro total_rules)
  let ?P = "\<lambda>s. ps_token s \<noteq> None \<and> uncancelled s"
  have kept: "keeps ?P (change_flags os)"
    unfolding keeps_def by (rule configuring_holds) simp
  have loop: "returns ?P
      (lo_bind (lo_attempt (command_loop os)) (settle_command os))"
    unfolding returns_def
  proof (intro allI impI, elim conjE)
    fix s
    assume "ps_token s \<noteq> None" "uncancelled s"
    then have "command_loop os s \<noteq> None"
      by (intro loop_returns [OF assms(1)]) (simp_all add: view_of_def uncancelled_def)
    then obtain r s1 where "command_loop os s = Some (r, s1)" by auto
    with prompt_settle [OF assms(1), of r] show "lo_bind (lo_attempt (command_loop os)) (settle_command os) s \<noteq> None"
      by (simp add: lo_bind_def lo_attempt_def total_op_def)
  qed
  have "returns ?P (run_started_command os cmd)"
    unfolding run_started_command_def
  proof (intro returns_rules)
    show "returns ?P (change_flags os)" by (rule total_returns [OF flags])
    show "keeps ?P (change_flags os)" by (rule kept)
    show "returns ?P (change_flags os)" by (rule total_returns [OF flags])
    show "keeps ?P (lo_attempt (lo_bind (change_flags os) (\<lambda>_. change_flags os)))"
      by (intro keeps_rules kept)
    have "total_op (lo_bind (lo_map_err CommandFailed (cleanup_process_group os CleanupTerminateAndReap))
        (\<lambda>_. lo_fail (CommandFailed (ConfigureOutput source))) :: (_, _, command_outcome) loop_op)" for source
      by (intro total_rules prompt_cleanup [OF assms(1)])
    then show "returns ?P (case configured of
          Inl source \<Rightarrow>
            lo_bind (lo_map_err CommandFailed (cleanup_process_group os CleanupTerminateAndReap)) (\<lambda>_.
              lo_fail (CommandFailed (ConfigureOutput source)))
        | Inr _ \<Rightarrow> lo_bind (lo_attempt (command_loop os)) (settle_command os))" for configured
      using loop by (auto split: sum.splits intro: total_returns)
  qed
  with assms(2,3) show ?thesis by (simp add: returns_def)
qed

text \<open>
  C15. A run returns, whatever the command does, on an operating system that keeps the promises of
  \<open>prompt_os\<close>: no call is interrupted for ever, the clock advances, and the leader comes to its end or
  a cancellation stays requested. Streams that stay open do not keep it, nor do descendants that
  survive: the waits are bounded by the graces.
\<close>
theorem prompt_run_returns:
  assumes "prompt_os os"
  shows "run_shell_command os H root command (command_start m) \<noteq> None"
proof -
  obtain r s where start: "start_command os H root command (command_start m) = Some (r, s)"
    using prompt_start [OF assms] by (metis total_op_def option.exhaust surj_pair)
  have "run_started_command os cmd s \<noteq> None" if "r = Inr cmd" for cmd
  proof (rule run_started_returns [OF assms])
    from holds_Inr [OF start_holds refl start [unfolded that]] show "ps_token s \<noteq> None"
      by (auto simp: run_inv_def between_rounds_def in_control_def in_phase_def)
    show "uncancelled s"
      by (rule lo_keepsD [OF uncancelled_start _ start]) (simp add: uncancelled_def command_start_def)
  qed
  with start show ?thesis
    by (cases r) (auto simp: run_shell_command_def lo_bind_def lo_map_err_def map_err_def)
qed

lemma prompt_demo: "prompt_os demo_os"
  by (auto simp: prompt_os_def again_and_again_def demo_os_def)

theorem prompt_run_returns_witness:
  "prompt_os demo_os \<and> run_shell_command demo_os demo_host [RootDir] (lit ''ls'') (command_start 2) \<noteq> None"
  using prompt_demo prompt_run_returns [OF prompt_demo] by blast

end
