(* ===== verification/Supervisor_Safety.thy ===== *)
theory Supervisor_Safety
  imports Command_Supervisor Command_Return
begin

text \<open>
  The supervisor keeps what was handed over to it: every command it holds lives, holds a slot, and
  leaves it only reaped. The slots are counted exactly, a command that is due is taken in order of
  time, panics back off and close admission, and a command whose leader has ended is completed.
\<close>

section \<open>One round\<close>

lemma held_updates [simp]:
  "supervised (act_later t c) = supervised c" "supervised (terminated_again t c) = supervised c"
  "supervised (c\<lparr>sc_processing_panics := n\<rparr>) = supervised c"
  "supervised (c\<lparr>sc_next_action := t\<rparr>) = supervised c"
  by (simp_all add: supervised_def in_phase_def act_later_def terminated_again_def)

lemma always_beside: "beside (\<lambda>s. True)"
  by (simp add: beside_def)

text \<open>What the supervisor does to a command that it holds: it stays held, or it is reaped.\<close>

definition round_result :: "bool \<Rightarrow> supervised_command \<Rightarrow> bool" where
  "round_result kept c \<longleftrightarrow> (if kept then supervised c else \<exists>st. in_phase {Reaped st} HeldBySupervisor c)"

lemma round_holds: "holds supervised (supervise_command_once os t) round_result (\<lambda>_ _. False)"
proof -
  let ?T = "\<lambda>r s. if r = Inr True then in_phase terminal_phases HeldBySupervisor s else supervised s"
  let ?M = "\<lambda>r s. case r of Inl _ \<Rightarrow> supervised s | Inr st \<Rightarrow> in_phase {Reaped st} HeldBySupervisor s"
  have look: "holds supervised (lo_attempt (command_leader_terminal os)) ?T (\<lambda>_ _. False)"
    by (rule holds_attempt, rule holds_mono [OF leader_phase [OF always_beside]])
      (auto simp: supervised_def split: if_splits)
  have reap: "holds (in_phase terminal_phases HeldBySupervisor) (lo_attempt (seal_and_reap_terminal_group os)) ?M
      (\<lambda>_ _. False)"
    by (rule holds_attempt, rule holds_mono [OF reap_phase [OF always_beside]])
      (auto simp: supervised_def dest: terminal_alive)
  have kill: "holds supervised (lo_attempt (terminate_command_group os)) (\<lambda>_. supervised) (\<lambda>_ _. False)"
    by (rule holds_attempt, rule holds_mono [OF terminate_phase [OF always_beside]]) (auto simp: supervised_def)
  have later: "holds supervised (lo_bind (lo_update (act_later x)) (\<lambda>_. lo_return True)) round_result (\<lambda>_ _. False)" for x
    by (rule holds_bind [OF holds_update, where R = "\<lambda>_. supervised"]) (auto simp: round_result_def)
  have again: "holds supervised (lo_bind (lo_update (terminated_again t)) (\<lambda>_. lo_return True)) round_result (\<lambda>_ _. False)"
    by (rule holds_bind [OF holds_update, where R = "\<lambda>_. supervised"]) (auto simp: round_result_def)
  have ending: "holds (in_phase terminal_phases HeldBySupervisor)
      (lo_bind (lo_attempt (seal_and_reap_terminal_group os)) (\<lambda>reaped. case reaped of
         Inr _ \<Rightarrow> lo_return False
       | Inl _ \<Rightarrow> lo_bind (lo_update (act_later (t + milliseconds 250))) (\<lambda>_. lo_return True)))
      round_result (\<lambda>_ _. False)"
    by (rule holds_bind [OF reap])
      (auto split: sum.splits intro: later intro!: holds_return simp: round_result_def)
  have other: "holds supervised (lo_bind (lo_get sc_termination_attempts) (\<lambda>attempts.
       if 0 < attempts then
         lo_bind (lo_attempt (terminate_command_group os)) (\<lambda>_.
         lo_bind (lo_update (terminated_again t)) (\<lambda>_. lo_return True))
       else lo_bind (lo_update (act_later (t + milliseconds 250))) (\<lambda>_. lo_return True)))
      round_result (\<lambda>_ _. False)"
    by (rule holds_bind [OF holds_get, where R = "\<lambda>_. supervised"], assumption, rule holds_cond,
        rule holds_bind [OF kill], rule again, rule later)
  show ?thesis
    unfolding supervise_command_once_def
    by (rule holds_bind [OF look], rule holds_cond) (auto intro: holds_pre [OF ending] holds_pre [OF other])
qed

lemma round_ends:
  assumes "supervised c" "supervise_command_once os t c = Some (r, c1)"
  obtains "r = Inr True" "supervised c1" | st where "r = Inr False" "in_phase {Reaped st} HeldBySupervisor c1"
proof (cases r)
  case (Inl e)
  with assms(2) have "supervise_command_once os t c = Some (Inl e, c1)" by simp
  from holds_Inl [OF round_holds assms(1) this] show ?thesis ..
next
  case (Inr kept)
  from holds_Inr [OF round_holds assms(1) assms(2) [unfolded Inr]] that Inr show ?thesis
    by (cases kept) (auto simp: round_result_def)
qed

section \<open>The registry\<close>

lemma peek_in: "peek_command registry = Some c \<Longrightarrow> c \<in> set registry"
  by (induction registry arbitrary: c) (auto split: option.splits if_splits)

lemma peek_None: "peek_command registry = None \<longleftrightarrow> registry = []"
  by (cases registry) (auto split: option.splits)

lemma acts_before_total: "\<not> acts_before c d \<Longrightarrow> \<not> acts_before d e \<Longrightarrow> \<not> acts_before c e"
  by (auto simp: acts_before_def)

lemma acts_before_asym: "acts_before c d \<Longrightarrow> \<not> acts_before d c"
  by (auto simp: acts_before_def)

lemma peek_first: "peek_command registry = Some c \<Longrightarrow> d \<in> set registry \<Longrightarrow> \<not> acts_before d c"
proof (induction registry arbitrary: c d)
  case (Cons e registry)
  show ?case
  proof (cases "peek_command registry")
    case None
    with Cons show ?thesis by (auto simp: peek_None acts_before_def)
  next
    case (Some f)
    with Cons.IH have rest: "g \<in> set registry \<Longrightarrow> \<not> acts_before g f" for g by blast
    show ?thesis
    proof (cases "acts_before f e")
      case True
      with Cons.prems Some have "c = f" by simp
      with Cons.prems(2) rest True show ?thesis by (auto dest: acts_before_asym)
    next
      case False
      with Cons.prems Some have "c = e" by simp
      moreover have "\<not> acts_before e e" by (simp add: acts_before_def)
      ultimately show ?thesis using Cons.prems(2) rest acts_before_total [OF _ False] by auto
    qed
  qed
qed simp

section \<open>The invariant\<close>

definition commands_of :: "command_supervisor \<Rightarrow> supervised_command list" where
  "commands_of S = sv_registry S @ (case sv_in_flight S of None \<Rightarrow> [] | Some c \<Rightarrow> [c])"

definition supervisor_inv :: "command_supervisor \<Rightarrow> bool" where
  "supervisor_inv S \<longleftrightarrow>
     unat (sv_active_slots S) = sv_runs S + length (commands_of S)
     \<and> unat (sv_active_slots S) \<le> MAX_COMMAND_SUPERVISION_SLOTS
     \<and> (\<forall>c \<in> set (commands_of S). supervised c)
     \<and> (\<forall>c \<in> set (sv_completed S). \<exists>st. released st c)"

lemma unat_dec: "0 < unat (w :: 64 word) \<Longrightarrow> unat (w - 1) = unat w - 1"
  by (simp add: unat_minus_one unat_gt_0)

lemma unat_inc: "w < 64 \<Longrightarrow> unat (w + 1 :: 64 word) = unat w + 1"
  by (simp add: unat_word_ariths(1) word_less_nat_alt)

lemma inv_new: "supervisor_inv supervisor_new"
  by (simp add: supervisor_inv_def supervisor_new_def commands_of_def)

lemma handed_over_supervised:
  assumes "run_shell_command os H root command (command_start m)
    = Some (Inl (CommandFailed (TerminationSupervised message)), child)"
  shows "supervised (supervised_new child t)"
proof -
  from run_ends [OF assms] have "supervised child"
    by (auto simp: ends_run_def failed_run_def failed_unstarted_def left_run_def)
  then show ?thesis by (simp add: supervised_def in_phase_def supervised_new_def)
qed

lemma inv_step:
  assumes "supervisor_step S S1" "supervisor_inv S"
  shows "supervisor_inv S1"
  using assms
proof cases
  case run_reserves
  with assms(2) show ?thesis
    by (auto simp: slot_reserved_def supervisor_inv_def commands_of_def MAX_COMMAND_SUPERVISION_SLOTS_def
        word_le_nat_alt unat_word_ariths(1) split: if_splits option.splits)
next
  case run_releases
  with assms(2) show ?thesis
    by (auto simp: permit_dropped_def supervisor_inv_def commands_of_def unat_dec)
next
  case (run_hands_over os H root command m message child t)
  from handed_over_supervised [OF run_hands_over(3)] run_hands_over(1,2) assms(2) show ?thesis
    by (auto simp: enqueue_command_def supervisor_inv_def commands_of_def)
next
  case (starts_worker spawned)
  with assms(2) show ?thesis by (simp add: worker_started_def supervisor_inv_def commands_of_def)
next
  case (worker_takes t c registry)
  then obtain "c \<in> set (sv_registry S)" "registry = remove1 c (sv_registry S)"
    by (auto simp: take_next_due_def dest: peek_in split: option.splits if_splits)
  with worker_takes assms(2) show ?thesis
    by (auto simp: supervisor_inv_def commands_of_def length_remove1 Suc_diff_Suc
        dest: in_set_remove1 [THEN iffD1] notin_set_remove1 length_pos_if_in_set set_remove1_subset [THEN subsetD])
next
  case (worker_keeps c os t c1)
  with assms(2) have "supervised c" by (simp add: supervisor_inv_def commands_of_def)
  from round_ends [OF this worker_keeps(3)] have "supervised c1" by auto
  with worker_keeps assms(2) show ?thesis
    by (auto simp: supervisor_inv_def commands_of_def in_flight_kept_def enqueue_command_def)
next
  case (worker_completes c os t c1)
  with assms(2) have "supervised c" by (simp add: supervisor_inv_def commands_of_def)
  from round_ends [OF this worker_completes(3)] obtain st where "in_phase {Reaped st} HeldBySupervisor c1" by auto
  then have "released st (c1\<lparr>ps_trace := ps_trace c1 @ [SlotReleased]\<rparr>)"
    by (auto simp: in_phase_def released_def)
  with worker_completes assms(2) show ?thesis
    by (auto simp: supervisor_inv_def commands_of_def in_flight_completed_def permit_dropped_def unat_dec)
next
  case (worker_panics c t)
  with assms(2) show ?thesis
    by (auto simp: supervisor_inv_def commands_of_def in_flight_panicked_def record_processing_panic_def Let_def
        enqueue_command_def)
next
  case worker_stops
  with assms(2) show ?thesis by (simp add: supervisor_inv_def commands_of_def)
qed

lemma inv_reached: "supervisor_reaches S \<Longrightarrow> supervisor_inv S"
  by (induction rule: supervisor_reaches.induct) (auto intro: inv_new inv_step)

text \<open>
  C12. The supervisor neither loses nor forgets a command. In every state it reaches, the counter of
  slots is the number of runs with a permit and of commands it holds, at most 64; a command it holds
  is not reaped and keeps its slot; a command it has completed was reaped before its slot was given
  back; and over its whole life, in its run and with the supervisor, a command's group was signalled
  only between its start and its reaping, which came after the token of its descendants closed.
\<close>
theorem supervisor_keeps_its_commands:
  assumes "supervisor_reaches S"
  shows "unat (sv_active_slots S) = sv_runs S + length (commands_of S)
    \<and> unat (sv_active_slots S) \<le> 64
    \<and> (\<forall>c \<in> set (commands_of S). signals_in_life (ps_trace c) \<and> HandedOver \<in> set (ps_trace c)
        \<and> (\<forall>st. LeaderReaped st \<notin> set (ps_trace c)) \<and> SlotReleased \<notin> set (ps_trace c))
    \<and> (\<forall>c \<in> set (sv_completed S). signals_in_life (ps_trace c)
        \<and> (\<exists>st. LeaderReaped st \<in> set (ps_trace c)) \<and> SlotReleased \<in> set (ps_trace c))"
proof -
  have held: "signals_in_life (ps_trace c) \<and> HandedOver \<in> set (ps_trace c)
      \<and> (\<forall>st. LeaderReaped st \<notin> set (ps_trace c)) \<and> SlotReleased \<notin> set (ps_trace c)"
    if "supervised c" for c :: supervised_command
  proof -
    from that obtain L where L: "L \<in> alive_phases" "lifecycle_of (ps_trace c) = Some (L, HeldBySupervisor)"
      by (auto simp: supervised_def in_phase_def)
    from lifecycle_history [OF L(2)] L accepted_signals [of "ps_trace c"] show ?thesis
      by (auto simp: alive_phases_def)
  qed
  have gone: "signals_in_life (ps_trace c) \<and> (\<exists>st. LeaderReaped st \<in> set (ps_trace c)) \<and> SlotReleased \<in> set (ps_trace c)"
    if "released st c" for st and c :: supervised_command
    using lifecycle_history [OF that [unfolded released_def]] that accepted_signals [of "ps_trace c"]
    by (auto simp: released_def)
  from inv_reached [OF assms] held gone show ?thesis
    unfolding supervisor_inv_def MAX_COMMAND_SUPERVISION_SLOTS_def by blast
qed

section \<open>Due commands\<close>

text \<open>A command that is taken is due, and no other command should act before it.\<close>

lemma taken_is_first:
  assumes "take_next_due t registry = Some (c, rest)"
  shows "sc_next_action c \<le> t" "c \<in> set registry" "rest = remove1 c registry" "d \<in> set registry \<Longrightarrow> \<not> acts_before d c"
proof -
  from assms have peek: "peek_command registry = Some c" and "rest = remove1 c registry" "sc_next_action c \<le> t"
    by (auto simp: take_next_due_def split: option.splits if_splits)
  with peek_in [OF peek] show "sc_next_action c \<le> t" "c \<in> set registry" "rest = remove1 c registry" by auto
  from peek_first [OF peek] show "d \<in> set registry \<Longrightarrow> \<not> acts_before d c" by blast
qed

lemma due_is_taken:
  assumes "d \<in> set registry" "sc_next_action d \<le> t"
  shows "take_next_due t registry \<noteq> None"
proof -
  from assms(1) obtain c where peek: "peek_command registry = Some c"
    using peek_None by fastforce
  from peek_first [OF this assms(1)] assms(2) have "sc_next_action c \<le> t"
    by (auto simp: acts_before_def)
  with peek show ?thesis by (simp add: take_next_due_def)
qed

section \<open>Panics\<close>

lemma panic_backoff_bounds: "milliseconds 10 \<le> panic_backoff n" "panic_backoff n \<le> milliseconds 250"
  by (simp_all add: panic_backoff_def INITIAL_PROCESSING_PANIC_BACKOFF_def MAX_PROCESSING_PANIC_BACKOFF_def
      milliseconds_def)

lemma panic_recorded:
  assumes "record_processing_panic t (c, health) = (c1, health1)"
  shows "sc_processing_panics c1 = min 255 (sc_processing_panics c + 1)"
    "t + milliseconds 10 \<le> sc_next_action c1" "sc_next_action c1 \<le> t + milliseconds 250"
    "health1 = AdmissionDegraded \<longleftrightarrow> health = AdmissionDegraded \<or> 7 \<le> sc_processing_panics c"
  using assms panic_backoff_bounds
  by (auto simp: record_processing_panic_def Let_def MAX_COMMAND_PROCESSING_PANICS_def)

text \<open>A supervisor that has degraded stays so: nothing makes it healthy again.\<close>

lemma degraded_stays:
  assumes "supervisor_step S S1" "sv_health S = AdmissionDegraded"
  shows "sv_health S1 = AdmissionDegraded"
  using assms
  by cases (auto simp: slot_reserved_def permit_dropped_def enqueue_command_def worker_started_def in_flight_kept_def
      in_flight_completed_def in_flight_panicked_def record_processing_panic_def Let_def split: if_splits)

section \<open>A command that is handed over\<close>

text \<open>An operating system on which the leader does not end when a run is cancelled in its first round.\<close>

definition stubborn_os :: command_os where
  "stubborn_os = demo_os\<lparr>os_cancelled := (\<lambda>n. 7 \<le> n), os_now := (\<lambda>n. n * milliseconds 1000),
     os_waitid := (\<lambda>_. Inr False)\<rparr>"

lemma stubborn_hands_over:
  "\<exists>message child. run_shell_command stubborn_os H root command (command_start 2)
     = Some (Inl (CommandFailed (TerminationSupervised message)), child)"
  by (simp add: stubborn_os_def demo_os_simps demo_run_simps stream_reads_numeral seal_rounds_numeral
      cancel_command_def wait_for_leader_terminal_bounded_def leader_wait_loop.simps TERMINATION_CONFIRM_GRACE_def
      milliseconds_def forced_drain_over_def OUTPUT_DRAIN_GRACE_def supervise_live_command_def Let_def)

lemma stubborn_reaches: "\<exists>S c. supervisor_reaches S \<and> sv_registry S = [c]"
proof -
  obtain message child where run: "run_shell_command stubborn_os demo_host [RootDir] (lit ''ls'') (command_start 2)
      = Some (Inl (CommandFailed (TerminationSupervised message)), child)"
    using stubborn_hands_over by blast
  let ?S = "supervisor_new\<lparr>sv_active_slots := 1, sv_runs := 1\<rparr>"
  have "supervisor_step supervisor_new ?S"
    by (rule run_reserves) (simp add: slot_reserved_def supervisor_new_def MAX_COMMAND_SUPERVISION_SLOTS_def)
  then have "supervisor_reaches ?S" by (rule reaches_step [OF reaches_new])
  from reaches_step [OF this run_hands_over [OF _ run, of _ 0]]
  have "supervisor_reaches (enqueue_command (supervised_new child 0) (?S\<lparr>sv_runs := 0\<rparr>))" by simp
  then show ?thesis by (intro exI conjI) (auto simp: enqueue_command_def supervisor_new_def)
qed

theorem supervisor_keeps_its_commands_witness:
  "\<exists>S c. supervisor_reaches S \<and> sv_registry S = [c] \<and> c \<in> set (commands_of S)
    \<and> unat (sv_active_slots S) = sv_runs S + length (commands_of S) \<and> HandedOver \<in> set (ps_trace c)"
proof -
  obtain S c where S: "supervisor_reaches S" "sv_registry S = [c]" using stubborn_reaches by blast
  then have "c \<in> set (commands_of S)" by (simp add: commands_of_def)
  with supervisor_keeps_its_commands [OF S(1)] S show ?thesis by blast
qed

section \<open>Completion\<close>

text \<open>From the call \<open>n\<close> on, the leader has ended and its descendants are gone.\<close>

definition group_gone :: "command_os \<Rightarrow> nat \<Rightarrow> bool" where
  "group_gone os n \<longleftrightarrow>
     (\<forall>k \<ge> n. os_waitid os k \<in> {Inr True, Inl ERRNO_INTR} \<and> os_kill os k = None \<and> os_token_read os k = Inr 0
        \<and> (\<forall>e. os_waitpid os k = Inl e \<longrightarrow> e = ERRNO_INTR))"

definition reapable :: "nat \<Rightarrow> 's process_state_scheme \<Rightarrow> bool" where
  "reapable n s \<longleftrightarrow> n \<le> ps_calls s \<and> ps_token s \<noteq> None \<and> 0 < ps_child s \<and> ps_child s < 2 ^ 31"

lemma reapable_called [simp]: "reapable n s \<Longrightarrow> reapable n (called evs s)"
  by (simp add: reapable_def)

lemma gone_waitid:
  assumes "group_gone os n"
  shows "holds (reapable n) (waitid_loop os) (\<lambda>b s. b \<and> reapable n s) (\<lambda>_ _. False)"
proof -
  let ?P = "\<lambda>s y. reapable n s \<longrightarrow> fst y = (Inr True :: command_error + bool) \<and> reapable n (snd y)"
  have "os = os \<longrightarrow> ?P s y" if "waitid_loop os s = Some y" for s y
    by (rule waitid_loop.raw_induct [where P = "\<lambda>os1 s y. os1 = os \<longrightarrow> ?P s y", OF _ that])
      (use assms in \<open>auto simp: group_gone_def reapable_def split: sum.splits if_splits; fastforce\<close>)
  then show ?thesis by (intro holdsI) fastforce+
qed

lemma gone_waitpid:
  assumes "group_gone os n"
  shows "holds (reapable n) (waitpid_loop os) (\<lambda>_ _. True) (\<lambda>_ _. False)"
proof -
  have "os = os \<longrightarrow> reapable n s \<longrightarrow> \<not> isl (fst y)" if "waitpid_loop os s = Some y" for s y
    by (rule waitpid_loop.raw_induct [where P = "\<lambda>os1 s y. os1 = os \<longrightarrow> reapable n s \<longrightarrow> \<not> isl (fst y)", OF _ that])
      (use assms in \<open>auto simp: group_gone_def reapable_def split: sum.splits option.splits if_splits\<close>)
  then show ?thesis by (fastforce intro!: holds_loop split: sum.splits)
qed

lemma reapable_pid: "holds (reapable n) process_group_id (\<lambda>_. reapable n) (\<lambda>_ _. False)"
  unfolding process_group_id_def
  by (rule holds_bind [OF holds_get, where R = "\<lambda>i s. i = ps_child s \<and> reapable n s"], simp, rule holds_result)
    (auto simp: reapable_def child_pid_def split: if_splits)

lemma gone_seal:
  assumes "group_gone os n"
  shows "holds (reapable n) (seal_terminal_process_group os) (\<lambda>_. reapable n) (\<lambda>_ _. False)"
proof -
  have kill: "holds (reapable n) (terminate_signal_compatible_group_after_leader_exit os) (\<lambda>_. reapable n) (\<lambda>_ _. False)"
  proof (rule holdsI)
    fix s e s1
    assume s: "reapable n s" and run: "terminate_signal_compatible_group_after_leader_exit os s = Some (Inl e, s1)"
    from s assms have "os_kill os (ps_calls s) = None" by (simp add: group_gone_def reapable_def)
    with run show False
      by (simp add: terminate_signal_compatible_group_after_leader_exit_def terminate_command_group_def lo_defs
          kill_wrapper.simps)
  next
    fix s a s1
    assume s: "reapable n s" and run: "terminate_signal_compatible_group_after_leader_exit os s = Some (Inr a, s1)"
    from s assms have "os_kill os (ps_calls s) = None" by (simp add: group_gone_def reapable_def)
    with run s show "reapable n s1"
      by (auto simp: terminate_signal_compatible_group_after_leader_exit_def terminate_command_group_def lo_defs
          kill_wrapper.simps)
  qed
  have close: "holds (reapable n) (wait_for_close os d) (\<lambda>closed s. closed \<and> reapable n s) (\<lambda>_ _. False)" for d
  proof (rule holdsI)
    fix s e s1
    assume s: "reapable n s" and run: "wait_for_close os d s = Some (Inl e, s1)"
    from s assms have "os_token_read os (ps_calls s) = Inr 0" by (simp add: group_gone_def reapable_def)
    with run show False
      by (auto simp: wait_for_close_def observe_close_def lo_defs os_call_def emit_def split: if_splits)
  next
    fix s a s1
    assume s: "reapable n s" and run: "wait_for_close os d s = Some (Inr a, s1)"
    from s assms have "os_token_read os (ps_calls s) = Inr 0" by (simp add: group_gone_def reapable_def)
    with run s show "a \<and> reapable n s1"
      by (auto simp: wait_for_close_def observe_close_def lo_defs os_call_def emit_def reapable_def split: if_splits)
  qed
  have "holds (reapable n) (seal_rounds os (Suc k)) (\<lambda>_. reapable n) (\<lambda>_ _. False)" for k
    unfolding seal_rounds.simps
  proof (rule holds_bind [OF kill])
    have ask: "holds (reapable n) (lo_get ps_token) (\<lambda>token s. token \<noteq> None \<and> reapable n s) (\<lambda>_ _. False)"
      by (rule holds_get) (simp add: reapable_def)
    show "holds (reapable n) (lo_bind (lo_get ps_token) (\<lambda>token. if token = None then seal_rounds os k
        else lo_bind (wait_for_close os DESCENDANT_TOKEN_WAIT_SLICE)
          (\<lambda>closed. if closed then lo_return () else seal_rounds os k))) (\<lambda>_. reapable n) (\<lambda>_ _. False)"
      by (rule holds_bind [OF ask], rule holds_cond, rule holds_absurd, simp,
          rule holds_bind [OF holds_pre [OF close]], simp, rule holds_cond, rule holds_return, simp, rule holds_absurd) simp
  qed
  from this [of 7] show ?thesis
    by (simp add: seal_terminal_process_group_def TERMINAL_GROUP_SEAL_ROUNDS_def numeral_eq_Suc)
qed

lemma gone_completes:
  assumes "group_gone os n"
  shows "holds (reapable n) (supervise_command_once os t) (\<lambda>kept _. \<not> kept) (\<lambda>_ _. False)"
proof -
  have look: "holds (reapable n) (lo_attempt (command_leader_terminal os)) (\<lambda>r s. r = Inr True \<and> reapable n s) (\<lambda>_ _. False)"
    unfolding command_leader_terminal_def
    by (rule holds_attempt, rule holds_bind [OF reapable_pid [THEN holds_mono]], assumption, assumption, simp,
        rule holds_mono [OF gone_waitid [OF assms]]) auto
  have reap: "holds (reapable n) (lo_attempt (seal_and_reap_terminal_group os)) (\<lambda>r _. \<not> isl r) (\<lambda>_ _. False)"
    unfolding seal_and_reap_terminal_group_def wait_for_command_group_def
    by (rule holds_attempt, rule holds_bind [OF gone_seal [OF assms, THEN holds_mono]], assumption, assumption, simp,
        rule holds_bind [OF reapable_pid [THEN holds_mono]], assumption, assumption, simp,
        rule holds_mono [OF gone_waitpid [OF assms]]) auto
  show ?thesis
    unfolding supervise_command_once_def
  proof (rule holds_bind [OF look], rule holds_cond)
    fix r :: "command_error + bool"
    show "holds (\<lambda>s. r = Inr True \<and> reapable n s) (lo_bind (lo_attempt (seal_and_reap_terminal_group os)) (\<lambda>reaped.
       case reaped of
         Inr _ \<Rightarrow> lo_return False
       | Inl _ \<Rightarrow> lo_bind (lo_update (act_later (t + milliseconds 250))) (\<lambda>_. lo_return True)))
       (\<lambda>kept _. \<not> kept) (\<lambda>_ _. False)"
      by (rule holds_bind [OF holds_pre [OF reap]], simp)
        (auto split: sum.splits intro: holds_return holds_absurd)
  qed (auto intro: holds_absurd)
qed

lemma prompt_round:
  assumes "prompt_os os"
  shows "total_op (supervise_command_once os t)"
  unfolding supervise_command_once_def
  by (auto intro!: total_rules prompt_leader prompt_reap prompt_terminate assms split: sum.splits)

text \<open>
  C16. A supervised command is not kept for ever: once its leader has ended and its descendants are gone,
  the next round of the supervisor reaps it and completes it, which gives its slot back.
\<close>
theorem supervised_command_completes:
  assumes "prompt_os os" "group_gone os (ps_calls c)"
    and "supervised c" "0 < ps_child c" "ps_child c < 2 ^ 31"
  shows "\<exists>c1 st. supervise_command_once os t c = Some (Inr False, c1) \<and> LeaderReaped st \<in> set (ps_trace c1)"
proof -
  obtain r c1 where round: "supervise_command_once os t c = Some (r, c1)"
    using prompt_round [OF assms(1)] by (metis total_op_def option.exhaust surj_pair)
  have "reapable (ps_calls c) c"
    using assms(3-5) by (auto simp: reapable_def supervised_def in_phase_def)
  with gone_completes [OF assms(2), of t] round have "r = Inr False"
    by (cases r) (auto dest: holds_Inr holds_Inl)
  with round_ends [OF assms(3) round] obtain st where "in_phase {Reaped st} HeldBySupervisor c1" by auto
  then have "LeaderReaped st \<in> set (ps_trace c1)"
    by (auto simp: in_phase_def dest!: lifecycle_history)
  with round \<open>r = Inr False\<close> show ?thesis by blast
qed

lemma gone_demo: "group_gone demo_os n"
  by (simp add: group_gone_def demo_os_def)

theorem supervised_command_completes_witness:
  "\<exists>c c1 st. supervised c \<and> supervise_command_once demo_os 0 c = Some (Inr False, c1)
    \<and> LeaderReaped st \<in> set (ps_trace c1)"
proof -
  let ?c = "supervised_new \<lparr>ps_calls = 0, ps_trace = [SlotReserved, Spawned (shell_command [] Map.empty), HandedOver],
    ps_child = 7, ps_token = Some False\<rparr> 0"
  have "supervised ?c"
    by (simp add: supervised_new_def supervised_def in_phase_def lifecycle_of_def)
  from supervised_command_completes [OF prompt_demo gone_demo this, of 0] this show ?thesis
    by (auto simp: supervised_new_def)
qed

end
