(* ===== verification/Coding_Tools.thy ===== *)
theory Coding_Tools
  imports Tool_Manifest Command_Policy
begin

text \<open>
  The built-in coding tools (crates/capability-coding/src/tools.rs and coding-capability.toml): the
  manifest that declares them, their registration in a registry, and what each decides about a call.
  \<open>'w\<close> is the workspace a tool holds, \<open>policy\<close> what the command policy sees of it.
\<close>

section \<open>The code\<close>

definition BUILTIN_TOOL_NAMES :: "ustring list" where
  "BUILTIN_TOOL_NAMES = [lit ''read_file'', lit ''search_files'', lit ''apply_patch'', lit ''run_command'']"

datatype 'w builtin_coding_tool =
    ReadFile 'w
  | SearchFiles 'w
  | ApplyPatch 'w
  | RunCommand 'w

text \<open>\<open>None\<close> is the \<open>unreachable!\<close> of the source.\<close>

definition builtin_coding_tool_new :: "ustring \<Rightarrow> 'w \<Rightarrow> 'w builtin_coding_tool option" where
  "builtin_coding_tool_new name workspace =
     (if name = lit ''read_file'' then Some (ReadFile workspace)
      else if name = lit ''search_files'' then Some (SearchFiles workspace)
      else if name = lit ''apply_patch'' then Some (ApplyPatch workspace)
      else if name = lit ''run_command'' then Some (RunCommand workspace)
      else None)"

fun policy_of_decision :: "command_policy_decision \<Rightarrow> tool_call_policy" where
  "policy_of_decision PolicyAllow = Allow"
| "policy_of_decision (PolicyRequiresApproval reason) = RequiresApproval reason"
| "policy_of_decision (PolicyReject reason) = Reject reason"

fun builtin_classify ::
    "('v \<Rightarrow> (ustring, 'v) btree_map option) \<Rightarrow> ('v \<Rightarrow> ustring option) \<Rightarrow> ('w \<Rightarrow> workspace_fs)
       \<Rightarrow> 'w builtin_coding_tool \<Rightarrow> 'v tool_call \<Rightarrow> tool_call_policy" where
  "builtin_classify as_object as_str policy (RunCommand workspace) call =
     policy_of_decision (classify_call as_object as_str (policy workspace) call)"
| "builtin_classify as_object as_str policy (ReadFile workspace) call = Allow"
| "builtin_classify as_object as_str policy (SearchFiles workspace) call = Allow"
| "builtin_classify as_object as_str policy (ApplyPatch workspace) call = Allow"

datatype 'p coding_registration_error =
    ManifestFailed "'p capability_manifest_error"
  | UnsupportedManifestTool ustring
  | RegistrationFailed tool_registration_error

text \<open>The first loop changes nothing, the second registers.\<close>

fun preflight_tools ::
    "('h, 'v) tool_runtime \<Rightarrow> 'v tool_definition list \<Rightarrow> 'p coding_registration_error + unit" where
  "preflight_tools rt [] = Inr ()"
| "preflight_tools rt (d # ds) =
     (if td_name d \<notin> set BUILTIN_TOOL_NAMES then Inl (UnsupportedManifestTool (td_name d))
      else if lookup_tool rt (td_name d) \<noteq> None then
        Inl (RegistrationFailed (DuplicateTool (td_name d)))
      else preflight_tools rt ds)"

fun register_tools ::
    "('v \<Rightarrow> bool) \<Rightarrow> 'w \<Rightarrow> 'v tool_definition list \<Rightarrow> ('w builtin_coding_tool, 'v) tool_runtime
       \<Rightarrow> ('p coding_registration_error + unit) option \<times> ('w builtin_coding_tool, 'v) tool_runtime"
where
  "register_tools is_object workspace [] rt = (Some (Inr ()), rt)"
| "register_tools is_object workspace (d # ds) rt =
     (case builtin_coding_tool_new (td_name d) workspace of
        None \<Rightarrow> (None, rt)
      | Some handler \<Rightarrow>
          (case register is_object d handler rt of
             Inl e \<Rightarrow> (Some (Inl (RegistrationFailed e)), rt)
           | Inr rt1 \<Rightarrow> register_tools is_object workspace ds rt1))"

text \<open>\<open>parsed\<close> is what the TOML parser makes of the manifest; the outer \<open>None\<close> is a panic.\<close>

definition register_builtin_coding_capability ::
    "('v \<Rightarrow> bool) \<Rightarrow> ('p + 'v capability_manifest) \<Rightarrow> 'w \<Rightarrow> ('w builtin_coding_tool, 'v) tool_runtime
       \<Rightarrow> ('p coding_registration_error + unit) option \<times> ('w builtin_coding_tool, 'v) tool_runtime"
where
  "register_builtin_coding_capability is_object parsed workspace rt =
     (case map_err ManifestFailed (try_res (from_toml is_object parsed) (into_tool_definitions is_object)) of
        Inl e \<Rightarrow> (Some (Inl e), rt)
      | Inr ds \<Rightarrow>
          (case preflight_tools rt ds of
             Inl e \<Rightarrow> (Some (Inl e), rt)
           | Inr _ \<Rightarrow> register_tools is_object workspace ds rt))"

text \<open>
  The manifest of the crate, as the parser returns it; the descriptions, the server entries and the
  input schemas are arguments, by the name of the tool.
\<close>

definition builtin_tool ::
    "(ustring \<Rightarrow> ustring) \<Rightarrow> (ustring \<Rightarrow> 'v) \<Rightarrow> string \<Rightarrow> tool_safety_class \<Rightarrow> string option
       \<Rightarrow> 'v manifest_tool" where
  "builtin_tool description schema name safety reason =
     \<lparr>mt_name = lit name, mt_description = description (lit name), mt_input_schema = schema (lit name),
      mt_output_schema = None, mt_safety_class = safety, mt_safety_reason = map_option lit reason,
      mt_mcp = Some \<lparr>mcp_server = lit ''builtin-coding'', mcp_tool_name = lit name,
                     mcp_protocol_version = lit ''reserved''\<rparr>\<rparr>"

definition builtin_manifest ::
    "(ustring \<Rightarrow> ustring) \<Rightarrow> (ustring \<Rightarrow> 'v) \<Rightarrow> 'v capability_manifest" where
  "builtin_manifest description schema =
     \<lparr>schema_version = 1,
      capability = \<lparr>cm_id = lit ''coding'', cm_version = lit ''0.1.0'', cm_name = lit ''Coding Capability'',
        cm_description = lit ''Built-in tools for reading, searching, patching, and validating a local workspace.''\<rparr>,
      manifest_tools =
        [builtin_tool description schema ''read_file'' ClassAlwaysAllow None,
         builtin_tool description schema ''search_files'' ClassAlwaysAllow None,
         builtin_tool description schema ''apply_patch'' ClassRequiresApproval
           (Some ''patching mutates workspace files''),
         builtin_tool description schema ''run_command'' ClassCallDependent None]\<rparr>"

section \<open>Registration is all or nothing\<close>

lemma into_tool_definitions_Inr:
  "into_tool_definitions is_object m = (Inr ds :: 'p capability_manifest_error + 'v tool_definition list)
     \<Longrightarrow> distinct (map td_name ds) \<and> list_all (definition_ok is_object) ds"
  by (auto simp: into_tool_definitions_def try_res_Inr validate_manifest_Inr list_all_iff comp_def)

lemma preflight_Inr:
  "preflight_tools rt ds = Inr u \<longleftrightarrow>
     list_all (\<lambda>d. td_name d \<in> set BUILTIN_TOOL_NAMES \<and> bt_get (tools rt) (td_name d) = None) ds"
  by (induction ds) (auto simp: lookup_tool_def)

lemma builtin_names_known:
  "name \<in> set BUILTIN_TOOL_NAMES \<Longrightarrow> \<exists>handler. builtin_coding_tool_new name workspace = Some handler"
  by (auto simp: BUILTIN_TOOL_NAMES_def builtin_coding_tool_new_def)

text \<open>The registry after the tools of \<open>ds\<close> were added to it.\<close>

definition adds_tools ::
    "'w \<Rightarrow> 'v tool_definition list \<Rightarrow> ('w builtin_coding_tool, 'v) tool_runtime
       \<Rightarrow> ('w builtin_coding_tool, 'v) tool_runtime \<Rightarrow> bool" where
  "adds_tools workspace ds rt rt1 \<longleftrightarrow>
     tools_identity rt1 = tools_identity rt
     \<and> (\<forall>d \<in> set ds. \<exists>handler. builtin_coding_tool_new (td_name d) workspace = Some handler
          \<and> bt_get (tools rt1) (td_name d) = Some \<lparr>rt_definition = d, rt_handler = handler\<rparr>)
     \<and> (\<forall>name. name \<notin> td_name ` set ds \<longrightarrow> bt_get (tools rt1) name = bt_get (tools rt) name)"

lemma register_tools_adds:
  "distinct (map td_name ds) \<Longrightarrow> list_all (definition_ok is_object) ds \<Longrightarrow>
   list_all (\<lambda>d. td_name d \<in> set BUILTIN_TOOL_NAMES \<and> bt_get (tools rt) (td_name d) = None) ds \<Longrightarrow>
   \<exists>rt1. register_tools is_object workspace ds rt
       = (Some (Inr ()) :: ('p coding_registration_error + unit) option, rt1)
     \<and> adds_tools workspace ds rt rt1 \<and> (runtime_ok is_object rt \<longrightarrow> runtime_ok is_object rt1)"
proof (induction ds arbitrary: rt)
  case Nil
  then show ?case by (simp add: adds_tools_def)
next
  case (Cons d ds)
  from Cons.prems builtin_names_known obtain handler where
    handler: "builtin_coding_tool_new (td_name d) workspace = Some handler" by fastforce
  let ?rt = "rt\<lparr>tools := bt_insert (td_name d) \<lparr>rt_definition = d, rt_handler = handler\<rparr> (tools rt)\<rparr>"
  have step: "register is_object d handler rt = Inr ?rt" using Cons.prems by (simp add: register_Inr)
  have "list_all (\<lambda>d. td_name d \<in> set BUILTIN_TOOL_NAMES \<and> bt_get (tools ?rt) (td_name d) = None) ds"
    using Cons.prems by (auto simp: list_all_iff image_iff)
  with Cons.IH [of ?rt] Cons.prems obtain rt1 where
    rt1: "register_tools is_object workspace ds ?rt
        = (Some (Inr ()) :: ('p coding_registration_error + unit) option, rt1)"
    "adds_tools workspace ds ?rt rt1" "runtime_ok is_object ?rt \<longrightarrow> runtime_ok is_object rt1" by auto
  have "adds_tools workspace (d # ds) rt rt1"
    using rt1(2) handler Cons.prems(1) by (auto simp: adds_tools_def)
  with rt1 handler step register_ok [OF _ step] show ?case by auto
qed

text \<open>
  C23. Registering the built-in tools is all or nothing: it never panics; with an error the registry is
  what it was; and without one every tool of the manifest is in it, with the handler of its name, the
  other tools are untouched and the registry keeps its invariant.
\<close>
theorem registration_is_all_or_nothing:
  assumes "runtime_ok is_object rt"
    and "register_builtin_coding_capability is_object parsed workspace rt
      = (r :: ('p coding_registration_error + unit) option, rt1)"
  shows "(\<exists>e. r = Some (Inl e) \<and> rt1 = rt)
    \<or> r = Some (Inr ()) \<and> runtime_ok is_object rt1
      \<and> (\<exists>m ds. parsed = Inr m \<and> into_tool_definitions is_object m = (Inr ds :: 'p capability_manifest_error + _)
           \<and> adds_tools workspace ds rt rt1)"
proof (cases "map_err ManifestFailed (try_res (from_toml is_object parsed) (into_tool_definitions is_object))
    :: 'p coding_registration_error + _")
  case (Inl e)
  with assms(2) show ?thesis by (auto simp: register_builtin_coding_capability_def)
next
  case (Inr ds)
  then obtain m where m: "parsed = Inr m"
    "into_tool_definitions is_object m = (Inr ds :: 'p capability_manifest_error + _)"
    by (auto simp: try_res_Inr from_toml_def)
  show ?thesis
  proof (cases "preflight_tools rt ds :: 'p coding_registration_error + unit")
    case (Inl e)
    with assms(2) Inr show ?thesis by (auto simp: register_builtin_coding_capability_def)
  next
    case checked: (Inr u)
    with assms(2) Inr have run: "register_tools is_object workspace ds rt = (r, rt1)"
      by (simp add: register_builtin_coding_capability_def)
    from into_tool_definitions_Inr [OF m(2)] checked [unfolded preflight_Inr] run
      register_tools_adds [of ds is_object rt workspace, where 'p = 'p]
    have "r = Some (Inr ()) \<and> adds_tools workspace ds rt rt1 \<and> (runtime_ok is_object rt \<longrightarrow> runtime_ok is_object rt1)"
      by auto
    with m assms(1) show ?thesis by blast
  qed
qed

section \<open>What the built-in tools ask\<close>

definition coding_handlers ::
    "('v \<Rightarrow> (ustring, 'v) btree_map option) \<Rightarrow> ('v \<Rightarrow> ustring option) \<Rightarrow> ('w \<Rightarrow> workspace_fs)
       \<Rightarrow> ('w builtin_coding_tool \<Rightarrow> 'v tool_call \<Rightarrow> bool \<Rightarrow> 'v tool_output \<times> 'w builtin_coding_tool)
       \<Rightarrow> ('w builtin_coding_tool, 'v) tool_handler" where
  "coding_handlers as_object as_str policy execute =
     \<lparr>h_classify = builtin_classify as_object as_str policy, h_execute = execute\<rparr>"

lemma builtin_texts:
  "\<not> is_blank (lit ''read_file'')" "\<not> is_blank (lit ''search_files'')" "\<not> is_blank (lit ''apply_patch'')"
  "\<not> is_blank (lit ''run_command'')" "\<not> is_blank (lit ''coding'')" "\<not> is_blank (lit ''0.1.0'')"
  "\<not> is_blank (lit ''Coding Capability'')" "\<not> is_blank (lit ''patching mutates workspace files'')"
  "\<not> is_blank (lit ''Built-in tools for reading, searching, patching, and validating a local workspace.'')"
  "\<not> is_blank (lit ''builtin-coding'')" "\<not> is_blank (lit ''reserved'')"
  by (simp_all add: is_blank_iff lit_def is_whitespace_def)

lemma builtin_tool_ok:
  assumes "\<not> is_blank (description (lit name))" and "is_object (schema (lit name))"
    and "\<not> is_blank (lit name)" and "\<not> is_blank (cap_id cap)" and "\<not> is_blank (cap_version cap)"
    and "safety \<in> {ClassAlwaysAllow, ClassCallDependent}
      \<or> safety = ClassRequiresApproval \<and> (\<exists>why. reason = Some why \<and> \<not> is_blank (lit why))"
  shows "definition_ok is_object (into_definition (builtin_tool description schema name safety reason) cap)"
  using assms builtin_texts(10,11)
  by (auto simp: builtin_tool_def definition_ok_def into_definition_def Let_def unwrap_or_default_def)

lemma builtin_definitions:
  assumes "\<forall>name. \<not> is_blank (description name) \<and> is_object (schema name)"
  defines "m \<equiv> builtin_manifest description schema"
  shows "validate_manifest is_object m = (Inr () :: 'p capability_manifest_error + unit)"
  unfolding validate_manifest_Inr
proof (intro conjI)
  have cap: "manifest_capability m = \<lparr>cap_id = lit ''coding'', cap_version = lit ''0.1.0''\<rparr>"
    by (simp add: manifest_capability_def m_def builtin_manifest_def)
  show "\<forall>t \<in> set (manifest_tools m). definition_ok is_object (into_definition t (manifest_capability m))"
    unfolding cap using assms(1) builtin_texts(1-8)
    by (auto simp: m_def builtin_manifest_def intro!: builtin_tool_ok)
qed (use builtin_texts(7,9) in \<open>simp_all add: m_def builtin_manifest_def builtin_tool_def\<close>)

text \<open>
  C22. The built-in tools ask before they act: registered in an empty registry, reading and searching
  run at once, applying a patch always waits for an approval, running a command does what the command
  policy says of this call, and nothing else is known.
\<close>
theorem builtin_tools_ask_first:
  fixes call :: "'v tool_call" and rt1 :: "('w builtin_coding_tool, 'v) tool_runtime"
  assumes "\<forall>name. \<not> is_blank (description name) \<and> is_object (schema name)"
    and "register_builtin_coding_capability is_object (Inr (builtin_manifest description schema)) workspace
        (tool_runtime_new ident) = (r :: ('p coding_registration_error + unit) option, rt1)"
  shows "r = Some (Inr ())
    \<and> prepare_tool (coding_handlers as_object as_str policy execute) rt1 call =
      (if tc_tool_name call \<in> {lit ''read_file'', lit ''search_files''} then prepared_ready ident call
       else if tc_tool_name call = lit ''apply_patch'' then
         prepared_requiring_approval ident call (lit ''patching mutates workspace files'')
       else if tc_tool_name call = lit ''run_command'' then
         classified ident call (policy_of_decision (classify_call as_object as_str (policy workspace) call))
       else prepared_rejected ident call (unknown_tool_error (tc_tool_name call)))"
proof -
  let ?m = "builtin_manifest description schema"
  let ?ds = "map (\<lambda>t. into_definition t (manifest_capability ?m)) (manifest_tools ?m)"
  have free: "list_all (\<lambda>d. td_name d \<in> set BUILTIN_TOOL_NAMES
      \<and> bt_get (tools (tool_runtime_new ident :: ('w builtin_coding_tool, 'v) tool_runtime)) (td_name d) = None) ?ds"
    by (simp add: builtin_manifest_def builtin_tool_def BUILTIN_TOOL_NAMES_def tool_runtime_new_def)
  have good: "into_tool_definitions is_object ?m = (Inr ?ds :: 'p capability_manifest_error + _)"
    and "from_toml is_object (Inr ?m) = (Inr ?m :: 'p capability_manifest_error + _)"
    using builtin_definitions [of description is_object schema, where 'p = 'p] assms(1) by (simp_all add: from_toml_def into_tool_definitions_def)
  with assms(2) free have run: "register_tools is_object workspace ?ds (tool_runtime_new ident) = (r, rt1)"
    by (simp add: register_builtin_coding_capability_def preflight_Inr [where u = "()", THEN iffD2, OF free])
  from register_tools_adds [OF _ _ free, of is_object workspace, where 'p = 'p]
    into_tool_definitions_Inr [OF good] run
  have adds: "r = Some (Inr ())" "adds_tools workspace ?ds (tool_runtime_new ident) rt1"
    by auto
  have "prepare_tool (coding_handlers as_object as_str policy execute) rt1 call =
      (if tc_tool_name call \<in> {lit ''read_file'', lit ''search_files''} then prepared_ready ident call
       else if tc_tool_name call = lit ''apply_patch'' then
         prepared_requiring_approval ident call (lit ''patching mutates workspace files'')
       else if tc_tool_name call = lit ''run_command'' then
         classified ident call (policy_of_decision (classify_call as_object as_str (policy workspace) call))
       else prepared_rejected ident call (unknown_tool_error (tc_tool_name call)))"
    using adds(2)
    by (auto simp: adds_tools_def prepare_tool_def coding_handlers_def builtin_manifest_def builtin_tool_def
        into_definition_def Let_def unwrap_or_default_def tool_runtime_new_def builtin_coding_tool_new_def)
  with adds(1) show ?thesis by simp
qed

text \<open>The manifest of the crate with one-letter descriptions and no schemas, in an empty registry.\<close>

definition demo_registration ::
    "(unit coding_registration_error + unit) option \<times> (unit builtin_coding_tool, unit) tool_runtime" where
  "demo_registration =
     register_builtin_coding_capability (\<lambda>_. True) (Inr (builtin_manifest (\<lambda>_. [120]) (\<lambda>_. ()))) ()
       (tool_runtime_new (ToolDispatcherIdentity 7))"

theorem registration_is_all_or_nothing_witness:
  "(\<exists>e. fst demo_registration = Some (Inl e) \<and> snd demo_registration = tool_runtime_new (ToolDispatcherIdentity 7))
    \<or> fst demo_registration = Some (Inr ()) \<and> runtime_ok (\<lambda>_. True) (snd demo_registration)
      \<and> (\<exists>m ds. (Inr (builtin_manifest (\<lambda>_. [120]) (\<lambda>_. ())) :: unit + unit capability_manifest) = Inr m
           \<and> into_tool_definitions (\<lambda>_. True) m = (Inr ds :: unit capability_manifest_error + _)
           \<and> adds_tools () ds (tool_runtime_new (ToolDispatcherIdentity 7)) (snd demo_registration))"
  by (rule registration_is_all_or_nothing [OF runtime_ok_new])
    (simp add: demo_registration_def)

definition empty_workspace :: workspace_fs where
  "empty_workspace = \<lparr>ws_root = [], ws_lstat = \<lambda>_. LstatMissing, ws_canonicalize = \<lambda>_. None\<rparr>"

definition demo_handlers :: "(unit builtin_coding_tool, unit) tool_handler" where
  "demo_handlers = coding_handlers (\<lambda>_. None) (\<lambda>_. None) (\<lambda>_. empty_workspace) (\<lambda>h c x. (Success [] [] [], h))"

theorem builtin_tools_ask_first_witness:
  "\<forall>call. fst demo_registration = Some (Inr ())
    \<and> prepare_tool demo_handlers (snd demo_registration) call =
      (if tc_tool_name call \<in> {lit ''read_file'', lit ''search_files''} then
         prepared_ready (ToolDispatcherIdentity 7) call
       else if tc_tool_name call = lit ''apply_patch'' then
         prepared_requiring_approval (ToolDispatcherIdentity 7) call (lit ''patching mutates workspace files'')
       else if tc_tool_name call = lit ''run_command'' then
         classified (ToolDispatcherIdentity 7) call (policy_of_decision (classify_call (\<lambda>_. None) (\<lambda>_. None) empty_workspace call))
       else prepared_rejected (ToolDispatcherIdentity 7) call (unknown_tool_error (tc_tool_name call)))"
proof
  fix call :: "unit tool_call"
  have texts: "\<forall>name. \<not> is_blank [120] \<and> (\<lambda>_. True) ((\<lambda>_. ()) name)"
    by (simp add: is_blank_iff is_whitespace_def)
  obtain r rt1 where run: "demo_registration = (r, rt1)" by fastforce
  show "fst demo_registration = Some (Inr ())
    \<and> prepare_tool demo_handlers (snd demo_registration) call =
      (if tc_tool_name call \<in> {lit ''read_file'', lit ''search_files''} then
         prepared_ready (ToolDispatcherIdentity 7) call
       else if tc_tool_name call = lit ''apply_patch'' then
         prepared_requiring_approval (ToolDispatcherIdentity 7) call (lit ''patching mutates workspace files'')
       else if tc_tool_name call = lit ''run_command'' then
         classified (ToolDispatcherIdentity 7) call (policy_of_decision (classify_call (\<lambda>_. None) (\<lambda>_. None) empty_workspace call))
       else prepared_rejected (ToolDispatcherIdentity 7) call (unknown_tool_error (tc_tool_name call)))"
    using builtin_tools_ask_first [OF texts run [unfolded demo_registration_def]] by (simp add: run demo_handlers_def)
qed

end
