(* ===== verification/Command_Tool.thy ===== *)
theory Command_Tool
  imports Command_Safety Workspace Coding_Tools Read_Tool Search_Tool Patch_Tool
begin

text \<open>
  The run-command tool (\<open>execute\<close> of crates/capability-coding/src/command.rs): its arguments, the run
  of the command, and its output; and the execution of any built-in tool (tools.rs).
\<close>

definition process_security_policy :: ustring where
  "process_security_policy = lit ''no_new_privs_and_group_termination''"

definition exec_privilege_gain_blocked :: bool where "exec_privilege_gain_blocked = True"

definition command_content :: "'v json_build \<Rightarrow> command_outcome \<Rightarrow> ustring \<Rightarrow> ustring \<Rightarrow> 'v tool_content" where
  "command_content J outcome stdout stderr =
     ToolJson (js_object J (btree_from
       [(lit ''success'', js_bool J (status_success (co_status outcome))),
        (lit ''exit_code'', (case status_code (co_status outcome) of
            None \<Rightarrow> js_null J | Some code \<Rightarrow> js_number J code)),
        (lit ''stdout'', js_string J stdout),
        (lit ''stderr'', js_string J stderr)]))"

definition command_metadata ::
    "'v json_build \<Rightarrow> workspace_context \<Rightarrow> command_outcome \<Rightarrow> ustring \<times> bool \<Rightarrow> bool \<Rightarrow> bool
       \<Rightarrow> (ustring, 'v) btree_map" where
  "command_metadata J c outcome cwd stdout_shortened stderr_shortened =
     btree_from
       [(lit ''cwd'', js_string J (fst cwd)),
        (lit ''cwd_truncated'', js_bool J (snd cwd)),
        (lit ''stdout_bytes'', js_number J (unat (co_stdout_bytes outcome))),
        (lit ''stderr_bytes'', js_number J (unat (co_stderr_bytes outcome))),
        (lit ''stdout_truncated'', js_bool J (co_stdout_truncated outcome \<or> stdout_shortened)),
        (lit ''stderr_truncated'', js_bool J (co_stderr_truncated outcome \<or> stderr_shortened)),
        (lit ''output_incomplete'', js_bool J (co_output_incomplete outcome)),
        (lit ''process_scope'', js_string J (lit ''process_group'')),
        (lit ''residual_process_group_policy'',
           js_string J (lit ''kill_and_tracking_token_close_before_leader_reap'')),
        (lit ''background_process_policy'',
           js_string J (lit ''tracked_descendants_terminated_at_foreground_exit'')),
        (lit ''process_security_policy'', js_string J process_security_policy),
        (lit ''exec_privilege_gain_blocked'', js_bool J exec_privilege_gain_blocked),
        (lit ''detached_processes_tracked'', js_bool J False),
        (lit ''workspace'', context_metadata J c)]"

definition command_output ::
    "'v json_read \<Rightarrow> 'v json_build \<Rightarrow> workspace_context \<Rightarrow> command_outcome \<Rightarrow> 'v tool_output" where
  "command_output R J c outcome =
     (let cwd = truncate_json_string (join_components (wc_root c)) (2 * 1024);
          stream_budget = MAX_TOOL_CONTENT_SERIALIZED_BYTES div 2;
          (stdout, stdout_shortened) = truncate_json_string (co_stdout outcome) stream_budget;
          (stderr, stderr_shortened) = truncate_json_string (co_stderr outcome) stream_budget
      in finalize_output (encoded_len R)
           (Success [command_content J outcome stdout stderr]
             (command_metadata J c outcome cwd stdout_shortened stderr_shortened) []))"

definition command_failure_output :: "command_error \<Rightarrow> 'v tool_output" where
  "command_failure_output e =
     failure (command_error_code e) (command_error_text e) (command_error_retryable e)"

text \<open>The outer \<open>None\<close> is a run that does not return, the inner one a panic.\<close>

definition run_command_execute ::
    "command_os \<Rightarrow> command_host \<Rightarrow> 'v json_read \<Rightarrow> 'v json_build \<Rightarrow> workspace_context \<Rightarrow> 'v tool_call
       \<Rightarrow> ('v tool_output option \<times> command_state) option" where
  "run_command_execute os H R J c call =
     (let s0 = command_start MAX_OUTPUT_BYTES
      in case parse_run_command_arguments (as_object R) (as_str R) (tc_arguments call) of
           Inl e \<Rightarrow> Some (Some (failure ''tool_rejected'' (input_reason e) False), s0)
         | Inr command \<Rightarrow>
             (case run_shell_command os H (wc_root c) command s0 of
                None \<Rightarrow> None
              | Some (Inl CommandPanicked, s) \<Rightarrow> Some (None, s)
              | Some (Inl (CommandFailed e), s) \<Rightarrow> Some (Some (command_failure_output e), s)
              | Some (Inr outcome, s) \<Rightarrow> Some (Some (command_output R J c outcome), s)))"

text \<open>What the tool answers, of a run that returns.\<close>

lemma run_command_answers:
  assumes "run_command_execute os H R J c call = Some (answer, s)"
  shows "\<exists>out. answer = Some out \<and> (small_failure out
    \<or> (\<exists>command outcome. run_shell_command os H (wc_root c) command (command_start MAX_OUTPUT_BYTES)
          = Some (Inr outcome, s) \<and> out = command_output R J c outcome))"
proof (cases "parse_run_command_arguments (as_object R) (as_str R) (tc_arguments call)")
  case (Inl e)
  with assms show ?thesis by (auto simp: run_command_execute_def Let_def)
next
  case (Inr command)
  with assms obtain r where run: "run_shell_command os H (wc_root c) command (command_start MAX_OUTPUT_BYTES) = Some (r, s)"
    by (auto simp: run_command_execute_def Let_def split: option.splits sum.splits command_failure.splits)
  from run_ends [OF this] have "r \<noteq> Inl CommandPanicked"
    by (auto simp: ends_run_def failed_run_def)
  with assms Inr run show ?thesis
    by (auto simp: run_command_execute_def Let_def command_failure_output_def split: sum.splits command_failure.splits)
qed

section \<open>Any built-in tool\<close>

text \<open>
  Running a built-in tool (\<open>BuiltinCodingTool::execute\<close> of crates/capability-coding/src/tools.rs) on
  the disk. What runs a command is an argument, \<open>run\<close>. The outer \<open>None\<close> is a call that
  does not return, the inner one a panic.
\<close>

fun builtin_execute ::
    "'h system \<Rightarrow> 'v json_read \<Rightarrow> 'v json_build \<Rightarrow> (ustring \<Rightarrow> ustring)
       \<Rightarrow> (workspace_context \<Rightarrow> 'v tool_call \<Rightarrow> (nat \<Rightarrow> bool) \<Rightarrow> world \<Rightarrow> ('v tool_output option \<times> world) option)
       \<Rightarrow> workspace_context builtin_coding_tool \<Rightarrow> 'v tool_call \<Rightarrow> (nat \<Rightarrow> bool) \<Rightarrow> world
       \<Rightarrow> ('v tool_output option \<times> world) option" where
  "builtin_execute S R J debug run (ReadFile workspace) call flag w =
     (case read_execute S R J workspace flag call w of (out, w1) \<Rightarrow> Some (Some out, w1))"
| "builtin_execute S R J debug run (SearchFiles workspace) call flag w =
     search_execute S R J workspace flag call w"
| "builtin_execute S R J debug run (ApplyPatch workspace) call flag w =
     Some (patch_execute S R J debug workspace flag call w)"
| "builtin_execute S R J debug run (RunCommand workspace) call flag w = run workspace call flag w"

end
