(* ===== verification/Spec2Isabelle.thy ===== *)
theory Spec2Isabelle
  imports Tool_Manifest Tool_Fake Run_Recovery Run_Safety Command_Policy_Limits Patch_Safety Search_Walk
    Read_Properties Supervisor_Safety Command_Tool
begin

text \<open>
  The young-agent kernel: an agent runtime that drives a model and tools, and the event log that
  makes its runs observable, replayable and recoverable.

  \<^bold>\<open>The program.\<close> One Agent Run (crates/agent-runtime/src/runtime.rs) asks a model client for turns,
  sends the tool calls of each turn through a tool dispatcher, asks for approvals, and appends an
  event to a sink before and after everything that matters. Events carry consecutive sequences
  and are stored one per line in a file (crates/event-store/src/jsonl.rs). Replay
  (crates/event-store/src/replay.rs) folds a log into the state of its run. Tools live in a registry
  (crates/tool-runtime/src/registry.rs) behind plans that only their dispatcher can execute
  (crates/tool-runtime/src/execution.rs). Two of the built-in tools decide by themselves what may
  happen: run-command classifies a command line before anyone is asked to approve it
  (crates/capability-coding/src/command_policy.rs), apply-patch parses a unified diff and applies it
  to the text of one file (crates/capability-coding/src/patch.rs).

  \<^bold>\<open>Theories and code.\<close>
  \<^item> \<open>Prelude\<close>: strings as lists of code points, BTreeMap as a sorted list, results and operations
    that pass a state and may fail, with a Hoare-style triple and its rules.
  \<^item> \<open>Model_Runtime\<close> (model-runtime/src/client.rs, stream.rs, id.rs, fake.rs): requests, messages,
    stream events, the scripted client.
  \<^item> \<open>Tool_Execution\<close> (tool-runtime/src/execution.rs): plans, grants, identities, the bound on
    approval reasons. \<open>Tool_Dispatcher\<close> is the contract every dispatcher meets, a locale;
    \<open>Tool_Registry\<close> (registry.rs) and \<open>Tool_Fake\<close> (fake.rs) interpret it. \<open>Tool_Manifest\<close>
    (manifest.rs): manifests and their conversion to definitions.
  \<^item> \<open>Agent_Events\<close> (agent-runtime/src/run.rs, turn.rs), \<open>Stop_Token\<close> and \<open>Agent_Runtime\<close>
    (runtime.rs): the events, the latch that stops a run, and the driver, one definition for each
    method. \<open>Event_Sink\<close> is the contract of an event sink, a locale.
  \<^item> \<open>Replay\<close> (event-store/src/replay.rs) is the fold of the code with its positions, maps and panics;
    \<open>Replay_Spec\<close> says what a log means without them, \<open>Replay_Refinement\<close> proves that the code
    implements it, \<open>Replay_Properties\<close> what follows.
  \<^item> \<open>Jsonl_Store\<close> (event-store/src/jsonl.rs): one file, the open append handle and the outcomes of the
    system calls; \<open>Jsonl_Correct\<close> interprets \<open>Event_Sink\<close> for it, \<open>Jsonl_Recovery\<close> has the quiet
    file system, repair and reconcile, \<open>Log_Identity\<close> the identities of accepted events.
  \<^item> \<open>Run_Log\<close>, \<open>Run_Correct\<close>, \<open>Run_Theorems\<close>: inside the locale \<open>agent_run\<close>, over any dispatcher and
    sink that meet their contracts, the log of a run is accepted by the log machine at every step.
    \<open>Run_Gating\<close>: tools act after their record. \<open>Run_Frame\<close>: a runtime serves one run.
  \<^item> \<open>Runtime_Over_Store\<close>, \<open>Run_Recovery\<close>, \<open>Run_Safety\<close>: the runtime over the registry and the JSONL
    store, as the command-line surface assembles it.
  \<^item> \<open>Unix_Paths\<close>, \<open>Path_Probe\<close>: the components, joins and parents of std's \<open>Path\<close> on Unix, and the walk
    of command_policy.rs that resolves an operand of a command step by step under a budget of
    probes. \<open>Shell_Parser\<close>: the lexical scan of a command line, \<open>Command_Options\<close>: the options of the
    commands it knows, \<open>Command_Policy\<close>: the classification (command_policy.rs, command_input.rs).
    \<open>Allowed_Commands\<close> says, apart from the checks of the code, which forms of commands run
    unasked and which of their words are paths; \<open>Command_Policy_Safety\<close>: what is allowed has such a
    form and stays inside the workspace, and what can never be approved; \<open>Command_Policy_Limits\<close>:
    wrappers, the budget that hides an elevation, and a pattern file that is not probed;
    \<open>Shell_Quoting\<close>: the scanner reads back what a shell quoter prints.
  \<^item> \<open>Tool_Support\<close> (tool_support.rs): arguments, truncation and the output budget.
    \<open>Patch_Errors\<close>, \<open>Unified_Diff\<close> (\<open>parse_patch\<close>), \<open>Patch_Apply\<close> (\<open>apply_hunks\<close>, against the relation
    \<open>patches\<close>): patch.rs. \<open>Patch_Properties\<close>: cancellation, reversal (of patches that
    join no lines), where insertions land.
    \<open>Diff_Printing\<close>: a printer of unified diffs, which the parser inverts.
  \<^item> \<open>Disk\<close>: the file system below workspace.rs, as inodes and directory entries, with one operation
    for each system call of the code. \<open>Workspace_Errors\<close>, \<open>Publish_Checks\<close>, \<open>Workspace\<close>, \<open>Publish\<close>
    (workspace.rs): requested paths, snapshots and validations, the recovery directory, staging,
    atomic replacement and creation, cleanup and the evidence of errors; \<open>commit_existing_file\<close> is
    split into its phases before, at and after the exchange. \<open>Utf8\<close>: the bytes of a string and
    \<open>String::from_utf8\<close>. \<open>Patch_Tool\<close> (patch.rs, from \<open>execute\<close> on): the tool over all of these.
  \<^item> \<open>Disk_Invariant\<close> states, as locales, what a property of the disk needs to survive the calls of the
    code; \<open>Publish_Frame\<close> proves inside them that every operation keeps it; \<open>Publish_Safety\<close>
    instantiates them with a kept file, a held entry and held bytes, and proves what publication
    means. \<open>Patch_Safety\<close>: no file is lost, the answers are true, and a patch that was applied is
    on the disk. \<open>Demo_Disk\<close>: a small disk on which the witnesses run the code.
  \<^item> search-files (search.rs): \<open>Literal_Search\<close> is the matcher with its table of fallbacks and the proof
    that its state is the longest overlap of needle and text, \<open>Search_Lines\<close> the line and the UTF-8
    validator that are fed chunk by chunk, \<open>Search_Tool\<close> the results and their budgets, the reader,
    the walk over a directory tree with its explicit stack, and the bounded output. \<open>Search_Files\<close>:
    the reader computes a reference that works on the lines of the whole file. \<open>Search_Tree\<close>: the walk
    ends and keeps its budgets. \<open>Search_Walk\<close>: it reports the files of the tree in order.
  \<^item> \<open>Read_Tool\<close>, \<open>Read_Properties\<close>: read-file (read.rs). \<open>Coding_Tools\<close>: the manifest of the built-in
    tools, its registration and their decisions (tools.rs, coding-capability.toml);
    the execution of a built-in tool on the disk is in \<open>Command_Tool\<close>.
  \<^item> run-command (command.rs, git_environment.rs, platform-process/src/lib.rs): \<open>Command_Environment\<close>
    is the environment and the search path of the child (exactly the variables of a written-out list
    are missing, others are inherited), \<open>Command_Errors\<close> the errors, statuses and
    captured streams, \<open>Command_Process\<close> the operations on one process group (\<open>CommandProcess\<close>,
    \<open>DescendantToken\<close>), \<open>Command_Cleanup\<close> admission, hand-over and cleanup, \<open>Command_Run\<close>
    \<open>run_shell_command\<close> with its loop, round by round, and \<open>Command_Tool\<close> the arguments and the output.
    These operations are of the type \<open>loop_op\<close> of \<open>Loop_Operations\<close>: a state is passed, an error is a
    value, and \<open>None\<close> is a loop that does not end; \<open>holds\<close> is their triple.
  \<^item> \<open>Process_Phases\<close> states, as a locale, what the events of a process may do to an abstract phase,
    and proves inside it what each operation on the group does; \<open>Command_Lifecycle\<close> interprets it with
    the life of the leader and of its slot. \<open>Command_Rounds\<close>: the invariant of the loop,
    \<open>Command_Safety\<close>: start, cleanup and the end of a run, \<open>Command_Ownership\<close>: the properties.
    \<open>Command_Prompt\<close> and \<open>Command_Return\<close>: every operation and the loop return on an operating
    system whose promises \<open>prompt_os\<close> states; a stage that goes down and the instant that bounds it
    are the measure of the loop.
  \<^item> \<open>Command_Supervisor\<close> (\<open>CommandSupervisor\<close> of command.rs): the commands that were handed over, one
    round of supervision, slots, panics and backoff, and the steps of the worker and the runs as an
    inductive relation. \<open>Supervisor_Safety\<close>: its invariant over all reachable states, which continues
    the life that a run has left, and the completion of a command whose group is gone.

  \<^bold>\<open>Parameters.\<close> JSON values, the JSON codec (encoding and decoding an event are inverse and produce
  no newline byte: \<open>codec_ok\<close>), TOML, the model client, tool handlers, the run control and the errors
  of the operating system are arguments. A model stream is the finite list of the events it yields.
  Stop requests of other threads arrive by an arbitrary schedule, between any two accesses of the
  run to its token. The file system may fail any call; a failed write leaves any prefix of the
  record. What lstat and canonicalize answer is a function of the path, stable during one
  classification of a command. The cancellation flag of a tool call is read by a schedule: an
  arbitrary answer for every load. Below apply-patch other
  processes act before every system call, as an arbitrary function of the disk, and any call may
  fail, without effect; the standard library's own retries of interrupted calls are not seen. How
  cap-std resolves a path inside the opened root, which inode a new file gets, how many bytes a read
  or a write moves (at least one), what a directory lists, the clock, random names and the content hash are parameters. The
  theorems name what they need of other processes (\<open>leaves_file\<close>, \<open>leaves_slot\<close>, \<open>leaves_bytes\<close>).
  Debug formatting of strings is a parameter of the messages. Below run-command the operating system
  and the other threads are an arbitrary answer for every call, by the number of the call
  (\<open>command_os\<close>): signals, waits, reads, polls, the clock, the state of the process-wide supervisor.

  \<^bold>\<open>Bounds.\<close> A run makes at most 128 turns (\<open>MAX_TURNS\<close>, the list of turn numbers of \<open>run_turns\<close>), so
  it terminates; there is no fuel. The walk of a search and the fallback loop of its matcher are
  partial functions, where \<open>None\<close> is a loop that does not end; both are proved to end, the walk by
  the entries left in its budget and on its stack (\<open>walk_measure\<close>), whatever the disk does meanwhile. Event sequences are 64-bit words; the runtime's checked increment
  panics at the end of their range, which is a failure value of the model. The classification
  of a command carries the budgets of the code (32 simple commands, 256 words, 256 path candidates,
  256 path inspections, four transparent wrappers); running out of one is a
  decision of its own. Line numbers of a diff are \<open>usize\<close> values whose checked operations are
  errors; a slice of a string off a character boundary panics, which is the value
  \<open>DiffPanicked\<close>.

  \<^bold>\<open>Not modelled.\<close> The Display and Error impls of the error types, serde attributes, Debug and Clone.
  Of workspace.rs the opening of the root, the git probe (a child process), the variants for other
  platforms and the fault injection of its tests. What a process does once it runs: a child is the answers
  of the operating system about it. The command-line surface around the runtime (cli-proof-surface)
  is arguments, terminal text and signals around the runtime over its store.
\<close>

end
